(* ===== verification/Trading_Prelude.thy ===== *)
theory Trading_Prelude
  imports Main "HOL-Library.Word"
begin

unbundle bit_operations_syntax

text \<open>
  Shared vocabulary of the development.

  \<^item> Exceptions of the Python code are values: an operation that may raise returns
    \<open>py_error + 'a\<close>, with \<open>Inl\<close> for the raised exception. \<open>rbind\<close> sequences two
    such operations, \<open>fold_result\<close> runs one over a list, as a \<open>for\<close> loop does.
  \<^item> List reads and writes by index go through \<open>py_get\<close> and \<open>py_set\<close>, which raise
    \<open>IndexError\<close> out of range, as Python does.
  \<^item> \<open>last_n\<close> is the suffix of a history that a bounded window keeps.
  \<^item> The collections \<open>result_simps\<close> and \<open>window_simps\<close> gather the rewrite rules the
    component theories hand to the simplifier.
\<close>

named_theorems result_simps "rewrite rules of the exception monad"
named_theorems window_simps "rewrite rules for bounded windows"

section \<open>Exceptions as values\<close>

datatype py_error =
    ValueError string
  | StructError
  | ZeroDivisionError
  | OverflowError
  | TypeError string
  | IndexError
  | KeyError
  | AttributeError string
  | CanonicalFormatError string
  | InvalidOperation
  | RuntimeError string
  | UnboundLocalError
  | AlpacaDownloadError string "int option" bool

type_synonym 'a result = "py_error + 'a"

definition rbind :: "'e + 'a \<Rightarrow> ('a \<Rightarrow> 'e + 'b) \<Rightarrow> 'e + 'b" where
  "rbind m f = (case m of Inl e \<Rightarrow> Inl e | Inr x \<Rightarrow> f x)"

lemma rbind_Inl [simp, result_simps]: "rbind (Inl e) f = Inl e"
  by (simp add: rbind_def)

lemma rbind_Inr [simp, result_simps]: "rbind (Inr x) f = f x"
  by (simp add: rbind_def)

lemma rbind_eq_Inr: "rbind m f = Inr y \<longleftrightarrow> (\<exists>x. m = Inr x \<and> f x = Inr y)"
  by (cases m) auto

lemma rbind_InrE: "rbind m f = Inr y \<Longrightarrow> (\<And>x. m = Inr x \<Longrightarrow> f x = Inr y \<Longrightarrow> P) \<Longrightarrow> P"
  by (cases m) simp_all

lemma rbind_eq_Inl: "rbind m f = Inl e \<longleftrightarrow> m = Inl e \<or> (\<exists>x. m = Inr x \<and> f x = Inl e)"
  by (cases m) auto

lemma rbind_assoc: "rbind (rbind m f) g = rbind m (\<lambda>x. rbind (f x) g)"
  by (cases m) auto

lemma rbind_if: "rbind (if b then m else n) f = (if b then rbind m f else rbind n f)"
  by simp

definition is_ok :: "'e + 'a \<Rightarrow> bool" where
  "is_ok m = (case m of Inl _ \<Rightarrow> False | Inr _ \<Rightarrow> True)"

lemma is_ok_simps [simp, result_simps]: "is_ok (Inr x)" "\<not> is_ok (Inl e)"
  by (simp_all add: is_ok_def)

lemma is_ok_iff: "is_ok m \<longleftrightarrow> (\<exists>x. m = Inr x)"
  by (cases m) auto

fun fold_result :: "('s \<Rightarrow> 'a \<Rightarrow> 'e + 's) \<Rightarrow> 's \<Rightarrow> 'a list \<Rightarrow> 'e + 's" where
  "fold_result f s [] = Inr s"
| "fold_result f s (x # xs) = rbind (f s x) (\<lambda>s'. fold_result f s' xs)"

lemma fold_result_append:
  "fold_result f s (xs @ ys) = rbind (fold_result f s xs) (\<lambda>s'. fold_result f s' ys)"
  by (induction xs arbitrary: s) (simp_all add: rbind_assoc)

text \<open>A list comprehension whose element may raise.\<close>

fun map_result :: "('a \<Rightarrow> 'b result) \<Rightarrow> 'a list \<Rightarrow> 'b list result" where
  "map_result f [] = Inr []"
| "map_result f (x # xs) = rbind (f x) (\<lambda>y. rbind (map_result f xs) (\<lambda>ys. Inr (y # ys)))"

text \<open>An invariant that every step keeps, with every step returning, is kept by the loop.\<close>

lemma fold_result_invariant:
  assumes "\<And>s x. I s \<Longrightarrow> x \<in> set xs \<Longrightarrow> \<exists>s'. f s x = Inr s' \<and> I s'" and "I s"
  shows "\<exists>s'. fold_result f s xs = Inr s' \<and> I s'"
  using assms
proof (induction xs arbitrary: s)
  case Nil
  then show ?case by simp
next
  case (Cons x xs)
  then obtain s' where "f s x = Inr s'" "I s'" by (meson list.set_intros(1))
  with Cons.IH Cons.prems(1) show ?case by auto
qed

section \<open>Checked list access\<close>

definition py_get :: "'a list \<Rightarrow> nat \<Rightarrow> 'a result" where
  "py_get xs i = (if i < length xs then Inr (xs ! i) else Inl IndexError)"

definition py_set :: "'a list \<Rightarrow> nat \<Rightarrow> 'a \<Rightarrow> 'a list result" where
  "py_set xs i v = (if i < length xs then Inr (xs[i := v]) else Inl IndexError)"

lemma py_get_ok [simp, result_simps]: "i < length xs \<Longrightarrow> py_get xs i = Inr (xs ! i)"
  by (simp add: py_get_def)

lemma py_set_ok [simp, result_simps]: "i < length xs \<Longrightarrow> py_set xs i v = Inr (xs[i := v])"
  by (simp add: py_set_def)

lemma py_get_Inr_iff: "py_get xs i = Inr v \<longleftrightarrow> i < length xs \<and> xs ! i = v"
  by (simp add: py_get_def)

lemma py_set_Inr_iff: "py_set xs i v = Inr ys \<longleftrightarrow> i < length xs \<and> ys = xs[i := v]"
  by (auto simp: py_set_def)

section \<open>Suffix windows of a history\<close>

definition last_n :: "nat \<Rightarrow> 'a list \<Rightarrow> 'a list" where
  "last_n n xs = drop (length xs - n) xs"

lemma length_last_n [simp, window_simps]: "length (last_n n xs) = min n (length xs)"
  by (simp add: last_n_def)

lemma last_n_Nil [simp, window_simps]: "last_n n [] = []"
  by (simp add: last_n_def)

lemma last_n_all [window_simps]: "length xs \<le> n \<Longrightarrow> last_n n xs = xs"
  by (simp add: last_n_def)

lemma set_last_n: "set (last_n n xs) \<subseteq> set xs"
  by (simp add: last_n_def set_drop_subset)

lemma map_last_n: "map f (last_n n xs) = last_n n (map f xs)"
  by (simp add: last_n_def drop_map)

text \<open>Dropping the oldest element before or after an append makes no difference.\<close>

lemma last_n_append: "last_n n (last_n n xs @ ys) = last_n n (xs @ ys)"
proof (cases "length xs \<le> n")
  case True
  then show ?thesis by (simp add: last_n_all)
next
  case False
  let ?d = "length xs - n"
  have "last_n n (xs @ ys) = drop (?d + length ys) (xs @ ys)"
    using False by (simp add: last_n_def)
  also have "\<dots> = drop (length ys) (drop ?d (xs @ ys))"
    by (simp add: drop_drop add.commute)
  also have "drop ?d (xs @ ys) = last_n n xs @ ys"
    using False by (simp add: last_n_def)
  finally show ?thesis
    using False by (simp add: last_n_def)
qed

lemma last_n_full: "length xs = n \<Longrightarrow> 0 < n \<Longrightarrow> last_n n (xs @ [x]) = tl xs @ [x]"
  by (cases xs) (simp_all add: last_n_def)

lemma last_n_snoc: "length xs < n \<Longrightarrow> last_n n (xs @ [x]) = xs @ [x]"
  by (simp add: last_n_def)

lemma sum_list_bound:
  fixes xs :: "int list"
  assumes "\<forall>x\<in>set xs. 0 \<le> x \<and> x \<le> b" and "length xs \<le> n" and "0 \<le> b"
  shows "0 \<le> sum_list xs \<and> sum_list xs \<le> int n * b"
proof -
  have nonneg: "0 \<le> sum_list xs" and len: "sum_list xs \<le> int (length xs) * b"
    using assms(1) by (induction xs) (auto simp: algebra_simps)
  have "int (length xs) * b \<le> int n * b"
    using assms(2,3) by (intro mult_right_mono) auto
  with nonneg len show ?thesis by linarith
qed

end
