(* ===== verification/Packet_Codec.thy ===== *)
theory Packet_Codec
  imports Trading_Prelude
begin

text \<open>
  The fixed 32-byte wire packet: \<open>tools/reference_model/protocol_reference.py\<close> and the
  serialisation half of \<open>tools/reference_model/market_model.py\<close>.

  A Python \<open>bytes\<close> value is a list of \<open>8 word\<close>. The standard \<open>struct\<close> module is
  modelled for the one format the code uses, \<open>">BBHQQIBIH"\<close>: big-endian unsigned fields
  of the widths in \<open>packet_format\<close>, with \<open>StructError\<close> for a value that does not fit.
  The CRC is the code's integer loop; \<open>crc_word\<close> is its reading on 8-bit words, used
  to prove which transmission errors it detects.
\<close>

type_synonym byte = "8 word"

section \<open>Protocol constants\<close>

abbreviation (input) PACKET_BYTES :: nat where "PACKET_BYTES \<equiv> 32"
abbreviation (input) SYNC_VERSION :: int where "SYNC_VERSION \<equiv> 0xA1"
abbreviation (input) MSG_MARKET_QUOTE :: int where "MSG_MARKET_QUOTE \<equiv> 0x01"
abbreviation (input) MSG_MARKET_TRADE :: int where "MSG_MARKET_TRADE \<equiv> 0x02"
abbreviation (input) MSG_LOOPBACK :: int where "MSG_LOOPBACK \<equiv> 0x07"
abbreviation (input) STATUS_OK :: int where "STATUS_OK \<equiv> 0x01"
abbreviation (input) STATUS_BAD_SYNC :: int where "STATUS_BAD_SYNC \<equiv> 0xE1"
abbreviation (input) STATUS_BAD_CHECKSUM :: int where "STATUS_BAD_CHECKSUM \<equiv> 0xE2"
abbreviation (input) STATUS_BAD_TYPE :: int where "STATUS_BAD_TYPE \<equiv> 0xE3"
abbreviation (input) STATUS_BAD_SYMBOL :: int where "STATUS_BAD_SYMBOL \<equiv> 0xE4"
abbreviation (input) STATUS_DUPLICATE_SEQ :: int where "STATUS_DUPLICATE_SEQ \<equiv> 0xE5"
abbreviation (input) STATUS_STALE_SEQ :: int where "STATUS_STALE_SEQ \<equiv> 0xE6"
abbreviation (input) STATUS_BAD_SIDE :: int where "STATUS_BAD_SIDE \<equiv> 0xE7"

section \<open>CRC-8\<close>

definition crc8_shift :: "int \<Rightarrow> int" where
  "crc8_shift crc =
     (if crc AND 0x80 \<noteq> 0 then (push_bit 1 crc XOR 0x07) AND 0xFF
      else push_bit 1 crc AND 0xFF)"

definition crc8_byte :: "int \<Rightarrow> byte \<Rightarrow> int" where
  "crc8_byte crc value = (crc8_shift ^^ 8) (crc XOR uint value)"

definition crc8 :: "byte list \<Rightarrow> int result" where
  "crc8 body =
     (if length body \<noteq> PACKET_BYTES - 1
      then Inl (ValueError ''CRC input must contain bytes 0..30'')
      else Inr (foldl crc8_byte 0 body))"

section \<open>Big-endian packing of unsigned fields\<close>

fun be_bytes :: "nat \<Rightarrow> int \<Rightarrow> byte list" where
  "be_bytes 0 v = []"
| "be_bytes (Suc n) v = word_of_int (v div 256 ^ n) # be_bytes n v"

fun be_int :: "byte list \<Rightarrow> int" where
  "be_int [] = 0"
| "be_int (b # bs) = uint b * 256 ^ length bs + be_int bs"

definition packet_format :: "nat list" where
  "packet_format = [1, 1, 2, 8, 8, 4, 1, 4, 2]"

definition pack_field :: "nat \<Rightarrow> int \<Rightarrow> byte list result" where
  "pack_field n v = (if 0 \<le> v \<and> v < 256 ^ n then Inr (be_bytes n v) else Inl StructError)"

fun struct_pack :: "nat list \<Rightarrow> int list \<Rightarrow> byte list result" where
  "struct_pack [] [] = Inr []"
| "struct_pack (n # ns) (v # vs) =
     rbind (pack_field n v) (\<lambda>b. rbind (struct_pack ns vs) (\<lambda>bs. Inr (b @ bs)))"
| "struct_pack _ _ = Inl StructError"

fun split_fields :: "nat list \<Rightarrow> byte list \<Rightarrow> int list" where
  "split_fields [] bs = []"
| "split_fields (n # ns) bs = be_int (take n bs) # split_fields ns (drop n bs)"

definition struct_unpack :: "nat list \<Rightarrow> byte list \<Rightarrow> int list result" where
  "struct_unpack ns bs =
     (if length bs = sum_list ns then Inr (split_fields ns bs) else Inl StructError)"

section \<open>The protocol reference\<close>

definition pack ::
  "int \<Rightarrow> int \<Rightarrow> int \<Rightarrow> int \<Rightarrow> int \<Rightarrow> int \<Rightarrow> int \<Rightarrow> int \<Rightarrow> int \<Rightarrow> byte list result" where
  "pack sync_version message_type symbol_id timestamp_ns data quantity side_status sequence flags =
     rbind (struct_pack packet_format
              [sync_version, message_type, symbol_id, timestamp_ns, data,
               quantity, side_status, sequence, flags])
       (\<lambda>body. rbind (crc8 body) (\<lambda>crc. Inr (body @ [word_of_int crc])))"

definition status_for :: "byte list \<Rightarrow> int result" where
  "status_for raw =
     (if length raw \<noteq> PACKET_BYTES then Inl (ValueError ''packet must be 32 bytes'')
      else if uint (raw ! 0) \<noteq> SYNC_VERSION then Inr STATUS_BAD_SYNC
      else rbind (crc8 (take 31 raw)) (\<lambda>crc.
        if uint (raw ! 31) \<noteq> crc then Inr STATUS_BAD_CHECKSUM
        else if uint (raw ! 1) \<noteq> MSG_LOOPBACK then Inr STATUS_BAD_TYPE
        else Inr STATUS_OK))"

section \<open>Normalized market events on the wire\<close>

record market_event =
  ev_message_type :: int
  ev_symbol_id :: int
  ev_timestamp_ns :: int
  ev_price :: int
  ev_quantity :: int
  ev_side :: int
  ev_sequence :: int
  ev_flags :: int

definition event_packet :: "int \<Rightarrow> market_event \<Rightarrow> byte list result" where
  "event_packet sync_version e =
     rbind (struct_pack packet_format
              [sync_version, ev_message_type e, ev_symbol_id e, ev_timestamp_ns e, ev_price e,
               ev_quantity e, ev_side e, ev_sequence e, ev_flags e])
       (\<lambda>body. rbind (crc8 body) (\<lambda>crc. Inr (body @ [word_of_int crc])))"

definition decode_event :: "byte list \<Rightarrow> market_event result" where
  "decode_event packet =
     (if length packet \<noteq> PACKET_BYTES then Inl (ValueError ''packet must be 32 bytes'')
      else rbind (struct_unpack packet_format (take 31 packet)) (\<lambda>fields.
        case fields of
          [_, message_type, symbol_id, timestamp_ns, price, quantity, side, sequence, flags] \<Rightarrow>
            Inr \<lparr>ev_message_type = message_type, ev_symbol_id = symbol_id,
                 ev_timestamp_ns = timestamp_ns, ev_price = price, ev_quantity = quantity,
                 ev_side = side, ev_sequence = sequence, ev_flags = flags\<rparr>
        | _ \<Rightarrow> Inl (ValueError ''unpack'')))"

definition make_packet ::
  "int \<Rightarrow> int \<Rightarrow> int \<Rightarrow> int \<Rightarrow> int \<Rightarrow> int \<Rightarrow> int \<Rightarrow> int \<Rightarrow> int \<Rightarrow> byte list result" where
  "make_packet message_type symbol_id timestamp_ns price quantity side sequence flags sync_version =
     event_packet sync_version
       \<lparr>ev_message_type = message_type, ev_symbol_id = symbol_id,
        ev_timestamp_ns = timestamp_ns, ev_price = price, ev_quantity = quantity,
        ev_side = side, ev_sequence = sequence, ev_flags = flags\<rparr>"

text \<open>The events whose fields fit the wire format.\<close>

definition wire_event :: "market_event \<Rightarrow> bool" where
  "wire_event e \<longleftrightarrow>
     0 \<le> ev_message_type e \<and> ev_message_type e < 2 ^ 8 \<and>
     0 \<le> ev_symbol_id e \<and> ev_symbol_id e < 2 ^ 16 \<and>
     0 \<le> ev_timestamp_ns e \<and> ev_timestamp_ns e < 2 ^ 64 \<and>
     0 \<le> ev_price e \<and> ev_price e < 2 ^ 64 \<and>
     0 \<le> ev_quantity e \<and> ev_quantity e < 2 ^ 32 \<and>
     0 \<le> ev_side e \<and> ev_side e < 2 ^ 8 \<and>
     0 \<le> ev_sequence e \<and> ev_sequence e < 2 ^ 32 \<and>
     0 \<le> ev_flags e \<and> ev_flags e < 2 ^ 16"
section \<open>Laws of the field encoding\<close>

lemma length_be_bytes [simp]: "length (be_bytes n v) = n"
  by (induction n) simp_all

lemma be_int_bounds: "0 \<le> be_int bs \<and> be_int bs < 256 ^ length bs"
proof (induction bs)
  case Nil
  then show ?case by simp
next
  case (Cons b bs)
  have b: "0 \<le> uint b" "uint b \<le> 255"
    using uint_lt2p [of b] by simp_all
  then have "uint b * 256 ^ length bs \<le> 255 * 256 ^ length bs"
    by (intro mult_right_mono) auto
  with Cons have "uint b * 256 ^ length bs + be_int bs < 256 ^ Suc (length bs)"
    unfolding power_Suc by linarith
  with Cons b show ?case by (simp del: power_Suc)
qed

lemma be_int_be_bytes: "be_int (be_bytes n v) = v mod 256 ^ n"
proof (induction n)
  case 0
  then show ?case by simp
next
  case (Suc n)
  have "v mod 256 ^ Suc n = v mod (256 ^ n * 256)"
    by (simp add: mult.commute)
  also have "\<dots> = 256 ^ n * (v div 256 ^ n mod 256) + v mod 256 ^ n"
    by (rule zmod_zmult2_eq) simp
  finally show ?case
    using Suc by (simp add: uint_word_of_int mult.commute)
qed

lemma be_bytes_mod: "be_bytes n (v + c * 256 ^ n) = be_bytes n v"
proof (induction n arbitrary: c)
  case 0
  then show ?case by simp
next
  case (Suc n)
  have split: "c * 256 ^ Suc n = (c * 256) * 256 ^ n" by simp
  have "(v + (c * 256) * 256 ^ n) div 256 ^ n = v div 256 ^ n + c * 256"
    by (simp add: div_mult_self1)
  moreover have "(word_of_int (v div 256 ^ n + c * 256) :: byte) = word_of_int (v div 256 ^ n)"
    by (rule word_of_int_eq_iff [THEN iffD2]) (simp add: take_bit_eq_mod)
  ultimately show ?case
    unfolding split be_bytes.simps using Suc [of "c * 256"] by simp
qed

lemma be_bytes_be_int: "be_bytes (length bs) (be_int bs) = bs"
proof (induction bs)
  case Nil
  then show ?case by simp
next
  case (Cons b bs)
  have "be_int (b # bs) div 256 ^ length bs = uint b"
    using be_int_bounds [of bs] by (simp add: div_pos_pos_trivial)
  moreover have "be_bytes (length bs) (be_int (b # bs)) = bs"
    using be_bytes_mod [of "length bs" "be_int bs" "uint b"] Cons by (simp add: add.commute)
  ultimately show ?case by simp
qed

lemma pack_field_InrD:
  "pack_field n v = Inr b \<Longrightarrow> length b = n \<and> be_int b = v"
  by (auto simp: pack_field_def be_int_be_bytes split: if_splits)

lemma pack_field_be_int: "pack_field (length b) (be_int b) = Inr b"
  using be_int_bounds [of b] by (simp add: pack_field_def be_bytes_be_int)

lemma struct_pack_InrD:
  "struct_pack ns vs = Inr bs \<Longrightarrow> length bs = sum_list ns \<and> split_fields ns bs = vs"
  by (induction ns vs arbitrary: bs rule: struct_pack.induct)
     (auto simp: rbind_eq_Inr dest: pack_field_InrD)

lemma struct_pack_split:
  "length bs = sum_list ns \<Longrightarrow> struct_pack ns (split_fields ns bs) = Inr bs"
proof (induction ns arbitrary: bs)
  case Nil
  then show ?case by simp
next
  case (Cons n ns)
  have "pack_field n (be_int (take n bs)) = Inr (take n bs)"
    using pack_field_be_int [of "take n bs"] Cons.prems by simp
  moreover have "struct_pack ns (split_fields ns (drop n bs)) = Inr (drop n bs)"
    using Cons.prems by (intro Cons.IH) simp
  ultimately show ?case by simp
qed

lemma sum_packet_format [simp]: "sum_list packet_format = 31"
  by (simp add: packet_format_def)

lemma struct_unpack_pack:
  "struct_pack ns vs = Inr bs \<Longrightarrow> struct_unpack ns bs = Inr vs"
  by (auto simp: struct_unpack_def dest: struct_pack_InrD)

section \<open>The checksum on 8-bit words\<close>

definition crc_shift_word :: "byte \<Rightarrow> byte" where
  "crc_shift_word w = (if bit w 7 then push_bit 1 w XOR 7 else push_bit 1 w)"

definition crc_byte_word :: "byte \<Rightarrow> byte" where
  "crc_byte_word = crc_shift_word ^^ 8"

definition crc_word :: "byte \<Rightarrow> byte list \<Rightarrow> byte" where
  "crc_word = foldl (\<lambda>c b. crc_byte_word (c XOR b))"

lemma crc8_shift_uint: "crc8_shift (uint w) = uint (crc_shift_word w)"
proof -
  have msb: "uint w AND 128 \<noteq> 0 \<longleftrightarrow> bit w 7"
  proof -
    have "bit (128::int) n \<longleftrightarrow> n = 7" for n
      using bit_exp_iff [of 7 n, where 'a = int] by (auto simp: possible_bit_def)
    then have "uint w AND 128 = 0 \<longleftrightarrow> (\<forall>n. \<not> (bit (uint w) n \<and> n = 7))"
      unfolding bit_eq_iff [where 'a = int] by (simp add: bit_and_iff)
    then show ?thesis
      by (simp add: bit_uint_iff)
  qed
  have low: "(x::int) AND 255 = take_bit 8 x" for x
    by (simp add: take_bit_eq_mask mask_eq_exp_minus_1)
  have xor7: "take_bit 8 (x XOR 7) = take_bit 8 x XOR (7::int)" for x
    by (simp add: take_bit_xor)
  have double: "take_bit 8 (push_bit 1 (uint w)) = uint (push_bit 1 w)"
    by (simp add: uint_word_ariths take_bit_eq_mod)
  show ?thesis
    unfolding crc8_shift_def crc_shift_word_def msb low xor7 double
    by (auto simp: unsigned_xor_eq)
qed

lemma crc8_byte_uint: "crc8_byte (uint c) b = uint (crc_byte_word (c XOR b))"
proof -
  have "(crc8_shift ^^ n) (uint w) = uint ((crc_shift_word ^^ n) w)" for n w
    by (induction n arbitrary: w) (simp_all add: crc8_shift_uint)
  then show ?thesis
    by (simp add: crc8_byte_def crc_byte_word_def flip: unsigned_xor_eq)
qed

lemma foldl_crc8_byte: "foldl crc8_byte (uint c) bs = uint (crc_word c bs)"
  unfolding crc_word_def
  by (induction bs arbitrary: c) (simp_all add: crc8_byte_uint)

lemma crc8_eq_word: "length body = 31 \<Longrightarrow> crc8 body = Inr (uint (crc_word 0 body))"
  using foldl_crc8_byte [of 0 body] by (simp add: crc8_def)

lemma crc_word_simps [simp]:
  "crc_word c [] = c" "crc_word c (b # bs) = crc_word (crc_byte_word (c XOR b)) bs"
  "crc_word c (xs @ ys) = crc_word (crc_word c xs) ys"
  by (simp_all add: crc_word_def)

end
