(* ===== verification/Sliding_Window.thy ===== *)
theory Sliding_Window
  imports Trading_Prelude
begin

text \<open>
  The interface between the rolling features of the market model and the circular buffers
  that store them. A provider offers a \<open>push\<close> that may raise, the current \<open>window\<close>
  (oldest element first) and a well-formedness predicate; it promises that pushing on a
  well-formed buffer returns and keeps exactly the last \<open>width\<close> elements.
  \<open>summed_window\<close> adds a running total of a weight of the elements, which the provider
  maintains incrementally.

  The second part is the generic circular buffer that all four histories of
  \<open>_SymbolState\<close> follow: a fixed-length list, a write pointer and a fill count.
\<close>

section \<open>The interface\<close>

locale sliding_window =
  fixes width :: nat
    and push :: "'r \<Rightarrow> 'a \<Rightarrow> 'r result"
    and window :: "'r \<Rightarrow> 'a list"
    and wf :: "'r \<Rightarrow> bool"
  assumes push_ok: "wf r \<Longrightarrow> \<exists>r'. push r x = Inr r' \<and> wf r' \<and> window r' = last_n width (window r @ [x])"
    and window_le: "wf r \<Longrightarrow> length (window r) \<le> width"
begin

lemma pushes_ok:
  assumes "wf r"
  shows "\<exists>r'. fold_result push r xs = Inr r' \<and> wf r' \<and> window r' = last_n width (window r @ xs)"
  using assms
proof (induction xs arbitrary: r)
  case Nil
  then show ?case using window_le by (simp add: last_n_all)
next
  case (Cons x xs)
  obtain r1 where r1: "push r x = Inr r1" "wf r1" "window r1 = last_n width (window r @ [x])"
    using push_ok [OF Cons.prems] by blast
  obtain r2 where "fold_result push r1 xs = Inr r2" "wf r2"
    "window r2 = last_n width (window r1 @ xs)"
    using Cons.IH [OF r1(2)] by blast
  with r1 show ?case by (simp add: last_n_append)
qed

lemma push_InrD:
  "wf r \<Longrightarrow> push r x = Inr r' \<Longrightarrow> wf r' \<and> window r' = last_n width (window r @ [x])"
  using push_ok [of r x] by auto

text \<open>A full window forgets its oldest element, and only then.\<close>

lemma push_full:
  assumes "wf r" "push r x = Inr r'" "length (window r) = width" "0 < width"
  shows "window r' = tl (window r) @ [x]"
  using push_InrD [OF assms(1,2)] assms(3,4) by (simp add: last_n_full)

end

locale summed_window = sliding_window width push window wf
  for width :: nat
    and push :: "'r \<Rightarrow> 'a \<Rightarrow> 'r result"
    and window :: "'r \<Rightarrow> 'a list"
    and wf :: "'r \<Rightarrow> bool" +
  fixes weight :: "'a \<Rightarrow> int"
    and total :: "'r \<Rightarrow> int"
  assumes total_window: "wf r \<Longrightarrow> total r = sum_list (map weight (window r))"
begin

lemma total_pushes:
  assumes "wf r" "fold_result push r xs = Inr r'"
  shows "total r' = sum_list (map weight (last_n width (window r @ xs)))"
  using pushes_ok [OF assms(1), of xs] assms(2) total_window by auto

lemma total_bound:
  assumes "wf r" "\<forall>x\<in>set (window r). 0 \<le> weight x \<and> weight x \<le> b" "0 \<le> b"
  shows "0 \<le> total r \<and> total r \<le> int width * b"
  using sum_list_bound [of "map weight (window r)" b width] window_le total_window assms by simp

end

section \<open>The circular buffer\<close>

definition ring_wf :: "nat \<Rightarrow> 'a list \<Rightarrow> nat \<Rightarrow> nat \<Rightarrow> bool" where
  "ring_wf w hist ptr count \<longleftrightarrow>
     0 < w \<and> length hist = w \<and> ptr < w \<and> count \<le> w \<and> (count < w \<longrightarrow> ptr = count)"

definition ring_window :: "'a list \<Rightarrow> nat \<Rightarrow> nat \<Rightarrow> 'a list" where
  "ring_window hist ptr count =
     (if count < length hist then take count hist else drop ptr hist @ take ptr hist)"

lemma length_ring_window: "ring_wf w hist ptr count \<Longrightarrow> length (ring_window hist ptr count) = count"
  by (auto simp: ring_wf_def ring_window_def)

lemma ring_wf_fresh: "0 < w \<Longrightarrow> ring_wf w (replicate w x) 0 0"
  by (simp add: ring_wf_def)

lemma ring_window_fresh: "0 < w \<Longrightarrow> ring_window (replicate w x) 0 0 = []"
  by (simp add: ring_window_def)

lemma ring_oldest:
  "ring_wf w hist ptr count \<Longrightarrow> count = w \<Longrightarrow> hist ! ptr = hd (ring_window hist ptr count)"
  by (auto simp: ring_wf_def ring_window_def hd_append hd_drop_conv_nth)

text \<open>
  Writing at the pointer and advancing it modulo the width keeps the buffer well formed and
  appends to its window.
\<close>

lemma ring_wf_push:
  assumes "ring_wf w hist ptr count"
  shows "ring_wf w (hist[ptr := x]) (Suc ptr mod w) (min (Suc count) w)"
  using assms by (auto simp: ring_wf_def mod_Suc)

lemma ring_window_push:
  assumes "ring_wf w hist ptr count"
  shows "ring_window (hist[ptr := x]) (Suc ptr mod w) (min (Suc count) w)
    = last_n w (ring_window hist ptr count @ [x])"
proof (cases "count < w")
  case True
  with assms have ptr: "ptr = count" "length hist = w"
    by (auto simp: ring_wf_def)
  have old: "ring_window hist ptr count = take count hist"
    using True ptr by (simp add: ring_window_def)
  have new: "ring_window (hist[ptr := x]) (Suc ptr mod w) (min (Suc count) w) = take (Suc count) (hist[count := x])"
    using True ptr by (auto simp: ring_window_def mod_Suc)
  have "take (Suc count) (hist[count := x]) = take count hist @ [x]"
    using True ptr by (simp add: take_Suc_conv_app_nth)
  then show ?thesis
    using old new True ptr by (simp add: last_n_snoc)
next
  case False
  with assms have full: "count = w" "length hist = w" "ptr < w" "0 < w"
    by (auto simp: ring_wf_def)
  have old: "ring_window hist ptr count = drop ptr hist @ take ptr hist"
    using full by (simp add: ring_window_def)
  have tl_old: "tl (drop ptr hist @ take ptr hist) = drop (Suc ptr) hist @ take ptr hist"
    using full by (simp add: Cons_nth_drop_Suc [symmetric])
  have "ring_window (hist[ptr := x]) (Suc ptr mod w) w
    = drop (Suc ptr mod w) (hist[ptr := x]) @ take (Suc ptr mod w) (hist[ptr := x])"
    using full by (simp add: ring_window_def)
  also have "\<dots> = drop (Suc ptr) hist @ take ptr hist @ [x]"
    using full by (cases "Suc ptr = w")
      (auto simp: mod_Suc upd_conv_take_nth_drop)
  finally show ?thesis
    using full old tl_old last_n_full [of "ring_window hist ptr count" w x] by simp
qed

end
