(* ===== verification/Symbol_Indexed.thy ===== *)
theory Symbol_Indexed
  imports Trading_Prelude
begin

text \<open>
  The contract of a component that keeps one state per symbol, as the market model, the signal
  engine and the research policies do: a step on an input reads and writes the state of the
  input's symbol only. From the contract it follows that symbols cannot interfere: what a run
  answers to one symbol's inputs does not depend on the inputs of the others.
\<close>

text \<open>A run over a list of inputs, collecting the outputs; a raise stops it.\<close>

fun run_steps :: "('m \<Rightarrow> 'i \<Rightarrow> 'e + ('out \<times> 'm)) \<Rightarrow> 'm \<Rightarrow> 'i list \<Rightarrow> 'e + ('out list \<times> 'm)" where
  "run_steps step m [] = Inr ([], m)"
| "run_steps step m (i # is) =
     rbind (step m i) (\<lambda>(out, m').
     rbind (run_steps step m' is) (\<lambda>(outs, m''). Inr (out # outs, m'')))"

lemma run_steps_Cons_Inr:
  "run_steps step m (i # is) = Inr (outs, m'') \<longleftrightarrow>
     (\<exists>out m' rest. step m i = Inr (out, m') \<and> run_steps step m' is = Inr (rest, m'') \<and> outs = out # rest)"
  by (auto simp: rbind_eq_Inr)

lemma run_steps_length: "run_steps step m is = Inr (outs, m') \<Longrightarrow> length outs = length is"
  by (induction "is" arbitrary: m outs) (auto simp: rbind_eq_Inr)

locale symbol_indexed =
  fixes step :: "'m \<Rightarrow> 'i \<Rightarrow> ('out \<times> 'm) result"
    and key :: "'i \<Rightarrow> int"
    and admissible :: "'i \<Rightarrow> bool"
    and part :: "'m \<Rightarrow> int \<Rightarrow> 's"
    and wf :: "'m \<Rightarrow> bool"
  assumes step_ok: "wf m \<Longrightarrow> admissible i \<Longrightarrow> \<exists>out m'. step m i = Inr (out, m') \<and> wf m'"
    and step_local: "wf m1 \<Longrightarrow> wf m2 \<Longrightarrow> admissible i \<Longrightarrow> part m1 (key i) = part m2 (key i) \<Longrightarrow>
      step m1 i = Inr (out1, m1') \<Longrightarrow> step m2 i = Inr (out2, m2') \<Longrightarrow>
      out1 = out2 \<and> part m1' (key i) = part m2' (key i)"
    and step_frame: "wf m \<Longrightarrow> admissible i \<Longrightarrow> step m i = Inr (out, m') \<Longrightarrow> k \<noteq> key i \<Longrightarrow>
      part m' k = part m k"
begin

lemma run_ok:
  assumes "wf m" "\<forall>i\<in>set is. admissible i"
  shows "\<exists>outs m'. run_steps step m is = Inr (outs, m') \<and> wf m'"
  using assms
proof (induction "is" arbitrary: m)
  case Nil
  then show ?case by simp
next
  case (Cons i "is")
  obtain out m1 where 1: "step m i = Inr (out, m1)" "wf m1" using step_ok Cons.prems by force
  then obtain outs m2 where "run_steps step m1 is = Inr (outs, m2)" "wf m2"
    using Cons.IH [of m1] Cons.prems(2) by auto
  with 1 show ?case by auto
qed

lemma run_isolated:
  assumes "wf m1" "wf m2" "\<forall>i\<in>set is. admissible i" "part m1 k = part m2 k"
    and "run_steps step m1 is = Inr (outs1, m1')"
    and "run_steps step m2 (filter (\<lambda>i. key i = k) is) = Inr (outs2, m2')"
  shows "map fst (filter (\<lambda>(out, i). key i = k) (zip outs1 is)) = outs2 \<and> part m1' k = part m2' k"
  using assms
proof (induction "is" arbitrary: m1 m2 outs1 outs2)
  case Nil
  then show ?case by simp
next
  case (Cons i "is")
  obtain out n1 rest where 1: "step m1 i = Inr (out, n1)" "run_steps step n1 is = Inr (rest, m1')"
    "outs1 = out # rest"
    using Cons.prems(5) unfolding run_steps_Cons_Inr by blast
  have adm: "admissible i" "\<forall>i\<in>set is. admissible i" using Cons.prems(3) by auto
  have n1: "wf n1" using step_ok [OF Cons.prems(1) adm(1)] 1(1) by auto
  show ?case
  proof (cases "key i = k")
    case True
    with Cons.prems(6) obtain out' n2 rest' where 2: "step m2 i = Inr (out', n2)"
      "run_steps step n2 (filter (\<lambda>i. key i = k) is) = Inr (rest', m2')" "outs2 = out' # rest'"
      by (auto simp: rbind_eq_Inr)
    have n2: "wf n2" using step_ok [OF Cons.prems(2) adm(1)] 2(1) by auto
    have same: "out = out'" "part n1 k = part n2 k"
      using step_local [OF Cons.prems(1,2) adm(1) _ 1(1) 2(1)] Cons.prems(4) True by auto
    show ?thesis
      using Cons.IH [OF n1 n2 adm(2) same(2) 1(2) 2(2)] True same(1) 1(3) 2(3) by simp
  next
    case False
    then have "part n1 k = part m2 k"
      using step_frame [OF Cons.prems(1) adm(1) 1(1), of k] Cons.prems(4) by simp
    with Cons.IH [OF n1 Cons.prems(2) adm(2) _ 1(2), of outs2] Cons.prems(6) False 1(3)
    show ?thesis by simp
  qed
qed

text \<open>The outputs to one symbol's inputs in any interleaving are those of its inputs alone.\<close>

lemma run_projects:
  assumes "wf m" "\<forall>i\<in>set is. admissible i"
  shows "\<exists>outs m' outs_k m_k. run_steps step m is = Inr (outs, m') \<and>
    run_steps step m (filter (\<lambda>i. key i = k) is) = Inr (outs_k, m_k) \<and>
    map fst (filter (\<lambda>(out, i). key i = k) (zip outs is)) = outs_k"
proof -
  have "\<forall>i\<in>set (filter (\<lambda>i. key i = k) is). admissible i" using assms(2) by simp
  with run_ok [OF assms(1)] run_ok [OF assms] run_isolated [OF assms(1,1,2) refl]
  show ?thesis by metis
qed

end

end
