(* ===== verification/Market_State.thy ===== *)
theory Market_State
  imports Packet_Codec Sliding_Window Symbol_Indexed
begin

text \<open>
  The integer market-state model, \<open>tools/reference_model/market_model.py\<close>: the
  per-symbol state, the circular histories, the feature record and the two entry points
  \<open>process_event\<close> and \<open>process_packet\<close>.

  Python integers are \<open>int\<close>. Window sizes, ring pointers and fill counts, which the
  constructor and the pointer arithmetic keep non-negative, are \<open>nat\<close>. Every list access
  and every division that could raise is written with its exception; that none of them does
  is a theorem of \<open>Market_Correct\<close>. Objects that the code mutates in place are returned
  updated.
\<close>

section \<open>Constants and arithmetic helpers\<close>

abbreviation (input) PRICE_SCALE :: int where "PRICE_SCALE \<equiv> 1000000"
abbreviation (input) BPS_SCALE :: int where "BPS_SCALE \<equiv> 10000"
abbreviation (input) BPS_OUTPUT_SCALE :: int where "BPS_OUTPUT_SCALE \<equiv> 100"
abbreviation (input) IMBALANCE_FRAC_BITS :: nat where "IMBALANCE_FRAC_BITS \<equiv> 15"
abbreviation (input) SIGNED_BPS_WIDTH :: nat where "SIGNED_BPS_WIDTH \<equiv> 32"
abbreviation (input) IMBALANCE_NORMALIZED_WIDTH :: nat where "IMBALANCE_NORMALIZED_WIDTH \<equiv> 16"

definition trunc_div_signed :: "int \<Rightarrow> int \<Rightarrow> int result" where
  "trunc_div_signed numerator denominator =
     (if denominator = 0 then Inl ZeroDivisionError
      else let magnitude = \<bar>numerator\<bar> div \<bar>denominator\<bar>
           in Inr (if (numerator < 0) \<noteq> (denominator < 0) then - magnitude else magnitude))"

definition saturate_signed :: "int \<Rightarrow> nat \<Rightarrow> int" where
  "saturate_signed value width =
     (let minimum = - (2 ^ (width - 1)); maximum = 2 ^ (width - 1) - 1
      in min (max value minimum) maximum)"

section \<open>Records\<close>

record feature_snapshot =
  ft_symbol_id :: int
  ft_sequence :: int
  ft_bid_price :: int
  ft_bid_quantity :: int
  ft_ask_price :: int
  ft_ask_quantity :: int
  ft_spread :: int
  ft_spread_valid :: bool
  ft_midpoint :: int
  ft_midpoint_valid :: bool
  ft_momentum :: int
  ft_momentum_valid :: bool
  ft_rolling_volume :: int
  ft_imbalance_numerator :: int
  ft_imbalance_denominator :: int
  ft_imbalance_valid :: bool
  ft_vwap_sum_price_quantity :: int
  ft_vwap_sum_quantity :: int
  ft_vwap_valid :: bool
  ft_vwap :: int
  ft_vwap_quotient_valid :: bool
  ft_imbalance_normalized :: int
  ft_imbalance_normalized_valid :: bool
  ft_spread_bps_x100 :: int
  ft_spread_bps_x100_valid :: bool
  ft_momentum_bps_x100 :: int
  ft_momentum_bps_x100_valid :: bool
  ft_midpoint_minus_vwap :: int
  ft_midpoint_minus_vwap_valid :: bool
  ft_midpoint_minus_vwap_bps_x100 :: int
  ft_midpoint_minus_vwap_bps_x100_valid :: bool

record model_outcome =
  oc_kind :: string
  oc_symbol_id :: int
  oc_sequence :: int
  oc_reason :: int
  oc_feature :: "feature_snapshot option"

record symbol_state =
  ss_bid_price :: int
  ss_bid_quantity :: int
  ss_ask_price :: int
  ss_ask_quantity :: int
  ss_bid_valid :: bool
  ss_ask_valid :: bool
  ss_sequence :: int
  ss_sequence_valid :: bool
  ss_trade_history :: "int list"
  ss_trade_ptr :: nat
  ss_trade_count :: nat
  ss_rolling_volume :: int
  ss_midpoint_history :: "int list"
  ss_midpoint_ptr :: nat
  ss_midpoint_count :: nat
  ss_vwap_price_quantity_history :: "int list"
  ss_vwap_quantity_history :: "int list"
  ss_vwap_ptr :: nat
  ss_vwap_count :: nat
  ss_vwap_sum_price_quantity :: int
  ss_vwap_sum_quantity :: int

record market_model =
  mm_num_symbols :: nat
  mm_trade_window :: nat
  mm_momentum_window :: nat
  mm_vwap_window :: nat
  mm_price_scale :: int
  mm_bps_scale :: int
  mm_bps_output_scale :: int
  mm_imbalance_frac_bits :: nat
  mm_symbols :: "symbol_state list"

section \<open>Construction and reset\<close>

definition fresh_symbol_state :: "nat \<Rightarrow> nat \<Rightarrow> nat \<Rightarrow> symbol_state" where
  "fresh_symbol_state trade_window momentum_window vwap_window =
     \<lparr>ss_bid_price = 0, ss_bid_quantity = 0, ss_ask_price = 0, ss_ask_quantity = 0,
      ss_bid_valid = False, ss_ask_valid = False, ss_sequence = 0, ss_sequence_valid = False,
      ss_trade_history = replicate trade_window 0, ss_trade_ptr = 0, ss_trade_count = 0,
      ss_rolling_volume = 0,
      ss_midpoint_history = replicate momentum_window 0, ss_midpoint_ptr = 0, ss_midpoint_count = 0,
      ss_vwap_price_quantity_history = replicate vwap_window 0,
      ss_vwap_quantity_history = replicate vwap_window 0, ss_vwap_ptr = 0, ss_vwap_count = 0,
      ss_vwap_sum_price_quantity = 0, ss_vwap_sum_quantity = 0\<rparr>"

definition market_reset_state :: "market_model \<Rightarrow> market_model" where
  "market_reset_state m =
     m\<lparr>mm_symbols := replicate (mm_num_symbols m)
        (fresh_symbol_state (mm_trade_window m) (mm_momentum_window m) (mm_vwap_window m))\<rparr>"

definition market_init ::
  "int \<Rightarrow> int \<Rightarrow> int \<Rightarrow> int \<Rightarrow> int \<Rightarrow> int \<Rightarrow> int \<Rightarrow> int \<Rightarrow> market_model result" where
  "market_init num_symbols trade_window momentum_window vwap_window
     price_scale bps_scale bps_output_scale imbalance_frac_bits =
     (if min (min num_symbols trade_window) (min momentum_window vwap_window) < 1
      then Inl (ValueError ''all model dimensions must be positive'')
      else if min (min price_scale bps_scale) bps_output_scale < 1 \<or> imbalance_frac_bits < 0
      then Inl (ValueError ''scaling parameters must be positive and frac bits non-negative'')
      else Inr (market_reset_state
        \<lparr>mm_num_symbols = nat num_symbols, mm_trade_window = nat trade_window,
         mm_momentum_window = nat momentum_window, mm_vwap_window = nat vwap_window,
         mm_price_scale = price_scale, mm_bps_scale = bps_scale,
         mm_bps_output_scale = bps_output_scale,
         mm_imbalance_frac_bits = nat imbalance_frac_bits, mm_symbols = []\<rparr>))"

definition market_default :: "int \<Rightarrow> int \<Rightarrow> int \<Rightarrow> int \<Rightarrow> market_model result" where
  "market_default num_symbols trade_window momentum_window vwap_window =
     market_init num_symbols trade_window momentum_window vwap_window
       PRICE_SCALE BPS_SCALE BPS_OUTPUT_SCALE (int IMBALANCE_FRAC_BITS)"

section \<open>Circular histories\<close>

definition push_trade :: "nat \<Rightarrow> symbol_state \<Rightarrow> int \<Rightarrow> symbol_state result" where
  "push_trade trade_window st quantity =
     rbind (if ss_trade_count st \<ge> trade_window
            then rbind (py_get (ss_trade_history st) (ss_trade_ptr st)) (\<lambda>old.
                   Inr (st\<lparr>ss_rolling_volume := ss_rolling_volume st - old\<rparr>))
            else Inr (st\<lparr>ss_trade_count := ss_trade_count st + 1\<rparr>)) (\<lambda>st.
     rbind (py_set (ss_trade_history st) (ss_trade_ptr st) quantity) (\<lambda>hist.
       Inr (st\<lparr>ss_trade_history := hist,
               ss_rolling_volume := ss_rolling_volume st + quantity,
               ss_trade_ptr := (ss_trade_ptr st + 1) mod trade_window\<rparr>)))"

definition push_vwap :: "nat \<Rightarrow> symbol_state \<Rightarrow> int \<Rightarrow> int \<Rightarrow> symbol_state result" where
  "push_vwap vwap_window st price_quantity quantity =
     rbind (if ss_vwap_count st \<ge> vwap_window
            then rbind (py_get (ss_vwap_price_quantity_history st) (ss_vwap_ptr st)) (\<lambda>old_pq.
                 rbind (py_get (ss_vwap_quantity_history st) (ss_vwap_ptr st)) (\<lambda>old_q.
                   Inr (st\<lparr>ss_vwap_sum_price_quantity := ss_vwap_sum_price_quantity st - old_pq,
                           ss_vwap_sum_quantity := ss_vwap_sum_quantity st - old_q\<rparr>)))
            else Inr (st\<lparr>ss_vwap_count := ss_vwap_count st + 1\<rparr>)) (\<lambda>st.
     rbind (py_set (ss_vwap_price_quantity_history st) (ss_vwap_ptr st) price_quantity) (\<lambda>pq_hist.
     rbind (py_set (ss_vwap_quantity_history st) (ss_vwap_ptr st) quantity) (\<lambda>q_hist.
       Inr (st\<lparr>ss_vwap_price_quantity_history := pq_hist,
               ss_vwap_quantity_history := q_hist,
               ss_vwap_sum_price_quantity := ss_vwap_sum_price_quantity st + price_quantity,
               ss_vwap_sum_quantity := ss_vwap_sum_quantity st + quantity,
               ss_vwap_ptr := (ss_vwap_ptr st + 1) mod vwap_window\<rparr>))))"

definition push_midpoint :: "nat \<Rightarrow> symbol_state \<Rightarrow> int \<Rightarrow> symbol_state result" where
  "push_midpoint momentum_window st midpoint =
     rbind (py_set (ss_midpoint_history st) (ss_midpoint_ptr st) midpoint) (\<lambda>hist.
       Inr (st\<lparr>ss_midpoint_history := hist,
               ss_midpoint_ptr := (ss_midpoint_ptr st + 1) mod momentum_window,
               ss_midpoint_count := min (ss_midpoint_count st + 1) momentum_window\<rparr>))"

section \<open>The feature record\<close>

text \<open>
  The quote-dependent part of \<open>_feature\<close>: spread, midpoint, imbalance, and the momentum
  against the oldest midpoint of a full history, which the current midpoint then replaces.
  The record \<open>quote_features\<close> holds the local variables this part assigns.
\<close>

record quote_features =
  qf_spread :: int
  qf_midpoint :: int
  qf_momentum :: int
  qf_momentum_valid :: bool
  qf_reference_midpoint :: int
  qf_imbalance_numerator :: int
  qf_imbalance_denominator :: int

definition quotes_valid :: "symbol_state \<Rightarrow> bool" where
  "quotes_valid st \<longleftrightarrow> ss_bid_valid st \<and> ss_ask_valid st \<and> ss_ask_price st \<ge> ss_bid_price st"

definition quote_part ::
  "nat \<Rightarrow> symbol_state \<Rightarrow> (quote_features \<times> symbol_state) result" where
  "quote_part momentum_window st =
     (if quotes_valid st then
        let midpoint = (ss_bid_price st + ss_ask_price st) div 2;
            momentum_valid = ss_midpoint_count st \<ge> momentum_window
        in rbind (if momentum_valid then py_get (ss_midpoint_history st) (ss_midpoint_ptr st)
                  else Inr 0) (\<lambda>reference_midpoint.
           rbind (push_midpoint momentum_window st midpoint) (\<lambda>st'.
             Inr (\<lparr>qf_spread = ss_ask_price st - ss_bid_price st,
                   qf_midpoint = midpoint,
                   qf_momentum = (if momentum_valid then midpoint - reference_midpoint else 0),
                   qf_momentum_valid = momentum_valid,
                   qf_reference_midpoint = reference_midpoint,
                   qf_imbalance_numerator = ss_bid_quantity st - ss_ask_quantity st,
                   qf_imbalance_denominator = ss_bid_quantity st + ss_ask_quantity st\<rparr>,
                  st')))
      else Inr (\<lparr>qf_spread = 0, qf_midpoint = 0, qf_momentum = 0, qf_momentum_valid = False,
                 qf_reference_midpoint = 0, qf_imbalance_numerator = 0,
                 qf_imbalance_denominator = 0\<rparr>, st))"

text \<open>A ratio scaled to hundredths of a basis point, truncated toward zero and saturated.\<close>

definition scaled_bps :: "market_model \<Rightarrow> int \<Rightarrow> int \<Rightarrow> int result" where
  "scaled_bps m delta reference =
     rbind (trunc_div_signed (delta * mm_bps_scale m * mm_bps_output_scale m) reference)
       (\<lambda>q. Inr (saturate_signed q SIGNED_BPS_WIDTH))"

definition feature_of ::
  "market_model \<Rightarrow> symbol_state \<Rightarrow> market_event \<Rightarrow> (feature_snapshot \<times> symbol_state) result" where
  "feature_of m st e =
    (let valid = quotes_valid st;
         vwap_valid = (ss_vwap_sum_quantity st \<noteq> 0);
         vwap = (if vwap_valid then ss_vwap_sum_price_quantity st div ss_vwap_sum_quantity st else 0)
     in rbind (quote_part (mm_momentum_window m) st) (\<lambda>(qf, st).
     let imbalance_normalized_valid = (valid \<and> qf_imbalance_denominator qf \<noteq> 0);
         spread_bps_x100_valid = (valid \<and> qf_midpoint qf \<noteq> 0);
         spread_bps_x100 =
           (if spread_bps_x100_valid
            then saturate_signed
                   (qf_spread qf * mm_bps_scale m * mm_bps_output_scale m div qf_midpoint qf)
                   SIGNED_BPS_WIDTH
            else 0);
         momentum_bps_x100_valid = (qf_momentum_valid qf \<and> qf_reference_midpoint qf \<noteq> 0);
         midpoint_minus_vwap_valid = (valid \<and> vwap_valid);
         midpoint_minus_vwap = (if midpoint_minus_vwap_valid then qf_midpoint qf - vwap else 0);
         midpoint_minus_vwap_bps_x100_valid = (midpoint_minus_vwap_valid \<and> vwap \<noteq> 0)
     in
     rbind (if imbalance_normalized_valid
            then rbind (trunc_div_signed
                          (qf_imbalance_numerator qf * 2 ^ mm_imbalance_frac_bits m)
                          (qf_imbalance_denominator qf))
                   (\<lambda>q. Inr (saturate_signed q IMBALANCE_NORMALIZED_WIDTH))
            else Inr 0) (\<lambda>imbalance_normalized.
     rbind (if momentum_bps_x100_valid
            then scaled_bps m (qf_momentum qf) (qf_reference_midpoint qf) else Inr 0)
       (\<lambda>momentum_bps_x100.
     rbind (if midpoint_minus_vwap_bps_x100_valid
            then scaled_bps m midpoint_minus_vwap vwap else Inr 0)
       (\<lambda>midpoint_minus_vwap_bps_x100.
     Inr (\<lparr>ft_symbol_id = ev_symbol_id e, ft_sequence = ev_sequence e,
           ft_bid_price = ss_bid_price st, ft_bid_quantity = ss_bid_quantity st,
           ft_ask_price = ss_ask_price st, ft_ask_quantity = ss_ask_quantity st,
           ft_spread = qf_spread qf, ft_spread_valid = valid,
           ft_midpoint = qf_midpoint qf, ft_midpoint_valid = valid,
           ft_momentum = qf_momentum qf, ft_momentum_valid = qf_momentum_valid qf,
           ft_rolling_volume = ss_rolling_volume st,
           ft_imbalance_numerator = qf_imbalance_numerator qf,
           ft_imbalance_denominator = qf_imbalance_denominator qf, ft_imbalance_valid = valid,
           ft_vwap_sum_price_quantity = ss_vwap_sum_price_quantity st,
           ft_vwap_sum_quantity = ss_vwap_sum_quantity st, ft_vwap_valid = vwap_valid,
           ft_vwap = vwap, ft_vwap_quotient_valid = vwap_valid,
           ft_imbalance_normalized = imbalance_normalized,
           ft_imbalance_normalized_valid = imbalance_normalized_valid,
           ft_spread_bps_x100 = spread_bps_x100, ft_spread_bps_x100_valid = spread_bps_x100_valid,
           ft_momentum_bps_x100 = momentum_bps_x100,
           ft_momentum_bps_x100_valid = momentum_bps_x100_valid,
           ft_midpoint_minus_vwap = midpoint_minus_vwap,
           ft_midpoint_minus_vwap_valid = midpoint_minus_vwap_valid,
           ft_midpoint_minus_vwap_bps_x100 = midpoint_minus_vwap_bps_x100,
           ft_midpoint_minus_vwap_bps_x100_valid = midpoint_minus_vwap_bps_x100_valid\<rparr>, st))))))"

section \<open>Events and packets\<close>

definition outcome_reject :: "string \<Rightarrow> market_event \<Rightarrow> int \<Rightarrow> model_outcome" where
  "outcome_reject kind e reason =
     \<lparr>oc_kind = kind, oc_symbol_id = ev_symbol_id e, oc_sequence = ev_sequence e,
      oc_reason = reason, oc_feature = None\<rparr>"

definition apply_market_event ::
  "market_model \<Rightarrow> symbol_state \<Rightarrow> market_event \<Rightarrow> (feature_snapshot \<times> symbol_state) result" where
  "apply_market_event m st e =
     (let st = st\<lparr>ss_sequence_valid := True, ss_sequence := ev_sequence e\<rparr> in
      rbind (if ev_message_type e = MSG_MARKET_QUOTE
             then if ev_side e = 0
                  then Inr (st\<lparr>ss_bid_price := ev_price e, ss_bid_quantity := ev_quantity e,
                               ss_bid_valid := True\<rparr>)
                  else Inr (st\<lparr>ss_ask_price := ev_price e, ss_ask_quantity := ev_quantity e,
                               ss_ask_valid := True\<rparr>)
             else rbind (push_trade (mm_trade_window m) st (ev_quantity e)) (\<lambda>st.
                    push_vwap (mm_vwap_window m) st (ev_price e * ev_quantity e) (ev_quantity e)))
        (\<lambda>st. feature_of m st e))"

definition process_event ::
  "market_model \<Rightarrow> market_event \<Rightarrow> (model_outcome \<times> market_model) result" where
  "process_event m e =
     (if \<not> (0 \<le> ev_symbol_id e \<and> ev_symbol_id e < int (mm_num_symbols m))
      then Inr (outcome_reject ''dispatch_error'' e STATUS_BAD_SYMBOL, m)
      else if ev_message_type e \<notin> {MSG_MARKET_QUOTE, MSG_MARKET_TRADE}
      then Inr (outcome_reject ''reject'' e STATUS_BAD_TYPE, m)
      else if ev_side e \<notin> {0, 1}
      then Inr (outcome_reject ''reject'' e STATUS_BAD_SIDE, m)
      else rbind (py_get (mm_symbols m) (nat (ev_symbol_id e))) (\<lambda>st.
        if ss_sequence_valid st \<and> ev_sequence e \<le> ss_sequence st
        then Inr (outcome_reject ''reject'' e
                    (if ev_sequence e = ss_sequence st then STATUS_DUPLICATE_SEQ
                     else STATUS_STALE_SEQ), m)
        else rbind (apply_market_event m st e) (\<lambda>(feature, st).
          Inr (\<lparr>oc_kind = ''feature'', oc_symbol_id = ev_symbol_id e,
                oc_sequence = ev_sequence e, oc_reason = 0, oc_feature = Some feature\<rparr>,
               m\<lparr>mm_symbols := (mm_symbols m)[nat (ev_symbol_id e) := st]\<rparr>))))"

definition process_packet ::
  "market_model \<Rightarrow> byte list \<Rightarrow> (model_outcome option \<times> market_model) result" where
  "process_packet m packet =
     (if length packet \<noteq> PACKET_BYTES then Inl (ValueError ''packet must be 32 bytes'')
      else if packet = replicate PACKET_BYTES 0 then Inr (None, m)
      else rbind (decode_event packet) (\<lambda>event.
        if uint (packet ! 0) \<noteq> SYNC_VERSION then Inr (None, m)
        else rbind (crc8 (take 31 packet)) (\<lambda>crc.
          if uint (packet ! 31) \<noteq> crc then Inr (None, m)
          else if ev_message_type event \<notin> {MSG_MARKET_QUOTE, MSG_MARKET_TRADE} then Inr (None, m)
          else rbind (process_event m event) (\<lambda>(outcome, m). Inr (Some outcome, m)))))"

text \<open>A run over a sequence of events, collecting the outcomes.\<close>

definition process_events ::
  "market_model \<Rightarrow> market_event list \<Rightarrow> (model_outcome list \<times> market_model) result" where
  "process_events = run_steps process_event"

lemma process_events_simps [simp]:
  "process_events m [] = Inr ([], m)"
  "process_events m (e # es) =
     rbind (process_event m e) (\<lambda>(oc, m').
     rbind (process_events m' es) (\<lambda>(ocs, m''). Inr (oc # ocs, m'')))"
  by (simp_all add: process_events_def)

end
