(* ===== verification/Market_Windows.thy ===== *)
theory Market_Windows
  imports Market_State
begin

text \<open>
  The histories of \<open>_SymbolState\<close> as sliding windows: each push operation of the market
  model is an interpretation of \<open>summed_window\<close> or \<open>sliding_window\<close>, and
  \<open>symbol_wf\<close>, the invariant of a symbol's state, says that every running sum is the
  sum of its window.
\<close>

section \<open>Well-formed symbol states\<close>

definition trade_window_of :: "symbol_state \<Rightarrow> int list" where
  "trade_window_of st = ring_window (ss_trade_history st) (ss_trade_ptr st) (ss_trade_count st)"

definition trade_wf :: "nat \<Rightarrow> symbol_state \<Rightarrow> bool" where
  "trade_wf w st \<longleftrightarrow>
     ring_wf w (ss_trade_history st) (ss_trade_ptr st) (ss_trade_count st) \<and>
     ss_rolling_volume st = sum_list (trade_window_of st)"

definition vwap_hist :: "symbol_state \<Rightarrow> (int \<times> int) list" where
  "vwap_hist st = zip (ss_vwap_price_quantity_history st) (ss_vwap_quantity_history st)"

definition vwap_window_of :: "symbol_state \<Rightarrow> (int \<times> int) list" where
  "vwap_window_of st = ring_window (vwap_hist st) (ss_vwap_ptr st) (ss_vwap_count st)"

definition vwap_wf :: "nat \<Rightarrow> symbol_state \<Rightarrow> bool" where
  "vwap_wf w st \<longleftrightarrow>
     length (ss_vwap_price_quantity_history st) = w \<and> length (ss_vwap_quantity_history st) = w \<and>
     ring_wf w (vwap_hist st) (ss_vwap_ptr st) (ss_vwap_count st) \<and>
     ss_vwap_sum_price_quantity st = sum_list (map fst (vwap_window_of st)) \<and>
     ss_vwap_sum_quantity st = sum_list (map snd (vwap_window_of st))"

definition midpoint_window_of :: "symbol_state \<Rightarrow> int list" where
  "midpoint_window_of st =
     ring_window (ss_midpoint_history st) (ss_midpoint_ptr st) (ss_midpoint_count st)"

definition midpoint_wf :: "nat \<Rightarrow> symbol_state \<Rightarrow> bool" where
  "midpoint_wf w st \<longleftrightarrow>
     ring_wf w (ss_midpoint_history st) (ss_midpoint_ptr st) (ss_midpoint_count st)"

definition symbol_wf :: "nat \<Rightarrow> nat \<Rightarrow> nat \<Rightarrow> symbol_state \<Rightarrow> bool" where
  "symbol_wf tw mw vw st \<longleftrightarrow> trade_wf tw st \<and> midpoint_wf mw st \<and> vwap_wf vw st"

section \<open>The windows the code maintains\<close>

lemma ring_window_length: "ring_wf w hist ptr count \<Longrightarrow> length (ring_window hist ptr count) \<le> w"
  by (simp add: length_ring_window) (simp add: ring_wf_def)

text \<open>A running sum stays the sum of the window when the evicted element is subtracted first.\<close>

lemma sum_list_push:
  fixes xs :: "int list"
  assumes "length xs \<le> w" "0 < w"
  shows "sum_list (last_n w (xs @ [x])) =
    sum_list xs - (if length xs = w then hd xs else 0) + x"
proof (cases "length xs = w")
  case True
  with assms obtain y ys where "xs = y # ys" by (cases xs) auto
  with True assms show ?thesis using last_n_full [of xs w x] by simp
next
  case False
  with assms show ?thesis by (simp add: last_n_snoc)
qed

lemma push_trade_ok:
  assumes "trade_wf w st"
  shows "push_trade w st x = Inr (st\<lparr>
      ss_trade_history := (ss_trade_history st)[ss_trade_ptr st := x],
      ss_trade_ptr := Suc (ss_trade_ptr st) mod w,
      ss_trade_count := min (Suc (ss_trade_count st)) w,
      ss_rolling_volume := sum_list (last_n w (trade_window_of st @ [x]))\<rparr>)"
proof -
  let ?win = "trade_window_of st"
  have ring: "ring_wf w (ss_trade_history st) (ss_trade_ptr st) (ss_trade_count st)"
    and sum: "ss_rolling_volume st = sum_list ?win"
    using assms by (auto simp: trade_wf_def)
  have len: "length ?win = ss_trade_count st"
    using ring by (simp add: trade_window_of_def length_ring_window)
  have w: "0 < w" "ss_trade_count st \<le> w" and ptr: "ss_trade_ptr st < length (ss_trade_history st)"
    using ring by (auto simp: ring_wf_def)
  have old: "ss_trade_count st = w \<Longrightarrow> ss_trade_history st ! ss_trade_ptr st = hd ?win"
    using ring_oldest [OF ring] by (simp add: trade_window_of_def)
  have total: "sum_list (last_n w (?win @ [x])) =
      ss_rolling_volume st - (if ss_trade_count st = w then hd ?win else 0) + x"
    using sum_list_push [of ?win w x] len w sum by simp
  show ?thesis
    using ptr w old by (cases "ss_trade_count st = w") (simp_all add: push_trade_def total)
qed


lemma push_vwap_ok:
  assumes "vwap_wf w st"
  shows "push_vwap w st pq q = Inr (st\<lparr>
      ss_vwap_price_quantity_history := (ss_vwap_price_quantity_history st)[ss_vwap_ptr st := pq],
      ss_vwap_quantity_history := (ss_vwap_quantity_history st)[ss_vwap_ptr st := q],
      ss_vwap_ptr := Suc (ss_vwap_ptr st) mod w,
      ss_vwap_count := min (Suc (ss_vwap_count st)) w,
      ss_vwap_sum_price_quantity := sum_list (map fst (last_n w (vwap_window_of st @ [(pq, q)]))),
      ss_vwap_sum_quantity := sum_list (map snd (last_n w (vwap_window_of st @ [(pq, q)])))\<rparr>)"
proof -
  let ?win = "vwap_window_of st"
  have lens: "length (ss_vwap_price_quantity_history st) = w" "length (ss_vwap_quantity_history st) = w"
    and ring: "ring_wf w (vwap_hist st) (ss_vwap_ptr st) (ss_vwap_count st)"
    and sums: "ss_vwap_sum_price_quantity st = sum_list (map fst ?win)"
      "ss_vwap_sum_quantity st = sum_list (map snd ?win)"
    using assms by (auto simp: vwap_wf_def)
  have len: "length ?win = ss_vwap_count st"
    using ring by (simp add: vwap_window_of_def length_ring_window)
  have w: "0 < w" "ss_vwap_count st \<le> w" and ptr: "ss_vwap_ptr st < w"
    using ring by (auto simp: ring_wf_def)
  have old: "ss_vwap_price_quantity_history st ! ss_vwap_ptr st = fst (hd ?win)"
    "ss_vwap_quantity_history st ! ss_vwap_ptr st = snd (hd ?win)" if "ss_vwap_count st = w"
    using ring_oldest [OF ring that] ptr lens
    by (auto simp: vwap_window_of_def vwap_hist_def dest: arg_cong [where f = fst] arg_cong [where f = snd])
  have hds: "hd (map fst ?win) = fst (hd ?win)" "hd (map snd ?win) = snd (hd ?win)"
    if "ss_vwap_count st = w"
    using that len w by (cases ?win; simp)+
  have total:
    "sum_list (map fst (last_n w (?win @ [(pq, q)]))) =
      ss_vwap_sum_price_quantity st - (if ss_vwap_count st = w then fst (hd ?win) else 0) + pq"
    "sum_list (map snd (last_n w (?win @ [(pq, q)]))) =
      ss_vwap_sum_quantity st - (if ss_vwap_count st = w then snd (hd ?win) else 0) + q"
    using sum_list_push [of "map fst ?win" w pq] sum_list_push [of "map snd ?win" w q] len w sums hds
    by (simp_all add: map_last_n)
  show ?thesis
    using ptr w old lens by (cases "ss_vwap_count st = w") (simp_all add: push_vwap_def total)
qed

lemma push_midpoint_ok:
  "midpoint_wf w st \<Longrightarrow> push_midpoint w st x = Inr (st\<lparr>
      ss_midpoint_history := (ss_midpoint_history st)[ss_midpoint_ptr st := x],
      ss_midpoint_ptr := Suc (ss_midpoint_ptr st) mod w,
      ss_midpoint_count := min (Suc (ss_midpoint_count st)) w\<rparr>)"
  by (simp add: push_midpoint_def midpoint_wf_def ring_wf_def)

section \<open>The interface laws on the model's own pushes\<close>

interpretation trade_ring: summed_window w "push_trade w" trade_window_of "trade_wf w"
    "\<lambda>q. q" ss_rolling_volume for w
proof (unfold_locales, goal_cases)
  case (1 r x)
  then have ring: "ring_wf w (ss_trade_history r) (ss_trade_ptr r) (ss_trade_count r)"
    by (simp add: trade_wf_def)
  show ?case
    unfolding push_trade_ok [OF 1]
    using ring_wf_push [OF ring, of x] ring_window_push [OF ring, of x]
    by (simp add: trade_wf_def trade_window_of_def)
qed (simp_all add: trade_wf_def trade_window_of_def ring_window_length)

interpretation vwap_ring: sliding_window w "\<lambda>st (pq, q). push_vwap w st pq q" vwap_window_of "vwap_wf w"
  for w
proof (unfold_locales, goal_cases)
  case (1 r x)
  obtain pq q where x: "x = (pq, q)" by fastforce
  have ring: "ring_wf w (vwap_hist r) (ss_vwap_ptr r) (ss_vwap_count r)"
    using 1 by (simp add: vwap_wf_def)
  show ?case
    unfolding x using 1 ring_wf_push [OF ring, of x] ring_window_push [OF ring, of x]
    by (simp add: push_vwap_ok [OF 1] vwap_wf_def vwap_window_of_def vwap_hist_def zip_update x)
qed (auto simp: vwap_wf_def vwap_window_of_def ring_window_length)

interpretation vwap_price_ring: summed_window w "\<lambda>st (pq, q). push_vwap w st pq q" vwap_window_of
    "vwap_wf w" fst ss_vwap_sum_price_quantity for w
  by unfold_locales (simp add: vwap_wf_def)

interpretation vwap_quantity_ring: summed_window w "\<lambda>st (pq, q). push_vwap w st pq q" vwap_window_of
    "vwap_wf w" snd ss_vwap_sum_quantity for w
  by unfold_locales (simp add: vwap_wf_def)

interpretation midpoint_ring: sliding_window w "push_midpoint w" midpoint_window_of "midpoint_wf w"
  for w
proof (unfold_locales, goal_cases)
  case (1 r x)
  then have ring: "ring_wf w (ss_midpoint_history r) (ss_midpoint_ptr r) (ss_midpoint_count r)"
    by (simp add: midpoint_wf_def)
  show ?case
    unfolding push_midpoint_ok [OF 1]
    using ring_wf_push [OF ring, of x] ring_window_push [OF ring, of x]
    by (simp add: midpoint_wf_def midpoint_window_of_def)
qed (simp_all add: midpoint_wf_def midpoint_window_of_def ring_window_length)

end
