(* ===== verification/Packet_Integrity.thy ===== *)
theory Packet_Integrity
  imports Packet_Codec
begin

text \<open>
  What the wire packet guarantees: encoding and decoding are inverse in both directions, the
  status classification, and the transmission errors the checksum detects. The checksum of a
  whole packet is linear over bitwise exclusive or (\<open>crc_word_xor\<close>), so an error pattern
  goes unnoticed exactly when its own checksum residue is zero (\<open>residue_xor\<close>); the
  residue is nonzero for every burst of at most eight bits (\<open>burst_residue\<close>) and for
  every pattern with an odd number of flipped bits (\<open>odd_residue\<close>).
\<close>

section \<open>Linearity of the checksum\<close>

lemma bit_times_2: "bit (w * 2 :: byte) n \<longleftrightarrow> n < 8 \<and> 0 < n \<and> bit w (n - 1)"
  using bit_double_iff [of w n] by (auto simp: mult.commute possible_bit_def)

lemma crc_shift_xor: "crc_shift_word (a XOR b) = crc_shift_word a XOR crc_shift_word b"
  unfolding crc_shift_word_def
  by (rule bit_word_eqI) (auto simp: bit_simps)

lemma crc_shift_0_iff [simp]: "crc_shift_word a = 0 \<longleftrightarrow> a = 0"
proof
  assume zero: "crc_shift_word a = 0"
  have no_msb: "\<not> bit a 7"
  proof
    assume "bit a 7"
    with zero have "bit (push_bit 1 a XOR 7) 0 = bit (0::byte) 0"
      by (simp add: crc_shift_word_def)
    then show False by (simp add: bit_0 even_xor_iff)
  qed
  have "bit a n \<longleftrightarrow> bit (0::byte) n" if "n < 8" for n
  proof (cases "n = 7")
    case True
    with no_msb show ?thesis by simp
  next
    case False
    have "bit (push_bit 1 a) (Suc n) = bit (0::byte) (Suc n)"
      using zero no_msb by (simp add: crc_shift_word_def)
    with that False show ?thesis by (simp add: bit_times_2)
  qed
  then show "a = 0" by (intro bit_word_eqI) simp
next
  assume "a = 0"
  then show "crc_shift_word a = 0" by (simp add: crc_shift_word_def)
qed

lemma funpow_shift_xor:
  "(crc_shift_word ^^ n) (a XOR b) = (crc_shift_word ^^ n) a XOR (crc_shift_word ^^ n) b"
  by (induction n) (simp_all add: crc_shift_xor)

lemma funpow_shift_0_iff [simp]: "(crc_shift_word ^^ n) a = 0 \<longleftrightarrow> a = 0"
  by (induction n) simp_all

lemma crc_byte_xor: "crc_byte_word (a XOR b) = crc_byte_word a XOR crc_byte_word b"
  by (simp add: crc_byte_word_def funpow_shift_xor)

lemma crc_byte_0_iff [simp]: "crc_byte_word a = 0 \<longleftrightarrow> a = 0"
  by (simp add: crc_byte_word_def)

lemma crc_byte_0 [simp]: "crc_byte_word 0 = 0"
  by simp

definition xor_bytes :: "byte list \<Rightarrow> byte list \<Rightarrow> byte list" where
  "xor_bytes = map2 (XOR)"

lemma length_xor_bytes [simp]: "length (xor_bytes xs ys) = min (length xs) (length ys)"
  by (simp add: xor_bytes_def)

lemma nth_xor_bytes:
  "i < length xs \<Longrightarrow> i < length ys \<Longrightarrow> xor_bytes xs ys ! i = xs ! i XOR ys ! i"
  by (simp add: xor_bytes_def)

lemma crc_word_xor:
  "length xs = length ys \<Longrightarrow>
   crc_word (c XOR d) (xor_bytes xs ys) = crc_word c xs XOR crc_word d ys"
proof (induction xs ys arbitrary: c d rule: list_induct2)
  case Nil
  then show ?case by (simp add: xor_bytes_def)
next
  case (Cons x xs y ys)
  have "(c XOR d) XOR (x XOR y) = (c XOR x) XOR (d XOR y)"
    by (simp add: ac_simps)
  then show ?case
    using Cons.IH [of "crc_byte_word (c XOR x)" "crc_byte_word (d XOR y)"]
    by (simp add: xor_bytes_def crc_byte_xor)
qed

text \<open>The residue of a packet: zero exactly when the last byte is the checksum of the rest.\<close>

lemma xor_eq_0 [simp]: "(a::byte) XOR b = 0 \<longleftrightarrow> a = b"
proof
  assume zero: "a XOR b = 0"
  have "a = (a XOR b) XOR b" by (simp only: xor.assoc xor_self_eq xor.right_neutral)
  then show "a = b" by (simp only: zero xor.left_neutral)
qed simp

lemma residue_snoc: "crc_word 0 (body @ [x]) = 0 \<longleftrightarrow> x = crc_word 0 body"
  by auto

lemma residue_xor:
  "length xs = length ys \<Longrightarrow> crc_word 0 xs = 0 \<Longrightarrow>
   crc_word 0 (xor_bytes xs ys) = 0 \<longleftrightarrow> crc_word 0 ys = 0"
  using crc_word_xor [of xs ys 0 0] by simp

section \<open>Detected error patterns\<close>

lemma crc_word_zeros [simp]: "crc_word 0 (replicate k 0) = 0"
  by (induction k) simp_all

lemma crc_word_zeros_iff: "crc_word a (replicate k 0) = 0 \<longleftrightarrow> a = 0"
  by (induction k arbitrary: a) simp_all

text \<open>
  Shifting a byte by \<open>s\<close> positions through the register is the same as feeding it in split
  over two bytes.
\<close>

lemma crc_byte_1: "crc_byte_word 1 = 7"
  by code_simp

lemma shift_split:
  "s \<le> 8 \<Longrightarrow>
   (crc_shift_word ^^ s) p = crc_byte_word (drop_bit (8 - s) p) XOR push_bit s p"
proof (induction s)
  case 0
  have "drop_bit 8 p = (0::byte)" by (rule bit_word_eqI) (simp add: bit_simps)
  then show ?case by simp
next
  case (Suc s)
  define u where "u = drop_bit (8 - s) p"
  define v where "v = push_bit s p"
  have top: "\<not> bit u 7" and shift_u: "crc_shift_word u = push_bit 1 u"
    using Suc.prems by (auto simp: u_def crc_shift_word_def bit_simps dest: bit_imp_le_length)
  have shift_v: "crc_shift_word v = push_bit (Suc s) p XOR (if bit p (7 - s) then 7 else 0)"
    using Suc.prems by (auto simp: v_def crc_shift_word_def bit_simps)
  have next_u: "drop_bit (8 - Suc s) p = push_bit 1 u XOR (if bit p (7 - s) then 1 else 0)"
  proof (rule bit_word_eqI)
    fix n :: nat
    have index: "Suc (7 + m - s) = 8 + m - s" for m
      using Suc.prems by simp
    show "bit (drop_bit (8 - Suc s) p) n =
      bit (push_bit 1 u XOR (if bit p (7 - s) then 1 else 0)) n" if "n < LENGTH(8)"
      using Suc.prems that
      by (cases n) (auto simp: u_def bit_simps bit_times_2 index)
  qed
  have comm: "crc_shift_word (crc_byte_word w) = crc_byte_word (crc_shift_word w)" for w
    by (simp add: crc_byte_word_def funpow_swap1)
  have "(crc_shift_word ^^ Suc s) p = crc_shift_word (crc_byte_word u XOR v)"
    using Suc by (simp add: u_def v_def)
  also have "\<dots> = crc_byte_word (push_bit 1 u) XOR crc_shift_word v"
    by (simp add: crc_shift_xor comm shift_u)
  finally show ?case
    unfolding next_u shift_v crc_byte_xor by (simp add: crc_byte_1 ac_simps)
qed

text \<open>
  A burst: the eight-bit pattern \<open>p\<close> laid over bytes \<open>k\<close> and \<open>k + 1\<close> of the packet,
  moved up by \<open>s\<close> bit positions.
\<close>

definition burst_error :: "nat \<Rightarrow> nat \<Rightarrow> byte \<Rightarrow> byte list" where
  "burst_error k s p =
     replicate k 0 @ [drop_bit (8 - s) p, push_bit s p] @ replicate (30 - k) 0"

lemma burst_residue:
  assumes "p \<noteq> 0" "s \<le> 8"
  shows "crc_word 0 (burst_error k s p) \<noteq> 0"
  using assms shift_split [of s p, symmetric]
  by (simp add: burst_error_def crc_word_zeros_iff)

definition odd_bits :: "byte \<Rightarrow> bool" where
  "odd_bits w = foldr (\<lambda>i b. bit w i \<noteq> b) [0, 1, 2, 3, 4, 5, 6, 7] False"

definition odd_error :: "byte list \<Rightarrow> bool" where
  "odd_error e = foldr (\<lambda>w b. odd_bits w \<noteq> b) e False"

lemma odd_bits_eq:
  "odd_bits w = (bit w 0 \<noteq> (bit w 1 \<noteq> (bit w 2 \<noteq> (bit w 3 \<noteq>
     (bit w 4 \<noteq> (bit w 5 \<noteq> (bit w 6 \<noteq> bit w 7)))))))"
  by (simp add: odd_bits_def)

lemma odd_bits_xor: "odd_bits (a XOR b) = (odd_bits a \<noteq> odd_bits b)"
proof -
  have "foldr (\<lambda>i c. bit (a XOR b) i \<noteq> c) is False =
    (foldr (\<lambda>i c. bit a i \<noteq> c) is False \<noteq> foldr (\<lambda>i c. bit b i \<noteq> c) is False)" for "is"
    by (induction "is") (auto simp: bit_xor_iff)
  then show ?thesis by (simp only: odd_bits_def)
qed

lemma odd_bits_shift: "odd_bits (crc_shift_word w) = odd_bits w"
proof -
  have shifted: "bit (push_bit 1 w) 0 = False" "bit (push_bit 1 w) 1 = bit w 0"
    "bit (push_bit 1 w) 2 = bit w 1" "bit (push_bit 1 w) 3 = bit w 2"
    "bit (push_bit 1 w) 4 = bit w 3" "bit (push_bit 1 w) 5 = bit w 4"
    "bit (push_bit 1 w) 6 = bit w 5" "bit (push_bit 1 w) 7 = bit w 6"
    by (simp_all only: bit_push_bit_iff) (simp_all add: possible_bit_def)
  have "odd_bits (push_bit 1 w) = (odd_bits w \<noteq> bit w 7)"
    unfolding odd_bits_eq shifted by blast
  moreover have "odd_bits 7" by code_simp
  ultimately show ?thesis by (auto simp: crc_shift_word_def odd_bits_xor)
qed

lemma odd_bits_crc_byte: "odd_bits (crc_byte_word w) = odd_bits w"
proof -
  have "odd_bits ((crc_shift_word ^^ n) w) = odd_bits w" for n
    by (induction n) (simp_all add: odd_bits_shift)
  then show ?thesis by (simp add: crc_byte_word_def)
qed

lemma odd_bits_crc_word: "odd_bits (crc_word c e) = (odd_bits c \<noteq> odd_error e)"
  by (induction e arbitrary: c)
     (auto simp: odd_error_def odd_bits_crc_byte odd_bits_xor)

lemma odd_residue: "odd_error e \<Longrightarrow> crc_word 0 e \<noteq> 0"
  using odd_bits_crc_word [of 0 e] by (auto simp: odd_bits_eq)
section \<open>Whole packets\<close>

definition checksum_ok :: "byte list \<Rightarrow> bool" where
  "checksum_ok p \<longleftrightarrow> crc8 (take 31 p) = Inr (uint (p ! 31))"

lemma take_31_snoc: "length p = 32 \<Longrightarrow> p = take 31 p @ [p ! 31]"
  using take_Suc_conv_app_nth [of 31 p] by simp

lemma checksum_ok_residue: "length p = 32 \<Longrightarrow> checksum_ok p \<longleftrightarrow> crc_word 0 p = 0"
proof -
  assume len: "length p = 32"
  then have "checksum_ok p \<longleftrightarrow> p ! 31 = crc_word 0 (take 31 p)"
    by (auto simp: checksum_ok_def crc8_eq_word intro: word_uint_eqI)
  also have "\<dots> \<longleftrightarrow> crc_word 0 (take 31 p @ [p ! 31]) = 0"
    by (rule residue_snoc [symmetric])
  finally show ?thesis using take_31_snoc [OF len] by simp
qed

lemma crc8_total: "length body = 31 \<Longrightarrow> \<exists>w. crc8 body = Inr (uint w) \<and> w = crc_word 0 body"
  by (simp add: crc8_eq_word)

lemma event_packet_InrD:
  assumes "event_packet sv e = Inr p"
  shows "length p = 32 \<and> checksum_ok p \<and> uint (p ! 0) = sv \<and> decode_event p = Inr e"
proof -
  obtain body crc where body: "struct_pack packet_format
      [sv, ev_message_type e, ev_symbol_id e, ev_timestamp_ns e, ev_price e,
       ev_quantity e, ev_side e, ev_sequence e, ev_flags e] = Inr body"
    and crc: "crc8 body = Inr crc" and snoc: "p = body @ [word_of_int crc]"
    using assms by (auto simp: event_packet_def rbind_eq_Inr)
  from body have len: "length body = 31" and fields: "split_fields packet_format body =
      [sv, ev_message_type e, ev_symbol_id e, ev_timestamp_ns e, ev_price e,
       ev_quantity e, ev_side e, ev_sequence e, ev_flags e]"
    by (auto dest: struct_pack_InrD)
  have p: "p = body @ [crc_word 0 body]"
    using crc snoc len by (auto simp: crc8_eq_word)
  have "be_int (take 1 body) = sv"
    using fields by (simp add: packet_format_def)
  then have "uint (body ! 0) = sv"
    using len by (cases body) simp_all
  moreover have "decode_event p = Inr e"
    using len fields by (simp add: decode_event_def p struct_unpack_def)
  ultimately show ?thesis
    using len by (simp add: p checksum_ok_def crc8_eq_word nth_append)
qed

lemma struct_pack_fits:
  "struct_pack ns vs =
     (if length ns = length vs \<and> list_all2 (\<lambda>n v. 0 \<le> v \<and> v < 256 ^ n) ns vs
      then Inr (concat (map2 be_bytes ns vs)) else Inl StructError)"
  by (induction ns vs rule: struct_pack.induct) (auto simp: pack_field_def)

lemma packet_format_fits:
  "list_all2 (\<lambda>n v. 0 \<le> v \<and> v < 256 ^ n) packet_format
     [sv, ev_message_type e, ev_symbol_id e, ev_timestamp_ns e, ev_price e,
      ev_quantity e, ev_side e, ev_sequence e, ev_flags e]
   \<longleftrightarrow> 0 \<le> sv \<and> sv < 256 \<and> wire_event e"
  by (auto simp: packet_format_def wire_event_def)

lemma event_packet_cases:
  "event_packet sv e =
     (if 0 \<le> sv \<and> sv < 256 \<and> wire_event e
      then let body = concat (map2 be_bytes packet_format
             [sv, ev_message_type e, ev_symbol_id e, ev_timestamp_ns e, ev_price e,
              ev_quantity e, ev_side e, ev_sequence e, ev_flags e])
           in Inr (body @ [crc_word 0 body])
      else Inl StructError)"
proof -
  have "length (concat (map2 be_bytes packet_format
      [sv, ev_message_type e, ev_symbol_id e, ev_timestamp_ns e, ev_price e,
       ev_quantity e, ev_side e, ev_sequence e, ev_flags e])) = 31"
    by (simp add: packet_format_def)
  then show ?thesis
    unfolding event_packet_def struct_pack_fits packet_format_fits
    by (simp add: crc8_eq_word Let_def packet_format_def)
qed

section \<open>Properties\<close>

text \<open>
  C8: An event is serialised exactly when every field fits its wire width; the packet is then
  32 bytes with a correct checksum, and decoding it returns the event unchanged. A field that
  does not fit raises \<open>struct.error\<close> and nothing is written.
\<close>

theorem event_packet_roundtrip:
  "case event_packet SYNC_VERSION e of
     Inr p \<Rightarrow> wire_event e \<and> length p = PACKET_BYTES \<and> checksum_ok p
       \<and> uint (p ! 0) = SYNC_VERSION \<and> decode_event p = Inr e
   | Inl err \<Rightarrow> \<not> wire_event e \<and> err = StructError"
  using event_packet_InrD [of SYNC_VERSION e]
  by (auto simp: event_packet_cases Let_def split: if_splits)

text \<open>
  Decoding is injective on intact packets: a 32-byte packet with a correct checksum decodes to
  an event that fits the wire format and whose serialisation, under the packet's own
  sync byte, is the same packet, byte for byte.
\<close>

theorem decode_event_roundtrip:
  assumes "length p = PACKET_BYTES" and "checksum_ok p"
  shows "\<exists>e. decode_event p = Inr e \<and> wire_event e \<and> event_packet (uint (p ! 0)) e = Inr p"
proof -
  define body where "body = take 31 p"
  have len: "length body = 31"
    using assms by (simp add: body_def)
  have "p ! 31 = crc_word 0 body"
    using assms len by (auto simp: body_def checksum_ok_def crc8_eq_word intro: word_uint_eqI)
  then have p: "p = body @ [crc_word 0 body]"
    using take_31_snoc [of p] assms by (simp add: body_def)
  obtain sv mt sy ts pr qu si sq fl
    where fields: "split_fields packet_format body = [sv, mt, sy, ts, pr, qu, si, sq, fl]"
    by (simp add: packet_format_def)
  define e where "e = \<lparr>ev_message_type = mt, ev_symbol_id = sy, ev_timestamp_ns = ts,
    ev_price = pr, ev_quantity = qu, ev_side = si, ev_sequence = sq, ev_flags = fl\<rparr>"
  have "sv = be_int (take 1 body)"
    using fields by (simp add: packet_format_def)
  then have sv: "sv = uint (p ! 0)"
    using len by (cases body) (simp_all add: p)
  have "struct_pack packet_format [sv, mt, sy, ts, pr, qu, si, sq, fl] = Inr body"
    using struct_pack_split [of body packet_format] len fields by simp
  then have packed: "event_packet (uint (p ! 0)) e = Inr p"
    using sv len by (simp add: event_packet_def e_def crc8_eq_word p)
  moreover have "wire_event e"
    using packed by (simp add: event_packet_cases split: if_splits)
  moreover have "decode_event p = Inr e"
    using event_packet_InrD [OF packed] by simp
  ultimately show ?thesis by blast
qed

definition sample_packet :: "byte list" where
  "sample_packet =
     [161, 7, 18, 52, 1, 2, 3, 4, 5, 6, 7, 8, 208, 13, 0, 0, 0, 0, 0, 0, 0, 0, 0, 42,
      0, 0, 0, 0, 0, 0, 0, 181]"

lemma sample_packet_crc: "crc8 (take 31 sample_packet) = Inr 181"
  by code_simp

lemma sample_packet_intact: "length sample_packet = 32" "checksum_ok sample_packet"
  using sample_packet_crc by (simp_all add: checksum_ok_def) (simp_all add: sample_packet_def)

lemma sample_packet_packed:
  "pack 0xA1 7 0x1234 0x0102030405060708 0xD00D000000000000 42 0 0 0 = Inr sample_packet"
proof -
  have body: "struct_pack packet_format
      [0xA1, 7, 0x1234, 0x0102030405060708, 0xD00D000000000000, 42, 0, 0, 0]
      = Inr (take 31 sample_packet)"
    by code_simp
  show ?thesis
    unfolding pack_def body by (simp add: sample_packet_crc) (simp add: sample_packet_def)
qed

theorem decode_event_roundtrip_witness:
  "length sample_packet = PACKET_BYTES \<and> checksum_ok sample_packet \<and>
   (\<exists>e. decode_event sample_packet = Inr e \<and> wire_event e \<and>
        event_packet (uint (sample_packet ! 0)) e = Inr sample_packet)"
  using decode_event_roundtrip [OF sample_packet_intact] sample_packet_intact by simp

text \<open>
  The reference packer and the classifier agree on what a loopback packet is: whatever packs
  is classified by its sync byte first and its message type second, and never as a checksum
  error.
\<close>

theorem status_for_pack:
  assumes "pack sync_version message_type symbol_id timestamp_ns data quantity side_status
             sequence flags = Inr p"
  shows "status_for p =
    Inr (if sync_version \<noteq> SYNC_VERSION then STATUS_BAD_SYNC
         else if message_type \<noteq> MSG_LOOPBACK then STATUS_BAD_TYPE else STATUS_OK)"
proof -
  define e where "e = \<lparr>ev_message_type = message_type, ev_symbol_id = symbol_id,
    ev_timestamp_ns = timestamp_ns, ev_price = data, ev_quantity = quantity,
    ev_side = side_status, ev_sequence = sequence, ev_flags = flags\<rparr>"
  have packed: "event_packet sync_version e = Inr p"
    using assms by (simp add: pack_def event_packet_def e_def)
  note intact = event_packet_InrD [OF packed]
  have "uint (p ! 1) = message_type"
    using intact by (cases p; cases "tl p")
      (auto simp: decode_event_def struct_unpack_def packet_format_def e_def)
  with intact show ?thesis
    by (auto simp: status_for_def checksum_ok_def)
qed

theorem status_for_pack_witness:
  "pack 0xA1 7 0x1234 0x0102030405060708 0xD00D000000000000 42 0 0 0 = Inr sample_packet \<and>
   status_for sample_packet = Inr STATUS_OK"
  using sample_packet_packed status_for_pack [OF sample_packet_packed] by simp

text \<open>The errors a CRC-8 is sure to see: an odd number of bits, or a burst of at most eight.\<close>

definition detectable_error :: "byte list \<Rightarrow> bool" where
  "detectable_error e \<longleftrightarrow> length e = 32 \<and>
     (odd_error e \<or> (\<exists>k\<in>{..30}. \<exists>s\<in>{..8}. \<exists>q. q \<noteq> 0 \<and> e = burst_error k s q))"

lemma detectable_residue: "detectable_error e \<Longrightarrow> crc_word 0 e \<noteq> 0"
  using odd_residue burst_residue by (auto simp: detectable_error_def)

lemma detectable_breaks_checksum:
  assumes "length p = 32" "checksum_ok p" "detectable_error e"
  shows "length (xor_bytes p e) = 32" "\<not> checksum_ok (xor_bytes p e)"
proof -
  have len: "length e = 32"
    using assms(3) by (simp add: detectable_error_def)
  then show "length (xor_bytes p e) = 32"
    using assms(1) by simp
  then show "\<not> checksum_ok (xor_bytes p e)"
    using assms len residue_xor [of p e] detectable_residue [OF assms(3)]
    by (simp add: checksum_ok_residue)
qed

text \<open>
  C11: Corruption of a packet in transit is always reported when the flipped bits lie within eight
  consecutive bit positions of the packet, or are odd in number: an intact packet
  hit by such an error is classified as bad sync or bad checksum, whatever its content.
\<close>

theorem status_for_detects:
  assumes "status_for p \<in> {Inr STATUS_OK, Inr STATUS_BAD_TYPE}" and "detectable_error e"
  shows "status_for (xor_bytes p e) \<in> {Inr STATUS_BAD_SYNC, Inr STATUS_BAD_CHECKSUM}"
proof -
  have p: "length p = 32" "checksum_ok p"
    using assms(1) crc8_total [of "take 31 p"]
    by (auto simp: status_for_def checksum_ok_def split: if_splits)
  note broken = detectable_breaks_checksum [OF p assms(2)]
  then obtain w where "crc8 (take 31 (xor_bytes p e)) = Inr w" "uint (xor_bytes p e ! 31) \<noteq> w"
    using crc8_total [of "take 31 (xor_bytes p e)"] by (auto simp: checksum_ok_def)
  with broken show ?thesis by (simp add: status_for_def)
qed

lemma sample_burst: "detectable_error (burst_error 4 3 129)"
proof -
  have "length (burst_error 4 3 129) = 32"
    by (simp add: burst_error_def)
  then show ?thesis
    unfolding detectable_error_def
    by (intro conjI disjI2 bexI [of _ 4] bexI [of _ 3] exI [of _ 129]) simp_all
qed

theorem status_for_detects_witness:
  "status_for (xor_bytes sample_packet (burst_error 4 3 129)) = Inr STATUS_BAD_CHECKSUM"
proof -
  have ok: "status_for sample_packet \<in> {Inr STATUS_OK, Inr STATUS_BAD_TYPE}"
    using sample_packet_intact
    by (simp add: status_for_def checksum_ok_def) (simp add: sample_packet_def)
  have "xor_bytes sample_packet (burst_error 4 3 129) ! 0 = 161"
    by (simp add: sample_packet_def burst_error_def xor_bytes_def eval_nat_numeral)
  then have "status_for (xor_bytes sample_packet (burst_error 4 3 129)) \<noteq> Inr STATUS_BAD_SYNC"
    by (auto simp: status_for_def rbind_def split: sum.splits if_splits)
  with status_for_detects [OF ok sample_burst] show ?thesis by blast
qed

end
