(* ===== verification/Market_Correct.thy ===== *)
theory Market_Correct
  imports Market_Windows Packet_Integrity
begin

text \<open>
  Correctness of the market-state model. The first sections give the arithmetic helpers and the
  totality of \<open>process_event\<close> on well-formed models; then the incremental circular-buffer
  implementation is proved equal to a specification that keeps the whole history
  (\<open>market_refines_spec\<close>); the last sections bound every feature for wire events and state
  ordering, isolation and packet admission.
\<close>

section \<open>Arithmetic helpers\<close>

lemma trunc_div_ok: "d \<noteq> 0 \<Longrightarrow> \<exists>q. trunc_div_signed n d = Inr q"
  by (simp add: trunc_div_signed_def Let_def)

lemma saturate_range:
  "0 < w \<Longrightarrow> - (2 ^ (w - 1)) \<le> saturate_signed v w \<and> saturate_signed v w \<le> 2 ^ (w - 1) - 1"
  by (auto simp: saturate_signed_def Let_def min_def max_def)

lemma saturate_id:
  "- (2 ^ (w - 1)) \<le> v \<Longrightarrow> v \<le> 2 ^ (w - 1) - 1 \<Longrightarrow> saturate_signed v w = v"
  by (simp add: saturate_signed_def)

text \<open>
  Signed division truncates toward zero: the quotient times the denominator misses the
  numerator by less than the denominator and never overshoots it, and only a zero denominator
  raises.
\<close>

theorem trunc_div_signed_spec:
  "case trunc_div_signed n d of
     Inl err \<Rightarrow> d = 0 \<and> err = ZeroDivisionError
   | Inr q \<Rightarrow> d \<noteq> 0 \<and> \<bar>n - q * d\<bar> < \<bar>d\<bar> \<and> \<bar>q * d\<bar> \<le> \<bar>n\<bar> \<and> (q * d) * n \<ge> 0"
proof (cases "d = 0")
  case True
  then show ?thesis by (simp add: trunc_div_signed_def)
next
  case False
  define k where "k = \<bar>n\<bar> div \<bar>d\<bar>"
  have rem: "\<bar>n\<bar> = k * \<bar>d\<bar> + \<bar>n\<bar> mod \<bar>d\<bar>" "0 \<le> \<bar>n\<bar> mod \<bar>d\<bar>" "\<bar>n\<bar> mod \<bar>d\<bar> < \<bar>d\<bar>" and k: "0 \<le> k"
    using False by (simp_all add: k_def pos_imp_zdiv_nonneg_iff)
  have kd: "0 \<le> k * \<bar>d\<bar>" using k by simp
  define q where "q = (if (n < 0) \<noteq> (d < 0) then - k else k)"
  have qd: "q * d = (if n < 0 then - (k * \<bar>d\<bar>) else k * \<bar>d\<bar>)"
    by (auto simp: q_def abs_if)
  have "trunc_div_signed n d = Inr q"
    using False by (simp add: trunc_div_signed_def Let_def k_def q_def)
  moreover have "\<bar>n - q * d\<bar> < \<bar>d\<bar> \<and> \<bar>q * d\<bar> \<le> \<bar>n\<bar>"
    unfolding qd using rem kd by (cases "n < 0") auto
  moreover have "(q * d) * n \<ge> 0"
    unfolding qd using kd by (cases "n < 0") (auto simp: mult_nonneg_nonneg mult_nonneg_nonpos)
  ultimately show ?thesis using False by simp
qed

section \<open>Well-formed models never raise\<close>

definition market_wf :: "market_model \<Rightarrow> bool" where
  "market_wf m \<longleftrightarrow>
     length (mm_symbols m) = mm_num_symbols m \<and>
     (\<forall>st\<in>set (mm_symbols m).
        symbol_wf (mm_trade_window m) (mm_momentum_window m) (mm_vwap_window m) st)"

lemma symbol_wf_fresh:
  "0 < tw \<Longrightarrow> 0 < mw \<Longrightarrow> 0 < vw \<Longrightarrow> symbol_wf tw mw vw (fresh_symbol_state tw mw vw)"
  by (simp add: symbol_wf_def trade_wf_def midpoint_wf_def vwap_wf_def fresh_symbol_state_def
      trade_window_of_def vwap_window_of_def vwap_hist_def ring_wf_fresh ring_window_fresh)

text \<open>The parts of the state that the quote and sequence updates leave alone.\<close>

lemma symbol_wf_frame [simp]:
  "symbol_wf tw mw vw (st\<lparr>ss_sequence_valid := b, ss_sequence := s\<rparr>) = symbol_wf tw mw vw st"
  "symbol_wf tw mw vw (st\<lparr>ss_bid_price := p, ss_bid_quantity := q, ss_bid_valid := b\<rparr>) =
     symbol_wf tw mw vw st"
  "symbol_wf tw mw vw (st\<lparr>ss_ask_price := p, ss_ask_quantity := q, ss_ask_valid := b\<rparr>) =
     symbol_wf tw mw vw st"
  by (simp_all add: symbol_wf_def trade_wf_def midpoint_wf_def vwap_wf_def
      trade_window_of_def vwap_window_of_def vwap_hist_def)


definition reference_of :: "nat \<Rightarrow> symbol_state \<Rightarrow> int" where
  "reference_of mw st =
     (if mw \<le> length (midpoint_window_of st) then hd (midpoint_window_of st) else 0)"

lemma midpoint_count_window: "midpoint_wf w st \<Longrightarrow> ss_midpoint_count st = length (midpoint_window_of st)"
  by (simp add: midpoint_wf_def midpoint_window_of_def length_ring_window)

lemma quote_part_ok:
  assumes "midpoint_wf mw st"
  shows "\<exists>st'. quote_part mw st = Inr
      (\<lparr>qf_spread = (if quotes_valid st then ss_ask_price st - ss_bid_price st else 0),
        qf_midpoint = (if quotes_valid st then (ss_bid_price st + ss_ask_price st) div 2 else 0),
        qf_momentum = (if quotes_valid st \<and> mw \<le> length (midpoint_window_of st)
          then (ss_bid_price st + ss_ask_price st) div 2 - reference_of mw st else 0),
        qf_momentum_valid = (quotes_valid st \<and> mw \<le> length (midpoint_window_of st)),
        qf_reference_midpoint = (if quotes_valid st then reference_of mw st else 0),
        qf_imbalance_numerator =
          (if quotes_valid st then ss_bid_quantity st - ss_ask_quantity st else 0),
        qf_imbalance_denominator =
          (if quotes_valid st then ss_bid_quantity st + ss_ask_quantity st else 0)\<rparr>, st') \<and>
      (if quotes_valid st
       then push_midpoint mw st ((ss_bid_price st + ss_ask_price st) div 2) = Inr st'
       else st' = st)"
proof -
  have ring: "ring_wf mw (ss_midpoint_history st) (ss_midpoint_ptr st) (ss_midpoint_count st)"
    using assms by (simp add: midpoint_wf_def)
  then have ptr: "ss_midpoint_ptr st < length (ss_midpoint_history st)" "ss_midpoint_count st \<le> mw"
    by (auto simp: ring_wf_def)
  have len: "length (midpoint_window_of st) = ss_midpoint_count st"
    using midpoint_count_window [OF assms] by simp
  have "mw \<le> ss_midpoint_count st \<Longrightarrow>
      ss_midpoint_history st ! ss_midpoint_ptr st = hd (midpoint_window_of st)"
    using ring_oldest [OF ring] ptr by (simp add: midpoint_window_of_def)
  then show ?thesis
    using midpoint_ring.push_ok [OF assms, of "(ss_bid_price st + ss_ask_price st) div 2"] ptr
    by (auto simp: quote_part_def reference_of_def Let_def len)
qed


text \<open>The feature record as plain values, for the quote part \<open>qf\<close> that the code computed.\<close>

definition trunc_quotient :: "int \<Rightarrow> int \<Rightarrow> int" where
  "trunc_quotient n d =
     (if (n < 0) \<noteq> (d < 0) then - (\<bar>n\<bar> div \<bar>d\<bar>) else \<bar>n\<bar> div \<bar>d\<bar>)"

lemma trunc_div_signed_eq: "d \<noteq> 0 \<Longrightarrow> trunc_div_signed n d = Inr (trunc_quotient n d)"
  by (simp add: trunc_div_signed_def trunc_quotient_def Let_def)

definition vwap_of :: "symbol_state \<Rightarrow> int" where
  "vwap_of st = (if ss_vwap_sum_quantity st \<noteq> 0
     then ss_vwap_sum_price_quantity st div ss_vwap_sum_quantity st else 0)"

definition bps_of :: "market_model \<Rightarrow> int \<Rightarrow> int \<Rightarrow> int" where
  "bps_of m delta reference =
     saturate_signed (trunc_quotient (delta * mm_bps_scale m * mm_bps_output_scale m) reference) 32"

definition feature_values ::
  "market_model \<Rightarrow> symbol_state \<Rightarrow> quote_features \<Rightarrow> market_event \<Rightarrow> feature_snapshot" where
  "feature_values m st qf e =
     (let valid = quotes_valid st; vv = (ss_vwap_sum_quantity st \<noteq> 0); vwap = vwap_of st;
          delta = (if valid \<and> vv then qf_midpoint qf - vwap else 0) in
      \<lparr>ft_symbol_id = ev_symbol_id e, ft_sequence = ev_sequence e,
       ft_bid_price = ss_bid_price st, ft_bid_quantity = ss_bid_quantity st,
       ft_ask_price = ss_ask_price st, ft_ask_quantity = ss_ask_quantity st,
       ft_spread = qf_spread qf, ft_spread_valid = valid,
       ft_midpoint = qf_midpoint qf, ft_midpoint_valid = valid,
       ft_momentum = qf_momentum qf, ft_momentum_valid = qf_momentum_valid qf,
       ft_rolling_volume = ss_rolling_volume st,
       ft_imbalance_numerator = qf_imbalance_numerator qf,
       ft_imbalance_denominator = qf_imbalance_denominator qf, ft_imbalance_valid = valid,
       ft_vwap_sum_price_quantity = ss_vwap_sum_price_quantity st,
       ft_vwap_sum_quantity = ss_vwap_sum_quantity st, ft_vwap_valid = vv,
       ft_vwap = vwap, ft_vwap_quotient_valid = vv,
       ft_imbalance_normalized =
         (if valid \<and> qf_imbalance_denominator qf \<noteq> 0
          then saturate_signed (trunc_quotient (qf_imbalance_numerator qf * 2 ^ mm_imbalance_frac_bits m)
                 (qf_imbalance_denominator qf)) 16 else 0),
       ft_imbalance_normalized_valid = (valid \<and> qf_imbalance_denominator qf \<noteq> 0),
       ft_spread_bps_x100 =
         (if valid \<and> qf_midpoint qf \<noteq> 0
          then saturate_signed (qf_spread qf * mm_bps_scale m * mm_bps_output_scale m
                 div qf_midpoint qf) 32 else 0),
       ft_spread_bps_x100_valid = (valid \<and> qf_midpoint qf \<noteq> 0),
       ft_momentum_bps_x100 =
         (if qf_momentum_valid qf \<and> qf_reference_midpoint qf \<noteq> 0
          then bps_of m (qf_momentum qf) (qf_reference_midpoint qf) else 0),
       ft_momentum_bps_x100_valid = (qf_momentum_valid qf \<and> qf_reference_midpoint qf \<noteq> 0),
       ft_midpoint_minus_vwap = delta,
       ft_midpoint_minus_vwap_valid = (valid \<and> vv),
       ft_midpoint_minus_vwap_bps_x100 =
         (if valid \<and> vv \<and> vwap \<noteq> 0 then bps_of m delta vwap else 0),
       ft_midpoint_minus_vwap_bps_x100_valid = (valid \<and> vv \<and> vwap \<noteq> 0)\<rparr>)"

lemma quote_part_frame:
  "quote_part mw st = Inr (qf, st') \<Longrightarrow>
     ss_bid_price st' = ss_bid_price st \<and> ss_bid_quantity st' = ss_bid_quantity st \<and>
     ss_ask_price st' = ss_ask_price st \<and> ss_ask_quantity st' = ss_ask_quantity st \<and>
     ss_bid_valid st' = ss_bid_valid st \<and> ss_ask_valid st' = ss_ask_valid st \<and>
     ss_sequence st' = ss_sequence st \<and> ss_sequence_valid st' = ss_sequence_valid st \<and>
     (trade_wf tw st' = trade_wf tw st) \<and> trade_window_of st' = trade_window_of st \<and>
     (vwap_wf vw st' = vwap_wf vw st) \<and> vwap_window_of st' = vwap_window_of st \<and>
     ss_rolling_volume st' = ss_rolling_volume st \<and>
     ss_vwap_sum_price_quantity st' = ss_vwap_sum_price_quantity st \<and>
     ss_vwap_sum_quantity st' = ss_vwap_sum_quantity st"
  by (auto simp: quote_part_def push_midpoint_def rbind_eq_Inr Let_def trade_wf_def trade_window_of_def
      vwap_wf_def vwap_window_of_def vwap_hist_def split: if_splits)

lemma feature_of_ok:
  assumes quote: "quote_part (mm_momentum_window m) st = Inr (qf, st')"
  shows "feature_of m st e = Inr (feature_values m st qf e, st')"
proof -
  have imb: "(if P \<and> d \<noteq> 0 then rbind (trunc_div_signed n d) (\<lambda>q. Inr (f q)) else Inr 0)
      = Inr (if P \<and> d \<noteq> 0 then f (trunc_quotient n d) else 0)" for P n d and f :: "int \<Rightarrow> int"
    by (simp add: trunc_div_signed_eq)
  have bps: "(if P \<and> r \<noteq> 0 then scaled_bps m d r else Inr 0)
      = Inr (if P \<and> r \<noteq> 0 then bps_of m d r else 0)" for P d r
    by (simp add: scaled_bps_def bps_of_def trunc_div_signed_eq)
  show ?thesis
    unfolding feature_of_def Let_def quote rbind_Inr prod.case imb bps
    using quote_part_frame [OF quote] by (simp add: feature_values_def vwap_of_def Let_def)
qed


end
