(* ===== verification/Market_History.thy ===== *)
theory Market_History
  imports Market_Correct
begin

text \<open>
  The specification of the market model and the proof that the code implements it. The
  specification keeps the whole history of every symbol and recomputes each rolling feature from
  it; \<open>market_refines_spec\<close> says that the constant-space model with its circular buffers and
  running sums gives the same outcomes, field for field, on every sequence of events.
\<close>

section \<open>The specification: whole histories\<close>

text \<open>
  The specification of a symbol's book forgets nothing: the last quote of each side, the last
  accepted sequence number, every trade and every midpoint of an uncrossed book, oldest first.
  Rolling features are sums over suffixes of these histories.
\<close>

record book =
  bk_bid :: "(int \<times> int) option"
  bk_ask :: "(int \<times> int) option"
  bk_sequence :: "int option"
  bk_trades :: "(int \<times> int) list"
  bk_midpoints :: "int list"

definition empty_book :: book where
  "empty_book = \<lparr>bk_bid = None, bk_ask = None, bk_sequence = None, bk_trades = [], bk_midpoints = []\<rparr>"

definition level :: "(int \<times> int) option \<Rightarrow> int \<times> int" where
  "level q = (case q of None \<Rightarrow> (0, 0) | Some l \<Rightarrow> l)"

definition two_sided :: "book \<Rightarrow> bool" where
  "two_sided bk = (case bk_bid bk of None \<Rightarrow> False | Some (b, _) \<Rightarrow>
     (case bk_ask bk of None \<Rightarrow> False | Some (a, _) \<Rightarrow> b \<le> a))"

definition book_midpoint :: "book \<Rightarrow> int" where
  "book_midpoint bk = (fst (level (bk_bid bk)) + fst (level (bk_ask bk))) div 2"

definition book_take :: "book \<Rightarrow> market_event \<Rightarrow> book" where
  "book_take bk e =
     (let bk = bk\<lparr>bk_sequence := Some (ev_sequence e)\<rparr> in
      if ev_message_type e = MSG_MARKET_QUOTE
      then if ev_side e = 0 then bk\<lparr>bk_bid := Some (ev_price e, ev_quantity e)\<rparr>
           else bk\<lparr>bk_ask := Some (ev_price e, ev_quantity e)\<rparr>
      else bk\<lparr>bk_trades := bk_trades bk @ [(ev_price e, ev_quantity e)]\<rparr>)"

definition book_record_midpoint :: "book \<Rightarrow> book" where
  "book_record_midpoint bk =
     (if two_sided bk then bk\<lparr>bk_midpoints := bk_midpoints bk @ [book_midpoint bk]\<rparr> else bk)"

definition notional :: "(int \<times> int) list \<Rightarrow> int" where
  "notional trades = (\<Sum>(p, q)\<leftarrow>trades. p * q)"

definition volume :: "(int \<times> int) list \<Rightarrow> int" where
  "volume trades = (\<Sum>(p, q)\<leftarrow>trades. q)"

definition book_feature :: "market_model \<Rightarrow> book \<Rightarrow> market_event \<Rightarrow> feature_snapshot" where
  "book_feature m bk e =
     (let ok = two_sided bk;
          (bp, bq) = level (bk_bid bk); (ap, aq) = level (bk_ask bk);
          mid = (if ok then book_midpoint bk else 0);
          full = (ok \<and> mm_momentum_window m \<le> length (bk_midpoints bk));
          old = (if full then bk_midpoints bk ! (length (bk_midpoints bk) - mm_momentum_window m) else 0);
          recent = last_n (mm_vwap_window m) (bk_trades bk);
          traded = (volume recent \<noteq> 0);
          vwap = (if traded then notional recent div volume recent else 0);
          skew = (ok \<and> bq + aq \<noteq> 0);
          delta = (if ok \<and> traded then mid - vwap else 0)
      in \<lparr>ft_symbol_id = ev_symbol_id e, ft_sequence = ev_sequence e,
          ft_bid_price = bp, ft_bid_quantity = bq, ft_ask_price = ap, ft_ask_quantity = aq,
          ft_spread = (if ok then ap - bp else 0), ft_spread_valid = ok,
          ft_midpoint = mid, ft_midpoint_valid = ok,
          ft_momentum = (if full then mid - old else 0), ft_momentum_valid = full,
          ft_rolling_volume = volume (last_n (mm_trade_window m) (bk_trades bk)),
          ft_imbalance_numerator = (if ok then bq - aq else 0),
          ft_imbalance_denominator = (if ok then bq + aq else 0), ft_imbalance_valid = ok,
          ft_vwap_sum_price_quantity = notional recent, ft_vwap_sum_quantity = volume recent,
          ft_vwap_valid = traded, ft_vwap = vwap, ft_vwap_quotient_valid = traded,
          ft_imbalance_normalized =
            (if skew then saturate_signed
               (trunc_quotient ((bq - aq) * 2 ^ mm_imbalance_frac_bits m) (bq + aq)) 16 else 0),
          ft_imbalance_normalized_valid = skew,
          ft_spread_bps_x100 =
            (if ok \<and> mid \<noteq> 0 then saturate_signed
               ((ap - bp) * mm_bps_scale m * mm_bps_output_scale m div mid) 32 else 0),
          ft_spread_bps_x100_valid = (ok \<and> mid \<noteq> 0),
          ft_momentum_bps_x100 = (if full \<and> old \<noteq> 0 then bps_of m (mid - old) old else 0),
          ft_momentum_bps_x100_valid = (full \<and> old \<noteq> 0),
          ft_midpoint_minus_vwap = delta, ft_midpoint_minus_vwap_valid = (ok \<and> traded),
          ft_midpoint_minus_vwap_bps_x100 =
            (if ok \<and> traded \<and> vwap \<noteq> 0 then bps_of m delta vwap else 0),
          ft_midpoint_minus_vwap_bps_x100_valid = (ok \<and> traded \<and> vwap \<noteq> 0)\<rparr>)"

text \<open>What makes an event inadmissible, in the order the code checks it.\<close>

definition verdict :: "nat \<Rightarrow> (int \<Rightarrow> int option) \<Rightarrow> market_event \<Rightarrow> (string \<times> int) option" where
  "verdict n latest e =
     (if ev_symbol_id e < 0 \<or> int n \<le> ev_symbol_id e then Some (''dispatch_error'', STATUS_BAD_SYMBOL)
      else if ev_message_type e \<noteq> MSG_MARKET_QUOTE \<and> ev_message_type e \<noteq> MSG_MARKET_TRADE
      then Some (''reject'', STATUS_BAD_TYPE)
      else if ev_side e \<noteq> 0 \<and> ev_side e \<noteq> 1 then Some (''reject'', STATUS_BAD_SIDE)
      else case latest (ev_symbol_id e) of None \<Rightarrow> None
           | Some s \<Rightarrow> if ev_sequence e = s then Some (''reject'', STATUS_DUPLICATE_SEQ)
                      else if ev_sequence e < s then Some (''reject'', STATUS_STALE_SEQ) else None)"

definition books_step ::
  "market_model \<Rightarrow> (int \<Rightarrow> book) \<Rightarrow> market_event \<Rightarrow> model_outcome \<times> (int \<Rightarrow> book)" where
  "books_step m books e =
     (case verdict (mm_num_symbols m) (\<lambda>i. bk_sequence (books i)) e of
        Some (kind, reason) \<Rightarrow> (outcome_reject kind e reason, books)
      | None \<Rightarrow>
          let i = ev_symbol_id e; bk = book_take (books i) e
          in (\<lparr>oc_kind = ''feature'', oc_symbol_id = i, oc_sequence = ev_sequence e, oc_reason = 0,
               oc_feature = Some (book_feature m bk e)\<rparr>,
              books(i := book_record_midpoint bk)))"

fun books_run ::
  "market_model \<Rightarrow> (int \<Rightarrow> book) \<Rightarrow> market_event list \<Rightarrow> model_outcome list \<times> (int \<Rightarrow> book)" where
  "books_run m books [] = ([], books)"
| "books_run m books (e # es) =
     (let (oc, books') = books_step m books e; (ocs, books'') = books_run m books' es
      in (oc # ocs, books''))"


section \<open>The representation relation\<close>

definition quotes_represent :: "symbol_state \<Rightarrow> book \<Rightarrow> bool" where
  "quotes_represent st bk \<longleftrightarrow>
     bk_bid bk = (if ss_bid_valid st then Some (ss_bid_price st, ss_bid_quantity st) else None) \<and>
     bk_ask bk = (if ss_ask_valid st then Some (ss_ask_price st, ss_ask_quantity st) else None) \<and>
     (\<not> ss_bid_valid st \<longrightarrow> ss_bid_price st = 0 \<and> ss_bid_quantity st = 0) \<and>
     (\<not> ss_ask_valid st \<longrightarrow> ss_ask_price st = 0 \<and> ss_ask_quantity st = 0)"

definition windows_represent :: "nat \<Rightarrow> nat \<Rightarrow> symbol_state \<Rightarrow> book \<Rightarrow> bool" where
  "windows_represent tw vw st bk \<longleftrightarrow>
     trade_window_of st = last_n tw (map snd (bk_trades bk)) \<and>
     vwap_window_of st = last_n vw (map (\<lambda>(p, q). (p * q, q)) (bk_trades bk))"

definition represents :: "nat \<Rightarrow> nat \<Rightarrow> nat \<Rightarrow> symbol_state \<Rightarrow> book \<Rightarrow> bool" where
  "represents tw mw vw st bk \<longleftrightarrow>
     symbol_wf tw mw vw st \<and> quotes_represent st bk \<and> windows_represent tw vw st bk \<and>
     midpoint_window_of st = last_n mw (bk_midpoints bk) \<and>
     bk_sequence bk = (if ss_sequence_valid st then Some (ss_sequence st) else None)"

lemma quotes_represent_two_sided:
  "quotes_represent st bk \<Longrightarrow> two_sided bk = quotes_valid st"
  by (auto simp: quotes_represent_def two_sided_def quotes_valid_def)

lemma quotes_represent_level:
  "quotes_represent st bk \<Longrightarrow> level (bk_bid bk) = (ss_bid_price st, ss_bid_quantity st)"
  "quotes_represent st bk \<Longrightarrow> level (bk_ask bk) = (ss_ask_price st, ss_ask_quantity st)"
  by (auto simp: quotes_represent_def level_def)

lemma notional_map: "notional xs = sum_list (map fst (map (\<lambda>(p, q). (p * q, q)) xs))"
  by (induction xs) (auto simp: notional_def)

lemma volume_map: "volume xs = sum_list (map snd xs)"
  by (induction xs) (auto simp: volume_def)

lemma represents_sums:
  assumes "trade_wf tw st" "vwap_wf vw st" "windows_represent tw vw st bk"
  shows "ss_rolling_volume st = volume (last_n tw (bk_trades bk))"
    "ss_vwap_sum_price_quantity st = notional (last_n vw (bk_trades bk))"
    "ss_vwap_sum_quantity st = volume (last_n vw (bk_trades bk))"
proof -
  have [simp]: "snd \<circ> (\<lambda>(p, q). (p * q, q)) = (snd :: int \<times> int \<Rightarrow> int)" by auto
  show "ss_rolling_volume st = volume (last_n tw (bk_trades bk))"
    "ss_vwap_sum_price_quantity st = notional (last_n vw (bk_trades bk))"
    "ss_vwap_sum_quantity st = volume (last_n vw (bk_trades bk))"
    using assms
    by (simp_all add: trade_wf_def vwap_wf_def windows_represent_def notional_map volume_map map_last_n)
qed

lemma represents_fresh:
  "0 < tw \<Longrightarrow> 0 < mw \<Longrightarrow> 0 < vw \<Longrightarrow>
     represents tw mw vw (fresh_symbol_state tw mw vw) empty_book"
  by (simp add: represents_def symbol_wf_fresh quotes_represent_def windows_represent_def)
    (simp add: fresh_symbol_state_def empty_book_def trade_window_of_def vwap_window_of_def
      midpoint_window_of_def vwap_hist_def ring_window_fresh)

text \<open>Each of the three updates of \<open>apply_market_event\<close> preserves the relation.\<close>

lemma represents_sequence:
  "represents tw mw vw st bk \<Longrightarrow>
     represents tw mw vw (st\<lparr>ss_sequence_valid := True, ss_sequence := s\<rparr>) (bk\<lparr>bk_sequence := Some s\<rparr>)"
  by (simp add: represents_def quotes_represent_def windows_represent_def trade_window_of_def
      vwap_window_of_def vwap_hist_def midpoint_window_of_def)

lemma represents_bid:
  "represents tw mw vw st bk \<Longrightarrow>
     represents tw mw vw (st\<lparr>ss_bid_price := p, ss_bid_quantity := q, ss_bid_valid := True\<rparr>)
       (bk\<lparr>bk_bid := Some (p, q)\<rparr>)"
  by (simp add: represents_def quotes_represent_def windows_represent_def trade_window_of_def
      vwap_window_of_def vwap_hist_def midpoint_window_of_def)

lemma represents_ask:
  "represents tw mw vw st bk \<Longrightarrow>
     represents tw mw vw (st\<lparr>ss_ask_price := p, ss_ask_quantity := q, ss_ask_valid := True\<rparr>)
       (bk\<lparr>bk_ask := Some (p, q)\<rparr>)"
  by (simp add: represents_def quotes_represent_def windows_represent_def trade_window_of_def
      vwap_window_of_def vwap_hist_def midpoint_window_of_def)

lemma push_trade_frame:
  assumes "push_trade tw st q = Inr st'"
  shows "vwap_wf vw st' = vwap_wf vw st \<and> vwap_window_of st' = vwap_window_of st \<and>
     midpoint_wf mw st' = midpoint_wf mw st \<and> midpoint_window_of st' = midpoint_window_of st \<and>
     quotes_represent st' bk = quotes_represent st bk \<and>
     ss_sequence_valid st' = ss_sequence_valid st \<and> ss_sequence st' = ss_sequence st"
proof -
  from assms consider
      (full) h v p where "st' = st\<lparr>ss_trade_history := h, ss_rolling_volume := v, ss_trade_ptr := p\<rparr>"
    | (filling) n h v p where "st' = st\<lparr>ss_trade_count := n, ss_trade_history := h,
        ss_rolling_volume := v, ss_trade_ptr := p\<rparr>"
    by (cases "ss_trade_count st \<ge> tw") (auto simp: push_trade_def rbind_eq_Inr)
  then show ?thesis
    by cases (simp_all add: vwap_wf_def vwap_window_of_def vwap_hist_def midpoint_wf_def
        midpoint_window_of_def quotes_represent_def)
qed

lemma push_vwap_frame:
  assumes "push_vwap vw st pq q = Inr st'"
  shows "trade_wf tw st' = trade_wf tw st \<and> trade_window_of st' = trade_window_of st \<and>
     midpoint_wf mw st' = midpoint_wf mw st \<and> midpoint_window_of st' = midpoint_window_of st \<and>
     quotes_represent st' bk = quotes_represent st bk \<and>
     ss_sequence_valid st' = ss_sequence_valid st \<and> ss_sequence st' = ss_sequence st"
proof -
  from assms consider
      (full) h h' v v' p where "st' = st\<lparr>ss_vwap_price_quantity_history := h,
        ss_vwap_quantity_history := h', ss_vwap_sum_price_quantity := v, ss_vwap_sum_quantity := v',
        ss_vwap_ptr := p\<rparr>"
    | (filling) n h h' v v' p where "st' = st\<lparr>ss_vwap_count := n,
        ss_vwap_price_quantity_history := h, ss_vwap_quantity_history := h',
        ss_vwap_sum_price_quantity := v, ss_vwap_sum_quantity := v', ss_vwap_ptr := p\<rparr>"
    by (cases "ss_vwap_count st \<ge> vw") (auto simp: push_vwap_def rbind_eq_Inr)
  then show ?thesis
    by cases (simp_all add: trade_wf_def trade_window_of_def midpoint_wf_def
        midpoint_window_of_def quotes_represent_def)
qed

lemma quotes_represent_trades [simp]:
  "quotes_represent st (bk\<lparr>bk_trades := ts\<rparr>) = quotes_represent st bk"
  "quotes_represent st (bk\<lparr>bk_midpoints := ms\<rparr>) = quotes_represent st bk"
  by (simp_all add: quotes_represent_def)

lemma represents_trade:
  assumes "represents tw mw vw st bk"
  shows "\<exists>st1 st2. push_trade tw st q = Inr st1 \<and> push_vwap vw st1 (p * q) q = Inr st2 \<and>
    represents tw mw vw st2 (bk\<lparr>bk_trades := bk_trades bk @ [(p, q)]\<rparr>)"
proof -
  have wf: "trade_wf tw st" "vwap_wf vw st"
    using assms by (auto simp: represents_def symbol_wf_def)
  obtain st1 where st1: "push_trade tw st q = Inr st1" "trade_wf tw st1"
    "trade_window_of st1 = last_n tw (trade_window_of st @ [q])"
    using trade_ring.push_ok [OF wf(1)] by blast
  have wf1: "vwap_wf vw st1" and win1: "vwap_window_of st1 = vwap_window_of st"
    using push_trade_frame [OF st1(1)] wf(2) by blast+
  obtain st2 where st2: "push_vwap vw st1 (p * q) q = Inr st2" "vwap_wf vw st2"
    "vwap_window_of st2 = last_n vw (vwap_window_of st1 @ [(p * q, q)])"
    using vwap_ring.push_ok [OF wf1, of "(p * q, q)"] by auto
  have "represents tw mw vw st2 (bk\<lparr>bk_trades := bk_trades bk @ [(p, q)]\<rparr>)"
    using assms st1 st2 win1 push_trade_frame [OF st1(1)] push_vwap_frame [OF st2(1)]
    by (simp add: represents_def symbol_wf_def windows_represent_def last_n_append)
  with st1(1) st2(1) show ?thesis by blast
qed

lemma hd_last_n: "n \<le> length xs \<Longrightarrow> 0 < n \<Longrightarrow> hd (last_n n xs) = xs ! (length xs - n)"
  by (simp add: last_n_def hd_drop_conv_nth)

lemma push_midpoint_frame:
  assumes "push_midpoint mw st x = Inr st'"
  shows "trade_wf tw st' = trade_wf tw st \<and> vwap_wf vw st' = vwap_wf vw st \<and>
     quotes_represent st' bk = quotes_represent st bk \<and>
     windows_represent tw vw st' bk = windows_represent tw vw st bk \<and>
     ss_sequence_valid st' = ss_sequence_valid st \<and> ss_sequence st' = ss_sequence st"
proof -
  from assms obtain h p n where "st' = st\<lparr>ss_midpoint_history := h, ss_midpoint_ptr := p,
      ss_midpoint_count := n\<rparr>"
    by (auto simp: push_midpoint_def rbind_eq_Inr)
  then show ?thesis
    by (simp add: trade_wf_def trade_window_of_def vwap_wf_def vwap_window_of_def vwap_hist_def
        quotes_represent_def windows_represent_def)
qed

lemma windows_represent_midpoints [simp]:
  "windows_represent tw vw st (bk\<lparr>bk_midpoints := ms\<rparr>) = windows_represent tw vw st bk"
  by (simp add: windows_represent_def)

lemma feature_represents:
  assumes rep: "represents (mm_trade_window m) (mm_momentum_window m) (mm_vwap_window m) st bk"
  shows "\<exists>st'. feature_of m st e = Inr (book_feature m bk e, st') \<and>
    represents (mm_trade_window m) (mm_momentum_window m) (mm_vwap_window m) st'
      (book_record_midpoint bk)"
proof -
  let ?mw = "mm_momentum_window m"
  have wf: "trade_wf (mm_trade_window m) st" "midpoint_wf ?mw st" "vwap_wf (mm_vwap_window m) st"
    and quotes: "quotes_represent st bk" and wins: "windows_represent (mm_trade_window m) (mm_vwap_window m) st bk"
    and mids: "midpoint_window_of st = last_n ?mw (bk_midpoints bk)"
    using rep by (auto simp: represents_def symbol_wf_def)
  have mw: "0 < ?mw" using wf(2) by (simp add: midpoint_wf_def ring_wf_def)
  note sums = represents_sums [OF wf(1,3) wins]
  note lv = quotes_represent_level [OF quotes]
  have two: "two_sided bk = quotes_valid st" by (rule quotes_represent_two_sided [OF quotes])
  have full: "?mw \<le> length (midpoint_window_of st) \<longleftrightarrow> ?mw \<le> length (bk_midpoints bk)"
    by (simp add: mids)
  have ref: "reference_of ?mw st =
      (if ?mw \<le> length (bk_midpoints bk)
       then bk_midpoints bk ! (length (bk_midpoints bk) - ?mw) else 0)"
    using mw by (simp add: reference_of_def mids hd_last_n)
  have mid: "book_midpoint bk = (ss_bid_price st + ss_ask_price st) div 2"
    by (simp add: book_midpoint_def lv)
  from quote_part_ok [OF wf(2)] obtain qf st' where
    q: "quote_part ?mw st = Inr (qf, st')" and
    qf: "qf = \<lparr>qf_spread = (if quotes_valid st then ss_ask_price st - ss_bid_price st else 0),
        qf_midpoint = (if quotes_valid st then book_midpoint bk else 0),
        qf_momentum = (if quotes_valid st \<and> ?mw \<le> length (bk_midpoints bk)
          then book_midpoint bk - reference_of ?mw st else 0),
        qf_momentum_valid = (quotes_valid st \<and> ?mw \<le> length (bk_midpoints bk)),
        qf_reference_midpoint = (if quotes_valid st then reference_of ?mw st else 0),
        qf_imbalance_numerator =
          (if quotes_valid st then ss_bid_quantity st - ss_ask_quantity st else 0),
        qf_imbalance_denominator =
          (if quotes_valid st then ss_bid_quantity st + ss_ask_quantity st else 0)\<rparr>" and
    st': "if quotes_valid st then push_midpoint ?mw st (book_midpoint bk) = Inr st' else st' = st"
    unfolding full mid by blast
  have feat: "feature_values m st qf e = book_feature m bk e"
    unfolding feature_values_def book_feature_def Let_def lv two prod.case sums vwap_of_def qf ref
    by (cases "quotes_valid st"; cases "?mw \<le> length (bk_midpoints bk)"; simp)
  have "represents (mm_trade_window m) ?mw (mm_vwap_window m) st' (book_record_midpoint bk)"
  proof (cases "quotes_valid st")
    case True
    then have push: "push_midpoint ?mw st (book_midpoint bk) = Inr st'" using st' by simp
    show ?thesis
      using midpoint_ring.push_InrD [OF wf(2) push] push_midpoint_frame [OF push] rep True
      by (simp add: represents_def symbol_wf_def book_record_midpoint_def two mids last_n_append)
  next
    case False
    then show ?thesis using st' rep by (simp add: book_record_midpoint_def two)
  qed
  with feat show ?thesis unfolding feature_of_ok [OF q] by blast
qed

section \<open>The code implements the specification\<close>

definition model_represents :: "market_model \<Rightarrow> (int \<Rightarrow> book) \<Rightarrow> bool" where
  "model_represents m books \<longleftrightarrow>
     length (mm_symbols m) = mm_num_symbols m \<and>
     (\<forall>i<mm_num_symbols m. represents (mm_trade_window m) (mm_momentum_window m) (mm_vwap_window m)
        (mm_symbols m ! i) (books (int i)))"

lemma model_representsD:
  "model_represents m books \<Longrightarrow> 0 \<le> i \<Longrightarrow> nat i < mm_num_symbols m \<Longrightarrow>
     represents (mm_trade_window m) (mm_momentum_window m) (mm_vwap_window m)
       (mm_symbols m ! nat i) (books i)"
  unfolding model_represents_def by (metis int_nat_eq)

lemma model_represents_sequence:
  "model_represents m books \<Longrightarrow> 0 \<le> i \<Longrightarrow> nat i < mm_num_symbols m \<Longrightarrow>
     bk_sequence (books i) = (if ss_sequence_valid (mm_symbols m ! nat i)
       then Some (ss_sequence (mm_symbols m ! nat i)) else None)"
  by (drule (2) model_representsD) (simp add: represents_def)

lemma apply_represents:
  assumes "represents (mm_trade_window m) (mm_momentum_window m) (mm_vwap_window m) st bk"
  shows "\<exists>st'. apply_market_event m st e = Inr (book_feature m (book_take bk e) e, st') \<and>
    represents (mm_trade_window m) (mm_momentum_window m) (mm_vwap_window m) st'
      (book_record_midpoint (book_take bk e))"
proof -
  note seq = represents_sequence [OF assms, of "ev_sequence e"]
  consider "ev_message_type e = MSG_MARKET_QUOTE" "ev_side e = 0"
    | "ev_message_type e = MSG_MARKET_QUOTE" "ev_side e \<noteq> 0"
    | "ev_message_type e \<noteq> MSG_MARKET_QUOTE" by blast
  then show ?thesis
  proof cases
    case 1
    then show ?thesis
      using feature_represents [OF represents_bid [OF seq, where p = "ev_price e" and q = "ev_quantity e"], of e]
      by (simp add: apply_market_event_def book_take_def)
  next
    case 2
    then show ?thesis
      using feature_represents [OF represents_ask [OF seq, where p = "ev_price e" and q = "ev_quantity e"], of e]
      by (simp add: apply_market_event_def book_take_def)
  next
    case 3
    obtain st1 st2 where "push_trade (mm_trade_window m)
        (st\<lparr>ss_sequence_valid := True, ss_sequence := ev_sequence e\<rparr>) (ev_quantity e) = Inr st1"
      "push_vwap (mm_vwap_window m) st1 (ev_price e * ev_quantity e) (ev_quantity e) = Inr st2"
      and rep: "represents (mm_trade_window m) (mm_momentum_window m) (mm_vwap_window m) st2
        (bk\<lparr>bk_sequence := Some (ev_sequence e), bk_trades := bk_trades bk @ [(ev_price e, ev_quantity e)]\<rparr>)"
      using represents_trade [OF seq, where q = "ev_quantity e" and p = "ev_price e"] by auto
    with feature_represents [OF rep, of e] 3 show ?thesis
      by (simp add: apply_market_event_def book_take_def)
  qed
qed

text \<open>The code's rejections are the specification's, in the same order.\<close>

lemma process_event_reject:
  assumes "model_represents m books"
    and "verdict (mm_num_symbols m) (\<lambda>i. bk_sequence (books i)) e = Some (kind, reason)"
  shows "process_event m e = Inr (outcome_reject kind e reason, m)"
proof (cases "ev_symbol_id e < 0 \<or> int (mm_num_symbols m) \<le> ev_symbol_id e")
  case True
  then show ?thesis using assms(2) by (auto simp: verdict_def process_event_def)
next
  case False
  then have i: "nat (ev_symbol_id e) < mm_num_symbols m" "nat (ev_symbol_id e) < length (mm_symbols m)"
    using assms(1) by (auto simp: model_represents_def)
  let ?st = "mm_symbols m ! nat (ev_symbol_id e)"
  have "bk_sequence (books (ev_symbol_id e)) =
      (if ss_sequence_valid ?st then Some (ss_sequence ?st) else None)"
    using model_represents_sequence [OF assms(1) _ i(1)] False by simp
  then show ?thesis
    using assms(2) False i(2)
    by (auto simp: verdict_def process_event_def split: if_splits)
qed

lemma process_event_accept:
  assumes "model_represents m books"
    and "verdict (mm_num_symbols m) (\<lambda>i. bk_sequence (books i)) e = None"
  shows "0 \<le> ev_symbol_id e \<and> nat (ev_symbol_id e) < mm_num_symbols m \<and>
    process_event m e =
      rbind (apply_market_event m (mm_symbols m ! nat (ev_symbol_id e)) e) (\<lambda>(feature, st).
          Inr (\<lparr>oc_kind = ''feature'', oc_symbol_id = ev_symbol_id e,
                oc_sequence = ev_sequence e, oc_reason = 0, oc_feature = Some feature\<rparr>,
               m\<lparr>mm_symbols := (mm_symbols m)[nat (ev_symbol_id e) := st]\<rparr>))"
proof -
  have i: "0 \<le> ev_symbol_id e" "nat (ev_symbol_id e) < mm_num_symbols m"
    "nat (ev_symbol_id e) < length (mm_symbols m)"
    using assms by (auto simp: model_represents_def verdict_def split: if_splits)
  let ?st = "mm_symbols m ! nat (ev_symbol_id e)"
  have seq: "bk_sequence (books (ev_symbol_id e)) =
      (if ss_sequence_valid ?st then Some (ss_sequence ?st) else None)"
    using model_represents_sequence [OF assms(1) i(1,2)] .
  have ok: "ev_message_type e = MSG_MARKET_QUOTE \<or> ev_message_type e = MSG_MARKET_TRADE"
    "ev_side e = 0 \<or> ev_side e = 1" "ev_symbol_id e < int (mm_num_symbols m)"
    "\<not> (ss_sequence_valid ?st \<and> ev_sequence e \<le> ss_sequence ?st)"
    using assms(2) seq by (auto simp: verdict_def split: if_splits)
  show ?thesis
    using i ok by (auto simp: process_event_def)
qed

lemma process_event_represents:
  assumes "model_represents m books"
  shows "\<exists>m'. process_event m e = Inr (fst (books_step m books e), m') \<and>
    model_represents m' (snd (books_step m books e)) \<and>
    m' = m\<lparr>mm_symbols := mm_symbols m'\<rparr>"
proof (cases "verdict (mm_num_symbols m) (\<lambda>i. bk_sequence (books i)) e")
  case (Some v)
  obtain k r where v: "v = (k, r)" by fastforce
  show ?thesis
    using process_event_reject [OF assms, of e k r] Some v assms by (simp add: books_step_def)
next
  case None
  let ?i = "nat (ev_symbol_id e)"
  note acc = process_event_accept [OF assms None]
  then have rep: "represents (mm_trade_window m) (mm_momentum_window m) (mm_vwap_window m)
      (mm_symbols m ! ?i) (books (ev_symbol_id e))" and len: "?i < length (mm_symbols m)"
    using assms model_representsD by (auto simp: model_represents_def)
  from apply_represents [OF rep, of e] obtain st' where
    ap: "apply_market_event m (mm_symbols m ! ?i) e =
      Inr (book_feature m (book_take (books (ev_symbol_id e)) e) e, st')" and
    st': "represents (mm_trade_window m) (mm_momentum_window m) (mm_vwap_window m) st'
      (book_record_midpoint (book_take (books (ev_symbol_id e)) e))" by blast
  have "model_represents (m\<lparr>mm_symbols := (mm_symbols m)[?i := st']\<rparr>)
      (books(ev_symbol_id e := book_record_midpoint (book_take (books (ev_symbol_id e)) e)))"
    using assms st' acc len by (auto simp: model_represents_def nth_list_update)
  then show ?thesis
    using acc ap None by (simp add: books_step_def Let_def)
qed

text \<open>The specification uses the model's dimensions only, never its state.\<close>

lemma books_run_cong:
  assumes "m' = m\<lparr>mm_symbols := s\<rparr>"
  shows "books_run m' books es = books_run m books es"
proof -
  have dims: "mm_trade_window m' = mm_trade_window m" "mm_momentum_window m' = mm_momentum_window m"
    "mm_vwap_window m' = mm_vwap_window m" "mm_bps_scale m' = mm_bps_scale m"
    "mm_bps_output_scale m' = mm_bps_output_scale m"
    "mm_imbalance_frac_bits m' = mm_imbalance_frac_bits m" "mm_num_symbols m' = mm_num_symbols m"
    unfolding assms by simp_all
  have "book_feature m' bk e = book_feature m bk e" for bk e
    by (simp only: book_feature_def bps_of_def dims)
  then have "books_step m' b e = books_step m b e" for b e
    by (simp only: books_step_def dims)
  then show ?thesis by (induction es arbitrary: books) simp_all
qed

lemma process_events_represents:
  assumes "model_represents m books"
  shows "\<exists>m'. process_events m es = Inr (fst (books_run m books es), m') \<and>
    model_represents m' (snd (books_run m books es)) \<and> m' = m\<lparr>mm_symbols := mm_symbols m'\<rparr>"
  using assms
proof (induction es arbitrary: m books)
  case Nil
  then show ?case by simp
next
  case (Cons e es)
  obtain m1 where m1: "process_event m e = Inr (fst (books_step m books e), m1)"
    "model_represents m1 (snd (books_step m books e))" "m1 = m\<lparr>mm_symbols := mm_symbols m1\<rparr>"
    using process_event_represents [OF Cons.prems] by blast
  have same: "books_run m1 b es = books_run m b es" for b
    using books_run_cong [OF m1(3)] .
  obtain m2 where "process_events m1 es = Inr (fst (books_run m1 (snd (books_step m books e)) es), m2)"
    "model_represents m2 (snd (books_run m1 (snd (books_step m books e)) es))"
    "m2 = m1\<lparr>mm_symbols := mm_symbols m2\<rparr>"
    using Cons.IH [OF m1(2)] by blast
  moreover have "m2 = m\<lparr>mm_symbols := mm_symbols m2\<rparr>"
    using calculation(3) m1(3) by (metis market_model.surjective market_model.update_convs(9))
  ultimately show ?case
    using m1(1) same by (simp add: split_beta)
qed

lemma model_represents_init:
  assumes "market_init ns tw mw vw ps bs bos ifb = Inr m"
  shows "model_represents m (\<lambda>_. empty_book)"
proof -
  have "0 < tw" "0 < mw" "0 < vw"
    using assms by (auto simp: market_init_def split: if_splits)
  moreover have "m = market_reset_state \<lparr>mm_num_symbols = nat ns, mm_trade_window = nat tw,
         mm_momentum_window = nat mw, mm_vwap_window = nat vw, mm_price_scale = ps, mm_bps_scale = bs,
         mm_bps_output_scale = bos, mm_imbalance_frac_bits = nat ifb, mm_symbols = []\<rparr>"
    using assms by (auto simp: market_init_def split: if_splits)
  ultimately show ?thesis
    by (simp add: model_represents_def market_reset_state_def represents_fresh)
qed

text \<open>A small run: two symbols, windows of two, every kind of event and rejection.\<close>

definition demo_market :: market_model where
  "demo_market = market_reset_state
     \<lparr>mm_num_symbols = 2, mm_trade_window = 2, mm_momentum_window = 2, mm_vwap_window = 2,
      mm_price_scale = 1000000, mm_bps_scale = 10000, mm_bps_output_scale = 100,
      mm_imbalance_frac_bits = 15, mm_symbols = []\<rparr>"

definition demo_event :: "int \<Rightarrow> int \<Rightarrow> int \<Rightarrow> int \<Rightarrow> int \<Rightarrow> int \<Rightarrow> market_event" where
  "demo_event ty symb price qty side sequence =
     \<lparr>ev_message_type = ty, ev_symbol_id = symb, ev_timestamp_ns = 0, ev_price = price,
      ev_quantity = qty, ev_side = side, ev_sequence = sequence, ev_flags = 0\<rparr>"

definition demo_events :: "market_event list" where
  "demo_events =
     [demo_event MSG_MARKET_QUOTE 0 100 5 0 1, demo_event MSG_MARKET_QUOTE 1 900 1 0 1,
      demo_event MSG_MARKET_QUOTE 0 104 7 1 2, demo_event MSG_MARKET_TRADE 0 101 10 0 3,
      demo_event MSG_MARKET_TRADE 0 103 20 0 4, demo_event MSG_MARKET_TRADE 0 102 30 1 5,
      demo_event MSG_MARKET_TRADE 0 102 30 1 5, demo_event MSG_MARKET_TRADE 0 102 30 1 4,
      demo_event MSG_MARKET_TRADE 2 102 30 1 4, demo_event 9 1 102 30 1 4,
      demo_event MSG_MARKET_TRADE 1 102 30 2 4]"

lemma demo_market_init: "market_init 2 2 2 2 1000000 10000 100 15 = Inr demo_market"
  by (simp add: market_init_def demo_market_def)

lemma demo_run:
  "map (\<lambda>oc. (oc_reason oc, map_option ft_rolling_volume (oc_feature oc)))
     (fst (books_run demo_market (\<lambda>_. empty_book) demo_events)) =
   [(0, Some 0), (0, Some 0), (0, Some 0), (0, Some 10), (0, Some 30), (0, Some 50),
    (STATUS_DUPLICATE_SEQ, None), (STATUS_STALE_SEQ, None), (STATUS_BAD_SYMBOL, None),
    (STATUS_BAD_TYPE, None), (STATUS_BAD_SIDE, None)]"
  by code_simp

text \<open>
  C1: On every sequence of events whatsoever, a freshly constructed model never raises and
  answers exactly as the specification that remembers every trade and midpoint and recomputes
  each rolling feature from that history: the same verdicts, reasons and feature records.
\<close>

theorem market_refines_spec:
  assumes "market_init ns tw mw vw ps bs bos ifb = Inr m"
  shows "\<exists>m'. process_events m es = Inr (fst (books_run m (\<lambda>_. empty_book) es), m')"
  using process_events_represents [OF model_represents_init [OF assms]] by blast

theorem market_refines_spec_witness:
  "\<exists>ocs m'. process_events demo_market demo_events = Inr (ocs, m') \<and>
     map (\<lambda>oc. (oc_reason oc, map_option ft_rolling_volume (oc_feature oc))) ocs =
   [(0, Some 0), (0, Some 0), (0, Some 0), (0, Some 10), (0, Some 30), (0, Some 50),
    (STATUS_DUPLICATE_SEQ, None), (STATUS_STALE_SEQ, None), (STATUS_BAD_SYMBOL, None),
    (STATUS_BAD_TYPE, None), (STATUS_BAD_SIDE, None)]"
  using market_refines_spec [OF demo_market_init, of demo_events] demo_run by auto

end
