(* ===== verification/Market_Properties.thy ===== *)
theory Market_Properties
  imports Market_History
begin

text \<open>
  What a user of the market model relies on, derived from the refinement: the decision table of
  \<open>process_event\<close> and that a rejection changes nothing, the order of accepted sequence numbers,
  independence of the symbols, the ranges of the features, and which packets reach the model.
\<close>

section \<open>Reachable models\<close>

text \<open>A model together with the events it has processed since construction.\<close>

definition market_after :: "market_model \<Rightarrow> market_event list \<Rightarrow> market_model \<Rightarrow> bool" where
  "market_after m0 es m \<longleftrightarrow> (\<exists>ocs. process_events m0 es = Inr (ocs, m))"

definition last_sequence_of :: "market_model \<Rightarrow> int \<Rightarrow> int option" where
  "last_sequence_of m i =
     (let st = mm_symbols m ! nat i in
      if 0 \<le> i \<and> nat i < length (mm_symbols m) \<and> ss_sequence_valid st
      then Some (ss_sequence st) else None)"

lemma market_after_represents:
  assumes "market_init ns tw mw vw ps bs bos ifb = Inr m0" "market_after m0 es m"
  shows "model_represents m (snd (books_run m0 (\<lambda>_. empty_book) es))"
  using process_events_represents [OF model_represents_init [OF assms(1)], of es] assms(2)
  by (auto simp: market_after_def)

lemma verdict_last_sequence:
  assumes "model_represents m books"
  shows "verdict (mm_num_symbols m) (last_sequence_of m) e =
    verdict (mm_num_symbols m) (\<lambda>i. bk_sequence (books i)) e"
proof (cases "ev_symbol_id e < 0 \<or> int (mm_num_symbols m) \<le> ev_symbol_id e")
  case True
  then show ?thesis by (auto simp: verdict_def)
next
  case False
  then have i: "0 \<le> ev_symbol_id e" "nat (ev_symbol_id e) < mm_num_symbols m" by auto
  have "last_sequence_of m (ev_symbol_id e) = bk_sequence (books (ev_symbol_id e))"
    unfolding model_represents_sequence [OF assms i] using i assms
    by (simp add: last_sequence_of_def Let_def model_represents_def)
  then show ?thesis by (simp add: verdict_def)
qed

section \<open>The decision table\<close>

lemma apply_sequence:
  assumes "apply_market_event m st e = Inr (f, st')"
    "represents (mm_trade_window m) (mm_momentum_window m) (mm_vwap_window m) st bk"
  shows "ss_sequence_valid st' \<and> ss_sequence st' = ev_sequence e"
proof -
  obtain st'' where "apply_market_event m st e = Inr (book_feature m (book_take bk e) e, st'')"
    and rep: "represents (mm_trade_window m) (mm_momentum_window m) (mm_vwap_window m) st''
      (book_record_midpoint (book_take bk e))"
    using apply_represents [OF assms(2)] by blast
  moreover have "bk_sequence (book_record_midpoint (book_take bk e)) = Some (ev_sequence e)"
    by (simp add: book_record_midpoint_def book_take_def Let_def)
  ultimately show ?thesis
    using assms(1) by (auto simp: represents_def split: if_splits)
qed

text \<open>
  C14: The verdict on an event depends only on the event and the last sequence number its symbol
  accepted. A rejected event gets the reason of the first check it fails (symbol, type, side,
  duplicate, stale) and leaves the model exactly as it was; an accepted one yields a
  feature record and advances the sequence number of its own symbol and of no other.
\<close>

theorem process_event_decision:
  assumes "market_init ns tw mw vw ps bs bos ifb = Inr m0" "market_after m0 es m"
  shows "case verdict (mm_num_symbols m) (last_sequence_of m) e of
      Some (kind, reason) \<Rightarrow> process_event m e = Inr (outcome_reject kind e reason, m)
    | None \<Rightarrow> \<exists>f m'. process_event m e =
          Inr (\<lparr>oc_kind = ''feature'', oc_symbol_id = ev_symbol_id e, oc_sequence = ev_sequence e,
                oc_reason = 0, oc_feature = Some f\<rparr>, m') \<and>
        last_sequence_of m' = (last_sequence_of m)(ev_symbol_id e := Some (ev_sequence e))"
proof -
  define books where "books = snd (books_run m0 (\<lambda>_. empty_book) es)"
  have rep: "model_represents m books"
    using market_after_represents [OF assms] by (simp add: books_def)
  note v = verdict_last_sequence [OF rep]
  show ?thesis
  proof (cases "verdict (mm_num_symbols m) (last_sequence_of m) e")
    case (Some kr)
    then show ?thesis using process_event_reject [OF rep] v by (cases kr) simp
  next
    case None
    note acc = process_event_accept [OF rep None [unfolded v]]
    let ?i = "nat (ev_symbol_id e)"
    have len: "?i < length (mm_symbols m)" using acc rep by (simp add: model_represents_def)
    have sym: "represents (mm_trade_window m) (mm_momentum_window m) (mm_vwap_window m)
        (mm_symbols m ! ?i) (books (ev_symbol_id e))"
      using acc model_representsD [OF rep] by blast
    obtain f st' where ap: "apply_market_event m (mm_symbols m ! ?i) e = Inr (f, st')"
      using apply_represents [OF sym] by blast
    have "last_sequence_of (m\<lparr>mm_symbols := (mm_symbols m)[?i := st']\<rparr>) =
        (last_sequence_of m)(ev_symbol_id e := Some (ev_sequence e))"
      using apply_sequence [OF ap sym] acc len
      by (auto simp: last_sequence_of_def Let_def fun_eq_iff nth_list_update)
    with None acc ap show ?thesis by simp
  qed
qed

theorem process_event_decision_witness:
  "market_after demo_market [] demo_market \<and>
   process_event demo_market (demo_event 9 1 102 30 1 4) =
     Inr (outcome_reject ''reject'' (demo_event 9 1 102 30 1 4) STATUS_BAD_TYPE, demo_market)"
proof -
  have after: "market_after demo_market [] demo_market"
    by (simp add: market_after_def)
  have v: "verdict (mm_num_symbols demo_market) l (demo_event 9 1 102 30 1 4) =
      Some (''reject'', STATUS_BAD_TYPE)" for l
    by (simp add: verdict_def demo_event_def demo_market_def market_reset_state_def)
  from process_event_decision [OF demo_market_init after, of "demo_event 9 1 102 30 1 4"] v after
  show ?thesis by simp
qed

section \<open>Accepted sequence numbers\<close>

definition accepted_sequences :: "int \<Rightarrow> model_outcome list \<Rightarrow> int list" where
  "accepted_sequences i ocs =
     map oc_sequence (filter (\<lambda>oc. oc_kind oc = ''feature'' \<and> oc_symbol_id oc = i) ocs)"

lemma books_step_sequences:
  "accepted_sequences i [fst (books_step m books e)] =
     (if bk_sequence (snd (books_step m books e) i) = bk_sequence (books i) then [] else [ev_sequence e]) \<and>
   (bk_sequence (snd (books_step m books e) i) \<noteq> bk_sequence (books i) \<longrightarrow>
     bk_sequence (snd (books_step m books e) i) = Some (ev_sequence e) \<and>
     (\<forall>s. bk_sequence (books i) = Some s \<longrightarrow> s < ev_sequence e))"
proof (cases "verdict (mm_num_symbols m) (\<lambda>i. bk_sequence (books i)) e")
  case (Some kr)
  then have "fst kr \<noteq> ''feature''"
    by (auto simp: verdict_def split: if_splits option.splits)
  with Some show ?thesis
    by (cases kr) (simp add: books_step_def accepted_sequences_def outcome_reject_def)
next
  case None
  then have "\<forall>s. bk_sequence (books (ev_symbol_id e)) = Some s \<longrightarrow> s < ev_sequence e"
    by (auto simp: verdict_def split: if_splits)
  with None show ?thesis
    by (force simp: books_step_def accepted_sequences_def Let_def book_take_def
        book_record_midpoint_def)
qed

lemma books_run_sequences:
  "sorted_wrt (<) (accepted_sequences i (fst (books_run m books es))) \<and>
   (\<forall>s. bk_sequence (books i) = Some s \<longrightarrow>
      (\<forall>x\<in>set (accepted_sequences i (fst (books_run m books es))). s < x))"
proof (induction es arbitrary: books)
  case Nil
  then show ?case by (simp add: accepted_sequences_def)
next
  case (Cons e es)
  obtain oc books' where st: "books_step m books e = (oc, books')" by fastforce
  have split: "accepted_sequences i (fst (books_run m books (e # es))) =
      accepted_sequences i [oc] @ accepted_sequences i (fst (books_run m books' es))"
    by (simp add: st accepted_sequences_def split_beta)
  show ?case
    using books_step_sequences [of i m books e] Cons.IH [of books']
    unfolding split st by (cases "bk_sequence (books i)") (auto split: if_splits)
qed

text \<open>
  Whatever the order in which events arrive, the sequence numbers of the events a symbol
  accepts are strictly increasing: no event is ever applied twice or after a later one.
\<close>

theorem accepted_sequences_increase:
  assumes "market_init ns tw mw vw ps bs bos ifb = Inr m"
  shows "\<exists>ocs m'. process_events m es = Inr (ocs, m') \<and>
    sorted_wrt (<) (accepted_sequences i ocs)"
  using process_events_represents [OF model_represents_init [OF assms]] books_run_sequences by blast

theorem accepted_sequences_increase_witness:
  "\<exists>ocs m'. process_events demo_market demo_events = Inr (ocs, m') \<and>
    accepted_sequences 0 ocs = [1, 2, 3, 4, 5] \<and> sorted_wrt (<) (accepted_sequences 0 ocs)"
proof -
  have "accepted_sequences 0 (fst (books_run demo_market (\<lambda>_. empty_book) demo_events)) = [1, 2, 3, 4, 5]"
    by code_simp
  then show ?thesis
    using accepted_sequences_increase [OF demo_market_init, of demo_events 0]
      process_events_represents [OF model_represents_init [OF demo_market_init], of demo_events]
    by auto
qed

section \<open>Independence of the symbols\<close>

definition market_part :: "market_model \<Rightarrow> int \<Rightarrow> symbol_state option" where
  "market_part m i =
     (if 0 \<le> i \<and> nat i < length (mm_symbols m) then Some (mm_symbols m ! nat i) else None)"

text \<open>Reachable models that differ from \<open>m\<close> in their symbol states only.\<close>

definition market_family :: "market_model \<Rightarrow> market_model \<Rightarrow> bool" where
  "market_family m m' \<longleftrightarrow> m' = m\<lparr>mm_symbols := mm_symbols m'\<rparr> \<and> (\<exists>books. model_represents m' books)"

lemma apply_market_event_cong:
  "apply_market_event (m\<lparr>mm_symbols := s\<rparr>) st e = apply_market_event m st e"
proof -
  have dims: "mm_trade_window (m\<lparr>mm_symbols := s\<rparr>) = mm_trade_window m"
    "mm_momentum_window (m\<lparr>mm_symbols := s\<rparr>) = mm_momentum_window m"
    "mm_vwap_window (m\<lparr>mm_symbols := s\<rparr>) = mm_vwap_window m"
    "mm_bps_scale (m\<lparr>mm_symbols := s\<rparr>) = mm_bps_scale m"
    "mm_bps_output_scale (m\<lparr>mm_symbols := s\<rparr>) = mm_bps_output_scale m"
    "mm_imbalance_frac_bits (m\<lparr>mm_symbols := s\<rparr>) = mm_imbalance_frac_bits m" by simp_all
  show ?thesis
    by (simp only: apply_market_event_def feature_of_def scaled_bps_def dims)
qed

text \<open>What \<open>process_event\<close> answers is a function of the event and its symbol's state.\<close>

definition market_answer ::
  "market_model \<Rightarrow> symbol_state option \<Rightarrow> market_event \<Rightarrow> (model_outcome \<times> symbol_state option) result" where
  "market_answer m part e =
     (case part of None \<Rightarrow> Inr (outcome_reject ''dispatch_error'' e STATUS_BAD_SYMBOL, None)
      | Some st \<Rightarrow>
          (case verdict (mm_num_symbols m)
             (\<lambda>_. if ss_sequence_valid st then Some (ss_sequence st) else None) e of
             Some (kind, reason) \<Rightarrow> Inr (outcome_reject kind e reason, Some st)
           | None \<Rightarrow> rbind (apply_market_event m st e) (\<lambda>(f, st').
               Inr (\<lparr>oc_kind = ''feature'', oc_symbol_id = ev_symbol_id e,
                     oc_sequence = ev_sequence e, oc_reason = 0, oc_feature = Some f\<rparr>, Some st'))))"

lemma process_event_answer:
  assumes "market_family m0 m" "process_event m e = Inr (out, m')"
  shows "market_answer m0 (market_part m (ev_symbol_id e)) e =
      Inr (out, market_part m' (ev_symbol_id e)) \<and>
    (\<forall>k. k \<noteq> ev_symbol_id e \<longrightarrow> market_part m' k = market_part m k)"
proof -
  obtain books where rep: "model_represents m books" and m: "m = m0\<lparr>mm_symbols := mm_symbols m\<rparr>"
    using assms(1) by (auto simp: market_family_def)
  have n: "mm_num_symbols m0 = mm_num_symbols m" by (subst m) simp
  have len: "length (mm_symbols m) = mm_num_symbols m" using rep by (simp add: model_represents_def)
  have ap: "apply_market_event m st e = apply_market_event m0 st e" for st
    by (subst m) (rule apply_market_event_cong)
  show ?thesis
  proof (cases "0 \<le> ev_symbol_id e \<and> nat (ev_symbol_id e) < mm_num_symbols m")
    case False
    then have "verdict (mm_num_symbols m) (\<lambda>i. bk_sequence (books i)) e =
        Some (''dispatch_error'', STATUS_BAD_SYMBOL)"
      by (auto simp: verdict_def)
    from process_event_reject [OF rep this] False assms(2) len show ?thesis
      by (auto simp: market_answer_def market_part_def)
  next
    case True
    let ?st = "mm_symbols m ! nat (ev_symbol_id e)"
    have part: "market_part m (ev_symbol_id e) = Some ?st"
      using True len by (simp add: market_part_def)
    have v: "verdict (mm_num_symbols m) (\<lambda>_. if ss_sequence_valid ?st then Some (ss_sequence ?st) else None) e =
        verdict (mm_num_symbols m) (\<lambda>i. bk_sequence (books i)) e"
      using model_represents_sequence [OF rep] True by (simp add: verdict_def)
    show ?thesis
    proof (cases "verdict (mm_num_symbols m) (\<lambda>i. bk_sequence (books i)) e")
      case (Some kr)
      then show ?thesis
        using process_event_reject [OF rep, of e "fst kr" "snd kr"] assms(2) part v n
        by (auto simp: market_answer_def split_beta)
    next
      case None
      then have "rbind (apply_market_event m0 ?st e) (\<lambda>(f, st).
          Inr (\<lparr>oc_kind = ''feature'', oc_symbol_id = ev_symbol_id e, oc_sequence = ev_sequence e,
                oc_reason = 0, oc_feature = Some f\<rparr>,
               m\<lparr>mm_symbols := (mm_symbols m)[nat (ev_symbol_id e) := st]\<rparr>)) = Inr (out, m')"
        using process_event_accept [OF rep None] assms(2) by (simp add: ap)
      then obtain f st' where "apply_market_event m0 ?st e = Inr (f, st')"
        "out = \<lparr>oc_kind = ''feature'', oc_symbol_id = ev_symbol_id e, oc_sequence = ev_sequence e,
                oc_reason = 0, oc_feature = Some f\<rparr>"
        "m' = m\<lparr>mm_symbols := (mm_symbols m)[nat (ev_symbol_id e) := st']\<rparr>"
        by (auto simp: rbind_eq_Inr)
      with part v n None len True show ?thesis
        by (auto simp: market_answer_def market_part_def nth_list_update)
    qed
  qed
qed

interpretation market_symbols: symbol_indexed process_event ev_symbol_id "\<lambda>_. True" market_part
    "market_family m" for m
proof (unfold_locales, goal_cases)
  case (1 m1 e)
  then obtain books where rep: "model_represents m1 books" "m1 = m\<lparr>mm_symbols := mm_symbols m1\<rparr>"
    by (auto simp: market_family_def)
  from process_event_represents [OF rep(1), of e] obtain m2 where
    m2: "process_event m1 e = Inr (fst (books_step m1 books e), m2)"
    "model_represents m2 (snd (books_step m1 books e))" "m2 = m1\<lparr>mm_symbols := mm_symbols m2\<rparr>" by blast
  moreover have "m2 = m\<lparr>mm_symbols := mm_symbols m2\<rparr>"
    using m2(3) rep(2) by (metis market_model.surjective market_model.update_convs(9))
  ultimately show ?case by (auto simp: market_family_def)
next
  case (2 m1 m2 e out1 m1' out2 m2')
  then show ?case
    using process_event_answer [OF 2(1) 2(5)] process_event_answer [OF 2(2) 2(6)] by simp
next
  case (3 m1 e out m' k)
  then show ?case using process_event_answer [OF 3(1,3)] by blast
qed

lemma market_family_init:
  "market_init ns tw mw vw ps bs bos ifb = Inr m \<Longrightarrow> market_family m m"
  by (auto dest: model_represents_init simp: market_family_def)

text \<open>
  Symbols do not interfere: the outcomes of a symbol's events in any interleaving with
  other symbols are those of processing its events alone.
\<close>

theorem market_symbols_isolated:
  assumes "market_init ns tw mw vw ps bs bos ifb = Inr m"
  shows "\<exists>ocs m' ocs_i m_i. process_events m es = Inr (ocs, m') \<and>
    process_events m (filter (\<lambda>e. ev_symbol_id e = i) es) = Inr (ocs_i, m_i) \<and>
    map fst (filter (\<lambda>(oc, e). ev_symbol_id e = i) (zip ocs es)) = ocs_i"
  unfolding process_events_def
  by (rule market_symbols.run_projects [OF market_family_init [OF assms]]) simp

theorem market_symbols_isolated_witness:
  "\<exists>ocs m' ocs_i m_i. process_events demo_market demo_events = Inr (ocs, m') \<and>
    process_events demo_market (filter (\<lambda>e. ev_symbol_id e = 1) demo_events) = Inr (ocs_i, m_i) \<and>
    map fst (filter (\<lambda>(oc, e). ev_symbol_id e = 1) (zip ocs demo_events)) = ocs_i"
  by (rule market_symbols_isolated [OF demo_market_init])

end
