(* ===== verification/Market_Bounds.thy ===== *)
theory Market_Bounds
  imports Market_Properties
begin

text \<open>
  The ranges of the market features for events that came off the wire, the volume-weighted
  average as a mean of traded prices, the admission of packets to the model, and concrete runs
  that show the hypotheses of the market theorems can hold.
\<close>

section \<open>Invariants of the whole-history books\<close>

text \<open>Every feature of a run is computed from a book that the events of the run built.\<close>

lemma books_run_invariant:
  assumes take: "\<And>bk e. I bk \<Longrightarrow> e \<in> set es \<Longrightarrow>
        ev_message_type e = MSG_MARKET_QUOTE \<or> ev_message_type e = MSG_MARKET_TRADE \<Longrightarrow>
        I (book_take bk e)"
    and mid: "\<And>bk. I bk \<Longrightarrow> I (book_record_midpoint bk)"
    and init: "\<And>i. I (books i)"
    and oc: "oc \<in> set (fst (books_run m books es))" "oc_feature oc = Some f"
  shows "\<exists>bk e. I bk \<and> f = book_feature m bk e"
  using assms
proof (induction es arbitrary: books)
  case Nil
  then show ?case by simp
next
  case (Cons e es)
  show ?case
  proof (cases "oc = fst (books_step m books e)")
    case True
    then have "\<exists>i. f = book_feature m (book_take (books i) e) e \<and>
        (ev_message_type e = MSG_MARKET_QUOTE \<or> ev_message_type e = MSG_MARKET_TRADE)"
      using Cons.prems(5)
      by (auto simp: books_step_def outcome_reject_def Let_def verdict_def
          split: option.splits prod.splits if_splits)
    then show ?thesis using Cons.prems(1,3) by auto
  next
    case False
    have "I (snd (books_step m books e) i)" for i
      using Cons.prems(1-3)
      by (auto simp: books_step_def Let_def verdict_def split: option.splits prod.splits if_splits)
    moreover have "oc \<in> set (fst (books_run m (snd (books_step m books e)) es))"
      using Cons.prems(4) False by (auto simp: split_beta)
    ultimately show ?thesis
      using Cons.IH [of "snd (books_step m books e)"] Cons.prems(1,2,5) by auto
  qed
qed

lemma process_events_features:
  assumes "market_init ns tw mw vw ps bs bos ifb = Inr m" "process_events m es = Inr (ocs, m')"
    and "\<And>bk e. I bk \<Longrightarrow> e \<in> set es \<Longrightarrow>
        ev_message_type e = MSG_MARKET_QUOTE \<or> ev_message_type e = MSG_MARKET_TRADE \<Longrightarrow>
        I (book_take bk e)"
    and "\<And>bk. I bk \<Longrightarrow> I (book_record_midpoint bk)" and "I empty_book"
    and "oc \<in> set ocs" "oc_feature oc = Some f"
  shows "\<exists>bk e. I bk \<and> f = book_feature m bk e"
proof -
  have "ocs = fst (books_run m (\<lambda>_. empty_book) es)"
    using process_events_represents [OF model_represents_init [OF assms(1)], of es] assms(2) by auto
  then show ?thesis
    using books_run_invariant [of I es "\<lambda>_. empty_book" oc m f] assms(3-7) by blast
qed

section \<open>The volume-weighted average\<close>

definition trades_within :: "int \<Rightarrow> int \<Rightarrow> book \<Rightarrow> bool" where
  "trades_within lo hi bk \<longleftrightarrow> (\<forall>(p, q)\<in>set (bk_trades bk). lo \<le> p \<and> p \<le> hi \<and> 0 \<le> q)"

lemma notional_between:
  assumes "\<forall>(p, q)\<in>set xs. lo \<le> p \<and> p \<le> hi \<and> 0 \<le> q"
  shows "lo * volume xs \<le> notional xs \<and> notional xs \<le> hi * volume xs \<and> 0 \<le> volume xs"
  using assms
proof (induction xs)
  case Nil
  then show ?case by (simp add: notional_def volume_def)
next
  case (Cons x xs)
  obtain p q where x: "x = (p, q)" by fastforce
  have "lo * q \<le> p * q" "p * q \<le> hi * q" "0 \<le> q"
    using Cons.prems x by (auto intro: mult_right_mono)
  with Cons show ?case by (auto simp: notional_def volume_def x algebra_simps)
qed

lemma book_vwap:
  "ft_vwap_valid (book_feature m bk e) =
     (volume (last_n (mm_vwap_window m) (bk_trades bk)) \<noteq> 0)"
  "ft_vwap (book_feature m bk e) =
     (if volume (last_n (mm_vwap_window m) (bk_trades bk)) \<noteq> 0
      then notional (last_n (mm_vwap_window m) (bk_trades bk)) div
           volume (last_n (mm_vwap_window m) (bk_trades bk)) else 0)"
  by (simp_all add: book_feature_def Let_def split_beta)

lemma trades_within_last:
  "trades_within lo hi bk \<Longrightarrow> \<forall>(p, q)\<in>set (last_n n (bk_trades bk)). lo \<le> p \<and> p \<le> hi \<and> 0 \<le> q"
  using set_last_n [of n "bk_trades bk"] by (auto simp: trades_within_def)

lemma book_vwap_between:
  assumes "trades_within lo hi bk" "ft_vwap_valid (book_feature m bk e)"
  shows "lo \<le> ft_vwap (book_feature m bk e) \<and> ft_vwap (book_feature m bk e) \<le> hi"
proof -
  let ?r = "last_n (mm_vwap_window m) (bk_trades bk)"
  have b: "lo * volume ?r \<le> notional ?r" "notional ?r \<le> hi * volume ?r" "0 < volume ?r"
    using notional_between [OF trades_within_last [OF assms(1)], of "mm_vwap_window m"] assms(2)
    by (auto simp: book_vwap)
  have "lo * volume ?r div volume ?r \<le> notional ?r div volume ?r"
    "notional ?r div volume ?r \<le> hi * volume ?r div volume ?r"
    using b by (intro zdiv_mono1; simp)+
  then show ?thesis using b(3) by (simp add: book_vwap)
qed

text \<open>
  Whenever the volume-weighted average price is reported valid it lies between the lowest
  and the highest price traded in the run, for trades of non-negative quantity and prices of
  either sign.
\<close>

theorem vwap_between_prices:
  assumes "market_init ns tw mw vw ps bs bos ifb = Inr m" "process_events m es = Inr (ocs, m')"
    and "\<forall>e\<in>set es. ev_message_type e = MSG_MARKET_TRADE \<longrightarrow>
      lo \<le> ev_price e \<and> ev_price e \<le> hi \<and> 0 \<le> ev_quantity e"
    and "oc \<in> set ocs" "oc_feature oc = Some f" "ft_vwap_valid f"
  shows "lo \<le> ft_vwap f \<and> ft_vwap f \<le> hi"
proof -
  have "\<exists>bk e. trades_within lo hi bk \<and> f = book_feature m bk e"
    by (rule process_events_features [OF assms(1,2) _ _ _ assms(4,5)])
      (use assms(3) in \<open>auto simp: trades_within_def book_take_def book_record_midpoint_def
        empty_book_def Let_def\<close>)
  then show ?thesis using book_vwap_between assms(6) by blast
qed

text \<open>The demonstration run has a valid average after its last trade.\<close>

lemma demo_average:
  "\<exists>ocs m' oc f. process_events demo_market demo_events = Inr (ocs, m') \<and> oc \<in> set ocs \<and>
     oc_feature oc = Some f \<and> ft_vwap_valid f \<and> ft_vwap f = 102"
proof -
  let ?ocs = "fst (books_run demo_market (\<lambda>_. empty_book) demo_events)"
  have len: "length ?ocs = 11" by code_simp
  have "map_option (\<lambda>f. (ft_vwap_valid f, ft_vwap f)) (oc_feature (?ocs ! 5)) = Some (True, 102)"
    by code_simp
  then obtain f where "oc_feature (?ocs ! 5) = Some f" "ft_vwap_valid f" "ft_vwap f = 102" by auto
  moreover have "?ocs ! 5 \<in> set ?ocs" by (rule nth_mem) (simp add: len)
  ultimately show ?thesis
    using process_events_represents [OF model_represents_init [OF demo_market_init], of demo_events]
    by blast
qed

theorem vwap_between_prices_witness:
  "\<exists>ocs m' oc f. process_events demo_market demo_events = Inr (ocs, m') \<and> oc \<in> set ocs \<and>
     oc_feature oc = Some f \<and> ft_vwap f = 102 \<and> 101 \<le> ft_vwap f \<and> ft_vwap f \<le> 103"
proof -
  have prices: "\<forall>e\<in>set demo_events. ev_message_type e = MSG_MARKET_TRADE \<longrightarrow>
      101 \<le> ev_price e \<and> ev_price e \<le> 103 \<and> 0 \<le> ev_quantity e"
    by (simp add: demo_events_def demo_event_def)
  obtain ocs m' oc f where run: "process_events demo_market demo_events = Inr (ocs, m')"
    "oc \<in> set ocs" "oc_feature oc = Some f" "ft_vwap_valid f" "ft_vwap f = 102"
    using demo_average by blast
  with vwap_between_prices [OF demo_market_init run(1) prices run(2-4)] show ?thesis by blast
qed

section \<open>Ranges for events off the wire\<close>

definition wire_book :: "book \<Rightarrow> bool" where
  "wire_book bk \<longleftrightarrow>
     (\<forall>(p, q)\<in>set (bk_trades bk). 0 \<le> p \<and> p < 2 ^ 64 \<and> 0 \<le> q \<and> q < 2 ^ 32) \<and>
     (\<forall>x\<in>set (bk_midpoints bk). 0 \<le> x \<and> x < 2 ^ 64) \<and>
     (\<forall>l\<in>{level (bk_bid bk), level (bk_ask bk)}.
        0 \<le> fst l \<and> fst l < 2 ^ 64 \<and> 0 \<le> snd l \<and> snd l < 2 ^ 32)"

text \<open>
  The widths the hardware gives the features: totals of \<open>tw\<close> quantities and of \<open>vw\<close>
  notionals, 64-bit prices, a midpoint inside the spread, 16-bit imbalance and 32-bit ratios.
\<close>

definition feature_in_range :: "market_model \<Rightarrow> feature_snapshot \<Rightarrow> bool" where
  "feature_in_range m f \<longleftrightarrow>
     0 \<le> ft_rolling_volume f \<and> ft_rolling_volume f \<le> int (mm_trade_window m) * (2 ^ 32 - 1) \<and>
     0 \<le> ft_vwap_sum_quantity f \<and> ft_vwap_sum_quantity f \<le> int (mm_vwap_window m) * (2 ^ 32 - 1) \<and>
     0 \<le> ft_vwap_sum_price_quantity f \<and>
     ft_vwap_sum_price_quantity f \<le> int (mm_vwap_window m) * ((2 ^ 64 - 1) * (2 ^ 32 - 1)) \<and>
     0 \<le> ft_vwap f \<and> ft_vwap f < 2 ^ 64 \<and>
     (ft_spread_valid f \<longrightarrow> ft_bid_price f \<le> ft_midpoint f \<and> ft_midpoint f \<le> ft_ask_price f) \<and>
     0 \<le> ft_spread f \<and> ft_spread f < 2 ^ 64 \<and> \<bar>ft_momentum f\<bar> < 2 ^ 64 \<and>
     \<bar>ft_imbalance_numerator f\<bar> \<le> ft_imbalance_denominator f \<and>
     ft_imbalance_denominator f < 2 ^ 33 \<and>
     - (2 ^ 15) \<le> ft_imbalance_normalized f \<and> ft_imbalance_normalized f < 2 ^ 15 \<and>
     (\<forall>r\<in>{ft_spread_bps_x100 f, ft_momentum_bps_x100 f, ft_midpoint_minus_vwap_bps_x100 f}.
        - (2 ^ 31) \<le> r \<and> r < 2 ^ 31)"

lemma saturate_16: "- 32768 \<le> saturate_signed v 16 \<and> saturate_signed v 16 < 32768"
  using saturate_range [of 16 v] by simp

lemma saturate_32: "- 2147483648 \<le> saturate_signed v 32 \<and> saturate_signed v 32 < 2147483648"
  using saturate_range [of 32 v] by simp

lemma wire_book_take:
  "wire_book bk \<Longrightarrow> wire_event e \<Longrightarrow> wire_book (book_take bk e)"
  by (auto simp: wire_book_def wire_event_def book_take_def level_def Let_def)

lemma wire_book_record: "wire_book bk \<Longrightarrow> wire_book (book_record_midpoint bk)"
  by (auto simp: wire_book_def book_record_midpoint_def book_midpoint_def)

lemma wire_book_empty: "wire_book empty_book"
  by (simp add: wire_book_def empty_book_def level_def)

lemma wire_volume:
  assumes "\<forall>(p, q)\<in>set xs. 0 \<le> p \<and> p < 2 ^ 64 \<and> 0 \<le> q \<and> q < (2 :: int) ^ 32" "length xs \<le> n"
  shows "0 \<le> volume xs \<and> volume xs \<le> int n * (2 ^ 32 - 1)"
    "0 \<le> notional xs \<and> notional xs \<le> int n * ((2 ^ 64 - 1) * (2 ^ 32 - 1))"
proof -
  have "\<forall>x\<in>set (map snd xs). 0 \<le> x \<and> x \<le> 2 ^ 32 - 1" using assms(1) by auto
  from sum_list_bound [OF this] show "0 \<le> volume xs \<and> volume xs \<le> int n * (2 ^ 32 - 1)"
    using assms(2) by (simp add: volume_map)
  have "0 \<le> p * q \<and> p * q \<le> (2 ^ 64 - 1) * (2 ^ 32 - 1)" if "(p, q) \<in> set xs" for p q
  proof -
    have b: "0 \<le> p" "p \<le> 2 ^ 64 - 1" "0 \<le> q" "q \<le> 2 ^ 32 - 1" using assms(1) that by auto
    show ?thesis using mult_mono [OF b(2,4)] b by simp
  qed
  then have "\<forall>x\<in>set (map (\<lambda>(p, q). p * q) xs). 0 \<le> x \<and> x \<le> (2 ^ 64 - 1) * (2 ^ 32 - 1)" by auto
  from sum_list_bound [OF this]
  show "0 \<le> notional xs \<and> notional xs \<le> int n * ((2 ^ 64 - 1) * (2 ^ 32 - 1))"
    using assms(2) by (simp add: notional_def)
qed


lemma book_feature_fields:
  "ft_rolling_volume (book_feature m bk e) = volume (last_n (mm_trade_window m) (bk_trades bk))"
  "ft_vwap_sum_quantity (book_feature m bk e) = volume (last_n (mm_vwap_window m) (bk_trades bk))"
  "ft_vwap_sum_price_quantity (book_feature m bk e) =
     notional (last_n (mm_vwap_window m) (bk_trades bk))"
  "ft_spread_valid (book_feature m bk e) = two_sided bk"
  "ft_bid_price (book_feature m bk e) = fst (level (bk_bid bk))"
  "ft_ask_price (book_feature m bk e) = fst (level (bk_ask bk))"
  "ft_midpoint (book_feature m bk e) = (if two_sided bk then book_midpoint bk else 0)"
  "ft_spread (book_feature m bk e) =
     (if two_sided bk then fst (level (bk_ask bk)) - fst (level (bk_bid bk)) else 0)"
  "ft_imbalance_numerator (book_feature m bk e) =
     (if two_sided bk then snd (level (bk_bid bk)) - snd (level (bk_ask bk)) else 0)"
  "ft_imbalance_denominator (book_feature m bk e) =
     (if two_sided bk then snd (level (bk_bid bk)) + snd (level (bk_ask bk)) else 0)"
  "ft_momentum (book_feature m bk e) =
     (if two_sided bk \<and> mm_momentum_window m \<le> length (bk_midpoints bk)
      then book_midpoint bk - bk_midpoints bk ! (length (bk_midpoints bk) - mm_momentum_window m)
      else 0)"
  by (simp_all add: book_feature_def Let_def split_beta)

lemma book_feature_ratios:
  "- 32768 \<le> ft_imbalance_normalized (book_feature m bk e) \<and>
   ft_imbalance_normalized (book_feature m bk e) < 32768"
  "\<forall>r\<in>{ft_spread_bps_x100 (book_feature m bk e), ft_momentum_bps_x100 (book_feature m bk e),
      ft_midpoint_minus_vwap_bps_x100 (book_feature m bk e)}. - 2147483648 \<le> r \<and> r < 2147483648"
  by (simp_all add: book_feature_def bps_of_def Let_def split_beta saturate_16 saturate_32)

lemma two_sided_levels:
  "two_sided bk \<Longrightarrow> fst (level (bk_bid bk)) \<le> fst (level (bk_ask bk))"
  by (auto simp: two_sided_def level_def split: option.splits)

lemma wire_book_range:
  assumes "wire_book bk" "0 < mm_momentum_window m"
  shows "feature_in_range m (book_feature m bk e)"
proof -
  let ?b = "level (bk_bid bk)" and ?a = "level (bk_ask bk)"
  have lv: "0 \<le> fst ?b" "fst ?b < 2 ^ 64" "0 \<le> snd ?b" "snd ?b < 2 ^ 32"
    "0 \<le> fst ?a" "fst ?a < 2 ^ 64" "0 \<le> snd ?a" "snd ?a < 2 ^ 32"
    using assms(1) by (auto simp: wire_book_def)
  have trades: "\<forall>(p, q)\<in>set (last_n n (bk_trades bk)).
      0 \<le> p \<and> p < 2 ^ 64 \<and> 0 \<le> q \<and> q < (2 :: int) ^ 32" for n
    using assms(1) set_last_n [of n "bk_trades bk"] unfolding wire_book_def by blast
  have mid: "two_sided bk \<Longrightarrow> fst ?b \<le> book_midpoint bk \<and> book_midpoint bk \<le> fst ?a"
    using two_sided_levels [of bk] by (auto simp: book_midpoint_def)
  have old: "mm_momentum_window m \<le> length (bk_midpoints bk) \<Longrightarrow>
      0 \<le> bk_midpoints bk ! (length (bk_midpoints bk) - mm_momentum_window m) \<and>
      bk_midpoints bk ! (length (bk_midpoints bk) - mm_momentum_window m) < 2 ^ 64"
    using assms nth_mem [of "length (bk_midpoints bk) - mm_momentum_window m" "bk_midpoints bk"]
    unfolding wire_book_def by force
  have "trades_within 0 (2 ^ 64 - 1) bk"
    using assms(1) by (auto simp: wire_book_def trades_within_def)
  then have vwap: "0 \<le> ft_vwap (book_feature m bk e) \<and> ft_vwap (book_feature m bk e) < 2 ^ 64"
    using book_vwap_between [of 0 "2 ^ 64 - 1" bk m e]
    by (cases "ft_vwap_valid (book_feature m bk e)") (simp_all add: book_vwap)
  have momentum: "\<bar>ft_momentum (book_feature m bk e)\<bar> < 2 ^ 64"
    using mid old lv unfolding book_feature_fields by auto
  have spread: "0 \<le> ft_spread (book_feature m bk e) \<and> ft_spread (book_feature m bk e) < 2 ^ 64"
    using lv two_sided_levels [of bk] unfolding book_feature_fields by auto
  have imbalance: "\<bar>ft_imbalance_numerator (book_feature m bk e)\<bar> \<le> ft_imbalance_denominator (book_feature m bk e)
      \<and> ft_imbalance_denominator (book_feature m bk e) < 2 ^ 33"
    using lv unfolding book_feature_fields by auto
  note sums = wire_volume [OF trades, of "mm_trade_window m" "mm_trade_window m"]
    wire_volume [OF trades, of "mm_vwap_window m" "mm_vwap_window m"]
  show ?thesis
    unfolding feature_in_range_def
    using vwap momentum spread imbalance book_feature_ratios [of m bk e] sums mid
    by (simp add: book_feature_fields)
qed

text \<open>
  For events whose fields fit the wire format, every feature stays inside the width the
  hardware allots to it: no counter of the model needs more bits than its window size allows, a
  valid midpoint lies inside the spread and every scaled ratio fits its signed output.
\<close>

theorem market_features_in_range:
  assumes "market_init ns tw mw vw ps bs bos ifb = Inr m" "process_events m es = Inr (ocs, m')"
    and "\<forall>e\<in>set es. wire_event e" and "oc \<in> set ocs" "oc_feature oc = Some f"
  shows "feature_in_range m f"
proof -
  have "\<exists>bk e. wire_book bk \<and> f = book_feature m bk e"
    by (rule process_events_features [OF assms(1,2) _ _ _ assms(4,5)])
      (use assms(3) in \<open>auto simp: wire_book_take wire_book_record wire_book_empty\<close>)
  moreover have "0 < mm_momentum_window m"
    using assms(1) by (auto simp: market_init_def market_reset_state_def split: if_splits)
  ultimately show ?thesis using wire_book_range by blast
qed

theorem market_features_in_range_witness:
  "\<exists>ocs m' oc f. process_events demo_market demo_events = Inr (ocs, m') \<and> oc \<in> set ocs \<and>
     oc_feature oc = Some f \<and> feature_in_range demo_market f"
proof -
  have wire: "\<forall>e\<in>set demo_events. wire_event e"
    by (simp add: demo_events_def demo_event_def wire_event_def)
  obtain ocs m' oc f where run: "process_events demo_market demo_events = Inr (ocs, m')"
    "oc \<in> set ocs" "oc_feature oc = Some f"
    using demo_average by blast
  with market_features_in_range [OF demo_market_init run(1) wire run(2,3)] show ?thesis by blast
qed

section \<open>Which packets reach the model\<close>

definition admitted :: "byte list \<Rightarrow> market_event option" where
  "admitted p =
     (if uint (p ! 0) = SYNC_VERSION \<and> checksum_ok p then
        case decode_event p of Inl _ \<Rightarrow> None
        | Inr e \<Rightarrow> if ev_message_type e \<in> {MSG_MARKET_QUOTE, MSG_MARKET_TRADE} then Some e else None
      else None)"

fun process_packets :: "market_model \<Rightarrow> byte list list \<Rightarrow> (model_outcome option list \<times> market_model) result" where
  "process_packets m [] = Inr ([], m)"
| "process_packets m (p # ps) =
     rbind (process_packet m p) (\<lambda>(oc, m').
     rbind (process_packets m' ps) (\<lambda>(ocs, m''). Inr (oc # ocs, m'')))"

lemma decode_event_total: "length p = PACKET_BYTES \<Longrightarrow> \<exists>e. decode_event p = Inr e"
  by (simp add: decode_event_def struct_unpack_def packet_format_def)

lemma process_packet_cases:
  assumes "length p = PACKET_BYTES"
  shows "process_packet m p =
    (case admitted p of None \<Rightarrow> Inr (None, m)
     | Some e \<Rightarrow> rbind (process_event m e) (\<lambda>(oc, m'). Inr (Some oc, m')))"
proof -
  obtain e where e: "decode_event p = Inr e" using decode_event_total [OF assms] by blast
  obtain w where w: "crc8 (take 31 p) = Inr w" using crc8_total [of "take 31 p"] assms by auto
  have zeros: "p = replicate PACKET_BYTES 0 \<Longrightarrow> uint (p ! 0) \<noteq> SYNC_VERSION" by simp
  show ?thesis
  proof (cases "p = replicate PACKET_BYTES 0")
    case True
    then show ?thesis by (simp add: process_packet_def admitted_def)
  next
    case False
    then show ?thesis
      using assms by (simp add: process_packet_def admitted_def e w checksum_ok_def)
  qed
qed

text \<open>
  On any stream of 32-byte packets the model never raises, and what it computes is the
  result of processing the admitted packets' events in order: filler, foreign versions, loopback
  traffic and packets with a bad checksum leave no trace in it.
\<close>

theorem process_packets_filters:
  assumes "market_init ns tw mw vw ps bs bos ifb = Inr m" "\<forall>p\<in>set packets. length p = PACKET_BYTES"
  shows "\<exists>ocs m'. process_packets m packets = Inr (ocs, m') \<and>
    map (\<lambda>oc. oc = None) ocs = map (\<lambda>p. admitted p = None) packets \<and>
    process_events m (List.map_filter admitted packets) = Inr (List.map_filter (\<lambda>oc. oc) ocs, m')"
proof -
  have "\<exists>ocs m'. process_packets m packets = Inr (ocs, m') \<and>
      map (\<lambda>oc. oc = None) ocs = map (\<lambda>p. admitted p = None) packets \<and>
      process_events m (List.map_filter admitted packets) = Inr (List.map_filter (\<lambda>oc. oc) ocs, m')"
    if "model_represents m books" for m books
    using assms(2) that
  proof (induction packets arbitrary: m books)
    case Nil
    then show ?case by (simp add: List.map_filter_simps)
  next
    case (Cons p packets)
    have rest: "\<forall>p\<in>set packets. length p = PACKET_BYTES" using Cons.prems(1) by simp
    show ?case
    proof (cases "admitted p")
      case None
      moreover obtain ocs m2 where "process_packets m packets = Inr (ocs, m2)"
        "map (\<lambda>oc. oc = None) ocs = map (\<lambda>p. admitted p = None) packets"
        "process_events m (List.map_filter admitted packets) = Inr (List.map_filter (\<lambda>oc. oc) ocs, m2)"
        using Cons.IH [OF rest Cons.prems(2)] by blast
      ultimately show ?thesis
        using Cons.prems(1) by (simp add: process_packet_cases List.map_filter_simps)
    next
      case (Some e)
      obtain m1 oc where m1: "process_event m e = Inr (oc, m1)" "\<exists>b. model_represents m1 b"
        using process_event_represents [OF Cons.prems(2)] by blast
      then obtain ocs m2 where "process_packets m1 packets = Inr (ocs, m2)"
        "map (\<lambda>oc. oc = None) ocs = map (\<lambda>p. admitted p = None) packets"
        "process_events m1 (List.map_filter admitted packets) = Inr (List.map_filter (\<lambda>oc. oc) ocs, m2)"
        using Cons.IH [OF rest] by blast
      with m1 Some Cons.prems(1) show ?thesis
        by (simp add: process_packet_cases List.map_filter_simps)
    qed
  qed
  then show ?thesis using model_represents_init [OF assms(1)] by blast
qed

lemma sample_packet_not_admitted: "admitted sample_packet = None"
proof -
  have "uint (sample_packet ! 1) = 7" by (simp add: sample_packet_def)
  moreover have "decode_event sample_packet = Inr e \<Longrightarrow> ev_message_type e = uint (sample_packet ! 1)" for e
    by (auto simp: decode_event_def struct_unpack_def packet_format_def sample_packet_def)
  ultimately show ?thesis
    by (auto simp: admitted_def split: sum.splits)
qed

theorem process_packets_filters_witness:
  "\<exists>ocs m'. process_packets demo_market [sample_packet, replicate PACKET_BYTES 0] = Inr (ocs, m') \<and>
    map (\<lambda>oc. oc = None) ocs = [True, True] \<and> process_events demo_market [] = Inr ([], m')"
proof -
  have "\<forall>p\<in>set [sample_packet, replicate PACKET_BYTES 0]. length p = PACKET_BYTES"
    by (simp add: sample_packet_def)
  moreover have "admitted (replicate PACKET_BYTES 0) = None"
    by (simp add: admitted_def)
  ultimately show ?thesis
    using process_packets_filters [OF demo_market_init, of "[sample_packet, replicate PACKET_BYTES 0]"]
    by (auto simp: sample_packet_not_admitted List.map_filter_simps
        simp del: process_packets.simps)
qed

text \<open>
  Line noise cannot move the market model: a market packet hit by an error of at most
  eight adjacent bits, or of an odd number of bits, is dropped and the model is unchanged, while
  the intact packet is processed as the event it was packed from.
\<close>

theorem corrupted_packet_ignored:
  assumes "event_packet SYNC_VERSION e = Inr p"
    and "ev_message_type e \<in> {MSG_MARKET_QUOTE, MSG_MARKET_TRADE}" and "detectable_error noise"
  shows "process_packet m (xor_bytes p noise) = Inr (None, m) \<and>
    process_packet m p = rbind (process_event m e) (\<lambda>(oc, m'). Inr (Some oc, m'))"
proof -
  note p = event_packet_InrD [OF assms(1)]
  have broken: "length (xor_bytes p noise) = 32" "\<not> checksum_ok (xor_bytes p noise)"
    using detectable_breaks_checksum p assms(3) by blast+
  then have "process_packet m (xor_bytes p noise) = Inr (None, m)"
    by (simp add: process_packet_cases admitted_def)
  moreover have "admitted p = Some e"
    using p assms(2) by (simp add: admitted_def)
  ultimately show ?thesis using p by (simp add: process_packet_cases)
qed

theorem corrupted_packet_ignored_witness:
  "\<exists>p. event_packet SYNC_VERSION (demo_event MSG_MARKET_QUOTE 0 100 5 0 1) = Inr p \<and>
     process_packet demo_market (xor_bytes p (burst_error 4 3 129)) = Inr (None, demo_market)"
proof -
  have "\<exists>p. event_packet SYNC_VERSION (demo_event MSG_MARKET_QUOTE 0 100 5 0 1) = Inr p"
    by (simp add: event_packet_cases wire_event_def demo_event_def Let_def)
  then obtain p where p: "event_packet SYNC_VERSION (demo_event MSG_MARKET_QUOTE 0 100 5 0 1) = Inr p"
    by blast
  have "ev_message_type (demo_event MSG_MARKET_QUOTE 0 100 5 0 1) \<in> {MSG_MARKET_QUOTE, MSG_MARKET_TRADE}"
    by (simp add: demo_event_def)
  from corrupted_packet_ignored [OF p this sample_burst] p show ?thesis by blast
qed

end
