(* ===== verification/Strategy_Model.thy ===== *)
theory Strategy_Model
  imports Market_State
begin

text \<open>
  The candidate-signal engine, \<open>tools/reference_model/strategy_model.py\<close>: configuration,
  per-symbol edge and cooldown state, \<open>evaluate\<close> with its reason word, score and metrics. A
  tuple of pass flags is a \<open>bool list\<close>; list accesses that could raise are written with
  their exception.
\<close>

section \<open>Constants and records\<close>

abbreviation (input) SIGNAL_NONE :: int where "SIGNAL_NONE \<equiv> 0"
abbreviation (input) SIGNAL_LONG_CANDIDATE :: int where "SIGNAL_LONG_CANDIDATE \<equiv> 1"
abbreviation (input) SIGNAL_SHORT_CANDIDATE :: int where "SIGNAL_SHORT_CANDIDATE \<equiv> 2"

abbreviation (input) REASON_MOMENTUM_PASS :: int where "REASON_MOMENTUM_PASS \<equiv> 0x0001"
abbreviation (input) REASON_VWAP_DELTA_PASS :: int where "REASON_VWAP_DELTA_PASS \<equiv> 0x0002"
abbreviation (input) REASON_IMBALANCE_PASS :: int where "REASON_IMBALANCE_PASS \<equiv> 0x0004"
abbreviation (input) REASON_SPREAD_PASS :: int where "REASON_SPREAD_PASS \<equiv> 0x0008"
abbreviation (input) REASON_VOLUME_PASS :: int where "REASON_VOLUME_PASS \<equiv> 0x0010"
abbreviation (input) REASON_LONG_DIRECTION :: int where "REASON_LONG_DIRECTION \<equiv> 0x0020"
abbreviation (input) REASON_SHORT_DIRECTION :: int where "REASON_SHORT_DIRECTION \<equiv> 0x0040"
abbreviation (input) REASON_COOLDOWN_ACTIVE :: int where "REASON_COOLDOWN_ACTIVE \<equiv> 0x0080"
abbreviation (input) REASON_INVALID_FEATURE :: int where "REASON_INVALID_FEATURE \<equiv> 0x0100"
abbreviation (input) REASON_SYMBOL_DISABLED :: int where "REASON_SYMBOL_DISABLED \<equiv> 0x0200"
abbreviation (input) REASON_STRATEGY_DISABLED :: int where "REASON_STRATEGY_DISABLED \<equiv> 0x0400"
abbreviation (input) REASON_LONG_DISABLED :: int where "REASON_LONG_DISABLED \<equiv> 0x0800"
abbreviation (input) REASON_SHORT_DISABLED :: int where "REASON_SHORT_DISABLED \<equiv> 0x1000"
abbreviation (input) REASON_SUPPRESSED :: int where "REASON_SUPPRESSED \<equiv> 0x2000"

record strategy_config =
  sc_strategy_enable :: bool
  sc_long_enable :: bool
  sc_short_enable :: bool
  sc_long_min_momentum_bps_x100 :: int
  sc_short_max_momentum_bps_x100 :: int
  sc_long_min_vwap_delta_bps_x100 :: int
  sc_short_max_vwap_delta_bps_x100 :: int
  sc_long_min_imbalance_q15 :: int
  sc_short_max_imbalance_q15 :: int
  sc_max_spread_bps_x100 :: int
  sc_min_rolling_volume :: int
  sc_signal_cooldown_events :: int
  sc_symbol_enable :: "bool list"

definition default_strategy_config :: strategy_config where
  "default_strategy_config =
     \<lparr>sc_strategy_enable = False, sc_long_enable = True, sc_short_enable = True,
      sc_long_min_momentum_bps_x100 = 100, sc_short_max_momentum_bps_x100 = -100,
      sc_long_min_vwap_delta_bps_x100 = 100, sc_short_max_vwap_delta_bps_x100 = -100,
      sc_long_min_imbalance_q15 = 1638, sc_short_max_imbalance_q15 = -1638,
      sc_max_spread_bps_x100 = 500, sc_min_rolling_volume = 1, sc_signal_cooldown_events = 4,
      sc_symbol_enable = []\<rparr>"

record signal_snapshot =
  sg_symbol_id :: int
  sg_sequence :: int
  sg_action :: int
  sg_score :: int
  sg_reason_bits :: int

record strategy_metrics =
  mt_evaluated :: int
  mt_no_action :: int
  mt_long_candidates :: int
  mt_short_candidates :: int
  mt_invalid :: int
  mt_suppressed :: int

definition zero_metrics :: strategy_metrics where
  "zero_metrics = \<lparr>mt_evaluated = 0, mt_no_action = 0, mt_long_candidates = 0,
     mt_short_candidates = 0, mt_invalid = 0, mt_suppressed = 0\<rparr>"

record strategy_model =
  sm_num_symbols :: nat
  sm_config :: strategy_config
  sm_previous_condition :: "int list"
  sm_last_emitted_action :: "int list"
  sm_cooldown_remaining :: "int list"
  sm_metrics :: strategy_metrics

section \<open>Construction, reset and configuration\<close>

definition strategy_init :: "int \<Rightarrow> strategy_config option \<Rightarrow> strategy_model result" where
  "strategy_init num_symbols config =
     (if num_symbols < 1 then Inl (ValueError ''num_symbols must be positive'')
      else
        let n = nat num_symbols;
            cfg = (case config of None \<Rightarrow> default_strategy_config | Some c \<Rightarrow> c);
            cfg = (if sc_symbol_enable cfg = [] then cfg\<lparr>sc_symbol_enable := replicate n True\<rparr> else cfg)
        in if length (sc_symbol_enable cfg) \<noteq> n
           then Inl (ValueError ''symbol_enable length must match num_symbols'')
           else Inr \<lparr>sm_num_symbols = n, sm_config = cfg,
                     sm_previous_condition = replicate n SIGNAL_NONE,
                     sm_last_emitted_action = replicate n SIGNAL_NONE,
                     sm_cooldown_remaining = replicate n 0, sm_metrics = zero_metrics\<rparr>)"

definition strategy_reset_state :: "bool \<Rightarrow> strategy_model \<Rightarrow> strategy_model" where
  "strategy_reset_state reset_metrics m =
     (let m = m\<lparr>sm_previous_condition := replicate (sm_num_symbols m) SIGNAL_NONE,
                sm_last_emitted_action := replicate (sm_num_symbols m) SIGNAL_NONE,
                sm_cooldown_remaining := replicate (sm_num_symbols m) 0\<rparr>
      in if reset_metrics then m\<lparr>sm_metrics := zero_metrics\<rparr> else m)"

definition check_symbol :: "strategy_model \<Rightarrow> int \<Rightarrow> unit result" where
  "check_symbol m symbol_id =
     (if \<not> (0 \<le> symbol_id \<and> symbol_id < int (sm_num_symbols m))
      then Inl (ValueError ''symbol_id outside strategy model'') else Inr ())"

definition reset_symbol :: "int \<Rightarrow> strategy_model \<Rightarrow> strategy_model result" where
  "reset_symbol symbol_id m =
     rbind (check_symbol m symbol_id) (\<lambda>_.
     rbind (py_set (sm_previous_condition m) (nat symbol_id) SIGNAL_NONE) (\<lambda>prev.
     rbind (py_set (sm_last_emitted_action m) (nat symbol_id) SIGNAL_NONE) (\<lambda>emitted.
     rbind (py_set (sm_cooldown_remaining m) (nat symbol_id) 0) (\<lambda>cool.
       Inr (m\<lparr>sm_previous_condition := prev, sm_last_emitted_action := emitted,
              sm_cooldown_remaining := cool\<rparr>)))))"

definition set_symbol_enabled :: "int \<Rightarrow> bool \<Rightarrow> strategy_model \<Rightarrow> strategy_model result" where
  "set_symbol_enabled symbol_id enabled m =
     rbind (check_symbol m symbol_id) (\<lambda>_.
     rbind (py_set (sc_symbol_enable (sm_config m)) (nat symbol_id) enabled) (\<lambda>flags.
       Inr (m\<lparr>sm_config := (sm_config m)\<lparr>sc_symbol_enable := flags\<rparr>\<rparr>)))"

section \<open>The decision\<close>

definition feature_set_valid :: "feature_snapshot \<Rightarrow> bool" where
  "feature_set_valid f \<longleftrightarrow>
     ft_spread_bps_x100_valid f \<and> ft_momentum_bps_x100_valid f \<and>
     ft_imbalance_normalized_valid f \<and> ft_vwap_quotient_valid f \<and>
     ft_midpoint_minus_vwap_bps_x100_valid f"

definition long_pass :: "strategy_config \<Rightarrow> feature_snapshot \<Rightarrow> bool list" where
  "long_pass cfg f =
     [ft_momentum_bps_x100_valid f \<and> ft_momentum_bps_x100 f \<ge> sc_long_min_momentum_bps_x100 cfg,
      ft_midpoint_minus_vwap_bps_x100_valid f \<and>
        ft_midpoint_minus_vwap_bps_x100 f \<ge> sc_long_min_vwap_delta_bps_x100 cfg,
      ft_imbalance_normalized_valid f \<and> ft_imbalance_normalized f \<ge> sc_long_min_imbalance_q15 cfg,
      ft_spread_bps_x100_valid f \<and> ft_spread_bps_x100 f \<le> sc_max_spread_bps_x100 cfg,
      ft_rolling_volume f \<ge> sc_min_rolling_volume cfg]"

definition short_pass :: "strategy_config \<Rightarrow> feature_snapshot \<Rightarrow> bool list" where
  "short_pass cfg f =
     [ft_momentum_bps_x100_valid f \<and> ft_momentum_bps_x100 f \<le> sc_short_max_momentum_bps_x100 cfg,
      ft_midpoint_minus_vwap_bps_x100_valid f \<and>
        ft_midpoint_minus_vwap_bps_x100 f \<le> sc_short_max_vwap_delta_bps_x100 cfg,
      ft_imbalance_normalized_valid f \<and> ft_imbalance_normalized f \<le> sc_short_max_imbalance_q15 cfg,
      ft_spread_bps_x100_valid f \<and> ft_spread_bps_x100 f \<le> sc_max_spread_bps_x100 cfg,
      ft_rolling_volume f \<ge> sc_min_rolling_volume cfg]"

definition raw_direction :: "strategy_config \<Rightarrow> feature_snapshot \<Rightarrow> int" where
  "raw_direction cfg f =
     (if list_all id (long_pass cfg f) then SIGNAL_LONG_CANDIDATE
      else if list_all id (short_pass cfg f) then SIGNAL_SHORT_CANDIDATE else SIGNAL_NONE)"

definition eligible_direction :: "strategy_config \<Rightarrow> bool \<Rightarrow> feature_snapshot \<Rightarrow> int" where
  "eligible_direction cfg symbol_enabled f =
     (if feature_set_valid f \<and> symbol_enabled \<and> sc_strategy_enable cfg
      then if raw_direction cfg f = SIGNAL_LONG_CANDIDATE \<and> sc_long_enable cfg
           then SIGNAL_LONG_CANDIDATE
           else if raw_direction cfg f = SIGNAL_SHORT_CANDIDATE \<and> sc_short_enable cfg
           then SIGNAL_SHORT_CANDIDATE else SIGNAL_NONE
      else SIGNAL_NONE)"

text \<open>Python's \<open>a |= b\<close> on a flag word.\<close>

definition or_if :: "bool \<Rightarrow> int \<Rightarrow> int \<Rightarrow> int" where
  "or_if c flag reason = (if c then reason OR flag else reason)"

definition reason_passes :: "int \<Rightarrow> bool list \<Rightarrow> bool list \<Rightarrow> bool list" where
  "reason_passes raw lp sp =
     (if raw = SIGNAL_NONE then map2 (\<lambda>a b. a \<or> b) lp sp
      else if raw = SIGNAL_LONG_CANDIDATE then lp else sp)"

definition reason_bits ::
  "int \<Rightarrow> bool list \<Rightarrow> bool list \<Rightarrow> bool \<Rightarrow> bool \<Rightarrow> strategy_config \<Rightarrow> int \<Rightarrow> bool \<Rightarrow> int" where
  "reason_bits raw lp sp fs_valid symbol_enabled cfg cooldown candidate_fire =
     (let passes = reason_passes raw lp sp;
          reason = or_if (passes ! 0) REASON_MOMENTUM_PASS 0;
          reason = or_if (passes ! 1) REASON_VWAP_DELTA_PASS reason;
          reason = or_if (passes ! 2) REASON_IMBALANCE_PASS reason;
          reason = or_if (passes ! 3) REASON_SPREAD_PASS reason;
          reason = or_if (passes ! 4) REASON_VOLUME_PASS reason;
          reason = (if raw = SIGNAL_LONG_CANDIDATE then reason OR REASON_LONG_DIRECTION
                    else or_if (raw = SIGNAL_SHORT_CANDIDATE) REASON_SHORT_DIRECTION reason);
          reason = or_if (\<not> fs_valid) REASON_INVALID_FEATURE reason;
          reason = or_if (\<not> symbol_enabled) REASON_SYMBOL_DISABLED reason;
          reason = or_if (\<not> sc_strategy_enable cfg) REASON_STRATEGY_DISABLED reason;
          reason = or_if (\<not> sc_long_enable cfg \<and> raw = SIGNAL_LONG_CANDIDATE) REASON_LONG_DISABLED reason;
          reason = or_if (\<not> sc_short_enable cfg \<and> raw = SIGNAL_SHORT_CANDIDATE) REASON_SHORT_DISABLED reason;
          reason = or_if (raw \<noteq> SIGNAL_NONE \<and> cooldown \<noteq> 0 \<and> \<not> candidate_fire) REASON_COOLDOWN_ACTIVE reason
      in or_if (raw \<noteq> SIGNAL_NONE \<and> \<not> candidate_fire) REASON_SUPPRESSED reason)"

definition count_true :: "bool list \<Rightarrow> int" where
  "count_true bs = int (length (filter id bs))"

definition signal_score :: "int \<Rightarrow> bool list \<Rightarrow> bool list \<Rightarrow> int" where
  "signal_score raw lp sp =
     (if raw = SIGNAL_LONG_CANDIDATE then count_true lp
      else if raw = SIGNAL_SHORT_CANDIDATE then count_true sp
      else count_true (map2 (\<lambda>a b. a \<or> b) lp sp))"

definition candidate_fire_of ::
  "strategy_config \<Rightarrow> int \<Rightarrow> int \<Rightarrow> int \<Rightarrow> int \<Rightarrow> int \<Rightarrow> bool" where
  "candidate_fire_of cfg raw eligible previous last_emitted cooldown =
     (let direction_edge = (raw \<noteq> SIGNAL_NONE \<and> raw \<noteq> previous);
          cooldown_expiry_repeat =
            (sc_signal_cooldown_events cfg \<noteq> 0 \<and> cooldown = 1 \<and> raw = last_emitted)
      in eligible \<noteq> SIGNAL_NONE \<and>
         ((direction_edge \<and> cooldown = 0) \<or> (eligible = last_emitted \<and> cooldown_expiry_repeat)))"

definition count_metrics :: "int \<Rightarrow> bool \<Rightarrow> bool \<Rightarrow> strategy_metrics \<Rightarrow> strategy_metrics" where
  "count_metrics action fs_valid is_suppressed mt =
     (let mt = mt\<lparr>mt_evaluated := mt_evaluated mt + 1\<rparr>;
          mt = (if action = SIGNAL_LONG_CANDIDATE
                then mt\<lparr>mt_long_candidates := mt_long_candidates mt + 1\<rparr>
                else if action = SIGNAL_SHORT_CANDIDATE
                then mt\<lparr>mt_short_candidates := mt_short_candidates mt + 1\<rparr>
                else mt\<lparr>mt_no_action := mt_no_action mt + 1\<rparr>);
          mt = (if \<not> fs_valid then mt\<lparr>mt_invalid := mt_invalid mt + 1\<rparr> else mt)
      in if is_suppressed then mt\<lparr>mt_suppressed := mt_suppressed mt + 1\<rparr> else mt)"

definition evaluate ::
  "strategy_model \<Rightarrow> feature_snapshot \<Rightarrow> (signal_snapshot \<times> strategy_model) result" where
  "evaluate m f =
     (let symbol_id = ft_symbol_id f; i = nat symbol_id; cfg = sm_config m in
      rbind (check_symbol m symbol_id) (\<lambda>_.
      rbind (py_get (sm_previous_condition m) i) (\<lambda>previous.
      rbind (py_get (sm_last_emitted_action m) i) (\<lambda>last_emitted.
      rbind (py_get (sm_cooldown_remaining m) i) (\<lambda>cooldown.
      rbind (py_get (sc_symbol_enable cfg) i) (\<lambda>symbol_enabled.
      let fs_valid = feature_set_valid f;
          lp = long_pass cfg f; sp = short_pass cfg f;
          raw = raw_direction cfg f;
          eligible = eligible_direction cfg symbol_enabled f;
          fire = candidate_fire_of cfg raw eligible previous last_emitted cooldown;
          reason = reason_bits raw lp sp fs_valid symbol_enabled cfg cooldown fire;
          score = signal_score raw lp sp;
          action = (if fire then eligible else SIGNAL_NONE);
          condition =
            (if \<not> sc_strategy_enable cfg \<or> \<not> symbol_enabled \<or>
                (raw = SIGNAL_LONG_CANDIDATE \<and> \<not> sc_long_enable cfg) \<or>
                (raw = SIGNAL_SHORT_CANDIDATE \<and> \<not> sc_short_enable cfg)
             then SIGNAL_NONE else raw);
          m = m\<lparr>sm_previous_condition := (sm_previous_condition m)[i := condition]\<rparr>;
          m = (if fire
               then m\<lparr>sm_last_emitted_action := (sm_last_emitted_action m)[i := eligible],
                      sm_cooldown_remaining :=
                        (sm_cooldown_remaining m)[i := sc_signal_cooldown_events cfg]\<rparr>
               else if cooldown \<noteq> 0
               then m\<lparr>sm_cooldown_remaining := (sm_cooldown_remaining m)[i := cooldown - 1]\<rparr>
               else m);
          m = m\<lparr>sm_metrics := count_metrics action fs_valid
                  (raw \<noteq> SIGNAL_NONE \<and> \<not> fire) (sm_metrics m)\<rparr>
      in Inr (\<lparr>sg_symbol_id = symbol_id, sg_sequence = ft_sequence f, sg_action = action,
               sg_score = score, sg_reason_bits = reason\<rparr>, m)))))))"

definition evaluate_all ::
  "strategy_model \<Rightarrow> feature_snapshot list \<Rightarrow> (signal_snapshot list \<times> strategy_model) result" where
  "evaluate_all = run_steps evaluate"

end
