(* ===== verification/Strategy_Correct.thy ===== *)
theory Strategy_Correct
  imports Strategy_Model
begin

text \<open>
  Correctness of the signal engine. Its state is cut into one cell per symbol (previous condition,
  last emitted action, cooldown, enable flag); \<open>evaluate_cell\<close> says that \<open>evaluate\<close> is the cell's
  transition and leaves every other cell alone. The properties are then facts about cells: what a
  fired candidate and each reason bit mean, how fires are spaced, and which conditions fire
  again or never.
\<close>

section \<open>Cells\<close>

type_synonym cell = "int \<times> int \<times> int \<times> bool"

definition cell_fire :: "strategy_config \<Rightarrow> feature_snapshot \<Rightarrow> cell \<Rightarrow> bool" where
  "cell_fire cfg f = (\<lambda>(previous, emitted, cooldown, enabled).
     candidate_fire_of cfg (raw_direction cfg f) (eligible_direction cfg enabled f)
       previous emitted cooldown)"

definition cell_next :: "strategy_config \<Rightarrow> feature_snapshot \<Rightarrow> cell \<Rightarrow> cell" where
  "cell_next cfg f = (\<lambda>(previous, emitted, cooldown, enabled).
     let raw = raw_direction cfg f; fire = cell_fire cfg f (previous, emitted, cooldown, enabled) in
     (if \<not> sc_strategy_enable cfg \<or> \<not> enabled \<or>
         (raw = SIGNAL_LONG_CANDIDATE \<and> \<not> sc_long_enable cfg) \<or>
         (raw = SIGNAL_SHORT_CANDIDATE \<and> \<not> sc_short_enable cfg) then SIGNAL_NONE else raw,
      if fire then eligible_direction cfg enabled f else emitted,
      if fire then sc_signal_cooldown_events cfg
      else if cooldown \<noteq> 0 then cooldown - 1 else cooldown,
      enabled))"

definition cell_signal :: "strategy_config \<Rightarrow> feature_snapshot \<Rightarrow> cell \<Rightarrow> signal_snapshot" where
  "cell_signal cfg f = (\<lambda>(previous, emitted, cooldown, enabled).
     let raw = raw_direction cfg f; lp = long_pass cfg f; sp = short_pass cfg f;
         fire = cell_fire cfg f (previous, emitted, cooldown, enabled)
     in \<lparr>sg_symbol_id = ft_symbol_id f, sg_sequence = ft_sequence f,
         sg_action = (if fire then eligible_direction cfg enabled f else SIGNAL_NONE),
         sg_score = signal_score raw lp sp,
         sg_reason_bits = reason_bits raw lp sp (feature_set_valid f) enabled cfg cooldown fire\<rparr>)"

definition cell_metrics ::
  "strategy_config \<Rightarrow> feature_snapshot \<Rightarrow> cell \<Rightarrow> strategy_metrics \<Rightarrow> strategy_metrics" where
  "cell_metrics cfg f cell =
     count_metrics (sg_action (cell_signal cfg f cell)) (feature_set_valid f)
       (raw_direction cfg f \<noteq> SIGNAL_NONE \<and> \<not> cell_fire cfg f cell)"

definition strategy_cell :: "strategy_model \<Rightarrow> int \<Rightarrow> cell" where
  "strategy_cell m i =
     (sm_previous_condition m ! nat i, sm_last_emitted_action m ! nat i,
      sm_cooldown_remaining m ! nat i, sc_symbol_enable (sm_config m) ! nat i)"

definition strategy_wf :: "strategy_model \<Rightarrow> bool" where
  "strategy_wf m \<longleftrightarrow>
     length (sm_previous_condition m) = sm_num_symbols m \<and>
     length (sm_last_emitted_action m) = sm_num_symbols m \<and>
     length (sm_cooldown_remaining m) = sm_num_symbols m \<and>
     length (sc_symbol_enable (sm_config m)) = sm_num_symbols m"

definition strategy_symbol :: "strategy_model \<Rightarrow> int \<Rightarrow> bool" where
  "strategy_symbol m i \<longleftrightarrow> 0 \<le> i \<and> i < int (sm_num_symbols m)"

lemma evaluate_cell:
  assumes "strategy_wf m" "strategy_symbol m (ft_symbol_id f)"
  shows "\<exists>m'. evaluate m f =
      Inr (cell_signal (sm_config m) f (strategy_cell m (ft_symbol_id f)), m') \<and>
    strategy_wf m' \<and> sm_num_symbols m' = sm_num_symbols m \<and> sm_config m' = sm_config m \<and>
    strategy_cell m' (ft_symbol_id f) = cell_next (sm_config m) f (strategy_cell m (ft_symbol_id f)) \<and>
    (\<forall>k. 0 \<le> k \<longrightarrow> k \<noteq> ft_symbol_id f \<longrightarrow> strategy_cell m' k = strategy_cell m k) \<and>
    sm_metrics m' = cell_metrics (sm_config m) f (strategy_cell m (ft_symbol_id f)) (sm_metrics m)"
proof -
  let ?i = "nat (ft_symbol_id f)" and ?id = "ft_symbol_id f"
  have lens: "?i < length (sm_previous_condition m)" "?i < length (sm_last_emitted_action m)"
    "?i < length (sm_cooldown_remaining m)" "?i < length (sc_symbol_enable (sm_config m))"
    using assms by (auto simp: strategy_wf_def strategy_symbol_def)
  have id: "0 \<le> ?id" "?id < int (sm_num_symbols m)"
    using assms(2) by (auto simp: strategy_symbol_def)
  have other: "\<And>k. 0 \<le> k \<Longrightarrow> k \<noteq> ?id \<Longrightarrow> nat k \<noteq> ?i" using id by auto
  define fire where "fire = cell_fire (sm_config m) f (strategy_cell m ?id)"
  show ?thesis
  proof (cases fire)
    case True
    then show ?thesis
      using lens id assms(1) unfolding fire_def
      by (simp add: evaluate_def check_symbol_def Let_def cell_signal_def cell_next_def
          cell_metrics_def cell_fire_def strategy_cell_def strategy_wf_def other)
  next
    case False
    then show ?thesis
      using lens id assms(1) unfolding fire_def
      by (simp add: evaluate_def check_symbol_def Let_def cell_signal_def cell_next_def
          cell_metrics_def cell_fire_def strategy_cell_def strategy_wf_def other)
  qed
qed

lemma evaluate_outside:
  "\<not> strategy_symbol m (ft_symbol_id f) \<Longrightarrow>
     evaluate m f = Inl (ValueError ''symbol_id outside strategy model'')"
  by (auto simp: evaluate_def check_symbol_def strategy_symbol_def)

section \<open>Independence of the symbols\<close>

definition strategy_part :: "strategy_model \<Rightarrow> int \<Rightarrow> cell option" where
  "strategy_part m i = (if strategy_symbol m i then Some (strategy_cell m i) else None)"

definition strategy_family :: "nat \<Rightarrow> strategy_config \<Rightarrow> strategy_model \<Rightarrow> bool" where
  "strategy_family n cfg m \<longleftrightarrow> strategy_wf m \<and> sm_num_symbols m = n \<and> sm_config m = cfg"

interpretation strategy_symbols: symbol_indexed evaluate ft_symbol_id
    "\<lambda>f. 0 \<le> ft_symbol_id f \<and> ft_symbol_id f < int n" strategy_part "strategy_family n cfg" for n cfg
proof (unfold_locales, goal_cases)
  case (1 m f)
  then show ?case
    using evaluate_cell [of m f] by (auto simp: strategy_family_def strategy_symbol_def)
next
  case (2 m1 m2 f out1 m1' out2 m2')
  then show ?case
    using evaluate_cell [of m1 f] evaluate_cell [of m2 f]
    by (auto simp: strategy_family_def strategy_symbol_def strategy_part_def)
next
  case (3 m f out m' k)
  then show ?case
    using evaluate_cell [of m f]
    by (auto simp: strategy_family_def strategy_symbol_def strategy_part_def)
qed

lemma strategy_init_family:
  "strategy_init num_symbols config = Inr m \<Longrightarrow>
     strategy_family (sm_num_symbols m) (sm_config m) m \<and>
     sm_num_symbols m = nat num_symbols \<and> 1 \<le> num_symbols"
  by (auto simp: strategy_init_def strategy_family_def strategy_wf_def Let_def split: if_splits)

text \<open>A concrete engine for the witnesses: two symbols, cooldown of three, and a long feature.\<close>

definition demo_config :: strategy_config where
  "demo_config = default_strategy_config
     \<lparr>sc_strategy_enable := True, sc_signal_cooldown_events := 3, sc_symbol_enable := [True, True]\<rparr>"

definition demo_strategy :: strategy_model where
  "demo_strategy =
     \<lparr>sm_num_symbols = 2, sm_config = demo_config, sm_previous_condition = [0, 0],
      sm_last_emitted_action = [0, 0], sm_cooldown_remaining = [0, 0], sm_metrics = zero_metrics\<rparr>"

definition demo_feature :: "int \<Rightarrow> int \<Rightarrow> feature_snapshot" where
  "demo_feature symb bias =
     \<lparr>ft_symbol_id = symb, ft_sequence = 1, ft_bid_price = 100, ft_bid_quantity = 9,
      ft_ask_price = 102, ft_ask_quantity = 1, ft_spread = 2, ft_spread_valid = True,
      ft_midpoint = 101, ft_midpoint_valid = True, ft_momentum = bias, ft_momentum_valid = True,
      ft_rolling_volume = 10, ft_imbalance_numerator = 8, ft_imbalance_denominator = 10,
      ft_imbalance_valid = True, ft_vwap_sum_price_quantity = 1000, ft_vwap_sum_quantity = 10,
      ft_vwap_valid = True, ft_vwap = 100, ft_vwap_quotient_valid = True,
      ft_imbalance_normalized = bias, ft_imbalance_normalized_valid = True,
      ft_spread_bps_x100 = 198, ft_spread_bps_x100_valid = True, ft_momentum_bps_x100 = bias,
      ft_momentum_bps_x100_valid = True, ft_midpoint_minus_vwap = bias,
      ft_midpoint_minus_vwap_valid = True, ft_midpoint_minus_vwap_bps_x100 = bias,
      ft_midpoint_minus_vwap_bps_x100_valid = True\<rparr>"

lemma demo_strategy_init: "strategy_init 2 (Some demo_config) = Inr demo_strategy"
  by (simp add: strategy_init_def demo_config_def demo_strategy_def numeral_2_eq_2)

lemma demo_strategy_wf: "strategy_wf demo_strategy"
  by (simp add: strategy_wf_def demo_strategy_def demo_config_def)

text \<open>
  Symbols do not interfere in the signal engine: in every interleaving of
  features of a constructed model's symbols, the signals for one symbol are those of evaluating its
  features alone, and nothing raises.
\<close>

theorem strategy_symbols_isolated:
  assumes "strategy_init num_symbols config = Inr m"
    and "\<forall>f\<in>set fs. 0 \<le> ft_symbol_id f \<and> ft_symbol_id f < num_symbols"
  shows "\<exists>outs m' outs_k m_k. evaluate_all m fs = Inr (outs, m') \<and>
    evaluate_all m (filter (\<lambda>f. ft_symbol_id f = k) fs) = Inr (outs_k, m_k) \<and>
    map fst (filter (\<lambda>(out, f). ft_symbol_id f = k) (zip outs fs)) = outs_k"
  unfolding evaluate_all_def
  by (rule strategy_symbols.run_projects [where n = "sm_num_symbols m" and cfg = "sm_config m"])
    (use assms strategy_init_family [OF assms(1)] in auto)

theorem strategy_symbols_isolated_witness:
  "\<exists>outs m' outs_k m_k.
    evaluate_all demo_strategy [demo_feature 0 2000, demo_feature 1 (-2000), demo_feature 0 2000] = Inr (outs, m') \<and>
    evaluate_all demo_strategy [demo_feature 1 (-2000)] = Inr (outs_k, m_k) \<and> [outs ! 1] = outs_k"
proof -
  have "\<forall>f\<in>set [demo_feature 0 2000, demo_feature 1 (-2000), demo_feature 0 2000].
      0 \<le> ft_symbol_id f \<and> ft_symbol_id f < 2"
    by (simp add: demo_feature_def)
  from strategy_symbols_isolated [OF demo_strategy_init this, of 1] obtain outs m' outs_k m_k where
    r: "evaluate_all demo_strategy [demo_feature 0 2000, demo_feature 1 (-2000), demo_feature 0 2000] = Inr (outs, m')"
    "evaluate_all demo_strategy (filter (\<lambda>f. ft_symbol_id f = 1)
      [demo_feature 0 2000, demo_feature 1 (-2000), demo_feature 0 2000]) = Inr (outs_k, m_k)"
    "map fst (filter (\<lambda>(out, f). ft_symbol_id f = 1)
      (zip outs [demo_feature 0 2000, demo_feature 1 (-2000), demo_feature 0 2000])) = outs_k"
    by blast
  have "length outs = 3"
    using r(1) run_steps_length unfolding evaluate_all_def by fastforce
  then have "outs = [outs ! 0, outs ! 1, outs ! 2]"
    by (auto simp: numeral_3_eq_3 numeral_2_eq_2 length_Suc_conv)
  with r(3) have "[outs ! 1] = outs_k"
    by (subst (asm) \<open>outs = _\<close>) (simp add: demo_feature_def)
  with r(1,2) show ?thesis by (auto simp: demo_feature_def)
qed

section \<open>What a candidate means\<close>

lemma candidate_fire_eligible:
  "candidate_fire_of cfg raw eligible p l c \<Longrightarrow> eligible \<noteq> SIGNAL_NONE"
  by (simp add: candidate_fire_of_def Let_def)

lemma eligible_cases:
  "eligible_direction cfg en f = SIGNAL_NONE \<or>
   (eligible_direction cfg en f = raw_direction cfg f \<and> raw_direction cfg f \<noteq> SIGNAL_NONE \<and>
    feature_set_valid f \<and> en \<and> sc_strategy_enable cfg \<and>
    (raw_direction cfg f = SIGNAL_LONG_CANDIDATE \<longrightarrow> sc_long_enable cfg) \<and>
    (raw_direction cfg f = SIGNAL_SHORT_CANDIDATE \<longrightarrow> sc_short_enable cfg))"
  by (auto simp: eligible_direction_def raw_direction_def)

lemma raw_direction_cases:
  "raw_direction cfg f = SIGNAL_LONG_CANDIDATE \<and> list_all id (long_pass cfg f) \<or>
   raw_direction cfg f = SIGNAL_SHORT_CANDIDATE \<and> list_all id (short_pass cfg f) \<or>
   raw_direction cfg f = SIGNAL_NONE"
  by (simp add: raw_direction_def)

lemma cell_signal_fired:
  assumes "sg_action (cell_signal cfg f cell) \<noteq> SIGNAL_NONE"
  shows "cell_fire cfg f cell \<and> raw_direction cfg f = sg_action (cell_signal cfg f cell) \<and>
    eligible_direction cfg (snd (snd (snd cell))) f = raw_direction cfg f \<and>
    raw_direction cfg f \<noteq> SIGNAL_NONE"
  using assms eligible_cases [of cfg "snd (snd (snd cell))" f]
  by (cases cell) (auto simp: cell_signal_def Let_def split: if_splits)

definition long_conditions :: "strategy_config \<Rightarrow> feature_snapshot \<Rightarrow> bool" where
  "long_conditions cfg f \<longleftrightarrow>
     ft_momentum_bps_x100 f \<ge> sc_long_min_momentum_bps_x100 cfg \<and>
     ft_midpoint_minus_vwap_bps_x100 f \<ge> sc_long_min_vwap_delta_bps_x100 cfg \<and>
     ft_imbalance_normalized f \<ge> sc_long_min_imbalance_q15 cfg \<and>
     ft_spread_bps_x100 f \<le> sc_max_spread_bps_x100 cfg \<and>
     ft_rolling_volume f \<ge> sc_min_rolling_volume cfg"

definition short_conditions :: "strategy_config \<Rightarrow> feature_snapshot \<Rightarrow> bool" where
  "short_conditions cfg f \<longleftrightarrow>
     ft_momentum_bps_x100 f \<le> sc_short_max_momentum_bps_x100 cfg \<and>
     ft_midpoint_minus_vwap_bps_x100 f \<le> sc_short_max_vwap_delta_bps_x100 cfg \<and>
     ft_imbalance_normalized f \<le> sc_short_max_imbalance_q15 cfg \<and>
     ft_spread_bps_x100 f \<le> sc_max_spread_bps_x100 cfg \<and>
     ft_rolling_volume f \<ge> sc_min_rolling_volume cfg"

lemma feature_long_pass:
  "feature_set_valid f \<Longrightarrow> list_all id (long_pass cfg f) = long_conditions cfg f"
  by (auto simp: feature_set_valid_def long_pass_def long_conditions_def)

lemma feature_short_pass:
  "feature_set_valid f \<Longrightarrow> list_all id (short_pass cfg f) = short_conditions cfg f"
  by (auto simp: feature_set_valid_def short_pass_def short_conditions_def)

text \<open>When a candidate may fire: at a fresh edge, or at the expiry of its own cooldown.\<close>

definition fire_now :: "strategy_config \<Rightarrow> int \<Rightarrow> cell \<Rightarrow> bool" where
  "fire_now cfg direction = (\<lambda>(previous, emitted, cooldown, _).
     (previous \<noteq> direction \<and> cooldown = 0) \<or>
     (emitted = direction \<and> cooldown = 1 \<and> sc_signal_cooldown_events cfg \<noteq> 0))"

lemma cell_action_long:
  "sg_action (cell_signal cfg f cell) = SIGNAL_LONG_CANDIDATE \<longleftrightarrow>
     sc_strategy_enable cfg \<and> sc_long_enable cfg \<and> snd (snd (snd cell)) \<and>
     feature_set_valid f \<and> long_conditions cfg f \<and> fire_now cfg SIGNAL_LONG_CANDIDATE cell"
  by (cases cell; cases "feature_set_valid f")
    (auto simp: cell_signal_def cell_fire_def candidate_fire_of_def eligible_direction_def
      raw_direction_def feature_long_pass feature_short_pass fire_now_def Let_def)

lemma cell_action_short:
  "sg_action (cell_signal cfg f cell) = SIGNAL_SHORT_CANDIDATE \<longleftrightarrow>
     sc_strategy_enable cfg \<and> sc_short_enable cfg \<and> snd (snd (snd cell)) \<and>
     feature_set_valid f \<and> short_conditions cfg f \<and> \<not> long_conditions cfg f \<and>
     fire_now cfg SIGNAL_SHORT_CANDIDATE cell"
  by (cases cell; cases "feature_set_valid f")
    (auto simp: cell_signal_def cell_fire_def candidate_fire_of_def eligible_direction_def
      raw_direction_def feature_long_pass feature_short_pass fire_now_def Let_def)

lemma evaluate_InrD:
  assumes "strategy_wf m" "evaluate m f = Inr (s, m')"
  shows "s = cell_signal (sm_config m) f (strategy_cell m (ft_symbol_id f))"
    "strategy_symbol m (ft_symbol_id f)"
  using evaluate_cell [OF assms(1), of f] evaluate_outside [of m f] assms(2)
  by (cases "strategy_symbol m (ft_symbol_id f)"; simp)+

lemma eligible_range:
  "eligible_direction cfg en f \<in> {SIGNAL_NONE, SIGNAL_LONG_CANDIDATE, SIGNAL_SHORT_CANDIDATE}"
  by (simp add: eligible_direction_def)

lemma cell_fire_cases:
  "cell_fire cfg f cell \<Longrightarrow>
     sg_action (cell_signal cfg f cell) = SIGNAL_LONG_CANDIDATE \<or>
     sg_action (cell_signal cfg f cell) = SIGNAL_SHORT_CANDIDATE"
  using eligible_range [of cfg "snd (snd (snd cell))" f]
  by (cases cell) (auto simp: cell_signal_def cell_fire_def Let_def dest: candidate_fire_eligible)

lemma cell_fire_iff_action:
  "cell_fire cfg f cell \<longleftrightarrow> sg_action (cell_signal cfg f cell) \<noteq> SIGNAL_NONE"
  using cell_fire_cases [of cfg f cell] cell_signal_fired [of cfg f cell] by auto

lemma cell_action_range:
  "sg_action (cell_signal cfg f cell) \<in> {SIGNAL_NONE, SIGNAL_LONG_CANDIDATE, SIGNAL_SHORT_CANDIDATE}"
  using cell_fire_cases [of cfg f cell] cell_fire_iff_action [of cfg f cell] by auto

text \<open>
  The rule of \<open>docs/strategy.md\<close>: with no cooldown running, an edge fires, a cooldown of zero does not
  suppress repeats, and a reversal fires; with a cooldown running, its last event repeats the direction
  last emitted. The engine takes the direction of the previous evaluation for suppressed, so it stays
  silent in \<open>held_over\<close>, also where the rule promises a repeat or a reversal.
\<close>

definition documented_fire :: "strategy_config \<Rightarrow> int \<Rightarrow> cell \<Rightarrow> bool" where
  "documented_fire cfg direction = (\<lambda>(previous, emitted, cooldown, _).
     if cooldown = 0
     then previous \<noteq> direction \<or> sc_signal_cooldown_events cfg = 0 \<or> (emitted \<noteq> SIGNAL_NONE \<and> emitted \<noteq> direction)
     else cooldown = 1 \<and> emitted = direction \<and> sc_signal_cooldown_events cfg \<noteq> 0)"

definition held_over :: "int \<Rightarrow> cell \<Rightarrow> bool" where
  "held_over direction = (\<lambda>(previous, _, cooldown, _). previous = direction \<and> cooldown = 0)"

lemma fire_now_documented: "fire_now cfg direction cell \<longleftrightarrow> documented_fire cfg direction cell \<and> \<not> held_over direction cell"
  by (cases cell) (auto simp: fire_now_def documented_fire_def held_over_def)

text \<open>
  C13: A long candidate is emitted exactly when the engine, the direction and the symbol are
  enabled, every feature is valid, the five long thresholds hold, and the documented rule of edges,
  cooldown and reversals fires, save that a direction held over from the previous evaluation with no
  cooldown running is never emitted (the two reported divergences from the documentation: a repeat at
  a cooldown of zero, and a reversal that began while the cooldown was running); a short candidate
  likewise, when the long thresholds do not hold. No other action exists.
\<close>

theorem candidate_exactly_when:
  assumes "strategy_wf m" "evaluate m f = Inr (s, m')"
  shows "let cfg = sm_config m; cell = strategy_cell m (ft_symbol_id f);
      live = (sc_strategy_enable cfg \<and> snd (snd (snd cell)) \<and> feature_set_valid f);
      fires = (\<lambda>direction. documented_fire cfg direction cell \<and> \<not> held_over direction cell) in
    (sg_action s = SIGNAL_LONG_CANDIDATE \<longleftrightarrow>
       live \<and> sc_long_enable cfg \<and> long_conditions cfg f \<and> fires SIGNAL_LONG_CANDIDATE) \<and>
    (sg_action s = SIGNAL_SHORT_CANDIDATE \<longleftrightarrow>
       live \<and> sc_short_enable cfg \<and> short_conditions cfg f \<and> \<not> long_conditions cfg f \<and> fires SIGNAL_SHORT_CANDIDATE) \<and>
    sg_action s \<in> {SIGNAL_NONE, SIGNAL_LONG_CANDIDATE, SIGNAL_SHORT_CANDIDATE}"
  unfolding evaluate_InrD(1) [OF assms] Let_def cell_action_long cell_action_short fire_now_documented
  using cell_action_range by blast

lemma demo_evaluate:
  "\<exists>m'. evaluate demo_strategy (demo_feature 0 2000) =
     Inr (\<lparr>sg_symbol_id = 0, sg_sequence = 1, sg_action = 1, sg_score = 5, sg_reason_bits = 0x3F\<rparr>, m')"
proof -
  have "strategy_symbol demo_strategy (ft_symbol_id (demo_feature 0 2000))"
    by (simp add: strategy_symbol_def demo_strategy_def demo_feature_def)
  moreover have "cell_signal (sm_config demo_strategy) (demo_feature 0 2000)
      (strategy_cell demo_strategy (ft_symbol_id (demo_feature 0 2000))) =
      \<lparr>sg_symbol_id = 0, sg_sequence = 1, sg_action = 1, sg_score = 5, sg_reason_bits = 0x3F\<rparr>"
    by code_simp
  ultimately show ?thesis
    using evaluate_cell [OF demo_strategy_wf, of "demo_feature 0 2000"] by auto
qed

theorem candidate_exactly_when_witness:
  "\<exists>s m'. evaluate demo_strategy (demo_feature 0 2000) = Inr (s, m') \<and> sg_action s = SIGNAL_LONG_CANDIDATE \<and>
     long_conditions demo_config (demo_feature 0 2000) \<and> sc_long_enable demo_config"
proof -
  obtain s m' where s: "evaluate demo_strategy (demo_feature 0 2000) = Inr (s, m')"
    "sg_action s = SIGNAL_LONG_CANDIDATE"
    using demo_evaluate by auto
  have "sm_config demo_strategy = demo_config" by (simp add: demo_strategy_def)
  with candidate_exactly_when [OF demo_strategy_wf s(1)] s show ?thesis by (auto simp: Let_def)
qed

section \<open>The reason word and the score\<close>

lemma bit_or_if: "bit (or_if c flag r) j \<longleftrightarrow> bit r j \<or> (c \<and> bit flag j)"
  by (simp add: or_if_def bit_or_iff)

lemma or_if_range:
  "0 \<le> r \<Longrightarrow> r < 2 ^ n \<Longrightarrow> 0 \<le> flag \<Longrightarrow> flag < 2 ^ n \<Longrightarrow> 0 \<le> or_if c flag r \<and> or_if c flag r < 2 ^ n"
  by (simp add: or_if_def OR_upper)

lemma or_if_14:
  "0 \<le> r \<and> r < 16384 \<Longrightarrow> 0 \<le> flag \<Longrightarrow> flag < 16384 \<Longrightarrow> 0 \<le> or_if c flag r \<and> or_if c flag r < 16384"
  using or_if_range [of r 14 flag c] by simp

lemma reason_bits_range:
  "0 \<le> reason_bits raw lp sp v en cfg c fire \<and> reason_bits raw lp sp v en cfg c fire < 16384"
proof -
  have direction: "(if b then r OR flag else or_if d flag' r) = or_if (\<not> b \<and> d) flag' (or_if b flag r)"
    for b d r flag flag'
    by (simp add: or_if_def)
  show ?thesis
    unfolding reason_bits_def Let_def direction by (intro or_if_14) simp_all
qed

lemma length_reason_passes: "length (reason_passes raw (long_pass cfg f) (short_pass cfg f)) = 5"
  by (simp add: reason_passes_def long_pass_def short_pass_def)

lemma signal_score_passes: "signal_score raw lp sp = (if raw \<in> {0, 1, 2} then count_true (reason_passes raw lp sp)
    else signal_score raw lp sp)"
  by (auto simp: signal_score_def reason_passes_def)

lemma list_5: "length xs = 5 \<Longrightarrow> xs = [xs ! 0, xs ! 1, xs ! 2, xs ! 3, xs ! 4]"
  by (auto simp: length_Suc_conv eval_nat_numeral)

lemma reason_bits_flags:
  assumes "length (reason_passes raw lp sp) = 5"
  shows "map (bit (reason_bits raw lp sp v en cfg c fire)) [0..<14] =
    reason_passes raw lp sp @
    [raw = 1, raw = 2, raw \<noteq> 0 \<and> c \<noteq> 0 \<and> \<not> fire, \<not> v, \<not> en, \<not> sc_strategy_enable cfg,
     \<not> sc_long_enable cfg \<and> raw = 1, \<not> sc_short_enable cfg \<and> raw = 2, raw \<noteq> 0 \<and> \<not> fire]"
proof -
  let ?ps = "reason_passes raw lp sp"
  have upto: "[0..<14] = [0, 1, 2, 3, 4, 5, 6, 7, 8, 9, 10, 11, 12, 13]"
    by (simp add: upt_rec)
  have "map (bit (reason_bits raw lp sp v en cfg c fire)) [0..<14] =
    [?ps ! 0, ?ps ! 1, ?ps ! 2, ?ps ! 3, ?ps ! 4] @
    [raw = 1, raw = 2, raw \<noteq> 0 \<and> c \<noteq> 0 \<and> \<not> fire, \<not> v, \<not> en, \<not> sc_strategy_enable cfg,
     \<not> sc_long_enable cfg \<and> raw = 1, \<not> sc_short_enable cfg \<and> raw = 2, raw \<noteq> 0 \<and> \<not> fire]"
    unfolding upto by (auto simp: reason_bits_def Let_def bit_or_if bit_or_iff)
  then show ?thesis
    unfolding list_5 [OF assms, symmetric] .
qed

text \<open>
  The fourteen bits of the reason word say exactly what they are named for: the five
  threshold results, the direction, whether a cooldown held the candidate back, an invalid feature
  set, the disabled switches, and that a direction was present but nothing was emitted. No other bit
  is ever set, and the score is the number of the five threshold bits that are set.
\<close>

theorem reason_word_meaning:
  assumes "strategy_wf m" "evaluate m f = Inr (s, m')"
  shows "let cfg = sm_config m; (_, _, cooldown, enabled) = strategy_cell m (ft_symbol_id f);
      raw = raw_direction cfg f; r = sg_reason_bits s; passed = map (bit r) [0..<5] in
    map (bit r) [0..<14] =
      reason_passes raw (long_pass cfg f) (short_pass cfg f) @
      [raw = SIGNAL_LONG_CANDIDATE, raw = SIGNAL_SHORT_CANDIDATE,
       raw \<noteq> SIGNAL_NONE \<and> cooldown \<noteq> 0 \<and> sg_action s = SIGNAL_NONE, \<not> feature_set_valid f,
       \<not> enabled, \<not> sc_strategy_enable cfg, \<not> sc_long_enable cfg \<and> raw = SIGNAL_LONG_CANDIDATE,
       \<not> sc_short_enable cfg \<and> raw = SIGNAL_SHORT_CANDIDATE,
       raw \<noteq> SIGNAL_NONE \<and> sg_action s = SIGNAL_NONE] \<and>
    0 \<le> r \<and> r < 2 ^ 14 \<and> sg_score s = count_true passed"
proof -
  let ?cfg = "sm_config m" and ?cell = "strategy_cell m (ft_symbol_id f)"
  obtain p l c en where cell: "?cell = (p, l, c, en)" by (cases ?cell)
  let ?raw = "raw_direction ?cfg f" and ?fire = "cell_fire ?cfg f ?cell"
  let ?lp = "long_pass ?cfg f" and ?sp = "short_pass ?cfg f"
  have s: "s = cell_signal ?cfg f ?cell" by (rule evaluate_InrD [OF assms])
  have fire: "(sg_action s \<noteq> SIGNAL_NONE) = ?fire"
    unfolding s by (rule cell_fire_iff_action [symmetric])
  have r: "sg_reason_bits s =
      reason_bits ?raw ?lp ?sp (feature_set_valid f) en ?cfg c (sg_action s \<noteq> SIGNAL_NONE)"
    unfolding fire by (simp add: s cell cell_signal_def Let_def)
  have score: "sg_score s = signal_score ?raw ?lp ?sp"
    by (simp add: s cell cell_signal_def Let_def)
  note flags = reason_bits_flags [OF length_reason_passes [of ?raw ?cfg f]]
  have "map (bit (sg_reason_bits s)) [0..<5] = take 5 (map (bit (sg_reason_bits s)) [0..<14])"
    by (simp add: take_map)
  also have "\<dots> = reason_passes ?raw ?lp ?sp"
    unfolding r flags by (simp add: length_reason_passes)
  finally have passed: "map (bit (sg_reason_bits s)) [0..<5] = reason_passes ?raw ?lp ?sp" .
  have "?raw \<in> {0, 1, 2}" using raw_direction_cases by blast
  then have "sg_score s = count_true (map (bit (sg_reason_bits s)) [0..<5])"
    unfolding passed score by (subst signal_score_passes) simp
  then show ?thesis
    using reason_bits_range [of ?raw ?lp ?sp "feature_set_valid f" en ?cfg c "sg_action s \<noteq> SIGNAL_NONE"]
    unfolding Let_def cell prod.case by (simp add: r flags)
qed

theorem reason_word_meaning_witness:
  "\<exists>s m'. evaluate demo_strategy (demo_feature 0 2000) = Inr (s, m') \<and> sg_reason_bits s = 0x3F \<and>
     sg_score s = count_true (map (bit (sg_reason_bits s)) [0..<5])"
proof -
  obtain s m' where s: "evaluate demo_strategy (demo_feature 0 2000) = Inr (s, m')" "sg_reason_bits s = 0x3F"
    using demo_evaluate by auto
  with reason_word_meaning [OF demo_strategy_wf s(1)] show ?thesis
    by (auto simp: Let_def split_beta)
qed

end
