(* ===== verification/Strategy_Timing.thy ===== *)
theory Strategy_Timing
  imports Strategy_Correct
begin

text \<open>
  The signal engine over time: how far apart two candidates of a symbol are, how a condition
  that persists fires again, what becomes of a reversal that starts inside a cooldown, and the
  invariant that all operations of the engine keep.
\<close>

section \<open>Runs of one cell\<close>

fun cell_run :: "strategy_config \<Rightarrow> cell \<Rightarrow> feature_snapshot list \<Rightarrow> signal_snapshot list" where
  "cell_run cfg cell [] = []"
| "cell_run cfg cell (f # fs) = cell_signal cfg f cell # cell_run cfg (cell_next cfg f cell) fs"

lemma length_cell_run [simp]: "length (cell_run cfg cell fs) = length fs"
  by (induction fs arbitrary: cell) simp_all

lemma cell_signal_symbol [simp]: "sg_symbol_id (cell_signal cfg f cell) = ft_symbol_id f"
  by (cases cell) (simp add: cell_signal_def Let_def)

text \<open>The signals for a symbol are the run of its cell over its own features.\<close>

lemma evaluate_all_cell:
  assumes "strategy_wf m" "evaluate_all m fs = Inr (outs, m')" "0 \<le> i"
  shows "filter (\<lambda>s. sg_symbol_id s = i) outs =
    cell_run (sm_config m) (strategy_cell m i) (filter (\<lambda>f. ft_symbol_id f = i) fs)"
  using assms
proof (induction fs arbitrary: m outs)
  case Nil
  then show ?case by (simp add: evaluate_all_def)
next
  case (Cons f fs)
  obtain s m1 rest where 1: "evaluate m f = Inr (s, m1)" "evaluate_all m1 fs = Inr (rest, m')"
    "outs = s # rest"
    using Cons.prems(2) unfolding evaluate_all_def run_steps_Cons_Inr by blast
  note valid = evaluate_InrD [OF Cons.prems(1) 1(1)]
  from evaluate_cell [OF Cons.prems(1) valid(2)] 1(1) have
    m1: "strategy_wf m1" "sm_config m1 = sm_config m"
    "strategy_cell m1 (ft_symbol_id f) = cell_next (sm_config m) f (strategy_cell m (ft_symbol_id f))"
    "\<And>k. 0 \<le> k \<Longrightarrow> k \<noteq> ft_symbol_id f \<Longrightarrow> strategy_cell m1 k = strategy_cell m k"
    by auto
  show ?case
    using Cons.IH [OF m1(1) 1(2) Cons.prems(3)] m1(2,3) m1(4) [OF Cons.prems(3)] valid(1) 1(3)
    by (cases "ft_symbol_id f = i") simp_all
qed

lemma cell_fire_cooldown: "cell_fire cfg f (p, l, c, en) \<Longrightarrow> c = 0 \<or> c = 1"
  by (auto simp: cell_fire_def candidate_fire_of_def Let_def)

lemma cell_next_fire:
  "cell_fire cfg f (p, l, c, en) \<Longrightarrow>
     \<exists>p' l'. cell_next cfg f (p, l, c, en) = (p', l', sc_signal_cooldown_events cfg, en)"
  by (simp add: cell_next_def Let_def)

lemma cell_next_quiet:
  "\<not> cell_fire cfg f (p, l, c, en) \<Longrightarrow>
     \<exists>p' l'. cell_next cfg f (p, l, c, en) = (p', l', if c \<noteq> 0 then c - 1 else c, en)"
  by (simp add: cell_next_def Let_def)

text \<open>A cell with a cooldown left stays silent until the cooldown has one step to go.\<close>

lemma cell_run_cooldown:
  assumes "k < length fs" "sg_action (cell_run cfg (p, l, c, en) fs ! k) \<noteq> SIGNAL_NONE"
  shows "c \<le> int k + 1"
  using assms
proof (induction fs arbitrary: p l c k)
  case Nil
  then show ?case by simp
next
  case (Cons f fs)
  show ?case
  proof (cases "cell_fire cfg f (p, l, c, en)")
    case True
    then show ?thesis using cell_fire_cooldown [OF True] by auto
  next
    case False
    then obtain k' where k: "k = Suc k'"
      using Cons.prems by (cases k) (auto simp: cell_fire_iff_action)
    obtain p' l' where n: "cell_next cfg f (p, l, c, en) = (p', l', if c \<noteq> 0 then c - 1 else c, en)"
      using cell_next_quiet [OF False] by blast
    show ?thesis
      using Cons.IH [of k' p' l' "if c \<noteq> 0 then c - 1 else c"] Cons.prems k
      by (auto simp: n split: if_splits)
  qed
qed

lemma cell_run_spacing:
  assumes "a < b" "b < length fs"
    and "sg_action (cell_run cfg cell fs ! a) \<noteq> SIGNAL_NONE"
    and "sg_action (cell_run cfg cell fs ! b) \<noteq> SIGNAL_NONE"
  shows "sc_signal_cooldown_events cfg \<le> int b - int a"
  using assms
proof (induction fs arbitrary: cell a b)
  case Nil
  then show ?case by simp
next
  case (Cons f fs)
  obtain p l c en where cell: "cell = (p, l, c, en)" by (cases cell)
  obtain b' where b: "b = Suc b'" using Cons.prems(1) by (cases b) auto
  show ?case
  proof (cases a)
    case 0
    then have "cell_fire cfg f cell" using Cons.prems(3) by (simp add: cell_fire_iff_action)
    then obtain p' l' where "cell_next cfg f cell = (p', l', sc_signal_cooldown_events cfg, en)"
      using cell_next_fire cell by blast
    then show ?thesis
      using cell_run_cooldown [of b' fs cfg p' l' "sc_signal_cooldown_events cfg" en] Cons.prems(2,4) 0 b
      by simp
  next
    case (Suc a')
    then show ?thesis
      using Cons.IH [of a' b' "cell_next cfg f cell"] Cons.prems b by simp
  qed
qed

text \<open>
  C6: Candidates of a symbol are never closer than the configured cooldown: between two
  emitted candidates of the same symbol lie at least that many evaluations of it, whatever the
  features and the other symbols do, from every well-formed engine state.
\<close>

theorem cooldown_spacing:
  assumes "strategy_wf m" "evaluate_all m fs = Inr (outs, m')" "0 \<le> i"
    and "sigs = filter (\<lambda>s. sg_symbol_id s = i) outs"
    and "a < b" "b < length sigs"
    and "sg_action (sigs ! a) \<noteq> SIGNAL_NONE" "sg_action (sigs ! b) \<noteq> SIGNAL_NONE"
  shows "sc_signal_cooldown_events (sm_config m) \<le> int b - int a"
  by (rule cell_run_spacing [where cell = "strategy_cell m i" and fs = "filter (\<lambda>f. ft_symbol_id f = i) fs"])
    (use assms evaluate_all_cell [OF assms(1-3)] in simp_all)

text \<open>Runs of the demonstration engine, whose cooldown is three.\<close>

lemma demo_evaluate_all:
  assumes "\<forall>f\<in>set fs. ft_symbol_id f = 0"
  shows "\<exists>outs m'. evaluate_all demo_strategy fs = Inr (outs, m') \<and>
    filter (\<lambda>s. sg_symbol_id s = 0) outs = cell_run demo_config (0, 0, 0, True) fs"
proof -
  have cfg: "sm_config demo_strategy = demo_config" "sm_num_symbols demo_strategy = 2"
    by (simp_all add: demo_strategy_def)
  have "strategy_family 2 demo_config demo_strategy"
    using demo_strategy_wf by (simp add: strategy_family_def cfg)
  moreover have "\<forall>f\<in>set fs. 0 \<le> ft_symbol_id f \<and> ft_symbol_id f < int 2" using assms by auto
  ultimately obtain outs m' where r: "evaluate_all demo_strategy fs = Inr (outs, m')"
    using strategy_symbols.run_ok unfolding evaluate_all_def by blast
  have "filter (\<lambda>f. ft_symbol_id f = 0) fs = fs" using assms by (simp add: filter_id_conv)
  moreover have "strategy_cell demo_strategy 0 = (0, 0, 0, True)"
    by (simp add: strategy_cell_def demo_strategy_def demo_config_def)
  ultimately show ?thesis using r evaluate_all_cell [OF demo_strategy_wf r, of 0] cfg by auto
qed

lemma demo_eligible:
  "eligible_direction demo_config True (demo_feature 0 2000) = SIGNAL_LONG_CANDIDATE"
  "eligible_direction demo_config True (demo_feature 0 (- 2000)) = SIGNAL_SHORT_CANDIDATE"
  "ft_symbol_id (demo_feature 0 b) = 0" "sc_signal_cooldown_events demo_config = 3"
  "sm_config demo_strategy = demo_config" "sc_symbol_enable demo_config ! 0 = True"
  by (code_simp, code_simp, simp_all add: demo_feature_def demo_config_def demo_strategy_def)

lemma demo_actions:
  "map sg_action (cell_run demo_config (0, 0, 0, True) (replicate 4 (demo_feature 0 2000))) = [1, 0, 0, 1]"
  by code_simp

theorem cooldown_spacing_witness:
  "\<exists>outs m' sigs. evaluate_all demo_strategy (replicate 4 (demo_feature 0 2000)) = Inr (outs, m') \<and>
     sigs = filter (\<lambda>s. sg_symbol_id s = 0) outs \<and> sg_action (sigs ! 0) = 1 \<and> sg_action (sigs ! 3) = 1 \<and>
     sc_signal_cooldown_events (sm_config demo_strategy) \<le> int 3 - int 0"
proof -
  obtain outs m' where r: "evaluate_all demo_strategy (replicate 4 (demo_feature 0 2000)) = Inr (outs, m')"
    "filter (\<lambda>s. sg_symbol_id s = 0) outs =
      cell_run demo_config (0, 0, 0, True) (replicate 4 (demo_feature 0 2000))"
    using demo_evaluate_all [of "replicate 4 (demo_feature 0 2000)"] by (auto simp: demo_eligible)
  define sigs where "sigs = filter (\<lambda>s. sg_symbol_id s = 0) outs"
  have acts: "map sg_action sigs = [1, 0, 0, 1]" unfolding sigs_def r(2) by (rule demo_actions)
  have len: "length sigs = 4" using arg_cong [OF acts, of length] by simp
  have "sg_action (sigs ! j) = [1, 0, 0, 1] ! j" if "j < 4" for j
    using nth_map [of j sigs sg_action] that len acts by simp
  from this [of 0] this [of 3] have "sg_action (sigs ! 0) = 1" "sg_action (sigs ! 3) = 1" by simp_all
  with cooldown_spacing [OF demo_strategy_wf r(1) _ sigs_def, of 0 3] len sigs_def r(1) show ?thesis
    by auto
qed

section \<open>Conditions that persist\<close>

lemma eligible_raw:
  "eligible_direction cfg en f = d \<Longrightarrow> d \<noteq> SIGNAL_NONE \<Longrightarrow> raw_direction cfg f = d"
  using eligible_cases [of cfg en f] by auto

lemma cell_next_eligible:
  assumes "eligible_direction cfg en f = d" "d \<noteq> SIGNAL_NONE"
  shows "cell_next cfg f (p, l, c, en) =
      (d, if cell_fire cfg f (p, l, c, en) then d else l,
       if cell_fire cfg f (p, l, c, en) then sc_signal_cooldown_events cfg
       else if c \<noteq> 0 then c - 1 else c, en)"
    "sg_action (cell_signal cfg f (p, l, c, en)) =
      (if cell_fire cfg f (p, l, c, en) then d else SIGNAL_NONE)"
    "cell_fire cfg f (p, l, c, en) \<longleftrightarrow>
      (d \<noteq> p \<and> c = 0) \<or> (d = l \<and> c = 1 \<and> sc_signal_cooldown_events cfg \<noteq> 0)"
proof -
  have raw: "raw_direction cfg f = d" by (rule eligible_raw [OF assms])
  have on: "sc_strategy_enable cfg" "en" "d = SIGNAL_LONG_CANDIDATE \<longrightarrow> sc_long_enable cfg"
    "d = SIGNAL_SHORT_CANDIDATE \<longrightarrow> sc_short_enable cfg"
    using eligible_cases [of cfg en f] assms raw by auto
  show "cell_next cfg f (p, l, c, en) =
      (d, if cell_fire cfg f (p, l, c, en) then d else l,
       if cell_fire cfg f (p, l, c, en) then sc_signal_cooldown_events cfg
       else if c \<noteq> 0 then c - 1 else c, en)"
    "sg_action (cell_signal cfg f (p, l, c, en)) =
      (if cell_fire cfg f (p, l, c, en) then d else SIGNAL_NONE)"
    using on assms(1) by (auto simp: cell_next_def cell_signal_def Let_def raw)
  show "cell_fire cfg f (p, l, c, en) \<longleftrightarrow>
      (d \<noteq> p \<and> c = 0) \<or> (d = l \<and> c = 1 \<and> sc_signal_cooldown_events cfg \<noteq> 0)"
    using assms by (auto simp: cell_fire_def candidate_fire_of_def Let_def raw)
qed

lemma persistent_run:
  assumes "\<forall>f\<in>set fs. eligible_direction cfg en f = d" "d \<noteq> SIGNAL_NONE"
    and "1 \<le> c" "c \<le> sc_signal_cooldown_events cfg" "k < length fs"
  shows "sg_action (cell_run cfg (d, d, c, en) fs ! k) =
    (if c \<le> int k + 1 \<and> sc_signal_cooldown_events cfg dvd (int k + 1 - c) then d else SIGNAL_NONE)"
  using assms
proof (induction fs arbitrary: c k)
  case Nil
  then show ?case by simp
next
  case (Cons f fs)
  let ?n = "sc_signal_cooldown_events cfg"
  note next_f = cell_next_eligible [of cfg en f d d d c, OF _ Cons.prems(2)]
  have el: "eligible_direction cfg en f = d" using Cons.prems(1) by simp
  have fire: "cell_fire cfg f (d, d, c, en) \<longleftrightarrow> c = 1"
    using next_f(3) [OF el] Cons.prems(3,4) by auto
  show ?case
  proof (cases k)
    case 0
    have "\<not> ?n dvd 1 - c" if "1 < c"
      using that Cons.prems(4) zdvd_imp_le [of ?n "c - 1"] by (auto simp: dvd_diff_commute [of ?n 1 c])
    then show ?thesis
      using next_f(2) [OF el] fire Cons.prems(3) 0 by auto
  next
    case (Suc k')
    have len: "k' < length fs" using Cons.prems(5) Suc by simp
    have all: "\<forall>f\<in>set fs. eligible_direction cfg en f = d" using Cons.prems(1) by simp
    show ?thesis
    proof (cases "c = 1")
      case True
      then have n: "cell_next cfg f (d, d, c, en) = (d, d, ?n, en)" using next_f(1) [OF el] fire by simp
      have "?n \<le> int k' + 1 \<and> ?n dvd (int k' + 1 - ?n) \<longleftrightarrow> ?n dvd (int k' + 1)"
        using zdvd_imp_le [of ?n "int k' + 1"] by (auto simp: dvd_diff_left_iff)
      then show ?thesis
        using Cons.IH [OF all Cons.prems(2) _ _ len, of ?n] Cons.prems(3,4) True Suc n
        by (simp add: add.commute)
    next
      case False
      then have n: "cell_next cfg f (d, d, c, en) = (d, d, c - 1, en)"
        using next_f(1) [OF el] fire Cons.prems(3) by simp
      show ?thesis
        using Cons.IH [OF all Cons.prems(2) _ _ len, of "c - 1"] Cons.prems(3,4) False Suc n
        by (simp add: algebra_simps)
    qed
  qed
qed

lemma persistent_silent:
  assumes "\<forall>f\<in>set fs. eligible_direction cfg en f = d" "d \<noteq> SIGNAL_NONE"
    and "sc_signal_cooldown_events cfg = 0" "k < length fs"
  shows "sg_action (cell_run cfg (d, d, 0, en) fs ! k) = SIGNAL_NONE"
  using assms
proof (induction fs arbitrary: k)
  case Nil
  then show ?case by simp
next
  case (Cons f fs)
  have el: "eligible_direction cfg en f = d" using Cons.prems(1) by simp
  note next_f = cell_next_eligible [OF el Cons.prems(2), where p = d and l = d and c = 0]
  show ?case
    using Cons.IH [of "k - 1"] Cons.prems next_f by (cases k) auto
qed

text \<open>
  Against a running cooldown of the other direction \<open>d\<close>: the condition is recorded as the
  previous one at once, so it is no edge any more when the cooldown has run out.
\<close>

lemma reversal_silent:
  assumes "\<forall>f\<in>set fs. eligible_direction cfg en f = d'" "d' \<noteq> SIGNAL_NONE" "d \<noteq> d'"
    and "0 < c \<and> p = d \<or> 0 \<le> c \<and> p = d'"
  shows "map sg_action (cell_run cfg (p, d, c, en) fs) = replicate (length fs) SIGNAL_NONE"
  using assms
proof (induction fs arbitrary: p c)
  case Nil
  then show ?case by simp
next
  case (Cons f fs)
  have el: "eligible_direction cfg en f = d'" using Cons.prems(1) by simp
  note next_f = cell_next_eligible [OF el Cons.prems(2), where p = p and l = d and c = c]
  have quiet: "\<not> cell_fire cfg f (p, d, c, en)"
    using next_f(3) Cons.prems(3,4) by auto
  show ?case
    using Cons.IH [of "if c \<noteq> 0 then c - 1 else c" d'] Cons.prems quiet next_f by auto
qed

definition quiet_cell :: "cell \<Rightarrow> bool" where
  "quiet_cell = (\<lambda>(previous, emitted, cooldown, _).
     previous = SIGNAL_NONE \<and> emitted = SIGNAL_NONE \<and> cooldown = 0)"

lemma strategy_init_quiet:
  assumes "strategy_init num_symbols config = Inr m" "0 \<le> i" "i < num_symbols"
  shows "quiet_cell (strategy_cell m i)"
  using assms by (auto simp: strategy_init_def quiet_cell_def strategy_cell_def Let_def split: if_splits)

text \<open>
  A candidate condition that persists from a fresh start is emitted at the first
  evaluation and then exactly at every multiple of the configured cooldown; with a cooldown of zero
  it is emitted once and never again.
\<close>

theorem persistent_condition_period:
  assumes "strategy_init num_symbols config = Inr m" "0 \<le> i" "i < num_symbols"
    and "evaluate_all m fs = Inr (outs, m')" "sigs = filter (\<lambda>s. sg_symbol_id s = i) outs"
    and "0 \<le> n" "n = sc_signal_cooldown_events (sm_config m)" "d \<noteq> SIGNAL_NONE"
    and "\<forall>f\<in>set fs. ft_symbol_id f = i \<longrightarrow>
      eligible_direction (sm_config m) (sc_symbol_enable (sm_config m) ! nat i) f = d"
    and "k < length sigs"
  shows "sg_action (sigs ! k) = (if k = 0 \<or> n \<noteq> 0 \<and> n dvd int k then d else SIGNAL_NONE)"
proof -
  let ?cfg = "sm_config m" and ?en = "sc_symbol_enable (sm_config m) ! nat i"
  let ?fs = "filter (\<lambda>f. ft_symbol_id f = i) fs"
  have wf: "strategy_wf m" using strategy_init_family [OF assms(1)] by (simp add: strategy_family_def)
  have cell: "strategy_cell m i = (0, 0, 0, ?en)"
    using strategy_init_quiet [OF assms(1-3)] by (simp add: quiet_cell_def strategy_cell_def)
  have sigs: "sigs = cell_run ?cfg (0, 0, 0, ?en) ?fs"
    using evaluate_all_cell [OF wf assms(4,2)] assms(5) cell by simp
  have all: "\<forall>f\<in>set ?fs. eligible_direction ?cfg ?en f = d" using assms(9) by simp
  obtain f gs where fs: "?fs = f # gs" using assms(10) sigs by (cases ?fs) auto
  have el: "eligible_direction ?cfg ?en f = d" and rest: "\<forall>f\<in>set gs. eligible_direction ?cfg ?en f = d"
    using all unfolding fs by auto
  note first = cell_next_eligible [OF el assms(8), where p = 0 and l = 0 and c = 0]
  have fire: "cell_fire ?cfg f (0, 0, 0, ?en)" using first(3) assms(8) by simp
  show ?thesis
  proof (cases k)
    case 0
    then show ?thesis using first(2) fire by (simp add: sigs fs)
  next
    case (Suc k')
    have n: "cell_next ?cfg f (0, 0, 0, ?en) = (d, d, n, ?en)" using first(1) fire assms(7) by simp
    have len: "k' < length gs" using assms(10) Suc by (simp add: sigs fs)
    have "sg_action (cell_run ?cfg (d, d, n, ?en) gs ! k') =
        (if n \<noteq> 0 \<and> n dvd int (Suc k') then d else SIGNAL_NONE)"
    proof (cases "n = 0")
      case True
      then show ?thesis using persistent_silent [OF rest assms(8) _ len] assms(7) by simp
    next
      case False
      then have "n \<le> int k' + 1 \<and> n dvd (int k' + 1 - n) \<longleftrightarrow> n dvd int (Suc k')"
        using assms(6) zdvd_imp_le [of n "int k' + 1"] by (auto simp: dvd_diff_left_iff add.commute)
      then show ?thesis
        using persistent_run [OF rest assms(8) _ _ len, of n] assms(6,7) False by simp
    qed
    then show ?thesis using Suc n by (simp add: sigs fs)
  qed
qed

theorem persistent_condition_period_witness:
  "\<exists>outs m' sigs. evaluate_all demo_strategy (replicate 4 (demo_feature 0 2000)) = Inr (outs, m') \<and>
     sigs = filter (\<lambda>s. sg_symbol_id s = 0) outs \<and>
     sg_action (sigs ! 2) = SIGNAL_NONE \<and> sg_action (sigs ! 3) = SIGNAL_LONG_CANDIDATE"
proof -
  obtain outs m' where r: "evaluate_all demo_strategy (replicate 4 (demo_feature 0 2000)) = Inr (outs, m')"
    "filter (\<lambda>s. sg_symbol_id s = 0) outs =
      cell_run demo_config (0, 0, 0, True) (replicate 4 (demo_feature 0 2000))"
    using demo_evaluate_all [of "replicate 4 (demo_feature 0 2000)"] by (auto simp: demo_eligible)
  define sigs where "sigs = filter (\<lambda>s. sg_symbol_id s = 0) outs"
  have len: "length sigs = 4" by (simp add: sigs_def r(2))
  have n: "3 = sc_signal_cooldown_events (sm_config demo_strategy)" by (simp add: demo_eligible)
  have el: "\<forall>f\<in>set (replicate 4 (demo_feature 0 2000)). ft_symbol_id f = 0 \<longrightarrow> eligible_direction
      (sm_config demo_strategy) (sc_symbol_enable (sm_config demo_strategy) ! nat 0) f = 1"
    by (simp add: demo_eligible)
  note period = persistent_condition_period [OF demo_strategy_init _ _ r(1) sigs_def _ n _ el]
  have "sg_action (sigs ! 2) = SIGNAL_NONE" using period [of 2] len by simp
  moreover have "sg_action (sigs ! 3) = SIGNAL_LONG_CANDIDATE" using period [of 3] len by simp
  ultimately show ?thesis using r(1) sigs_def by blast
qed

text \<open>
  A reversal that begins while the cooldown of the opposite candidate is running is
  lost for as long as it persists: after a long candidate, a short condition that starts at the next
  evaluation and never lets up is not emitted at all, also not once the cooldown has elapsed (and
  symmetrically).
\<close>

theorem reversal_in_cooldown_is_lost:
  assumes "strategy_init num_symbols config = Inr m" "0 \<le> i" "i < num_symbols"
    and "evaluate_all m fs = Inr (outs, m')" "sigs = filter (\<lambda>s. sg_symbol_id s = i) outs"
    and "0 < sc_signal_cooldown_events (sm_config m)"
    and "d \<noteq> SIGNAL_NONE" "d' \<noteq> SIGNAL_NONE" "d \<noteq> d'"
    and "map (eligible_direction (sm_config m) (sc_symbol_enable (sm_config m) ! nat i))
      (filter (\<lambda>f. ft_symbol_id f = i) fs) = d # replicate k d'"
  shows "map sg_action sigs = d # replicate k SIGNAL_NONE"
proof -
  let ?cfg = "sm_config m" and ?en = "sc_symbol_enable (sm_config m) ! nat i"
  let ?fs = "filter (\<lambda>f. ft_symbol_id f = i) fs"
  have wf: "strategy_wf m" using strategy_init_family [OF assms(1)] by (simp add: strategy_family_def)
  have cell: "strategy_cell m i = (0, 0, 0, ?en)"
    using strategy_init_quiet [OF assms(1-3)] by (simp add: quiet_cell_def strategy_cell_def)
  have sigs: "sigs = cell_run ?cfg (0, 0, 0, ?en) ?fs"
    using evaluate_all_cell [OF wf assms(4,2)] assms(5) cell by simp
  obtain f gs where fs: "?fs = f # gs" "eligible_direction ?cfg ?en f = d"
    "map (eligible_direction ?cfg ?en) gs = replicate k d'"
    using assms(10) by (cases ?fs) auto
  have rest: "\<forall>f\<in>set gs. eligible_direction ?cfg ?en f = d'" "length gs = k"
    using fs(3) by (metis in_set_conv_nth length_map length_replicate nth_map nth_replicate)
      (metis fs(3) length_map length_replicate)
  note first = cell_next_eligible [OF fs(2) assms(7), where p = 0 and l = 0 and c = 0]
  have fire: "cell_fire ?cfg f (0, 0, 0, ?en)" using first(3) assms(7) by simp
  then have "cell_next ?cfg f (0, 0, 0, ?en) = (d, d, sc_signal_cooldown_events ?cfg, ?en)"
    using first(1) by simp
  moreover have "map sg_action (cell_run ?cfg (d, d, sc_signal_cooldown_events ?cfg, ?en) gs) =
      replicate k SIGNAL_NONE"
    using reversal_silent [OF rest(1) assms(8,9), of "sc_signal_cooldown_events ?cfg" d] assms(6) rest(2)
    by simp
  ultimately show ?thesis using first(2) fire by (simp add: sigs fs)
qed

theorem reversal_in_cooldown_is_lost_witness:
  "\<exists>outs m'. evaluate_all demo_strategy (demo_feature 0 2000 # replicate 9 (demo_feature 0 (- 2000))) =
     Inr (outs, m') \<and>
     map sg_action (filter (\<lambda>s. sg_symbol_id s = 0) outs) =
       SIGNAL_LONG_CANDIDATE # replicate 9 SIGNAL_NONE"
proof -
  let ?fs = "demo_feature 0 2000 # replicate 9 (demo_feature 0 (- 2000))"
  obtain outs m' where r: "evaluate_all demo_strategy ?fs = Inr (outs, m')"
    using demo_evaluate_all [of ?fs] by (auto simp: demo_eligible)
  have el: "map (eligible_direction (sm_config demo_strategy) (sc_symbol_enable (sm_config demo_strategy) ! nat 0))
      (filter (\<lambda>f. ft_symbol_id f = 0) ?fs) = SIGNAL_LONG_CANDIDATE # replicate 9 SIGNAL_SHORT_CANDIDATE"
    by (simp add: demo_eligible)
  show ?thesis
    using reversal_in_cooldown_is_lost [OF demo_strategy_init _ _ r refl _ _ _ _ el] r
    by (simp add: demo_eligible)
qed

section \<open>The invariant of all operations\<close>

definition metrics_consistent :: "strategy_metrics \<Rightarrow> bool" where
  "metrics_consistent mt \<longleftrightarrow>
     mt_evaluated mt = mt_no_action mt + mt_long_candidates mt + mt_short_candidates mt \<and>
     0 \<le> mt_long_candidates mt \<and> 0 \<le> mt_short_candidates mt \<and>
     0 \<le> mt_invalid mt \<and> mt_invalid mt \<le> mt_no_action mt \<and>
     0 \<le> mt_suppressed mt \<and> mt_suppressed mt \<le> mt_no_action mt"

definition cell_inv :: "int \<Rightarrow> cell \<Rightarrow> bool" where
  "cell_inv n = (\<lambda>(previous, emitted, cooldown, _).
     previous \<in> {SIGNAL_NONE, SIGNAL_LONG_CANDIDATE, SIGNAL_SHORT_CANDIDATE} \<and>
     emitted \<in> {SIGNAL_NONE, SIGNAL_LONG_CANDIDATE, SIGNAL_SHORT_CANDIDATE} \<and>
     0 \<le> cooldown \<and> cooldown \<le> n \<and> (0 < cooldown \<longrightarrow> emitted \<noteq> SIGNAL_NONE))"

definition strategy_inv :: "int \<Rightarrow> strategy_model \<Rightarrow> bool" where
  "strategy_inv n m \<longleftrightarrow> strategy_wf m \<and> sc_signal_cooldown_events (sm_config m) = n \<and>
     (\<forall>i. strategy_symbol m i \<longrightarrow> cell_inv n (strategy_cell m i)) \<and> metrics_consistent (sm_metrics m)"

text \<open>Every operation the class offers, as a step of the engine.\<close>

inductive strategy_step :: "strategy_model \<Rightarrow> strategy_model \<Rightarrow> bool" where
  evaluates: "evaluate m f = Inr (s, m') \<Longrightarrow> strategy_step m m'"
| resets: "strategy_step m (strategy_reset_state b m)"
| resets_symbol: "reset_symbol i m = Inr m' \<Longrightarrow> strategy_step m m'"
| enables: "set_symbol_enabled i b m = Inr m' \<Longrightarrow> strategy_step m m'"

inductive strategy_reachable :: "strategy_model \<Rightarrow> strategy_model \<Rightarrow> bool" for m0 where
  start: "strategy_reachable m0 m0"
| step: "strategy_reachable m0 m \<Longrightarrow> strategy_step m m' \<Longrightarrow> strategy_reachable m0 m'"

lemma cell_inv_next:
  assumes n: "0 \<le> sc_signal_cooldown_events cfg" and inv: "cell_inv (sc_signal_cooldown_events cfg) cell"
  shows "cell_inv (sc_signal_cooldown_events cfg) (cell_next cfg f cell)"
proof -
  obtain p l c en where cell: "cell = (p, l, c, en)" by (cases cell)
  have raw: "raw_direction cfg f \<in> {SIGNAL_NONE, SIGNAL_LONG_CANDIDATE, SIGNAL_SHORT_CANDIDATE}"
    using raw_direction_cases [of cfg f] by blast
  have prev: "fst (cell_next cfg f cell) \<in> {SIGNAL_NONE, SIGNAL_LONG_CANDIDATE, SIGNAL_SHORT_CANDIDATE}"
    using raw by (simp add: cell cell_next_def Let_def)
  show ?thesis
  proof (cases "cell_fire cfg f cell")
    case True
    then have "eligible_direction cfg en f \<noteq> SIGNAL_NONE"
      by (auto simp: cell cell_fire_def dest: candidate_fire_eligible)
    then show ?thesis
      using True n prev eligible_range [of cfg en f] by (simp add: cell cell_inv_def cell_next_def Let_def)
  next
    case False
    then show ?thesis
      using inv n prev by (simp add: cell cell_inv_def cell_next_def Let_def)
  qed
qed

lemma cell_metrics_consistent:
  "metrics_consistent mt \<Longrightarrow> metrics_consistent (cell_metrics cfg f cell mt)"
proof -
  assume "metrics_consistent mt"
  moreover have "feature_set_valid f" if "sg_action (cell_signal cfg f cell) \<noteq> SIGNAL_NONE"
    using eligible_cases [of cfg "snd (snd (snd cell))" f] cell_signal_fired [OF that] by auto
  ultimately show ?thesis
    using cell_action_range [of cfg f cell] cell_fire_iff_action [of cfg f cell]
    by (auto simp: metrics_consistent_def cell_metrics_def count_metrics_def Let_def)
qed

lemma strategy_step_inv:
  assumes "strategy_step m m'" "0 \<le> n" "strategy_inv n m"
  shows "strategy_inv n m'"
  using assms
proof cases
  case (evaluates f s)
  have wf: "strategy_wf m" using assms(3) by (simp add: strategy_inv_def)
  note valid = evaluate_InrD(2) [OF wf evaluates]
  from evaluate_cell [OF wf valid] evaluates have
    m': "strategy_wf m'" "sm_config m' = sm_config m" "sm_num_symbols m' = sm_num_symbols m"
    "strategy_cell m' (ft_symbol_id f) = cell_next (sm_config m) f (strategy_cell m (ft_symbol_id f))"
    "\<And>k. 0 \<le> k \<Longrightarrow> k \<noteq> ft_symbol_id f \<Longrightarrow> strategy_cell m' k = strategy_cell m k"
    "sm_metrics m' = cell_metrics (sm_config m) f (strategy_cell m (ft_symbol_id f)) (sm_metrics m)"
    by auto
  have "cell_inv n (strategy_cell m' i)" if "strategy_symbol m' i" for i
    using that m'(3-5) assms(2,3) valid cell_inv_next [of "sm_config m"]
    by (cases "i = ft_symbol_id f") (auto simp: strategy_inv_def strategy_symbol_def)
  with m' assms(3) show ?thesis
    by (simp add: strategy_inv_def cell_metrics_consistent)
next
  case (resets b)
  have fields: "sm_num_symbols m' = sm_num_symbols m" "sm_config m' = sm_config m"
    "sm_previous_condition m' = replicate (sm_num_symbols m) 0"
    "sm_last_emitted_action m' = replicate (sm_num_symbols m) 0"
    "sm_cooldown_remaining m' = replicate (sm_num_symbols m) 0"
    "sm_metrics m' = (if b then zero_metrics else sm_metrics m)"
    by (simp_all add: resets strategy_reset_state_def Let_def)
  have "cell_inv n (strategy_cell m' i)" if "strategy_symbol m' i" for i
    using that assms(2) by (auto simp: strategy_symbol_def strategy_cell_def cell_inv_def fields)
  moreover have "metrics_consistent (sm_metrics m')"
    using assms(3) by (simp add: fields strategy_inv_def metrics_consistent_def zero_metrics_def)
  ultimately show ?thesis
    using assms(3) by (simp add: strategy_inv_def strategy_wf_def fields)
next
  case (resets_symbol i)
  then have fields: "sm_num_symbols m' = sm_num_symbols m" "sm_config m' = sm_config m"
    "sm_previous_condition m' = (sm_previous_condition m)[nat i := 0]"
    "sm_last_emitted_action m' = (sm_last_emitted_action m)[nat i := 0]"
    "sm_cooldown_remaining m' = (sm_cooldown_remaining m)[nat i := 0]"
    "sm_metrics m' = sm_metrics m"
    unfolding reset_symbol_def by (auto simp: rbind_eq_Inr py_set_Inr_iff)
  have "cell_inv n (strategy_cell m' k)" if "strategy_symbol m' k" for k
  proof -
    have "cell_inv n (strategy_cell m k)" and "strategy_wf m"
      using assms(3) that by (auto simp: strategy_inv_def strategy_symbol_def fields)
    moreover have "nat k < sm_num_symbols m" using that by (auto simp: strategy_symbol_def fields)
    ultimately show ?thesis
      using assms(2)
      by (cases "nat k = nat i") (simp_all add: strategy_cell_def cell_inv_def fields strategy_wf_def)
  qed
  then show ?thesis
    using assms(3) by (simp add: strategy_inv_def strategy_wf_def fields)
next
  case (enables i b)
  then have fields: "sm_num_symbols m' = sm_num_symbols m"
    "sm_config m' = (sm_config m)\<lparr>sc_symbol_enable := (sc_symbol_enable (sm_config m))[nat i := b]\<rparr>"
    "sm_previous_condition m' = sm_previous_condition m"
    "sm_last_emitted_action m' = sm_last_emitted_action m"
    "sm_cooldown_remaining m' = sm_cooldown_remaining m" "sm_metrics m' = sm_metrics m"
    unfolding set_symbol_enabled_def by (auto simp: rbind_eq_Inr py_set_Inr_iff)
  have "cell_inv n (strategy_cell m' k)" if "strategy_symbol m' k" for k
    using assms(3) that
    by (simp add: strategy_inv_def strategy_symbol_def strategy_cell_def cell_inv_def fields)
  then show ?thesis
    using assms(3) by (simp add: strategy_inv_def strategy_wf_def fields)
qed

text \<open>
  Every state the engine can reach through evaluations, resets and enable switches keeps
  its lists at the configured length, its cooldowns between zero and the configured one, its
  recorded conditions and actions among the three codes, and its counters consistent: evaluations
  split into long, short and no action, and neither invalid nor suppressed evaluations exceed
  those without action.
\<close>

theorem strategy_reachable_invariant:
  assumes "strategy_init num_symbols config = Inr m0" "strategy_reachable m0 m"
    and "0 \<le> sc_signal_cooldown_events (sm_config m0)"
  shows "strategy_inv (sc_signal_cooldown_events (sm_config m0)) m"
  using assms(2)
proof induction
  case start
  have "cell_inv (sc_signal_cooldown_events (sm_config m0)) (strategy_cell m0 i)"
    if "strategy_symbol m0 i" for i
    using strategy_init_quiet [OF assms(1), of i] strategy_init_family [OF assms(1)] that assms(3)
    by (auto simp: strategy_symbol_def quiet_cell_def cell_inv_def)
  moreover have "sm_metrics m0 = zero_metrics"
    using assms(1) by (auto simp: strategy_init_def Let_def split: if_splits)
  ultimately show ?case
    using strategy_init_family [OF assms(1)]
    by (simp add: strategy_inv_def strategy_family_def metrics_consistent_def zero_metrics_def)
next
  case (step m m')
  then show ?case using strategy_step_inv assms(3) by blast
qed

theorem strategy_reachable_invariant_witness:
  "\<exists>m. strategy_reachable demo_strategy m \<and> m \<noteq> demo_strategy \<and> strategy_inv 3 m"
proof -
  obtain m where m: "set_symbol_enabled 0 False demo_strategy = Inr m"
    "sc_symbol_enable (sm_config m) = [False, True]"
    by (simp add: set_symbol_enabled_def check_symbol_def demo_strategy_def demo_config_def)
  have "sc_symbol_enable (sm_config demo_strategy) = [True, True]"
    by (simp add: demo_strategy_def demo_config_def)
  then have m_new: "m \<noteq> demo_strategy" using m(2) by auto
  have r: "strategy_reachable demo_strategy m"
    using m(1) by (blast intro: strategy_reachable.intros strategy_step.intros)
  have "0 \<le> sc_signal_cooldown_events (sm_config demo_strategy)" by (simp add: demo_eligible)
  from strategy_reachable_invariant [OF demo_strategy_init r this] r m_new show ?thesis
    by (auto simp: demo_eligible)
qed

end
