(* ===== verification/Python_Text.thy ===== *)
theory Python_Text
  imports Trading_Prelude
begin

text \<open>
  The Python string operations the event readers use, on strings of Latin-1 characters:
  \<open>str.strip\<close>, \<open>str.lower\<close>, \<open>int(text, 0)\<close>, \<open>str(n)\<close> and \<open>format(n, "02x")\<close>, with the law that
  reading back a printed integer gives the integer.
\<close>

section \<open>Whitespace and case\<close>

definition char_code :: "char \<Rightarrow> nat" where
  "char_code c = of_char c"

definition py_space :: "char \<Rightarrow> bool" where
  "py_space c \<longleftrightarrow> (let n = char_code c in 9 \<le> n \<and> n \<le> 13 \<or> 28 \<le> n \<and> n \<le> 32 \<or> n = 133 \<or> n = 160)"

definition py_strip :: "string \<Rightarrow> string" where
  "py_strip s = rev (dropWhile py_space (rev (dropWhile py_space s)))"

definition py_lower_char :: "char \<Rightarrow> char" where
  "py_lower_char c =
     (let n = char_code c in
      if 65 \<le> n \<and> n \<le> 90 \<or> 192 \<le> n \<and> n \<le> 222 \<and> n \<noteq> 215 then char_of (n + 32) else c)"

definition py_lower :: "string \<Rightarrow> string" where
  "py_lower s = map py_lower_char s"

section \<open>Reading integers\<close>

definition digit_value :: "char \<Rightarrow> nat option" where
  "digit_value c =
     (let n = char_code c in
      if 48 \<le> n \<and> n \<le> 57 then Some (n - 48)
      else if 97 \<le> n \<and> n \<le> 122 then Some (n - 87)
      else if 65 \<le> n \<and> n \<le> 90 then Some (n - 55) else None)"

definition digit_in :: "nat \<Rightarrow> char \<Rightarrow> nat option" where
  "digit_in b c = (case digit_value c of None \<Rightarrow> None | Some d \<Rightarrow> if d < b then Some d else None)"

text \<open>Digits, with single underscores between them.\<close>

fun read_digits :: "nat \<Rightarrow> nat \<Rightarrow> string \<Rightarrow> nat option" where
  "read_digits b acc [] = Some acc"
| "read_digits b acc (c # cs) =
     (if c = CHR ''_'' then
        (case cs of [] \<Rightarrow> None
         | c' # cs' \<Rightarrow> (case digit_in b c' of None \<Rightarrow> None | Some d \<Rightarrow> read_digits b (acc * b + d) cs'))
      else (case digit_in b c of None \<Rightarrow> None | Some d \<Rightarrow> read_digits b (acc * b + d) cs))"

text \<open>A number literal without its sign: a prefix gives the base; no leading zeros in decimal.\<close>

definition read_literal :: "string \<Rightarrow> nat option" where
  "read_literal s =
     (case s of [] \<Rightarrow> None
      | c # cs \<Rightarrow>
          if c = CHR ''0'' \<and> cs \<noteq> [] \<and> hd cs \<in> {CHR ''x'', CHR ''X''}
          then (if tl cs = [] then None else read_digits 16 0 (tl cs))
          else if c = CHR ''0'' \<and> cs \<noteq> [] \<and> hd cs \<in> {CHR ''o'', CHR ''O''}
          then (if tl cs = [] then None else read_digits 8 0 (tl cs))
          else if c = CHR ''0'' \<and> cs \<noteq> [] \<and> hd cs \<in> {CHR ''b'', CHR ''B''}
          then (if tl cs = [] then None else read_digits 2 0 (tl cs))
          else if c = CHR ''_'' then None
          else (case read_digits 10 0 s of None \<Rightarrow> None
                | Some n \<Rightarrow> if c = CHR ''0'' \<and> n \<noteq> 0 then None else Some n))"

definition py_int_text :: "string \<Rightarrow> int option" where
  "py_int_text s =
     (case py_strip s of [] \<Rightarrow> None
      | c # cs \<Rightarrow>
          if c = CHR ''-'' then map_option (\<lambda>n. - int n) (read_literal cs)
          else if c = CHR ''+'' then map_option int (read_literal cs)
          else map_option int (read_literal (c # cs)))"

text \<open>\<open>int(text)\<close>: base ten, where leading zeros are allowed.\<close>

definition read_decimal :: "string \<Rightarrow> nat option" where
  "read_decimal s = (if s = [] \<or> hd s = CHR ''_'' then None else read_digits 10 0 s)"

definition py_int10 :: "string \<Rightarrow> int option" where
  "py_int10 s =
     (case py_strip s of [] \<Rightarrow> None
      | c # cs \<Rightarrow>
          if c = CHR ''-'' then map_option (\<lambda>n. - int n) (read_decimal cs)
          else if c = CHR ''+'' then map_option int (read_decimal cs)
          else map_option int (read_decimal (c # cs)))"

section \<open>Printing integers\<close>

definition digit_char :: "nat \<Rightarrow> char" where
  "digit_char d = char_of (if d < 10 then 48 + d else 87 + d)"

function print_digits :: "nat \<Rightarrow> nat \<Rightarrow> string" where
  "print_digits b n =
     (if b < 2 \<or> n < b then [digit_char n] else print_digits b (n div b) @ [digit_char (n mod b)])"
  by pat_completeness auto
termination by (relation "measure (\<lambda>(b, n). n)") (auto intro: div_less_dividend)

declare print_digits.simps [simp del]

definition py_str_int :: "int \<Rightarrow> string" where
  "py_str_int n = (if n < 0 then ''-'' @ print_digits 10 (nat (- n)) else print_digits 10 (nat n))"

text \<open>\<open>f"0x{n:02x}"\<close>: the sign of a negative number comes after the prefix.\<close>

definition pad_2 :: "string \<Rightarrow> string" where
  "pad_2 s = (if length s < 2 then CHR ''0'' # s else s)"

definition py_hex_02 :: "int \<Rightarrow> string" where
  "py_hex_02 n =
     ''0x'' @ (if n < 0 then ''-'' @ print_digits 16 (nat (- n)) else pad_2 (print_digits 16 (nat n)))"

section \<open>Reading back what was printed\<close>

lemma char_code_char_of [simp]: "n < 256 \<Longrightarrow> char_code (char_of n) = n"
  by (simp add: char_code_def)

lemma char_code_eq_iff: "char_code c = char_code d \<longleftrightarrow> c = d"
  by (simp add: char_code_def)

lemma digit_char_code: "d < 16 \<Longrightarrow> char_code (digit_char d) = (if d < 10 then 48 + d else 87 + d)"
  by (simp add: digit_char_def)

lemma digit_in_digit_char: "d < b \<Longrightarrow> b \<le> 16 \<Longrightarrow> digit_in b (digit_char d) = Some d"
  using digit_char_code [of d] by (auto simp: digit_in_def digit_value_def Let_def)

definition plain_digit :: "char \<Rightarrow> bool" where
  "plain_digit c \<longleftrightarrow> (let n = char_code c in 48 \<le> n \<and> n \<le> 57 \<or> 97 \<le> n \<and> n \<le> 102)"

lemma plain_digit_char: "d < 16 \<Longrightarrow> plain_digit (digit_char d)"
  using digit_char_code [of d] by (simp add: plain_digit_def Let_def)

lemma plain_digit_other:
  assumes "plain_digit c"
  shows "c \<noteq> CHR ''_''" "c \<noteq> CHR ''-''" "c \<noteq> CHR ''+''" "\<not> py_space c" "py_lower_char c = c"
    "c \<noteq> CHR ''x''" "c \<noteq> CHR ''X''" "c \<noteq> CHR ''o''" "c \<noteq> CHR ''O''" "c \<noteq> CHR ''B''"
  using assms by (auto simp: plain_digit_def py_space_def py_lower_char_def char_code_def Let_def)

lemma print_digits_plain:
  "2 \<le> b \<Longrightarrow> b \<le> 16 \<Longrightarrow> list_all plain_digit (print_digits b n) \<and> print_digits b n \<noteq> []"
proof (induction b n rule: print_digits.induct)
  case (1 b n)
  then have "n mod b < 16" using mod_less_divisor [of b n] by linarith
  with 1 show ?case
    by (subst (1 2) print_digits.simps) (auto simp: plain_digit_char not_less)
qed

lemma read_digits_snoc:
  "list_all plain_digit cs \<Longrightarrow> read_digits b acc (cs @ [c]) =
     (case read_digits b acc cs of None \<Rightarrow> None
      | Some n \<Rightarrow> if c = CHR ''_'' then None
                  else (case digit_in b c of None \<Rightarrow> None | Some d \<Rightarrow> Some (n * b + d)))"
  by (induction cs arbitrary: acc) (auto simp: plain_digit_other split: option.splits)

lemma read_print_digits:
  "2 \<le> b \<Longrightarrow> b \<le> 16 \<Longrightarrow> read_digits b 0 (print_digits b n) = Some n"
proof (induction b n rule: print_digits.induct)
  case (1 b n)
  show ?case
  proof (cases "n < b")
    case True
    then show ?thesis
      using 1(2,3) plain_digit_other(1) [OF plain_digit_char [of n]]
      by (subst print_digits.simps) (simp add: digit_in_digit_char)
  next
    case False
    then have "n mod b < b" "n mod b < 16" using 1(2,3) by (auto intro: less_le_trans [of _ b])
    then show ?thesis
      using 1 False print_digits_plain [OF 1(2,3), of "n div b"]
      by (subst print_digits.simps)
        (simp add: read_digits_snoc digit_in_digit_char plain_digit_other(1) [OF plain_digit_char])
  qed
qed

lemma print_digits_hd: "2 \<le> b \<Longrightarrow> b \<le> 16 \<Longrightarrow> 0 < n \<Longrightarrow> hd (print_digits b n) \<noteq> CHR ''0''"
proof (induction b n rule: print_digits.induct)
  case (1 b n)
  show ?case
  proof (cases "n < b")
    case True
    then have "char_code (digit_char n) \<noteq> 48" using 1(3,4) digit_char_code [of n] 1(2) by auto
    moreover have "char_code (CHR ''0'') = 48" by (simp add: char_code_def)
    ultimately show ?thesis using True by (subst print_digits.simps) (auto simp flip: char_code_eq_iff)
  next
    case False
    then have "0 < n div b" using 1(2) by (simp add: div_greater_zero_iff)
    with False 1 print_digits_plain [OF 1(2,3), of "n div b"] show ?thesis
      by (subst print_digits.simps) simp
  qed
qed

lemma strip_plain:
  assumes "list_all (\<lambda>c. \<not> py_space c) s"
  shows "py_strip s = s"
proof -
  have "dropWhile py_space t = t" if "list_all (\<lambda>c. \<not> py_space c) t" for t
    using that by (cases t) simp_all
  with assms show ?thesis by (simp add: py_strip_def)
qed

lemma not_space [simp]: "\<not> py_space (CHR ''-'')" "\<not> py_space (CHR ''0'')" "\<not> py_space (CHR ''x'')"
  by (simp_all add: py_space_def char_code_def)

lemma plain_not_space: "list_all plain_digit s \<Longrightarrow> list_all (\<lambda>c. \<not> py_space c) s"
  by (auto simp: list_all_iff dest: plain_digit_other(4))

lemma read_literal_decimal: "read_literal (print_digits 10 n) = Some n"
proof -
  obtain c cs where p: "print_digits 10 n = c # cs" "list_all plain_digit (c # cs)"
    using print_digits_plain [of 10 n] by (cases "print_digits 10 n") auto
  have r: "read_digits 10 0 (c # cs) = Some n" using read_print_digits [of 10 n] p(1) by simp
  have "c = CHR ''0'' \<Longrightarrow> n = 0" using print_digits_hd [of 10 n] p(1) by auto
  moreover from this have "c = CHR ''0'' \<Longrightarrow> cs = []"
    using p(1) by (subst (asm) print_digits.simps) simp
  moreover have "c \<noteq> CHR ''_''" using p(2) plain_digit_other(1) by auto
  ultimately show ?thesis
    unfolding p(1) read_literal_def using r by (auto simp del: read_digits.simps)
qed

theorem py_int_text_str: "py_int_text (py_str_int n) = Some n"
proof -
  have "list_all plain_digit (print_digits 10 k)" "print_digits 10 k \<noteq> []" for k
    using print_digits_plain [of 10 k] by simp_all
  then have s: "py_strip (print_digits 10 k) = print_digits 10 k"
      "py_strip (CHR ''-'' # print_digits 10 k) = CHR ''-'' # print_digits 10 k" for k
    by (simp_all add: strip_plain plain_not_space)
  show ?thesis
  proof (cases "n < 0")
    case True
    then show ?thesis by (simp add: py_int_text_def py_str_int_def s read_literal_decimal)
  next
    case False
    obtain c cs where p: "print_digits 10 (nat n) = c # cs" "plain_digit c"
      using print_digits_plain [of 10 "nat n"] by (cases "print_digits 10 (nat n)") auto
    then show ?thesis
      using False read_literal_decimal [of "nat n"] s(1) [of "nat n"]
      by (simp add: py_int_text_def py_str_int_def plain_digit_other)
  qed
qed

lemma py_int_text_hex: "0 \<le> n \<Longrightarrow> py_int_text (py_hex_02 n) = Some n"
proof -
  assume n: "0 \<le> n"
  let ?d = "print_digits 16 (nat n)"
  have d: "list_all plain_digit ?d" "?d \<noteq> []" using print_digits_plain [of 16 "nat n"] by simp_all
  have zero: "plain_digit (CHR ''0'')" "digit_in 16 (CHR ''0'') = Some 0"
    by (simp_all add: plain_digit_def char_code_def digit_in_def digit_value_def)
  have p: "list_all plain_digit (pad_2 ?d)" "pad_2 ?d \<noteq> []" "read_digits 16 0 (pad_2 ?d) = Some (nat n)"
    using d zero read_print_digits [of 16 "nat n"] by (auto simp: pad_2_def)
  have "list_all (\<lambda>c. \<not> py_space c) (CHR ''0'' # CHR ''x'' # pad_2 ?d)"
    using p(1) by (simp add: plain_not_space)
  then have "py_strip (CHR ''0'' # CHR ''x'' # pad_2 ?d) = CHR ''0'' # CHR ''x'' # pad_2 ?d"
    by (rule strip_plain)
  then show ?thesis
    using n p by (simp add: py_int_text_def py_hex_02_def read_literal_def)
qed

end
