(* ===== verification/Canonical_Events.thy ===== *)
theory Canonical_Events
  imports Python_Text Packet_Integrity "HOL-Library.Product_Lexorder"
begin

text \<open>
  \<open>tools/backtest/canonical.py\<close>: the normalized event, its CSV and binary readers and writers,
  the global event order and the assignment of replay sequences.

  A text file is the list of its lines without their terminators; the standard \<open>csv\<close> module is
  modelled for cells without quotes, commas or line breaks, which is what the writer emits. A
  generator is a \<open>stream\<close>: what it yields, and the exception that ends it if one does. The message
  of an invalid cell is kept without the \<open>repr\<close> of the cell. Session dates of timestamps come from
  \<open>datetime\<close> and a time-zone database; they are a function argument.
\<close>

section \<open>Events\<close>

record normalized_event =
  ne_timestamp_ns :: int
  ne_event_type :: int
  ne_symbol_id :: int
  ne_price :: int
  ne_quantity :: int
  ne_side :: int
  ne_sequence :: "int option"
  ne_flags :: int
  ne_source_index :: int
  ne_source :: string

definition to_market_event :: "normalized_event \<Rightarrow> int option \<Rightarrow> market_event result" where
  "to_market_event e sequence =
     (let resolved = (case sequence of None \<Rightarrow> ne_sequence e | Some s \<Rightarrow> Some s) in
      case resolved of
        None \<Rightarrow> Inl (CanonicalFormatError ''event sequence is not assigned'')
      | Some s \<Rightarrow> Inr
          \<lparr>ev_message_type = ne_event_type e, ev_symbol_id = ne_symbol_id e,
           ev_timestamp_ns = ne_timestamp_ns e, ev_price = ne_price e,
           ev_quantity = ne_quantity e, ev_side = ne_side e, ev_sequence = s,
           ev_flags = ne_flags e\<rparr>)"

definition with_sequence :: "normalized_event \<Rightarrow> int \<Rightarrow> normalized_event" where
  "with_sequence e s = e\<lparr>ne_sequence := Some s\<rparr>"

section \<open>Cells and rows\<close>

text \<open>A cell of a \<open>csv.DictReader\<close> row: \<open>None\<close> where the row is shorter than the header.\<close>

type_synonym cell = "string option"
type_synonym csv_row = "(string \<times> cell) list"

definition row_location :: "int option \<Rightarrow> string" where
  "row_location row_number = (case row_number of None \<Rightarrow> [] | Some n \<Rightarrow> '' on row '' @ py_str_int n)"

definition blank_cell :: "cell \<Rightarrow> bool" where
  "blank_cell value = (case value of None \<Rightarrow> True | Some s \<Rightarrow> py_strip s = [])"

definition parse_int :: "cell \<Rightarrow> string \<Rightarrow> int option \<Rightarrow> int result" where
  "parse_int value field row_number =
     (case value of
        None \<Rightarrow> Inl (CanonicalFormatError (''missing '' @ field @ row_location row_number))
      | Some s \<Rightarrow>
          if py_strip s = []
          then Inl (CanonicalFormatError (''missing '' @ field @ row_location row_number))
          else case py_int_text s of
            Some n \<Rightarrow> Inr n
          | None \<Rightarrow> Inl (CanonicalFormatError (''invalid '' @ field @ row_location row_number)))"

definition EVENT_TYPES :: "(string \<times> int) list" where
  "EVENT_TYPES =
     [(''quote'', MSG_MARKET_QUOTE), (''market_quote'', MSG_MARKET_QUOTE),
      (''trade'', MSG_MARKET_TRADE), (''market_trade'', MSG_MARKET_TRADE)]"

definition EVENT_NAMES :: "(int \<times> string) list" where
  "EVENT_NAMES = [(MSG_MARKET_QUOTE, ''quote''), (MSG_MARKET_TRADE, ''trade'')]"

definition parse_event_type :: "cell \<Rightarrow> int \<Rightarrow> int result" where
  "parse_event_type value row_number =
     (if blank_cell value
      then Inl (CanonicalFormatError (''missing event_type on row '' @ py_str_int row_number))
      else
        let text = py_lower (py_strip (the value)) in
        case map_of EVENT_TYPES text of
          Some t \<Rightarrow> Inr t
        | None \<Rightarrow> parse_int (Some text) ''event_type'' (Some row_number))"

definition event_type_name :: "int \<Rightarrow> string" where
  "event_type_name t = (case map_of EVENT_NAMES t of Some s \<Rightarrow> s | None \<Rightarrow> py_hex_02 t)"

text \<open>
  \<open>str(mapping.get(field, "")).strip() == ""\<close>: an absent field is blank, but the \<open>None\<close> of a
  short row prints as \<open>None\<close> and is not.
\<close>

definition optional_blank :: "csv_row \<Rightarrow> string \<Rightarrow> bool" where
  "optional_blank mapping field =
     (case map_of mapping field of None \<Rightarrow> True | Some None \<Rightarrow> False
      | Some (Some s) \<Rightarrow> py_strip s = [])"

definition mapping_get :: "csv_row \<Rightarrow> string \<Rightarrow> cell" where
  "mapping_get mapping field = (case map_of mapping field of None \<Rightarrow> Some [] | Some v \<Rightarrow> v)"

definition event_from_mapping :: "csv_row \<Rightarrow> int \<Rightarrow> string \<Rightarrow> normalized_event result" where
  "event_from_mapping mapping row_number source =
     (let timestamp_key = (if map_of mapping ''timestamp_ns'' \<noteq> None then ''timestamp_ns'' else ''timestamp'');
          required = [timestamp_key, ''event_type'', ''symbol_id'', ''price'', ''quantity'', ''side''];
          number = (\<lambda>field. parse_int (mapping_get mapping field) field (Some row_number)) in
      case filter (\<lambda>field. map_of mapping field = None) required of
        field # _ \<Rightarrow> Inl (CanonicalFormatError (''missing '' @ field @ '' on row '' @ py_str_int row_number))
      | [] \<Rightarrow>
        rbind (if optional_blank mapping ''sequence'' then Inr None
               else rbind (number ''sequence'') (\<lambda>n. Inr (Some n))) (\<lambda>sequence.
        rbind (number timestamp_key) (\<lambda>timestamp_ns.
        rbind (parse_event_type (mapping_get mapping ''event_type'') row_number) (\<lambda>event_type.
        rbind (number ''symbol_id'') (\<lambda>symbol_id.
        rbind (number ''price'') (\<lambda>price.
        rbind (number ''quantity'') (\<lambda>quantity.
        rbind (number ''side'') (\<lambda>side.
        rbind (if optional_blank mapping ''flags'' then Inr 0 else number ''flags'') (\<lambda>flags.
        Inr \<lparr>ne_timestamp_ns = timestamp_ns, ne_event_type = event_type, ne_symbol_id = symbol_id,
             ne_price = price, ne_quantity = quantity, ne_side = side, ne_sequence = sequence,
             ne_flags = flags, ne_source_index = max (row_number - 2) 0,
             ne_source = source\<rparr>)))))))))"

section \<open>CSV files\<close>

fun split_on :: "char \<Rightarrow> string \<Rightarrow> string list" where
  "split_on d [] = [[]]"
| "split_on d (c # cs) =
     (if c = d then [] # split_on d cs
      else case split_on d cs of [] \<Rightarrow> [[c]] | w # ws \<Rightarrow> (c # w) # ws)"

fun join_with :: "string \<Rightarrow> string list \<Rightarrow> string" where
  "join_with sep [] = []"
| "join_with sep [w] = w"
| "join_with sep (w # v # ws) = w @ sep @ join_with sep (v # ws)"

definition row_of :: "string list \<Rightarrow> string list \<Rightarrow> csv_row" where
  "row_of header cells =
     rev (zip header (map Some cells @ replicate (length header - length cells) None))"

definition data_line :: "string \<Rightarrow> bool" where
  "data_line line \<longleftrightarrow> py_strip line \<noteq> [] \<and> hd (dropWhile py_space line) \<noteq> CHR ''#''"

definition missing_columns :: "string list \<Rightarrow> string list" where
  "missing_columns header =
     filter (\<lambda>f. f \<notin> set header)
       ([''event_type'', ''price'', ''quantity'', ''side'', ''symbol_id''] @
        (if ''timestamp_ns'' \<in> set header \<or> ''timestamp'' \<in> set header then [] else [''timestamp_ns'']))"

fun read_rows :: "string list \<Rightarrow> string \<Rightarrow> int \<Rightarrow> string list \<Rightarrow> normalized_event list result" where
  "read_rows header path n [] = Inr []"
| "read_rows header path n (line # ls) =
     rbind (event_from_mapping (row_of header (split_on (CHR '','') line)) n path) (\<lambda>e.
     rbind (read_rows header path (n + 1) ls) (\<lambda>es. Inr (e # es)))"

definition read_csv_events :: "string \<Rightarrow> string list \<Rightarrow> normalized_event list result" where
  "read_csv_events path file =
     (case filter data_line file of
        [] \<Rightarrow> Inl (CanonicalFormatError (path @ '' has no CSV header''))
      | first # ls \<Rightarrow>
          let header = split_on (CHR '','') first; missing = missing_columns header in
          if missing \<noteq> []
          then Inl (CanonicalFormatError (path @ '' is missing columns: '' @ join_with '', '' missing))
          else read_rows header path 2 ls)"

definition CANONICAL_FIELDS :: "string list" where
  "CANONICAL_FIELDS =
     [''timestamp_ns'', ''event_type'', ''symbol_id'', ''price'', ''quantity'', ''side'',
      ''sequence'', ''flags'']"

definition csv_cells :: "normalized_event \<Rightarrow> string list" where
  "csv_cells e =
     [py_str_int (ne_timestamp_ns e), event_type_name (ne_event_type e), py_str_int (ne_symbol_id e),
      py_str_int (ne_price e), py_str_int (ne_quantity e), py_str_int (ne_side e),
      (case ne_sequence e of None \<Rightarrow> [] | Some s \<Rightarrow> py_str_int s), py_str_int (ne_flags e)]"

definition write_csv_events :: "normalized_event list \<Rightarrow> string list" where
  "write_csv_events events =
     map (join_with '','') (CANONICAL_FIELDS # map csv_cells events)"

section \<open>Binary files\<close>

type_synonym 'a stream = "'a list \<times> py_error option"

definition drain :: "'a stream \<Rightarrow> 'a list result" where
  "drain s = (case snd s of None \<Rightarrow> Inr (fst s) | Some e \<Rightarrow> Inl e)"

definition yields :: "'a \<Rightarrow> 'a stream \<Rightarrow> 'a stream" where
  "yields x s = (x # fst s, snd s)"

definition decode_packet_fields :: "byte list \<Rightarrow> int list result" where
  "decode_packet_fields packet = rbind (struct_unpack packet_format (take 31 packet)) (\<lambda>vals. Inr (tl vals))"

definition event_of_fields :: "string \<Rightarrow> int \<Rightarrow> int list \<Rightarrow> normalized_event" where
  "event_of_fields label index vals =
     \<lparr>ne_timestamp_ns = vals ! 2, ne_event_type = vals ! 0, ne_symbol_id = vals ! 1,
      ne_price = vals ! 3, ne_quantity = vals ! 4, ne_side = vals ! 5,
      ne_sequence = Some (vals ! 6), ne_flags = vals ! 7, ne_source_index = index,
      ne_source = label\<rparr>"

function packet_stream :: "string \<Rightarrow> bool \<Rightarrow> int \<Rightarrow> int \<Rightarrow> byte list \<Rightarrow> normalized_event stream" where
  "packet_stream label validate_crc step index rest =
     (let packet = take PACKET_BYTES rest; rest' = drop PACKET_BYTES rest in
      if packet = [] then ([], None)
      else if length packet \<noteq> PACKET_BYTES
      then ([], Some (CanonicalFormatError (label @ '' length is not a multiple of 32'')))
      else if validate_crc \<and> (uint (packet ! 0) \<noteq> SYNC_VERSION \<or> Inr (uint (packet ! 31)) \<noteq> crc8 (take 31 packet))
      then ([], Some (CanonicalFormatError (''invalid sync/CRC in binary record '' @ py_str_int index)))
      else case decode_packet_fields packet of
        Inl e \<Rightarrow> ([], Some e)
      | Inr vals \<Rightarrow>
          yields (event_of_fields label index vals)
            (packet_stream label validate_crc step (index + step)
               (if step > 1 then drop (nat (step - 1) * PACKET_BYTES) rest' else rest')))"
  by pat_completeness auto
termination
  by (relation "measure (\<lambda>(label, validate_crc, step, index, rest). length rest)") auto

declare packet_stream.simps [simp del]

definition iter_binary_events ::
  "string \<Rightarrow> byte list \<Rightarrow> bool \<Rightarrow> int \<Rightarrow> int \<Rightarrow> normalized_event stream" where
  "iter_binary_events label data validate_crc start_index step =
     (if start_index < 0 then ([], Some (ValueError ''start_index must be non-negative''))
      else if step < 1 then ([], Some (ValueError ''step must be positive''))
      else packet_stream label validate_crc step start_index
             (drop (nat start_index * PACKET_BYTES) data))"

definition read_binary_events :: "string \<Rightarrow> byte list \<Rightarrow> bool \<Rightarrow> normalized_event list result" where
  "read_binary_events label data validate_crc = drain (iter_binary_events label data validate_crc 0 1)"

text \<open>\<open>struct.iter_unpack(">BBHQQIBIHx", payload)\<close>: nine fields and a pad byte per record.\<close>

function iter_unpack :: "byte list \<Rightarrow> int list list" where
  "iter_unpack payload =
     (if payload = [] then []
      else split_fields packet_format (take 31 payload) # iter_unpack (drop PACKET_BYTES payload))"
  by pat_completeness auto
termination by (relation "measure length") auto

declare iter_unpack.simps [simp del]

definition stepped :: "int \<Rightarrow> int \<Rightarrow> 'a list \<Rightarrow> (int \<times> 'a) list" where
  "stepped step index values =
     map (\<lambda>(offset, v). (index + int offset, v))
       (filter (\<lambda>(offset, v). int offset mod step = 0) (enumerate 0 values))"

function chunk_stream :: "string \<Rightarrow> nat \<Rightarrow> int \<Rightarrow> int \<Rightarrow> byte list \<Rightarrow> (int \<times> int list) stream" where
  "chunk_stream label chunk_packets step index rest =
     (let payload = take (chunk_packets * PACKET_BYTES) rest in
      if payload = [] then ([], None)
      else if length payload mod PACKET_BYTES \<noteq> 0
      then ([], Some (CanonicalFormatError (label @ '' length is not a multiple of 32'')))
      else
        let (more, e) = chunk_stream label chunk_packets step
              (index + int (length payload div PACKET_BYTES))
              (drop (chunk_packets * PACKET_BYTES) rest)
        in (stepped step index (iter_unpack payload) @ more, e))"
  by pat_completeness auto
termination
  by (relation "measure (\<lambda>(label, chunk_packets, step, index, rest). length rest)") auto

declare chunk_stream.simps [simp del]

definition iter_binary_field_tuples ::
  "string \<Rightarrow> byte list \<Rightarrow> int \<Rightarrow> int \<Rightarrow> int \<Rightarrow> (int \<times> int list) stream" where
  "iter_binary_field_tuples label data start_index step chunk_packets =
     (if start_index < 0 then ([], Some (ValueError ''start_index must be non-negative''))
      else if step < 1 then ([], Some (ValueError ''step must be positive''))
      else if chunk_packets < 1 then ([], Some (ValueError ''chunk_packets must be positive''))
      else chunk_stream label (nat chunk_packets) step start_index
             (drop (nat start_index * PACKET_BYTES) data))"

text \<open>What the file holds when writing ends, and the exception that ended it if one did.\<close>

fun write_binary_events :: "normalized_event list \<Rightarrow> byte list \<times> py_error option" where
  "write_binary_events [] = ([], None)"
| "write_binary_events (e # es) =
     (case rbind (to_market_event e None) (event_packet SYNC_VERSION) of
        Inl err \<Rightarrow> ([], Some err)
      | Inr packet \<Rightarrow> (let (bytes, err) = write_binary_events es in (packet @ bytes, err)))"

text \<open>\<open>read_events\<close>: the contents of a path are its lines or its bytes.\<close>

definition read_events ::
  "string \<Rightarrow> string \<Rightarrow> string \<Rightarrow> string list \<Rightarrow> byte list \<Rightarrow> normalized_event list result" where
  "read_events path suffix fmt file data =
     (let selected = (if fmt = ''auto''
          then if py_lower suffix \<in> {''.bin'', ''.pkt'', ''.packets''} then ''binary'' else ''csv''
          else fmt) in
      if selected = ''csv'' then read_csv_events path file
      else if selected = ''binary'' then read_binary_events path data True
      else Inl (CanonicalFormatError (''unsupported input format: '' @ fmt)))"

section \<open>Order and replay sequences\<close>

definition event_key :: "normalized_event \<Rightarrow> int \<times> int \<times> int \<times> int \<times> int" where
  "event_key e =
     (ne_timestamp_ns e, ne_symbol_id e, ne_source_index e, ne_event_type e, ne_side e)"

definition sort_events :: "normalized_event list \<Rightarrow> normalized_event list" where
  "sort_events events = sort_key event_key events"

text \<open>
  \<open>date_of\<close> gives the session date of a timestamp in the requested time zone;
  \<open>None\<close> stands for a call without a time zone.
\<close>

definition replay_key :: "bool \<Rightarrow> (int \<Rightarrow> 'd) option \<Rightarrow> normalized_event \<Rightarrow> 'd option \<times> int" where
  "replay_key reset_per_session date_of e =
     (case date_of of
        Some date \<Rightarrow> (if reset_per_session then Some (date (ne_timestamp_ns e)) else None, ne_symbol_id e)
      | None \<Rightarrow> (None, ne_symbol_id e))"

fun assign_loop ::
  "(normalized_event \<Rightarrow> 'k) \<Rightarrow> ('k \<Rightarrow> int option) \<Rightarrow> normalized_event list \<Rightarrow> normalized_event list" where
  "assign_loop key counters [] = []"
| "assign_loop key counters (e # es) =
     (let k = key e; current = (case counters k of None \<Rightarrow> 0 | Some n \<Rightarrow> n) in
      case ne_sequence e of
        None \<Rightarrow> with_sequence e (current + 1) # assign_loop key (counters(k \<mapsto> current + 1)) es
      | Some s \<Rightarrow> e # assign_loop key (counters(k \<mapsto> max current s)) es)"

definition assign_replay_sequences ::
  "bool \<Rightarrow> (int \<Rightarrow> 'd) option \<Rightarrow> normalized_event list \<Rightarrow> normalized_event list" where
  "assign_replay_sequences reset_per_session date_of events =
     assign_loop (replay_key reset_per_session date_of) (\<lambda>_. None) events"

fun session_dates :: "(int \<Rightarrow> 'd) \<Rightarrow> 'd set \<Rightarrow> normalized_event list \<Rightarrow> 'd list" where
  "session_dates date_of seen [] = []"
| "session_dates date_of seen (e # es) =
     (let d = date_of (ne_timestamp_ns e) in
      if d \<in> seen then session_dates date_of seen es
      else d # session_dates date_of (insert d seen) es)"

definition iter_session_dates :: "(int \<Rightarrow> 'd) \<Rightarrow> normalized_event list \<Rightarrow> 'd list" where
  "iter_session_dates date_of events = session_dates date_of {} events"

end
