(* ===== verification/Canonical_Streams.thy ===== *)
theory Canonical_Streams
  imports Canonical_Events
begin

text \<open>
  The two sparse readers of binary event files: the chunked reader of field tuples yields the
  positions and fields of the event reader when the step divides the chunk size, and other
  positions in general.
\<close>

section \<open>Stepping through a list\<close>

lemma enumerate_shift: "enumerate (n + m) xs = map (\<lambda>(i, v). (i + m, v)) (enumerate n xs)"
proof (induction xs arbitrary: n)
  case Nil
  then show ?case by simp
next
  case (Cons x xs)
  then show ?case using Cons.IH [of "Suc n"] by simp
qed

lemma stepped_Nil [simp]: "stepped k index [] = []"
  by (simp add: stepped_def)

lemma stepped_append:
  assumes "k dvd int (length xs)"
  shows "stepped k index (xs @ ys) = stepped k index xs @ stepped k (index + int (length xs)) ys"
proof -
  have "(int i + int (length xs)) mod k = int i mod k" for i
    using assms by (metis add.right_neutral dvd_imp_mod_0 mod_add_right_eq)
  then have "filter (\<lambda>(offset, v). int offset mod k = 0) (enumerate (length xs) ys) =
      map (\<lambda>(i, v). (i + length xs, v)) (filter (\<lambda>(offset, v). int offset mod k = 0) (enumerate 0 ys))"
    using enumerate_shift [of 0 "length xs" ys]
    by (simp add: filter_map comp_def case_prod_unfold)
  then show ?thesis
    by (simp add: stepped_def enumerate_append_eq case_prod_unfold add.assoc add.commute)
qed

lemma stepped_short:
  assumes "int (length xs) < k"
  shows "stepped k index (x # xs) = [(index, x)]"
proof -
  have "int i mod k \<noteq> 0" if "(i, v) \<in> set (enumerate 1 xs)" for i v
    using that assms by (auto simp: in_set_enumerate_eq)
  then have "filter (\<lambda>(offset, v). int offset mod k = 0) (enumerate 1 xs) = []"
    unfolding filter_empty_conv by (metis (mono_tags, lifting) case_prod_unfold prod.collapse)
  then show ?thesis by (simp add: stepped_def)
qed

lemma stepped_Cons:
  assumes "1 \<le> k"
  shows "stepped k index (x # xs) = (index, x) # stepped k (index + k) (drop (nat (k - 1)) xs)"
proof (cases "int (length xs) < k")
  case True
  show ?thesis
  proof (cases "int (length xs) < k - 1")
    case True
    then have "drop (nat (k - 1)) xs = []" by simp
    then show ?thesis using stepped_short [OF \<open>int (length xs) < k\<close>] by (simp only: stepped_Nil)
  next
    case False
    then have "drop (nat (k - 1)) xs = []" using True by simp
    then show ?thesis using stepped_short [OF True] by (simp only: stepped_Nil)
  qed
next
  case False
  let ?n = "nat (k - 1)"
  have len: "int (length (x # take ?n xs)) = k" using assms False by simp
  have "stepped k index ((x # take ?n xs) @ drop ?n xs) =
      stepped k index (x # take ?n xs) @ stepped k (index + k) (drop ?n xs)"
    by (subst stepped_append) (simp_all only: len dvd_refl)
  moreover have "stepped k index (x # take ?n xs) = [(index, x)]"
    using len by (intro stepped_short) simp
  ultimately show ?thesis by simp
qed

section \<open>Records of a byte list\<close>

lemma iter_unpack_Nil [simp]: "iter_unpack [] = []"
  by (simp add: iter_unpack.simps)

lemma iter_unpack_step:
  "bs \<noteq> [] \<Longrightarrow> iter_unpack bs = split_fields packet_format (take 31 bs) # iter_unpack (drop 32 bs)"
  by (subst iter_unpack.simps) simp

lemma whole_packets: "bs \<noteq> [] \<Longrightarrow> length bs mod 32 = 0 \<Longrightarrow> 32 \<le> length (bs :: 'a list)"
  by (metis length_0_conv mod_less not_less)

lemma iter_unpack_drop: "iter_unpack (drop (n * 32) bs) = drop n (iter_unpack bs)"
proof (induction n arbitrary: bs)
  case 0
  then show ?case by simp
next
  case (Suc n)
  show ?case
  proof (cases "bs = []")
    case True
    then show ?thesis by simp
  next
    case False
    then show ?thesis using iter_unpack_step [OF False] Suc [of "drop 32 bs"] by (simp add: add.commute)
  qed
qed

lemma iter_unpack_append:
  assumes "length xs mod 32 = 0"
  shows "iter_unpack (xs @ ys) = iter_unpack xs @ iter_unpack ys \<and> length (iter_unpack xs) = length xs div 32"
  using assms
proof (induction xs rule: length_induct)
  case (1 xs)
  show ?case
  proof (cases "xs = []")
    case True
    then show ?thesis by simp
  next
    case False
    then have len: "32 \<le> length xs" using 1(2) by (intro whole_packets)
    then have drop: "length (drop 32 xs) mod 32 = 0" "length (drop 32 xs) < length xs"
      using 1(2) by (simp_all add: le_mod_geq)
    have "iter_unpack (drop 32 xs @ ys) = iter_unpack (drop 32 xs) @ iter_unpack ys"
      "length (iter_unpack (drop 32 xs)) = length (drop 32 xs) div 32"
      using 1(1) [rule_format, OF drop(2,1)] by auto
    moreover have "iter_unpack (xs @ ys) = split_fields packet_format (take 31 xs) # iter_unpack (drop 32 xs @ ys)"
      using iter_unpack_step [of "xs @ ys"] False len by simp
    moreover have "length xs div 32 = Suc (length (drop 32 xs) div 32)" using len by (simp add: le_div_geq)
    ultimately show ?thesis using iter_unpack_step [OF False] by simp
  qed
qed

section \<open>The two readers\<close>

definition tuple_event :: "string \<Rightarrow> int \<times> int list \<Rightarrow> normalized_event" where
  "tuple_event label = (\<lambda>(i, v). event_of_fields label i (tl v))"

lemma packet_stream_Nil: "packet_stream label v step index [] = ([], None)"
  by (subst packet_stream.simps) simp

lemma packet_stream_unchecked:
  assumes "32 \<le> length bs" "1 \<le> step"
  shows "packet_stream label False step index bs =
    yields (tuple_event label (index, split_fields packet_format (take 31 bs)))
      (packet_stream label False step (index + step) (drop (nat (step - 1) * 32) (drop 32 bs)))"
proof -
  have "(if step > 1 then drop (nat (step - 1) * 32) (drop 32 bs) else drop 32 bs)
      = drop (nat (step - 1) * 32) (drop 32 bs)" using assms(2) by auto
  moreover have "decode_packet_fields (take 32 bs) = Inr (tl (split_fields packet_format (take 31 bs)))"
    using assms(1) by (simp add: decode_packet_fields_def struct_unpack_def)
  moreover have "take 32 bs \<noteq> []" "length (take 32 bs) = 32" using assms(1) by auto
  ultimately show ?thesis
    by (subst packet_stream.simps) (simp only: Let_def tuple_event_def simp_thms if_False prod.case sum.case)
qed

lemma packet_stream_stepped:
  assumes "length bs mod 32 = 0" "1 \<le> step"
  shows "packet_stream label False step index bs =
    (map (tuple_event label) (stepped step index (iter_unpack bs)), None)"
  using assms(1)
proof (induction bs arbitrary: index rule: length_induct)
  case (1 bs)
  show ?case
  proof (cases "bs = []")
    case True
    then show ?thesis by (simp add: packet_stream_Nil)
  next
    case False
    then have len: "32 \<le> length bs" using 1(2) by (intro whole_packets)
    let ?rest = "drop (nat (step - 1) * 32) (drop 32 bs)"
    have eq: "length ?rest = length bs - 32 * (nat (step - 1) + 1)" by simp
    have whole: "length ?rest mod 32 = 0"
    proof (cases "32 * (nat (step - 1) + 1) \<le> length bs")
      case True
      with 1(2) show ?thesis unfolding eq by (metis dvd_diff_nat dvd_triv_left mod_eq_0_iff_dvd)
    next
      case False
      then show ?thesis unfolding eq by simp
    qed
    have "length ?rest < length bs" using False len by simp
    from 1(1) [rule_format, OF this whole]
    have IH: "packet_stream label False step i ?rest =
        (map (tuple_event label) (stepped step i (iter_unpack ?rest)), None)" for i .
    show ?thesis
      unfolding packet_stream_unchecked [OF len assms(2)] IH iter_unpack_step [OF False]
        stepped_Cons [OF assms(2)] iter_unpack_drop
      by (simp add: yields_def)
  qed
qed

lemma chunk_stream_stepped:
  assumes "length bs mod 32 = 0" "1 \<le> chunk" "step dvd int chunk"
  shows "chunk_stream label chunk step index bs = (stepped step index (iter_unpack bs), None)"
  using assms(1)
proof (induction bs arbitrary: index rule: length_induct)
  case (1 bs)
  let ?payload = "take (chunk * 32) bs" and ?rest = "drop (chunk * 32) bs"
  show ?case
  proof (cases "bs = []")
    case True
    then show ?thesis by (subst chunk_stream.simps) simp
  next
    case False
    then have ne: "?payload \<noteq> []" using assms(2) by simp
    have lens: "length ?payload mod 32 = 0" "length ?rest mod 32 = 0"
      using 1(2) by (auto simp: min_def mod_eq_0_iff_dvd)
    have "length ?rest < length bs" using False assms(2) by simp
    from 1(1) [rule_format, OF this lens(2)]
    have IH: "chunk_stream label chunk step i ?rest = (stepped step i (iter_unpack ?rest), None)" for i .
    have "iter_unpack bs = iter_unpack ?payload @ iter_unpack ?rest"
      "length (iter_unpack ?payload) = length ?payload div 32"
      using iter_unpack_append [OF lens(1), of ?rest] by simp_all
    moreover have "stepped step index (iter_unpack ?payload @ iter_unpack ?rest) =
        stepped step index (iter_unpack ?payload)
          @ stepped step (index + int (length (iter_unpack ?payload))) (iter_unpack ?rest)"
    proof (cases "?rest = []")
      case True
      then show ?thesis by simp
    next
      case False
      then have "length ?payload = chunk * 32" by simp
      then have "step dvd int (length (iter_unpack ?payload))"
        using iter_unpack_append [OF lens(1), of ?rest] assms(3) by simp
      then show ?thesis by (rule stepped_append)
    qed
    ultimately show ?thesis
      unfolding chunk_stream.simps [of label chunk step index bs] Let_def
      using ne lens IH by (simp del: take_eq_Nil)
  qed
qed

text \<open>
  On a file of whole packets, when the step divides the chunk size, the chunked reader of field
  tuples yields exactly the positions and fields of the event reader without CRC checks, for
  every start index, and both refuse the same arguments.
\<close>

theorem field_tuples_agree:
  assumes "length data mod PACKET_BYTES = 0" "1 \<le> chunk_packets" "step dvd chunk_packets"
  shows "iter_binary_events label data False start_index step =
    (let (tuples, e) = iter_binary_field_tuples label data start_index step chunk_packets
     in (map (tuple_event label) tuples, e))"
proof -
  have "length (drop (nat start_index * 32) data) mod 32 = 0"
    using assms(1) by (cases "nat start_index * 32 \<le> length data") (auto simp: mod_eq_0_iff_dvd)
  moreover have "step dvd int (nat chunk_packets)" using assms(2,3) by simp
  moreover have "1 \<le> nat chunk_packets" using assms(2) by simp
  ultimately show ?thesis
    using assms(2)
    by (simp add: iter_binary_events_def iter_binary_field_tuples_def packet_stream_stepped chunk_stream_stepped)
qed

theorem field_tuples_agree_witness:
  "map ne_source_index (fst (iter_binary_events ''x'' (replicate 128 0) False 0 2)) = [0, 2]"
proof -
  have "fst (iter_binary_field_tuples ''x'' (replicate 128 0) 0 2 2) = [(0, replicate 9 0), (2, replicate 9 0)]"
    by code_simp
  then show ?thesis
    using field_tuples_agree [of "replicate 128 0" 2 2 "''x''" 0]
    by (simp add: case_prod_unfold tuple_event_def event_of_fields_def)
qed

text \<open>
  When the step does not divide the chunk size the two readers disagree: the chunked reader
  restarts its count at every chunk. On a file of four packets, step 2 and chunks of three
  packets, it yields position 3, which the event reader skips.
\<close>

theorem field_tuples_restart_per_chunk:
  "map fst (fst (iter_binary_field_tuples ''x'' (replicate 128 0) 0 2 3)) = [0, 2, 3] \<and>
   map ne_source_index (fst (iter_binary_events ''x'' (replicate 128 0) False 0 2)) = [0, 2]"
  by code_simp

end
