(* ===== verification/Signal_Policy.thy ===== *)
theory Signal_Policy
  imports Strategy_Correct
begin

text \<open>
  What the replay needs of a signal engine: \<open>BacktestEngine\<close> builds it with a factory, \<open>StrategyModel\<close> by
  default, and calls \<open>evaluate\<close> and \<open>reset_state\<close> on it. The contract is the locale \<open>signal_policy\<close>.
\<close>

section \<open>The interface\<close>

record 's strategy_factory =
  sf_create :: "int \<Rightarrow> strategy_config \<Rightarrow> 's result"
  sf_evaluate :: "'s \<Rightarrow> feature_snapshot \<Rightarrow> (signal_snapshot \<times> 's) result"
  sf_reset :: "'s \<Rightarrow> 's"

definition model_factory :: "strategy_model strategy_factory" where
  "model_factory =
     \<lparr>sf_create = (\<lambda>num_symbols config. strategy_init num_symbols (Some config)),
      sf_evaluate = evaluate, sf_reset = strategy_reset_state False\<rparr>"

text \<open>
  An engine created for some symbols stays usable: on a feature of one of them it returns a signal for
  that symbol.
\<close>

locale signal_policy =
  fixes fac :: "'s strategy_factory" and ok :: "nat \<Rightarrow> 's \<Rightarrow> bool"
  assumes create_ok: "sf_create fac num_symbols config = Inr s \<Longrightarrow> ok (nat num_symbols) s"
    and reset_ok: "ok n s \<Longrightarrow> ok n (sf_reset fac s)"
    and evaluate_ok: "ok n s \<Longrightarrow> 0 \<le> ft_symbol_id f \<Longrightarrow> ft_symbol_id f < int n \<Longrightarrow>
      \<exists>sig s'. sf_evaluate fac s f = Inr (sig, s') \<and> ok n s' \<and> sg_symbol_id sig = ft_symbol_id f"

section \<open>The default engine\<close>

definition strategy_ok :: "nat \<Rightarrow> strategy_model \<Rightarrow> bool" where
  "strategy_ok n m \<longleftrightarrow> strategy_wf m \<and> sm_num_symbols m = n"

lemma strategy_evaluate_ok:
  assumes "strategy_ok n m" "0 \<le> ft_symbol_id f" "ft_symbol_id f < int n"
  shows "\<exists>s m'. evaluate m f = Inr (s, m') \<and> strategy_ok n m' \<and> sg_symbol_id s = ft_symbol_id f"
proof -
  have "strategy_wf m" "strategy_symbol m (ft_symbol_id f)"
    using assms by (simp_all add: strategy_ok_def strategy_symbol_def)
  from evaluate_cell [OF this] obtain m' where
    m': "evaluate m f = Inr (cell_signal (sm_config m) f (strategy_cell m (ft_symbol_id f)), m')"
      "strategy_wf m'" "sm_num_symbols m' = sm_num_symbols m" by blast
  moreover have "sg_symbol_id (cell_signal (sm_config m) f (strategy_cell m (ft_symbol_id f))) = ft_symbol_id f"
    by (simp add: cell_signal_def Let_def split: prod.splits)
  ultimately show ?thesis using assms(1) by (auto simp: strategy_ok_def)
qed

lemma strategy_reset_ok: "strategy_ok n m \<Longrightarrow> strategy_ok n (strategy_reset_state b m)"
  by (auto simp: strategy_ok_def strategy_wf_def strategy_reset_state_def Let_def)

interpretation model: signal_policy model_factory strategy_ok
proof
  fix num_symbols config s
  assume "sf_create model_factory num_symbols config = Inr s"
  then have "strategy_init num_symbols (Some config) = Inr s" by (simp add: model_factory_def)
  from strategy_init_family [OF this] show "strategy_ok (nat num_symbols) s"
    by (simp add: strategy_ok_def strategy_family_def)
qed (simp_all add: model_factory_def strategy_reset_ok strategy_evaluate_ok)

end
