(* ===== verification/Float64.thy ===== *)
theory Float64
  imports Trading_Prelude "HOL-Library.Log_Nat"
begin

text \<open>
  Python floats. A float value is the rational it denotes; each arithmetic operation gives the
  exact result rounded to the nearest binary64 value, ties to even, which \<open>fl64\<close> computes.
  Infinities, not-a-number, subnormal numbers and overflow are outside the model: dollar amounts,
  basis points and prices are far inside the normal range.

  The paper-trading definitions take the rounding function as a parameter. What they rely on
  are the laws of the locale \<open>float_rounding\<close>, which \<open>fl64\<close> and exact arithmetic satisfy.
\<close>

section \<open>The rounding contract\<close>

locale float_rounding =
  fixes rnd :: "rat \<Rightarrow> rat"
  assumes rnd_mono: "x \<le> y \<Longrightarrow> rnd x \<le> rnd y"
    and rnd_minus: "rnd (- x) = - rnd x"
    and rnd_int: "\<bar>n\<bar> \<le> 2 ^ 53 \<Longrightarrow> rnd (of_int n) = of_int n"
begin

lemma rnd_0: "rnd 0 = 0"
  using rnd_int [of 0] by simp

lemma rnd_nonneg: "0 \<le> x \<Longrightarrow> 0 \<le> rnd x"
  using rnd_mono [of 0 x] rnd_0 by simp

lemma rnd_nonpos: "x \<le> 0 \<Longrightarrow> rnd x \<le> 0"
  using rnd_mono [of x 0] rnd_0 by simp

lemma rnd_int_le: "\<bar>n\<bar> \<le> 2 ^ 53 \<Longrightarrow> of_int n \<le> x \<Longrightarrow> of_int n \<le> rnd x"
  using rnd_mono [of "of_int n" x] rnd_int by simp

lemma rnd_diff_nonneg: "y \<le> x \<Longrightarrow> 0 \<le> rnd (x - y)"
  by (rule rnd_nonneg) simp

end

interpretation exact: float_rounding "\<lambda>x. x"
  by unfold_locales simp_all

text \<open>\<open>int()\<close> of a float truncates toward zero.\<close>

definition py_trunc :: "rat \<Rightarrow> int" where
  "py_trunc x = (if x < 0 then - \<lfloor>- x\<rfloor> else \<lfloor>x\<rfloor>)"

section \<open>Round to nearest, ties to even\<close>

definition round_half_even :: "rat \<Rightarrow> int" where
  "round_half_even x =
     (let f = \<lfloor>x\<rfloor>; d = x - of_int f in
      if d < 1 / 2 then f else if d > 1 / 2 then f + 1 else if even f then f else f + 1)"

lemma round_half_even_int [simp]: "round_half_even (of_int n) = n"
  by (simp add: round_half_even_def)

lemma round_half_even_numeral [simp]: "round_half_even (numeral k) = numeral k"
  using round_half_even_int [of "numeral k"] by simp

definition pick_even :: "int \<Rightarrow> rat \<Rightarrow> int" where
  "pick_even f d = (if d < 1 / 2 then f else if d > 1 / 2 then f + 1 else if even f then f else f + 1)"

lemma round_half_even_pick: "round_half_even x = pick_even \<lfloor>x\<rfloor> (x - of_int \<lfloor>x\<rfloor>)"
  by (simp only: round_half_even_def pick_even_def Let_def)

lemma pick_even_range: "f \<le> pick_even f d \<and> pick_even f d \<le> f + 1"
  by (simp add: pick_even_def)

lemma pick_even_mono: "d \<le> d' \<Longrightarrow> pick_even f d \<le> pick_even f d'"
  by (simp add: pick_even_def)

lemma pick_even_minus: "pick_even (- f - 1) (1 - d) = - pick_even f d"
proof -
  consider "d < 1 / 2" | "d = 1 / 2" | "1 / 2 < d" by linarith
  then show ?thesis
  proof cases
    case 1
    then have "\<not> 1 - d < 1 / 2" "1 - d > 1 / 2" by linarith+
    with 1 show ?thesis by (simp add: pick_even_def)
  next
    case 2
    then show ?thesis by (simp add: pick_even_def)
  next
    case 3
    then have "1 - d < 1 / 2" "\<not> d < 1 / 2" by linarith+
    with 3 show ?thesis by (simp add: pick_even_def)
  qed
qed

lemma round_half_even_mono:
  assumes "x \<le> y"
  shows "round_half_even x \<le> round_half_even y"
proof (cases "\<lfloor>x\<rfloor> = \<lfloor>y\<rfloor>")
  case True
  have "x - of_int \<lfloor>y\<rfloor> \<le> y - of_int \<lfloor>y\<rfloor>" using assms by simp
  then show ?thesis unfolding round_half_even_pick True by (rule pick_even_mono)
next
  case False
  with floor_mono [OF assms] have "\<lfloor>x\<rfloor> + 1 \<le> \<lfloor>y\<rfloor>" by linarith
  then show ?thesis
    using pick_even_range [of "\<lfloor>x\<rfloor>" "x - of_int \<lfloor>x\<rfloor>"] pick_even_range [of "\<lfloor>y\<rfloor>" "y - of_int \<lfloor>y\<rfloor>"]
    unfolding round_half_even_pick by linarith
qed

lemma round_half_even_minus: "round_half_even (- x) = - round_half_even x"
proof (cases "x \<in> \<int>")
  case True
  then obtain n where n: "x = of_int n" by (auto elim: Ints_cases)
  have "- x = of_int (- n)" by (simp add: n)
  then show ?thesis by (simp only: round_half_even_int n)
next
  case False
  have "\<lfloor>- x\<rfloor> = - \<lceil>x\<rceil>" by (simp add: ceiling_def)
  also have "\<lceil>x\<rceil> = \<lfloor>x\<rfloor> + 1" using False by (simp add: ceiling_altdef) (metis Ints_of_int)
  finally have fl: "\<lfloor>- x\<rfloor> = - \<lfloor>x\<rfloor> - 1" by simp
  have "- x - of_int (- \<lfloor>x\<rfloor> - 1) = 1 - (x - of_int \<lfloor>x\<rfloor>)" by simp
  then show ?thesis
    unfolding round_half_even_pick fl by (simp only: pick_even_minus)
qed

section \<open>Binary64\<close>

text \<open>The exponent of the leading bit of a positive rational.\<close>

definition binade :: "rat \<Rightarrow> int" where
  "binade x =
     (let (n, d) = quotient_of x; e = bitlen n - bitlen d
      in if 2 powi e \<le> x then e else e - 1)"

definition fl64 :: "rat \<Rightarrow> rat" where
  "fl64 x =
     (if x = 0 then 0
      else let u = 2 powi (binade \<bar>x\<bar> - 52) in of_int (round_half_even (x / u)) * u)"

lemma bitlen_positive: "0 < m \<Longrightarrow> 0 < bitlen m"
  using bitlen_ge_iff_power [of 1 m] by simp

lemma binade_bounds:
  assumes "0 < x"
  shows "2 powi binade x \<le> x \<and> x < 2 powi (binade x + 1)"
proof -
  obtain n d where q: "quotient_of x = (n, d)" by fastforce
  have d: "0 < d" using quotient_of_denom_pos [OF q] .
  have x: "x = of_int n / of_int d" by (rule quotient_of_div [OF q])
  have n: "0 < n" using assms d by (simp add: x zero_less_divide_iff)
  let ?e = "bitlen n - bitlen d"
  have bl: "0 < bitlen n" "0 < bitlen d" using n d by (simp_all add: bitlen_positive)
  have up: "(of_int m :: rat) < 2 powi bitlen m" and lo: "2 powi (bitlen m - 1) \<le> (of_int m :: rat)"
    if "0 < m" for m
  proof -
    have b: "2 ^ nat (bitlen m - 1) \<le> m" "m < 2 ^ nat (bitlen m)" "0 < bitlen m"
      using bitlen_bounds [of m] bitlen_positive [of m] that by auto
    have "(of_int m :: rat) < of_int (2 ^ nat (bitlen m))" using b(2) by (subst of_int_less_iff)
    then show "(of_int m :: rat) < 2 powi bitlen m" using b(3) by (simp add: power_int_def)
    have "(of_int (2 ^ nat (bitlen m - 1)) :: rat) \<le> of_int m" using b(1) by (subst of_int_le_iff)
    then show "2 powi (bitlen m - 1) \<le> (of_int m :: rat)" using b(3) by (simp add: power_int_def)
  qed
  have "x < 2 powi bitlen n / 2 powi (bitlen d - 1)"
    unfolding x using up [OF n] lo [OF d] n d by (intro frac_less) simp_all
  also have "\<dots> = 2 powi (?e + 1)"
    by (simp add: power_int_diff [symmetric] algebra_simps)
  finally have x_up: "x < 2 powi (?e + 1)" .
  have "2 powi (?e - 1) = (2 :: rat) powi (bitlen n - 1) / 2 powi bitlen d"
    by (simp add: power_int_diff [symmetric] algebra_simps)
  also have "\<dots> \<le> x"
    unfolding x using up [OF d] lo [OF n] n d by (intro frac_le) simp_all
  finally have x_lo: "2 powi (?e - 1) \<le> x" .
  show ?thesis
    using x_up x_lo by (auto simp: binade_def q Let_def)
qed

lemma binade_mono:
  assumes "0 < x" "x \<le> y"
  shows "binade x \<le> binade y"
proof (rule ccontr)
  assume "\<not> binade x \<le> binade y"
  then have "(2 :: rat) powi (binade y + 1) \<le> 2 powi binade x"
    by (intro power_int_increasing) simp_all
  with binade_bounds [of x] binade_bounds [of y] assms show False by linarith
qed

lemma fl64_pos:
  "0 < x \<Longrightarrow> fl64 x = of_int (round_half_even (x / 2 powi (binade x - 52))) * 2 powi (binade x - 52)"
  by (simp add: fl64_def Let_def)

lemma fl64_0 [simp]: "fl64 0 = 0"
  by (simp add: fl64_def)

lemma fl64_minus: "fl64 (- x) = - fl64 x"
  by (simp add: fl64_def Let_def round_half_even_minus)

text \<open>The significand of a rounded positive number has 53 bits.\<close>

lemma fl64_significand:
  assumes "0 < x"
  shows "2 ^ 52 \<le> round_half_even (x / 2 powi (binade x - 52))"
    and "round_half_even (x / 2 powi (binade x - 52)) \<le> 2 ^ 53"
proof -
  let ?u = "(2 :: rat) powi (binade x - 52)"
  have u: "0 < ?u" by simp
  have lo: "(2 :: rat) ^ 52 * ?u = 2 powi binade x" and hi: "(2 :: rat) ^ 53 * ?u = 2 powi (binade x + 1)"
    by (simp_all add: power_int_diff power_int_add)
  have "of_int (2 ^ 52) \<le> x / ?u" "x / ?u \<le> of_int (2 ^ 53)"
    using binade_bounds [OF assms] u lo hi by (simp_all add: pos_le_divide_eq pos_divide_le_eq)
  from this [THEN round_half_even_mono] show "2 ^ 52 \<le> round_half_even (x / ?u)"
    "round_half_even (x / ?u) \<le> 2 ^ 53"
    unfolding round_half_even_int .
qed

lemma fl64_bounds:
  assumes "0 < x"
  shows "2 powi binade x \<le> fl64 x \<and> fl64 x \<le> 2 powi (binade x + 1)"
proof -
  let ?u = "(2 :: rat) powi (binade x - 52)" and ?k = "round_half_even (x / 2 powi (binade x - 52))"
  have lo: "(2 :: rat) ^ 52 * ?u = 2 powi binade x" and hi: "(2 :: rat) ^ 53 * ?u = 2 powi (binade x + 1)"
    by (simp_all add: power_int_diff power_int_add)
  have "(of_int (2 ^ 52) :: rat) \<le> of_int ?k" "(of_int ?k :: rat) \<le> of_int (2 ^ 53)"
    using fl64_significand [OF assms] by (simp_all only: of_int_le_iff)
  then have "2 ^ 52 * ?u \<le> of_int ?k * ?u" "of_int ?k * ?u \<le> 2 ^ 53 * ?u"
    by (auto intro: mult_right_mono)
  then show ?thesis unfolding lo hi fl64_pos [OF assms] by simp
qed

lemma fl64_mono_pos:
  assumes "0 < x" "x \<le> y"
  shows "fl64 x \<le> fl64 y"
proof (cases "binade x = binade y")
  case True
  have "x / 2 powi (binade y - 52) \<le> y / 2 powi (binade y - 52)"
    using assms(2) by (simp add: divide_right_mono)
  then show ?thesis
    using assms True by (simp add: fl64_pos round_half_even_mono mult_right_mono)
next
  case False
  with binade_mono [OF assms] have "(2 :: rat) powi (binade x + 1) \<le> 2 powi binade y"
    by (intro power_int_increasing) simp_all
  with fl64_bounds [of x] fl64_bounds [of y] assms show ?thesis by linarith
qed

lemma fl64_nonneg: "0 \<le> x \<Longrightarrow> 0 \<le> fl64 x"
  using fl64_bounds [of x] order_trans [of 0 "2 powi binade x" "fl64 x"] by (cases "x = 0") simp_all

lemma fl64_mono: "x \<le> y \<Longrightarrow> fl64 x \<le> fl64 y"
proof -
  assume le: "x \<le> y"
  consider "0 < x" | "x \<le> 0" "0 \<le> y" | "y < 0" by linarith
  then show ?thesis
  proof cases
    case 1
    then show ?thesis using le by (rule fl64_mono_pos)
  next
    case 2
    then show ?thesis using fl64_nonneg [of "- x"] fl64_nonneg [of y] by (simp add: fl64_minus)
  next
    case 3
    then show ?thesis using fl64_mono_pos [of "- y" "- x"] le by (simp add: fl64_minus)
  qed
qed

text \<open>Integers of at most 53 bits are exact.\<close>

lemma fl64_int_pos:
  assumes "0 < n" "n \<le> 2 ^ 53"
  shows "fl64 (of_int n) = of_int n"
proof -
  let ?b = "binade (of_int n)"
  have n: "(0 :: rat) < of_int n" using assms by simp
  have lo: "(2 :: rat) powi ?b \<le> of_int n" and hi: "of_int n < (2 :: rat) powi (?b + 1)"
    using binade_bounds [OF n] by auto
  have "(of_int n :: rat) \<le> of_int (2 ^ 53)" using assms(2) by (simp only: of_int_le_iff)
  with lo have small: "(2 :: rat) powi ?b \<le> 2 powi 53" by simp
  have b: "?b \<le> 53"
  proof (rule ccontr)
    assume "\<not> ?b \<le> 53"
    then have "(2 :: rat) powi 54 \<le> 2 powi ?b" by (intro power_int_increasing) simp_all
    with small show False by simp
  qed
  show ?thesis
  proof (cases "?b = 53")
    case True
    with lo have "(of_int (2 ^ 53) :: rat) \<le> of_int n" by simp
    with assms(2) have "n = 2 ^ 53" by (simp only: of_int_le_iff)
    then show ?thesis using True by (simp add: fl64_def Let_def)
  next
    case False
    with b have k: "52 - ?b = int (nat (52 - ?b))" by simp
    have "(of_int n :: rat) / 2 powi (?b - 52) = of_int n * 2 powi (52 - ?b)"
      by (simp add: power_int_diff)
    also have "\<dots> = of_int (n * 2 ^ nat (52 - ?b))" by (subst k) (simp add: power_int_def)
    finally show ?thesis unfolding fl64_pos [OF n]
      by (simp only: round_half_even_int)  (simp add: power_int_diff field_simps)
  qed
qed

lemma fl64_int:
  assumes "\<bar>n\<bar> \<le> 2 ^ 53"
  shows "fl64 (of_int n) = of_int n"
proof -
  consider "0 < n" | "n = 0" | "n < 0" by linarith
  then show ?thesis
  proof cases
    case 3
    then show ?thesis using fl64_int_pos [of "- n"] assms by (simp add: fl64_minus)
  qed (use fl64_int_pos [of n] assms in auto)
qed

interpretation binary64: float_rounding fl64
  by unfold_locales (simp_all add: fl64_mono fl64_minus fl64_int)

section \<open>Products with a fraction below one\<close>

text \<open>A float below one, times a positive integer, is rounded to something below that integer.\<close>

lemma binade_eqI:
  assumes "2 powi e \<le> x" "x < 2 powi (e + 1)"
  shows "binade x = e"
proof -
  have "0 < x" using assms(1) by (rule less_le_trans [rotated]) simp
  note b = binade_bounds [OF this]
  have "(2 :: rat) powi e < 2 powi (binade x + 1)" "(2 :: rat) powi binade x < 2 powi (e + 1)"
    using assms b by linarith+
  moreover have "i < j" if "(2 :: rat) powi i < 2 powi j" for i j
    using that power_int_increasing [of j i "2 :: rat"] by (cases "j \<le> i") simp_all
  ultimately have "e < binade x + 1" "binade x < e + 1" by blast+
  then show ?thesis by simp
qed

lemma fl64_value_below_1:
  assumes "fl64 t = t" "t < 1"
  shows "t \<le> 1 - 1 / 2 ^ 53"
proof (rule ccontr)
  assume "\<not> t \<le> 1 - 1 / 2 ^ 53"
  then have t: "1 - 1 / 2 ^ 53 < t" by simp
  have "binade t = -1" by (rule binade_eqI) (use t assms(2) in \<open>simp_all add: power_int_def\<close>)
  moreover have "0 < t" using t by simp
  ultimately obtain K where K: "t = of_int K * 2 powi (-53)"
    using assms(1) by (simp add: fl64_pos) (metis mult.commute)
  have "(2 :: rat) powi (-53) = 1 / 2 ^ 53" using power_int_minus [of "2 :: rat" 53] by simp
  with K t assms(2) have "(2 :: rat) ^ 53 - 1 < of_int K" "of_int K < (2 :: rat) ^ 53" by (simp_all add: field_simps)
  then have "(of_int (2 ^ 53 - 1) :: rat) < of_int K" "of_int K < (of_int (2 ^ 53) :: rat)" by simp_all
  then show False unfolding of_int_less_iff by simp
qed

lemma round_half_even_just_below:
  assumes "of_int (2 ^ 52) < (of_int N :: rat)" "(of_int N :: rat) < of_int (2 ^ 53)"
  shows "round_half_even (of_int N - of_int N / 2 ^ 53) = N - 1"
proof -
  let ?x = "of_int N - of_int N / 2 ^ 53 :: rat"
  have "\<lfloor>?x\<rfloor> = N - 1" by (rule floor_unique) (use assms in \<open>simp_all add: field_simps\<close>)
  moreover have "1 / 2 > (?x - of_int (N - 1))" "\<not> 1 / 2 < (?x - of_int (N - 1))"
    using assms by (simp_all add: field_simps)
  ultimately show ?thesis by (simp add: round_half_even_def)
qed

lemma fl64_below_int:
  assumes "0 < n" "n \<le> 2 ^ 53"
  shows "fl64 (of_int n * (1 - 1 / 2 ^ 53)) < of_int n"
proof -
  let ?x = "of_int n * (1 - 1 / 2 ^ 53) :: rat" let ?e = "binade (of_int n)"
  have n: "(0 :: rat) < of_int n" using assms(1) by simp
  note b = binade_bounds [OF n]
  have "0 \<le> ?e"
  proof (rule ccontr)
    assume "\<not> 0 \<le> ?e"
    then have "(2 :: rat) powi (?e + 1) \<le> 2 powi 0" by (intro power_int_increasing) simp_all
    with b have "(of_int n :: rat) < of_int 1" by simp
    then show False unfolding of_int_less_iff using assms(1) by simp
  qed
  then obtain k where k: "?e = int k" by (metis nonneg_int_cases)
  have b': "(2 :: rat) ^ k \<le> of_int n" "of_int n < (2 :: rat) ^ (k + 1)" using b by (simp_all add: k power_int_def nat_add_distrib)
  then have bi: "2 ^ k \<le> n" "n < 2 ^ (k + 1)"
    by (metis of_int_le_iff of_int_numeral of_int_power) (metis b'(2) of_int_less_iff of_int_numeral of_int_power)
  show ?thesis
  proof (cases "n = 2 ^ k")
    case True
    have "binade ?x = int k - 1"
      by (rule binade_eqI) (simp_all add: True power_int_diff)
    moreover have "?x / 2 powi (int k - 53) = of_int (2 ^ 53 - 1)"
      by (simp add: True power_int_diff field_simps)
    ultimately have "fl64 ?x = of_int (2 ^ 53 - 1) * 2 powi (int k - 53)"
      using n by (simp add: fl64_pos del: of_int_diff of_int_power of_int_numeral) 
    then have "9007199254740992 * fl64 ?x = 2 ^ k * 9007199254740991"
      by (simp add: True power_int_diff field_simps)
    moreover have "(0 :: rat) < 2 ^ k" by simp
    ultimately have "fl64 ?x < 2 ^ k" by linarith
    then show ?thesis by (simp add: True)
  next
    case False
    with bi have above: "2 ^ k + 1 \<le> n" by simp
    have "k \<le> 52"
    proof (rule ccontr)
      assume "\<not> k \<le> 52"
      then have "(2 :: int) ^ 53 \<le> 2 ^ k" by (intro power_increasing) simp_all
      with above assms(2) show False by simp
    qed
    have "of_int n / 2 ^ 53 \<le> (1 :: rat)"
      using assms(2) of_int_le_iff [of n "2 ^ 53", where ?'a = rat] by simp
    moreover have "(2 :: rat) ^ k + 1 \<le> of_int n"
      using above of_int_le_iff [of "2 ^ k + 1" n, where ?'a = rat] by simp
    ultimately have bx: "(2 :: rat) ^ k \<le> ?x" "?x < 2 ^ (k + 1)" using b' n by (simp_all add: field_simps)
    have binade_x: "binade ?x = int k"
      by (rule binade_eqI) (use bx in \<open>simp_all add: power_int_add\<close>)
    let ?N = "n * 2 ^ (52 - k)"
    have unit: "(2 :: rat) ^ (52 - k) * 2 powi (int k - 52) = 1"
      using \<open>k \<le> 52\<close> by (simp add: power_int_diff power_add [symmetric])
    have quot: "?x / 2 powi (int k - 52) = of_int ?N - of_int ?N / 2 ^ 53"
      using unit by (simp add: field_simps)
    have pow: "(2 :: int) ^ k * 2 ^ (52 - k) = 2 ^ 52" using \<open>k \<le> 52\<close> by (simp add: power_add [symmetric])
    have "(2 ^ k + 1) * 2 ^ (52 - k) \<le> ?N" using above by (intro mult_right_mono) simp_all
    moreover have "?N < 2 ^ (k + 1) * 2 ^ (52 - k)" using bi(2) by (intro mult_strict_right_mono) simp_all
    moreover have "(2 ^ k + 1) * 2 ^ (52 - k) = (2 :: int) ^ 52 + 2 ^ (52 - k)"
      unfolding distrib_right pow by (simp only: mult_1)
    moreover have "(2 :: int) ^ (k + 1) * 2 ^ (52 - k) = 2 * 2 ^ 52" unfolding pow [symmetric] by simp
    moreover have "(0 :: int) < 2 ^ (52 - k)" by simp
    ultimately have N: "2 ^ 52 < ?N" "?N < 2 * 2 ^ 52" by linarith+
    then have N: "2 ^ 52 < ?N" "?N < 2 ^ 53" by simp_all
    then have "(of_int (2 ^ 52) :: rat) < of_int ?N" "(of_int ?N :: rat) < of_int (2 ^ 53)"
      by (simp_all only: of_int_less_iff)
    then have "round_half_even (of_int ?N - of_int ?N / 2 ^ 53) = ?N - 1"
      by (rule round_half_even_just_below)
    moreover have "0 < ?x" using n by simp
    ultimately have "fl64 ?x = of_int (?N - 1) * 2 powi (int k - 52)"
      using fl64_pos [of ?x] unfolding binade_x quot by simp
    also have "\<dots> = of_int n - 2 powi (int k - 52)" using unit by (simp add: algebra_simps)
    finally show ?thesis by simp
  qed
qed

lemma trunc_fraction_below:
  assumes "0 < n" "n \<le> 2 ^ 53" "fl64 t = t" "0 \<le> t" "t < 1"
  shows "0 \<le> py_trunc (fl64 (of_int n * t)) \<and> py_trunc (fl64 (of_int n * t)) < n"
proof -
  have "of_int n * t \<le> of_int n * (1 - 1 / 2 ^ 53)"
    using fl64_value_below_1 [OF assms(3,5)] assms(1) by (intro mult_left_mono) simp_all
  from fl64_mono [OF this] fl64_below_int [OF assms(1,2)] have "fl64 (of_int n * t) < of_int n" by linarith
  moreover have "0 \<le> fl64 (of_int n * t)" using assms by (intro fl64_nonneg) simp
  ultimately show ?thesis by (simp add: py_trunc_def floor_less_iff)
qed

end
