(* ===== verification/Paper_Execution.thy ===== *)
theory Paper_Execution
  imports Market_State Float64
begin

text \<open>
  Paper execution: the shared records of \<open>tools/backtest/types.py\<close> and the simulator of
  \<open>tools/backtest/execution_simulator.py\<close>, which fills hypothetical orders against the
  visible top of book. Prices and quantities are integers; slippage in basis points and commissions are floats,
  so the operations that use them take the rounding function \<open>rnd\<close> of \<open>Float64\<close>; the code
  is the instance \<open>rnd = fl64\<close>. Sides, purposes and directions are the strings of the code.
\<close>

section \<open>Records\<close>

record candidate_signal =
  cs_timestamp_ns :: int
  cs_event_type :: int
  cs_symbol_id :: int
  cs_sequence :: int
  cs_action :: int
  cs_score :: int
  cs_reason_bits :: int
  cs_feature :: feature_snapshot

record order_request =
  rq_order_id :: int
  rq_symbol_id :: int
  rq_side :: string
  rq_purpose :: string
  rq_position_direction :: string
  rq_quantity :: int
  rq_order_timestamp_ns :: int
  rq_eligible_timestamp_ns :: int
  rq_candidate_timestamp_ns :: int
  rq_candidate_reason_bits :: int
  rq_candidate_score :: int
  rq_exit_reason :: string
  rq_candidate_sequence :: int
  rq_candidate_feature :: "feature_snapshot option"

record fill =
  fi_order_id :: int
  fi_symbol_id :: int
  fi_side :: string
  fi_purpose :: string
  fi_position_direction :: string
  fi_quantity :: int
  fi_timestamp_ns :: int
  fi_reference_price :: int
  fi_fill_price :: int
  fi_commission :: rat
  fi_candidate_timestamp_ns :: int
  fi_candidate_reason_bits :: int
  fi_candidate_score :: int
  fi_exit_reason :: string
  fi_eligible_timestamp_ns :: int
  fi_candidate_sequence :: int
  fi_candidate_feature :: "feature_snapshot option"

record execution_config =
  xc_latency_ns :: int
  xc_fixed_slippage_micro :: int
  xc_slippage_bps :: rat
  xc_commission_per_trade :: rat
  xc_commission_per_share :: rat
  xc_minimum_commission :: rat

record execution =
  ex_config :: execution_config
  ex_next_order_id :: int
  ex_pending :: "order_request list"
  ex_unfilled_orders :: "order_request list"

section \<open>Configuration\<close>

definition execution_config_check :: "execution_config \<Rightarrow> execution_config result" where
  "execution_config_check c =
     (if xc_latency_ns c < 0 then Inl (ValueError ''latency_ns must be non-negative'')
      else if xc_fixed_slippage_micro c < 0 \<or> xc_slippage_bps c < 0
      then Inl (ValueError ''slippage must be non-negative'')
      else if min (min (xc_commission_per_trade c) (xc_commission_per_share c)) (xc_minimum_commission c) < 0
      then Inl (ValueError ''commission settings must be non-negative'')
      else Inr c)"

definition default_execution_config :: execution_config where
  "default_execution_config =
     \<lparr>xc_latency_ns = 0, xc_fixed_slippage_micro = 0, xc_slippage_bps = 0,
      xc_commission_per_trade = 0, xc_commission_per_share = 0, xc_minimum_commission = 0\<rparr>"

definition execution_from_ms :: "(rat \<Rightarrow> rat) \<Rightarrow> rat \<Rightarrow> execution_config \<Rightarrow> execution_config result" where
  "execution_from_ms rnd latency_ms c =
     execution_config_check (c\<lparr>xc_latency_ns := round_half_even (rnd (latency_ms * 1000000))\<rparr>)"

definition execution_init :: "execution_config option \<Rightarrow> execution" where
  "execution_init config =
     \<lparr>ex_config = (case config of None \<Rightarrow> default_execution_config | Some c \<Rightarrow> c),
      ex_next_order_id = 1, ex_pending = [], ex_unfilled_orders = []\<rparr>"

definition new_order_id :: "execution \<Rightarrow> int \<times> execution" where
  "new_order_id ex = (ex_next_order_id ex, ex\<lparr>ex_next_order_id := ex_next_order_id ex + 1\<rparr>)"

section \<open>The fill of one order\<close>

definition reference_price :: "order_request \<Rightarrow> feature_snapshot \<Rightarrow> int option result" where
  "reference_price order f =
     (if rq_side order = ''buy''
      then Inr (if ft_ask_price f > 0 \<and> ft_ask_quantity f > 0 then Some (ft_ask_price f) else None)
      else if rq_side order = ''sell''
      then Inr (if ft_bid_price f > 0 \<and> ft_bid_quantity f > 0 then Some (ft_bid_price f) else None)
      else Inl (ValueError ''unsupported order side''))"

definition apply_slippage :: "(rat \<Rightarrow> rat) \<Rightarrow> execution_config \<Rightarrow> int \<Rightarrow> string \<Rightarrow> int" where
  "apply_slippage rnd c reference side =
     (let bps = py_trunc (rnd (rnd (rnd (of_int reference) * xc_slippage_bps c) / 10000));
          adverse = xc_fixed_slippage_micro c + bps
      in if side = ''buy'' then reference + adverse else max 1 (reference - adverse))"

definition commission_for :: "(rat \<Rightarrow> rat) \<Rightarrow> execution_config \<Rightarrow> int \<Rightarrow> rat" where
  "commission_for rnd c quantity =
     (let raw = rnd (xc_commission_per_trade c + rnd (xc_commission_per_share c * rnd (of_int quantity)))
      in if raw = 0 then 0 else max (xc_minimum_commission c) raw)"

definition fill_of ::
  "(rat \<Rightarrow> rat) \<Rightarrow> execution_config \<Rightarrow> order_request \<Rightarrow> int \<Rightarrow> int \<Rightarrow> fill" where
  "fill_of rnd c order timestamp_ns reference =
     \<lparr>fi_order_id = rq_order_id order, fi_symbol_id = rq_symbol_id order, fi_side = rq_side order,
      fi_purpose = rq_purpose order, fi_position_direction = rq_position_direction order,
      fi_quantity = rq_quantity order, fi_timestamp_ns = timestamp_ns,
      fi_reference_price = reference,
      fi_fill_price = apply_slippage rnd c reference (rq_side order),
      fi_commission = commission_for rnd c (rq_quantity order),
      fi_candidate_timestamp_ns = rq_candidate_timestamp_ns order,
      fi_candidate_reason_bits = rq_candidate_reason_bits order,
      fi_candidate_score = rq_candidate_score order, fi_exit_reason = rq_exit_reason order,
      fi_eligible_timestamp_ns = rq_eligible_timestamp_ns order,
      fi_candidate_sequence = rq_candidate_sequence order,
      fi_candidate_feature = rq_candidate_feature order\<rparr>"

definition make_fill ::
  "(rat \<Rightarrow> rat) \<Rightarrow> execution_config \<Rightarrow> order_request \<Rightarrow> int \<Rightarrow> feature_snapshot \<Rightarrow> fill option result" where
  "make_fill rnd c order timestamp_ns f =
     (if ft_symbol_id f \<noteq> rq_symbol_id order \<or> \<not> ft_spread_valid f then Inr None
      else rbind (reference_price order f) (\<lambda>reference.
        case reference of None \<Rightarrow> Inr None
        | Some r \<Rightarrow> if r \<le> 0 then Inr None else Inr (Some (fill_of rnd c order timestamp_ns r))))"

section \<open>Submitting and filling\<close>

text \<open>
  What callers pass as the quote of an order: nothing, a feature record, or (from the
  end-of-day flattening) a dict of features, on which reading \<open>symbol_id\<close> raises.
\<close>

datatype quote_arg = NoQuote | Quote feature_snapshot | QuoteDict "(int \<times> feature_snapshot) list"

definition make_fill_arg ::
  "(rat \<Rightarrow> rat) \<Rightarrow> execution_config \<Rightarrow> order_request \<Rightarrow> int \<Rightarrow> quote_arg \<Rightarrow> fill option result" where
  "make_fill_arg rnd c order timestamp_ns q =
     (case q of Quote f \<Rightarrow> make_fill rnd c order timestamp_ns f
      | _ \<Rightarrow> Inl (AttributeError ''symbol_id''))"

definition submit ::
  "(rat \<Rightarrow> rat) \<Rightarrow> order_request \<Rightarrow> int \<Rightarrow> quote_arg \<Rightarrow> bool \<Rightarrow> bool \<Rightarrow> execution \<Rightarrow>
     (fill list \<times> execution) result" where
  "submit rnd order timestamp_ns q is_quote force_immediate ex =
     (if rq_quantity order < 1 then Inl (ValueError ''order quantity must be positive'')
      else
        let eligible = (if force_immediate then timestamp_ns
                        else rq_order_timestamp_ns order + xc_latency_ns (ex_config ex));
            order = (if eligible \<noteq> rq_eligible_timestamp_ns order \<and> \<not> force_immediate
                     then order\<lparr>rq_eligible_timestamp_ns := eligible\<rparr> else order);
            queue = (ex\<lparr>ex_pending := ex_pending ex @ [order]\<rparr>)
        in if is_quote \<and> q \<noteq> NoQuote \<and> eligible \<le> timestamp_ns
           then rbind (make_fill_arg rnd (ex_config ex) order timestamp_ns q) (\<lambda>fill.
                  case fill of Some fi \<Rightarrow> Inr ([fi], ex) | None \<Rightarrow> Inr ([], queue))
           else Inr ([], queue))"

fun attempt_orders ::
  "(rat \<Rightarrow> rat) \<Rightarrow> execution_config \<Rightarrow> int \<Rightarrow> feature_snapshot \<Rightarrow> order_request list \<Rightarrow>
     (fill list \<times> order_request list) result" where
  "attempt_orders rnd c timestamp_ns f [] = Inr ([], [])"
| "attempt_orders rnd c timestamp_ns f (order # rest) =
     (if rq_symbol_id order \<noteq> ft_symbol_id f \<or> rq_eligible_timestamp_ns order > timestamp_ns
      then rbind (attempt_orders rnd c timestamp_ns f rest) (\<lambda>(fills, remaining).
             Inr (fills, order # remaining))
      else rbind (make_fill rnd c order timestamp_ns f) (\<lambda>fill.
           rbind (attempt_orders rnd c timestamp_ns f rest) (\<lambda>(fills, remaining).
             case fill of None \<Rightarrow> Inr (fills, order # remaining)
             | Some fi \<Rightarrow> Inr (fi # fills, remaining))))"

definition execution_on_quote ::
  "(rat \<Rightarrow> rat) \<Rightarrow> int \<Rightarrow> feature_snapshot \<Rightarrow> execution \<Rightarrow> (fill list \<times> execution) result" where
  "execution_on_quote rnd timestamp_ns f ex =
     rbind (attempt_orders rnd (ex_config ex) timestamp_ns f (ex_pending ex)) (\<lambda>(fills, remaining).
       Inr (fills, ex\<lparr>ex_pending := remaining\<rparr>))"

definition execution_flush :: "execution \<Rightarrow> order_request list \<times> execution" where
  "execution_flush ex =
     (ex_pending ex,
      ex\<lparr>ex_unfilled_orders := ex_unfilled_orders ex @ ex_pending ex, ex_pending := []\<rparr>)"

end
