(* ===== verification/Paper_Portfolio.thy ===== *)
theory Paper_Portfolio
  imports Paper_Execution Strategy_Model "HOL-Library.AList"
begin

text \<open>
  The paper portfolio of \<open>tools/backtest/portfolio_simulator.py\<close>: at most one position per
  symbol, pending orders, cash and profit accounting, risk exits and end-of-day flattening. The
  position dict is an association list in insertion order, as Python dicts iterate; every method
  that takes the execution simulator threads both objects. \<open>rnd\<close> is the float rounding.
\<close>

section \<open>Records\<close>

record portfolio_config =
  pc_starting_cash :: rat
  pc_sizing_mode :: string
  pc_fixed_shares :: int
  pc_fixed_notional :: rat
  pc_fixed_cash_pct :: rat
  pc_max_concurrent_positions :: "int option"
  pc_enable_short :: bool
  pc_no_pyramiding :: bool
  pc_reverse_same_event :: bool
  pc_opposite_candidate_exit :: bool
  pc_stop_loss_bps :: "rat option"
  pc_take_profit_bps :: "rat option"
  pc_max_holding_ns :: "int option"
  pc_end_of_day_flatten :: bool
  pc_max_gross_exposure :: "rat option"

record position =
  ps_symbol_id :: int
  ps_direction :: string
  ps_quantity :: int
  ps_entry_order_timestamp_ns :: int
  ps_entry_fill_timestamp_ns :: int
  ps_entry_price :: int
  ps_entry_candidate_timestamp_ns :: int
  ps_entry_reason_bits :: int
  ps_entry_score :: int
  ps_entry_feature :: "feature_snapshot option"
  ps_entry_costs :: rat
  ps_entry_sequence :: int
  ps_entry_eligible_timestamp_ns :: int
  ps_entry_side :: string
  ps_entry_reference_price :: int

record completed_trade =
  tr_symbol_id :: int
  tr_direction :: string
  tr_candidate_timestamp_ns :: int
  tr_entry_order_timestamp_ns :: int
  tr_entry_fill_timestamp_ns :: int
  tr_entry_price :: int
  tr_exit_timestamp_ns :: int
  tr_exit_reason :: string
  tr_exit_price :: int
  tr_quantity :: int
  tr_notional :: rat
  tr_gross_pnl :: rat
  tr_costs :: rat
  tr_net_pnl :: rat
  tr_holding_duration_ns :: int
  tr_entry_reason_bits :: int
  tr_entry_score :: int
  tr_entry_feature :: "feature_snapshot option"
  tr_entry_sequence :: int
  tr_entry_eligible_timestamp_ns :: int
  tr_entry_side :: string
  tr_entry_reference_price :: int
  tr_slippage_cost :: rat
  tr_commission :: rat

record equity_point =
  eq_timestamp_ns :: int
  eq_cash :: rat
  eq_equity :: rat
  eq_realized_pnl :: rat
  eq_unrealized_pnl :: rat
  eq_gross_exposure :: rat
  eq_net_exposure :: rat
  eq_open_positions :: int

record candidate_log =
  cl_timestamp_ns :: int
  cl_symbol_id :: int
  cl_sequence :: int
  cl_action :: int
  cl_score :: int
  cl_reason_bits :: int
  cl_portfolio_status :: string
  cl_order_id :: "int option"

record portfolio =
  pf_config :: portfolio_config
  pf_cash :: rat
  pf_positions :: "(int \<times> position) list"
  pf_pending_symbols :: "int set"
  pf_pending_order_ids :: "(int \<times> int) list"
  pf_completed_trades :: "completed_trade list"
  pf_candidate_logs :: "candidate_log list"
  pf_equity_curve :: "equity_point list"
  pf_record_candidate_logs :: bool
  pf_unrealized_pnl :: rat
  pf_realized_pnl :: rat
  pf_high_water_equity :: "rat option"
  pf_maximum_drawdown :: rat

section \<open>Configuration\<close>

definition portfolio_config_check :: "portfolio_config \<Rightarrow> portfolio_config result" where
  "portfolio_config_check c =
     (if pc_starting_cash c < 0 then Inl (ValueError ''starting_cash must be non-negative'')
      else if pc_sizing_mode c \<notin> {''fixed_shares'', ''fixed_notional'', ''cash_pct''}
      then Inl (ValueError ''sizing_mode must be fixed_shares, fixed_notional, or cash_pct'')
      else if pc_fixed_shares c < 1 \<or> pc_fixed_notional c < 0 \<or>
              \<not> (0 \<le> pc_fixed_cash_pct c \<and> pc_fixed_cash_pct c \<le> 1)
      then Inl (ValueError ''invalid position sizing settings'')
      else if (case pc_max_concurrent_positions c of None \<Rightarrow> False | Some n \<Rightarrow> n < 1)
      then Inl (ValueError ''max_concurrent_positions must be positive'')
      else Inr c)"

definition portfolio_init :: "portfolio_config \<Rightarrow> bool \<Rightarrow> portfolio" where
  "portfolio_init c record_logs =
     \<lparr>pf_config = c, pf_cash = pc_starting_cash c, pf_positions = [], pf_pending_symbols = {},
      pf_pending_order_ids = [], pf_completed_trades = [], pf_candidate_logs = [],
      pf_equity_curve = [], pf_record_candidate_logs = record_logs, pf_unrealized_pnl = 0,
      pf_realized_pnl = 0, pf_high_water_equity = None, pf_maximum_drawdown = 0\<rparr>"

section \<open>Accounting of fills\<close>

text \<open>\<open>price * quantity / 1_000_000.0\<close>: an exact integer product, then a float division.\<close>

definition dollars_of :: "(rat \<Rightarrow> rat) \<Rightarrow> int \<Rightarrow> int \<Rightarrow> rat" where
  "dollars_of rnd price quantity = rnd (rnd (of_int (price * quantity)) / 1000000)"

definition position_of_fill :: "fill \<Rightarrow> position" where
  "position_of_fill fi =
     \<lparr>ps_symbol_id = fi_symbol_id fi, ps_direction = fi_position_direction fi,
      ps_quantity = fi_quantity fi, ps_entry_order_timestamp_ns = fi_candidate_timestamp_ns fi,
      ps_entry_fill_timestamp_ns = fi_timestamp_ns fi, ps_entry_price = fi_fill_price fi,
      ps_entry_candidate_timestamp_ns = fi_candidate_timestamp_ns fi,
      ps_entry_reason_bits = fi_candidate_reason_bits fi, ps_entry_score = fi_candidate_score fi,
      ps_entry_feature = fi_candidate_feature fi, ps_entry_costs = fi_commission fi,
      ps_entry_sequence = fi_candidate_sequence fi,
      ps_entry_eligible_timestamp_ns = fi_eligible_timestamp_ns fi, ps_entry_side = fi_side fi,
      ps_entry_reference_price = fi_reference_price fi\<rparr>"

definition gross_of :: "(rat \<Rightarrow> rat) \<Rightarrow> position \<Rightarrow> fill \<Rightarrow> rat" where
  "gross_of rnd p fi =
     (if ps_direction p = ''long''
      then dollars_of rnd (fi_fill_price fi - ps_entry_price p) (ps_quantity p)
      else dollars_of rnd (ps_entry_price p - fi_fill_price fi) (ps_quantity p))"

definition trade_of :: "(rat \<Rightarrow> rat) \<Rightarrow> position \<Rightarrow> fill \<Rightarrow> completed_trade" where
  "trade_of rnd p fi =
     (let gross = gross_of rnd p fi;
          costs = rnd (ps_entry_costs p + fi_commission fi);
          net = rnd (gross - costs)
      in \<lparr>tr_symbol_id = fi_symbol_id fi, tr_direction = ps_direction p,
          tr_candidate_timestamp_ns = ps_entry_candidate_timestamp_ns p,
          tr_entry_order_timestamp_ns = ps_entry_order_timestamp_ns p,
          tr_entry_fill_timestamp_ns = ps_entry_fill_timestamp_ns p,
          tr_entry_price = ps_entry_price p, tr_exit_timestamp_ns = fi_timestamp_ns fi,
          tr_exit_reason = fi_exit_reason fi, tr_exit_price = fi_fill_price fi,
          tr_quantity = ps_quantity p,
          tr_notional = dollars_of rnd (ps_entry_price p) (ps_quantity p),
          tr_gross_pnl = gross, tr_costs = costs, tr_net_pnl = net,
          tr_holding_duration_ns = fi_timestamp_ns fi - ps_entry_fill_timestamp_ns p,
          tr_entry_reason_bits = ps_entry_reason_bits p, tr_entry_score = ps_entry_score p,
          tr_entry_feature = ps_entry_feature p, tr_entry_sequence = ps_entry_sequence p,
          tr_entry_eligible_timestamp_ns = ps_entry_eligible_timestamp_ns p,
          tr_entry_side = ps_entry_side p,
          tr_entry_reference_price = ps_entry_reference_price p,
          tr_slippage_cost =
            rnd (rnd (of_int (\<bar>ps_entry_price p - ps_entry_reference_price p\<bar> * ps_quantity p
                      + \<bar>fi_fill_price fi - fi_reference_price fi\<bar> * fi_quantity fi)) / 1000000),
          tr_commission = costs\<rparr>)"

definition apply_fill :: "(rat \<Rightarrow> rat) \<Rightarrow> portfolio \<Rightarrow> fill \<Rightarrow> portfolio" where
  "apply_fill rnd pf fi =
     (let symbol_id = fi_symbol_id fi;
          pf = pf\<lparr>pf_pending_symbols := pf_pending_symbols pf - {symbol_id},
                  pf_pending_order_ids := AList.delete symbol_id (pf_pending_order_ids pf)\<rparr>;
          dollars = dollars_of rnd (fi_fill_price fi) (fi_quantity fi)
      in if fi_purpose fi = ''entry'' then
           (if map_of (pf_positions pf) symbol_id \<noteq> None then pf
            else
              let pf = (if fi_position_direction fi = ''long''
                        then pf\<lparr>pf_cash := rnd (pf_cash pf - rnd (dollars + fi_commission fi))\<rparr>
                        else pf\<lparr>pf_cash := rnd (pf_cash pf - fi_commission fi)\<rparr>)
              in pf\<lparr>pf_positions := AList.update symbol_id (position_of_fill fi) (pf_positions pf)\<rparr>)
         else case map_of (pf_positions pf) symbol_id of None \<Rightarrow> pf
         | Some p \<Rightarrow>
             let pf = pf\<lparr>pf_positions := AList.delete symbol_id (pf_positions pf)\<rparr>;
                 pf = (if ps_direction p = ''long''
                       then pf\<lparr>pf_cash := rnd (pf_cash pf + rnd (dollars - fi_commission fi))\<rparr>
                       else pf\<lparr>pf_cash := rnd (pf_cash pf + rnd
                              (dollars_of rnd (ps_entry_price p - fi_fill_price fi) (ps_quantity p)
                               - fi_commission fi))\<rparr>);
                 trade = trade_of rnd p fi
             in pf\<lparr>pf_completed_trades := pf_completed_trades pf @ [trade],
                   pf_realized_pnl := rnd (pf_realized_pnl pf + tr_net_pnl trade)\<rparr>)"

definition apply_fills :: "(rat \<Rightarrow> rat) \<Rightarrow> portfolio \<Rightarrow> fill list \<Rightarrow> portfolio" where
  "apply_fills rnd = foldl (apply_fill rnd)"

section \<open>Marking to market\<close>

definition mark_of :: "feature_snapshot \<Rightarrow> position \<Rightarrow> int" where
  "mark_of f p =
     (if ps_direction p = ''long''
      then if ft_symbol_id f = ps_symbol_id p \<and> ft_bid_price f > 0 then ft_bid_price f else ps_entry_price p
      else if ft_symbol_id f = ps_symbol_id p \<and> ft_ask_price f > 0 then ft_ask_price f else ps_entry_price p)"

fun mark_positions ::
  "(rat \<Rightarrow> rat) \<Rightarrow> feature_snapshot \<Rightarrow> position list \<Rightarrow> rat \<times> rat \<times> rat \<Rightarrow> rat \<times> rat \<times> rat" where
  "mark_positions rnd f [] acc = acc"
| "mark_positions rnd f (p # ps) (unrealized, gross, net) =
     (let mark = mark_of f p; value = dollars_of rnd mark (ps_quantity p) in
      if ps_direction p = ''long''
      then mark_positions rnd f ps
             (rnd (unrealized + dollars_of rnd (mark - ps_entry_price p) (ps_quantity p)),
              rnd (gross + value), rnd (net + value))
      else mark_positions rnd f ps
             (rnd (unrealized + dollars_of rnd (ps_entry_price p - mark) (ps_quantity p)),
              rnd (gross + value), rnd (net - value)))"

text \<open>\<open>sum()\<close> adds from the left, starting at zero.\<close>

definition py_sum :: "(rat \<Rightarrow> rat) \<Rightarrow> rat list \<Rightarrow> rat" where
  "py_sum rnd = foldl (\<lambda>acc x. rnd (acc + x)) 0"

definition equity_point_of :: "(rat \<Rightarrow> rat) \<Rightarrow> int \<Rightarrow> feature_snapshot \<Rightarrow> portfolio \<Rightarrow> equity_point" where
  "equity_point_of rnd timestamp_ns f pf =
     (let positions = map snd (pf_positions pf);
          (unrealized, gross, net) = mark_positions rnd f positions (0, 0, 0);
          invested = py_sum rnd (map (\<lambda>p. dollars_of rnd (ps_entry_price p) (ps_quantity p))
                       (filter (\<lambda>p. ps_direction p = ''long'') positions))
      in \<lparr>eq_timestamp_ns = timestamp_ns, eq_cash = pf_cash pf,
          eq_equity = rnd (rnd (pf_cash pf + unrealized) + invested),
          eq_realized_pnl = pf_realized_pnl pf, eq_unrealized_pnl = unrealized,
          eq_gross_exposure = gross, eq_net_exposure = net,
          eq_open_positions = int (length (pf_positions pf))\<rparr>)"

definition mark_to_market ::
  "(rat \<Rightarrow> rat) \<Rightarrow> int \<Rightarrow> feature_snapshot \<Rightarrow> bool \<Rightarrow> portfolio \<Rightarrow> equity_point \<times> portfolio" where
  "mark_to_market rnd timestamp_ns f to_curve pf =
     (let point = equity_point_of rnd timestamp_ns f pf;
          high = (case pf_high_water_equity pf of None \<Rightarrow> eq_equity point
                  | Some h \<Rightarrow> max h (eq_equity point));
          pf = pf\<lparr>pf_unrealized_pnl := eq_unrealized_pnl point, pf_high_water_equity := Some high,
                  pf_maximum_drawdown := min (pf_maximum_drawdown pf) (rnd (eq_equity point - high))\<rparr>
      in (point, if to_curve then pf\<lparr>pf_equity_curve := pf_equity_curve pf @ [point]\<rparr> else pf))"

end
