(* ===== verification/Paper_Desk.thy ===== *)
theory Paper_Desk
  imports Paper_Portfolio
begin

text \<open>
  The decisions of the paper portfolio: sizing and admission of entries, exits on opposite
  candidates, risk limits and at the end of the day, and the methods that run them against the
  execution simulator. A \<open>desk\<close> is the pair of objects these methods mutate.
\<close>

record desk =
  dk_portfolio :: portfolio
  dk_execution :: execution

section \<open>Sizing and admission\<close>

text \<open>\<open>x // y\<close> on floats is the floor of the quotient, as a float.\<close>

definition py_floordiv :: "(rat \<Rightarrow> rat) \<Rightarrow> rat \<Rightarrow> rat \<Rightarrow> rat" where
  "py_floordiv rnd x y = rnd (of_int \<lfloor>x / y\<rfloor>)"

definition order_size :: "(rat \<Rightarrow> rat) \<Rightarrow> portfolio \<Rightarrow> int \<Rightarrow> int" where
  "order_size rnd pf price =
     (let c = pf_config pf in
      if pc_sizing_mode c = ''fixed_shares'' then pc_fixed_shares c
      else if pc_sizing_mode c = ''cash_pct''
      then max 1 (py_trunc (py_floordiv rnd (rnd (rnd (pf_cash pf * pc_fixed_cash_pct c) * 1000000))
                     (rnd (of_int price))))
      else max 1 (py_trunc (py_floordiv rnd (rnd (pc_fixed_notional c * 1000000))
                     (rnd (of_int price)))))"

definition gross_exposure :: "(rat \<Rightarrow> rat) \<Rightarrow> portfolio \<Rightarrow> rat" where
  "gross_exposure rnd pf =
     py_sum rnd (map (\<lambda>p. dollars_of rnd (ps_entry_price p) (ps_quantity p)) (map snd (pf_positions pf)))"

definition entry_order ::
  "(rat \<Rightarrow> rat) \<Rightarrow> candidate_signal \<Rightarrow> string \<Rightarrow> desk \<Rightarrow> (int \<times> order_request) option \<times> desk" where
  "entry_order rnd cand direction d =
     (let f = cs_feature cand; pf = dk_portfolio d; ex = dk_execution d; c = pf_config pf;
          price = (if direction = ''long'' then ft_ask_price f else ft_bid_price f) in
      if price \<le> 0 then (None, d)
      else
        let quantity = order_size rnd pf price in
        if quantity < 1 then (None, d)
        else
          let notional = dollars_of rnd price quantity;
              estimated_cost = commission_for rnd (ex_config ex) quantity in
          if direction = ''long'' \<and> pf_cash pf < rnd (notional + estimated_cost) then (None, d)
          else if direction = ''short'' \<and> pf_cash pf < estimated_cost then (None, d)
          else if (case pc_max_concurrent_positions c of None \<Rightarrow> False
                   | Some n \<Rightarrow> int (length (pf_positions pf)) \<ge> n) then (None, d)
          else if pc_no_pyramiding c \<and> map_of (pf_positions pf) (cs_symbol_id cand) \<noteq> None
          then (None, d)
          else if rnd (gross_exposure rnd pf + notional) >
              (case pc_max_gross_exposure c of Some x \<Rightarrow> x | None \<Rightarrow> pc_starting_cash c)
          then (None, d)
          else
            let (order_id, ex) = new_order_id ex;
                order = \<lparr>rq_order_id = order_id, rq_symbol_id = cs_symbol_id cand,
                  rq_side = (if direction = ''long'' then ''buy'' else ''sell''),
                  rq_purpose = ''entry'', rq_position_direction = direction,
                  rq_quantity = quantity, rq_order_timestamp_ns = cs_timestamp_ns cand,
                  rq_eligible_timestamp_ns = cs_timestamp_ns cand + xc_latency_ns (ex_config ex),
                  rq_candidate_timestamp_ns = cs_timestamp_ns cand,
                  rq_candidate_reason_bits = cs_reason_bits cand,
                  rq_candidate_score = cs_score cand, rq_exit_reason = [],
                  rq_candidate_sequence = cs_sequence cand,
                  rq_candidate_feature = Some (cs_feature cand)\<rparr>
            in (Some (order_id, order), d\<lparr>dk_execution := ex\<rparr>))"

definition exit_order ::
  "position \<Rightarrow> int \<Rightarrow> string \<Rightarrow> int \<Rightarrow> int \<Rightarrow> int \<Rightarrow> int \<Rightarrow> feature_snapshot option \<Rightarrow> execution \<Rightarrow>
     int \<times> order_request \<times> execution" where
  "exit_order p timestamp_ns reason cand_timestamp cand_reason_bits cand_score cand_sequence cand_feature ex =
     (let (order_id, ex) = new_order_id ex in
      (order_id,
       \<lparr>rq_order_id = order_id, rq_symbol_id = ps_symbol_id p,
        rq_side = (if ps_direction p = ''long'' then ''sell'' else ''buy''),
        rq_purpose = ''exit'', rq_position_direction = ps_direction p,
        rq_quantity = ps_quantity p, rq_order_timestamp_ns = timestamp_ns,
        rq_eligible_timestamp_ns = timestamp_ns + xc_latency_ns (ex_config ex),
        rq_candidate_timestamp_ns = cand_timestamp, rq_candidate_reason_bits = cand_reason_bits,
        rq_candidate_score = cand_score, rq_exit_reason = reason,
        rq_candidate_sequence = cand_sequence, rq_candidate_feature = cand_feature\<rparr>, ex))"

text \<open>\<open>pending_symbols.add\<close> and the order id kept beside it.\<close>

definition mark_pending :: "int \<Rightarrow> int \<Rightarrow> portfolio \<Rightarrow> portfolio" where
  "mark_pending symbol_id order_id pf =
     pf\<lparr>pf_pending_symbols := insert symbol_id (pf_pending_symbols pf),
        pf_pending_order_ids := AList.update symbol_id order_id (pf_pending_order_ids pf)\<rparr>"

text \<open>Submit an order for a symbol and book what it fills at once.\<close>

definition submit_and_apply ::
  "(rat \<Rightarrow> rat) \<Rightarrow> int \<Rightarrow> order_request \<Rightarrow> int \<Rightarrow> feature_snapshot \<Rightarrow> bool \<Rightarrow> desk \<Rightarrow>
     (fill list \<times> desk) result" where
  "submit_and_apply rnd order_id order timestamp_ns f is_quote d =
     (let pf = mark_pending (rq_symbol_id order) order_id (dk_portfolio d) in
      rbind (submit rnd order timestamp_ns (Quote f) is_quote False (dk_execution d)) (\<lambda>(fills, ex).
        Inr (fills, \<lparr>dk_portfolio = apply_fills rnd pf fills, dk_execution = ex\<rparr>)))"

definition submit_entry ::
  "(rat \<Rightarrow> rat) \<Rightarrow> candidate_signal \<Rightarrow> string \<Rightarrow> bool \<Rightarrow> desk \<Rightarrow> (fill list \<times> desk) result" where
  "submit_entry rnd cand direction is_quote d =
     (let (entry, d) = entry_order rnd cand direction d in
      case entry of None \<Rightarrow> Inr ([], d)
      | Some (order_id, order) \<Rightarrow>
          submit_and_apply rnd order_id order (cs_timestamp_ns cand) (cs_feature cand) is_quote d)"

definition submit_exit ::
  "(rat \<Rightarrow> rat) \<Rightarrow> position \<Rightarrow> int \<Rightarrow> feature_snapshot \<Rightarrow> string \<Rightarrow> candidate_signal option \<Rightarrow> bool \<Rightarrow>
     desk \<Rightarrow> (fill list \<times> int \<times> desk) result" where
  "submit_exit rnd p timestamp_ns f reason cand is_quote d =
     (let (order_id, order, ex) =
        (case cand of
           Some c \<Rightarrow> exit_order p timestamp_ns reason (cs_timestamp_ns c) (cs_reason_bits c)
                      (cs_score c) (cs_sequence c) (Some (cs_feature c)) (dk_execution d)
         | None \<Rightarrow> exit_order p timestamp_ns reason (ps_entry_candidate_timestamp_ns p) 0 0 0 None
                     (dk_execution d))
      in rbind (submit_and_apply rnd order_id order timestamp_ns f is_quote (d\<lparr>dk_execution := ex\<rparr>))
           (\<lambda>(fills, d). Inr (fills, order_id, d)))"

section \<open>Candidates\<close>

definition log_candidate ::
  "candidate_signal \<Rightarrow> string \<Rightarrow> int option \<Rightarrow> portfolio \<Rightarrow> portfolio" where
  "log_candidate cand status order_id pf =
     (if \<not> pf_record_candidate_logs pf then pf
      else pf\<lparr>pf_candidate_logs := pf_candidate_logs pf @
        [\<lparr>cl_timestamp_ns = cs_timestamp_ns cand, cl_symbol_id = cs_symbol_id cand,
          cl_sequence = cs_sequence cand, cl_action = cs_action cand, cl_score = cs_score cand,
          cl_reason_bits = cs_reason_bits cand, cl_portfolio_status = status,
          cl_order_id = order_id\<rparr>]\<rparr>)"

definition log_on_desk :: "candidate_signal \<Rightarrow> string \<Rightarrow> int option \<Rightarrow> desk \<Rightarrow> desk" where
  "log_on_desk cand status order_id d =
     d\<lparr>dk_portfolio := log_candidate cand status order_id (dk_portfolio d)\<rparr>"

definition desired_direction :: "candidate_signal \<Rightarrow> string" where
  "desired_direction cand =
     (if cs_action cand = SIGNAL_LONG_CANDIDATE then ''long'' else ''short'')"

definition consider_flat ::
  "(rat \<Rightarrow> rat) \<Rightarrow> candidate_signal \<Rightarrow> bool \<Rightarrow> desk \<Rightarrow> (fill list \<times> desk) result" where
  "consider_flat rnd cand is_quote d =
     (let (entry, d) = entry_order rnd cand (desired_direction cand) d in
      case entry of None \<Rightarrow> Inr ([], log_on_desk cand ''entry_suppressed'' None d)
      | Some (order_id, order) \<Rightarrow>
          let pf = mark_pending (cs_symbol_id cand) order_id (dk_portfolio d) in
          rbind (submit rnd order (cs_timestamp_ns cand) (Quote (cs_feature cand)) is_quote False
                   (dk_execution d)) (\<lambda>(fills, ex).
            let status = (if fills \<noteq> [] then ''entry_filled'' else ''entry_submitted'');
                pf = log_candidate cand status (Some order_id) pf
            in Inr (fills, \<lparr>dk_portfolio = apply_fills rnd pf fills, dk_execution = ex\<rparr>)))"

definition consider_held ::
  "(rat \<Rightarrow> rat) \<Rightarrow> candidate_signal \<Rightarrow> bool \<Rightarrow> position \<Rightarrow> desk \<Rightarrow> (fill list \<times> desk) result" where
  "consider_held rnd cand is_quote current d =
     (let c = pf_config (dk_portfolio d); desired = desired_direction cand in
      if ps_direction current = desired then Inr ([], log_on_desk cand ''already_in_position'' None d)
      else if \<not> pc_opposite_candidate_exit c
      then Inr ([], log_on_desk cand ''opposite_candidate_ignored'' None d)
      else
        rbind (submit_exit rnd current (cs_timestamp_ns cand) (cs_feature cand)
                 ''opposite_candidate'' (Some cand) is_quote d) (\<lambda>(fills, order_id, d).
          let d = log_on_desk cand ''exit_submitted'' (Some order_id) d in
          if pc_reverse_same_event c \<and> fills \<noteq> [] \<and>
             map_of (pf_positions (dk_portfolio d)) (cs_symbol_id cand) = None
          then rbind (submit_entry rnd cand desired is_quote d) (\<lambda>(extra, d). Inr (fills @ extra, d))
          else Inr (fills, d)))"

definition consider_candidate ::
  "(rat \<Rightarrow> rat) \<Rightarrow> candidate_signal \<Rightarrow> bool \<Rightarrow> desk \<Rightarrow> (fill list \<times> desk) result" where
  "consider_candidate rnd cand is_quote d =
     (let pf = dk_portfolio d in
      if cs_action cand = SIGNAL_NONE then Inr ([], log_on_desk cand ''no_action'' None d)
      else if cs_symbol_id cand \<in> pf_pending_symbols pf
      then Inr ([], log_on_desk cand ''pending_order'' None d)
      else if desired_direction cand = ''short'' \<and> \<not> pc_enable_short (pf_config pf)
      then Inr ([], log_on_desk cand ''short_disabled'' None d)
      else case map_of (pf_positions pf) (cs_symbol_id cand) of
        Some current \<Rightarrow> consider_held rnd cand is_quote current d
      | None \<Rightarrow> consider_flat rnd cand is_quote d)"

section \<open>Quotes and risk\<close>

definition desk_on_quote ::
  "(rat \<Rightarrow> rat) \<Rightarrow> int \<Rightarrow> feature_snapshot \<Rightarrow> desk \<Rightarrow> (fill list \<times> desk) result" where
  "desk_on_quote rnd timestamp_ns f d =
     rbind (execution_on_quote rnd timestamp_ns f (dk_execution d)) (\<lambda>(fills, ex).
       Inr (fills, \<lparr>dk_portfolio = apply_fills rnd (dk_portfolio d) fills, dk_execution = ex\<rparr>))"

definition holding_expired :: "portfolio_config \<Rightarrow> int \<Rightarrow> position \<Rightarrow> bool" where
  "holding_expired c timestamp_ns p =
     (case pc_max_holding_ns c of None \<Rightarrow> False
      | Some limit \<Rightarrow> timestamp_ns - ps_entry_fill_timestamp_ns p \<ge> limit)"

text \<open>\<open>entry_price * (1 \<plusminus> bps / 10_000)\<close>\<close>

definition price_below :: "(rat \<Rightarrow> rat) \<Rightarrow> int \<Rightarrow> rat \<Rightarrow> rat" where
  "price_below rnd price bps = rnd (rnd (of_int price) * rnd (1 - rnd (bps / 10000)))"

definition price_above :: "(rat \<Rightarrow> rat) \<Rightarrow> int \<Rightarrow> rat \<Rightarrow> rat" where
  "price_above rnd price bps = rnd (rnd (of_int price) * rnd (1 + rnd (bps / 10000)))"

definition risk_reason ::
  "(rat \<Rightarrow> rat) \<Rightarrow> portfolio_config \<Rightarrow> int \<Rightarrow> feature_snapshot \<Rightarrow> position \<Rightarrow> bool \<Rightarrow> string option" where
  "risk_reason rnd c timestamp_ns f p is_quote =
     (let expired = (if holding_expired c timestamp_ns p then Some ''max_holding'' else None);
          is_long = (ps_direction p = ''long'');
          mark = (if is_long then ft_bid_price f else ft_ask_price f) in
      if \<not> is_quote \<or> ft_symbol_id f \<noteq> ps_symbol_id p then expired
      else if mark \<le> 0 then None
      else if (case pc_stop_loss_bps c of None \<Rightarrow> False
        | Some bps \<Rightarrow> if is_long then of_int mark \<le> price_below rnd (ps_entry_price p) bps
                      else of_int mark \<ge> price_above rnd (ps_entry_price p) bps)
      then Some ''stop_loss''
      else if (case pc_take_profit_bps c of None \<Rightarrow> False
        | Some bps \<Rightarrow> if is_long then of_int mark \<ge> price_above rnd (ps_entry_price p) bps
                      else of_int mark \<le> price_below rnd (ps_entry_price p) bps)
      then Some ''take_profit''
      else expired)"

fun risk_loop ::
  "(rat \<Rightarrow> rat) \<Rightarrow> int \<Rightarrow> feature_snapshot \<Rightarrow> bool \<Rightarrow> position list \<Rightarrow> desk \<Rightarrow> (fill list \<times> desk) result" where
  "risk_loop rnd timestamp_ns f is_quote [] d = Inr ([], d)"
| "risk_loop rnd timestamp_ns f is_quote (p # ps) d =
     (if ps_symbol_id p \<in> pf_pending_symbols (dk_portfolio d)
      then risk_loop rnd timestamp_ns f is_quote ps d
      else case risk_reason rnd (pf_config (dk_portfolio d)) timestamp_ns f p is_quote of
        None \<Rightarrow> risk_loop rnd timestamp_ns f is_quote ps d
      | Some reason \<Rightarrow>
          rbind (submit_exit rnd p timestamp_ns f reason None
                   (is_quote \<and> ft_symbol_id f = ps_symbol_id p) d) (\<lambda>(fills, _, d).
          rbind (risk_loop rnd timestamp_ns f is_quote ps d) (\<lambda>(more, d). Inr (fills @ more, d))))"

definition evaluate_risk ::
  "(rat \<Rightarrow> rat) \<Rightarrow> int \<Rightarrow> feature_snapshot \<Rightarrow> bool \<Rightarrow> desk \<Rightarrow> (fill list \<times> desk) result" where
  "evaluate_risk rnd timestamp_ns f is_quote d =
     risk_loop rnd timestamp_ns f is_quote (map snd (pf_positions (dk_portfolio d))) d"

section \<open>End of day\<close>

datatype flatten_arg = OneQuote feature_snapshot | LastQuotes "(int \<times> feature_snapshot) list"

definition flatten_quote :: "flatten_arg \<Rightarrow> int \<Rightarrow> quote_arg" where
  "flatten_quote arg symbol_id =
     (case arg of OneQuote f \<Rightarrow> Quote f
      | LastQuotes fs \<Rightarrow> (case map_of fs symbol_id of Some f \<Rightarrow> Quote f | None \<Rightarrow> QuoteDict fs))"

fun flatten_loop ::
  "(rat \<Rightarrow> rat) \<Rightarrow> int \<Rightarrow> flatten_arg \<Rightarrow> bool \<Rightarrow> position list \<Rightarrow> desk \<Rightarrow> (fill list \<times> desk) result" where
  "flatten_loop rnd timestamp_ns arg force_immediate [] d = Inr ([], d)"
| "flatten_loop rnd timestamp_ns arg force_immediate (p # ps) d =
     (if ps_symbol_id p \<in> pf_pending_symbols (dk_portfolio d)
      then flatten_loop rnd timestamp_ns arg force_immediate ps d
      else
        let (order_id, order, ex) =
              exit_order p timestamp_ns ''end_of_day'' timestamp_ns 0 0 0 None (dk_execution d);
            pf = mark_pending (ps_symbol_id p) order_id (dk_portfolio d) in
        rbind (submit rnd order timestamp_ns (flatten_quote arg (ps_symbol_id p)) True
                 force_immediate ex) (\<lambda>(fills, ex).
        rbind (flatten_loop rnd timestamp_ns arg force_immediate ps
                 \<lparr>dk_portfolio = pf, dk_execution = ex\<rparr>) (\<lambda>(more, d). Inr (fills @ more, d))))"

definition flatten_positions ::
  "(rat \<Rightarrow> rat) \<Rightarrow> int \<Rightarrow> flatten_arg \<Rightarrow> bool \<Rightarrow> desk \<Rightarrow> (fill list \<times> desk) result" where
  "flatten_positions rnd timestamp_ns arg force_immediate d =
     rbind (flatten_loop rnd timestamp_ns arg force_immediate
              (map snd (pf_positions (dk_portfolio d))) d) (\<lambda>(fills, d).
       Inr (fills, d\<lparr>dk_portfolio := apply_fills rnd (dk_portfolio d) fills\<rparr>))"

end
