(* ===== verification/Paper_Fills.thy ===== *)
theory Paper_Fills
  imports Paper_Desk
begin

text \<open>
  Correctness of the execution simulator: which orders a quote fills and in which order, that a
  fill never happens before the order's eligibility, and that it is never better for the
  trader than the visible quote.
\<close>

section \<open>Single fills\<close>

definition valid_side :: "order_request \<Rightarrow> bool" where
  "valid_side order \<longleftrightarrow> rq_side order = ''buy'' \<or> rq_side order = ''sell''"

text \<open>The price an order would trade against, when the quote can fill it.\<close>

definition touch_price :: "order_request \<Rightarrow> feature_snapshot \<Rightarrow> int" where
  "touch_price order f = (if rq_side order = ''buy'' then ft_ask_price f else ft_bid_price f)"

definition fillable :: "order_request \<Rightarrow> feature_snapshot \<Rightarrow> bool" where
  "fillable order f \<longleftrightarrow> ft_symbol_id f = rq_symbol_id order \<and> ft_spread_valid f \<and>
     touch_price order f > 0 \<and>
     (if rq_side order = ''buy'' then ft_ask_quantity f else ft_bid_quantity f) > 0"

lemma make_fill_eq:
  "valid_side order \<Longrightarrow> make_fill rnd c order ts f =
     Inr (if fillable order f then Some (fill_of rnd c order ts (touch_price order f)) else None)"
  by (auto simp: valid_side_def make_fill_def reference_price_def fillable_def touch_price_def)

section \<open>The book of pending orders\<close>

definition due :: "int \<Rightarrow> feature_snapshot \<Rightarrow> order_request \<Rightarrow> bool" where
  "due ts f order \<longleftrightarrow> rq_eligible_timestamp_ns order \<le> ts \<and> fillable order f"

lemma attempt_orders_eq:
  assumes "\<forall>order\<in>set orders. valid_side order"
  shows "attempt_orders rnd c ts f orders =
    Inr (map (\<lambda>order. fill_of rnd c order ts (touch_price order f)) (filter (due ts f) orders),
         filter (\<lambda>order. \<not> due ts f order) orders)"
  using assms
proof (induction orders)
  case Nil
  then show ?case by simp
next
  case (Cons order rest)
  then have side: "valid_side order" by simp
  show ?case
  proof (cases "rq_symbol_id order \<noteq> ft_symbol_id f \<or> rq_eligible_timestamp_ns order > ts")
    case True
    then have "\<not> due ts f order" by (auto simp: due_def fillable_def)
    with Cons True show ?thesis by simp
  next
    case False
    with Cons side show ?thesis by (simp add: make_fill_eq due_def)
  qed
qed

text \<open>
  A quote fills exactly the pending orders of its symbol whose eligibility time has come
  and whose touch is quoted with size in an uncrossed book, in submission order, and all of them
  at that quote's time; the others stay pending in their order and nothing raises.
\<close>

theorem on_quote_fills_due_orders:
  assumes "\<forall>order\<in>set (ex_pending ex). valid_side order"
  shows "execution_on_quote rnd ts f ex =
    Inr (map (\<lambda>order. fill_of rnd (ex_config ex) order ts (touch_price order f))
           (filter (due ts f) (ex_pending ex)),
         ex\<lparr>ex_pending := filter (\<lambda>order. \<not> due ts f order) (ex_pending ex)\<rparr>)"
  by (simp add: execution_on_quote_def attempt_orders_eq [OF assms])

definition demo_quote :: "int \<Rightarrow> int \<Rightarrow> int \<Rightarrow> feature_snapshot" where
  "demo_quote symb bid ask =
     \<lparr>ft_symbol_id = symb, ft_sequence = 1, ft_bid_price = bid, ft_bid_quantity = 900,
      ft_ask_price = ask, ft_ask_quantity = 700, ft_spread = ask - bid, ft_spread_valid = (bid \<le> ask),
      ft_midpoint = 100000000, ft_midpoint_valid = True, ft_momentum = 0, ft_momentum_valid = False,
      ft_rolling_volume = 0, ft_imbalance_numerator = 200, ft_imbalance_denominator = 1600,
      ft_imbalance_valid = True, ft_vwap_sum_price_quantity = 0, ft_vwap_sum_quantity = 0,
      ft_vwap_valid = False, ft_vwap = 0, ft_vwap_quotient_valid = False,
      ft_imbalance_normalized = 4096, ft_imbalance_normalized_valid = True,
      ft_spread_bps_x100 = 200, ft_spread_bps_x100_valid = True, ft_momentum_bps_x100 = 0,
      ft_momentum_bps_x100_valid = False, ft_midpoint_minus_vwap = 0,
      ft_midpoint_minus_vwap_valid = False, ft_midpoint_minus_vwap_bps_x100 = 0,
      ft_midpoint_minus_vwap_bps_x100_valid = False\<rparr>"

definition demo_order :: "string \<Rightarrow> int \<Rightarrow> order_request" where
  "demo_order side eligible =
     \<lparr>rq_order_id = 1, rq_symbol_id = 0, rq_side = side, rq_purpose = ''entry'',
      rq_position_direction = ''long'', rq_quantity = 10, rq_order_timestamp_ns = 0,
      rq_eligible_timestamp_ns = eligible, rq_candidate_timestamp_ns = 0,
      rq_candidate_reason_bits = 0, rq_candidate_score = 0, rq_exit_reason = [],
      rq_candidate_sequence = 0, rq_candidate_feature = None\<rparr>"

definition demo_execution_config :: execution_config where
  "demo_execution_config =
     \<lparr>xc_latency_ns = 50, xc_fixed_slippage_micro = 5000, xc_slippage_bps = 1,
      xc_commission_per_trade = 1, xc_commission_per_share = 1 / 128, xc_minimum_commission = 1\<rparr>"

theorem on_quote_fills_due_orders_witness:
  "\<exists>fills ex'. execution_on_quote fl64 60 (demo_quote 0 99990000 100010000)
     ((execution_init (Some demo_execution_config))
        \<lparr>ex_pending := [demo_order ''buy'' 50, demo_order ''buy'' 70]\<rparr>) = Inr (fills, ex') \<and>
     map fi_reference_price fills = [100010000] \<and> ex_pending ex' = [demo_order ''buy'' 70]"
proof -
  let ?ex = "(execution_init (Some demo_execution_config))
    \<lparr>ex_pending := [demo_order ''buy'' 50, demo_order ''buy'' 70]\<rparr>"
  have "\<forall>order\<in>set (ex_pending ?ex). valid_side order"
    by (simp add: valid_side_def demo_order_def)
  from on_quote_fills_due_orders [OF this, of fl64 60 "demo_quote 0 99990000 100010000"] show ?thesis
    by (simp add: due_def fillable_def touch_price_def demo_order_def demo_quote_def fill_of_def)
qed

section \<open>No fill is better than the quote\<close>

definition valid_execution_config :: "execution_config \<Rightarrow> bool" where
  "valid_execution_config c \<longleftrightarrow> execution_config_check c = Inr c"

lemma valid_execution_configD:
  "valid_execution_config c \<Longrightarrow> 0 \<le> xc_latency_ns c \<and> 0 \<le> xc_fixed_slippage_micro c \<and>
     0 \<le> xc_slippage_bps c \<and> 0 \<le> xc_commission_per_trade c \<and> 0 \<le> xc_commission_per_share c \<and>
     0 \<le> xc_minimum_commission c"
  by (auto simp: valid_execution_config_def execution_config_check_def split: if_splits)

lemma py_trunc_nonneg: "0 \<le> x \<Longrightarrow> 0 \<le> py_trunc x"
  by (simp add: py_trunc_def)

context float_rounding
begin

lemma slippage_bps_nonneg:
  assumes "valid_execution_config c" "0 \<le> r"
  shows "0 \<le> py_trunc (rnd (rnd (rnd (of_int r) * xc_slippage_bps c) / 10000))"
  using valid_execution_configD [OF assms(1)] assms(2)
  by (intro py_trunc_nonneg rnd_nonneg divide_nonneg_nonneg mult_nonneg_nonneg) simp_all

lemma slippage_adverse:
  assumes "valid_execution_config c" "0 < r"
  shows "(if side = ''buy'' then r \<le> apply_slippage rnd c r side
      else 1 \<le> apply_slippage rnd c r side \<and> apply_slippage rnd c r side \<le> r)"
  using slippage_bps_nonneg [OF assms(1), of r] valid_execution_configD [OF assms(1)] assms(2)
  by (simp add: apply_slippage_def Let_def)

lemma commission_nonneg:
  assumes "valid_execution_config c"
  shows "0 \<le> commission_for rnd c q"
  using valid_execution_configD [OF assms]
  by (auto simp: commission_for_def Let_def max_def)

lemma fill_adverse:
  assumes "valid_execution_config c" "make_fill rnd c order ts f = Inr (Some fi)"
  shows "if fi_side fi = ''buy''
    then fi_reference_price fi = ft_ask_price f \<and> ft_ask_price f \<le> fi_fill_price fi
    else fi_reference_price fi = ft_bid_price f \<and> 1 \<le> fi_fill_price fi \<and> fi_fill_price fi \<le> ft_bid_price f"
proof -
  have side: "valid_side order"
    using assms(2) by (auto simp: make_fill_def reference_price_def valid_side_def split: if_splits)
  then have fi: "fillable order f" "fi = fill_of rnd c order ts (touch_price order f)"
    using assms(2) by (auto simp: make_fill_eq split: if_splits)
  then have "0 < touch_price order f" by (simp add: fillable_def)
  from slippage_adverse [OF assms(1) this, of "rq_side order"] show ?thesis
    by (simp add: fi(2) fill_of_def touch_price_def split: if_splits)
qed

end

text \<open>
  C24: Under binary64 arithmetic a fill is never better than the touch it consumes: a buy
  pays at least the ask, a sell receives at most the bid and at least one price unit, and the
  commission is never negative, for every valid execution configuration.
\<close>

theorem fill_never_better_than_touch:
  assumes "execution_config_check c = Inr c" "make_fill fl64 c order ts f = Inr (Some fi)"
  shows "0 \<le> fi_commission fi \<and>
    (if fi_side fi = ''buy'' then ft_ask_price f \<le> fi_fill_price fi
     else 1 \<le> fi_fill_price fi \<and> fi_fill_price fi \<le> ft_bid_price f)"
proof -
  have c: "valid_execution_config c" using assms(1) by (simp add: valid_execution_config_def)
  have "fi_commission fi = commission_for fl64 c (rq_quantity order)"
    using assms(2)
    by (auto simp: make_fill_def fill_of_def rbind_eq_Inr split: if_splits option.splits)
  then show ?thesis
    using binary64.fill_adverse [OF c assms(2)] binary64.commission_nonneg [OF c]
    by (simp split: if_splits)
qed

theorem fill_never_better_than_touch_witness:
  "\<exists>fi. make_fill fl64 demo_execution_config (demo_order ''sell'' 50) 60 (demo_quote 0 99990000 100010000)
       = Inr (Some fi) \<and>
     fi_side fi = ''sell'' \<and> 1 \<le> fi_fill_price fi \<and> fi_fill_price fi \<le> 99990000 \<and> 0 \<le> fi_commission fi"
proof -
  let ?f = "demo_quote 0 99990000 100010000"
  have c: "execution_config_check demo_execution_config = Inr demo_execution_config"
    by (simp add: execution_config_check_def demo_execution_config_def)
  have fi: "make_fill fl64 demo_execution_config (demo_order ''sell'' 50) 60 ?f =
      Inr (Some (fill_of fl64 demo_execution_config (demo_order ''sell'' 50) 60 99990000))"
    by (simp add: make_fill_eq valid_side_def fillable_def touch_price_def demo_order_def demo_quote_def)
  have side: "fi_side (fill_of fl64 demo_execution_config (demo_order ''sell'' 50) 60 99990000) = ''sell''"
    by (simp add: fill_of_def demo_order_def)
  have "ft_bid_price ?f = 99990000" by (simp add: demo_quote_def)
  with fill_never_better_than_touch [OF c fi] side fi show ?thesis by simp
qed

end
