(* ===== verification/Paper_Book.thy ===== *)
theory Paper_Book
  imports Paper_Fills
begin

text \<open>
  The invariant that ties the portfolio to the order book, over a set of outstanding orders:
  the pending symbols and order ids are those of the outstanding orders, at most one per symbol;
  an entry order waits only for a flat symbol, an exit order carries the direction and quantity of
  the position it closes. Two lemmas carry every operation of the desk: admitting an order and
  settling a fill.
\<close>

section \<open>Well-formed orders, positions and trades\<close>

definition allowed_direction :: "bool \<Rightarrow> string \<Rightarrow> bool" where
  "allowed_direction enable_short d \<longleftrightarrow> d = ''long'' \<or> (d = ''short'' \<and> enable_short)"

definition entry_order_ok :: "bool \<Rightarrow> int \<Rightarrow> (int \<times> position) list \<Rightarrow> order_request \<Rightarrow> bool" where
  "entry_order_ok en lat positions ord \<longleftrightarrow>
     rq_purpose ord = ''entry'' \<and> map_of positions (rq_symbol_id ord) = None \<and>
     allowed_direction en (rq_position_direction ord) \<and>
     rq_side ord = (if rq_position_direction ord = ''long'' then ''buy'' else ''sell'') \<and>
     rq_eligible_timestamp_ns ord = rq_candidate_timestamp_ns ord + lat"

definition exit_order_ok :: "(int \<times> position) list \<Rightarrow> order_request \<Rightarrow> bool" where
  "exit_order_ok positions ord \<longleftrightarrow>
     rq_purpose ord = ''exit'' \<and>
     rq_side ord = (if rq_position_direction ord = ''long'' then ''sell'' else ''buy'') \<and>
     (\<exists>p. map_of positions (rq_symbol_id ord) = Some p \<and>
        rq_position_direction ord = ps_direction p \<and> rq_quantity ord = ps_quantity p)"

definition order_ok :: "bool \<Rightarrow> int \<Rightarrow> int \<Rightarrow> (int \<times> position) list \<Rightarrow> order_request \<Rightarrow> bool" where
  "order_ok en lat n positions ord \<longleftrightarrow>
     1 \<le> rq_quantity ord \<and> rq_order_id ord < n \<and>
     (entry_order_ok en lat positions ord \<or> exit_order_ok positions ord)"

definition position_ok :: "bool \<Rightarrow> int \<Rightarrow> int \<times> position \<Rightarrow> bool" where
  "position_ok en lat = (\<lambda>(s, p).
     ps_symbol_id p = s \<and> allowed_direction en (ps_direction p) \<and> 1 \<le> ps_quantity p \<and>
     ps_entry_eligible_timestamp_ns p = ps_entry_candidate_timestamp_ns p + lat \<and>
     ps_entry_eligible_timestamp_ns p \<le> ps_entry_fill_timestamp_ns p)"

definition trade_ok :: "bool \<Rightarrow> int \<Rightarrow> completed_trade \<Rightarrow> bool" where
  "trade_ok en lat t \<longleftrightarrow>
     allowed_direction en (tr_direction t) \<and> 1 \<le> tr_quantity t \<and>
     tr_entry_eligible_timestamp_ns t = tr_candidate_timestamp_ns t + lat \<and>
     tr_entry_eligible_timestamp_ns t \<le> tr_entry_fill_timestamp_ns t"

definition ids_represent :: "(int \<times> int) list \<Rightarrow> order_request set \<Rightarrow> bool" where
  "ids_represent ids S \<longleftrightarrow>
     (\<forall>s i. map_of ids s = Some i \<longleftrightarrow> (\<exists>ord\<in>S. rq_symbol_id ord = s \<and> rq_order_id ord = i))"

definition book_inv :: "int \<Rightarrow> portfolio \<Rightarrow> order_request set \<Rightarrow> int \<Rightarrow> bool" where
  "book_inv lat pf S n \<longleftrightarrow>
     distinct (map fst (pf_positions pf)) \<and>
     (\<forall>x\<in>set (pf_positions pf). position_ok (pc_enable_short (pf_config pf)) lat x) \<and>
     (\<forall>t\<in>set (pf_completed_trades pf). trade_ok (pc_enable_short (pf_config pf)) lat t) \<and>
     inj_on rq_symbol_id S \<and> pf_pending_symbols pf = rq_symbol_id ` S \<and>
     ids_represent (pf_pending_order_ids pf) S \<and>
     (\<forall>ord\<in>S. order_ok (pc_enable_short (pf_config pf)) lat n (pf_positions pf) ord)"

lemma order_ok_side: "order_ok en lat n positions ord \<Longrightarrow> valid_side ord"
  by (auto simp: order_ok_def entry_order_ok_def exit_order_ok_def valid_side_def split: if_splits)

lemma order_ok_mono: "order_ok en lat n positions ord \<Longrightarrow> n \<le> n' \<Longrightarrow> order_ok en lat n' positions ord"
  by (auto simp: order_ok_def)

text \<open>An order only looks at the position of its own symbol.\<close>

lemma order_ok_cong:
  "map_of positions (rq_symbol_id ord) = map_of positions' (rq_symbol_id ord) \<Longrightarrow>
     order_ok en lat n positions ord = order_ok en lat n positions' ord"
  by (simp add: order_ok_def entry_order_ok_def exit_order_ok_def)

section \<open>Admitting an order\<close>

lemma ids_represent_update:
  assumes "ids_represent ids S" "\<forall>ord'\<in>S. rq_symbol_id ord' \<noteq> rq_symbol_id ord"
  shows "ids_represent (AList.update (rq_symbol_id ord) (rq_order_id ord) ids) (insert ord S)"
  using assms unfolding ids_represent_def update_conv' by (auto simp: AList.update_conv')

lemma ids_represent_delete:
  assumes "ids_represent ids S" "inj_on rq_symbol_id S" "ord \<in> S"
  shows "ids_represent (AList.delete (rq_symbol_id ord) ids) (S - {ord})"
proof -
  have other: "ord' \<in> S - {ord} \<longleftrightarrow> ord' \<in> S \<and> rq_symbol_id ord' \<noteq> rq_symbol_id ord" for ord'
    using assms(2,3) by (auto dest: inj_onD)
  show ?thesis
    using assms(1) unfolding ids_represent_def AList.delete_conv' Bex_def other by auto
qed

lemma book_inv_admit:
  assumes inv: "book_inv lat pf S n"
    and new: "rq_symbol_id ord \<notin> pf_pending_symbols pf"
    and ord: "order_ok (pc_enable_short (pf_config pf)) lat (n + 1) (pf_positions pf) ord"
  shows "book_inv lat (mark_pending (rq_symbol_id ord) (rq_order_id ord) pf) (insert ord S) (n + 1)"
proof -
  have S: "inj_on rq_symbol_id S" "pf_pending_symbols pf = rq_symbol_id ` S"
    "ids_represent (pf_pending_order_ids pf) S"
    "\<forall>ord\<in>S. order_ok (pc_enable_short (pf_config pf)) lat n (pf_positions pf) ord"
    using inv by (auto simp: book_inv_def)
  have fresh: "\<forall>ord'\<in>S. rq_symbol_id ord' \<noteq> rq_symbol_id ord" using new S(2) by (auto simp: image_iff)
  have "ids_represent (AList.update (rq_symbol_id ord) (rq_order_id ord) (pf_pending_order_ids pf)) (insert ord S)"
    by (rule ids_represent_update [OF S(3) fresh])
  moreover have "inj_on rq_symbol_id (insert ord S)" using S(1) fresh by auto
  ultimately show ?thesis
    using inv ord S(4) order_ok_mono [of _ _ n _ _ "n + 1"]
    by (auto simp: book_inv_def mark_pending_def)
qed

section \<open>Settling a fill\<close>

lemma map_of_append_None: "map_of al k = None \<Longrightarrow> AList.update k v al = al @ [(k, v)]"
  by (induction al) auto

lemma set_alist_delete: "set (AList.delete k al) = {x \<in> set al. fst x \<noteq> k}"
  by (auto simp: AList.delete_eq)

lemma distinct_keys_delete: "distinct (map fst al) \<Longrightarrow> distinct (map fst (AList.delete k al))"
  by (rule AList.distinct_delete)

lemma book_inv_outstanding:
  assumes "book_inv lat pf S n" "ord \<in> S"
  shows "order_ok (pc_enable_short (pf_config pf)) lat n (pf_positions pf) ord"
  using assms by (simp add: book_inv_def)

text \<open>What a fill does to the portfolio when its order was well formed: no branch is skipped.\<close>

lemma apply_fill_entry:
  assumes "entry_order_ok en lat (pf_positions pf) ord"
  shows "apply_fill rnd pf (fill_of rnd c ord ts r) =
    (let fi = fill_of rnd c ord ts r in pf\<lparr>
      pf_cash := (if rq_position_direction ord = ''long''
        then rnd (pf_cash pf - rnd (dollars_of rnd (fi_fill_price fi) (rq_quantity ord) + fi_commission fi))
        else rnd (pf_cash pf - fi_commission fi)),
      pf_positions := pf_positions pf @ [(rq_symbol_id ord, position_of_fill fi)],
      pf_pending_symbols := pf_pending_symbols pf - {rq_symbol_id ord},
      pf_pending_order_ids := AList.delete (rq_symbol_id ord) (pf_pending_order_ids pf)\<rparr>)"
proof -
  have ord: "rq_purpose ord = ''entry''" "map_of (pf_positions pf) (rq_symbol_id ord) = None"
    using assms by (auto simp: entry_order_ok_def)
  show ?thesis
    by (cases "rq_position_direction ord = ''long''")
      (simp_all add: apply_fill_def Let_def fill_of_def ord map_of_append_None)
qed

lemma apply_fill_exit:
  assumes "rq_purpose ord = ''exit''" "map_of (pf_positions pf) (rq_symbol_id ord) = Some p"
  shows "apply_fill rnd pf (fill_of rnd c ord ts r) =
    (let fi = fill_of rnd c ord ts r in pf\<lparr>
      pf_cash := (if ps_direction p = ''long''
        then rnd (pf_cash pf + rnd (dollars_of rnd (fi_fill_price fi) (rq_quantity ord) - fi_commission fi))
        else rnd (pf_cash pf + rnd (dollars_of rnd (ps_entry_price p - fi_fill_price fi) (ps_quantity p)
               - fi_commission fi))),
      pf_positions := AList.delete (rq_symbol_id ord) (pf_positions pf),
      pf_completed_trades := pf_completed_trades pf @ [trade_of rnd p fi],
      pf_realized_pnl := rnd (pf_realized_pnl pf + tr_net_pnl (trade_of rnd p fi)),
      pf_pending_symbols := pf_pending_symbols pf - {rq_symbol_id ord},
      pf_pending_order_ids := AList.delete (rq_symbol_id ord) (pf_pending_order_ids pf)\<rparr>)"
  using assms by (cases "ps_direction p = ''long''") (simp_all add: apply_fill_def Let_def fill_of_def)

lemma position_of_fill_ok:
  assumes "entry_order_ok en lat positions ord" "1 \<le> rq_quantity ord" "rq_eligible_timestamp_ns ord \<le> ts"
  shows "position_ok en lat (rq_symbol_id ord, position_of_fill (fill_of rnd c ord ts r))"
  using assms by (simp add: position_ok_def position_of_fill_def fill_of_def entry_order_ok_def)

lemma trade_of_fill_ok:
  "position_ok en lat (s, p) \<Longrightarrow> trade_ok en lat (trade_of rnd p fi)"
  by (simp add: position_ok_def trade_ok_def trade_of_def Let_def)

lemma book_inv_settle:
  assumes inv: "book_inv lat pf S n" and ord: "ord \<in> S"
    and ts: "rq_purpose ord = ''entry'' \<longrightarrow> rq_eligible_timestamp_ns ord \<le> ts"
  shows "book_inv lat (apply_fill rnd pf (fill_of rnd c ord ts r)) (S - {ord}) n"
proof -
  let ?en = "pc_enable_short (pf_config pf)" and ?s = "rq_symbol_id ord"
  have S: "distinct (map fst (pf_positions pf))" "\<forall>x\<in>set (pf_positions pf). position_ok ?en lat x"
    "\<forall>t\<in>set (pf_completed_trades pf). trade_ok ?en lat t"
    "inj_on rq_symbol_id S" "pf_pending_symbols pf = rq_symbol_id ` S"
    "ids_represent (pf_pending_order_ids pf) S"
    "\<forall>ord\<in>S. order_ok ?en lat n (pf_positions pf) ord"
    using inv by (auto simp: book_inv_def)
  have ok: "order_ok ?en lat n (pf_positions pf) ord" using S(7) ord by blast
  have other: "rq_symbol_id ord' \<noteq> ?s" if "ord' \<in> S - {ord}" for ord'
    using that ord S(4) by (auto dest: inj_onD)
  have pend: "rq_symbol_id ` S - {?s} = rq_symbol_id ` (S - {ord})"
    using other ord by auto
  note ids = ids_represent_delete [OF S(6,4) ord]
  have inj: "inj_on rq_symbol_id (S - {ord})" using S(4) by (rule inj_on_subset) auto
  show ?thesis
  proof (cases "rq_purpose ord = ''entry''")
    case True
    then have en: "entry_order_ok ?en lat (pf_positions pf) ord"
      using ok by (auto simp: order_ok_def exit_order_ok_def)
    let ?p = "position_of_fill (fill_of rnd c ord ts r)"
    have "position_ok ?en lat (?s, ?p)"
      using position_of_fill_ok [OF en] ok ts True by (simp add: order_ok_def)
    moreover have "?s \<notin> fst ` set (pf_positions pf)"
      using en by (simp add: entry_order_ok_def map_of_eq_None_iff)
    moreover have "order_ok ?en lat n (pf_positions pf @ [(?s, ?p)]) ord'" if "ord' \<in> S - {ord}" for ord'
      using S(7) that other [OF that]
      by (subst order_ok_cong [of _ _ "pf_positions pf"]) (auto simp: map_add_def split: option.splits)
    ultimately show ?thesis
      using S(1-3) ids pend inj
      by (simp add: apply_fill_entry [OF en] Let_def book_inv_def S(5))
  next
    case False
    then obtain p where ex: "rq_purpose ord = ''exit''" "map_of (pf_positions pf) ?s = Some p"
      using ok by (auto simp: order_ok_def exit_order_ok_def entry_order_ok_def)
    have "position_ok ?en lat (?s, p)" using S(2) map_of_SomeD [OF ex(2)] by blast
    then have "trade_ok ?en lat (trade_of rnd p (fill_of rnd c ord ts r))" by (rule trade_of_fill_ok)
    moreover have "order_ok ?en lat n (AList.delete ?s (pf_positions pf)) ord'" if "ord' \<in> S - {ord}" for ord'
      using S(7) that other [OF that]
      by (subst order_ok_cong [of _ _ "pf_positions pf"]) (auto simp: AList.delete_conv')
    ultimately show ?thesis
      using S(1-3) ids pend inj distinct_keys_delete [OF S(1)]
      by (simp add: apply_fill_exit [OF ex] Let_def book_inv_def S(5) set_alist_delete)
  qed
qed

section \<open>Laws of the accounts\<close>

text \<open>
  A law is a predicate of the portfolio that the bookkeeping around orders, logs and marks cannot
  touch and that settling the fill of an outstanding order keeps. Every such law holds of every
  desk that operations can reach (\<open>Paper_Reach\<close>).
\<close>

locale account_law =
  fixes rnd :: "rat \<Rightarrow> rat"
    and law :: "portfolio \<Rightarrow> bool"
  assumes law_init: "law (portfolio_init pc record_logs)"
    and law_pending: "law pf \<Longrightarrow> law (pf\<lparr>pf_pending_symbols := syms, pf_pending_order_ids := ids\<rparr>)"
    and law_logs: "law pf \<Longrightarrow> law (pf\<lparr>pf_candidate_logs := logs\<rparr>)"
    and law_mark: "law pf \<Longrightarrow> law (snd (mark_to_market rnd ts f to_curve pf))"
    and law_settle: "law pf \<Longrightarrow> book_inv lat pf S n \<Longrightarrow> ord \<in> S \<Longrightarrow>
      law (apply_fill rnd pf (fill_of rnd c ord ts r))"
begin

definition desk_ok :: "desk \<Rightarrow> bool" where
  "desk_ok d \<longleftrightarrow>
     law (dk_portfolio d) \<and> distinct (map rq_symbol_id (ex_pending (dk_execution d))) \<and>
     book_inv (xc_latency_ns (ex_config (dk_execution d))) (dk_portfolio d)
       (set (ex_pending (dk_execution d))) (ex_next_order_id (dk_execution d))"

lemma law_log_candidate: "law pf \<Longrightarrow> law (log_candidate cand status i pf)"
  by (simp add: log_candidate_def law_logs)

lemma law_mark_pending: "law pf \<Longrightarrow> law (mark_pending s i pf)"
  unfolding mark_pending_def by (rule law_pending)

end

end
