(* ===== verification/Paper_Run.thy ===== *)
theory Paper_Run
  imports Paper_Book
begin

text \<open>
  Every operation of the desk returns and keeps the book invariant and every account law. The
  operations are cut at their orders: \<open>submit_eq\<close> says what submitting does, and admitting and
  settling (\<open>Paper_Book\<close>) carry the rest.
\<close>

section \<open>What submitting does\<close>

lemma submit_eq:
  assumes "valid_side ord" "1 \<le> rq_quantity ord"
    and "rq_eligible_timestamp_ns ord = rq_order_timestamp_ns ord + xc_latency_ns (ex_config ex)"
  shows "submit rnd ord ts (Quote f) is_quote False ex =
    Inr (if is_quote \<and> due ts f ord
         then ([fill_of rnd (ex_config ex) ord ts (touch_price ord f)], ex)
         else ([], ex\<lparr>ex_pending := ex_pending ex @ [ord]\<rparr>))"
  using assms by (simp add: submit_def Let_def make_fill_arg_def make_fill_eq due_def)

lemma submit_forced_eq:
  assumes "valid_side ord" "1 \<le> rq_quantity ord"
  shows "submit rnd ord ts (Quote f) True True ex =
    Inr (if fillable ord f
         then ([fill_of rnd (ex_config ex) ord ts (touch_price ord f)], ex)
         else ([], ex\<lparr>ex_pending := ex_pending ex @ [ord]\<rparr>))"
  using assms by (simp add: submit_def Let_def make_fill_arg_def make_fill_eq)

text \<open>Reading \<open>symbol_id\<close> of a dict raises, when the order would be tried at once.\<close>

lemma submit_dict:
  assumes "1 \<le> rq_quantity ord"
  shows "submit rnd ord ts (QuoteDict fs) True True ex = Inl (AttributeError ''symbol_id'')"
  using assms by (simp add: submit_def Let_def make_fill_arg_def)

section \<open>What \<open>_entry_order\<close> and \<open>_exit_order\<close> return\<close>

definition entry_admitted ::
  "(rat \<Rightarrow> rat) \<Rightarrow> candidate_signal \<Rightarrow> string \<Rightarrow> desk \<Rightarrow> order_request \<Rightarrow> bool" where
  "entry_admitted rnd cand direction d ord \<longleftrightarrow>
     (let f = cs_feature cand; pf = dk_portfolio d; c = pf_config pf;
          price = (if direction = ''long'' then ft_ask_price f else ft_bid_price f);
          notional = dollars_of rnd price (rq_quantity ord);
          cost = commission_for rnd (ex_config (dk_execution d)) (rq_quantity ord) in
      0 < price \<and> rq_quantity ord = order_size rnd pf price \<and>
      (direction = ''long'' \<longrightarrow> rnd (notional + cost) \<le> pf_cash pf) \<and>
      (direction = ''short'' \<longrightarrow> cost \<le> pf_cash pf) \<and>
      (\<forall>n. pc_max_concurrent_positions c = Some n \<longrightarrow> int (length (pf_positions pf)) < n) \<and>
      rnd (gross_exposure rnd pf + notional) \<le>
        (case pc_max_gross_exposure c of Some x \<Rightarrow> x | None \<Rightarrow> pc_starting_cash c))"

definition entry_shape :: "candidate_signal \<Rightarrow> string \<Rightarrow> desk \<Rightarrow> order_request \<Rightarrow> bool" where
  "entry_shape cand direction d ord \<longleftrightarrow>
     rq_order_id ord = ex_next_order_id (dk_execution d) \<and> rq_symbol_id ord = cs_symbol_id cand \<and>
     rq_side ord = (if direction = ''long'' then ''buy'' else ''sell'') \<and>
     rq_purpose ord = ''entry'' \<and> rq_position_direction ord = direction \<and> 1 \<le> rq_quantity ord \<and>
     rq_order_timestamp_ns ord = cs_timestamp_ns cand \<and>
     rq_candidate_timestamp_ns ord = cs_timestamp_ns cand \<and>
     rq_eligible_timestamp_ns ord =
       cs_timestamp_ns cand + xc_latency_ns (ex_config (dk_execution d))"

definition next_id :: "desk \<Rightarrow> desk" where
  "next_id d = d\<lparr>dk_execution := (dk_execution d)
     \<lparr>ex_next_order_id := ex_next_order_id (dk_execution d) + 1\<rparr>\<rparr>"

text \<open>\<open>_entry_order\<close> is one disjunction of refusals, then one order.\<close>

definition entry_refused :: "(rat \<Rightarrow> rat) \<Rightarrow> candidate_signal \<Rightarrow> string \<Rightarrow> desk \<Rightarrow> bool" where
  "entry_refused rnd cand direction d \<longleftrightarrow>
     (let f = cs_feature cand; pf = dk_portfolio d; c = pf_config pf;
          price = (if direction = ''long'' then ft_ask_price f else ft_bid_price f);
          quantity = order_size rnd pf price;
          notional = dollars_of rnd price quantity;
          cost = commission_for rnd (ex_config (dk_execution d)) quantity in
      price \<le> 0 \<or> quantity < 1 \<or>
      direction = ''long'' \<and> pf_cash pf < rnd (notional + cost) \<or>
      direction = ''short'' \<and> pf_cash pf < cost \<or>
      (case pc_max_concurrent_positions c of None \<Rightarrow> False
       | Some n \<Rightarrow> int (length (pf_positions pf)) \<ge> n) \<or>
      pc_no_pyramiding c \<and> map_of (pf_positions pf) (cs_symbol_id cand) \<noteq> None \<or>
      rnd (gross_exposure rnd pf + notional) >
        (case pc_max_gross_exposure c of Some x \<Rightarrow> x | None \<Rightarrow> pc_starting_cash c))"

definition entry_request :: "(rat \<Rightarrow> rat) \<Rightarrow> candidate_signal \<Rightarrow> string \<Rightarrow> desk \<Rightarrow> order_request" where
  "entry_request rnd cand direction d =
     \<lparr>rq_order_id = ex_next_order_id (dk_execution d), rq_symbol_id = cs_symbol_id cand,
      rq_side = (if direction = ''long'' then ''buy'' else ''sell''), rq_purpose = ''entry'',
      rq_position_direction = direction,
      rq_quantity = order_size rnd (dk_portfolio d) (if direction = ''long''
        then ft_ask_price (cs_feature cand) else ft_bid_price (cs_feature cand)),
      rq_order_timestamp_ns = cs_timestamp_ns cand,
      rq_eligible_timestamp_ns = cs_timestamp_ns cand + xc_latency_ns (ex_config (dk_execution d)),
      rq_candidate_timestamp_ns = cs_timestamp_ns cand,
      rq_candidate_reason_bits = cs_reason_bits cand, rq_candidate_score = cs_score cand,
      rq_exit_reason = [], rq_candidate_sequence = cs_sequence cand,
      rq_candidate_feature = Some (cs_feature cand)\<rparr>"

lemma if_join: "(if a then x else if b then x else y) = (if a \<or> b then x else y)"
  by simp

lemma entry_order_eq:
  "entry_order rnd cand direction d =
     (if entry_refused rnd cand direction d then (None, d)
      else (Some (ex_next_order_id (dk_execution d), entry_request rnd cand direction d), next_id d))"
  unfolding entry_order_def entry_refused_def Let_def
  by (simp only: if_join disj_assoc new_order_id_def prod.case entry_request_def next_id_def)
    (simp cong: if_cong)

lemma entry_request_shape:
  assumes "\<not> entry_refused rnd cand direction d"
  shows "entry_shape cand direction d (entry_request rnd cand direction d) \<and>
    entry_admitted rnd cand direction d (entry_request rnd cand direction d)"
proof -
  let ?ord = "entry_request rnd cand direction d"
  let ?price = "if direction = ''long'' then ft_ask_price (cs_feature cand) else ft_bid_price (cs_feature cand)"
  have q: "rq_quantity ?ord = order_size rnd (dk_portfolio d) ?price"
    by (simp add: entry_request_def)
  note ok = assms [unfolded entry_refused_def Let_def, folded q, unfolded de_Morgan_disj not_less not_le]
  have "entry_shape cand direction d ?ord"
    using ok unfolding entry_shape_def by (simp add: entry_request_def)
  moreover have "entry_admitted rnd cand direction d ?ord"
    unfolding entry_admitted_def Let_def q [symmetric] using ok q by auto
  ultimately show ?thesis by blast
qed

lemma entry_order_cases:
  assumes "entry_order rnd cand direction d = (e, d')"
  shows "(e = None \<and> d' = d) \<or>
    (\<exists>ord. e = Some (rq_order_id ord, ord) \<and> d' = next_id d \<and>
       entry_shape cand direction d ord \<and> entry_admitted rnd cand direction d ord)"
proof (cases "entry_refused rnd cand direction d")
  case True
  then show ?thesis using assms by (simp add: entry_order_eq)
next
  case False
  then show ?thesis
    using assms entry_request_shape [OF False]
    by (auto simp: entry_order_eq entry_shape_def intro!: exI [of _ "entry_request rnd cand direction d"])
qed

definition exit_shape :: "position \<Rightarrow> int \<Rightarrow> desk \<Rightarrow> order_request \<Rightarrow> bool" where
  "exit_shape p ts d ord \<longleftrightarrow>
     rq_order_id ord = ex_next_order_id (dk_execution d) \<and> rq_symbol_id ord = ps_symbol_id p \<and>
     rq_side ord = (if ps_direction p = ''long'' then ''sell'' else ''buy'') \<and>
     rq_purpose ord = ''exit'' \<and> rq_position_direction ord = ps_direction p \<and>
     rq_quantity ord = ps_quantity p \<and> rq_order_timestamp_ns ord = ts \<and>
     rq_eligible_timestamp_ns ord = ts + xc_latency_ns (ex_config (dk_execution d))"

lemma exit_order_shape:
  "exit_order p ts reason a b c e g (dk_execution d) = (i, ord, ex') \<Longrightarrow>
     i = rq_order_id ord \<and> exit_shape p ts d ord \<and> d\<lparr>dk_execution := ex'\<rparr> = next_id d \<and>
     ex' = dk_execution (next_id d)"
  by (auto simp: exit_order_def new_order_id_def exit_shape_def next_id_def Let_def)

lemma next_id_simps [simp]:
  "dk_portfolio (next_id d) = dk_portfolio d"
  "ex_config (dk_execution (next_id d)) = ex_config (dk_execution d)"
  "ex_pending (dk_execution (next_id d)) = ex_pending (dk_execution d)"
  "ex_next_order_id (dk_execution (next_id d)) = ex_next_order_id (dk_execution d) + 1"
  by (simp_all add: next_id_def)

lemma entry_shape_ok:
  assumes "entry_shape cand direction d ord" "map_of positions (cs_symbol_id cand) = None"
    and "allowed_direction en direction" "lat = xc_latency_ns (ex_config (dk_execution d))"
  shows "order_ok en lat (ex_next_order_id (dk_execution d) + 1) positions ord"
  using assms by (simp add: entry_shape_def order_ok_def entry_order_ok_def)

lemma exit_shape_ok:
  assumes "exit_shape p ts d ord" "map_of positions (ps_symbol_id p) = Some p" "1 \<le> ps_quantity p"
  shows "order_ok en lat (ex_next_order_id (dk_execution d) + 1) positions ord"
  using assms by (simp add: exit_shape_def order_ok_def exit_order_ok_def)

end
