(* ===== verification/Paper_Safety.thy ===== *)
theory Paper_Safety
  imports Paper_Run
begin

text \<open>
  The operations of the desk inside the account laws: each of them returns, keeps
  \<open>desk_ok\<close>, keeps both configurations, and changes the position of no symbol but its own.
\<close>

definition same_configs :: "desk \<Rightarrow> desk \<Rightarrow> bool" where
  "same_configs d d' \<longleftrightarrow>
     pf_config (dk_portfolio d') = pf_config (dk_portfolio d) \<and>
     ex_config (dk_execution d') = ex_config (dk_execution d)"

lemma same_configs_refl [simp]: "same_configs d d"
  by (simp add: same_configs_def)

lemma same_configs_trans: "same_configs d d1 \<Longrightarrow> same_configs d1 d2 \<Longrightarrow> same_configs d d2"
  by (simp add: same_configs_def)

lemma apply_fill_config [simp]: "pf_config (apply_fill rnd pf fi) = pf_config pf"
  by (simp add: apply_fill_def Let_def split: option.split)

lemma apply_fills_config [simp]: "pf_config (apply_fills rnd pf fis) = pf_config pf"
  unfolding apply_fills_def by (induction fis arbitrary: pf) simp_all

lemma apply_fill_other:
  "k \<noteq> fi_symbol_id fi \<Longrightarrow>
     map_of (pf_positions (apply_fill rnd pf fi)) k = map_of (pf_positions pf) k"
  by (simp add: apply_fill_def Let_def AList.update_conv' AList.delete_conv' split: option.split)

lemma fill_of_symbol [simp]: "fi_symbol_id (fill_of rnd c ord ts r) = rq_symbol_id ord"
  by (simp add: fill_of_def)

lemma mark_pending_simps [simp]:
  "pf_config (mark_pending s i pf) = pf_config pf"
  "pf_positions (mark_pending s i pf) = pf_positions pf"
  "pf_pending_symbols (mark_pending s i pf) = insert s (pf_pending_symbols pf)"
  by (simp_all add: mark_pending_def)

lemma log_candidate_simps [simp]:
  "pf_config (log_candidate cand st i pf) = pf_config pf"
  "pf_positions (log_candidate cand st i pf) = pf_positions pf"
  "pf_pending_symbols (log_candidate cand st i pf) = pf_pending_symbols pf"
  "book_inv lat (log_candidate cand st i pf) S n = book_inv lat pf S n"
  by (simp_all add: log_candidate_def book_inv_def)

lemma log_on_desk_simps [simp]:
  "dk_execution (log_on_desk cand st i d) = dk_execution d"
  "dk_portfolio (log_on_desk cand st i d) = log_candidate cand st i (dk_portfolio d)"
  by (simp_all add: log_on_desk_def)

lemma book_inv_pending: "book_inv lat pf S n \<Longrightarrow> pf_pending_symbols pf = rq_symbol_id ` S"
  by (simp add: book_inv_def)

lemma book_inv_position:
  "book_inv lat pf S n \<Longrightarrow> map_of (pf_positions pf) s = Some p \<Longrightarrow>
     ps_symbol_id p = s \<and> 1 \<le> ps_quantity p \<and> allowed_direction (pc_enable_short (pf_config pf)) (ps_direction p)"
  by (drule map_of_SomeD) (auto simp: book_inv_def position_ok_def)

context account_law
begin

lemma settle_all:
  assumes "book_inv lat pf S n" "law pf" "set ords \<subseteq> S" "distinct ords"
    and "\<forall>ord\<in>set ords. rq_purpose ord = ''entry'' \<longrightarrow> rq_eligible_timestamp_ns ord \<le> ts"
  shows "book_inv lat (apply_fills rnd pf (map (\<lambda>ord. fill_of rnd c ord ts (r ord)) ords)) (S - set ords) n
    \<and> law (apply_fills rnd pf (map (\<lambda>ord. fill_of rnd c ord ts (r ord)) ords))
    \<and> (\<forall>k. k \<notin> rq_symbol_id ` set ords \<longrightarrow>
        map_of (pf_positions (apply_fills rnd pf (map (\<lambda>ord. fill_of rnd c ord ts (r ord)) ords))) k =
        map_of (pf_positions pf) k)"
  using assms
proof (induction ords arbitrary: pf S)
  case Nil
  then show ?case by (simp add: apply_fills_def)
next
  case (Cons ord ords)
  let ?pf = "apply_fill rnd pf (fill_of rnd c ord ts (r ord))"
  have mem: "ord \<in> S" using Cons.prems(3) by simp
  have "book_inv lat ?pf (S - {ord}) n"
    using book_inv_settle [OF Cons.prems(1) mem] Cons.prems(5) by simp
  moreover have "law ?pf" using law_settle [OF Cons.prems(2,1) mem] .
  moreover have "set ords \<subseteq> S - {ord}" using Cons.prems(3,4) by auto
  moreover have "S - set (ord # ords) = S - {ord} - set ords" by auto
  ultimately show ?case
    using Cons.IH [of ?pf "S - {ord}"] Cons.prems(4,5)
    by (auto simp: apply_fills_def apply_fill_other)
qed

lemma desk_okD:
  "desk_ok d \<Longrightarrow> law (dk_portfolio d) \<and> distinct (ex_pending (dk_execution d)) \<and>
     book_inv (xc_latency_ns (ex_config (dk_execution d))) (dk_portfolio d)
       (set (ex_pending (dk_execution d))) (ex_next_order_id (dk_execution d))"
  by (simp add: desk_ok_def distinct_map)

text \<open>
  One new order: once admitted into the books, submitting it either queues it or fills it, and a
  filled order is no longer pending. \<open>pf\<close> is the portfolio that has it marked as pending.
\<close>

lemma place_order:
  assumes ok: "desk_ok d" and new: "rq_symbol_id ord \<notin> pf_pending_symbols (dk_portfolio d)"
    and pf: "law pf" "pf_config pf = pf_config (dk_portfolio d)"
      "pf_positions pf = pf_positions (dk_portfolio d)"
      "book_inv (xc_latency_ns (ex_config (dk_execution d))) pf
         (insert ord (set (ex_pending (dk_execution d)))) (ex_next_order_id (dk_execution d) + 1)"
    and elig: "rq_eligible_timestamp_ns ord =
        rq_order_timestamp_ns ord + xc_latency_ns (ex_config (dk_execution d))"
  shows "\<exists>fills ex' d'. submit rnd ord ts (Quote f) is_quote False (dk_execution (next_id d)) = Inr (fills, ex') \<and>
    d' = \<lparr>dk_portfolio = apply_fills rnd pf fills, dk_execution = ex'\<rparr> \<and> desk_ok d' \<and> same_configs d d' \<and>
    (\<forall>k. k \<noteq> rq_symbol_id ord \<longrightarrow>
       map_of (pf_positions (dk_portfolio d')) k = map_of (pf_positions (dk_portfolio d)) k) \<and>
    (fills \<noteq> [] \<longrightarrow> rq_symbol_id ord \<notin> pf_pending_symbols (dk_portfolio d'))"
proof -
  let ?pend = "ex_pending (dk_execution d)" and ?c = "ex_config (dk_execution d)"
  have d: "law (dk_portfolio d)" "distinct (map rq_symbol_id ?pend)"
    "book_inv (xc_latency_ns ?c) (dk_portfolio d) (set ?pend) (ex_next_order_id (dk_execution d))"
    using ok by (auto simp: desk_ok_def)
  have fresh: "rq_symbol_id ord \<notin> rq_symbol_id ` set ?pend"
    using new book_inv_pending [OF d(3)] by simp
  then have out: "insert ord (set ?pend) - {ord} = set ?pend" by auto
  have ord_ok: "order_ok (pc_enable_short (pf_config pf)) (xc_latency_ns ?c)
      (ex_next_order_id (dk_execution d) + 1) (pf_positions pf) ord"
    using book_inv_outstanding [OF pf(4)] by simp
  then have side: "valid_side ord" "1 \<le> rq_quantity ord"
    using order_ok_side by (blast, simp add: order_ok_def)
  note sub = submit_eq [OF side, of "dk_execution (next_id d)" rnd ts f is_quote, simplified, OF elig]
  show ?thesis
  proof (cases "is_quote \<and> due ts f ord")
    case True
    let ?fi = "fill_of rnd ?c ord ts (touch_price ord f)"
    have "book_inv (xc_latency_ns ?c) (apply_fills rnd pf [?fi]) (set ?pend) (ex_next_order_id (dk_execution d) + 1)
      \<and> law (apply_fills rnd pf [?fi]) \<and> (\<forall>k. k \<noteq> rq_symbol_id ord \<longrightarrow>
        map_of (pf_positions (apply_fills rnd pf [?fi])) k = map_of (pf_positions pf) k)"
      using settle_all [OF pf(4,1), of "[ord]" ts ?c "\<lambda>ord. touch_price ord f"] True
      by (simp add: out due_def)
    moreover from this have "rq_symbol_id ord \<notin> pf_pending_symbols (apply_fills rnd pf [?fi])"
      using book_inv_pending fresh by blast
    ultimately show ?thesis
      using sub True d(2) pf(2,3) by (simp add: desk_ok_def same_configs_def)
  next
    case False
    then show ?thesis
      using sub d(2) pf fresh by (auto simp: desk_ok_def same_configs_def apply_fills_def)
  qed
qed

lemma admitted_books:
  assumes ok: "desk_ok d" and new: "rq_symbol_id ord \<notin> pf_pending_symbols (dk_portfolio d)"
    and ord: "order_ok (pc_enable_short (pf_config (dk_portfolio d)))
        (xc_latency_ns (ex_config (dk_execution d))) (ex_next_order_id (dk_execution d) + 1)
        (pf_positions (dk_portfolio d)) ord"
  shows "law (mark_pending (rq_symbol_id ord) (rq_order_id ord) (dk_portfolio d)) \<and>
    book_inv (xc_latency_ns (ex_config (dk_execution d)))
      (mark_pending (rq_symbol_id ord) (rq_order_id ord) (dk_portfolio d))
      (insert ord (set (ex_pending (dk_execution d)))) (ex_next_order_id (dk_execution d) + 1)"
  using ok book_inv_admit [OF _ new ord] law_mark_pending by (simp add: desk_ok_def)

lemma submit_and_apply_ok:
  assumes "desk_ok d" "rq_symbol_id ord \<notin> pf_pending_symbols (dk_portfolio d)"
    and "order_ok (pc_enable_short (pf_config (dk_portfolio d)))
        (xc_latency_ns (ex_config (dk_execution d))) (ex_next_order_id (dk_execution d) + 1)
        (pf_positions (dk_portfolio d)) ord"
    and "rq_eligible_timestamp_ns ord =
        rq_order_timestamp_ns ord + xc_latency_ns (ex_config (dk_execution d))"
  shows "\<exists>fills d'. submit_and_apply rnd (rq_order_id ord) ord ts f is_quote (next_id d) = Inr (fills, d') \<and>
    desk_ok d' \<and> same_configs d d' \<and>
    (\<forall>k. k \<noteq> rq_symbol_id ord \<longrightarrow>
       map_of (pf_positions (dk_portfolio d')) k = map_of (pf_positions (dk_portfolio d)) k) \<and>
    (fills \<noteq> [] \<longrightarrow> rq_symbol_id ord \<notin> pf_pending_symbols (dk_portfolio d'))"
  using place_order [OF assms(1,2) _ _ _ _ assms(4), of "mark_pending (rq_symbol_id ord) (rq_order_id ord) (dk_portfolio d)" ts f is_quote]
    admitted_books [OF assms(1-3)]
  by (auto simp: submit_and_apply_def Let_def)

lemma submit_exit_ok:
  assumes "desk_ok d" "map_of (pf_positions (dk_portfolio d)) (ps_symbol_id p) = Some p"
    and "ps_symbol_id p \<notin> pf_pending_symbols (dk_portfolio d)"
  shows "\<exists>fills i d'. submit_exit rnd p ts f reason cand is_quote d = Inr (fills, i, d') \<and>
    desk_ok d' \<and> same_configs d d' \<and>
    (\<forall>k. k \<noteq> ps_symbol_id p \<longrightarrow>
       map_of (pf_positions (dk_portfolio d')) k = map_of (pf_positions (dk_portfolio d)) k) \<and>
    (fills \<noteq> [] \<longrightarrow> ps_symbol_id p \<notin> pf_pending_symbols (dk_portfolio d'))"
proof -
  obtain a b c e g where eo: "submit_exit rnd p ts f reason cand is_quote d =
      (let (order_id, order, ex) = exit_order p ts reason a b c e g (dk_execution d)
       in rbind (submit_and_apply rnd order_id order ts f is_quote (d\<lparr>dk_execution := ex\<rparr>))
            (\<lambda>(fills, d). Inr (fills, order_id, d)))"
    unfolding submit_exit_def by (cases cand) auto
  obtain i ord ex' where "exit_order p ts reason a b c e g (dk_execution d) = (i, ord, ex')"
    by (cases "exit_order p ts reason a b c e g (dk_execution d)")
  with exit_order_shape have
    shape: "i = rq_order_id ord" "exit_shape p ts d ord" "d\<lparr>dk_execution := ex'\<rparr> = next_id d"
    and eo': "submit_exit rnd p ts f reason cand is_quote d =
      rbind (submit_and_apply rnd (rq_order_id ord) ord ts f is_quote (next_id d))
            (\<lambda>(fills, d). Inr (fills, i, d))"
    unfolding eo by (auto simp: Let_def)
  have "1 \<le> ps_quantity p"
    using assms(1,2) book_inv_position unfolding desk_ok_def by blast
  note ord = exit_shape_ok [OF shape(2) assms(2) this]
  have s: "rq_symbol_id ord = ps_symbol_id p" "rq_eligible_timestamp_ns ord =
        rq_order_timestamp_ns ord + xc_latency_ns (ex_config (dk_execution d))"
    using shape(2) by (simp_all add: exit_shape_def)
  from submit_and_apply_ok [OF assms(1) _ ord s(2), of ts f is_quote] assms(3) show ?thesis
    unfolding eo' s(1) by fastforce
qed

lemma submit_entry_ok:
  assumes "desk_ok d" "map_of (pf_positions (dk_portfolio d)) (cs_symbol_id cand) = None"
    and "cs_symbol_id cand \<notin> pf_pending_symbols (dk_portfolio d)"
    and "allowed_direction (pc_enable_short (pf_config (dk_portfolio d))) direction"
  shows "\<exists>fills d'. submit_entry rnd cand direction is_quote d = Inr (fills, d') \<and>
    desk_ok d' \<and> same_configs d d'"
proof -
  obtain e d1 where eo: "entry_order rnd cand direction d = (e, d1)" by fastforce
  from entry_order_cases [OF this] show ?thesis
  proof (elim disjE exE conjE)
    assume "e = None" "d1 = d"
    with eo assms(1) show ?thesis by (simp add: submit_entry_def)
  next
    fix ord
    assume ord: "e = Some (rq_order_id ord, ord)" "d1 = next_id d" "entry_shape cand direction d ord"
    have s: "rq_symbol_id ord = cs_symbol_id cand" "rq_eligible_timestamp_ns ord =
        rq_order_timestamp_ns ord + xc_latency_ns (ex_config (dk_execution d))"
      using ord(3) by (simp_all add: entry_shape_def)
    note ok = entry_shape_ok [OF ord(3) assms(2,4) refl]
    from submit_and_apply_ok [OF assms(1) _ ok s(2), of "cs_timestamp_ns cand" "cs_feature cand" is_quote]
    show ?thesis
      using assms(3) by (auto simp: submit_entry_def eo ord(1,2) s(1))
  qed
qed

lemma log_on_desk_ok: "desk_ok d \<Longrightarrow> desk_ok (log_on_desk cand st i d) \<and> same_configs d (log_on_desk cand st i d)"
  by (simp add: desk_ok_def same_configs_def law_log_candidate)

lemma consider_flat_ok:
  assumes "desk_ok d" "map_of (pf_positions (dk_portfolio d)) (cs_symbol_id cand) = None"
    and "cs_symbol_id cand \<notin> pf_pending_symbols (dk_portfolio d)"
    and "allowed_direction (pc_enable_short (pf_config (dk_portfolio d))) (desired_direction cand)"
  shows "\<exists>fills d'. consider_flat rnd cand is_quote d = Inr (fills, d') \<and> desk_ok d' \<and> same_configs d d'"
proof -
  obtain e d1 where eo: "entry_order rnd cand (desired_direction cand) d = (e, d1)" by fastforce
  from entry_order_cases [OF this] show ?thesis
  proof (elim disjE exE conjE)
    assume "e = None" "d1 = d"
    with eo assms(1) log_on_desk_ok show ?thesis by (simp add: consider_flat_def)
  next
    fix ord
    assume ord: "e = Some (rq_order_id ord, ord)" "d1 = next_id d"
      "entry_shape cand (desired_direction cand) d ord"
    have s: "rq_symbol_id ord = cs_symbol_id cand" "rq_eligible_timestamp_ns ord =
        rq_order_timestamp_ns ord + xc_latency_ns (ex_config (dk_execution d))"
      using ord(3) by (simp_all add: entry_shape_def)
    note ok = entry_shape_ok [OF ord(3) assms(2,4) refl]
    have new: "rq_symbol_id ord \<notin> pf_pending_symbols (dk_portfolio d)" using assms(3) s(1) by simp
    let ?pf = "\<lambda>st. log_candidate cand st (Some (rq_order_id ord))
      (mark_pending (rq_symbol_id ord) (rq_order_id ord) (dk_portfolio d))"
    note adm = admitted_books [OF assms(1) new ok]
    have placed: "\<exists>fills ex'. submit rnd ord (cs_timestamp_ns cand) (Quote (cs_feature cand)) is_quote False
        (dk_execution (next_id d)) = Inr (fills, ex') \<and>
      desk_ok \<lparr>dk_portfolio = apply_fills rnd (?pf st) fills, dk_execution = ex'\<rparr> \<and>
      same_configs d \<lparr>dk_portfolio = apply_fills rnd (?pf st) fills, dk_execution = ex'\<rparr>" for st
    proof -
      have "law (?pf st)" using adm by (simp add: law_log_candidate)
      from place_order [OF assms(1) new this _ _ _ s(2), of "cs_timestamp_ns cand" "cs_feature cand" is_quote] adm
      show ?thesis by (simp only: log_candidate_simps mark_pending_simps) blast
    qed
    obtain fills ex' where sub: "submit rnd ord (cs_timestamp_ns cand) (Quote (cs_feature cand)) is_quote False
        (dk_execution (next_id d)) = Inr (fills, ex')"
      using placed [of "[]"] by blast
    then show ?thesis
      using placed [of "if fills \<noteq> [] then ''entry_filled'' else ''entry_submitted''"]
      by (simp add: consider_flat_def eo ord(1,2) Let_def s(1))
  qed
qed

lemma consider_held_ok:
  assumes "desk_ok d" "map_of (pf_positions (dk_portfolio d)) (cs_symbol_id cand) = Some current"
    and "cs_symbol_id cand \<notin> pf_pending_symbols (dk_portfolio d)"
    and "allowed_direction (pc_enable_short (pf_config (dk_portfolio d))) (desired_direction cand)"
  shows "\<exists>fills d'. consider_held rnd cand is_quote current d = Inr (fills, d') \<and> desk_ok d' \<and> same_configs d d'"
proof -
  have sy: "ps_symbol_id current = cs_symbol_id cand"
    using assms(1,2) book_inv_position unfolding desk_ok_def by blast
  from submit_exit_ok [OF assms(1), of current "cs_timestamp_ns cand" "cs_feature cand"
      "''opposite_candidate''" "Some cand" is_quote] assms(2,3) obtain fills i d1 where
    ex: "submit_exit rnd current (cs_timestamp_ns cand) (cs_feature cand) ''opposite_candidate''
        (Some cand) is_quote d = Inr (fills, i, d1)" "desk_ok d1" "same_configs d d1"
      "fills \<noteq> [] \<longrightarrow> cs_symbol_id cand \<notin> pf_pending_symbols (dk_portfolio d1)"
    unfolding sy by blast
  let ?d = "log_on_desk cand ''exit_submitted'' (Some i) d1"
  note logged = log_on_desk_ok [OF ex(2), of cand "''exit_submitted''" "Some i"]
  have same: "same_configs d ?d" using same_configs_trans ex(3) logged by blast
  show ?thesis
  proof (cases "pc_reverse_same_event (pf_config (dk_portfolio d)) \<and> fills \<noteq> [] \<and>
      map_of (pf_positions (dk_portfolio ?d)) (cs_symbol_id cand) = None")
    case True
    have "allowed_direction (pc_enable_short (pf_config (dk_portfolio ?d))) (desired_direction cand)"
      using assms(4) same by (simp add: same_configs_def)
    from submit_entry_ok [where cand = cand and is_quote = is_quote, OF _ _ _ this] True logged ex(4)
    obtain extra d2 where "submit_entry rnd cand (desired_direction cand) is_quote ?d = Inr (extra, d2)"
      "desk_ok d2" "same_configs ?d d2" by auto
    then show ?thesis
      using True ex(1) same_configs_trans [OF same] assms(1) log_on_desk_ok [OF assms(1)]
      by (auto simp: consider_held_def Let_def)
  next
    case False
    then show ?thesis
      using ex(1) logged same log_on_desk_ok [OF assms(1)] by (auto simp: consider_held_def Let_def)
  qed
qed

lemma consider_candidate_ok:
  assumes "desk_ok d"
  shows "\<exists>fills d'. consider_candidate rnd cand is_quote d = Inr (fills, d') \<and> desk_ok d' \<and> same_configs d d'"
proof (cases "cs_action cand = SIGNAL_NONE \<or> cs_symbol_id cand \<in> pf_pending_symbols (dk_portfolio d) \<or>
    desired_direction cand = ''short'' \<and> \<not> pc_enable_short (pf_config (dk_portfolio d))")
  case True
  then show ?thesis using log_on_desk_ok [OF assms] by (auto simp: consider_candidate_def Let_def)
next
  case False
  then have al: "allowed_direction (pc_enable_short (pf_config (dk_portfolio d))) (desired_direction cand)"
    by (auto simp: allowed_direction_def desired_direction_def)
  show ?thesis
  proof (cases "map_of (pf_positions (dk_portfolio d)) (cs_symbol_id cand)")
    case None
    then have "consider_candidate rnd cand is_quote d = consider_flat rnd cand is_quote d"
      using False by (auto simp: consider_candidate_def Let_def)
    with consider_flat_ok [OF assms None _ al, where is_quote = is_quote] False show ?thesis by simp
  next
    case (Some current)
    then have "consider_candidate rnd cand is_quote d = consider_held rnd cand is_quote current d"
      using False by (auto simp: consider_candidate_def Let_def)
    with consider_held_ok [OF assms Some _ al, where is_quote = is_quote] False show ?thesis by simp
  qed
qed

lemma desk_sides:
  assumes "desk_ok d"
  shows "\<forall>ord\<in>set (ex_pending (dk_execution d)). valid_side ord"
  using assms order_ok_side unfolding desk_ok_def book_inv_def by blast

lemma on_quote_ok:
  assumes "desk_ok d"
  shows "\<exists>fills d'. desk_on_quote rnd ts f d = Inr (fills, d') \<and> desk_ok d' \<and> same_configs d d'"
proof -
  let ?ex = "dk_execution d" and ?pf = "dk_portfolio d"
  let ?due = "filter (due ts f) (ex_pending ?ex)"
  note d = desk_okD [OF assms]
  have rest: "set (ex_pending ?ex) - set ?due = set (filter (\<lambda>ord. \<not> due ts f ord) (ex_pending ?ex))" by auto
  have sub: "set ?due \<subseteq> set (ex_pending ?ex)" by auto
  have dist: "distinct ?due" using d by simp
  have elig: "\<forall>ord\<in>set ?due. rq_purpose ord = ''entry'' \<longrightarrow> rq_eligible_timestamp_ns ord \<le> ts"
    by (simp add: due_def)
  have "book_inv (xc_latency_ns (ex_config ?ex))
      (apply_fills rnd ?pf (map (\<lambda>ord. fill_of rnd (ex_config ?ex) ord ts (touch_price ord f)) ?due))
      (set (filter (\<lambda>ord. \<not> due ts f ord) (ex_pending ?ex))) (ex_next_order_id ?ex) \<and>
    law (apply_fills rnd ?pf (map (\<lambda>ord. fill_of rnd (ex_config ?ex) ord ts (touch_price ord f)) ?due))"
    using settle_all [OF _ _ sub dist elig, of _ ?pf _ "ex_config ?ex" "\<lambda>ord. touch_price ord f"] d
    unfolding rest by blast
  moreover have "distinct (map rq_symbol_id (filter (\<lambda>ord. \<not> due ts f ord) (ex_pending ?ex)))"
    using assms by (simp add: desk_ok_def distinct_map_filter)
  moreover have "desk_on_quote rnd ts f d = Inr
      (map (\<lambda>ord. fill_of rnd (ex_config ?ex) ord ts (touch_price ord f)) ?due,
       \<lparr>dk_portfolio = apply_fills rnd ?pf
          (map (\<lambda>ord. fill_of rnd (ex_config ?ex) ord ts (touch_price ord f)) ?due),
        dk_execution = ?ex\<lparr>ex_pending := filter (\<lambda>ord. \<not> due ts f ord) (ex_pending ?ex)\<rparr>\<rparr>)"
    by (simp add: desk_on_quote_def execution_on_quote_def attempt_orders_eq [OF desk_sides [OF assms]])
  ultimately show ?thesis by (simp add: desk_ok_def same_configs_def)
qed

end

end
