(* ===== verification/Paper_Reach.thy ===== *)
theory Paper_Reach
  imports Paper_Safety
begin

text \<open>
  The remaining operations of the desk inside the account laws (risk exits, end-of-day
  flattening, marking, clearing the books between sessions) and the desks that any sequence of
  operations reaches. Every account law holds of every reachable desk.
\<close>

section \<open>Forced exits at the end of the day\<close>

lemma apply_fill_removes:
  "rq_purpose ord = ''exit'' \<Longrightarrow>
     map_of (pf_positions (apply_fill rnd pf (fill_of rnd c ord ts r))) k =
     (if k = rq_symbol_id ord then None else map_of (pf_positions pf) k)"
  by (auto simp: apply_fill_def fill_of_def Let_def AList.delete_conv' split: option.split)

lemma apply_exits_removes:
  "\<forall>ord\<in>set ords. rq_purpose ord = ''exit'' \<Longrightarrow>
     map_of (pf_positions (apply_fills rnd pf (map (\<lambda>ord. fill_of rnd c ord ts (r ord)) ords))) k =
     (if k \<in> rq_symbol_id ` set ords then None else map_of (pf_positions pf) k)"
  unfolding apply_fills_def
  by (induction ords arbitrary: pf) (simp_all add: apply_fill_removes)

definition has_quote :: "flatten_arg \<Rightarrow> int \<Rightarrow> bool" where
  "has_quote arg s \<longleftrightarrow> (case arg of OneQuote _ \<Rightarrow> True | LastQuotes fs \<Rightarrow> map_of fs s \<noteq> None)"

definition quote_for :: "flatten_arg \<Rightarrow> int \<Rightarrow> feature_snapshot" where
  "quote_for arg s = (case arg of OneQuote f \<Rightarrow> f | LastQuotes fs \<Rightarrow> the (map_of fs s))"

lemma flatten_quote_has: "has_quote arg s \<Longrightarrow> flatten_quote arg s = Quote (quote_for arg s)"
  by (auto simp: has_quote_def quote_for_def flatten_quote_def split: flatten_arg.splits option.splits)

definition flatten_fills_now :: "int \<Rightarrow> flatten_arg \<Rightarrow> bool \<Rightarrow> order_request \<Rightarrow> bool" where
  "flatten_fills_now ts arg force ord \<longleftrightarrow>
     (if force then fillable ord (quote_for arg (rq_symbol_id ord))
      else due ts (quote_for arg (rq_symbol_id ord)) ord)"

text \<open>A quote against which an order of either side is filled.\<close>

definition tradable :: "int \<Rightarrow> feature_snapshot \<Rightarrow> bool" where
  "tradable s f \<longleftrightarrow> ft_symbol_id f = s \<and> ft_spread_valid f \<and> 0 < ft_bid_price f \<and> 0 < ft_ask_price f \<and>
     0 < ft_bid_quantity f \<and> 0 < ft_ask_quantity f"

lemma tradable_fillable: "tradable s f \<Longrightarrow> s = rq_symbol_id ord \<Longrightarrow> fillable ord f"
  by (simp add: tradable_def fillable_def touch_price_def)

lemma submit_flatten_eq:
  assumes "valid_side ord" "1 \<le> rq_quantity ord"
    and "rq_eligible_timestamp_ns ord = rq_order_timestamp_ns ord + xc_latency_ns (ex_config ex)"
    and "has_quote arg (rq_symbol_id ord)"
  shows "submit rnd ord ts (flatten_quote arg (rq_symbol_id ord)) True force ex =
    Inr (if flatten_fills_now ts arg force ord
         then ([fill_of rnd (ex_config ex) ord ts (touch_price ord (quote_for arg (rq_symbol_id ord)))], ex)
         else ([], ex\<lparr>ex_pending := ex_pending ex @ [ord]\<rparr>))"
  using submit_eq [OF assms(1-3)] submit_forced_eq [OF assms(1,2)]
  by (cases force) (simp_all add: flatten_quote_has [OF assms(4)] flatten_fills_now_def)

lemma mark_to_market_books:
  "pf_config (snd (mark_to_market rnd ts f to_curve pf)) = pf_config pf"
  "book_inv lat (snd (mark_to_market rnd ts f to_curve pf)) S n = book_inv lat pf S n"
  by (simp_all add: mark_to_market_def Let_def book_inv_def)

text \<open>
  What the replay does with the books between two sessions and at its end: \<open>execution.flush()\<close>,
  \<open>pending_symbols.clear()\<close> and \<open>_pending_order_ids.clear()\<close>.
\<close>

definition desk_clear :: "desk \<Rightarrow> desk" where
  "desk_clear d =
     \<lparr>dk_portfolio = (dk_portfolio d)\<lparr>pf_pending_symbols := {}, pf_pending_order_ids := []\<rparr>,
      dk_execution = snd (execution_flush (dk_execution d))\<rparr>"

section \<open>Operations\<close>

text \<open>The calls the replay makes on the desk, as one type, so that a history is a sequence of them.\<close>

datatype desk_op =
    OnQuote int feature_snapshot
  | EvaluateRisk int feature_snapshot bool
  | ConsiderCandidate candidate_signal bool
  | EndOfDay int flatten_arg bool
  | MarkToMarket int feature_snapshot bool
  | ClearBooks

fun desk_apply :: "(rat \<Rightarrow> rat) \<Rightarrow> desk_op \<Rightarrow> desk \<Rightarrow> (fill list \<times> desk) result" where
  "desk_apply rnd (OnQuote ts f) d = desk_on_quote rnd ts f d"
| "desk_apply rnd (EvaluateRisk ts f is_quote) d = evaluate_risk rnd ts f is_quote d"
| "desk_apply rnd (ConsiderCandidate cand is_quote) d = consider_candidate rnd cand is_quote d"
| "desk_apply rnd (EndOfDay ts arg force) d = flatten_positions rnd ts arg force d"
| "desk_apply rnd (MarkToMarket ts f to_curve) d =
     Inr ([], d\<lparr>dk_portfolio := snd (mark_to_market rnd ts f to_curve (dk_portfolio d))\<rparr>)"
| "desk_apply rnd ClearBooks d = Inr ([], desk_clear d)"

text \<open>The end-of-day exits are called with a quote for every open position that has no order out.\<close>

definition op_covered :: "desk_op \<Rightarrow> desk \<Rightarrow> bool" where
  "op_covered cmd d \<longleftrightarrow>
     (case cmd of EndOfDay ts arg force \<Rightarrow> \<forall>(s, p)\<in>set (pf_positions (dk_portfolio d)).
        s \<in> pf_pending_symbols (dk_portfolio d) \<or> has_quote arg s
      | _ \<Rightarrow> True)"

inductive desk_reachable ::
  "(rat \<Rightarrow> rat) \<Rightarrow> portfolio_config \<Rightarrow> execution_config \<Rightarrow> desk \<Rightarrow> bool"
  for rnd pc xc where
  start: "desk_reachable rnd pc xc
    \<lparr>dk_portfolio = portfolio_init pc record_logs, dk_execution = execution_init (Some xc)\<rparr>"
| step: "desk_reachable rnd pc xc d \<Longrightarrow> op_covered cmd d \<Longrightarrow> desk_apply rnd cmd d = Inr (fills, d') \<Longrightarrow>
    desk_reachable rnd pc xc d'"

inductive_cases desk_reachableE: "desk_reachable rnd pc xc d"

context account_law
begin

section \<open>Risk exits\<close>

lemma held_positions:
  assumes "desk_ok d"
  shows "distinct (map ps_symbol_id (map snd (pf_positions (dk_portfolio d)))) \<and>
    (\<forall>p\<in>set (map snd (pf_positions (dk_portfolio d))).
       map_of (pf_positions (dk_portfolio d)) (ps_symbol_id p) = Some p)"
proof -
  let ?al = "pf_positions (dk_portfolio d)"
  have al: "distinct (map fst ?al)" "\<forall>x\<in>set ?al. ps_symbol_id (snd x) = fst x"
    using assms by (auto simp: desk_ok_def book_inv_def position_ok_def)
  then have "map ps_symbol_id (map snd ?al) = map fst ?al" by simp
  with al(1) have "distinct (map ps_symbol_id (map snd ?al))" by (simp only:)
  moreover have "map_of ?al (ps_symbol_id (snd x)) = Some (snd x)" if "x \<in> set ?al" for x
    using that al by (simp add: map_of_is_SomeI)
  ultimately show ?thesis by auto
qed

lemma risk_loop_ok:
  assumes "desk_ok d" "distinct (map ps_symbol_id ps)"
    and "\<forall>p\<in>set ps. map_of (pf_positions (dk_portfolio d)) (ps_symbol_id p) = Some p"
  shows "\<exists>fills d'. risk_loop rnd ts f is_quote ps d = Inr (fills, d') \<and> desk_ok d' \<and> same_configs d d'"
  using assms
proof (induction ps arbitrary: d)
  case Nil
  then show ?case by simp
next
  case (Cons p ps)
  show ?case
  proof (cases "ps_symbol_id p \<in> pf_pending_symbols (dk_portfolio d) \<or>
      risk_reason rnd (pf_config (dk_portfolio d)) ts f p is_quote = None")
    case True
    then have "risk_loop rnd ts f is_quote (p # ps) d = risk_loop rnd ts f is_quote ps d" by auto
    then show ?thesis using Cons.IH [of d] Cons.prems by simp
  next
    case False
    then obtain reason where
      r: "risk_reason rnd (pf_config (dk_portfolio d)) ts f p is_quote = Some reason" by auto
    from submit_exit_ok [OF Cons.prems(1), of p ts f reason None "is_quote \<and> ft_symbol_id f = ps_symbol_id p"]
      Cons.prems(3) False obtain fills i d1 where
      d1: "submit_exit rnd p ts f reason None (is_quote \<and> ft_symbol_id f = ps_symbol_id p) d = Inr (fills, i, d1)"
        "desk_ok d1" "same_configs d d1" "\<forall>k. k \<noteq> ps_symbol_id p \<longrightarrow>
          map_of (pf_positions (dk_portfolio d1)) k = map_of (pf_positions (dk_portfolio d)) k"
      by auto
    have "\<forall>q\<in>set ps. map_of (pf_positions (dk_portfolio d1)) (ps_symbol_id q) = Some q"
      using Cons.prems(2,3) d1(4) by (auto simp: image_iff)
    from Cons.IH [OF d1(2) _ this] Cons.prems(2) obtain more d2 where
      "risk_loop rnd ts f is_quote ps d1 = Inr (more, d2)" "desk_ok d2" "same_configs d1 d2" by auto
    then show ?thesis
      using False r d1(1) same_configs_trans [OF d1(3)] by auto
  qed
qed

lemma evaluate_risk_ok:
  assumes "desk_ok d"
  shows "\<exists>fills d'. evaluate_risk rnd ts f is_quote d = Inr (fills, d') \<and> desk_ok d' \<and> same_configs d d'"
  using risk_loop_ok [OF assms] held_positions [OF assms] unfolding evaluate_risk_def by blast

section \<open>End-of-day flattening\<close>

text \<open>
  While \<open>flatten\<close> runs, the fills it has collected are not applied yet: the outstanding orders
  are the queue and the filled ones, and the positions do not move.
\<close>

definition flatten_post ::
  "int \<Rightarrow> flatten_arg \<Rightarrow> bool \<Rightarrow> position list \<Rightarrow> desk \<Rightarrow> order_request list \<Rightarrow>
     order_request list \<Rightarrow> desk \<Rightarrow> bool" where
  "flatten_post ts arg force ps d done_orders ords d' \<longleftrightarrow>
    flatten_loop rnd ts arg force ps d =
      Inr (map (\<lambda>ord. fill_of rnd (ex_config (dk_execution d)) ord ts
        (touch_price ord (quote_for arg (rq_symbol_id ord)))) ords, d') \<and>
    law (dk_portfolio d') \<and> distinct (map rq_symbol_id (ex_pending (dk_execution d') @ done_orders @ ords)) \<and>
    book_inv (xc_latency_ns (ex_config (dk_execution d))) (dk_portfolio d')
      (set (ex_pending (dk_execution d') @ done_orders @ ords)) (ex_next_order_id (dk_execution d')) \<and>
    same_configs d d' \<and> pf_positions (dk_portfolio d') = pf_positions (dk_portfolio d) \<and>
    pf_pending_symbols (dk_portfolio d') = pf_pending_symbols (dk_portfolio d) \<union> ps_symbol_id ` set ps \<and>
    (\<forall>ord\<in>set ords. rq_purpose ord = ''exit'') \<and>
    (\<forall>p\<in>set ps. force \<and> tradable (ps_symbol_id p) (quote_for arg (ps_symbol_id p)) \<and>
       ps_symbol_id p \<notin> pf_pending_symbols (dk_portfolio d) \<longrightarrow> ps_symbol_id p \<in> rq_symbol_id ` set ords)"

lemma flatten_loop_ok:
  assumes "law (dk_portfolio d)" "distinct (map rq_symbol_id (ex_pending (dk_execution d) @ done_orders))"
    and "book_inv (xc_latency_ns (ex_config (dk_execution d))) (dk_portfolio d)
      (set (ex_pending (dk_execution d) @ done_orders)) (ex_next_order_id (dk_execution d))"
    and "distinct (map ps_symbol_id ps)"
    and "\<forall>p\<in>set ps. map_of (pf_positions (dk_portfolio d)) (ps_symbol_id p) = Some p \<and>
      (ps_symbol_id p \<in> pf_pending_symbols (dk_portfolio d) \<or> has_quote arg (ps_symbol_id p))"
  shows "\<exists>ords d'. flatten_post ts arg force ps d done_orders ords d'"
  using assms
proof (induction ps arbitrary: d done_orders)
  case Nil
  then show ?case by (intro exI [of _ "[]"] exI [of _ d]) (simp add: flatten_post_def)
next
  case (Cons p ps)
  let ?lat = "xc_latency_ns (ex_config (dk_execution d))"
  show ?case
  proof (cases "ps_symbol_id p \<in> pf_pending_symbols (dk_portfolio d)")
    case True
    with Cons.prems Cons.IH [of d done_orders] show ?thesis by (simp add: flatten_post_def insert_absorb)
  next
    case False
    obtain i ord ex' where eo: "exit_order p ts ''end_of_day'' ts 0 0 0 None (dk_execution d) = (i, ord, ex')"
      by (cases "exit_order p ts ''end_of_day'' ts 0 0 0 None (dk_execution d)")
    note shape = exit_order_shape [OF this]
    have p: "map_of (pf_positions (dk_portfolio d)) (ps_symbol_id p) = Some p" "has_quote arg (ps_symbol_id p)"
      using Cons.prems(5) False by auto
    have "1 \<le> ps_quantity p" using book_inv_position [OF Cons.prems(3) p(1)] by simp
    have s: "rq_symbol_id ord = ps_symbol_id p" "i = rq_order_id ord" "rq_purpose ord = ''exit''"
      "rq_eligible_timestamp_ns ord = rq_order_timestamp_ns ord + ?lat" "ex' = dk_execution (next_id d)"
      using shape by (simp_all add: exit_shape_def)
    have ok: "order_ok (pc_enable_short (pf_config (dk_portfolio d))) ?lat
        (ex_next_order_id (dk_execution d) + 1) (pf_positions (dk_portfolio d)) ord"
      using exit_shape_ok shape p(1) \<open>1 \<le> ps_quantity p\<close> by blast
    have new: "rq_symbol_id ord \<notin> pf_pending_symbols (dk_portfolio d)" using False s(1) by simp
    note books = book_inv_admit [OF Cons.prems(3) new ok]
    note lw = law_mark_pending [OF Cons.prems(1)]
    have fresh: "rq_symbol_id ord \<notin> rq_symbol_id ` set (ex_pending (dk_execution d) @ done_orders)"
      using new book_inv_pending [OF Cons.prems(3)] by simp
    have side: "valid_side ord" "1 \<le> rq_quantity ord"
      using ok order_ok_side by (blast, simp add: order_ok_def)
    define filled where "filled = (if flatten_fills_now ts arg force ord then [ord] else [])"
    define queued where "queued = (if flatten_fills_now ts arg force ord then [] else [ord])"
    define d1 where "d1 = \<lparr>dk_portfolio = mark_pending (ps_symbol_id p) i (dk_portfolio d),
      dk_execution = ex'\<lparr>ex_pending := ex_pending (dk_execution d) @ queued\<rparr>\<rparr>"
    let ?fill = "\<lambda>ord. fill_of rnd (ex_config (dk_execution d)) ord ts
      (touch_price ord (quote_for arg (rq_symbol_id ord)))"
    have d1: "pf_config (dk_portfolio d1) = pf_config (dk_portfolio d)"
      "ex_config (dk_execution d1) = ex_config (dk_execution d)"
      "pf_positions (dk_portfolio d1) = pf_positions (dk_portfolio d)"
      "pf_pending_symbols (dk_portfolio d1) = insert (ps_symbol_id p) (pf_pending_symbols (dk_portfolio d))"
      "ex_pending (dk_execution d1) = ex_pending (dk_execution d) @ queued"
      "ex_next_order_id (dk_execution d1) = ex_next_order_id (dk_execution d) + 1"
      "law (dk_portfolio d1)"
      by (simp_all add: d1_def s(5) lw)
    have ex1: "(if flatten_fills_now ts arg force ord then ex'
        else ex'\<lparr>ex_pending := ex_pending (dk_execution d) @ [ord]\<rparr>) = dk_execution d1"
      by (simp add: d1_def queued_def s(5) next_id_def)
    have "submit rnd ord ts (flatten_quote arg (ps_symbol_id p)) True force ex' =
        Inr (map ?fill filled, dk_execution d1)"
      using submit_flatten_eq [OF side, of ex' arg rnd ts force] s p(2)
      unfolding ex1 [symmetric] by (simp add: filled_def)
    then have run: "flatten_loop rnd ts arg force (p # ps) d =
        rbind (flatten_loop rnd ts arg force ps d1) (\<lambda>(more, d). Inr (map ?fill filled @ more, d))"
      using False by (simp add: eo Let_def) (simp add: d1_def)
    have "set (filled @ queued) = {ord}" "length (filled @ queued) = 1"
      by (simp_all add: filled_def queued_def)
    then have all: "set (ex_pending (dk_execution d1) @ done_orders @ filled) =
        insert ord (set (ex_pending (dk_execution d) @ done_orders))"
      unfolding d1 by auto
    have dist: "distinct (map rq_symbol_id (ex_pending (dk_execution d1) @ done_orders @ filled))"
      using fresh Cons.prems(2) unfolding d1 by (auto simp: filled_def queued_def)
    have bk: "book_inv ?lat (dk_portfolio d1) (set (ex_pending (dk_execution d1) @ done_orders @ filled))
        (ex_next_order_id (dk_execution d1))"
      using books unfolding all d1(6) by (simp add: d1_def s(1,2))
    have held: "\<forall>q\<in>set ps. map_of (pf_positions (dk_portfolio d1)) (ps_symbol_id q) = Some q \<and>
      (ps_symbol_id q \<in> pf_pending_symbols (dk_portfolio d1) \<or> has_quote arg (ps_symbol_id q))"
      using Cons.prems(5) unfolding d1 by auto
    have dps: "distinct (map ps_symbol_id ps)" using Cons.prems(4) by simp
    from Cons.IH [OF d1(7) dist bk [folded d1(2)] dps held] obtain ords d' where
      "flatten_post ts arg force ps d1 (done_orders @ filled) ords d'" by blast
    note l = this [unfolded flatten_post_def d1(2-4) append_assoc]
    have covered: "\<forall>q\<in>set ps. force \<and> tradable (ps_symbol_id q) (quote_for arg (ps_symbol_id q)) \<and>
        ps_symbol_id q \<notin> insert (ps_symbol_id p) (pf_pending_symbols (dk_portfolio d)) \<longrightarrow>
        ps_symbol_id q \<in> rq_symbol_id ` set ords"
      using l by blast
    have head: "filled = [ord]" if "force" "tradable (ps_symbol_id p) (quote_for arg (ps_symbol_id p))"
      using tradable_fillable [OF that(2), of ord] s(1) that(1)
      by (simp add: filled_def flatten_fills_now_def)
    have closed: "\<forall>q\<in>set (p # ps). force \<and> tradable (ps_symbol_id q) (quote_for arg (ps_symbol_id q)) \<and>
        ps_symbol_id q \<notin> pf_pending_symbols (dk_portfolio d) \<longrightarrow>
        ps_symbol_id q \<in> rq_symbol_id ` set (filled @ ords)"
    proof (intro ballI impI)
      fix q
      assume q: "q \<in> set (p # ps)" "force \<and> tradable (ps_symbol_id q) (quote_for arg (ps_symbol_id q)) \<and>
        ps_symbol_id q \<notin> pf_pending_symbols (dk_portfolio d)"
      show "ps_symbol_id q \<in> rq_symbol_id ` set (filled @ ords)"
      proof (cases "q = p")
        case True
        then show ?thesis using head q(2) s(1) by simp
      next
        case False
        then have "q \<in> set ps" "ps_symbol_id q \<noteq> ps_symbol_id p" using q(1) Cons.prems(4) by (auto simp: image_iff)
        then show ?thesis using covered q(2) by (simp add: image_Un)
      qed
    qed
    have exits: "\<forall>ord\<in>set (filled @ ords). rq_purpose ord = ''exit''"
      using l s(3) by (auto simp: filled_def)
    have ran: "flatten_loop rnd ts arg force (p # ps) d = Inr (map ?fill (filled @ ords), d')"
      using l unfolding run by (simp only: rbind_Inr prod.case map_append)
    have same: "same_configs d d'" using l d1(1,2) by (simp add: same_configs_def)
    have pending: "pf_pending_symbols (dk_portfolio d') =
        pf_pending_symbols (dk_portfolio d) \<union> ps_symbol_id ` set (p # ps)"
      using l by simp
    have "flatten_post ts arg force (p # ps) d done_orders (filled @ ords) d'"
      unfolding flatten_post_def append_assoc using l ran same pending exits closed by blast
    then show ?thesis by blast
  qed
qed

lemma flatten_ok:
  assumes "desk_ok d"
    and "\<forall>(s, p)\<in>set (pf_positions (dk_portfolio d)).
      s \<in> pf_pending_symbols (dk_portfolio d) \<or> has_quote arg s"
  shows "\<exists>fills d'. flatten_positions rnd ts arg force d = Inr (fills, d') \<and> desk_ok d' \<and> same_configs d d' \<and>
    (force \<and> (\<forall>(s, p)\<in>set (pf_positions (dk_portfolio d)).
        s \<notin> pf_pending_symbols (dk_portfolio d) \<and> tradable s (quote_for arg s)) \<longrightarrow>
      pf_positions (dk_portfolio d') = [])"
proof -
  let ?ex = "dk_execution d" and ?al = "pf_positions (dk_portfolio d)"
  note d = desk_okD [OF assms(1)]
  have syms: "distinct (map rq_symbol_id (ex_pending ?ex @ []))"
    using assms(1) by (simp add: desk_ok_def)
  have keys: "\<forall>x\<in>set ?al. ps_symbol_id (snd x) = fst x"
    using d by (auto simp: book_inv_def position_ok_def)
  have "\<forall>p\<in>set (map snd ?al). map_of ?al (ps_symbol_id p) = Some p \<and>
      (ps_symbol_id p \<in> pf_pending_symbols (dk_portfolio d) \<or> has_quote arg (ps_symbol_id p))"
    using held_positions [OF assms(1)] assms(2) keys by (auto split: prod.splits)
  from flatten_loop_ok [OF _ syms _ _ this, of ts force] d held_positions [OF assms(1)]
  obtain ords d' where "flatten_post ts arg force (map snd ?al) d [] ords d'" by auto
  note l = this [unfolded flatten_post_def append_Nil]
  let ?fills = "map (\<lambda>ord. fill_of rnd (ex_config ?ex) ord ts
        (touch_price ord (quote_for arg (rq_symbol_id ord)))) ords"
  let ?d = "d'\<lparr>dk_portfolio := apply_fills rnd (dk_portfolio d') ?fills\<rparr>"
  have run: "flatten_positions rnd ts arg force d = Inr (?fills, ?d)"
    using l by (simp add: flatten_positions_def)
  have rest: "set (ex_pending (dk_execution d') @ ords) - set ords = set (ex_pending (dk_execution d'))"
    using l by auto
  have books: "book_inv (xc_latency_ns (ex_config ?ex)) (dk_portfolio d')
      (set (ex_pending (dk_execution d') @ ords)) (ex_next_order_id (dk_execution d'))"
    and lw: "law (dk_portfolio d')" and sub: "set ords \<subseteq> set (ex_pending (dk_execution d') @ ords)"
    and dist: "distinct ords"
    and exits: "\<forall>ord\<in>set ords. rq_purpose ord = ''entry'' \<longrightarrow> rq_eligible_timestamp_ns ord \<le> ts"
    using l by (simp_all add: distinct_map)
  have "book_inv (xc_latency_ns (ex_config ?ex)) (apply_fills rnd (dk_portfolio d') ?fills)
      (set (ex_pending (dk_execution d'))) (ex_next_order_id (dk_execution d')) \<and>
      law (apply_fills rnd (dk_portfolio d') ?fills)"
    using settle_all [OF books lw sub dist exits, of "ex_config ?ex"
        "\<lambda>ord. touch_price ord (quote_for arg (rq_symbol_id ord))"]
    unfolding rest by blast
  then have ok: "desk_ok ?d" "same_configs d ?d"
    using l by (simp_all add: desk_ok_def same_configs_def)
  have "pf_positions (dk_portfolio ?d) = []" if all: force "\<forall>(s, p)\<in>set ?al.
      s \<notin> pf_pending_symbols (dk_portfolio d) \<and> tradable s (quote_for arg s)"
  proof -
    have closed: "\<forall>p\<in>set (map snd ?al). force \<and> tradable (ps_symbol_id p) (quote_for arg (ps_symbol_id p)) \<and>
       ps_symbol_id p \<notin> pf_pending_symbols (dk_portfolio d) \<longrightarrow> ps_symbol_id p \<in> rq_symbol_id ` set ords"
      using l by blast
    have "k \<in> rq_symbol_id ` set ords" if "map_of ?al k = Some p" for k p
      using map_of_SomeD [OF that] closed keys all by fastforce
    then have "map_of (pf_positions (dk_portfolio ?d)) k = None" for k
      using apply_exits_removes [of ords] l by (cases "map_of ?al k") auto
    then have "\<forall>k. k \<notin> fst ` set (pf_positions (dk_portfolio ?d))"
      by (simp only: map_of_eq_None_iff) simp
    then have "fst ` set (pf_positions (dk_portfolio ?d)) = {}" by (simp only: all_not_in_conv)
    then show ?thesis by (simp only: image_is_empty set_empty)
  qed
  with run ok show ?thesis by blast
qed

lemma flatten_loop_append:
  "flatten_loop rnd ts arg force (ps @ qs) d =
     rbind (flatten_loop rnd ts arg force ps d) (\<lambda>(fills, d).
     rbind (flatten_loop rnd ts arg force qs d) (\<lambda>(more, d). Inr (fills @ more, d)))"
proof (induction ps arbitrary: d)
  case Nil
  then show ?case by (simp add: rbind_def case_prod_unfold split: sum.split)
next
  case (Cons p ps)
  then show ?case by (simp add: Let_def case_prod_unfold rbind_assoc)
qed

lemma flatten_uncovered:
  assumes "desk_ok d" "s \<in> fst ` set (pf_positions (dk_portfolio d))"
    and "s \<notin> pf_pending_symbols (dk_portfolio d)" "\<not> has_quote arg s"
  shows "flatten_positions rnd ts arg True d = Inl (AttributeError ''symbol_id'')"
proof -
  let ?ps = "map snd (pf_positions (dk_portfolio d))"
  let ?bad = "\<lambda>p. ps_symbol_id p \<notin> pf_pending_symbols (dk_portfolio d) \<and> \<not> has_quote arg (ps_symbol_id p)"
  note d = desk_okD [OF assms(1)]
  obtain p0 where p0: "(s, p0) \<in> set (pf_positions (dk_portfolio d))" using assms(2) by auto
  then have "ps_symbol_id p0 = s" using d by (auto simp: book_inv_def position_ok_def)
  then have "?bad p0" using assms(3,4) by simp
  moreover have "p0 \<in> set ?ps" using image_eqI [OF _ p0, of p0 snd] by simp
  ultimately have "\<exists>p\<in>set ?ps. ?bad p" by blast
  then obtain xs p ys where ps: "?ps = xs @ p # ys" "?bad p" "\<forall>q\<in>set xs. \<not> ?bad q"
    using split_list_first_prop [of ?ps ?bad] by auto
  note held = held_positions [OF assms(1), unfolded ps(1)]
  have syms: "distinct (map rq_symbol_id (ex_pending (dk_execution d) @ []))"
    using assms(1) by (simp add: desk_ok_def)
  have dxs: "distinct (map ps_symbol_id xs)" "ps_symbol_id p \<notin> ps_symbol_id ` set xs"
    using held by simp_all
  have cov: "\<forall>q\<in>set xs. map_of (pf_positions (dk_portfolio d)) (ps_symbol_id q) = Some q \<and>
      (ps_symbol_id q \<in> pf_pending_symbols (dk_portfolio d) \<or> has_quote arg (ps_symbol_id q))"
    using held ps(3) by simp
  have "book_inv (xc_latency_ns (ex_config (dk_execution d))) (dk_portfolio d)
      (set (ex_pending (dk_execution d) @ [])) (ex_next_order_id (dk_execution d))"
    using d by simp
  from flatten_loop_ok [OF conjunct1 [OF d] syms this dxs(1) cov, of ts True]
  obtain ords d' where post: "flatten_post ts arg True xs d [] ords d'" by blast
  have run: "\<exists>fills. flatten_loop rnd ts arg True xs d = Inr (fills, d')"
    and pend: "pf_pending_symbols (dk_portfolio d') = pf_pending_symbols (dk_portfolio d) \<union> ps_symbol_id ` set xs"
    using post unfolding flatten_post_def by blast+
  have p: "ps_symbol_id p \<notin> pf_pending_symbols (dk_portfolio d')"
    using pend ps(2) dxs(2) by simp
  have "map_of (pf_positions (dk_portfolio d)) (ps_symbol_id p) = Some p" using held by simp
  then have "1 \<le> ps_quantity p" using book_inv_position d by blast
  moreover obtain fs where "flatten_quote arg (ps_symbol_id p) = QuoteDict fs"
    using ps(2) by (auto simp: has_quote_def flatten_quote_def split: flatten_arg.splits)
  ultimately have "flatten_loop rnd ts arg True (p # ys) d' = Inl (AttributeError ''symbol_id'')"
    using p submit_dict by (simp add: exit_order_def new_order_id_def Let_def)
  then show ?thesis
    using run unfolding flatten_positions_def ps(1) flatten_loop_append
    by (elim exE) (simp only: rbind_Inr rbind_Inl prod.case)
qed

section \<open>Marking and clearing\<close>

lemma mark_ok:
  assumes "desk_ok d"
  shows "desk_ok (d\<lparr>dk_portfolio := snd (mark_to_market rnd ts f to_curve (dk_portfolio d))\<rparr>) \<and>
    same_configs d (d\<lparr>dk_portfolio := snd (mark_to_market rnd ts f to_curve (dk_portfolio d))\<rparr>)"
  using assms law_mark by (simp add: desk_ok_def same_configs_def mark_to_market_books)

lemma clear_ok:
  assumes "desk_ok d"
  shows "desk_ok (desk_clear d) \<and> same_configs d (desk_clear d)"
  using assms law_pending
  by (simp add: desk_ok_def same_configs_def desk_clear_def execution_flush_def book_inv_def ids_represent_def)

section \<open>Every reachable desk\<close>

lemma desk_init_ok: "desk_ok \<lparr>dk_portfolio = portfolio_init pc record_logs, dk_execution = execution_init xc\<rparr>"
  by (simp add: desk_ok_def law_init execution_init_def)
    (simp add: portfolio_init_def book_inv_def ids_represent_def)

lemma desk_apply_ok:
  assumes "desk_ok d" "op_covered cmd d"
  shows "\<exists>fills d'. desk_apply rnd cmd d = Inr (fills, d') \<and> desk_ok d' \<and> same_configs d d'"
proof (cases cmd)
  case (EndOfDay ts arg force)
  with flatten_ok [OF assms(1)] assms(2) show ?thesis by (simp add: op_covered_def) blast
next
  case (MarkToMarket ts f to_curve)
  with mark_ok [OF assms(1)] show ?thesis by simp
next
  case ClearBooks
  with clear_ok [OF assms(1)] show ?thesis by simp
qed (simp_all add: on_quote_ok evaluate_risk_ok consider_candidate_ok assms(1))

theorem reachable_ok: "desk_reachable rnd pc xc d \<Longrightarrow> desk_ok d"
proof (induction rule: desk_reachable.induct)
  case (start record_logs)
  show ?case by (rule desk_init_ok)
next
  case (step d cmd fills d')
  from desk_apply_ok [OF step.IH step.hyps(2)] step.hyps(3) show ?case by auto
qed

lemma reachable_configs:
  "desk_reachable rnd pc xc d \<Longrightarrow>
     pf_config (dk_portfolio d) = pc \<and> ex_config (dk_execution d) = xc"
proof (induction rule: desk_reachable.induct)
  case (start record_logs)
  show ?case by (simp add: portfolio_init_def execution_init_def)
next
  case (step d cmd fills d')
  from desk_apply_ok [OF reachable_ok [OF step.hyps(1)] step.hyps(2)] step.hyps(3) step.IH
  show ?case by (auto simp: same_configs_def)
qed

lemma reachable_law: "desk_reachable rnd pc xc d \<Longrightarrow> law (dk_portfolio d)"
  using reachable_ok desk_okD by blast

end

end
