(* ===== verification/Paper_Accounts.thy ===== *)
theory Paper_Accounts
  imports Paper_Reach
begin

text \<open>
  The account laws on the model's own portfolio, and what they say of every desk the replay can
  reach: the books never break and nothing raises, an entry is never filled before its candidate's
  time plus the latency, cash balances against positions and trades, the reported maximum
  drawdown bounds every drop of the equity curve.
\<close>

section \<open>The laws\<close>

interpretation books: account_law rnd "\<lambda>_. True" for rnd :: "rat \<Rightarrow> rat"
  by unfold_locales simp_all

definition realized_of :: "(rat \<Rightarrow> rat) \<Rightarrow> completed_trade list \<Rightarrow> rat" where
  "realized_of rnd = foldl (\<lambda>acc t. rnd (acc + tr_net_pnl t)) 0"

definition realized_law :: "(rat \<Rightarrow> rat) \<Rightarrow> portfolio \<Rightarrow> bool" where
  "realized_law rnd pf \<longleftrightarrow> pf_realized_pnl pf = realized_of rnd (pf_completed_trades pf)"

interpretation realized: account_law rnd "realized_law rnd" for rnd :: "rat \<Rightarrow> rat"
proof
  fix lat pf S n ord c ts r
  assume "realized_law rnd pf"
  then show "realized_law rnd (apply_fill rnd pf (fill_of rnd c ord ts r))"
    by (simp add: realized_law_def realized_of_def apply_fill_def Let_def split: option.split)
qed (simp_all add: realized_law_def realized_of_def portfolio_init_def mark_to_market_def Let_def)

section \<open>The cash ledger\<close>

text \<open>What an open position has taken out of cash: its entry costs, and its notional when long.\<close>

definition cost_basis :: "position \<Rightarrow> rat" where
  "cost_basis p =
     (if ps_direction p = ''long'' then dollars_of (\<lambda>x. x) (ps_entry_price p) (ps_quantity p) else 0)
     + ps_entry_costs p"

definition ledger_law :: "portfolio \<Rightarrow> bool" where
  "ledger_law pf \<longleftrightarrow>
     pf_cash pf = pc_starting_cash (pf_config pf) + pf_realized_pnl pf
       - (\<Sum>x\<leftarrow>pf_positions pf. cost_basis (snd x))"

lemma sum_list_delete:
  assumes "distinct (map fst al)" "map_of al k = Some v"
  shows "(\<Sum>x\<leftarrow>al. g (snd x)) = g v + (\<Sum>x\<leftarrow>AList.delete k al. (g (snd x) :: rat))"
  using assms
proof (induction al)
  case Nil
  then show ?case by simp
next
  case (Cons x al)
  show ?case
  proof (cases "fst x = k")
    case True
    then have "k \<notin> fst ` set al" using Cons.prems(1) by auto
    then have "AList.delete k al = al" by simp
    with True Cons.prems show ?thesis by (cases x) simp
  next
    case False
    with Cons show ?thesis by (cases x) simp
  qed
qed

lemma dollars_of_diff:
  "dollars_of (\<lambda>x. x) (a - b) q = dollars_of (\<lambda>x. x) a q - dollars_of (\<lambda>x. x) b q"
  by (simp add: dollars_of_def diff_divide_distrib left_diff_distrib)

interpretation ledger: account_law "\<lambda>x. x" ledger_law
proof
  fix lat pf S n ord c ts r
  assume law: "ledger_law pf" and inv: "book_inv lat pf S n" and ord: "ord \<in> S"
  let ?fi = "fill_of (\<lambda>x. x) c ord ts r"
  note ok = book_inv_outstanding [OF inv ord]
  show "ledger_law (apply_fill (\<lambda>x. x) pf ?fi)"
  proof (cases "rq_purpose ord = ''entry''")
    case True
    then have en: "entry_order_ok (pc_enable_short (pf_config pf)) lat (pf_positions pf) ord"
      using ok by (auto simp: order_ok_def exit_order_ok_def)
    show ?thesis
      using law unfolding apply_fill_entry [OF en]
      by (simp add: ledger_law_def Let_def cost_basis_def position_of_fill_def fill_of_def)
  next
    case False
    then obtain p where ex: "rq_purpose ord = ''exit''" "map_of (pf_positions pf) (rq_symbol_id ord) = Some p"
      and q: "rq_quantity ord = ps_quantity p"
      using ok by (auto simp: order_ok_def exit_order_ok_def entry_order_ok_def)
    have "distinct (map fst (pf_positions pf))" using inv by (simp add: book_inv_def)
    note rest = sum_list_delete [OF this ex(2), of cost_basis]
    show ?thesis
      using law unfolding apply_fill_exit [OF ex]
      by (simp add: ledger_law_def Let_def rest cost_basis_def [of p] trade_of_def gross_of_def q
          dollars_of_diff)
  qed
qed (simp_all add: ledger_law_def portfolio_init_def mark_to_market_def Let_def)

section \<open>The maximum drawdown\<close>

text \<open>
  Every pair of points of the equity curve: the fall from the earlier to the later one is never
  below the recorded maximum drawdown, which is at most zero.
\<close>

definition drawdown_law :: "(rat \<Rightarrow> rat) \<Rightarrow> portfolio \<Rightarrow> bool" where
  "drawdown_law rnd pf \<longleftrightarrow>
     pf_maximum_drawdown pf \<le> 0 \<and>
     (\<forall>e\<in>set (pf_equity_curve pf). \<exists>h. pf_high_water_equity pf = Some h \<and> eq_equity e \<le> h) \<and>
     (\<forall>i j. i \<le> j \<longrightarrow> j < length (pf_equity_curve pf) \<longrightarrow>
        pf_maximum_drawdown pf \<le>
          rnd (eq_equity (pf_equity_curve pf ! j) - eq_equity (pf_equity_curve pf ! i)))"

context float_rounding
begin

lemma drawdown_mark:
  assumes "drawdown_law rnd pf"
  shows "drawdown_law rnd (snd (mark_to_market rnd ts f to_curve pf))"
proof -
  define e where "e = equity_point_of rnd ts f pf"
  define high where "high = (case pf_high_water_equity pf of None \<Rightarrow> eq_equity e | Some h \<Rightarrow> max h (eq_equity e))"
  define low where "low = min (pf_maximum_drawdown pf) (rnd (eq_equity e - high))"
  let ?curve = "pf_equity_curve pf"
  have old: "pf_maximum_drawdown pf \<le> 0"
    "\<And>x. x \<in> set ?curve \<Longrightarrow> eq_equity x \<le> high"
    "\<And>i j. i \<le> j \<Longrightarrow> j < length ?curve \<Longrightarrow> low \<le> rnd (eq_equity (?curve ! j) - eq_equity (?curve ! i))"
    using assms by (fastforce simp: drawdown_law_def high_def low_def min_def)+
  have e: "eq_equity e \<le> high" by (simp add: high_def split: option.split)
  have new: "low \<le> rnd (eq_equity e - x)" if "x \<le> high" for x
    using rnd_mono [of "eq_equity e - high" "eq_equity e - x"] that by (simp add: low_def min_def)
  have "low \<le> rnd (eq_equity ((?curve @ [e]) ! j) - eq_equity ((?curve @ [e]) ! i))"
    if "i \<le> j" "j < length (?curve @ [e])" for i j
    using that old(2) [of "?curve ! i"] old(3) new new [OF e] e
    by (cases "j < length ?curve"; cases "i < length ?curve") (auto simp: nth_append)
  moreover have "low \<le> 0" using old(1) by (simp add: low_def)
  ultimately show ?thesis
    using old(2,3) e
    by (auto simp: drawdown_law_def mark_to_market_def Let_def e_def [symmetric] high_def [symmetric]
        low_def [symmetric])
qed

end

sublocale float_rounding \<subseteq> drawdown: account_law rnd "drawdown_law rnd"
proof
  fix ts f to_curve pf
  assume "drawdown_law rnd pf"
  then show "drawdown_law rnd (snd (mark_to_market rnd ts f to_curve pf))" by (rule drawdown_mark)
next
  fix lat pf S n ord c ts r
  assume "drawdown_law rnd pf"
  then show "drawdown_law rnd (apply_fill rnd pf (fill_of rnd c ord ts r))"
    by (simp add: drawdown_law_def apply_fill_def Let_def split: option.split)
qed (simp_all add: drawdown_law_def portfolio_init_def)

section \<open>Properties of every reachable desk\<close>

lemma reachable_books:
  assumes "desk_reachable rnd pc xc d"
  shows "book_inv (xc_latency_ns xc) (dk_portfolio d) (set (ex_pending (dk_execution d)))
      (ex_next_order_id (dk_execution d)) \<and> pf_config (dk_portfolio d) = pc \<and>
    distinct (map rq_symbol_id (ex_pending (dk_execution d)))"
  using books.reachable_ok [OF assms] books.reachable_configs [OF assms] books.desk_ok_def by simp

text \<open>
  C12: On every reachable desk, every operation of the replay returns: a quote, a risk check, a
  candidate, a mark and the clearing between sessions never raise, and neither does the
  end-of-day flattening when every open position without a pending order has a quote. The
  configurations never change.
\<close>

theorem desk_never_raises:
  assumes "desk_reachable rnd pc xc d" "op_covered cmd d"
  shows "\<exists>fills d'. desk_apply rnd cmd d = Inr (fills, d') \<and>
    pf_config (dk_portfolio d') = pc \<and> ex_config (dk_execution d') = xc"
  using books.desk_apply_ok [OF books.reachable_ok [OF assms(1)] assms(2)]
    books.reachable_configs [OF assms(1)]
  unfolding same_configs_def by metis

text \<open>
  C5: On every reachable desk the portfolio and the simulator's order book agree: the symbols marked
  pending are exactly those of the queued orders, each with the recorded order id and at most one
  order per symbol; there is at most one position per symbol, of a positive quantity, and short
  only when shorting is enabled; an exit order is always for the whole quantity and direction of
  a position that is open, and an entry order for a symbol that is flat.
\<close>

theorem desk_books_agree:
  assumes "desk_reachable rnd pc xc d"
  shows "pf_pending_symbols (dk_portfolio d) = rq_symbol_id ` set (ex_pending (dk_execution d)) \<and>
    distinct (map rq_symbol_id (ex_pending (dk_execution d))) \<and>
    (\<forall>s i. map_of (pf_pending_order_ids (dk_portfolio d)) s = Some i \<longleftrightarrow>
       (\<exists>ord\<in>set (ex_pending (dk_execution d)). rq_symbol_id ord = s \<and> rq_order_id ord = i)) \<and>
    distinct (map fst (pf_positions (dk_portfolio d))) \<and>
    (\<forall>(s, p)\<in>set (pf_positions (dk_portfolio d)). ps_symbol_id p = s \<and> 1 \<le> ps_quantity p \<and>
       (ps_direction p = ''long'' \<or> ps_direction p = ''short'' \<and> pc_enable_short pc)) \<and>
    (\<forall>ord\<in>set (ex_pending (dk_execution d)). 1 \<le> rq_quantity ord \<and>
       rq_order_id ord < ex_next_order_id (dk_execution d) \<and>
       (case map_of (pf_positions (dk_portfolio d)) (rq_symbol_id ord) of
          None \<Rightarrow> rq_purpose ord = ''entry''
        | Some p \<Rightarrow> rq_purpose ord = ''exit'' \<and> rq_position_direction ord = ps_direction p \<and>
            rq_quantity ord = ps_quantity p))"
proof -
  note r = reachable_books [OF assms]
  have "\<forall>ord\<in>set (ex_pending (dk_execution d)). 1 \<le> rq_quantity ord \<and>
       rq_order_id ord < ex_next_order_id (dk_execution d) \<and>
       (case map_of (pf_positions (dk_portfolio d)) (rq_symbol_id ord) of
          None \<Rightarrow> rq_purpose ord = ''entry''
        | Some p \<Rightarrow> rq_purpose ord = ''exit'' \<and> rq_position_direction ord = ps_direction p \<and>
            rq_quantity ord = ps_quantity p)"
    using r by (fastforce simp: book_inv_def order_ok_def entry_order_ok_def exit_order_ok_def)
  with r show ?thesis
    by (auto simp: book_inv_def ids_represent_def position_ok_def allowed_direction_def)
qed

text \<open>
  C22: No look-ahead: on every reachable desk, every position and every completed trade was entered
  at a time no earlier than its candidate's timestamp plus the configured latency.
\<close>

theorem no_entry_before_latency:
  assumes "desk_reachable rnd pc xc d"
  shows "(\<forall>(s, p)\<in>set (pf_positions (dk_portfolio d)).
      ps_entry_candidate_timestamp_ns p + xc_latency_ns xc \<le> ps_entry_fill_timestamp_ns p) \<and>
    (\<forall>t\<in>set (pf_completed_trades (dk_portfolio d)).
      tr_candidate_timestamp_ns t + xc_latency_ns xc \<le> tr_entry_fill_timestamp_ns t)"
  using reachable_books [OF assms] by (auto simp: book_inv_def position_ok_def trade_ok_def)

text \<open>
  C7: The cash ledger, in exact arithmetic: on every reachable desk, cash is the starting cash plus
  the net result of the completed trades, less what the open positions cost (entry costs, and the
  entry notional of the long ones).
\<close>

theorem cash_ledger_balances:
  assumes "desk_reachable (\<lambda>x. x) pc xc d"
  shows "pf_cash (dk_portfolio d) =
    pc_starting_cash pc + (\<Sum>t\<leftarrow>pf_completed_trades (dk_portfolio d). tr_net_pnl t)
      - (\<Sum>x\<leftarrow>pf_positions (dk_portfolio d). cost_basis (snd x))"
proof -
  have "foldl (\<lambda>acc t. acc + tr_net_pnl t) a ts = a + (\<Sum>t\<leftarrow>ts. tr_net_pnl t)" for a and ts :: "completed_trade list"
    by (induction ts arbitrary: a) simp_all
  then show ?thesis
    using ledger.reachable_law [OF assms] realized.reachable_law [OF assms]
      books.reachable_configs [OF assms]
    by (simp add: ledger_law_def realized_law_def realized_of_def)
qed

text \<open>
  The reported maximum drawdown, in binary64 arithmetic: on every reachable desk it is not
  positive and no later point of the equity curve lies further below an earlier one.
\<close>

theorem drawdown_bounds_every_fall:
  assumes "desk_reachable fl64 pc xc d"
  shows "pf_maximum_drawdown (dk_portfolio d) \<le> 0 \<and>
    (\<forall>i j. i \<le> j \<longrightarrow> j < length (pf_equity_curve (dk_portfolio d)) \<longrightarrow>
       pf_maximum_drawdown (dk_portfolio d) \<le>
         fl64 (eq_equity (pf_equity_curve (dk_portfolio d) ! j)
             - eq_equity (pf_equity_curve (dk_portfolio d) ! i)))"
  using binary64.drawdown.reachable_law [OF assms] by (simp add: drawdown_law_def)

text \<open>
  C37: Admission of entries: an entry order is only created at a positive quoted price, for the
  quantity the sizing mode gives, when cash covers the notional and the estimated commission of
  a long (the commission of a short), below the limit on concurrent positions, and when the gross
  exposure with it stays within the configured limit (the starting cash when none is set).
  Creating it changes nothing but the next order id.
\<close>

theorem entry_within_limits:
  assumes "entry_order rnd cand direction d = (Some (i, ord), d')"
  defines "price \<equiv> (if direction = ''long'' then ft_ask_price (cs_feature cand)
                     else ft_bid_price (cs_feature cand))"
  shows "0 < price \<and> 1 \<le> rq_quantity ord \<and> rq_quantity ord = order_size rnd (dk_portfolio d) price \<and>
    (direction = ''long'' \<longrightarrow> rnd (dollars_of rnd price (rq_quantity ord)
       + commission_for rnd (ex_config (dk_execution d)) (rq_quantity ord)) \<le> pf_cash (dk_portfolio d)) \<and>
    (direction = ''short'' \<longrightarrow>
       commission_for rnd (ex_config (dk_execution d)) (rq_quantity ord) \<le> pf_cash (dk_portfolio d)) \<and>
    (\<forall>n. pc_max_concurrent_positions (pf_config (dk_portfolio d)) = Some n \<longrightarrow>
       int (length (pf_positions (dk_portfolio d))) < n) \<and>
    rnd (gross_exposure rnd (dk_portfolio d) + dollars_of rnd price (rq_quantity ord)) \<le>
      (case pc_max_gross_exposure (pf_config (dk_portfolio d)) of Some x \<Rightarrow> x
       | None \<Rightarrow> pc_starting_cash (pf_config (dk_portfolio d))) \<and>
    d' = next_id d"
  using entry_order_cases [OF assms(1)]
  unfolding entry_admitted_def entry_shape_def Let_def price_def by auto

text \<open>
  C36: The forced end-of-day flattening of a reachable desk with no order out, with a tradable last
  quote for every open position, returns and leaves no position open.
\<close>

theorem end_of_day_closes_everything:
  assumes "desk_reachable rnd pc xc d" "pf_pending_symbols (dk_portfolio d) = {}"
    and "\<forall>(s, p)\<in>set (pf_positions (dk_portfolio d)). \<exists>f. map_of quotes s = Some f \<and> tradable s f"
  shows "\<exists>fills d'. flatten_positions rnd ts (LastQuotes quotes) True d = Inr (fills, d') \<and>
    pf_positions (dk_portfolio d') = []"
proof -
  have "\<forall>(s, p)\<in>set (pf_positions (dk_portfolio d)).
      s \<in> pf_pending_symbols (dk_portfolio d) \<or> has_quote (LastQuotes quotes) s"
    "\<forall>(s, p)\<in>set (pf_positions (dk_portfolio d)). s \<notin> pf_pending_symbols (dk_portfolio d) \<and>
      tradable s (quote_for (LastQuotes quotes) s)"
    using assms(2,3) by (auto simp: has_quote_def quote_for_def)
  with books.flatten_ok [OF books.reachable_ok [OF assms(1)], of "LastQuotes quotes" rnd ts True]
  show ?thesis by blast
qed

lemma flatten_outcome:
  assumes "desk_reachable rnd pc xc d"
  shows "if \<exists>s\<in>fst ` set (pf_positions (dk_portfolio d)). s \<notin> pf_pending_symbols (dk_portfolio d) \<and> map_of quotes s = None
    then flatten_positions rnd ts (LastQuotes quotes) True d = Inl (AttributeError ''symbol_id'')
    else op_covered (EndOfDay ts (LastQuotes quotes) True) d \<and>
      (\<exists>fills d'. flatten_positions rnd ts (LastQuotes quotes) True d = Inr (fills, d'))"
proof -
  note ok = books.reachable_ok [OF assms]
  have "flatten_positions rnd ts (LastQuotes quotes) True d = Inl (AttributeError ''symbol_id'')"
    if "s \<in> fst ` set (pf_positions (dk_portfolio d))" "s \<notin> pf_pending_symbols (dk_portfolio d)"
      "map_of quotes s = None" for s
    using books.flatten_uncovered [OF ok that(1,2), of "LastQuotes quotes"] that(3) by (simp add: has_quote_def)
  moreover have "op_covered (EndOfDay ts (LastQuotes quotes) True) d \<and>
      (\<exists>fills d'. flatten_positions rnd ts (LastQuotes quotes) True d = Inr (fills, d'))"
    if "\<forall>s\<in>fst ` set (pf_positions (dk_portfolio d)). s \<in> pf_pending_symbols (dk_portfolio d) \<or> map_of quotes s \<noteq> None"
  proof -
    have "op_covered (EndOfDay ts (LastQuotes quotes) True) d"
      using that by (auto simp: op_covered_def has_quote_def)
    with books.desk_apply_ok [OF ok this, of rnd] show ?thesis by auto
  qed
  ultimately show ?thesis by auto
qed

text \<open>
  The forced end-of-day flattening of a reachable desk raises \<open>AttributeError\<close> exactly when some
  open position has no order out and its symbol is missing from the dict of last quotes (the
  dict itself is then taken for the quote); otherwise it returns.
\<close>

theorem flatten_raises_iff_quote_missing:
  assumes "desk_reachable rnd pc xc d"
  shows "case flatten_positions rnd ts (LastQuotes quotes) True d of
      Inl e \<Rightarrow> e = AttributeError ''symbol_id'' \<and>
        (\<exists>(s, p)\<in>set (pf_positions (dk_portfolio d)). s \<notin> pf_pending_symbols (dk_portfolio d) \<and> map_of quotes s = None)
    | Inr _ \<Rightarrow> \<forall>(s, p)\<in>set (pf_positions (dk_portfolio d)).
        s \<in> pf_pending_symbols (dk_portfolio d) \<or> map_of quotes s \<noteq> None"
  using flatten_outcome [OF assms, where quotes = quotes and ts = ts]
  by (cases "flatten_positions rnd ts (LastQuotes quotes) True d") (fastforce split: if_splits)+

section \<open>A day of trading\<close>

definition demo_portfolio_config :: portfolio_config where
  "demo_portfolio_config =
     \<lparr>pc_starting_cash = 100000, pc_sizing_mode = ''fixed_notional'', pc_fixed_shares = 1,
      pc_fixed_notional = 10000, pc_fixed_cash_pct = 1 / 10, pc_max_concurrent_positions = None,
      pc_enable_short = False, pc_no_pyramiding = True, pc_reverse_same_event = False,
      pc_opposite_candidate_exit = True, pc_stop_loss_bps = Some 10, pc_take_profit_bps = None,
      pc_max_holding_ns = None, pc_end_of_day_flatten = True, pc_max_gross_exposure = None\<rparr>"

definition demo_candidate :: "int \<Rightarrow> int \<Rightarrow> feature_snapshot \<Rightarrow> candidate_signal" where
  "demo_candidate ts symb f =
     \<lparr>cs_timestamp_ns = ts, cs_event_type = 2, cs_symbol_id = symb, cs_sequence = 1,
      cs_action = SIGNAL_LONG_CANDIDATE, cs_score = 3, cs_reason_bits = 7, cs_feature = f\<rparr>"

fun desk_history :: "(rat \<Rightarrow> rat) \<Rightarrow> desk_op list \<Rightarrow> desk \<Rightarrow> desk result" where
  "desk_history rnd [] d = Inr d"
| "desk_history rnd (cmd # cmds) d = rbind (desk_apply rnd cmd d) (\<lambda>(_, d). desk_history rnd cmds d)"

lemma history_reachable:
  "desk_history rnd cmds d = Inr d' \<Longrightarrow> desk_reachable rnd pc xc d \<Longrightarrow>
     \<forall>cmd\<in>set cmds. \<forall>ts arg force. cmd \<noteq> EndOfDay ts arg force \<Longrightarrow> desk_reachable rnd pc xc d'"
proof (induction cmds arbitrary: d)
  case Nil
  then show ?case by simp
next
  case (Cons cmd cmds)
  from Cons.prems(1) obtain fills d1 where
    d1: "desk_apply rnd cmd d = Inr (fills, d1)" "desk_history rnd cmds d1 = Inr d'"
    by (auto simp: rbind_eq_Inr)
  have "op_covered cmd d" using Cons.prems(3) by (cases cmd) (auto simp: op_covered_def)
  from desk_reachable.step [OF Cons.prems(2) this d1(1)] Cons.IH [OF d1(2)] Cons.prems(3)
  show ?case by simp
qed

definition demo_history :: "desk_op list" where
  "demo_history =
     [ConsiderCandidate (demo_candidate 100 0 (demo_quote 0 99990000 100010000)) True,
      OnQuote 120 (demo_quote 0 99990000 100010000),
      OnQuote 160 (demo_quote 0 100000000 100020000),
      MarkToMarket 160 (demo_quote 0 100000000 100020000) True,
      EvaluateRisk 300 (demo_quote 0 99800000 99820000) True,
      OnQuote 400 (demo_quote 0 99800000 99820000),
      MarkToMarket 400 (demo_quote 0 99800000 99820000) True,
      ConsiderCandidate (demo_candidate 500 1 (demo_quote 1 49990000 50010000)) True,
      OnQuote 600 (demo_quote 1 49990000 50010000)]"

definition demo_start :: desk where
  "demo_start = \<lparr>dk_portfolio = portfolio_init demo_portfolio_config True,
     dk_execution = execution_init (Some demo_execution_config)\<rparr>"

definition demo_desk :: desk where
  "demo_desk = (case desk_history (\<lambda>x. x) demo_history demo_start of Inr d \<Rightarrow> d | Inl _ \<Rightarrow> demo_start)"

lemma demo_start_reachable: "desk_reachable rnd demo_portfolio_config demo_execution_config demo_start"
  unfolding demo_start_def by (rule desk_reachable.start)

lemma demo_desk_run:
  "case desk_history (\<lambda>x. x) demo_history demo_start of Inl _ \<Rightarrow> False
   | Inr d \<Rightarrow> map fst (pf_positions (dk_portfolio d)) = [1] \<and>
       length (pf_completed_trades (dk_portfolio d)) = 1 \<and>
       pf_pending_symbols (dk_portfolio d) = {} \<and> ex_pending (dk_execution d) = []"
  by code_simp

lemma demo_desk:
  "desk_reachable (\<lambda>x. x) demo_portfolio_config demo_execution_config demo_desk"
  "map fst (pf_positions (dk_portfolio demo_desk)) = [1]"
  "length (pf_completed_trades (dk_portfolio demo_desk)) = 1"
  "pf_pending_symbols (dk_portfolio demo_desk) = {}"
proof -
  obtain d where d: "desk_history (\<lambda>x. x) demo_history demo_start = Inr d"
    using demo_desk_run by (auto split: sum.splits)
  have "\<forall>cmd\<in>set demo_history. \<forall>ts arg force. cmd \<noteq> EndOfDay ts arg force"
    by (simp add: demo_history_def)
  from history_reachable [OF d demo_start_reachable this]
  show "desk_reachable (\<lambda>x. x) demo_portfolio_config demo_execution_config demo_desk"
    by (simp add: demo_desk_def d)
qed (use demo_desk_run in \<open>auto simp: demo_desk_def split: sum.splits\<close>)

lemma demo_position:
  obtains p where "pf_positions (dk_portfolio demo_desk) = [(1, p)]"
  using demo_desk(2) that by (auto simp: map_eq_Cons_conv)

theorem desk_never_raises_witness:
  "\<exists>fills d'. desk_apply (\<lambda>x. x) (EndOfDay 700 (LastQuotes [(1, demo_quote 1 49990000 50010000)]) True)
     demo_desk = Inr (fills, d')"
proof (rule demo_position)
  fix p
  assume "pf_positions (dk_portfolio demo_desk) = [(1, p)]"
  then have "op_covered (EndOfDay 700 (LastQuotes [(1, demo_quote 1 49990000 50010000)]) True) demo_desk"
    by (simp add: op_covered_def has_quote_def)
  from desk_never_raises [OF demo_desk(1) this] show ?thesis by blast
qed

theorem desk_books_agree_witness:
  "\<exists>p. pf_positions (dk_portfolio demo_desk) = [(1, p)] \<and> ps_symbol_id p = 1 \<and> ps_direction p = ''long'' \<and>
     ex_pending (dk_execution demo_desk) = []"
proof (rule demo_position)
  fix p
  assume "pf_positions (dk_portfolio demo_desk) = [(1, p)]"
  with desk_books_agree [OF demo_desk(1)] demo_desk(4) show ?thesis
    by (auto simp: demo_portfolio_config_def)
qed

theorem no_entry_before_latency_witness:
  "\<exists>t. pf_completed_trades (dk_portfolio demo_desk) = [t] \<and>
     tr_candidate_timestamp_ns t + 50 \<le> tr_entry_fill_timestamp_ns t"
  using no_entry_before_latency [OF demo_desk(1)] demo_desk(3)
  by (auto simp: length_Suc_conv demo_execution_config_def)

theorem cash_ledger_balances_witness:
  "\<exists>t p. pf_completed_trades (dk_portfolio demo_desk) = [t] \<and> pf_positions (dk_portfolio demo_desk) = [(1, p)] \<and>
     pf_cash (dk_portfolio demo_desk) = 100000 + tr_net_pnl t - cost_basis p"
proof (rule demo_position)
  fix p
  assume p: "pf_positions (dk_portfolio demo_desk) = [(1, p)]"
  from cash_ledger_balances [OF demo_desk(1)] demo_desk(3) p show ?thesis
    by (auto simp: length_Suc_conv demo_portfolio_config_def)
qed

theorem drawdown_bounds_every_fall_witness:
  "\<exists>d. desk_history fl64 [MarkToMarket 1 (demo_quote 0 99990000 100010000) True,
       MarkToMarket 2 (demo_quote 0 99980000 100010000) True] demo_start = Inr d \<and>
     pf_maximum_drawdown (dk_portfolio d) \<le>
       fl64 (eq_equity (pf_equity_curve (dk_portfolio d) ! 1) - eq_equity (pf_equity_curve (dk_portfolio d) ! 0))"
proof -
  let ?cmds = "[MarkToMarket 1 (demo_quote 0 99990000 100010000) True,
       MarkToMarket 2 (demo_quote 0 99980000 100010000) True]"
  obtain d where d: "desk_history fl64 ?cmds demo_start = Inr d" by simp
  have "length (pf_equity_curve (dk_portfolio d)) = 2"
    using d by (auto simp: mark_to_market_def Let_def demo_start_def portfolio_init_def)
  moreover have "desk_reachable fl64 demo_portfolio_config demo_execution_config d"
    using history_reachable [OF d demo_start_reachable] by simp
  ultimately show ?thesis using drawdown_bounds_every_fall [of _ _ d] d by auto
qed

theorem end_of_day_closes_everything_witness:
  "\<exists>fills d'. flatten_positions (\<lambda>x. x) 700 (LastQuotes [(1, demo_quote 1 49990000 50010000)]) True demo_desk
     = Inr (fills, d') \<and> pf_positions (dk_portfolio d') = []"
proof (rule demo_position)
  fix p
  assume "pf_positions (dk_portfolio demo_desk) = [(1, p)]"
  then have "\<forall>(s, p)\<in>set (pf_positions (dk_portfolio demo_desk)).
      \<exists>f. map_of [(1, demo_quote 1 49990000 50010000)] s = Some f \<and> tradable s f"
    by (simp add: tradable_def demo_quote_def)
  from end_of_day_closes_everything [OF demo_desk(1,4) this] show ?thesis .
qed

theorem flatten_raises_iff_quote_missing_witness:
  "flatten_positions (\<lambda>x. x) 700 (LastQuotes [(0, demo_quote 0 49990000 50010000)]) True demo_desk
     = Inl (AttributeError ''symbol_id'')"
proof (rule demo_position)
  fix p
  assume "pf_positions (dk_portfolio demo_desk) = [(1, p)]"
  with flatten_raises_iff_quote_missing [OF demo_desk(1), where ts = 700 and quotes = "[(0, demo_quote 0 49990000 50010000)]"] demo_desk(4)
  show ?thesis by (auto split: sum.splits)
qed

theorem entry_within_limits_witness:
  "\<exists>i ord d'. entry_order (\<lambda>x. x) (demo_candidate 100 0 (demo_quote 0 99990000 100010000)) ''long'' demo_start
     = (Some (i, ord), d') \<and> 1 \<le> rq_quantity ord"
proof -
  have "fst (entry_order (\<lambda>x. x) (demo_candidate 100 0 (demo_quote 0 99990000 100010000)) ''long'' demo_start) \<noteq> None"
    by code_simp
  then obtain i ord d' where
    "entry_order (\<lambda>x. x) (demo_candidate 100 0 (demo_quote 0 99990000 100010000)) ''long'' demo_start
     = (Some (i, ord), d')"
    by (cases "entry_order (\<lambda>x. x) (demo_candidate 100 0 (demo_quote 0 99990000 100010000)) ''long'' demo_start")
      auto
  with entry_within_limits [OF this] show ?thesis by blast
qed

end
