(* ===== verification/Canonical_Correct.thy ===== *)
theory Canonical_Correct
  imports Canonical_Events "HOL-Library.Multiset"
begin

text \<open>
  Correctness of the canonical event files: what the two writers write the two readers read
  back, the sparse reader of field tuples agrees with the event reader, the global order is the
  stable sort by its key, and replay sequences grow strictly within a key.
\<close>

section \<open>Printed cells\<close>

lemma plain_lower: "list_all plain_digit s \<Longrightarrow> map py_lower_char s = s"
  by (induction s) (simp_all add: plain_digit_other(5))

lemma plain_no_comma: "plain_digit c \<Longrightarrow> c \<noteq> CHR '',''"
  by (auto simp: plain_digit_def char_code_def)

lemma py_str_int_chars:
  "py_str_int n \<noteq> [] \<and> list_all (\<lambda>c. plain_digit c \<or> c = CHR ''-'') (py_str_int n)"
  using print_digits_plain [of 10 "nat n"] print_digits_plain [of 10 "nat (- n)"]
  by (auto simp: py_str_int_def list_all_iff)

lemma strip_str_int: "py_strip (py_str_int n) = py_str_int n"
  using py_str_int_chars [of n]
  by (intro strip_plain) (auto simp: list_all_iff dest: plain_digit_other(4))

lemma strip_nil: "py_strip [] = []"
  by (simp add: py_strip_def)

lemma str_int_no_comma: "CHR '','' \<notin> set (py_str_int n)"
  using py_str_int_chars [of n] by (auto simp: list_all_iff dest: plain_no_comma)

lemma hex_chars:
  "0 \<le> n \<Longrightarrow> \<exists>ds. py_hex_02 n = CHR ''0'' # CHR ''x'' # ds \<and> list_all plain_digit ds"
proof -
  assume "0 \<le> n"
  moreover have "plain_digit (CHR ''0'')" by (simp add: plain_digit_def char_code_def)
  ultimately show ?thesis
    using print_digits_plain [of 16 "nat n"] by (simp add: py_hex_02_def pad_2_def)
qed

lemma parse_int_str [simp]: "parse_int (Some (py_str_int n)) field row = Inr n"
  using py_str_int_chars [of n] by (simp add: parse_int_def strip_str_int py_int_text_str)

lemma parse_event_type_name: "0 \<le> t \<Longrightarrow> parse_event_type (Some (event_type_name t)) row = Inr t"
proof -
  assume t: "0 \<le> t"
  show ?thesis
  proof (cases "t \<in> {1, 2}")
    case True
    have "py_strip ''quote'' = ''quote''" "py_strip ''trade'' = ''trade''"
      "py_lower ''quote'' = ''quote''" "py_lower ''trade'' = ''trade''"
      by (simp_all add: py_strip_def py_lower_def py_lower_char_def py_space_def char_code_def)
    with True show ?thesis
      by (auto simp: parse_event_type_def event_type_name_def EVENT_NAMES_def EVENT_TYPES_def blank_cell_def)
  next
    case False
    then have name: "event_type_name t = py_hex_02 t" by (simp add: event_type_name_def EVENT_NAMES_def)
    obtain ds where h: "py_hex_02 t = CHR ''0'' # CHR ''x'' # ds" "list_all plain_digit ds"
      using hex_chars [OF t] by blast
    then have strip: "py_strip (py_hex_02 t) = py_hex_02 t"
      by (intro strip_plain) (simp add: plain_not_space)
    have "py_lower_char (CHR ''0'') = CHR ''0''" "py_lower_char (CHR ''x'') = CHR ''x''"
      by (simp_all add: py_lower_char_def char_code_def)
    then have lower: "py_lower (py_hex_02 t) = py_hex_02 t"
      using h by (simp add: py_lower_def plain_lower)
    have none: "map_of EVENT_TYPES (py_hex_02 t) = None" by (simp add: EVENT_TYPES_def h)
    have "py_hex_02 t \<noteq> []" by (simp add: h)
    then show ?thesis
      using none by (simp add: parse_event_type_def name blank_cell_def strip lower parse_int_def
          py_int_text_hex [OF t] Let_def)
  qed
qed

section \<open>CSV files\<close>

lemma split_on_word: "d \<notin> set w \<Longrightarrow> split_on d w = [w]"
  by (induction w) auto

lemma split_on_append: "d \<notin> set w \<Longrightarrow> split_on d (w @ d # rest) = w # split_on d rest"
  by (induction w) auto

lemma split_join:
  "ws \<noteq> [] \<Longrightarrow> \<forall>w\<in>set ws. d \<notin> set w \<Longrightarrow> split_on d (join_with [d] ws) = ws"
  by (induction "[d]" ws rule: join_with.induct) (simp_all add: split_on_word split_on_append)

lemma csv_cells_no_comma: "0 \<le> ne_event_type e \<Longrightarrow> \<forall>w\<in>set (csv_cells e). CHR '','' \<notin> set w"
proof -
  assume t: "0 \<le> ne_event_type e"
  have "CHR '','' \<notin> set (event_type_name (ne_event_type e))"
    using hex_chars [OF t] plain_no_comma
    by (fastforce simp: event_type_name_def EVENT_NAMES_def list_all_iff split: if_splits)
  then show ?thesis by (auto simp: csv_cells_def str_int_no_comma split: option.splits)
qed

definition relocated :: "string \<Rightarrow> int \<Rightarrow> normalized_event \<Rightarrow> normalized_event" where
  "relocated path i e = e\<lparr>ne_source_index := i, ne_source := path\<rparr>"

lemma event_from_csv_cells:
  assumes "0 \<le> ne_event_type e"
  shows "event_from_mapping (row_of CANONICAL_FIELDS (csv_cells e)) n path =
    Inr (relocated path (max (n - 2) 0) e)"
proof -
  let ?seq = "case ne_sequence e of None \<Rightarrow> [] | Some s \<Rightarrow> py_str_int s"
  let ?row = "row_of CANONICAL_FIELDS (csv_cells e)"
  have row: "map_of ?row ''timestamp_ns'' = Some (Some (py_str_int (ne_timestamp_ns e)))"
    "map_of ?row ''event_type'' = Some (Some (event_type_name (ne_event_type e)))"
    "map_of ?row ''symbol_id'' = Some (Some (py_str_int (ne_symbol_id e)))"
    "map_of ?row ''price'' = Some (Some (py_str_int (ne_price e)))"
    "map_of ?row ''quantity'' = Some (Some (py_str_int (ne_quantity e)))"
    "map_of ?row ''side'' = Some (Some (py_str_int (ne_side e)))"
    "map_of ?row ''sequence'' = Some (Some ?seq)"
    "map_of ?row ''flags'' = Some (Some (py_str_int (ne_flags e)))"
    by (simp_all add: row_of_def CANONICAL_FIELDS_def csv_cells_def)
  have blank: "optional_blank ?row ''flags'' = False"
    "optional_blank ?row ''sequence'' = (ne_sequence e = None)"
    using py_str_int_chars strip_nil
    by (auto simp: optional_blank_def row strip_str_int split: option.splits)
  show ?thesis
    by (cases "ne_sequence e")
      (simp_all add: event_from_mapping_def row blank mapping_get_def parse_event_type_name [OF assms]
        relocated_def Let_def)
qed

lemma read_rows_cells:
  "\<forall>e\<in>set es. 0 \<le> ne_event_type e \<Longrightarrow>
     read_rows CANONICAL_FIELDS path (2 + int k) (map (\<lambda>e. join_with '','' (csv_cells e)) es) =
     Inr (map (\<lambda>(i, e). relocated path (int i) e) (enumerate k es))"
proof (induction es arbitrary: k)
  case Nil
  then show ?case by simp
next
  case (Cons e es)
  have "split_on (CHR '','') (join_with '','' (csv_cells e)) = csv_cells e"
    using split_join [of "csv_cells e" "CHR '',''"] csv_cells_no_comma [of e] Cons.prems
    by (simp add: csv_cells_def)
  then show ?case
    using Cons.IH [of "Suc k"] Cons.prems by (simp add: event_from_csv_cells add.commute)
qed

lemma data_line_cells: "data_line (join_with '','' (csv_cells e))"
proof -
  obtain c cs where p: "py_str_int (ne_timestamp_ns e) = c # cs"
    using py_str_int_chars [of "ne_timestamp_ns e"] by (cases "py_str_int (ne_timestamp_ns e)") auto
  then have c: "plain_digit c \<or> c = CHR ''-''" using py_str_int_chars [of "ne_timestamp_ns e"] by simp
  then have "\<not> py_space c" "c \<noteq> CHR ''#''"
    by (auto dest: plain_digit_other(4)) (simp add: plain_digit_def char_code_def)
  then show ?thesis
    by (simp add: data_line_def csv_cells_def p py_strip_def dropWhile_append2 dropWhile_eq_Nil_conv)
qed

text \<open>
  C39: A canonical CSV file is read back as it was written: the same events in the same order, each
  with its row index and the path as its source, as long as no event type is negative; an
  unassigned sequence comes back unassigned.
\<close>

theorem csv_events_roundtrip:
  assumes "\<forall>e\<in>set events. 0 \<le> ne_event_type e"
  shows "read_csv_events path (write_csv_events events) =
    Inr (map (\<lambda>(i, e). relocated path (int i) e) (enumerate 0 events))"
proof -
  have header: "data_line (join_with '','' CANONICAL_FIELDS)"
    by (simp add: data_line_def CANONICAL_FIELDS_def py_strip_def py_space_def char_code_def
        dropWhile_append2 dropWhile_eq_Nil_conv)
  have lines: "filter data_line (write_csv_events events) = write_csv_events events"
    by (simp add: write_csv_events_def header data_line_cells filter_id_conv)
  have cols: "split_on (CHR '','') (join_with '','' CANONICAL_FIELDS) = CANONICAL_FIELDS"
    by (rule split_join) (simp_all add: CANONICAL_FIELDS_def)
  have none: "missing_columns CANONICAL_FIELDS = []"
    by (simp add: missing_columns_def CANONICAL_FIELDS_def)
  show ?thesis
    unfolding read_csv_events_def lines
    using read_rows_cells [OF assms, of path 0]
    by (simp add: write_csv_events_def cols none comp_def)
qed

definition demo_normalized :: "int \<Rightarrow> int \<Rightarrow> int option \<Rightarrow> normalized_event" where
  "demo_normalized ts event_type sequence =
     \<lparr>ne_timestamp_ns = ts, ne_event_type = event_type, ne_symbol_id = 3, ne_price = 99990000,
      ne_quantity = 250, ne_side = 1, ne_sequence = sequence, ne_flags = 0, ne_source_index = 17,
      ne_source = ''feed''\<rparr>"

theorem csv_events_roundtrip_witness:
  "read_csv_events ''out.csv'' (write_csv_events [demo_normalized 5 1 None, demo_normalized 9 7 (Some 4)]) =
     Inr [relocated ''out.csv'' 0 (demo_normalized 5 1 None),
          relocated ''out.csv'' 1 (demo_normalized 9 7 (Some 4))]"
  using csv_events_roundtrip [of "[demo_normalized 5 1 None, demo_normalized 9 7 (Some 4)]" "''out.csv''"]
  by (simp add: demo_normalized_def)

section \<open>Binary files\<close>

lemma packet_stream_packet:
  assumes packet: "event_packet SYNC_VERSION m = Inr p"
  shows "packet_stream label v 1 index (p @ rest) =
    yields (event_of_fields label index
        [ev_message_type m, ev_symbol_id m, ev_timestamp_ns m, ev_price m, ev_quantity m, ev_side m,
         ev_sequence m, ev_flags m])
      (packet_stream label v 1 (index + 1) rest)"
proof -
  have p: "length p = 32" "crc8 (take 31 p) = Inr (uint (p ! 31))" "uint (p ! 0) = SYNC_VERSION"
    using event_packet_InrD [OF packet] by (simp_all add: checksum_ok_def)
  obtain body where body: "struct_pack packet_format
      [SYNC_VERSION, ev_message_type m, ev_symbol_id m, ev_timestamp_ns m, ev_price m,
       ev_quantity m, ev_side m, ev_sequence m, ev_flags m] = Inr body" "take 31 p = body"
    using packet struct_pack_InrD [where ns = packet_format]
    by (fastforce simp: event_packet_def rbind_eq_Inr)
  have "decode_packet_fields p = Inr [ev_message_type m, ev_symbol_id m, ev_timestamp_ns m, ev_price m,
      ev_quantity m, ev_side m, ev_sequence m, ev_flags m]"
    using struct_unpack_pack [OF body(1)] by (simp add: decode_packet_fields_def body(2))
  moreover have "p \<noteq> []" using p(1) by auto
  ultimately show ?thesis
    using p by (subst packet_stream.simps) (simp add: Let_def)
qed

definition sequenced :: "normalized_event \<Rightarrow> bool" where
  "sequenced e \<longleftrightarrow> (\<exists>m. to_market_event e None = Inr m \<and> wire_event m)"

lemma write_binary_Nil_iff: "write_binary_events (e # es) = (bytes, None) \<longleftrightarrow>
   (\<exists>m p bytes'. to_market_event e None = Inr m \<and> event_packet SYNC_VERSION m = Inr p \<and>
      write_binary_events es = (bytes', None) \<and> bytes = p @ bytes')"
  by (auto simp: rbind_def split: sum.splits prod.splits)

lemma event_of_market:
  "to_market_event e None = Inr m \<Longrightarrow> event_of_fields label index
     [ev_message_type m, ev_symbol_id m, ev_timestamp_ns m, ev_price m, ev_quantity m, ev_side m,
      ev_sequence m, ev_flags m] = relocated label index e"
  by (auto simp: to_market_event_def event_of_fields_def relocated_def split: option.splits)

lemma read_written:
  "write_binary_events es = (bytes, None) \<Longrightarrow>
     packet_stream label v 1 (int k) bytes =
       (map (\<lambda>(i, e). relocated label (int i) e) (enumerate k es), None)"
proof (induction es arbitrary: bytes k)
  case Nil
  then show ?case by (subst packet_stream.simps) simp
next
  case (Cons e es)
  from Cons.prems obtain m p bytes' where m: "to_market_event e None = Inr m"
    and p: "event_packet SYNC_VERSION m = Inr p" and rest: "write_binary_events es = (bytes', None)"
    and bytes: "bytes = p @ bytes'"
    unfolding write_binary_Nil_iff by blast
  show ?case
    unfolding bytes packet_stream_packet [OF p] event_of_market [OF m]
    using Cons.IH [OF rest, of "Suc k"] by (simp add: yields_def add.commute)
qed

lemma write_binary_ok:
  "\<forall>e\<in>set es. sequenced e \<Longrightarrow> \<exists>bytes. write_binary_events es = (bytes, None)"
proof (induction es)
  case Nil
  then show ?case by simp
next
  case (Cons e es)
  then obtain m where m: "to_market_event e None = Inr m" "wire_event m" by (auto simp: sequenced_def)
  from m(2) obtain p where "event_packet SYNC_VERSION m = Inr p" by (simp add: event_packet_cases Let_def)
  with Cons m show ?case by auto
qed

text \<open>
  C25: Sequenced events whose fields fit the wire format are written to a binary file without an
  exception, and reading that file, with or without checking the CRCs, gives the same events in
  the same order, each with its record index and the file as its source.
\<close>

theorem binary_events_roundtrip:
  assumes "\<forall>e\<in>set events. sequenced e"
  shows "\<exists>bytes. write_binary_events events = (bytes, None) \<and>
    read_binary_events label bytes validate_crc =
      Inr (map (\<lambda>(i, e). relocated label (int i) e) (enumerate 0 events))"
proof -
  obtain bytes where "write_binary_events events = (bytes, None)"
    using write_binary_ok [OF assms] by blast
  with read_written [OF this, of label validate_crc 0] show ?thesis
    by (simp add: read_binary_events_def iter_binary_events_def drain_def)
qed

theorem binary_events_roundtrip_witness:
  "\<exists>bytes. write_binary_events [demo_normalized 5 1 (Some 1), demo_normalized 9 2 (Some 4)] = (bytes, None) \<and>
     read_binary_events ''out.bin'' bytes True =
       Inr [relocated ''out.bin'' 0 (demo_normalized 5 1 (Some 1)),
            relocated ''out.bin'' 1 (demo_normalized 9 2 (Some 4))]"
proof -
  have "\<forall>e\<in>set [demo_normalized 5 1 (Some 1), demo_normalized 9 2 (Some 4)]. sequenced e"
    by (simp add: sequenced_def to_market_event_def demo_normalized_def wire_event_def)
  from binary_events_roundtrip [OF this, of "''out.bin''" True] show ?thesis by simp
qed

section \<open>Order and replay sequences\<close>

text \<open>
  \<open>sort_events\<close> gives a permutation of its input in ascending order of (timestamp, symbol, source
  index, event type, side), and events with the same key keep their order.
\<close>

theorem sort_events_stable:
  "mset (sort_events events) = mset events \<and> sorted (map event_key (sort_events events)) \<and>
   filter (\<lambda>e. event_key e = k) (sort_events events) = filter (\<lambda>e. event_key e = k) events"
  by (simp add: sort_events_def sort_key_stable)

text \<open>What replay sequencing promises: see \<open>assign_loop_spec\<close>.\<close>

definition sequence_of :: "normalized_event \<Rightarrow> int" where
  "sequence_of e = (case ne_sequence e of Some s \<Rightarrow> s | None \<Rightarrow> 0)"

lemma assign_loop_length [simp]: "length (assign_loop key counters es) = length es"
  by (induction es arbitrary: counters) (simp_all add: Let_def split: option.split)

lemma assign_loop_above:
  assumes "i < length es" "ne_sequence (es ! i) = None"
    and "\<And>e s. key (with_sequence e s) = key e"
  shows "ne_sequence (assign_loop key counters es ! i) \<noteq> None \<and>
    (case counters (key (es ! i)) of None \<Rightarrow> 0 | Some n \<Rightarrow> n) < sequence_of (assign_loop key counters es ! i)"
  using assms(1,2)
proof (induction es arbitrary: counters i)
  case Nil
  then show ?case by simp
next
  case (Cons e es)
  show ?case
  proof (cases i)
    case 0
    then show ?thesis using Cons.prems by (simp add: Let_def sequence_of_def with_sequence_def)
  next
    case (Suc j)
    let ?cur = "case counters (key e) of None \<Rightarrow> 0 | Some n \<Rightarrow> n"
    let ?new = "case ne_sequence e of None \<Rightarrow> ?cur + 1 | Some s \<Rightarrow> max ?cur s"
    have "ne_sequence (assign_loop key (counters(key e \<mapsto> ?new)) es ! j) \<noteq> None \<and>
      (case (counters(key e \<mapsto> ?new)) (key (es ! j)) of None \<Rightarrow> 0 | Some n \<Rightarrow> n)
        < sequence_of (assign_loop key (counters(key e \<mapsto> ?new)) es ! j)"
      using Suc Cons.prems by (intro Cons.IH) simp_all
    moreover have "?cur \<le> ?new" by (simp split: option.split)
    ultimately show ?thesis
      using Suc by (cases "key (es ! j) = key e") (auto simp: Let_def split: option.splits)
  qed
qed

lemma assign_loop_key:
  assumes "\<And>e s. key (with_sequence e s) = key e"
  shows "map key (assign_loop key counters es) = map key es"
  using assms by (induction es arbitrary: counters) (simp_all add: Let_def split: option.split)

lemma assign_loop_strict:
  assumes "i < j" "j < length es" "ne_sequence (es ! j) = None" "key (es ! i) = key (es ! j)"
    and keys: "\<And>e s. key (with_sequence e s) = key e"
  shows "sequence_of (assign_loop key counters es ! i) < sequence_of (assign_loop key counters es ! j)"
  using assms(1-4)
proof (induction es arbitrary: counters i j)
  case Nil
  then show ?case by simp
next
  case (Cons e es)
  let ?cur = "case counters (key e) of None \<Rightarrow> 0 | Some n \<Rightarrow> n"
  let ?new = "case ne_sequence e of None \<Rightarrow> ?cur + 1 | Some s \<Rightarrow> max ?cur s"
  obtain j' where j: "j = Suc j'" using Cons.prems(1) by (cases j) simp_all
  have tail: "assign_loop key counters (e # es) ! Suc k = assign_loop key (counters(key e \<mapsto> ?new)) es ! k" for k
    by (simp add: Let_def split: option.split)
  show ?case
  proof (cases i)
    case 0
    have "(case (counters(key e \<mapsto> ?new)) (key (es ! j')) of None \<Rightarrow> 0 | Some n \<Rightarrow> n)
        < sequence_of (assign_loop key (counters(key e \<mapsto> ?new)) es ! j')"
      using assign_loop_above [OF _ _ keys, of j' es "counters(key e \<mapsto> ?new)"] Cons.prems j by simp
    then have "?new < sequence_of (assign_loop key (counters(key e \<mapsto> ?new)) es ! j')"
      using Cons.prems(4) 0 j by simp
    moreover have "sequence_of (assign_loop key counters (e # es) ! 0) \<le> ?new"
      by (simp add: Let_def sequence_of_def with_sequence_def split: option.split)
    ultimately show ?thesis unfolding j 0 tail by simp
  next
    case (Suc i')
    show ?thesis unfolding j Suc tail using Cons.IH [of i' j'] Cons.prems j Suc by simp
  qed
qed

lemma replay_key_with_sequence [simp]: "replay_key reset date_of (with_sequence e s) = replay_key reset date_of e"
  by (simp add: replay_key_def with_sequence_def split: option.split)

lemma assign_loop_Suc:
  "\<exists>counters'. assign_loop key counters (e # es) ! Suc k = assign_loop key counters' es ! k"
  by (auto simp: Let_def split: option.split)

lemma assign_loop_fields:
  "i < length es \<Longrightarrow> assign_loop key counters es ! i = es ! i \<or>
     ne_sequence (es ! i) = None \<and> (\<exists>s. assign_loop key counters es ! i = with_sequence (es ! i) s)"
proof (induction es arbitrary: counters i)
  case Nil
  then show ?case by simp
next
  case (Cons e es)
  show ?case
  proof (cases i)
    case 0
    then show ?thesis by (auto simp: Let_def split: option.split)
  next
    case (Suc k)
    obtain counters' where "assign_loop key counters (e # es) ! i = assign_loop key counters' es ! k"
      using assign_loop_Suc Suc by metis
    then show ?thesis using Cons.IH [of k counters'] Cons.prems Suc by simp
  qed
qed

text \<open>
  Replay sequencing keeps every event in place, changing nothing but a missing sequence; after it
  every event has one; and an assigned sequence is positive and larger than that of every
  earlier event with the same symbol (and, when sequences restart per session, the same
  session date).
\<close>

theorem replay_sequences_increase:
  "length (assign_replay_sequences reset date_of events) = length events \<and>
   (\<forall>j < length events.
      (case ne_sequence (events ! j) of
         Some s \<Rightarrow> assign_replay_sequences reset date_of events ! j = events ! j
       | None \<Rightarrow> (\<exists>s > 0. assign_replay_sequences reset date_of events ! j = with_sequence (events ! j) s \<and>
           (\<forall>i < j. replay_key reset date_of (events ! i) = replay_key reset date_of (events ! j) \<longrightarrow>
              sequence_of (assign_replay_sequences reset date_of events ! i) < s))))"
proof -
  let ?key = "replay_key reset date_of"
  let ?out = "assign_loop ?key (\<lambda>_. None) events"
  have "case ne_sequence (events ! j) of Some s \<Rightarrow> ?out ! j = events ! j
       | None \<Rightarrow> (\<exists>s > 0. ?out ! j = with_sequence (events ! j) s \<and>
           (\<forall>i < j. ?key (events ! i) = ?key (events ! j) \<longrightarrow> sequence_of (?out ! i) < s))"
    if j: "j < length events" for j
  proof (cases "ne_sequence (events ! j)")
    case None
    have above: "0 < sequence_of (?out ! j)" "ne_sequence (?out ! j) \<noteq> None"
      using assign_loop_above [OF j None, of ?key "\<lambda>_. None"] by simp_all
    then obtain s where s: "?out ! j = with_sequence (events ! j) s"
      using assign_loop_fields [OF j, of ?key "\<lambda>_. None"] None by auto
    moreover have "sequence_of (?out ! j) = s" by (simp add: s sequence_of_def with_sequence_def)
    ultimately show ?thesis
      using above None assign_loop_strict [of _ j events ?key "\<lambda>_. None"] j by auto
  next
    case (Some s)
    then show ?thesis using assign_loop_fields [OF j, of ?key "\<lambda>_. None"] by auto
  qed
  then show ?thesis unfolding assign_replay_sequences_def by (intro conjI allI impI assign_loop_length)
qed

theorem replay_sequences_increase_witness:
  "\<exists>s > 3. assign_replay_sequences False (None :: (int \<Rightarrow> int) option)
       [demo_normalized 5 1 (Some 3), demo_normalized 9 1 None] ! 1 = with_sequence (demo_normalized 9 1 None) s"
proof -
  let ?es = "[demo_normalized 5 1 (Some 3), demo_normalized 9 1 None]"
  let ?out = "assign_replay_sequences False (None :: (int \<Rightarrow> int) option) ?es"
  note spec = replay_sequences_increase [of False "None :: (int \<Rightarrow> int) option" ?es, THEN conjunct2, rule_format]
  have key: "replay_key False (None :: (int \<Rightarrow> int) option) (?es ! 0) = replay_key False None (?es ! 1)"
    by (simp add: replay_key_def demo_normalized_def)
  have first: "sequence_of (?out ! 0) = 3"
    using spec [of 0] by (simp add: demo_normalized_def sequence_of_def)
  from spec [of 1] obtain s where s: "?out ! 1 = with_sequence (?es ! 1) s"
    "\<forall>i < 1. replay_key False (None :: (int \<Rightarrow> int) option) (?es ! i) = replay_key False None (?es ! 1) \<longrightarrow>
       sequence_of (?out ! i) < s"
    by (auto simp: demo_normalized_def)
  have "3 < s" using s(2) [rule_format, of 0] key unfolding first by simp
  then show ?thesis using s(1) by auto
qed

end
