(* ===== verification/Session_Calendar.thy ===== *)
theory Session_Calendar
  imports Canonical_Events
begin

text \<open>
  \<open>tools/backtest/session.py\<close>: session bounds, the exchange calendar and the session filter.

  A date is kept as its year and its proleptic Gregorian ordinal, as \<open>date.toordinal\<close> counts it.
  The local wall clock of a timestamp comes from the time-zone database and is the argument
  \<open>clock\<close>; times of day are microseconds after midnight.
\<close>

section \<open>Dates\<close>

definition leap_year :: "int \<Rightarrow> bool" where
  "leap_year y \<longleftrightarrow> 4 dvd y \<and> (\<not> 100 dvd y \<or> 400 dvd y)"

definition days_before_year :: "int \<Rightarrow> int" where
  "days_before_year y = (y - 1) * 365 + (y - 1) div 4 - (y - 1) div 100 + (y - 1) div 400"

definition days_before_month :: "int \<Rightarrow> int \<Rightarrow> int" where
  "days_before_month y m =
     [0, 31, 59, 90, 120, 151, 181, 212, 243, 273, 304, 334] ! nat (m - 1)
       + (if m > 2 \<and> leap_year y then 1 else 0)"

definition date_ordinal :: "int \<Rightarrow> int \<Rightarrow> int \<Rightarrow> int" where
  "date_ordinal y m d = days_before_year y + days_before_month y m + d"

definition weekday :: "int \<Rightarrow> int" where
  "weekday n = (n + 6) mod 7"

section \<open>The exchange calendar\<close>

definition observed :: "int \<Rightarrow> int" where
  "observed day = (if weekday day = 5 then day - 1 else if weekday day = 6 then day + 1 else day)"

definition nth_weekday :: "int \<Rightarrow> int \<Rightarrow> int \<Rightarrow> int \<Rightarrow> int" where
  "nth_weekday year month wd k =
     (let first = date_ordinal year month 1 in first + ((wd - weekday first) mod 7 + 7 * (k - 1)))"

definition last_weekday :: "int \<Rightarrow> int \<Rightarrow> int \<Rightarrow> int" where
  "last_weekday year month wd =
     (let next_month = date_ordinal (year + (if month = 12 then 1 else 0)) (if month = 12 then 1 else month + 1) 1;
          day = next_month - 1
      in day - (weekday day - wd) mod 7)"

definition easter_month_day :: "int \<Rightarrow> int \<times> int" where
  "easter_month_day year =
     (let a = year mod 19; b = year div 100; c = year mod 100; d = b div 4; e = b mod 4;
          f = (b + 8) div 25; g = (b - f + 1) div 3; h = (19 * a + b - d - g + 15) mod 30;
          i = c div 4; k = c mod 4; l = (32 + 2 * e + 2 * i - h - k) mod 7;
          m = (a + 11 * h + 22 * l) div 451
      in ((h + l - 7 * m + 114) div 31, (h + l - 7 * m + 114) mod 31 + 1))"

definition easter :: "int \<Rightarrow> int" where
  "easter year = (case easter_month_day year of (month, day) \<Rightarrow> date_ordinal year month day)"

definition market_holidays :: "int \<Rightarrow> int list" where
  "market_holidays year =
     [observed (date_ordinal year 1 1), observed (date_ordinal year 6 19),
      observed (date_ordinal year 7 4), observed (date_ordinal year 12 25),
      nth_weekday year 1 0 3, nth_weekday year 2 0 3, last_weekday year 5 0,
      nth_weekday year 9 0 1, nth_weekday year 11 3 4, easter year - 2]"

definition is_us_market_holiday :: "int \<Rightarrow> int \<Rightarrow> bool" where
  "is_us_market_holiday year n \<longleftrightarrow> n \<in> set (market_holidays year)"

section \<open>Session bounds\<close>

record session_config =
  se_timezone_name :: string
  se_regular_start :: string
  se_regular_end :: string
  se_extended_hours :: bool
  se_extended_start :: string
  se_extended_end :: string
  se_reset_each_session :: bool
  se_reset_replay_sequences :: bool
  se_exclude_weekends :: bool
  se_exclude_us_holidays :: bool

definition default_session_config :: session_config where
  "default_session_config =
     \<lparr>se_timezone_name = ''America/New_York'', se_regular_start = ''09:30'', se_regular_end = ''16:00'',
      se_extended_hours = False, se_extended_start = ''04:00'', se_extended_end = ''20:00'',
      se_reset_each_session = True, se_reset_replay_sequences = True, se_exclude_weekends = True,
      se_exclude_us_holidays = True\<rparr>"

text \<open>\<open>value.split(":", 1)\<close>, both parts through \<open>int\<close>, then the range checks of \<open>time\<close>.\<close>

definition parse_time :: "string \<Rightarrow> int result" where
  "parse_time value =
     (let hour_text = takeWhile (\<lambda>c. c \<noteq> CHR '':'') value; rest = dropWhile (\<lambda>c. c \<noteq> CHR '':'') value in
      case (if rest = [] then None else
            case (py_int10 hour_text, py_int10 (tl rest)) of
              (Some hour, Some minute) \<Rightarrow>
                if 0 \<le> hour \<and> hour \<le> 23 \<and> 0 \<le> minute \<and> minute \<le> 59 then Some (hour * 60 + minute) else None
            | _ \<Rightarrow> None) of
        Some minutes \<Rightarrow> Inr (minutes * 60000000)
      | None \<Rightarrow> Inl (ValueError ''invalid session time; expected HH:MM''))"

definition session_bounds :: "session_config \<Rightarrow> bool option \<Rightarrow> (int \<times> int) result" where
  "session_bounds c extended =
     (let use_extended = (case extended of None \<Rightarrow> se_extended_hours c | Some b \<Rightarrow> b);
          (start_text, end_text) =
            (if use_extended then (se_extended_start c, se_extended_end c)
             else (se_regular_start c, se_regular_end c))
      in rbind (parse_time start_text) (\<lambda>s. rbind (parse_time end_text) (\<lambda>e. Inr (s, e))))"

section \<open>The session filter\<close>

record local_time =
  lt_year :: int
  lt_day :: int
  lt_time :: int

definition session_date :: "(int \<Rightarrow> local_time) \<Rightarrow> int \<Rightarrow> int" where
  "session_date clock timestamp_ns = lt_day (clock timestamp_ns)"

definition in_session :: "session_config \<Rightarrow> (int \<Rightarrow> local_time) \<Rightarrow> int \<Rightarrow> bool result" where
  "in_session c clock timestamp_ns =
     (let here = clock timestamp_ns in
      if se_exclude_weekends c \<and> weekday (lt_day here) \<ge> 5 then Inr False
      else if se_exclude_us_holidays c \<and> is_us_market_holiday (lt_year here) (lt_day here) then Inr False
      else rbind (session_bounds c None) (\<lambda>(s, e).
        if s \<le> lt_time here \<and> lt_time here < e then Inr True
        else if \<not> se_extended_hours c then Inr False
        else rbind (session_bounds c (Some True)) (\<lambda>(s, e). Inr (s \<le> lt_time here \<and> lt_time here < e))))"

fun filter_result :: "('a \<Rightarrow> bool result) \<Rightarrow> 'a list \<Rightarrow> 'a list result" where
  "filter_result p [] = Inr []"
| "filter_result p (x # xs) =
     rbind (p x) (\<lambda>b. rbind (filter_result p xs) (\<lambda>ys. Inr (if b then x # ys else ys)))"

definition filter_events :: "session_config \<Rightarrow> (int \<Rightarrow> local_time) \<Rightarrow> normalized_event list \<Rightarrow> normalized_event list result" where
  "filter_events c clock events =
     filter_result (\<lambda>e. in_session c clock (ne_timestamp_ns e)) (sort_events events)"

text \<open>
  The conversion of a timestamp raises outside the years of \<open>datetime\<close>. \<open>zone\<close> gives the local time or
  that exception, which surfaces where the filter converts the timestamp; behind the filter every
  timestamp of a replay has been converted once, and \<open>zone_clock\<close> is its clock.
\<close>

definition zone_clock :: "(int \<Rightarrow> local_time result) \<Rightarrow> int \<Rightarrow> local_time" where
  "zone_clock zone timestamp_ns =
     (case zone timestamp_ns of Inr here \<Rightarrow> here | Inl _ \<Rightarrow> \<lparr>lt_year = 1, lt_day = 1, lt_time = 0\<rparr>)"

definition in_session_at :: "session_config \<Rightarrow> (int \<Rightarrow> local_time result) \<Rightarrow> int \<Rightarrow> bool result" where
  "in_session_at c zone timestamp_ns = rbind (zone timestamp_ns) (\<lambda>here. in_session c (\<lambda>_. here) timestamp_ns)"

definition filter_events_at ::
  "session_config \<Rightarrow> (int \<Rightarrow> local_time result) \<Rightarrow> normalized_event list \<Rightarrow> normalized_event list result" where
  "filter_events_at c zone events =
     filter_result (\<lambda>e. in_session_at c zone (ne_timestamp_ns e)) (sort_events events)"

section \<open>Weekdays\<close>

lemma weekday_observed: "weekday (observed n) < 5"
  unfolding observed_def weekday_def by presburger

lemma weekday_add: "weekday (n + ((wd - weekday n) mod 7 + 7 * k)) = wd mod 7"
proof -
  have shift: "n + (r + 7 * k) + 6 = n + 6 + r + k * 7" for r by simp
  have "(n + 6 + (wd - (n + 6) mod 7) mod 7 + k * 7) mod 7 = (n + 6 + (wd - (n + 6))) mod 7"
    by (simp only: mod_mult_self1 mod_simps)
  then show ?thesis by (simp only: weekday_def shift) simp
qed

lemma weekday_nth: "weekday (nth_weekday y m wd k) = wd mod 7"
  unfolding nth_weekday_def Let_def by (rule weekday_add)

lemma weekday_last: "weekday (last_weekday y m wd) = wd mod 7"
proof -
  have "(n - (weekday n - wd) mod 7 + 6) mod 7 = wd mod 7" for n
  proof -
    have "n - r + 6 = n + 6 - r" for r :: int by simp
    then have "(n - (weekday n - wd) mod 7 + 6) mod 7 = (n + 6 - ((n + 6) mod 7 - wd) mod 7) mod 7"
      by (simp only: weekday_def)
    also have "\<dots> = (n + 6 - ((n + 6) - wd)) mod 7" by (simp only: mod_simps)
    finally show ?thesis by simp
  qed
  then show ?thesis unfolding last_weekday_def Let_def by (subst weekday_def)
qed

lemma if_chain:
  "(p \<Longrightarrow> q) \<Longrightarrow> (r \<Longrightarrow> p) \<Longrightarrow> (if q \<and> (\<not> p \<or> r) then 1 else 0 :: int) =
     (if q then 1 else 0) - (if p then 1 else 0) + (if r then 1 else 0)"
  by (cases p; cases q; cases r) simp_all

lemma days_to_march:
  "days_before_year y + (if leap_year y then 1 else 0) = 365 * (y - 1) + y div 4 - y div 100 + y div 400"
proof -
  have div_pred: "(y - 1) div k = y div k - (if k dvd y then 1 else 0)" if "0 < k" for k
  proof (cases "k dvd y")
    case True
    then obtain q where "y = k * q" by blast
    with that have "(y - 1) div k = q - 1"
      by (intro int_div_pos_eq [of _ _ _ "k - 1"]) (simp_all add: algebra_simps)
    with True \<open>y = k * q\<close> that show ?thesis by simp
  next
    case False
    then have "1 \<le> y mod k" using that by (metis add.commute dvd_eq_mod_eq_0 int_one_le_iff_zero_less order_le_less pos_mod_sign)
    then have "(y - 1) div k = y div k"
      using that pos_mod_bound [of k y]
      by (intro int_div_pos_eq [of _ _ _ "y mod k - 1"]) (simp add: algebra_simps, linarith+)
    with False show ?thesis by simp
  qed
  have "4 dvd y" if "100 dvd y" using dvd_trans [OF _ that, of 4] by simp
  moreover have "100 dvd y" if "400 dvd y" using dvd_trans [OF _ that, of 100] by simp
  ultimately have leap: "(if leap_year y then 1 else 0 :: int) =
      (if 4 dvd y then 1 else 0) - (if 100 dvd y then 1 else 0) + (if 400 dvd y then 1 else 0)"
    unfolding leap_year_def by (rule if_chain)
  have cancel: "p * 365 + (u - i) - (v - j) + (w - k) + (i - j + k) = 365 * p + u - v + w"
    for p u v w i j k :: int by simp
  have pos: "(0 :: int) < 4" "(0 :: int) < 100" "(0 :: int) < 400" by simp_all
  show ?thesis
    unfolding days_before_year_def leap div_pred [OF pos(1)] div_pred [OF pos(2)] div_pred [OF pos(3)]
    by (rule cancel)
qed

text \<open>A date of March or April, by the formula the Easter computation inverts.\<close>

lemma spring_ordinal:
  assumes "month \<in> {3, 4}"
  shows "date_ordinal y month d = 365 * (y - 1) + y div 4 - y div 100 + y div 400 + 31 * (month - 3) + 59 + d"
proof -
  define L where "L = (if leap_year y then 1 else 0 :: int)"
  have "days_before_month y month = 31 * (month - 3) + 59 + L"
    using assms by (elim insertE) (simp_all add: days_before_month_def L_def)
  then have "date_ordinal y month d = (days_before_year y + L) + 31 * (month - 3) + 59 + d"
    unfolding date_ordinal_def by (simp only: add.assoc add.left_commute add.commute)
  then show ?thesis unfolding L_def days_to_march .
qed

section \<open>Easter\<close>

lemma easter_offset:
  fixes h l a :: int
  assumes "0 \<le> a" "a \<le> 18" "0 \<le> h" "h \<le> 29" "0 \<le> l" "l \<le> 6"
  defines "m \<equiv> (a + 11 * h + 22 * l) div 451"
  shows "0 \<le> h + l - 7 * m \<and> h + l - 7 * m \<le> 34"
proof (cases "a + 11 * h + 22 * l < 451")
  case True
  then have "m = 0" unfolding m_def using assms(1,3,5) by (intro div_pos_pos_trivial) simp_all
  then show ?thesis using True assms(1-6) by simp
next
  case False
  then have "m = 1"
    unfolding m_def using assms(2,4,6) by (intro int_div_pos_eq [of _ _ _ "a + 11 * h + 22 * l - 451"]) simp_all
  then show ?thesis using False assms(1-6) by simp
qed

lemma spring_split:
  fixes x :: int
  assumes "0 \<le> x" "x \<le> 34"
  shows "(x + 114) div 31 \<in> {3, 4} \<and> 31 * ((x + 114) div 31 - 3) + ((x + 114) mod 31 + 1) = x + 22 \<and>
    ((x + 114) div 31 = 3 \<longrightarrow> 22 \<le> (x + 114) mod 31 + 1) \<and>
    ((x + 114) div 31 = 4 \<longrightarrow> (x + 114) mod 31 + 1 \<le> 25)"
proof (cases "x \<le> 9")
  case True
  then have "(x + 114) div 31 = 3" "(x + 114) mod 31 = x + 21"
    using assms by (auto intro: int_div_pos_eq [of _ _ _ "x + 21"] int_mod_pos_eq [of _ _ 3])
  then show ?thesis using True assms by simp
next
  case False
  then have "(x + 114) div 31 = 4" "(x + 114) mod 31 = x - 10"
    using assms by (auto intro: int_div_pos_eq [of _ _ _ "x - 10"] int_mod_pos_eq [of _ _ 4])
  then show ?thesis using False assms by simp
qed

lemma easter_sum:
  fixes x h l m e i k q year b c d :: int
  assumes "x = h + l - 7 * m" "l = 32 + 2 * e + 2 * i - h - k - 7 * q"
    and "year = 100 * b + c" "b = 4 * d + e" "c = 4 * i + k"
  shows "365 * (year - 1) + (25 * b + i) - b + d + (x + 22) + 59 =
     7 * (20871 * d + 5218 * e + 209 * i + 52 * k - q - m - 36)"
  using assms by (simp add: algebra_simps)

lemma easter_core:
  "(\<exists>month day. easter_month_day year = (month, day) \<and>
     (month = 3 \<and> 22 \<le> day \<and> day \<le> 31 \<or> month = 4 \<and> 1 \<le> day \<and> day \<le> 25)) \<and>
   weekday (easter year) = 6 \<and> weekday (easter year - 2) = 4"
proof -
  define a b c where "a = year mod 19" and "b = year div 100" and "c = year mod 100"
  define d e i k where "d = b div 4" and "e = b mod 4" and "i = c div 4" and "k = c mod 4"
  define h where "h = (19 * a + b - d - ((b - (b + 8) div 25 + 1) div 3) + 15) mod 30"
  define l where "l = (32 + 2 * e + 2 * i - h - k) mod 7"
  define x where "x = h + l - 7 * ((a + 11 * h + 22 * l) div 451)"
  have md: "easter_month_day year = ((x + 114) div 31, (x + 114) mod 31 + 1)"
    unfolding easter_month_day_def Let_def x_def l_def h_def k_def i_def e_def d_def c_def b_def a_def
    by (rule refl)
  have "0 \<le> a \<and> a < 19" "0 \<le> h \<and> h < 30" "0 \<le> l \<and> l < 7"
    unfolding a_def h_def l_def by simp_all
  then have range: "0 \<le> a" "a \<le> 18" "0 \<le> h" "h \<le> 29" "0 \<le> l" "l \<le> 6" by simp_all
  then have x: "0 \<le> x" "x \<le> 34"
    using easter_offset [of a h l] unfolding x_def by simp_all
  note split = spring_split [OF x]
  have parts: "year = 100 * b + c" "b = 4 * d + e" "c = 4 * i + k"
    unfolding b_def c_def d_def e_def i_def k_def by simp_all
  have "year div 4 = (c + 4 * (25 * b)) div 4" unfolding parts(1) by (simp add: add.commute)
  also have "\<dots> = 25 * b + i" unfolding i_def by (subst div_mult_self2) simp_all
  finally have quarter: "year div 4 = 25 * b + i" .
  have "year div (100 * 4) = year div 100 div 4" by (rule zdiv_zmult2_eq) simp
  then have quarters: "year div 4 = 25 * b + i" "year div 400 = d"
    using quarter unfolding d_def b_def by simp_all
  define q m where "q = (32 + 2 * e + 2 * i - h - k) div 7" and "m = (a + 11 * h + 22 * l) div 451"
  have xe: "x = h + l - 7 * m" unfolding x_def m_def by (rule refl)
  have l: "l = 32 + 2 * e + 2 * i - h - k - 7 * q" unfolding l_def q_def by (rule minus_mult_div_eq_mod [symmetric])
  have mem: "(x + 114) div 31 \<in> {3, 4}"
    and inner: "31 * ((x + 114) div 31 - 3) + ((x + 114) mod 31 + 1) = x + 22"
    using split by (blast, blast)
  have "easter year = date_ordinal year ((x + 114) div 31) ((x + 114) mod 31 + 1)"
    by (simp only: easter_def md prod.case)
  also have "\<dots> = 365 * (year - 1) + year div 4 - year div 100 + year div 400
      + (31 * ((x + 114) div 31 - 3) + ((x + 114) mod 31 + 1)) + 59"
    unfolding spring_ordinal [OF mem] by (simp only: ac_simps)
  also have "\<dots> = 365 * (year - 1) + (25 * b + i) - b + d + (x + 22) + 59"
    unfolding inner quarters b_def [symmetric] by (rule refl)
  also have "\<dots> = 7 * (20871 * d + 5218 * e + 209 * i + 52 * k - q - m - 36)"
    using xe l parts by (rule easter_sum)
  finally have "easter year = 7 * (20871 * d + 5218 * e + 209 * i + 52 * k - q - m - 36)" .
  then obtain z where z: "easter year = 7 * z" by blast
  have "(7 * z + 6) mod 7 = (6 :: int)" "(7 * z - 2 + 6) mod 7 = (4 :: int)" by presburger+
  then have "weekday (easter year) = 6" "weekday (easter year - 2) = 4"
    by (simp_all add: weekday_def z)
  moreover have "1 \<le> (x + 114) mod 31 + 1 \<and> (x + 114) mod 31 + 1 \<le> 31"
    using pos_mod_bound [of 31 "x + 114"] pos_mod_sign [of 31 "x + 114"] by simp
  ultimately show ?thesis unfolding md using split by blast
qed

text \<open>
  The Easter computation gives, for every year, a date from March 22 to April 25, and that date is
  a Sunday; the Good Friday of the calendar, two days before, is a Friday.
\<close>

theorem easter_is_a_spring_sunday:
  "(\<exists>month day. easter_month_day year = (month, day) \<and>
     (month = 3 \<and> 22 \<le> day \<and> day \<le> 31 \<or> month = 4 \<and> 1 \<le> day \<and> day \<le> 25)) \<and>
   weekday (easter year) = 6 \<and> weekday (easter year - 2) = 4"
  by (rule easter_core)

section \<open>The filter keeps the open times\<close>

lemma holiday_is_weekday: "n \<in> set (market_holidays year) \<Longrightarrow> weekday n < 5"
  using easter_core [of year]
  by (auto simp: market_holidays_def weekday_observed weekday_nth weekday_last)

text \<open>When a configuration lets trading happen at a local time.\<close>

definition market_open :: "session_config \<Rightarrow> int \<times> int \<Rightarrow> local_time \<Rightarrow> bool" where
  "market_open c = (\<lambda>(s, e) here.
     \<not> (se_exclude_weekends c \<and> weekday (lt_day here) \<ge> 5) \<and>
     \<not> (se_exclude_us_holidays c \<and> lt_day here \<in> set (market_holidays (lt_year here))) \<and>
     s \<le> lt_time here \<and> lt_time here < e)"

lemma filter_result_total:
  "\<forall>x\<in>set xs. p x = Inr (q x) \<Longrightarrow> filter_result p xs = Inr (filter q xs)"
  by (induction xs) simp_all

lemma in_session_eq:
  assumes "session_bounds c None = Inr b"
  shows "in_session c clock ts = Inr (market_open c b (clock ts))"
proof (cases "se_extended_hours c")
  case True
  then have "session_bounds c (Some True) = Inr b" using assms by (simp add: session_bounds_def)
  with assms True show ?thesis
    by (auto simp: in_session_def market_open_def is_us_market_holiday_def Let_def split: prod.splits)
next
  case False
  with assms show ?thesis
    by (auto simp: in_session_def market_open_def is_us_market_holiday_def Let_def split: prod.splits)
qed

lemma filter_result_Inl: "filter_result p xs = Inl e \<Longrightarrow> \<exists>x\<in>set xs. p x = Inl e"
  by (induction xs) (auto simp: rbind_eq_Inl split: if_splits)

lemma filter_result_Inr: "filter_result p xs = Inr ys \<Longrightarrow> \<forall>x\<in>set xs. is_ok (p x)"
  by (induction xs arbitrary: ys) (auto simp: rbind_eq_Inr)

lemma filter_result_subset: "filter_result p xs = Inr ys \<Longrightarrow> set ys \<subseteq> set xs"
  by (induction xs arbitrary: ys) (auto simp: rbind_eq_Inr split: if_splits)

lemma filter_events_at_outcome:
  assumes "session_bounds c None = Inr b"
  shows "case filter_events_at c zone events of
      Inl e \<Rightarrow> \<exists>x\<in>set events. zone (ne_timestamp_ns x) = Inl e
    | Inr es \<Rightarrow> \<forall>x\<in>set events. is_ok (zone (ne_timestamp_ns x))"
proof -
  have "in_session_at c zone ts = rbind (zone ts) (\<lambda>here. Inr (market_open c b here))" for ts
    by (simp add: in_session_at_def in_session_eq [OF assms])
  then show ?thesis
    by (auto simp: filter_events_at_def sort_events_def rbind_eq_Inl is_ok_iff rbind_eq_Inr
        dest!: filter_result_Inl filter_result_Inr split: sum.split)
qed

text \<open>
  When the configured session times parse, the session filter returns the globally sorted
  events whose local time lies in the configured window (the extended one when extended hours
  are on), on a day that is neither an excluded weekend nor an excluded holiday; every holiday
  of the calendar is a weekday, so the two exclusions never overlap.
\<close>

theorem filter_keeps_open_times:
  assumes "session_bounds c None = Inr b"
  shows "filter_events c clock events =
      Inr (filter (\<lambda>e. market_open c b (clock (ne_timestamp_ns e))) (sort_events events)) \<and>
    (\<forall>year. \<forall>n\<in>set (market_holidays year). weekday n < 5)"
  using holiday_is_weekday filter_result_total [of "sort_events events" "\<lambda>e. in_session c clock (ne_timestamp_ns e)"
      "\<lambda>e. market_open c b (clock (ne_timestamp_ns e))"]
  by (simp add: filter_events_def in_session_eq [OF assms])

theorem filter_keeps_open_times_witness:
  "filter_events default_session_config (\<lambda>ts. \<lparr>lt_year = 2024, lt_day = 739000 + ts, lt_time = 36000000000\<rparr>)
     [\<lparr>ne_timestamp_ns = 3, ne_event_type = 1, ne_symbol_id = 0, ne_price = 1, ne_quantity = 1, ne_side = 0,
       ne_sequence = None, ne_flags = 0, ne_source_index = 0, ne_source = []\<rparr>] = Inr []"
proof -
  have "session_bounds default_session_config None = Inr (34200000000, 57600000000)" by code_simp
  from filter_keeps_open_times [OF this] show ?thesis
    by (simp add: market_open_def sort_events_def default_session_config_def weekday_def)
qed

end
