(* ===== verification/Data_Quality.thy ===== *)
theory Data_Quality
  imports Canonical_Events
begin

text \<open>
  \<open>tools/backtest/data_quality.py\<close>: the issues reported on a stream of events, the state the
  validator keeps between events, and what it means that a report has no errors.
\<close>

section \<open>Reports\<close>

record quality_issue =
  qi_severity :: string
  qi_code :: string
  qi_source_index :: int
  qi_symbol_id :: "int option"
  qi_timestamp_ns :: "int option"
  qi_detail :: string

record quality_report =
  qr_records :: int
  qr_issues :: "quality_issue list"

definition report_errors :: "quality_report \<Rightarrow> nat" where
  "report_errors r = length (filter (\<lambda>i. qi_severity i = ''error'') (qr_issues r))"

definition report_warnings :: "quality_report \<Rightarrow> nat" where
  "report_warnings r = length (filter (\<lambda>i. qi_severity i = ''warning'') (qr_issues r))"

text \<open>\<open>Counter\<close> keeps the codes in the order of their first issue.\<close>

definition report_by_code :: "quality_report \<Rightarrow> (string \<times> nat) list" where
  "report_by_code r =
     (let codes = map qi_code (qr_issues r) in
      map (\<lambda>c. (c, length (filter (\<lambda>d. d = c) codes))) (rev (remdups (rev codes))))"

definition report_has_errors :: "quality_report \<Rightarrow> bool" where
  "report_has_errors r \<longleftrightarrow> report_errors r \<noteq> 0"

definition report_add :: "string \<Rightarrow> string \<Rightarrow> normalized_event option \<Rightarrow> string \<Rightarrow> quality_report \<Rightarrow> quality_report" where
  "report_add severity code event detail r =
     r\<lparr>qr_issues := qr_issues r @
        [\<lparr>qi_severity = severity, qi_code = code,
          qi_source_index = (case event of Some e \<Rightarrow> ne_source_index e | None \<Rightarrow> 0),
          qi_symbol_id = map_option ne_symbol_id event,
          qi_timestamp_ns = map_option ne_timestamp_ns event, qi_detail = detail\<rparr>]\<rparr>"

section \<open>The validator\<close>

record quality_validator =
  qv_symbol_mapping :: "(int \<times> string) list option"
  qv_gap_threshold_ns :: "int option"
  qv_duplicate_severity :: string
  qv_cross_severity :: string

definition default_quality_validator :: quality_validator where
  "default_quality_validator =
     \<lparr>qv_symbol_mapping = None, qv_gap_threshold_ns = Some (5 * 60 * 1000000000),
      qv_duplicate_severity = ''warning'', qv_cross_severity = ''warning''\<rparr>"

type_synonym fingerprint = "int \<times> int \<times> int \<times> int \<times> int \<times> int \<times> int option \<times> int"

record quality_state =
  qs_report :: quality_report
  qs_seen_records :: "fingerprint set"
  qs_seen_sequences :: "int \<Rightarrow> int set"
  qs_last_timestamp :: "int option"
  qs_books :: "int \<Rightarrow> int option \<times> int option"

definition quality_start :: quality_state where
  "quality_start =
     \<lparr>qs_report = \<lparr>qr_records = 0, qr_issues = []\<rparr>, qs_seen_records = {},
      qs_seen_sequences = (\<lambda>_. {}), qs_last_timestamp = None, qs_books = (\<lambda>_. (None, None))\<rparr>"

definition add_if :: "bool \<Rightarrow> string \<Rightarrow> string \<Rightarrow> normalized_event \<Rightarrow> string \<Rightarrow> quality_report \<Rightarrow> quality_report" where
  "add_if b severity code e detail r = (if b then report_add severity code (Some e) detail r else r)"

definition event_fingerprint :: "normalized_event \<Rightarrow> fingerprint" where
  "event_fingerprint e =
     (ne_timestamp_ns e, ne_event_type e, ne_symbol_id e, ne_price e, ne_quantity e, ne_side e,
      ne_sequence e, ne_flags e)"

definition check_time :: "quality_validator \<Rightarrow> int option \<Rightarrow> normalized_event \<Rightarrow> quality_report \<Rightarrow> quality_report" where
  "check_time v last_timestamp e r =
     (case last_timestamp of None \<Rightarrow> r
      | Some t \<Rightarrow>
          let r = add_if (ne_timestamp_ns e < t) ''error'' ''timestamp_out_of_order'' e
                (py_str_int (ne_timestamp_ns e) @ '' follows '' @ py_str_int t) r
          in add_if (case qv_gap_threshold_ns v of None \<Rightarrow> False | Some gap \<Rightarrow> ne_timestamp_ns e - t > gap)
               ''warning'' ''large_timestamp_gap'' e
               (''gap='' @ py_str_int (ne_timestamp_ns e - t) @ '' ns'') r)"

definition is_market_type :: "int \<Rightarrow> bool" where
  "is_market_type t \<longleftrightarrow> t = MSG_MARKET_QUOTE \<or> t = MSG_MARKET_TRADE"

definition check_fields :: "quality_validator \<Rightarrow> normalized_event \<Rightarrow> quality_report \<Rightarrow> quality_report" where
  "check_fields v e r =
     (let r = add_if (ne_timestamp_ns e < 0) ''error'' ''negative_timestamp'' e ''timestamp must be non-negative'' r;
          r = add_if (ne_symbol_id e < 0) ''error'' ''negative_symbol'' e ''symbol ID must be non-negative'' r;
          r = add_if (\<not> is_market_type (ne_event_type e)) ''error'' ''unsupported_event_type'' e
                (event_type_name (ne_event_type e)) r;
          r = add_if (ne_price e < 0) ''error'' ''negative_price'' e ''price must be non-negative'' r;
          r = add_if (ne_quantity e < 0) ''error'' ''negative_quantity'' e ''quantity must be non-negative'' r;
          r = add_if (is_market_type (ne_event_type e) \<and> ne_price e = 0) ''error'' ''zero_price'' e
                ''market price must be positive'' r;
          r = add_if (ne_side e \<notin> {0, 1}) ''error'' ''invalid_side'' e (''side='' @ py_str_int (ne_side e)) r
      in add_if (case qv_symbol_mapping v of None \<Rightarrow> False | Some m \<Rightarrow> map_of m (ne_symbol_id e) = None)
           ''error'' ''missing_symbol_mapping'' e ''symbol ID has no metadata mapping'' r)"

definition update_book :: "normalized_event \<Rightarrow> int option \<times> int option \<Rightarrow> int option \<times> int option" where
  "update_book e book =
     (if ne_side e = 0 then (Some (ne_price e), snd book) else (fst book, Some (ne_price e)))"

definition check_cross :: "quality_validator \<Rightarrow> normalized_event \<Rightarrow> int option \<times> int option \<Rightarrow> quality_report \<Rightarrow> quality_report" where
  "check_cross v e book r =
     (case book of
        (Some bid, Some ask) \<Rightarrow> add_if (ask < bid) (qv_cross_severity v) ''quote_cross'' e
          (''bid='' @ py_str_int bid @ '' ask='' @ py_str_int ask @ ''; retained for FPGA-validity semantics'') r
      | _ \<Rightarrow> r)"

definition validate_event :: "quality_validator \<Rightarrow> quality_state \<Rightarrow> normalized_event \<Rightarrow> quality_state" where
  "validate_event v s e =
     (let r = (qs_report s)\<lparr>qr_records := qr_records (qs_report s) + 1\<rparr>;
          r = check_time v (qs_last_timestamp s) e r;
          r = add_if (event_fingerprint e \<in> qs_seen_records s) (qv_duplicate_severity v)
                ''duplicate_record'' e ''identical event repeated'' r;
          r = check_fields v e r;
          seen = qs_seen_sequences s (ne_symbol_id e);
          (r, sequences) =
            (case ne_sequence e of None \<Rightarrow> (r, qs_seen_sequences s)
             | Some n \<Rightarrow>
                 (add_if (n \<in> seen) (qv_duplicate_severity v) ''duplicate_sequence'' e
                    (''sequence='' @ py_str_int n @ '' repeated for symbol'') r,
                  (qs_seen_sequences s)(ne_symbol_id e := insert n seen)));
          (r, books) =
            (if ne_event_type e = MSG_MARKET_QUOTE \<and> ne_side e \<in> {0, 1} then
               let book = update_book e (qs_books s (ne_symbol_id e))
               in (check_cross v e book r, (qs_books s)(ne_symbol_id e := book))
             else (r, qs_books s))
      in \<lparr>qs_report = r, qs_seen_records = insert (event_fingerprint e) (qs_seen_records s),
          qs_seen_sequences = sequences, qs_last_timestamp = Some (ne_timestamp_ns e),
          qs_books = books\<rparr>)"

definition validate :: "quality_validator \<Rightarrow> normalized_event list \<Rightarrow> quality_report" where
  "validate v events = qs_report (foldl (validate_event v) quality_start events)"

section \<open>What an error-free report means\<close>

text \<open>The severities of an event's issues, in order: the number of errors only depends on them.\<close>

lemma add_if_errors [simp]:
  "report_errors (add_if b severity code e detail r) =
     report_errors r + (if b \<and> severity = ''error'' then 1 else 0)"
  by (simp add: add_if_def report_add_def report_errors_def)

lemma add_if_records [simp]: "qr_records (add_if b severity code e detail r) = qr_records r"
  by (simp add: add_if_def report_add_def)

definition event_fields_ok :: "quality_validator \<Rightarrow> normalized_event \<Rightarrow> bool" where
  "event_fields_ok v e \<longleftrightarrow>
     0 \<le> ne_timestamp_ns e \<and> 0 \<le> ne_symbol_id e \<and> is_market_type (ne_event_type e) \<and>
     0 < ne_price e \<and> 0 \<le> ne_quantity e \<and> ne_side e \<in> {0, 1} \<and>
     (case qv_symbol_mapping v of None \<Rightarrow> True | Some m \<Rightarrow> map_of m (ne_symbol_id e) \<noteq> None)"

lemma check_fields_errors:
  "report_errors (check_fields v e r) = report_errors r \<longleftrightarrow> event_fields_ok v e"
  "report_errors r \<le> report_errors (check_fields v e r)"
  unfolding check_fields_def Let_def event_fields_ok_def
  by (cases "qv_symbol_mapping v"; simp only: add_if_errors simp_thms option.case; auto)+

lemma check_fields_records [simp]: "qr_records (check_fields v e r) = qr_records r"
  by (simp add: check_fields_def Let_def)

lemma check_time_errors:
  "report_errors (check_time v last_timestamp e r) =
     report_errors r + (case last_timestamp of None \<Rightarrow> 0 | Some t \<Rightarrow> if ne_timestamp_ns e < t then 1 else 0)"
  by (simp add: check_time_def Let_def split: option.split)

lemma check_time_records [simp]: "qr_records (check_time v last_timestamp e r) = qr_records r"
  by (simp add: check_time_def Let_def split: option.split)

lemma check_cross_errors:
  "qv_cross_severity v \<noteq> ''error'' \<Longrightarrow> report_errors (check_cross v e book r) = report_errors r"
  by (simp add: check_cross_def split: option.split prod.split)

lemma check_cross_records [simp]: "qr_records (check_cross v e book r) = qr_records r"
  by (simp add: check_cross_def split: option.split prod.split)

lemma validate_event_state:
  "qs_last_timestamp (validate_event v s e) = Some (ne_timestamp_ns e)"
  "qr_records (qs_report (validate_event v s e)) = qr_records (qs_report s) + 1"
  by (simp_all add: validate_event_def Let_def split: option.split prod.split)

definition lenient :: "quality_validator \<Rightarrow> bool" where
  "lenient v \<longleftrightarrow> qv_duplicate_severity v \<noteq> ''error'' \<and> qv_cross_severity v \<noteq> ''error''"

definition not_before :: "int option \<Rightarrow> normalized_event \<Rightarrow> bool" where
  "not_before last_timestamp e \<longleftrightarrow> (case last_timestamp of None \<Rightarrow> True | Some t \<Rightarrow> t \<le> ne_timestamp_ns e)"

lemma report_errors_update [simp]: "report_errors (r\<lparr>qr_records := n\<rparr>) = report_errors r"
  by (simp add: report_errors_def)

lemma validate_event_errors:
  assumes "lenient v"
  shows "report_errors (qs_report (validate_event v s e)) =
    report_errors (check_fields v e (check_time v (qs_last_timestamp s) e (qs_report s)))"
proof -
  have shift: "report_errors (check_fields v e r) = report_errors (check_fields v e r')"
    if "report_errors r = report_errors r'" for r r'
    using that by (simp add: check_fields_def Let_def)
  have "report_errors (qs_report (validate_event v s e)) = report_errors (check_fields v e
     (add_if (event_fingerprint e \<in> qs_seen_records s) (qv_duplicate_severity v) ''duplicate_record'' e
       ''identical event repeated''
       (check_time v (qs_last_timestamp s) e ((qs_report s)\<lparr>qr_records := qr_records (qs_report s) + 1\<rparr>))))"
    using assms by (simp add: validate_event_def Let_def lenient_def check_cross_errors split: option.split prod.split)
  also have "\<dots> = report_errors (check_fields v e (check_time v (qs_last_timestamp s) e (qs_report s)))"
    using assms by (intro shift) (simp add: lenient_def check_time_errors)
  finally show ?thesis .
qed

lemma validate_event_step:
  assumes "lenient v"
  shows "report_errors (qs_report s) \<le> report_errors (qs_report (validate_event v s e)) \<and>
    (report_errors (qs_report (validate_event v s e)) = report_errors (qs_report s) \<longleftrightarrow>
       not_before (qs_last_timestamp s) e \<and> event_fields_ok v e)"
proof -
  let ?r = "check_time v (qs_last_timestamp s) e (qs_report s)"
  have "report_errors (qs_report s) \<le> report_errors ?r"
    "report_errors ?r = report_errors (qs_report s) \<longleftrightarrow> not_before (qs_last_timestamp s) e"
    by (auto simp: check_time_errors not_before_def split: option.split)
  then show ?thesis
    using check_fields_errors(1) [of v e ?r] check_fields_errors(2) [of ?r v e] unfolding validate_event_errors [OF assms] by linarith
qed

lemma validate_loop:
  assumes "lenient v"
  shows "report_errors (qs_report s) \<le> report_errors (qs_report (foldl (validate_event v) s es)) \<and>
    (report_errors (qs_report (foldl (validate_event v) s es)) = report_errors (qs_report s) \<longleftrightarrow>
       (\<forall>e\<in>set es. event_fields_ok v e \<and> not_before (qs_last_timestamp s) e) \<and>
       sorted (map ne_timestamp_ns es)) \<and>
    qr_records (qs_report (foldl (validate_event v) s es)) = qr_records (qs_report s) + int (length es)"
proof (induction es arbitrary: s)
  case Nil
  then show ?case by simp
next
  case (Cons e es)
  let ?s = "validate_event v s e"
  have last: "not_before (qs_last_timestamp ?s) x \<longleftrightarrow> ne_timestamp_ns e \<le> ne_timestamp_ns x" for x
    by (simp add: validate_event_state not_before_def)
  have trans: "not_before (qs_last_timestamp s) e \<Longrightarrow> ne_timestamp_ns e \<le> ne_timestamp_ns x \<Longrightarrow>
      not_before (qs_last_timestamp s) x" for x
    by (auto simp: not_before_def split: option.splits)
  note step = validate_event_step [OF assms, of s e] and rest = Cons.IH [of ?s]
  have "report_errors (qs_report (foldl (validate_event v) s (e # es))) = report_errors (qs_report s) \<longleftrightarrow>
      report_errors (qs_report ?s) = report_errors (qs_report s) \<and>
      report_errors (qs_report (foldl (validate_event v) ?s es)) = report_errors (qs_report ?s)"
    using step rest by auto
  also have "\<dots> \<longleftrightarrow> not_before (qs_last_timestamp s) e \<and> event_fields_ok v e \<and>
      (\<forall>x\<in>set es. event_fields_ok v x \<and> ne_timestamp_ns e \<le> ne_timestamp_ns x) \<and> sorted (map ne_timestamp_ns es)"
    using step rest unfolding last by blast
  finally show ?case
    using step rest trans by (auto simp: validate_event_state)
qed

text \<open>
  C40: With the default severities, the report of a stream counts all of its events, and it has no
  errors exactly when the timestamps never decrease and every event is a quote or trade of a
  mapped, non-negative symbol with a non-negative time, a positive price, a non-negative
  quantity and side 0 or 1; duplicates, gaps and crossed quotes are never errors. A zero timestamp and
  a zero quantity are valid, although the documentation of the data pipeline lists them as reported.
\<close>

theorem report_clean_iff:
  assumes "lenient v"
  shows "qr_records (validate v events) = int (length events) \<and>
    (\<not> report_has_errors (validate v events) \<longleftrightarrow>
       sorted (map ne_timestamp_ns events) \<and> (\<forall>e\<in>set events. event_fields_ok v e))"
proof -
  have "report_errors (qs_report quality_start) = 0" "qr_records (qs_report quality_start) = 0"
    "qs_last_timestamp quality_start = None"
    by (simp_all add: quality_start_def report_errors_def)
  then show ?thesis
    using validate_loop [OF assms, of quality_start events]
    by (auto simp: validate_def report_has_errors_def not_before_def)
qed

definition demo_zero_price :: normalized_event where
  "demo_zero_price =
     \<lparr>ne_timestamp_ns = 5, ne_event_type = 1, ne_symbol_id = 0, ne_price = 0, ne_quantity = 1, ne_side = 0,
      ne_sequence = None, ne_flags = 0, ne_source_index = 0, ne_source = []\<rparr>"

theorem report_clean_iff_witness:
  "report_has_errors (validate default_quality_validator [demo_zero_price]) \<and>
   \<not> report_has_errors (validate default_quality_validator
      [demo_zero_price\<lparr>ne_price := 7\<rparr>, demo_zero_price\<lparr>ne_price := 8, ne_side := 1\<rparr>])"
proof -
  have v: "lenient default_quality_validator" "qv_symbol_mapping default_quality_validator = None"
    by (simp_all add: lenient_def default_quality_validator_def)
  show ?thesis
    using report_clean_iff [OF v(1), of "[demo_zero_price]"]
      report_clean_iff [OF v(1), of "[demo_zero_price\<lparr>ne_price := 7\<rparr>, demo_zero_price\<lparr>ne_price := 8, ne_side := 1\<rparr>]"]
    by (simp add: event_fields_ok_def demo_zero_price_def v(2) is_market_type_def)
qed

end
