(* ===== verification/Replay_Pipeline.thy ===== *)
theory Replay_Pipeline
  imports Market_Properties Signal_Policy Paper_Accounts Canonical_Correct Session_Calendar Data_Quality
begin

text \<open>
  \<open>tools/backtest/pipeline.py\<close>: the replay that drives the market model, the signal engine and
  the paper desk with one chronological event sequence, closing the books between sessions. The
  signal engine comes from a factory, \<open>model_factory\<close> by default.
\<close>

section \<open>Configuration and state\<close>

record backtest_config =
  bc_num_symbols :: int
  bc_trade_window :: int
  bc_momentum_window :: int
  bc_vwap_window :: int
  bc_session :: session_config
  bc_execution :: execution_config
  bc_portfolio :: portfolio_config
  bc_strategy :: strategy_config
  bc_strict_quality :: bool
  bc_gap_threshold_ns :: "int option"
  bc_seed :: int
  bc_run_id :: string

record quote_point =
  qp_timestamp_ns :: int
  qp_symbol_id :: int
  qp_bid_price :: int
  qp_ask_price :: int

record 's replay_state =
  rs_market :: market_model
  rs_strategy :: 's
  rs_desk :: desk
  rs_candidates :: "candidate_signal list"
  rs_quote_points :: "quote_point list"
  rs_last_features :: "(int \<times> feature_snapshot) list"
  rs_previous_session :: "int option"
  rs_last_timestamp :: int
  rs_rejected :: int

section \<open>Between sessions\<close>

definition close_session :: "(rat \<Rightarrow> rat) \<Rightarrow> desk \<Rightarrow> (int \<times> feature_snapshot) list \<Rightarrow> int \<Rightarrow> desk result" where
  "close_session rnd d last_features timestamp_ns =
     (case last_features of [] \<Rightarrow> Inr d
      | (_, first) # _ \<Rightarrow>
          rbind (if pc_end_of_day_flatten (pf_config (dk_portfolio d))
                 then flatten_positions rnd timestamp_ns (LastQuotes last_features) True d
                 else Inr ([], d)) (\<lambda>(_, d).
            Inr (d\<lparr>dk_portfolio := snd (mark_to_market rnd timestamp_ns first True (dk_portfolio d))\<rparr>)))"

definition change_session ::
  "(rat \<Rightarrow> rat) \<Rightarrow> 's strategy_factory \<Rightarrow> backtest_config \<Rightarrow> int \<Rightarrow> 's replay_state \<Rightarrow> 's replay_state result" where
  "change_session rnd fac c day s =
     (case rs_previous_session s of None \<Rightarrow> Inr s
      | Some previous \<Rightarrow>
          if day = previous then Inr s
          else rbind (close_session rnd (rs_desk s) (rs_last_features s) (rs_last_timestamp s)) (\<lambda>d.
            let s = (if se_reset_each_session (bc_session c)
                     then s\<lparr>rs_market := market_reset_state (rs_market s),
                            rs_strategy := sf_reset fac (rs_strategy s)\<rparr>
                     else s)
            in Inr (s\<lparr>rs_last_features := [], rs_desk := desk_clear d\<rparr>)))"

section \<open>One event\<close>

definition candidate_of :: "normalized_event \<Rightarrow> signal_snapshot \<Rightarrow> feature_snapshot \<Rightarrow> candidate_signal" where
  "candidate_of e signal feature =
     \<lparr>cs_timestamp_ns = ne_timestamp_ns e, cs_event_type = ne_event_type e,
      cs_symbol_id = sg_symbol_id signal, cs_sequence = sg_sequence signal,
      cs_action = sg_action signal, cs_score = sg_score signal,
      cs_reason_bits = sg_reason_bits signal, cs_feature = feature\<rparr>"

text \<open>An accepted event: fills, then risk, then the signal and its candidate, then the mark.\<close>

definition replay_feature ::
  "(rat \<Rightarrow> rat) \<Rightarrow> 's strategy_factory \<Rightarrow> normalized_event \<Rightarrow> feature_snapshot \<Rightarrow>
     's replay_state \<Rightarrow> 's replay_state result" where
  "replay_feature rnd fac e feature s =
     (let is_quote = (ne_event_type e = MSG_MARKET_QUOTE); ts = ne_timestamp_ns e;
          s = s\<lparr>rs_last_features := AList.update (ne_symbol_id e) feature (rs_last_features s)\<rparr>;
          s = (if is_quote
               then s\<lparr>rs_quote_points := rs_quote_points s @
                   [\<lparr>qp_timestamp_ns = ts, qp_symbol_id = ne_symbol_id e,
                     qp_bid_price = ft_bid_price feature, qp_ask_price = ft_ask_price feature\<rparr>]\<rparr>
               else s) in
      rbind (if is_quote then desk_on_quote rnd ts feature (rs_desk s) else Inr ([], rs_desk s)) (\<lambda>(_, d).
      rbind (evaluate_risk rnd ts feature is_quote d) (\<lambda>(_, d).
      rbind (sf_evaluate fac (rs_strategy s) feature) (\<lambda>(signal, strategy).
      let candidate = candidate_of e signal feature in
      rbind (consider_candidate rnd candidate is_quote d) (\<lambda>(_, d).
      Inr (s\<lparr>rs_strategy := strategy, rs_candidates := rs_candidates s @ [candidate],
             rs_desk := d\<lparr>dk_portfolio :=
               snd (mark_to_market rnd ts feature True (dk_portfolio d))\<rparr>\<rparr>))))))"

definition replay_event ::
  "(rat \<Rightarrow> rat) \<Rightarrow> 's strategy_factory \<Rightarrow> backtest_config \<Rightarrow> (int \<Rightarrow> local_time) \<Rightarrow>
     's replay_state \<Rightarrow> normalized_event \<Rightarrow> 's replay_state result" where
  "replay_event rnd fac c clock s e =
     (let day = session_date clock (ne_timestamp_ns e) in
      rbind (change_session rnd fac c day s) (\<lambda>s.
      let s = s\<lparr>rs_previous_session := Some day, rs_last_timestamp := ne_timestamp_ns e\<rparr> in
      rbind (to_market_event e None) (\<lambda>event.
      rbind (process_event (rs_market s) event) (\<lambda>(outcome, market).
      let s = s\<lparr>rs_market := market\<rparr> in
      case oc_feature outcome of
        None \<Rightarrow> Inr (s\<lparr>rs_rejected := rs_rejected s + 1\<rparr>)
      | Some feature \<Rightarrow>
          if oc_kind outcome \<noteq> ''feature'' then Inr (s\<lparr>rs_rejected := rs_rejected s + 1\<rparr>)
          else replay_feature rnd fac e feature s))))"

section \<open>The whole replay\<close>

record 's backtest_run =
  br_quality :: quality_report
  br_replay_events :: "normalized_event list"
  br_final :: "'s replay_state"
  br_unfilled_orders :: "order_request list"

definition replay_start :: "backtest_config \<Rightarrow> market_model \<Rightarrow> 's \<Rightarrow> 's replay_state" where
  "replay_start c market strategy =
     \<lparr>rs_market = market, rs_strategy = strategy,
      rs_desk = \<lparr>dk_portfolio = portfolio_init (bc_portfolio c) True,
                 dk_execution = execution_init (Some (bc_execution c))\<rparr>,
      rs_candidates = [], rs_quote_points = [], rs_last_features = [],
      rs_previous_session = None, rs_last_timestamp = 0, rs_rejected = 0\<rparr>"

definition replay_sequence ::
  "backtest_config \<Rightarrow> (int \<Rightarrow> local_time) \<Rightarrow> normalized_event list \<Rightarrow> normalized_event list" where
  "replay_sequence c clock session_events =
     assign_replay_sequences
       (se_reset_replay_sequences (bc_session c) \<and> se_reset_each_session (bc_session c))
       (Some (session_date clock)) session_events"

definition run_backtest ::
  "(rat \<Rightarrow> rat) \<Rightarrow> 's strategy_factory \<Rightarrow> backtest_config \<Rightarrow> (int \<times> string) list option \<Rightarrow>
     (int \<Rightarrow> local_time) \<Rightarrow> normalized_event list \<Rightarrow> 's backtest_run result" where
  "run_backtest rnd fac c symbol_mapping clock events =
     (let quality = validate (default_quality_validator
            \<lparr>qv_symbol_mapping := symbol_mapping, qv_gap_threshold_ns := bc_gap_threshold_ns c\<rparr>) events in
      if bc_strict_quality c \<and> report_has_errors quality
      then Inl (ValueError (''strict data quality rejected replay: '' @
             py_str_int (int (report_errors quality)) @ '' errors''))
      else
        rbind (filter_events (bc_session c) clock events) (\<lambda>session_events.
        let replay_events = replay_sequence c clock session_events in
        rbind (market_default (bc_num_symbols c) (bc_trade_window c) (bc_momentum_window c)
                 (bc_vwap_window c)) (\<lambda>market.
        rbind (sf_create fac (bc_num_symbols c) (bc_strategy c)) (\<lambda>strategy.
        rbind (fold_result (replay_event rnd fac c clock) (replay_start c market strategy) replay_events) (\<lambda>s.
        rbind (close_session rnd (rs_desk s) (rs_last_features s) (rs_last_timestamp s)) (\<lambda>d.
        Inr \<lparr>br_quality = quality, br_replay_events = replay_events,
             br_final = s\<lparr>rs_desk := desk_clear d\<rparr>,
             br_unfilled_orders = fst (execution_flush (dk_execution d))\<rparr>))))))"

text \<open>
  The run on a clock that may raise. The filter converts every timestamp before anything else uses one;
  when it returns, the rest of the run is that on the clock of the zone.
\<close>

definition run_backtest_at ::
  "(rat \<Rightarrow> rat) \<Rightarrow> 's strategy_factory \<Rightarrow> backtest_config \<Rightarrow> (int \<times> string) list option \<Rightarrow>
     (int \<Rightarrow> local_time result) \<Rightarrow> normalized_event list \<Rightarrow> 's backtest_run result" where
  "run_backtest_at rnd fac c symbol_mapping zone events =
     (let quality = validate (default_quality_validator
            \<lparr>qv_symbol_mapping := symbol_mapping, qv_gap_threshold_ns := bc_gap_threshold_ns c\<rparr>) events in
      rbind (if bc_strict_quality c \<and> report_has_errors quality then Inr [] else filter_events_at (bc_session c) zone events)
        (\<lambda>_. run_backtest rnd fac c symbol_mapping (zone_clock zone) events))"

end
