(* ===== verification/Paper_Symbols.thy ===== *)
theory Paper_Symbols
  imports Paper_Accounts
begin

text \<open>
  Which symbols a desk is involved with, by a position or a pending order: an operation only adds
  the symbol of its candidate.
\<close>

definition desk_symbols :: "desk \<Rightarrow> int set" where
  "desk_symbols d =
     fst ` set (pf_positions (dk_portfolio d)) \<union> rq_symbol_id ` set (ex_pending (dk_execution d))"

lemma apply_fill_keys:
  "fst ` set (pf_positions (apply_fill rnd pf fi)) \<subseteq> insert (fi_symbol_id fi) (fst ` set (pf_positions pf))"
  by (auto simp: apply_fill_def Let_def AList.dom_update set_alist_delete split: option.splits)

lemma apply_fills_keys:
  "fst ` set (pf_positions (apply_fills rnd pf fis)) \<subseteq> fst ` set (pf_positions pf) \<union> fi_symbol_id ` set fis"
proof (induction fis arbitrary: pf)
  case Nil
  then show ?case by (simp add: apply_fills_def)
next
  case (Cons fi fis)
  then show ?case
    using Cons.IH [of "apply_fill rnd pf fi"] apply_fill_keys [of rnd pf fi]
    unfolding apply_fills_def foldl.simps list.set image_insert by blast
qed

lemma make_fill_symbol: "make_fill rnd c ord ts f = Inr (Some fi) \<Longrightarrow> fi_symbol_id fi = rq_symbol_id ord"
  by (auto simp: make_fill_def rbind_eq_Inr split: if_splits option.splits)

lemma attempt_orders_symbols:
  "attempt_orders rnd c ts f orders = Inr (fills, rest) \<Longrightarrow>
     fi_symbol_id ` set fills \<subseteq> rq_symbol_id ` set orders \<and> set rest \<subseteq> set orders"
proof (induction orders arbitrary: fills rest)
  case Nil
  then show ?case by simp
next
  case (Cons ord orders)
  then show ?case
    by (fastforce simp: rbind_eq_Inr dest: make_fill_symbol split: if_splits option.splits)
qed

lemma submit_symbols:
  assumes "submit rnd ord ts q is_quote force ex = Inr (fills, ex')"
  shows "fi_symbol_id ` set fills \<subseteq> {rq_symbol_id ord} \<and>
    rq_symbol_id ` set (ex_pending ex') \<subseteq> insert (rq_symbol_id ord) (rq_symbol_id ` set (ex_pending ex))"
  using assms
  by (auto simp: submit_def Let_def make_fill_arg_def rbind_eq_Inr dest: make_fill_symbol
      split: if_splits option.splits quote_arg.splits)

lemma settle_symbols:
  assumes "fi_symbol_id ` set fills \<subseteq> A" "rq_symbol_id ` set (ex_pending ex') \<subseteq> A"
    and "fst ` set (pf_positions pf) \<subseteq> A"
  shows "desk_symbols \<lparr>dk_portfolio = apply_fills rnd pf fills, dk_execution = ex'\<rparr> \<subseteq> A"
  unfolding desk_symbols_def desk.simps
  by (rule Un_least [OF subset_trans [OF apply_fills_keys Un_least [OF assms(3,1)]] assms(2)])

lemma desk_symbols_parts:
  "fst ` set (pf_positions (dk_portfolio d)) \<subseteq> desk_symbols d"
  "rq_symbol_id ` set (ex_pending (dk_execution d)) \<subseteq> desk_symbols d"
  unfolding desk_symbols_def by blast+

lemma submit_and_apply_symbols:
  assumes "submit_and_apply rnd i ord ts f is_quote d = Inr (fills, d')"
  shows "desk_symbols d' \<subseteq> insert (rq_symbol_id ord) (desk_symbols d)"
proof -
  obtain ex' where s: "submit rnd ord ts (Quote f) is_quote False (dk_execution d) = Inr (fills, ex')"
    and d': "d' = \<lparr>dk_portfolio = apply_fills rnd (mark_pending (rq_symbol_id ord) i (dk_portfolio d)) fills,
      dk_execution = ex'\<rparr>"
    using assms by (auto simp: submit_and_apply_def rbind_eq_Inr Let_def)
  show ?thesis
    unfolding d' using submit_symbols [OF s] by (intro settle_symbols) (auto simp: desk_symbols_def)
qed

lemma next_id_symbols [simp]: "desk_symbols (next_id d) = desk_symbols d"
  by (simp add: desk_symbols_def)

lemma log_symbols [simp]: "desk_symbols (log_on_desk cand st i d) = desk_symbols d"
  by (simp add: desk_symbols_def)

lemma submit_exit_symbols:
  assumes "submit_exit rnd p ts f reason cand is_quote d = Inr (fills, i, d')"
  shows "desk_symbols d' \<subseteq> insert (ps_symbol_id p) (desk_symbols d)"
proof -
  obtain a b c e g where eo: "submit_exit rnd p ts f reason cand is_quote d =
      (let (order_id, order, ex) = exit_order p ts reason a b c e g (dk_execution d)
       in rbind (submit_and_apply rnd order_id order ts f is_quote (d\<lparr>dk_execution := ex\<rparr>))
            (\<lambda>(fills, d). Inr (fills, order_id, d)))"
    unfolding submit_exit_def by (cases cand) auto
  obtain j ord ex' where x: "exit_order p ts reason a b c e g (dk_execution d) = (j, ord, ex')"
    by (cases "exit_order p ts reason a b c e g (dk_execution d)")
  note shape = exit_order_shape [OF x]
  have "submit_and_apply rnd j ord ts f is_quote (next_id d) = Inr (fills, d')"
    using assms shape unfolding eo x by (auto simp: rbind_eq_Inr)
  from submit_and_apply_symbols [OF this] shape show ?thesis by (simp add: exit_shape_def)
qed

lemma entry_order_symbols:
  assumes "entry_order rnd cand direction d = (e, d1)"
  shows "desk_symbols d1 = desk_symbols d \<and> dk_portfolio d1 = dk_portfolio d \<and>
    (\<forall>i ord. e = Some (i, ord) \<longrightarrow> rq_symbol_id ord = cs_symbol_id cand)"
  using entry_order_cases [OF assms] by (auto simp: entry_shape_def)

lemma submit_entry_symbols:
  assumes "submit_entry rnd cand direction is_quote d = Inr (fills, d')"
  shows "desk_symbols d' \<subseteq> insert (cs_symbol_id cand) (desk_symbols d)"
proof -
  obtain e d1 where eo: "entry_order rnd cand direction d = (e, d1)" by fastforce
  note sym = entry_order_symbols [OF eo]
  show ?thesis
  proof (cases e)
    case None
    then show ?thesis using assms eo sym by (auto simp: submit_entry_def)
  next
    case (Some x)
    then obtain i ord where x: "e = Some (i, ord)" by (cases x) auto
    have "submit_and_apply rnd i ord (cs_timestamp_ns cand) (cs_feature cand) is_quote d1 = Inr (fills, d')"
      using assms by (simp add: submit_entry_def eo x)
    from submit_and_apply_symbols [OF this] sym x show ?thesis by simp
  qed
qed

lemma consider_flat_symbols:
  assumes "consider_flat rnd cand is_quote d = Inr (fills, d')"
  shows "desk_symbols d' \<subseteq> insert (cs_symbol_id cand) (desk_symbols d)"
proof -
  obtain e d1 where eo: "entry_order rnd cand (desired_direction cand) d = (e, d1)" by fastforce
  note sym = entry_order_symbols [OF eo]
  show ?thesis
  proof (cases e)
    case None
    then show ?thesis using assms eo sym by (auto simp: consider_flat_def)
  next
    case (Some x)
    then obtain i ord where x: "e = Some (i, ord)" by (cases x) auto
    obtain ex' where s: "submit rnd ord (cs_timestamp_ns cand) (Quote (cs_feature cand)) is_quote False
        (dk_execution d1) = Inr (fills, ex')"
      and d': "d' = \<lparr>dk_portfolio = apply_fills rnd (log_candidate cand
          (if fills \<noteq> [] then ''entry_filled'' else ''entry_submitted'') (Some i)
          (mark_pending (cs_symbol_id cand) i (dk_portfolio d1))) fills, dk_execution = ex'\<rparr>"
      using assms by (auto simp: consider_flat_def eo x rbind_eq_Inr Let_def split: if_splits)
    show ?thesis
      unfolding d' using submit_symbols [OF s] sym x desk_symbols_parts [of d1]
      by (intro settle_symbols) (simp_all, blast+)
  qed
qed

lemma consider_held_symbols:
  assumes "consider_held rnd cand is_quote current d = Inr (fills, d')"
    and "ps_symbol_id current = cs_symbol_id cand"
  shows "desk_symbols d' \<subseteq> insert (cs_symbol_id cand) (desk_symbols d)"
proof -
  consider "d' = log_on_desk cand ''already_in_position'' None d"
    | "d' = log_on_desk cand ''opposite_candidate_ignored'' None d"
    | f1 i d1 where "submit_exit rnd current (cs_timestamp_ns cand) (cs_feature cand) ''opposite_candidate''
          (Some cand) is_quote d = Inr (f1, i, d1)"
        "d' = log_on_desk cand ''exit_submitted'' (Some i) d1 \<or>
         (\<exists>f2. submit_entry rnd cand (desired_direction cand) is_quote
            (log_on_desk cand ''exit_submitted'' (Some i) d1) = Inr (f2, d'))"
    using assms(1) by (auto simp: consider_held_def Let_def rbind_eq_Inr split: if_splits)
  then show ?thesis
  proof cases
    case 3
    from submit_exit_symbols [OF 3(1)] assms(2) have "desk_symbols d1 \<subseteq> insert (cs_symbol_id cand) (desk_symbols d)"
      by simp
    then show ?thesis using 3(2) submit_entry_symbols by fastforce
  qed auto
qed

lemma consider_candidate_symbols:
  assumes "desk_reachable rnd pc xc d" "consider_candidate rnd cand is_quote d = Inr (fills, d')"
  shows "desk_symbols d' \<subseteq> insert (cs_symbol_id cand) (desk_symbols d)"
proof (cases "map_of (pf_positions (dk_portfolio d)) (cs_symbol_id cand)")
  case None
  then show ?thesis
    using assms(2) consider_flat_symbols
    by (auto simp: consider_candidate_def Let_def split: if_splits)
next
  case (Some current)
  then have "ps_symbol_id current = cs_symbol_id cand"
    using reachable_books [OF assms(1)] book_inv_position by blast
  with Some show ?thesis
    using assms(2) consider_held_symbols
    by (auto simp: consider_candidate_def Let_def split: if_splits)
qed

lemma on_quote_symbols:
  assumes "desk_on_quote rnd ts f d = Inr (fills, d')"
  shows "desk_symbols d' \<subseteq> desk_symbols d"
proof -
  obtain rest where a: "attempt_orders rnd (ex_config (dk_execution d)) ts f (ex_pending (dk_execution d)) =
      Inr (fills, rest)"
    and d': "d' = \<lparr>dk_portfolio = apply_fills rnd (dk_portfolio d) fills,
      dk_execution = (dk_execution d)\<lparr>ex_pending := rest\<rparr>\<rparr>"
    using assms by (auto simp: desk_on_quote_def execution_on_quote_def rbind_eq_Inr)
  show ?thesis
    unfolding d' using attempt_orders_symbols [OF a] by (intro settle_symbols) (auto simp: desk_symbols_def)
qed

lemma risk_loop_symbols:
  "risk_loop rnd ts f is_quote ps d = Inr (fills, d') \<Longrightarrow>
     desk_symbols d' \<subseteq> desk_symbols d \<union> ps_symbol_id ` set ps"
proof (induction ps arbitrary: d fills)
  case Nil
  then show ?case by simp
next
  case (Cons p ps)
  consider "risk_loop rnd ts f is_quote ps d = Inr (fills, d')"
    | reason f1 i d1 f2 where "submit_exit rnd p ts f reason None
          (is_quote \<and> ft_symbol_id f = ps_symbol_id p) d = Inr (f1, i, d1)"
        "risk_loop rnd ts f is_quote ps d1 = Inr (f2, d')"
    using Cons.prems by (auto simp: rbind_eq_Inr split: if_splits option.splits)
  then show ?case
  proof cases
    case 1
    from Cons.IH [OF this] show ?thesis by auto
  next
    case 2
    from Cons.IH [OF 2(2)] submit_exit_symbols [OF 2(1)] show ?thesis by auto
  qed
qed

lemma evaluate_risk_symbols:
  assumes "desk_reachable rnd pc xc d" "evaluate_risk rnd ts f is_quote d = Inr (fills, d')"
  shows "desk_symbols d' \<subseteq> desk_symbols d"
proof -
  have "\<forall>x\<in>set (pf_positions (dk_portfolio d)). ps_symbol_id (snd x) = fst x"
    using reachable_books [OF assms(1)] by (auto simp: book_inv_def position_ok_def)
  then have "ps_symbol_id ` set (map snd (pf_positions (dk_portfolio d))) \<subseteq> desk_symbols d"
    unfolding desk_symbols_def by auto
  then show ?thesis
    using risk_loop_symbols [OF assms(2) [unfolded evaluate_risk_def]] by blast
qed

end
