(* ===== verification/Replay_Correct.thy ===== *)
theory Replay_Correct
  imports Replay_Pipeline Paper_Symbols
begin

text \<open>
  The composed replay: every state it goes through has a well-formed market model and signal
  engine and a reachable desk, and the only exception it can raise comes from the end-of-day
  flattening when a position was left over from an earlier session.
\<close>

section \<open>Components under composition\<close>

definition market_ok :: "nat \<Rightarrow> market_model \<Rightarrow> bool" where
  "market_ok n m \<longleftrightarrow> (\<exists>books. model_represents m books) \<and> mm_num_symbols m = n \<and>
     0 < mm_trade_window m \<and> 0 < mm_momentum_window m \<and> 0 < mm_vwap_window m"

lemma market_reset_ok:
  assumes "market_ok n m"
  shows "market_ok n (market_reset_state m)"
proof -
  have "model_represents (market_reset_state m) (\<lambda>_. empty_book)"
    using assms by (simp add: market_ok_def model_represents_def market_reset_state_def represents_fresh)
  then show ?thesis using assms by (auto simp: market_ok_def market_reset_state_def)
qed

lemma market_default_ok:
  assumes "market_default n tw mw vw = Inr m"
  shows "market_ok (nat n) m"
proof -
  have init: "market_init n tw mw vw PRICE_SCALE BPS_SCALE BPS_OUTPUT_SCALE (int IMBALANCE_FRAC_BITS) = Inr m"
    using assms by (simp add: market_default_def)
  have "mm_num_symbols m = nat n" "0 < mm_trade_window m" "0 < mm_momentum_window m" "0 < mm_vwap_window m"
    using init by (auto simp: market_init_def market_reset_state_def split: if_splits)
  with model_represents_init [OF init] show ?thesis unfolding market_ok_def by blast
qed

lemma book_feature_symbol: "ft_symbol_id (book_feature m bk e) = ev_symbol_id e"
  by (simp only: book_feature_def Let_def case_prod_unfold feature_snapshot.simps)

lemma books_step_feature:
  assumes "oc_feature (fst (books_step m books e)) = Some f"
  shows "ft_symbol_id f = ev_symbol_id e \<and> 0 \<le> ev_symbol_id e \<and> ev_symbol_id e < int (mm_num_symbols m) \<and>
     oc_kind (fst (books_step m books e)) = ''feature''"
proof (cases "verdict (mm_num_symbols m) (\<lambda>i. bk_sequence (books i)) e")
  case (Some v)
  with assms show ?thesis by (cases v) (simp add: books_step_def outcome_reject_def)
next
  case None
  then have "0 \<le> ev_symbol_id e" "ev_symbol_id e < int (mm_num_symbols m)"
    by (simp_all add: verdict_def split: if_splits)
  with None assms show ?thesis
    by (auto simp: books_step_def Let_def book_feature_symbol)
qed

lemma process_event_ok:
  assumes "market_ok n m"
  shows "\<exists>oc m'. process_event m e = Inr (oc, m') \<and> market_ok n m' \<and>
    (\<forall>f. oc_feature oc = Some f \<longrightarrow> oc_kind oc = ''feature'' \<and> ft_symbol_id f = ev_symbol_id e \<and>
       0 \<le> ev_symbol_id e \<and> ev_symbol_id e < int n)"
proof -
  obtain books where books: "model_represents m books" using assms by (auto simp: market_ok_def)
  from process_event_represents [OF books, of e] obtain m' where
    step: "process_event m e = Inr (fst (books_step m books e), m')"
      "model_represents m' (snd (books_step m books e))" "m' = m\<lparr>mm_symbols := mm_symbols m'\<rparr>" by blast
  then have "mm_num_symbols m' = mm_num_symbols m" "mm_trade_window m' = mm_trade_window m"
    "mm_momentum_window m' = mm_momentum_window m" "mm_vwap_window m' = mm_vwap_window m"
    by (metis market_model.select_convs market_model.surjective market_model.update_convs)+
  then have "market_ok n m'" using assms step(2) by (auto simp: market_ok_def)
  moreover have "oc_kind (fst (books_step m books e)) = ''feature'' \<and> ft_symbol_id f = ev_symbol_id e \<and>
      0 \<le> ev_symbol_id e \<and> ev_symbol_id e < int n" if "oc_feature (fst (books_step m books e)) = Some f" for f
    using books_step_feature [OF that] assms by (simp add: market_ok_def)
  ultimately show ?thesis using step(1) by blast
qed

lemma desk_op_ok:
  assumes "desk_reachable rnd pc xc d" "op_covered cmd d"
  shows "\<exists>fills d'. desk_apply rnd cmd d = Inr (fills, d') \<and> desk_reachable rnd pc xc d'"
  using books.desk_apply_ok [OF books.reachable_ok [OF assms(1)] assms(2), of rnd]
    desk_reachable.step [OF assms] by blast

lemma desk_call_ok:
  assumes "desk_reachable rnd pc xc d"
  shows "\<exists>fills d'. desk_on_quote rnd ts f d = Inr (fills, d') \<and> desk_reachable rnd pc xc d'"
    "\<exists>fills d'. evaluate_risk rnd ts f is_quote d = Inr (fills, d') \<and> desk_reachable rnd pc xc d'"
    "\<exists>fills d'. consider_candidate rnd cand is_quote d = Inr (fills, d') \<and> desk_reachable rnd pc xc d'"
    "desk_reachable rnd pc xc (d\<lparr>dk_portfolio := snd (mark_to_market rnd ts f to_curve (dk_portfolio d))\<rparr>)"
    "desk_reachable rnd pc xc (desk_clear d)"
  using desk_op_ok [OF assms, of "OnQuote ts f"] desk_op_ok [OF assms, of "EvaluateRisk ts f is_quote"]
    desk_op_ok [OF assms, of "ConsiderCandidate cand is_quote"]
    desk_op_ok [OF assms, of "MarkToMarket ts f to_curve"] desk_op_ok [OF assms, of ClearBooks]
  by (simp_all add: op_covered_def)

section \<open>Closing a session\<close>

lemma close_session_outcome:
  assumes "desk_reachable rnd pc xc d"
  shows "(\<exists>d'. close_session rnd d fs ts = Inr d' \<and> desk_reachable rnd pc xc d') \<or>
    close_session rnd d fs ts = Inl (AttributeError ''symbol_id'') \<and> pc_end_of_day_flatten pc \<and>
      fs \<noteq> [] \<and> \<not> desk_symbols d \<subseteq> fst ` set fs"
proof (cases fs)
  case Nil
  then show ?thesis using assms by (simp add: close_session_def)
next
  case (Cons x rest)
  obtain k first where x: "x = (k, first)" by fastforce
  have pc: "pf_config (dk_portfolio d) = pc" using books.reachable_configs [OF assms] by simp
  show ?thesis
  proof (cases "pc_end_of_day_flatten pc")
    case False
    then show ?thesis using assms desk_call_ok(4) [OF assms] by (simp add: close_session_def Cons x pc)
  next
    case True
    let ?missing = "\<exists>s\<in>fst ` set (pf_positions (dk_portfolio d)).
      s \<notin> pf_pending_symbols (dk_portfolio d) \<and> map_of fs s = None"
    note out = flatten_outcome [OF assms, of fs ts]
    show ?thesis
    proof (cases ?missing)
      case missing: True
      then have "\<not> desk_symbols d \<subseteq> fst ` set fs"
        by (auto simp: desk_symbols_def map_of_eq_None_iff)
      with True missing out show ?thesis by (simp add: close_session_def Cons x pc)
    next
      case False
      with out have "op_covered (EndOfDay ts (LastQuotes fs) True) d" by simp
      from desk_op_ok [OF assms this] obtain fills d1 where
        d1: "flatten_positions rnd ts (LastQuotes fs) True d = Inr (fills, d1)" "desk_reachable rnd pc xc d1" by auto
      from desk_call_ok(4) [OF d1(2)] d1(1) True show ?thesis
        by (simp add: close_session_def Cons x pc)
    qed
  qed
qed

section \<open>The invariant of the loop\<close>

definition replay_inv ::
  "(rat \<Rightarrow> rat) \<Rightarrow> (nat \<Rightarrow> 's \<Rightarrow> bool) \<Rightarrow> backtest_config \<Rightarrow> 's replay_state \<Rightarrow> bool" where
  "replay_inv rnd ok c s \<longleftrightarrow>
     market_ok (nat (bc_num_symbols c)) (rs_market s) \<and> ok (nat (bc_num_symbols c)) (rs_strategy s) \<and>
     desk_reachable rnd (bc_portfolio c) (bc_execution c) (rs_desk s)"

text \<open>Every symbol the desk is involved with has been seen in the running session.\<close>

definition desk_known :: "'s replay_state \<Rightarrow> bool" where
  "desk_known s \<longleftrightarrow> desk_symbols (rs_desk s) \<subseteq> fst ` set (rs_last_features s)"

text \<open>A configuration whose component constructors accept it and whose session times parse.\<close>

definition replay_config_ok :: "'s strategy_factory \<Rightarrow> backtest_config \<Rightarrow> bool" where
  "replay_config_ok fac c \<longleftrightarrow>
     \<not> bc_strict_quality c \<and> is_ok (session_bounds (bc_session c) None) \<and>
     is_ok (market_default (bc_num_symbols c) (bc_trade_window c) (bc_momentum_window c) (bc_vwap_window c)) \<and>
     is_ok (sf_create fac (bc_num_symbols c) (bc_strategy c))"

lemma replay_sequence_assigned: "e \<in> set (replay_sequence c clock es) \<Longrightarrow> ne_sequence e \<noteq> None"
proof -
  assume "e \<in> set (replay_sequence c clock es)"
  then obtain i where i: "i < length es" "e = replay_sequence c clock es ! i"
    by (auto simp: in_set_conv_nth replay_sequence_def assign_replay_sequences_def)
  let ?key = "replay_key (se_reset_replay_sequences (bc_session c) \<and> se_reset_each_session (bc_session c))
    (Some (session_date clock))"
  show ?thesis
    using i assign_loop_above [OF i(1), of ?key "\<lambda>_. None"] assign_loop_fields [OF i(1), of ?key "\<lambda>_. None"]
    by (cases "ne_sequence (es ! i)") (auto simp: replay_sequence_def assign_replay_sequences_def)
qed

lemma replay_sequence_times:
  "map ne_timestamp_ns (replay_sequence c clock es) = map ne_timestamp_ns es"
proof (rule nth_equalityI)
  fix i
  let ?key = "replay_key (se_reset_replay_sequences (bc_session c) \<and> se_reset_each_session (bc_session c))
    (Some (session_date clock))"
  assume "i < length (map ne_timestamp_ns (replay_sequence c clock es))"
  then have i: "i < length es" by (simp add: replay_sequence_def assign_replay_sequences_def)
  show "map ne_timestamp_ns (replay_sequence c clock es) ! i = map ne_timestamp_ns es ! i"
    using i assign_loop_fields [OF i, of ?key "\<lambda>_. None"]
    by (auto simp: replay_sequence_def assign_replay_sequences_def with_sequence_def)
qed (simp add: replay_sequence_def assign_replay_sequences_def)

lemma replay_sequence_one_date:
  assumes "set es \<subseteq> set events"
    and "\<forall>x\<in>set events. \<forall>y\<in>set events. session_date clock (ne_timestamp_ns x) = session_date clock (ne_timestamp_ns y)"
  shows "\<exists>day. \<forall>e\<in>set (replay_sequence c clock es). session_date clock (ne_timestamp_ns e) = day"
proof (cases es)
  case Nil
  then show ?thesis by (simp add: replay_sequence_def assign_replay_sequences_def)
next
  case (Cons e0 rest)
  have "session_date clock (ne_timestamp_ns e) = session_date clock (ne_timestamp_ns e0)"
    if "e \<in> set (replay_sequence c clock es)" for e
  proof -
    have "ne_timestamp_ns e \<in> set (map ne_timestamp_ns es)"
      using that unfolding replay_sequence_times [symmetric, of es c clock] by simp
    then obtain x where "x \<in> set es" "ne_timestamp_ns x = ne_timestamp_ns e" by auto
    moreover have "e0 \<in> set es" using Cons by simp
    ultimately show ?thesis using assms by (metis subsetD)
  qed
  then show ?thesis by blast
qed

text \<open>What follows the loop: the last close, the cleared books, the result.\<close>

definition finish_run ::
  "(rat \<Rightarrow> rat) \<Rightarrow> backtest_config \<Rightarrow> (int \<times> string) list option \<Rightarrow> (int \<Rightarrow> local_time) \<Rightarrow>
     normalized_event list \<Rightarrow> normalized_event list \<Rightarrow> 's replay_state \<Rightarrow> 's backtest_run result" where
  "finish_run rnd c mapping clock events session_events s =
     rbind (close_session rnd (rs_desk s) (rs_last_features s) (rs_last_timestamp s)) (\<lambda>d.
       Inr \<lparr>br_quality = validate (default_quality_validator
            \<lparr>qv_symbol_mapping := mapping, qv_gap_threshold_ns := bc_gap_threshold_ns c\<rparr>) events,
           br_replay_events = replay_sequence c clock session_events,
           br_final = s\<lparr>rs_desk := desk_clear d\<rparr>,
           br_unfilled_orders = fst (execution_flush (dk_execution d))\<rparr>)"

lemma replay_event_cases:
  assumes "replay_event rnd fac c clock s e = Inr s'"
  shows "\<exists>s1 market s2. change_session rnd fac c (session_date clock (ne_timestamp_ns e)) s = Inr s1 \<and>
    s2 = s1\<lparr>rs_previous_session := Some (session_date clock (ne_timestamp_ns e)),
      rs_last_timestamp := ne_timestamp_ns e, rs_market := market\<rparr> \<and>
    (s' = s2\<lparr>rs_rejected := rs_rejected s2 + 1\<rparr> \<or> (\<exists>f. replay_feature rnd fac e f s2 = Inr s'))"
proof -
  obtain s1 where 1: "change_session rnd fac c (session_date clock (ne_timestamp_ns e)) s = Inr s1"
    using assms by (cases "change_session rnd fac c (session_date clock (ne_timestamp_ns e)) s")
      (simp_all add: replay_event_def)
  obtain ev where 2: "to_market_event e None = Inr ev"
    using assms 1 by (cases "to_market_event e None") (simp_all add: replay_event_def)
  obtain oc market where 3: "process_event (rs_market s1) ev = Inr (oc, market)"
    using assms 1 2 by (cases "process_event (rs_market s1) ev") (auto simp: replay_event_def)
  define s2 where "s2 = s1\<lparr>rs_previous_session := Some (session_date clock (ne_timestamp_ns e)),
      rs_last_timestamp := ne_timestamp_ns e, rs_market := market\<rparr>"
  have "s' = s2\<lparr>rs_rejected := rs_rejected s2 + 1\<rparr> \<or> (\<exists>f. replay_feature rnd fac e f s2 = Inr s')"
    using assms 1 2 3
    by (cases "oc_feature oc"; cases "oc_kind oc = ''feature''") (auto simp: replay_event_def s2_def Let_def)
  with 1 s2_def show ?thesis by blast
qed

section \<open>The loop under the contract of the engine\<close>

context signal_policy
begin

lemma replay_feature_ok:
  assumes "replay_inv rnd ok c s" "ft_symbol_id f = ne_symbol_id e" "0 \<le> ne_symbol_id e"
    and "ne_symbol_id e < int (nat (bc_num_symbols c))"
  shows "\<exists>s'. replay_feature rnd fac e f s = Inr s' \<and> replay_inv rnd ok c s' \<and> (desk_known s \<longrightarrow> desk_known s') \<and>
    rs_previous_session s' = rs_previous_session s"
proof -
  let ?pc = "bc_portfolio c" and ?xc = "bc_execution c" and ?ts = "ne_timestamp_ns e"
  let ?quote = "ne_event_type e = MSG_MARKET_QUOTE"
  have r: "desk_reachable rnd ?pc ?xc (rs_desk s)" using assms(1) by (simp add: replay_inv_def)
  obtain f1 d1 where d1: "(if ?quote then desk_on_quote rnd ?ts f (rs_desk s) else Inr ([], rs_desk s)) = Inr (f1, d1)"
    "desk_reachable rnd ?pc ?xc d1" "desk_symbols d1 \<subseteq> desk_symbols (rs_desk s)"
    using desk_call_ok(1) [OF r, of ?ts f] on_quote_symbols r by (cases ?quote) fastforce+
  obtain f2 d2 where d2: "evaluate_risk rnd ?ts f ?quote d1 = Inr (f2, d2)" "desk_reachable rnd ?pc ?xc d2"
    using desk_call_ok(2) [OF d1(2)] by blast
  note d2s = evaluate_risk_symbols [OF d1(2) d2(1)]
  obtain sig st where st: "sf_evaluate fac (rs_strategy s) f = Inr (sig, st)"
    "ok (nat (bc_num_symbols c)) st" "sg_symbol_id sig = ft_symbol_id f"
    using evaluate_ok [of "nat (bc_num_symbols c)" "rs_strategy s" f] assms by (auto simp: replay_inv_def)
  obtain f3 d3 where d3: "consider_candidate rnd (candidate_of e sig f) ?quote d2 = Inr (f3, d3)"
    "desk_reachable rnd ?pc ?xc d3"
    using desk_call_ok(3) [OF d2(2)] by blast
  let ?d = "d3\<lparr>dk_portfolio := snd (mark_to_market rnd ?ts f True (dk_portfolio d3))\<rparr>"
  have "desk_symbols ?d = desk_symbols d3"
    by (simp add: desk_symbols_def mark_to_market_def Let_def)
  moreover have "desk_symbols d3 \<subseteq> insert (ne_symbol_id e) (desk_symbols (rs_desk s))"
    using consider_candidate_symbols [OF d2(2) d3(1)] d1(3) d2s st(3) assms(2) by (auto simp: candidate_of_def)
  ultimately have known: "desk_symbols ?d \<subseteq> insert (ne_symbol_id e) (desk_symbols (rs_desk s))" by simp
  obtain s' where s': "replay_feature rnd fac e f s = Inr s'" "rs_market s' = rs_market s" "rs_strategy s' = st"
    "rs_desk s' = ?d" "rs_last_features s' = AList.update (ne_symbol_id e) f (rs_last_features s)"
    "rs_previous_session s' = rs_previous_session s"
    using d1(1) d2(1) st(1) d3(1) by (cases ?quote) (simp_all add: replay_feature_def Let_def)
  have "replay_inv rnd ok c s'"
    using assms(1) st(2) desk_call_ok(4) [OF d3(2)] by (simp add: replay_inv_def s')
  moreover have "desk_known s \<longrightarrow> desk_known s'"
    using known by (auto simp: desk_known_def s' AList.dom_update)
  ultimately show ?thesis using s' by blast
qed

lemma change_session_outcome:
  assumes "replay_inv rnd ok c s"
  shows "(\<exists>s'. change_session rnd fac c day s = Inr s' \<and> replay_inv rnd ok c s' \<and>
      (rs_previous_session s \<in> {None, Some day} \<longrightarrow> s' = s)) \<or>
    change_session rnd fac c day s = Inl (AttributeError ''symbol_id'') \<and>
      pc_end_of_day_flatten (bc_portfolio c) \<and> rs_previous_session s \<notin> {None, Some day} \<and> \<not> desk_known s"
proof (cases "rs_previous_session s \<in> {None, Some day}")
  case True
  then have "change_session rnd fac c day s = Inr s" by (auto simp: change_session_def)
  with assms show ?thesis by blast
next
  case False
  then obtain previous where prev: "rs_previous_session s = Some previous" "day \<noteq> previous" by auto
  have r: "desk_reachable rnd (bc_portfolio c) (bc_execution c) (rs_desk s)"
    using assms by (simp add: replay_inv_def)
  from close_session_outcome [OF r, of "rs_last_features s" "rs_last_timestamp s"] show ?thesis
  proof (elim disjE exE conjE)
    fix d
    assume d: "close_session rnd (rs_desk s) (rs_last_features s) (rs_last_timestamp s) = Inr d"
      "desk_reachable rnd (bc_portfolio c) (bc_execution c) d"
    let ?s = "if se_reset_each_session (bc_session c)
      then s\<lparr>rs_market := market_reset_state (rs_market s), rs_strategy := sf_reset fac (rs_strategy s)\<rparr>
      else s"
    have "change_session rnd fac c day s = Inr (?s\<lparr>rs_last_features := [], rs_desk := desk_clear d\<rparr>)"
      using prev by (simp add: change_session_def d(1) Let_def)
    moreover have "replay_inv rnd ok c (?s\<lparr>rs_last_features := [], rs_desk := desk_clear d\<rparr>)"
      using assms desk_call_ok(5) [OF d(2)] market_reset_ok reset_ok by (simp add: replay_inv_def)
    ultimately show ?thesis using False by blast
  next
    assume "close_session rnd (rs_desk s) (rs_last_features s) (rs_last_timestamp s) = Inl (AttributeError ''symbol_id'')"
      "pc_end_of_day_flatten (bc_portfolio c)" "\<not> desk_symbols (rs_desk s) \<subseteq> fst ` set (rs_last_features s)"
    then show ?thesis using prev False by (simp add: change_session_def desk_known_def)
  qed
qed

lemma replay_inv_frame:
  "replay_inv rnd ok c (s\<lparr>rs_previous_session := p, rs_last_timestamp := t\<rparr>) = replay_inv rnd ok c s"
  "replay_inv rnd ok c (s\<lparr>rs_rejected := k\<rparr>) = replay_inv rnd ok c s"
  by (simp_all add: replay_inv_def)

text \<open>One event: either it keeps the invariant, or the flattening of a session change raises.\<close>

lemma replay_event_outcome:
  assumes "replay_inv rnd ok c s" "ne_sequence e \<noteq> None"
    and day_def: "session_date clock (ne_timestamp_ns e) = day"
  shows "(\<exists>s'. replay_event rnd fac c clock s e = Inr s' \<and> replay_inv rnd ok c s' \<and> rs_previous_session s' = Some day \<and>
      (rs_previous_session s \<in> {None, Some day} \<and> desk_known s \<longrightarrow> desk_known s')) \<or>
    replay_event rnd fac c clock s e = Inl (AttributeError ''symbol_id'') \<and>
      pc_end_of_day_flatten (bc_portfolio c) \<and> rs_previous_session s \<notin> {None, Some day} \<and> \<not> desk_known s"
  using change_session_outcome [OF assms(1), of day]
proof (elim disjE exE conjE)
  fix s1
  assume s1: "change_session rnd fac c day s = Inr s1" "replay_inv rnd ok c s1"
    "rs_previous_session s \<in> {None, Some day} \<longrightarrow> s1 = s"
  let ?s = "s1\<lparr>rs_previous_session := Some day, rs_last_timestamp := ne_timestamp_ns e\<rparr>"
  obtain n where seq: "ne_sequence e = Some n" using assms(2) by blast
  then obtain ev where ev: "to_market_event e None = Inr ev" "ev_symbol_id ev = ne_symbol_id e"
    by (simp add: to_market_event_def)
  have m: "market_ok (nat (bc_num_symbols c)) (rs_market ?s)" using s1(2) by (simp add: replay_inv_def)
  obtain oc m' where pe: "process_event (rs_market ?s) ev = Inr (oc, m')" "market_ok (nat (bc_num_symbols c)) m'"
    "\<forall>f. oc_feature oc = Some f \<longrightarrow> oc_kind oc = ''feature'' \<and> ft_symbol_id f = ev_symbol_id ev \<and>
       0 \<le> ev_symbol_id ev \<and> ev_symbol_id ev < int (nat (bc_num_symbols c))"
    using process_event_ok [OF m, of ev] by blast
  have inv: "replay_inv rnd ok c (?s\<lparr>rs_market := m'\<rparr>)" using s1(2) pe(2) by (simp add: replay_inv_def)
  have known: "desk_known (?s\<lparr>rs_market := m'\<rparr>) = desk_known s1" by (simp add: desk_known_def)
  show ?thesis
  proof (cases "oc_feature oc")
    case None
    then have "replay_event rnd fac c clock s e = Inr (?s\<lparr>rs_market := m', rs_rejected := rs_rejected s1 + 1\<rparr>)"
      using s1(1) pe(1) ev by (simp add: replay_event_def day_def Let_def)
    moreover have "replay_inv rnd ok c (?s\<lparr>rs_market := m', rs_rejected := rs_rejected s1 + 1\<rparr>)"
      using inv by (simp add: replay_inv_def)
    moreover have "desk_known (?s\<lparr>rs_market := m', rs_rejected := rs_rejected s1 + 1\<rparr>) = desk_known s1"
      by (simp add: desk_known_def)
    ultimately show ?thesis using s1(3) by (intro disjI1) auto
  next
    case (Some f)
    with pe(3) ev have f: "ft_symbol_id f = ne_symbol_id e" "0 \<le> ne_symbol_id e"
      "ne_symbol_id e < int (nat (bc_num_symbols c))" "oc_kind oc = ''feature''" by auto
    have "replay_event rnd fac c clock s e = replay_feature rnd fac e f (?s\<lparr>rs_market := m'\<rparr>)"
      using s1(1) pe(1) ev Some f(4) by (simp add: replay_event_def day_def Let_def)
    moreover obtain s' where "replay_feature rnd fac e f (?s\<lparr>rs_market := m'\<rparr>) = Inr s'" "replay_inv rnd ok c s'"
      "desk_known (?s\<lparr>rs_market := m'\<rparr>) \<longrightarrow> desk_known s'"
      "rs_previous_session s' = rs_previous_session (?s\<lparr>rs_market := m'\<rparr>)"
      using replay_feature_ok [OF inv f(1-3)] by blast
    ultimately show ?thesis using s1(3) known by (intro disjI1) auto
  qed
next
  assume "change_session rnd fac c day s = Inl (AttributeError ''symbol_id'')" "pc_end_of_day_flatten (bc_portfolio c)"
    "rs_previous_session s \<notin> {None, Some day}" "\<not> desk_known s"
  then show ?thesis by (simp add: replay_event_def day_def Let_def)
qed

text \<open>The whole loop. Within one session nothing can be left over.\<close>

lemma replay_loop_outcome:
  assumes "replay_inv rnd ok c s" "\<forall>e\<in>set es. ne_sequence e \<noteq> None"
  shows "(\<exists>s'. fold_result (replay_event rnd fac c clock) s es = Inr s' \<and> replay_inv rnd ok c s') \<or>
    fold_result (replay_event rnd fac c clock) s es = Inl (AttributeError ''symbol_id'') \<and>
      pc_end_of_day_flatten (bc_portfolio c)"
  using assms
proof (induction es arbitrary: s)
  case Nil
  then show ?case by simp
next
  case (Cons e es)
  then have "ne_sequence e \<noteq> None" by simp
  from replay_event_outcome [OF Cons.prems(1) this refl, of clock] show ?case
  proof (elim disjE exE conjE)
    fix s1
    assume "replay_event rnd fac c clock s e = Inr s1" "replay_inv rnd ok c s1"
    then show ?thesis using Cons.IH [of s1] Cons.prems(2) by simp
  qed simp
qed

lemma replay_loop_one_session:
  assumes "replay_inv rnd ok c s" "\<forall>e\<in>set es. ne_sequence e \<noteq> None"
    and "\<forall>e\<in>set es. session_date clock (ne_timestamp_ns e) = day"
    and "rs_previous_session s \<in> {None, Some day}" "desk_known s"
  shows "\<exists>s'. fold_result (replay_event rnd fac c clock) s es = Inr s' \<and> replay_inv rnd ok c s' \<and> desk_known s'"
  using assms
proof (induction es arbitrary: s)
  case Nil
  then show ?case by simp
next
  case (Cons e es)
  then have "ne_sequence e \<noteq> None" by simp
  from replay_event_outcome [OF Cons.prems(1) this refl, of clock] Cons.prems(3-5) obtain s1 where
    "replay_event rnd fac c clock s e = Inr s1" "replay_inv rnd ok c s1" "rs_previous_session s1 = Some day" "desk_known s1"
    by auto
  then show ?case using Cons.IH [of s1] Cons.prems(2,3) by simp
qed

text \<open>What \<open>run_backtest\<close> amounts to under an accepted configuration.\<close>

lemma replay_start_fields:
  "rs_previous_session (replay_start c m st) = None" "desk_known (replay_start c m st)"
  "rs_candidates (replay_start c m st) = []" "rs_rejected (replay_start c m st) = 0"
  "rs_strategy (replay_start c m st) = st" "rs_market (replay_start c m st) = m"
  by (simp_all add: desk_known_def replay_start_def desk_symbols_def portfolio_init_def execution_init_def)

lemma replay_start_inv:
  assumes "market_default (bc_num_symbols c) (bc_trade_window c) (bc_momentum_window c) (bc_vwap_window c) = Inr m"
    and "sf_create fac (bc_num_symbols c) (bc_strategy c) = Inr st"
  shows "replay_inv rnd ok c (replay_start c m st)"
proof -
  have "desk_reachable rnd (bc_portfolio c) (bc_execution c) (rs_desk (replay_start c m st))"
    by (simp add: replay_start_def desk_reachable.start)
  then show ?thesis
    using create_ok [OF assms(2)] market_default_ok [OF assms(1)] by (simp add: replay_inv_def replay_start_fields)
qed

lemma run_backtest_parts:
  assumes "replay_config_ok fac c"
  obtains session_events m st where
    "filter_events (bc_session c) clock events = Inr session_events"
    "set session_events \<subseteq> set events" "length session_events \<le> length events"
    "market_default (bc_num_symbols c) (bc_trade_window c) (bc_momentum_window c) (bc_vwap_window c) = Inr m"
    "sf_create fac (bc_num_symbols c) (bc_strategy c) = Inr st"
    "run_backtest rnd fac c mapping clock events =
       rbind (fold_result (replay_event rnd fac c clock) (replay_start c m st) (replay_sequence c clock session_events))
         (finish_run rnd c mapping clock events session_events)"
proof -
  obtain b where b: "session_bounds (bc_session c) None = Inr b"
    using assms by (auto simp: replay_config_ok_def is_ok_iff)
  obtain m where m: "market_default (bc_num_symbols c) (bc_trade_window c) (bc_momentum_window c) (bc_vwap_window c) = Inr m"
    using assms by (auto simp: replay_config_ok_def is_ok_iff)
  obtain st where st: "sf_create fac (bc_num_symbols c) (bc_strategy c) = Inr st"
    using assms by (auto simp: replay_config_ok_def is_ok_iff)
  let ?es = "filter (\<lambda>e. market_open (bc_session c) b (clock (ne_timestamp_ns e))) (sort_events events)"
  have f: "filter_events (bc_session c) clock events = Inr ?es"
    unfolding filter_events_def by (rule filter_result_total) (simp add: in_session_eq [OF b])
  have "set ?es \<subseteq> set events" by (auto simp: sort_events_def)
  moreover have "length ?es \<le> length events"
    using length_filter_le [of _ "sort_events events"] by (simp add: sort_events_def)
  moreover have "run_backtest rnd fac c mapping clock events =
      rbind (fold_result (replay_event rnd fac c clock) (replay_start c m st) (replay_sequence c clock ?es))
        (finish_run rnd c mapping clock events ?es)"
    using assms by (simp add: run_backtest_def replay_config_ok_def f m st Let_def finish_run_def [abs_def])
  ultimately show ?thesis using that [OF f _ _ m st] by blast
qed

lemma finish_run_outcome:
  assumes "replay_inv rnd ok c s"
  shows "(\<exists>r. finish_run rnd c mapping clock events es s = Inr r \<and>
      desk_reachable rnd (bc_portfolio c) (bc_execution c) (rs_desk (br_final r)) \<and>
      pf_pending_symbols (dk_portfolio (rs_desk (br_final r))) = {}) \<or>
    finish_run rnd c mapping clock events es s = Inl (AttributeError ''symbol_id'') \<and>
      pc_end_of_day_flatten (bc_portfolio c) \<and> \<not> desk_known s"
proof -
  have "desk_reachable rnd (bc_portfolio c) (bc_execution c) (rs_desk s)"
    using assms by (simp add: replay_inv_def)
  from close_session_outcome [OF this, of "rs_last_features s" "rs_last_timestamp s"] show ?thesis
  proof (elim disjE exE conjE)
    fix d
    assume "close_session rnd (rs_desk s) (rs_last_features s) (rs_last_timestamp s) = Inr d"
      "desk_reachable rnd (bc_portfolio c) (bc_execution c) d"
    with desk_call_ok(5) [OF this(2)] show ?thesis by (simp add: finish_run_def) (simp add: desk_clear_def)
  qed (simp add: finish_run_def desk_known_def)
qed

lemma run_session_outcome:
  assumes "replay_config_ok fac c"
  shows "case run_backtest rnd fac c mapping clock events of
      Inr r \<Rightarrow> desk_reachable rnd (bc_portfolio c) (bc_execution c) (rs_desk (br_final r)) \<and>
        pf_pending_symbols (dk_portfolio (rs_desk (br_final r))) = {}
    | Inl e \<Rightarrow> e = AttributeError ''symbol_id'' \<and> pc_end_of_day_flatten (bc_portfolio c) \<and>
        (\<exists>es. filter_events (bc_session c) clock events = Inr es \<and> set es \<subseteq> set events \<and>
          (\<exists>x\<in>set es. \<exists>y\<in>set es. session_date clock (ne_timestamp_ns x) \<noteq> session_date clock (ne_timestamp_ns y)))"
proof -
  obtain es m st where filtered: "filter_events (bc_session c) clock events = Inr es" and es: "set es \<subseteq> set events"
    and m: "market_default (bc_num_symbols c) (bc_trade_window c) (bc_momentum_window c) (bc_vwap_window c) = Inr m"
    and st: "sf_create fac (bc_num_symbols c) (bc_strategy c) = Inr st"
    and run: "run_backtest rnd fac c mapping clock events =
       rbind (fold_result (replay_event rnd fac c clock) (replay_start c m st) (replay_sequence c clock es))
         (finish_run rnd c mapping clock events es)"
    by (rule run_backtest_parts [OF assms])
  note parts = es replay_start_inv [where rnd = rnd, OF m st] replay_start_fields(1,2) [of c m st]
  have seq: "\<forall>e\<in>set (replay_sequence c clock es). ne_sequence e \<noteq> None"
    using replay_sequence_assigned by blast
  note ended = finish_run_outcome [of rnd c _ mapping clock events es]
  show ?thesis
  proof (cases "\<exists>x\<in>set es. \<exists>y\<in>set es.
      session_date clock (ne_timestamp_ns x) \<noteq> session_date clock (ne_timestamp_ns y)")
    case True
    from replay_loop_outcome [OF parts(2) seq, of clock] show ?thesis
    proof (elim disjE exE conjE)
      fix s
      assume s: "fold_result (replay_event rnd fac c clock) (replay_start c m st) (replay_sequence c clock es) = Inr s" "replay_inv rnd ok c s"
      from ended [OF s(2)] show ?thesis using True es by (elim disjE exE conjE) (simp_all add: run s(1) filtered)
    qed (use True es in \<open>simp add: run filtered\<close>)
  next
    case False
    then obtain day where "\<forall>e\<in>set (replay_sequence c clock es). session_date clock (ne_timestamp_ns e) = day"
      using replay_sequence_one_date [OF subset_refl] by blast
    from replay_loop_one_session [OF parts(2) seq this] parts(3,4) obtain s where
      s: "fold_result (replay_event rnd fac c clock) (replay_start c m st) (replay_sequence c clock es) = Inr s" "replay_inv rnd ok c s" "desk_known s"
      by auto
    from ended [OF s(2)] s(3) show ?thesis by (elim disjE exE conjE) (simp_all add: run s(1))
  qed
qed

lemma run_backtest_outcome:
  assumes "replay_config_ok fac c"
  shows "case run_backtest rnd fac c mapping clock events of
      Inr r \<Rightarrow> desk_reachable rnd (bc_portfolio c) (bc_execution c) (rs_desk (br_final r)) \<and>
        pf_pending_symbols (dk_portfolio (rs_desk (br_final r))) = {}
    | Inl e \<Rightarrow> e = AttributeError ''symbol_id'' \<and> pc_end_of_day_flatten (bc_portfolio c) \<and>
        (\<exists>x\<in>set events. \<exists>y\<in>set events.
          session_date clock (ne_timestamp_ns x) \<noteq> session_date clock (ne_timestamp_ns y))"
  using run_session_outcome [OF assms, where rnd = rnd and mapping = mapping and clock = clock and events = events]
  by (cases "run_backtest rnd fac c mapping clock events") auto

lemma run_backtest_at_outcome:
  assumes "replay_config_ok fac c"
  shows "case run_backtest_at rnd fac c mapping zone events of
      Inr r \<Rightarrow> (\<forall>x\<in>set events. is_ok (zone (ne_timestamp_ns x))) \<and>
        desk_reachable rnd (bc_portfolio c) (bc_execution c) (rs_desk (br_final r)) \<and>
        pf_pending_symbols (dk_portfolio (rs_desk (br_final r))) = {}
    | Inl e \<Rightarrow> (\<exists>x\<in>set events. zone (ne_timestamp_ns x) = Inl e) \<or>
        e = AttributeError ''symbol_id'' \<and> pc_end_of_day_flatten (bc_portfolio c) \<and>
        (\<exists>es. filter_events (bc_session c) (zone_clock zone) events = Inr es \<and>
          (\<exists>x\<in>set es. \<exists>y\<in>set es.
            session_date (zone_clock zone) (ne_timestamp_ns x) \<noteq> session_date (zone_clock zone) (ne_timestamp_ns y)))"
proof -
  obtain b where b: "session_bounds (bc_session c) None = Inr b" and lenient: "\<not> bc_strict_quality c"
    using assms by (auto simp: replay_config_ok_def is_ok_iff)
  show ?thesis
  proof (cases "filter_events_at (bc_session c) zone events")
    case (Inl e)
    with filter_events_at_outcome [OF b, where zone = zone and events = events] lenient show ?thesis by (simp add: run_backtest_at_def)
  next
    case (Inr es)
    with lenient have run: "run_backtest_at rnd fac c mapping zone events = run_backtest rnd fac c mapping (zone_clock zone) events"
      by (simp add: run_backtest_at_def)
    have converted: "\<forall>x\<in>set events. is_ok (zone (ne_timestamp_ns x))"
      using filter_events_at_outcome [OF b, where zone = zone and events = events] by (simp add: Inr)
    note outcome = run_session_outcome [OF assms, where rnd = rnd and mapping = mapping and clock = "zone_clock zone" and events = events]
    show ?thesis
    proof (cases "run_backtest rnd fac c mapping (zone_clock zone) events")
      case (Inl e)
      with outcome have "e = AttributeError ''symbol_id''" "pc_end_of_day_flatten (bc_portfolio c)"
        "\<exists>es. filter_events (bc_session c) (zone_clock zone) events = Inr es \<and>
          (\<exists>x\<in>set es. \<exists>y\<in>set es.
            session_date (zone_clock zone) (ne_timestamp_ns x) \<noteq> session_date (zone_clock zone) (ne_timestamp_ns y))"
        by (simp, simp, force)
      then show ?thesis by (simp add: run Inl)
    next
      case (Inr r)
      with outcome converted show ?thesis by (simp add: run)
    qed
  qed
qed

end

section \<open>The replay never raises within a session\<close>

text \<open>
  C2: The composed replay: for every accepted configuration without strict quality, every event list and
  every time zone, \<open>run\<close> returns, or it raises the error of converting a timestamp of the input, or the
  \<open>AttributeError\<close> of the end-of-day flattening, which takes flattening switched on and, among the
  events that pass the session filter, two of different local dates. No other exception of the market
  model, the signal engine or the desk can surface.
\<close>

theorem replay_raises_only_at_session_close:
  assumes "replay_config_ok model_factory c"
  shows "case run_backtest_at rnd model_factory c mapping zone events of
      Inr r \<Rightarrow> (\<forall>x\<in>set events. is_ok (zone (ne_timestamp_ns x))) \<and>
        desk_reachable rnd (bc_portfolio c) (bc_execution c) (rs_desk (br_final r)) \<and>
        pf_pending_symbols (dk_portfolio (rs_desk (br_final r))) = {}
    | Inl e \<Rightarrow> (\<exists>x\<in>set events. zone (ne_timestamp_ns x) = Inl e) \<or>
        e = AttributeError ''symbol_id'' \<and> pc_end_of_day_flatten (bc_portfolio c) \<and>
        (\<exists>es. filter_events (bc_session c) (zone_clock zone) events = Inr es \<and>
          (\<exists>x\<in>set es. \<exists>y\<in>set es.
            session_date (zone_clock zone) (ne_timestamp_ns x) \<noteq> session_date (zone_clock zone) (ne_timestamp_ns y)))"
  by (rule model.run_backtest_at_outcome [OF assms])

section \<open>A morning replayed\<close>

definition overnight_strategy :: strategy_config where
  "overnight_strategy = default_strategy_config
     \<lparr>sc_strategy_enable := True, sc_long_min_momentum_bps_x100 := 0,
      sc_long_min_vwap_delta_bps_x100 := 0, sc_long_min_imbalance_q15 := 0,
      sc_symbol_enable := [True, True]\<rparr>"

definition overnight_config :: backtest_config where
  "overnight_config =
     \<lparr>bc_num_symbols = 2, bc_trade_window = 1, bc_momentum_window = 1, bc_vwap_window = 1,
      bc_session = default_session_config, bc_execution = demo_execution_config,
      bc_portfolio = demo_portfolio_config, bc_strategy = overnight_strategy,
      bc_strict_quality = False, bc_gap_threshold_ns = None, bc_seed = 1, bc_run_id = ''overnight''\<rparr>"

text \<open>Six events of one symbol on one morning, an entry filled among them.\<close>

definition tick :: "int \<Rightarrow> int \<Rightarrow> int \<Rightarrow> int \<Rightarrow> int \<Rightarrow> normalized_event" where
  "tick ts symb kind side price =
     \<lparr>ne_timestamp_ns = ts, ne_event_type = kind, ne_symbol_id = symb, ne_price = price,
      ne_quantity = 100, ne_side = side, ne_sequence = None, ne_flags = 0, ne_source_index = ts, ne_source = []\<rparr>"

definition test_clock :: "int \<Rightarrow> local_time" where
  "test_clock ts = \<lparr>lt_year = 2024, lt_day = 738887 + ts div 1000, lt_time = 36000000000 + ts mod 1000\<rparr>"

lemma overnight_config_ok: "replay_config_ok model_factory overnight_config"
  by code_simp

definition trading_day :: "normalized_event list" where
  "trading_day = [tick 1 0 2 0 100000000, tick 2 0 1 0 100000000, tick 3 0 1 1 100010000,
     tick 4 0 1 0 100000000, tick 5 0 1 0 100000000, tick 60 0 1 0 100000000]"

theorem replay_raises_only_at_session_close_witness:
  "\<exists>r. run_backtest_at fl64 model_factory overnight_config None (\<lambda>ts. Inr (test_clock ts)) trading_day = Inr r \<and>
     pf_pending_symbols (dk_portfolio (rs_desk (br_final r))) = {}"
proof -
  have clock: "zone_clock (\<lambda>ts. Inr (test_clock ts)) = test_clock" by (simp add: zone_clock_def fun_eq_iff)
  have one: "\<forall>x\<in>set trading_day. session_date test_clock (ne_timestamp_ns x) = 738887"
    by (simp add: trading_day_def tick_def test_clock_def session_date_def)
  have "set es \<subseteq> set trading_day" if "filter_events (bc_session overnight_config) test_clock trading_day = Inr es" for es
    using filter_result_subset that by (fastforce simp: filter_events_def sort_events_def)
  with one replay_raises_only_at_session_close [OF overnight_config_ok, where rnd = fl64 and mapping = None
      and zone = "\<lambda>ts. Inr (test_clock ts)" and events = trading_day]
  show ?thesis
    by (cases "run_backtest_at fl64 model_factory overnight_config None (\<lambda>ts. Inr (test_clock ts)) trading_day")
      (auto simp: clock, metis subsetD)
qed

end
