(* ===== verification/Arrival_Statistics.thy ===== *)
theory Arrival_Statistics
  imports Float64
begin

text \<open>
  The statistics of \<open>tools/backtest/arrival.py\<close>: percentiles, the distribution of a list and the
  bounded accumulator \<open>_OnlineStats\<close>. Values are the rationals that the Python numbers denote.
  \<open>statistics.mean\<close> rounds the exact mean once; \<open>statistics.median\<close> adds the two middle values in
  the arithmetic of their type, which is the argument \<open>add\<close> (exact for integers, rounded for
  floats), and \<open>statistics.mean\<close> of integers is \<open>int_mean_of\<close>; \<open>distribution\<close> takes both.
\<close>

section \<open>Checked division\<close>

definition int_floordiv :: "int \<Rightarrow> int \<Rightarrow> int result" where
  "int_floordiv a b = (if b = 0 then Inl ZeroDivisionError else Inr (a div b))"

definition int_floormod :: "int \<Rightarrow> int \<Rightarrow> int result" where
  "int_floormod a b = (if b = 0 then Inl ZeroDivisionError else Inr (a mod b))"

definition true_div :: "(rat \<Rightarrow> rat) \<Rightarrow> rat \<Rightarrow> rat \<Rightarrow> rat result" where
  "true_div rnd a b = (if b = 0 then Inl ZeroDivisionError else Inr (rnd (a / b)))"

lemma checked_division [simp, result_simps]:
  "b \<noteq> 0 \<Longrightarrow> int_floordiv a b = Inr (a div b)"
  "b \<noteq> 0 \<Longrightarrow> int_floormod a b = Inr (a mod b)"
  "y \<noteq> 0 \<Longrightarrow> true_div rnd x y = Inr (rnd (x / y))"
  by (simp_all add: int_floordiv_def int_floormod_def true_div_def)

section \<open>Percentiles\<close>

definition percentile_index :: "(rat \<Rightarrow> rat) \<Rightarrow> nat \<Rightarrow> rat \<Rightarrow> int" where
  "percentile_index rnd n fraction =
     min (int n - 1) (max 0 (round_half_even (rnd (of_int (int n - 1) * fraction))))"

definition percentile :: "(rat \<Rightarrow> rat) \<Rightarrow> 'a::linorder list \<Rightarrow> rat \<Rightarrow> 'a option" where
  "percentile rnd vals fraction =
     (if vals = [] then None
      else Some (sort vals ! nat (percentile_index rnd (length vals) fraction)))"

definition median_by :: "(rat \<Rightarrow> rat) \<Rightarrow> (rat \<Rightarrow> rat \<Rightarrow> rat) \<Rightarrow> rat list \<Rightarrow> rat" where
  "median_by rnd add vals =
     (let ordered = sort vals; n = length ordered; i = n div 2 in
      if odd n then ordered ! i else rnd (add (ordered ! (i - 1)) (ordered ! i) / 2))"

text \<open>The addition of \<open>statistics.median\<close> on floats.\<close>

definition float_add :: "(rat \<Rightarrow> rat) \<Rightarrow> rat \<Rightarrow> rat \<Rightarrow> rat" where
  "float_add rnd x y = rnd (x + y)"

definition mean_of :: "(rat \<Rightarrow> rat) \<Rightarrow> rat list \<Rightarrow> rat" where
  "mean_of rnd vals = rnd (sum_list vals / of_int (int (length vals)))"

text \<open>A mean of integers that is whole stays an integer, unrounded.\<close>

definition int_mean_of :: "(rat \<Rightarrow> rat) \<Rightarrow> rat list \<Rightarrow> rat" where
  "int_mean_of rnd vals =
     (let m = sum_list vals / of_int (int (length vals)) in if of_int \<lfloor>m\<rfloor> = m then m else rnd m)"

record distribution_stats =
  di_count :: int
  di_min :: "rat option"
  di_p1 :: "rat option"
  di_p5 :: "rat option"
  di_p10 :: "rat option"
  di_p25 :: "rat option"
  di_median :: "rat option"
  di_p75 :: "rat option"
  di_p90 :: "rat option"
  di_p95 :: "rat option"
  di_p99 :: "rat option"
  di_max :: "rat option"
  di_mean :: "rat option"

text \<open>Python's \<open>min\<close> and \<open>max\<close> of a list, \<open>None\<close> for the empty one.\<close>

definition extreme_of :: "('a \<Rightarrow> 'a \<Rightarrow> 'a) \<Rightarrow> 'a list \<Rightarrow> 'a option" where
  "extreme_of better vals = (case vals of [] \<Rightarrow> None | v # vs \<Rightarrow> Some (foldl better v vs))"

text \<open>The fractions are literals of the source, so their binary64 values.\<close>

definition distribution ::
  "(rat \<Rightarrow> rat) \<Rightarrow> (rat \<Rightarrow> rat \<Rightarrow> rat) \<Rightarrow> (rat list \<Rightarrow> rat) \<Rightarrow> rat list \<Rightarrow> distribution_stats" where
  "distribution rnd add avg vals =
     (let some = (\<lambda>x. if vals = [] then None else Some x); pc = (\<lambda>k. percentile rnd vals (rnd (k / 100))) in
      \<lparr>di_count = int (length vals), di_min = extreme_of min vals,
       di_p1 = pc 1, di_p5 = pc 5, di_p10 = pc 10, di_p25 = pc 25,
       di_median = some (median_by rnd add vals),
       di_p75 = pc 75, di_p90 = pc 90, di_p95 = pc 95, di_p99 = pc 99,
       di_max = extreme_of max vals, di_mean = some (avg vals)\<rparr>)"

section \<open>The bounded accumulator\<close>

record online_stats =
  on_count :: int
  on_total :: rat
  on_minimum :: "rat option"
  on_maximum :: "rat option"
  on_sample_size :: int
  on_sample :: "rat list"
  on_sample_stride :: int

definition online_init :: "int \<Rightarrow> online_stats" where
  "online_init sample_size =
     \<lparr>on_count = 0, on_total = 0, on_minimum = None, on_maximum = None, on_sample_size = sample_size,
      on_sample = [], on_sample_stride = max 1 (sample_size div 1000)\<rparr>"

definition sample_add :: "int \<Rightarrow> int \<Rightarrow> int \<Rightarrow> 'a \<Rightarrow> 'a list \<Rightarrow> 'a list result" where
  "sample_add cap stride count v sample =
     (if int (length sample) < cap then Inr (sample @ [v])
      else if count mod stride = 0
      then rbind (int_floormod (count div stride) cap) (\<lambda>i. py_set sample (nat i) v)
      else Inr sample)"

definition online_add :: "(rat \<Rightarrow> rat) \<Rightarrow> rat \<Rightarrow> online_stats \<Rightarrow> online_stats result" where
  "online_add rnd v s =
     (let count = on_count s + 1 in
      rbind (sample_add (on_sample_size s) (on_sample_stride s) count v (on_sample s)) (\<lambda>sample.
      Inr (s\<lparr>on_count := count, on_total := rnd (on_total s + rnd v),
             on_minimum := Some (case on_minimum s of None \<Rightarrow> v | Some m \<Rightarrow> min m v),
             on_maximum := Some (case on_maximum s of None \<Rightarrow> v | Some m \<Rightarrow> max m v),
             on_sample := sample\<rparr>)))"

definition online_dict :: "(rat \<Rightarrow> rat) \<Rightarrow> (rat \<Rightarrow> rat \<Rightarrow> rat) \<Rightarrow> online_stats \<Rightarrow> distribution_stats" where
  "online_dict rnd add s =
     (distribution rnd add (mean_of rnd) (on_sample s))
       \<lparr>di_count := on_count s, di_min := on_minimum s, di_max := on_maximum s,
        di_mean := (if on_count s = 0 then None else Some (rnd (on_total s / rnd (of_int (on_count s)))))\<rparr>"

section \<open>Percentiles are order statistics\<close>

lemma percentile_index_bounds:
  "0 < n \<Longrightarrow> 0 \<le> percentile_index rnd n fraction \<and> percentile_index rnd n fraction < int n"
  by (simp add: percentile_index_def)

lemma percentile_in_set: "vals \<noteq> [] \<Longrightarrow> \<exists>x\<in>set vals. percentile rnd vals fraction = Some x"
  using percentile_index_bounds [of "length vals" rnd fraction] nth_mem [of _ "sort vals"]
  by (simp add: percentile_def nat_less_iff)

context float_rounding
begin

lemma percentile_index_mono:
  "0 < n \<Longrightarrow> f \<le> g \<Longrightarrow> percentile_index rnd n f \<le> percentile_index rnd n g"
  unfolding percentile_index_def
  by (intro min.mono max.mono order_refl round_half_even_mono rnd_mono mult_left_mono) simp_all

lemma percentile_index_ends:
  assumes "0 < n" "n \<le> 2 ^ 53"
  shows "percentile_index rnd n 0 = 0" "percentile_index rnd n 1 = int n - 1"
proof -
  have "\<bar>int n - 1\<bar> \<le> 2 ^ 53" using assms by simp
  from rnd_int [OF this] have "rnd (of_int (int n - 1) * 1) = of_int (int n - 1)" by simp
  then show "percentile_index rnd n 1 = int n - 1"
    unfolding percentile_index_def by (simp only: round_half_even_int)
  show "percentile_index rnd n 0 = 0"
    using assms round_half_even_int [of 0] by (simp add: percentile_index_def rnd_0)
qed

lemma percentile_monotone:
  assumes "vals \<noteq> []" "f \<le> g"
  shows "the (percentile rnd vals f) \<le> the (percentile rnd vals g)"
proof -
  have n: "0 < length vals" using assms(1) by simp
  have "nat (percentile_index rnd (length vals) f) \<le> nat (percentile_index rnd (length vals) g)"
    using percentile_index_mono [OF n assms(2)] by simp
  moreover have "nat (percentile_index rnd (length vals) g) < length (sort vals)"
    using percentile_index_bounds [OF n, of rnd g] by (simp add: nat_less_iff)
  ultimately show ?thesis using assms(1) by (simp add: percentile_def sorted_nth_mono)
qed

end

section \<open>What the accumulator keeps\<close>

text \<open>
  The accumulator after a list: count, extrema and the rounded running total are exact for any
  number of values, and until the sample is full it is the whole list, so that the quantiles are
  those of the list.
\<close>

definition online_of :: "(rat \<Rightarrow> rat) \<Rightarrow> int \<Rightarrow> rat list \<Rightarrow> online_stats \<Rightarrow> bool" where
  "online_of rnd cap vals s \<longleftrightarrow>
     on_count s = int (length vals) \<and> on_sample_size s = cap \<and>
     on_sample_stride s = max 1 (cap div 1000) \<and>
     on_total s = foldl (\<lambda>t v. rnd (t + rnd v)) 0 vals \<and>
     on_minimum s = extreme_of min vals \<and> on_maximum s = extreme_of max vals \<and>
     length (on_sample s) = min (nat cap) (length vals) \<and>
     (length vals \<le> nat cap \<longrightarrow> on_sample s = vals)"

lemma extreme_of_append: "extreme_of b (vals @ [v]) = Some (case extreme_of b vals of None \<Rightarrow> v | Some m \<Rightarrow> b m v)"
  by (cases vals) (simp_all add: extreme_of_def)

lemma online_of_init: "online_of rnd cap [] (online_init cap)"
  by (simp add: online_of_def online_init_def extreme_of_def)

lemma sample_add_ok:
  assumes "0 < cap" "length sample \<le> nat cap" "length sample = nat cap \<or> sample = vals"
  shows "\<exists>sample'. sample_add cap stride count v sample = Inr sample' \<and>
    length sample' = min (nat cap) (length sample + 1) \<and>
    (length sample < nat cap \<longrightarrow> sample' = sample @ [v])"
proof (cases "int (length sample) < cap")
  case True
  then show ?thesis by (simp add: sample_add_def)
next
  case False
  then have full: "length sample = nat cap" using assms by linarith
  have "nat (count div stride mod cap) < length sample"
    using assms(1) full by (simp add: nat_less_iff)
  then show ?thesis using False assms(1) full by (simp add: sample_add_def)
qed

lemma online_add_ok:
  assumes "0 < cap" "online_of rnd cap vals s"
  shows "\<exists>s'. online_add rnd v s = Inr s' \<and> online_of rnd cap (vals @ [v]) s'"
proof -
  have len: "length (on_sample s) \<le> nat cap" "length (on_sample s) = nat cap \<or> on_sample s = vals"
    using assms by (auto simp: online_of_def min_def)
  obtain sample where sample:
    "sample_add cap (on_sample_stride s) (on_count s + 1) v (on_sample s) = Inr sample"
    "length sample = min (nat cap) (length (on_sample s) + 1)"
    "length (on_sample s) < nat cap \<longrightarrow> sample = on_sample s @ [v]"
    using sample_add_ok [OF assms(1) len] by blast
  then show ?thesis
    using assms(2) by (auto simp: online_add_def online_of_def Let_def extreme_of_append)
qed

lemma online_add_fold:
  assumes "0 < cap"
  shows "\<exists>s. fold_result (\<lambda>s v. online_add rnd v s) (online_init cap) vals = Inr s \<and> online_of rnd cap vals s"
proof (induction vals rule: rev_induct)
  case Nil
  then show ?case by (simp add: online_of_init)
next
  case (snoc v vals)
  then obtain s where "fold_result (\<lambda>s v. online_add rnd v s) (online_init cap) vals = Inr s" "online_of rnd cap vals s"
    by blast
  with online_add_ok [OF assms this(2), of v] show ?case by (auto simp: fold_result_append)
qed

context float_rounding
begin

lemma int_mean_small:
  assumes "\<forall>n\<in>set ns. \<bar>n\<bar> \<le> 2 ^ 53"
  shows "int_mean_of rnd (map of_int ns) = mean_of rnd (map of_int ns)"
proof -
  let ?m = "sum_list (map rat_of_int ns) / of_int (int (length ns))"
  have whole: "sum_list (map rat_of_int ns) = of_int (sum_list ns)" by (induction ns) simp_all
  have "\<bar>sum_list ns\<bar> \<le> 2 ^ 53 * int (length ns)"
    using assms by (induction ns) (auto simp: distrib_left abs_le_iff)
  then have "rat_of_int \<bar>sum_list ns\<bar> \<le> of_int (2 ^ 53 * int (length ns))" by (simp only: of_int_le_iff)
  then have "\<bar>?m\<bar> \<le> of_int (2 ^ 53)" unfolding whole by (cases ns; simp add: divide_le_eq abs_divide)
  moreover have "rnd x = x" if "\<bar>x\<bar> \<le> of_int (2 ^ 53)" "of_int \<lfloor>x\<rfloor> = x" for x
  proof -
    have "rat_of_int \<bar>\<lfloor>x\<rfloor>\<bar> \<le> of_int (2 ^ 53)" unfolding of_int_abs that(2) by (rule that(1))
    then have "\<bar>\<lfloor>x\<rfloor>\<bar> \<le> 2 ^ 53" by (simp only: of_int_le_iff)
    then show ?thesis using rnd_int [of "\<lfloor>x\<rfloor>"] that(2) by simp
  qed
  ultimately have "of_int \<lfloor>?m\<rfloor> = ?m \<Longrightarrow> rnd ?m = ?m" by blast
  then show ?thesis by (simp add: int_mean_of_def mean_of_def Let_def)
qed

end

lemma online_quantiles:
  assumes "online_of rnd cap vals s" "length vals \<le> nat cap"
  shows "distribution rnd add avg (on_sample s) = distribution rnd add avg vals"
  using assms by (simp add: online_of_def)

end
