(* ===== verification/Performance_Metrics.thy ===== *)
theory Performance_Metrics
  imports Paper_Accounts Arrival_Statistics Session_Calendar
begin

text \<open>
  \<open>tools/backtest/metrics.py\<close>: daily results, drawdowns and the summary of a finished run. Days are
  ordinals where the source has ISO text (the two order days alike). \<open>sum\<close> of floats is an
  argument, since the interpreter decides it: it adds from the left up to Python 3.11 and
  compensates from 3.12 on (\<open>sum_left\<close>, \<open>sum_compensated\<close>). Square root, power and standard
  deviation of floats are the fields of \<open>float_math\<close>.
\<close>

section \<open>Daily results\<close>

record daily_row =
  dy_date :: int
  dy_equity :: rat
  dy_pnl :: rat

definition points_by_date :: "(int \<Rightarrow> local_time) \<Rightarrow> equity_point list \<Rightarrow> (int \<times> equity_point) list" where
  "points_by_date clock curve =
     foldl (\<lambda>d p. AList.update (session_date clock (eq_timestamp_ns p)) p d) [] curve"

fun daily_rows :: "(rat \<Rightarrow> rat) \<Rightarrow> rat option \<Rightarrow> (int \<times> equity_point) list \<Rightarrow> daily_row list" where
  "daily_rows rnd previous [] = []"
| "daily_rows rnd previous ((day, p) # rest) =
     \<lparr>dy_date = day, dy_equity = eq_equity p,
      dy_pnl = rnd (eq_equity p - (case previous of None \<Rightarrow> eq_equity p | Some e \<Rightarrow> e))\<rparr> #
     daily_rows rnd (Some (eq_equity p)) rest"

definition daily_pnl_series ::
  "(rat \<Rightarrow> rat) \<Rightarrow> (int \<Rightarrow> local_time) \<Rightarrow> rat option \<Rightarrow> equity_point list \<Rightarrow> daily_row list" where
  "daily_pnl_series rnd clock starting_equity curve =
     daily_rows rnd starting_equity (sort_key fst (points_by_date clock curve))"

section \<open>Drawdowns\<close>

record drawdown_row =
  dd_timestamp_ns :: int
  dd_equity :: rat
  dd_high_water :: rat
  dd_drawdown :: rat
  dd_drawdown_pct :: rat

fun drawdown_rows :: "(rat \<Rightarrow> rat) \<Rightarrow> rat option \<Rightarrow> equity_point list \<Rightarrow> drawdown_row list" where
  "drawdown_rows rnd high_water [] = []"
| "drawdown_rows rnd high_water (p # rest) =
     (let high = (case high_water of None \<Rightarrow> eq_equity p | Some h \<Rightarrow> max h (eq_equity p)) in
      \<lparr>dd_timestamp_ns = eq_timestamp_ns p, dd_equity = eq_equity p, dd_high_water = high,
       dd_drawdown = rnd (eq_equity p - high),
       dd_drawdown_pct = (if high \<noteq> 0 then rnd (rnd (eq_equity p / high) - 1) else 0)\<rparr> #
      drawdown_rows rnd (Some high) rest)"

definition equity_drawdown :: "(rat \<Rightarrow> rat) \<Rightarrow> equity_point list \<Rightarrow> drawdown_row list" where
  "equity_drawdown rnd curve = drawdown_rows rnd None curve"

definition duration_step :: "int option \<times> int \<Rightarrow> drawdown_row \<Rightarrow> int option \<times> int" where
  "duration_step acc row =
     (let (start, maximum) = acc;
          start = (if dd_drawdown row < 0 \<and> start = None then Some (dd_timestamp_ns row) else start)
      in case start of
           Some t \<Rightarrow> if dd_drawdown row = 0 then (None, max maximum (dd_timestamp_ns row - t)) else (start, maximum)
         | None \<Rightarrow> (start, maximum))"

definition max_drawdown_duration :: "drawdown_row list \<Rightarrow> int" where
  "max_drawdown_duration rows =
     (case foldl duration_step (None, 0) rows of
        (Some t, maximum) \<Rightarrow> if rows = [] then maximum else max maximum (dd_timestamp_ns (last rows) - t)
      | (None, maximum) \<Rightarrow> maximum)"

section \<open>The summary\<close>

datatype metric = NotAvailable | Value rat | Infinite

record symbol_pnl =
  sy_trades :: int
  sy_net_pnl :: rat
  sy_gross_pnl :: rat
  sy_costs :: rat

definition add_trade :: "(rat \<Rightarrow> rat) \<Rightarrow> (int \<times> symbol_pnl) list \<Rightarrow> completed_trade \<Rightarrow> (int \<times> symbol_pnl) list" where
  "add_trade rnd by_symbol t =
     (let item = (case map_of by_symbol (tr_symbol_id t) of
          None \<Rightarrow> \<lparr>sy_trades = 0, sy_net_pnl = 0, sy_gross_pnl = 0, sy_costs = 0\<rparr> | Some i \<Rightarrow> i)
      in AList.update (tr_symbol_id t)
           \<lparr>sy_trades = sy_trades item + 1, sy_net_pnl = rnd (sy_net_pnl item + tr_net_pnl t),
            sy_gross_pnl = rnd (sy_gross_pnl item + tr_gross_pnl t),
            sy_costs = rnd (sy_costs item + tr_costs t)\<rparr> by_symbol)"

definition sum_left :: "(rat \<Rightarrow> rat) \<Rightarrow> rat list \<Rightarrow> rat" where
  "sum_left rnd = foldl (\<lambda>acc x. rnd (acc + x)) 0"

fun compensated :: "(rat \<Rightarrow> rat) \<Rightarrow> rat \<Rightarrow> rat \<Rightarrow> rat list \<Rightarrow> rat" where
  "compensated rnd acc c [] = (if c \<noteq> 0 then rnd (acc + c) else acc)"
| "compensated rnd acc c (x # xs) =
     (let t = rnd (acc + x);
          low = (if \<bar>x\<bar> \<le> \<bar>acc\<bar> then rnd (rnd (acc - t) + x) else rnd (rnd (x - t) + acc))
      in compensated rnd t (rnd (c + low)) xs)"

definition sum_compensated :: "(rat \<Rightarrow> rat) \<Rightarrow> rat list \<Rightarrow> rat" where
  "sum_compensated rnd = compensated rnd 0 0"

lemma compensated_exact: "compensated (\<lambda>x. x) acc 0 xs = foldl (+) acc xs"
  by (induction xs arbitrary: acc) (simp_all add: Let_def)

lemma sums_agree_exactly: "sum_compensated (\<lambda>x. x) = sum_left (\<lambda>x. x)"
  by (simp add: fun_eq_iff sum_compensated_def sum_left_def compensated_exact)

definition mean_metric :: "(rat \<Rightarrow> rat) \<Rightarrow> rat list \<Rightarrow> metric" where
  "mean_metric rnd vals = (if vals = [] then NotAvailable else Value (mean_of rnd vals))"

definition extreme_metric :: "(rat \<Rightarrow> rat \<Rightarrow> rat) \<Rightarrow> rat list \<Rightarrow> metric" where
  "extreme_metric better vals = (case extreme_of better vals of None \<Rightarrow> NotAvailable | Some x \<Rightarrow> Value x)"

record trade_summary =
  rn_total_net_pnl :: rat
  rn_total_gross_pnl :: rat
  rn_total_costs :: rat
  rn_total_slippage_cost :: rat
  rn_trade_count :: int
  rn_long_trades :: int
  rn_short_trades :: int
  rn_win_rate :: metric
  rn_average_trade_pnl :: metric
  rn_average_winner :: metric
  rn_average_loser :: metric
  rn_largest_win :: metric
  rn_largest_loss :: metric
  rn_profit_factor :: metric
  rn_average_holding_seconds :: metric
  rn_turnover :: rat
  rn_pnl_by_symbol :: "(string \<times> symbol_pnl) list"

definition trade_summary_of ::
  "(rat \<Rightarrow> rat) \<Rightarrow> (rat list \<Rightarrow> rat) \<Rightarrow> completed_trade list \<Rightarrow> trade_summary" where
  "trade_summary_of rnd summed trades =
     (let net = map tr_net_pnl trades; winners = filter (\<lambda>x. x > 0) net; losers = filter (\<lambda>x. x < 0) net;
          count = int (length trades) in
      \<lparr>rn_total_net_pnl = summed net, rn_total_gross_pnl = summed (map tr_gross_pnl trades),
       rn_total_costs = summed (map tr_costs trades),
       rn_total_slippage_cost = summed (map tr_slippage_cost trades), rn_trade_count = count,
       rn_long_trades = int (length (filter (\<lambda>t. tr_direction t = ''long'') trades)),
       rn_short_trades = int (length (filter (\<lambda>t. tr_direction t = ''short'') trades)),
       rn_win_rate = (if trades = [] then NotAvailable
         else Value (rnd (of_int (int (length winners)) / of_int count))),
       rn_average_trade_pnl = mean_metric rnd net, rn_average_winner = mean_metric rnd winners,
       rn_average_loser = mean_metric rnd losers,
       rn_largest_win = extreme_metric max winners, rn_largest_loss = extreme_metric min losers,
       rn_profit_factor =
         (if losers \<noteq> [] then Value (rnd (summed winners / \<bar>summed losers\<bar>))
          else if winners = [] then NotAvailable else Infinite),
       rn_average_holding_seconds = (if trades = [] then NotAvailable
         else Value (rnd (int_mean_of rnd (map (\<lambda>t. of_int (tr_holding_duration_ns t)) trades) / 1000000000))),
       rn_turnover = foldl (\<lambda>acc x. rnd (acc + x)) 0
         (map (\<lambda>t. dollars_of rnd (tr_entry_price t + tr_exit_price t) (tr_quantity t)) trades),
       rn_pnl_by_symbol = map (\<lambda>(s, item). (py_str_int s, item))
         (sort_key fst (foldl (add_trade rnd) [] trades))\<rparr>)"

text \<open>\<open>returns\<close>: the daily returns on a non-zero previous equity.\<close>

fun daily_returns :: "(rat \<Rightarrow> rat) \<Rightarrow> rat \<Rightarrow> daily_row list \<Rightarrow> rat list" where
  "daily_returns rnd previous [] = []"
| "daily_returns rnd previous (row # rows) =
     (if previous \<noteq> 0 then rnd (rnd (dy_equity row / previous) - 1) # daily_returns rnd (dy_equity row) rows
      else daily_returns rnd (dy_equity row) rows)"

text \<open>\<open>_risk_metrics\<close>, with its warnings.\<close>

record float_math =
  fm_sqrt :: "rat \<Rightarrow> rat"
  fm_pow :: "rat \<Rightarrow> nat \<Rightarrow> rat"
  fm_pstdev :: "rat list \<Rightarrow> rat"

record risk_ratios =
  rk_sharpe :: "rat option"
  rk_sortino :: "rat option"
  rk_calmar :: "rat option"

definition no_drawdown_warning :: string where
  "no_drawdown_warning = ''Calmar is unavailable because no drawdown was observed.''"

definition short_sample_warning :: string where
  "short_sample_warning =
     ''Sharpe/Sortino/Calmar are withheld for short samples (<20 daily observations or <5 calendar days).''"

definition risk_metrics ::
  "(rat \<Rightarrow> rat) \<Rightarrow> (rat list \<Rightarrow> rat) \<Rightarrow> float_math \<Rightarrow> rat list \<Rightarrow> rat \<Rightarrow> rat \<Rightarrow> string list \<Rightarrow>
     risk_ratios \<times> string list" where
  "risk_metrics rnd summed fm returns max_dd_pct span_days warnings =
     (if length returns < 20 \<or> span_days < 5
      then (\<lparr>rk_sharpe = None, rk_sortino = None, rk_calmar = None\<rparr>, warnings)
      else
        let daily_mean = mean_of rnd returns;
            daily_std = fm_pstdev fm returns;
            downside = map (\<lambda>v. min v 0) returns;
            downside_dev = fm_sqrt fm (rnd (summed (map (\<lambda>v. rnd (v * v)) downside) / of_int (int (length downside))));
            annualized = rnd (fm_pow fm (rnd (1 + daily_mean)) 252 - 1)
        in (\<lparr>rk_sharpe = (if daily_std \<noteq> 0
                then Some (rnd (rnd (daily_mean / daily_std) * fm_sqrt fm 252)) else None),
             rk_sortino = (if downside_dev \<noteq> 0
                then Some (rnd (rnd (daily_mean / downside_dev) * fm_sqrt fm 252)) else None),
             rk_calmar = (if max_dd_pct < 0 then Some (rnd (annualized / \<bar>max_dd_pct\<bar>)) else None)\<rparr>,
            if 0 \<le> max_dd_pct then warnings @ [no_drawdown_warning] else warnings))"

record run_summary = trade_summary +
  rn_starting_cash :: rat
  rn_ending_equity :: rat
  rn_total_return :: metric
  rn_max_drawdown :: rat
  rn_max_drawdown_pct :: rat
  rn_max_drawdown_duration_seconds :: rat
  rn_average_gross_exposure :: rat
  rn_maximum_gross_exposure :: rat
  rn_average_concurrent_positions :: rat
  rn_daily_pnl :: "daily_row list"
  rn_risk_adjusted :: risk_ratios
  rn_warnings :: "string list"

definition lowest :: "rat list \<Rightarrow> rat" where
  "lowest vals = (case extreme_of min vals of None \<Rightarrow> 0 | Some x \<Rightarrow> x)"

definition compute_metrics ::
  "(rat \<Rightarrow> rat) \<Rightarrow> (rat list \<Rightarrow> rat) \<Rightarrow> float_math \<Rightarrow> (int \<Rightarrow> local_time) \<Rightarrow> rat \<Rightarrow>
     completed_trade list \<Rightarrow> equity_point list \<Rightarrow> run_summary" where
  "compute_metrics rnd summed fm clock starting_cash trades curve =
     (let summary = trade_summary_of rnd summed trades;
          daily = daily_pnl_series rnd clock (Some starting_cash) curve;
          rows = equity_drawdown rnd curve;
          exposure = map eq_gross_exposure curve;
          open_counts = map (\<lambda>p. of_int (eq_open_positions p)) curve;
          span_days = (if length curve > 1
            then rnd (of_int (eq_timestamp_ns (last curve) - eq_timestamp_ns (hd curve)) / 86400000000000) else 0);
          max_dd_pct = lowest (map dd_drawdown_pct rows);
          (risk, warnings) = risk_metrics rnd summed fm (daily_returns rnd starting_cash daily) max_dd_pct span_days
            (if length daily < 20 \<or> span_days < 5 then [short_sample_warning] else [])
      in trade_summary.extend summary (run_summary.fields starting_cash
           (if curve = [] then starting_cash else eq_equity (last curve))
           (if starting_cash \<noteq> 0 then Value (rnd (rn_total_net_pnl summary / starting_cash)) else NotAvailable)
           (lowest (map dd_drawdown rows)) max_dd_pct
           (rnd (of_int (max_drawdown_duration rows) / 1000000000))
           (if exposure = [] then 0 else mean_of rnd exposure)
           (case extreme_of max exposure of None \<Rightarrow> 0 | Some x \<Rightarrow> x)
           (if open_counts = [] then 0 else int_mean_of rnd open_counts)
           daily risk warnings))"

section \<open>The summary and the account\<close>

lemma extreme_min_in: "extreme_of min vals = Some (x :: 'a::linorder) \<Longrightarrow> x \<in> set vals"
  by (induction vals arbitrary: x rule: rev_induct)
    (simp add: extreme_of_def, auto simp: extreme_of_append min_def split: option.splits if_splits)

lemma lowest_cases: "lowest vals = 0 \<or> lowest vals \<in> set vals"
  by (auto simp: lowest_def extreme_min_in split: option.split)

lemma drawdown_row_origin:
  assumes "row \<in> set (drawdown_rows rnd high_water curve)"
  shows "\<exists>j<length curve. \<exists>h. dd_drawdown row = rnd (eq_equity (curve ! j) - h) \<and> eq_equity (curve ! j) \<le> h \<and>
    (high_water = Some h \<or> (\<exists>i\<le>j. h = eq_equity (curve ! i)))"
  using assms
proof (induction curve arbitrary: high_water)
  case Nil
  then show ?case by simp
next
  case (Cons p rest)
  define high where "high = (case high_water of None \<Rightarrow> eq_equity p | Some h \<Rightarrow> max h (eq_equity p))"
  have high: "eq_equity p \<le> high" "high_water = Some high \<or> high = eq_equity p"
    by (auto simp: high_def max_def split: option.split)
  from Cons.prems consider "dd_drawdown row = rnd (eq_equity p - high)"
    | "row \<in> set (drawdown_rows rnd (Some high) rest)"
    by (auto simp: Let_def high_def)
  then show ?case
  proof cases
    case 1
    then show ?thesis using high by (intro exI [of _ 0]) auto
  next
    case 2
    from Cons.IH [OF this] obtain j h where j: "j < length rest" "dd_drawdown row = rnd (eq_equity (rest ! j) - h)"
      "eq_equity (rest ! j) \<le> h" "h = high \<or> (\<exists>i\<le>j. h = eq_equity (rest ! i))" by auto
    have "high_water = Some h \<or> (\<exists>i\<le>Suc j. h = eq_equity ((p # rest) ! i))"
      using j(4) high(2) by (metis Suc_le_mono nth_Cons_0 nth_Cons_Suc zero_le)
    then show ?thesis using j(1-3) by (intro exI [of _ "Suc j"]) auto
  qed
qed

context float_rounding
begin

lemma lowest_drawdown: "lowest (map dd_drawdown (equity_drawdown rnd curve)) \<le> 0"
proof -
  have "dd_drawdown row \<le> 0" if "row \<in> set (equity_drawdown rnd curve)" for row
    using drawdown_row_origin [OF that [unfolded equity_drawdown_def]] rnd_nonpos by auto
  then show ?thesis using lowest_cases [of "map dd_drawdown (equity_drawdown rnd curve)"] by auto
qed

lemma drawdown_reported:
  assumes "drawdown_law rnd pf"
  shows "pf_maximum_drawdown pf \<le> lowest (map dd_drawdown (equity_drawdown rnd (pf_equity_curve pf))) \<and>
    lowest (map dd_drawdown (equity_drawdown rnd (pf_equity_curve pf))) \<le> 0"
proof -
  have "pf_maximum_drawdown pf \<le> dd_drawdown row \<and> dd_drawdown row \<le> 0"
    if "row \<in> set (equity_drawdown rnd (pf_equity_curve pf))" for row
    using drawdown_row_origin [OF that [unfolded equity_drawdown_def]] assms rnd_nonpos
    by (auto simp: drawdown_law_def)
  then show ?thesis
    using lowest_cases [of "map dd_drawdown (equity_drawdown rnd (pf_equity_curve pf))"] assms
    by (auto simp: drawdown_law_def)
qed

end

lemma compute_metrics_fields:
  "rn_total_net_pnl (compute_metrics rnd summed fm clock cash trades curve) = summed (map tr_net_pnl trades)"
  "rn_trade_count (compute_metrics rnd summed fm clock cash trades curve) = int (length trades)"
  "rn_long_trades (compute_metrics rnd summed fm clock cash trades curve) =
     int (length (filter (\<lambda>t. tr_direction t = ''long'') trades))"
  "rn_short_trades (compute_metrics rnd summed fm clock cash trades curve) =
     int (length (filter (\<lambda>t. tr_direction t = ''short'') trades))"
  "rn_max_drawdown (compute_metrics rnd summed fm clock cash trades curve) =
     lowest (map dd_drawdown (equity_drawdown rnd curve))"
  "rn_ending_equity (compute_metrics rnd summed fm clock cash trades curve) =
     (if curve = [] then cash else eq_equity (last curve))"
  "rn_daily_pnl (compute_metrics rnd summed fm clock cash trades curve) =
     daily_pnl_series rnd clock (Some cash) curve"
  by (simp_all add: compute_metrics_def trade_summary_of_def Let_def split_beta trade_summary.defs run_summary.defs)

lemma realized_is_sum: "realized_of rnd trades = sum_left rnd (map tr_net_pnl trades)"
  by (simp add: realized_of_def sum_left_def foldl_map)

text \<open>The summary and the account agree on every reachable desk.\<close>

lemma summary_of_desk:
  assumes "desk_reachable fl64 pc xc d"
  shows "let m = compute_metrics fl64 (sum_left fl64) fm clock (pc_starting_cash pc)
                   (pf_completed_trades (dk_portfolio d)) (pf_equity_curve (dk_portfolio d)) in
    rn_total_net_pnl m = pf_realized_pnl (dk_portfolio d) \<and>
    rn_long_trades m + rn_short_trades m = rn_trade_count m \<and>
    pf_maximum_drawdown (dk_portfolio d) \<le> rn_max_drawdown m \<and> rn_max_drawdown m \<le> 0"
proof -
  have "\<forall>t\<in>set (pf_completed_trades (dk_portfolio d)). tr_direction t = ''long'' \<or> tr_direction t = ''short''"
    using reachable_books [OF assms] by (auto simp: book_inv_def trade_ok_def allowed_direction_def)
  then have "length (filter (\<lambda>t. tr_direction t = ''long'') ts) + length (filter (\<lambda>t. tr_direction t = ''short'') ts)
      = length ts" if "set ts \<subseteq> set (pf_completed_trades (dk_portfolio d))" for ts
    using that by (induction ts) auto
  then show ?thesis
    using realized.reachable_law [OF assms] binary64.drawdown_reported [OF binary64.drawdown.reachable_law [OF assms]]
    by (simp add: Let_def compute_metrics_fields realized_law_def realized_is_sum flip: of_nat_add)
qed

section \<open>The daily results\<close>

lemma update_end:
  assumes "sorted_wrt (<) (map fst (q @ [(k', v')]))" "(k' :: int) \<le> k"
  shows "AList.update k v (q @ [(k', v')]) = (if k = k' then q @ [(k, v)] else q @ [(k', v'), (k, v)])"
  using assms by (induction q) (auto simp: sorted_wrt_append)

lemma points_by_date_append:
  "points_by_date clock (curve @ [p]) =
     AList.update (session_date clock (eq_timestamp_ns p)) p (points_by_date clock curve)"
  by (simp add: points_by_date_def)

definition point_date :: "(int \<Rightarrow> local_time) \<Rightarrow> equity_point \<Rightarrow> int" where
  "point_date clock p = session_date clock (eq_timestamp_ns p)"

lemma points_by_date_sorted:
  assumes "sorted (map (point_date clock) curve)"
  shows "sorted_wrt (<) (map fst (points_by_date clock curve)) \<and>
    (curve \<noteq> [] \<longrightarrow> (\<exists>q. points_by_date clock curve = q @ [(point_date clock (last curve), last curve)]))"
  using assms
proof (induction curve rule: rev_induct)
  case Nil
  then show ?case by (simp add: points_by_date_def)
next
  case (snoc p curve)
  let ?day = "point_date clock p"
  note step = points_by_date_append [of clock curve p, folded point_date_def]
  have IH: "sorted_wrt (<) (map fst (points_by_date clock curve))"
    "curve \<noteq> [] \<Longrightarrow> \<exists>q. points_by_date clock curve = q @ [(point_date clock (last curve), last curve)]"
    using snoc by (auto simp: sorted_append)
  show ?case
  proof (cases "curve = []")
    case True
    then show ?thesis unfolding step by (simp add: points_by_date_def)
  next
    case False
    then obtain q where q: "points_by_date clock curve = q @ [(point_date clock (last curve), last curve)]"
      using IH(2) by blast
    have "point_date clock (last curve) \<le> ?day" using snoc.prems False by (simp add: sorted_append)
    from update_end [OF IH(1) [unfolded q] this, of p] IH(1) this show ?thesis
      unfolding step q by (auto simp: sorted_wrt_append)
  qed
qed

lemma daily_rows_sum:
  "e + (\<Sum>row\<leftarrow>daily_rows (\<lambda>x. x) (Some e) ps. dy_pnl row) = (if ps = [] then e else eq_equity (snd (last ps)))"
  by (induction ps arbitrary: e rule: list.induct) (auto split: prod.split simp: algebra_simps)

lemma daily_rows_dates: "map dy_date (daily_rows rnd e ps) = map fst ps"
  by (induction rnd e ps rule: daily_rows.induct) simp_all

lemma daily_series_sorted:
  assumes "sorted (map (point_date clock) curve)"
  shows "daily_pnl_series rnd clock e curve = daily_rows rnd e (points_by_date clock curve)"
  using points_by_date_sorted [OF assms]
  by (simp add: daily_pnl_series_def sort_key_id_if_sorted strict_sorted_imp_sorted)

lemma points_by_date_map:
  "map_of (points_by_date clock curve) day =
    (let days = filter (\<lambda>p. point_date clock p = day) curve in if days = [] then None else Some (last days))"
  by (induction curve rule: rev_induct)
    (auto simp: points_by_date_append points_by_date_def update_conv' point_date_def Let_def)

lemma points_by_date_keys:
  "fst ` set (points_by_date clock curve) = point_date clock ` set curve"
  by (induction curve rule: rev_induct)
    (auto simp: points_by_date_append points_by_date_def dom_update point_date_def)

lemma points_by_date_rows:
  assumes "sorted (map (point_date clock) curve)"
  shows "map fst (points_by_date clock curve) = sorted_list_of_set (point_date clock ` set curve)"
    "map (\<lambda>(day, p). eq_equity p) (points_by_date clock curve) =
      map (\<lambda>day. eq_equity (last (filter (\<lambda>p. point_date clock p = day) curve))) (sorted_list_of_set (point_date clock ` set curve))"
proof -
  have sorted: "sorted_wrt (<) (map fst (points_by_date clock curve))" using points_by_date_sorted [OF assms] by simp
  then show keys: "map fst (points_by_date clock curve) = sorted_list_of_set (point_date clock ` set curve)"
    using sorted_list_of_set.idem_if_sorted_distinct [of "map fst (points_by_date clock curve)"]
    by (simp add: strict_sorted_iff points_by_date_keys)
  have "eq_equity p = eq_equity (last (filter (\<lambda>p. point_date clock p = day) curve))"
    if "(day, p) \<in> set (points_by_date clock curve)" for day p
    using map_of_is_SomeI [OF _ that] sorted by (auto simp: points_by_date_map strict_sorted_iff Let_def split: if_splits)
  then show "map (\<lambda>(day, p). eq_equity p) (points_by_date clock curve) =
      map (\<lambda>day. eq_equity (last (filter (\<lambda>p. point_date clock p = day) curve))) (sorted_list_of_set (point_date clock ` set curve))"
    unfolding keys [symmetric] by auto
qed

lemma daily_rows_equities: "map dy_equity (daily_rows rnd e ps) = map (\<lambda>(day, p). eq_equity p) ps"
  by (induction rnd e ps rule: daily_rows.induct) simp_all

text \<open>
  C38: When the session dates never go back along the equity curve, the daily results are exactly one row
  for each session date of the curve, in order, each with the equity of the last point of its date, and
  in exact arithmetic they account for the whole run: the starting cash plus the daily results is the
  ending equity of the summary, whatever \<open>sum\<close> is.
\<close>

theorem daily_results_telescope:
  assumes "sorted (map (point_date clock) curve)"
  shows "let m = compute_metrics (\<lambda>x. x) summed fm clock cash trades curve;
      dates = sorted_list_of_set (point_date clock ` set curve) in
    cash + (\<Sum>row\<leftarrow>rn_daily_pnl m. dy_pnl row) = rn_ending_equity m \<and>
    map dy_date (rn_daily_pnl m) = dates \<and>
    map dy_equity (rn_daily_pnl m) = map (\<lambda>day. eq_equity (last (filter (\<lambda>p. point_date clock p = day) curve))) dates"
proof -
  have "points_by_date clock curve = [] \<longleftrightarrow> curve = []"
    using points_by_date_sorted [OF assms] by (cases "curve = []") (auto simp: points_by_date_def)
  then show ?thesis
    using points_by_date_sorted [OF assms] points_by_date_rows [OF assms]
    by (auto simp: Let_def compute_metrics_fields daily_series_sorted [OF assms] daily_rows_sum daily_rows_dates
        daily_rows_equities)
qed

text \<open>Some functions for the samples, too short for the ratios to be computed.\<close>

definition demo_math :: float_math where
  "demo_math = \<lparr>fm_sqrt = (\<lambda>x. x), fm_pow = (\<lambda>x n. x ^ n), fm_pstdev = (\<lambda>_. 0)\<rparr>"

definition demo_curve :: "equity_point list" where
  "demo_curve = map (\<lambda>(t, e). \<lparr>eq_timestamp_ns = t, eq_cash = e, eq_equity = e, eq_realized_pnl = 0,
     eq_unrealized_pnl = 0, eq_gross_exposure = 0, eq_net_exposure = 0, eq_open_positions = 0\<rparr>)
     [(1, 100), (2, 90), (86400000000001, 120), (86400000000002, 95)]"

definition utc_clock :: "int \<Rightarrow> local_time" where
  "utc_clock t = \<lparr>lt_year = 1970, lt_day = t div 86400000000000, lt_time = t mod 86400000000000\<rparr>"

theorem daily_results_telescope_witness:
  "let m = compute_metrics (\<lambda>x. x) (sum_left (\<lambda>x. x)) demo_math utc_clock 80 [] demo_curve in
    map dy_pnl (rn_daily_pnl m) = [10, 5] \<and> 80 + (\<Sum>row\<leftarrow>rn_daily_pnl m. dy_pnl row) = 95 \<and>
    rn_ending_equity m = 95"
proof -
  have "sorted (map (point_date utc_clock) demo_curve)" by code_simp
  note daily_results_telescope [OF this, of "sum_left (\<lambda>x. x)" demo_math 80 "[]"]
  moreover have "rn_ending_equity (compute_metrics (\<lambda>x. x) (sum_left (\<lambda>x. x)) demo_math utc_clock 80 [] demo_curve) = 95"
    by (simp add: compute_metrics_fields demo_curve_def)
  moreover have "map dy_pnl (rn_daily_pnl (compute_metrics (\<lambda>x. x) (sum_left (\<lambda>x. x)) demo_math utc_clock 80 [] demo_curve)) = [10, 5]"
    unfolding compute_metrics_fields by code_simp
  ultimately show ?thesis by (simp add: Let_def)
qed

end
