(* ===== verification/Forward_Returns.thy ===== *)
theory Forward_Returns
  imports Replay_Pipeline Arrival_Statistics "HOL-Library.List_Lexorder" "HOL-Library.Char_ord"
begin

text \<open>
  \<open>tools/backtest/forward_returns.py\<close>: what each candidate would have earned, from the quote at its
  time to the first quote at or after each horizon, and the statistics of those returns by group.
  The groups are printed in the order of \<open>str\<close> of their items, which prints floats; that text is the
  argument \<open>item_text\<close>.
\<close>

section \<open>Rows\<close>

definition HORIZONS_NS :: "(string \<times> int) list" where
  "HORIZONS_NS =
     [(''100ms'', 100000000), (''500ms'', 500000000), (''1s'', 1000000000), (''5s'', 5000000000),
      (''15s'', 15000000000), (''30s'', 30000000000), (''60s'', 60000000000), (''5min'', 300000000000)]"

record forward_return_row =
  fr_candidate_timestamp_ns :: int
  fr_symbol_id :: int
  fr_direction :: string
  fr_score :: int
  fr_reason_bits :: int
  fr_horizon :: string
  fr_horizon_ns :: int
  fr_return_bps :: "rat option"

definition symbol_points :: "quote_point list \<Rightarrow> int \<Rightarrow> quote_point list" where
  "symbol_points quote_points symbol_id =
     filter (\<lambda>p. qp_symbol_id p = symbol_id)
       (sort_key (\<lambda>p. (qp_symbol_id p, qp_timestamp_ns p)) quote_points)"

definition forward_entry_price :: "string \<Rightarrow> quote_point \<Rightarrow> int option" where
  "forward_entry_price direction p =
     (let price = (if direction = ''long'' then qp_ask_price p else qp_bid_price p)
      in if price > 0 then Some price else None)"

definition forward_exit_price :: "string \<Rightarrow> quote_point \<Rightarrow> int" where
  "forward_exit_price direction p = (if direction = ''long'' then qp_bid_price p else qp_ask_price p)"

text \<open>The last point of the list not after the candidate with a usable price.\<close>

definition current_point :: "int \<Rightarrow> quote_point list \<Rightarrow> string \<Rightarrow> quote_point option" where
  "current_point timestamp_ns points direction =
     List.find (\<lambda>p. qp_timestamp_ns p \<le> timestamp_ns \<and> forward_entry_price direction p \<noteq> None) (rev points)"

definition return_bps :: "(rat \<Rightarrow> rat) \<Rightarrow> string \<Rightarrow> int \<Rightarrow> int \<Rightarrow> rat" where
  "return_bps rnd direction entry_price exit_price =
     rnd (rnd (of_int (if direction = ''long'' then exit_price - entry_price else entry_price - exit_price)
               / of_int entry_price) * 10000)"

definition forward_return ::
  "(rat \<Rightarrow> rat) \<Rightarrow> int \<Rightarrow> quote_point list \<Rightarrow> string \<Rightarrow> int \<Rightarrow> rat option" where
  "forward_return rnd timestamp_ns points direction horizon_ns =
     (case Option.bind (current_point timestamp_ns points direction) (forward_entry_price direction) of
        None \<Rightarrow> None
      | Some entry_price \<Rightarrow>
          map_option (\<lambda>future. return_bps rnd direction entry_price (forward_exit_price direction future))
            (List.find (\<lambda>p. timestamp_ns + horizon_ns \<le> qp_timestamp_ns p \<and> forward_exit_price direction p > 0) points))"

definition candidate_rows ::
  "(rat \<Rightarrow> rat) \<Rightarrow> (string \<times> int) list \<Rightarrow> quote_point list \<Rightarrow> candidate_signal \<Rightarrow> forward_return_row list" where
  "candidate_rows rnd horizons quote_points cand =
     (if cs_action cand = 0 then []
      else
        let direction = (if cs_action cand = 1 then ''long'' else ''short'');
            points = symbol_points quote_points (cs_symbol_id cand)
        in map (\<lambda>(label, horizon_ns).
             \<lparr>fr_candidate_timestamp_ns = cs_timestamp_ns cand, fr_symbol_id = cs_symbol_id cand,
              fr_direction = direction, fr_score = cs_score cand, fr_reason_bits = cs_reason_bits cand,
              fr_horizon = label, fr_horizon_ns = horizon_ns,
              fr_return_bps = forward_return rnd (cs_timestamp_ns cand) points direction horizon_ns\<rparr>) horizons)"

section \<open>Groups\<close>

type_synonym return_group = "string \<times> int \<times> int \<times> int \<times> string"

record group_summary =
  gs_group :: return_group
  gs_count :: int
  gs_mean_bps :: rat
  gs_median_bps :: rat
  gs_win_fraction :: rat
  gs_quantiles_bps :: "(string \<times> rat option) list"

definition quantile :: "(rat \<Rightarrow> rat) \<Rightarrow> rat list \<Rightarrow> rat \<Rightarrow> rat option" where
  "quantile rnd vals fraction =
     (if vals = [] then None
      else let n = length vals; index = min (int n - 1) (round_half_even (rnd (of_int (int n - 1) * fraction)))
           in Some (sort vals ! nat index))"

definition group_rows :: "forward_return_row list \<Rightarrow> (return_group \<times> rat list) list" where
  "group_rows rows =
     foldl (\<lambda>groups row. case fr_return_bps row of None \<Rightarrow> groups
       | Some r \<Rightarrow>
           let k = (fr_direction row, fr_symbol_id row, fr_score row, fr_reason_bits row, fr_horizon row)
           in AList.update k ((case map_of groups k of None \<Rightarrow> [] | Some vals \<Rightarrow> vals) @ [r]) groups) [] rows"

definition summarize_group :: "(rat \<Rightarrow> rat) \<Rightarrow> return_group \<times> rat list \<Rightarrow> group_summary" where
  "summarize_group rnd item =
     (let (k, vals) = item in
      \<lparr>gs_group = k, gs_count = int (length vals), gs_mean_bps = mean_of rnd vals,
       gs_median_bps = median_by rnd (float_add rnd) vals,
       gs_win_fraction = rnd (of_int (int (length (filter (\<lambda>v. v > 0) vals))) / of_int (int (length vals))),
       gs_quantiles_bps = map (\<lambda>(label, q). (label, quantile rnd vals (rnd q)))
         [(''0.1'', 1 / 10), (''0.25'', 1 / 4), (''0.5'', 1 / 2), (''0.75'', 3 / 4), (''0.9'', 9 / 10)]\<rparr>)"

definition summarize_rows ::
  "(rat \<Rightarrow> rat) \<Rightarrow> (return_group \<times> rat list \<Rightarrow> string) \<Rightarrow> forward_return_row list \<Rightarrow> int \<times> group_summary list" where
  "summarize_rows rnd item_text rows =
     (int (length rows), map (summarize_group rnd) (sort_key item_text (group_rows rows)))"

definition analyze_forward ::
  "(rat \<Rightarrow> rat) \<Rightarrow> (return_group \<times> rat list \<Rightarrow> string) \<Rightarrow> (string \<times> int) list option \<Rightarrow>
     candidate_signal list \<Rightarrow> quote_point list \<Rightarrow> forward_return_row list \<times> int \<times> group_summary list" where
  "analyze_forward rnd item_text horizons candidates quote_points =
     (let horizons = (case horizons of None \<Rightarrow> HORIZONS_NS | Some h \<Rightarrow> if h = [] then HORIZONS_NS else h);
          rows = concat (map (candidate_rows rnd horizons quote_points) candidates)
      in (rows, summarize_rows rnd item_text rows))"

section \<open>No look-ahead\<close>

lemma find_sorted_first:
  assumes "List.find P xs = Some x" "sorted (map k xs)"
  shows "x \<in> set xs \<and> P x \<and> (\<forall>y\<in>set xs. P y \<longrightarrow> k x \<le> k y)"
  using assms by (induction xs) (auto split: if_splits)

lemma find_sorted_last:
  assumes "List.find P (rev xs) = Some x" "sorted (map k xs)"
  shows "x \<in> set xs \<and> P x \<and> (\<forall>y\<in>set xs. P y \<longrightarrow> k y \<le> k x)"
  using assms by (induction xs rule: rev_induct) (auto simp: sorted_append split: if_splits)

lemma sorted_symbol_points: "sorted (map qp_timestamp_ns (symbol_points quote_points s))"
proof -
  let ?key = "\<lambda>p. (qp_symbol_id p, qp_timestamp_ns p)"
  have "sorted (map ?key (symbol_points quote_points s))"
    unfolding symbol_points_def by (rule sorted_filter) simp
  then have "sorted_wrt (\<lambda>p q. ?key p \<le> ?key q) (symbol_points quote_points s)" by (simp only: sorted_map)
  then have "sorted_wrt (\<lambda>p q. qp_timestamp_ns p \<le> qp_timestamp_ns q) (symbol_points quote_points s)"
    by (rule sorted_wrt_mono_rel [rotated]) (auto simp: symbol_points_def less_eq_prod_simp)
  then show ?thesis by (simp only: sorted_map)
qed

lemma set_symbol_points: "set (symbol_points quote_points s) = {p \<in> set quote_points. qp_symbol_id p = s}"
  by (auto simp: symbol_points_def)

text \<open>The entry of a candidate: the latest usable quote of its symbol that is not in its future.\<close>

definition entry_quote :: "quote_point list \<Rightarrow> forward_return_row \<Rightarrow> quote_point \<Rightarrow> bool" where
  "entry_quote quote_points row p \<longleftrightarrow>
     p \<in> set quote_points \<and> qp_symbol_id p = fr_symbol_id row \<and> qp_timestamp_ns p \<le> fr_candidate_timestamp_ns row \<and>
     forward_entry_price (fr_direction row) p \<noteq> None"

text \<open>A possible exit: a quote of the symbol at or after the horizon with a positive exit price.\<close>

definition exit_quote :: "quote_point list \<Rightarrow> forward_return_row \<Rightarrow> quote_point \<Rightarrow> bool" where
  "exit_quote quote_points row q \<longleftrightarrow>
     q \<in> set quote_points \<and> qp_symbol_id q = fr_symbol_id row \<and>
     fr_candidate_timestamp_ns row + fr_horizon_ns row \<le> qp_timestamp_ns q \<and> 0 < forward_exit_price (fr_direction row) q"

text \<open>
  C23: No look-ahead: every forward-return row belongs to a candidate with an action and to one of the
  horizons. Its return, when it has one, is that of buying and selling (or the reverse) at the latest
  usable quote of the symbol not after the candidate and at the earliest usable quote at or after the
  horizon; it has none exactly when one of the two quotes does not exist.
\<close>

theorem forward_rows_look_ahead_free:
  assumes "row \<in> set (fst (analyze_forward rnd item_text (Some horizons) candidates quote_points))" "horizons \<noteq> []"
  shows "(\<exists>cand\<in>set candidates. cs_action cand \<noteq> 0 \<and> fr_candidate_timestamp_ns row = cs_timestamp_ns cand \<and>
        fr_symbol_id row = cs_symbol_id cand \<and> fr_direction row = (if cs_action cand = 1 then ''long'' else ''short'')) \<and>
    (fr_horizon row, fr_horizon_ns row) \<in> set horizons \<and>
    (case fr_return_bps row of
       None \<Rightarrow> (\<nexists>p. entry_quote quote_points row p) \<or> (\<nexists>q. exit_quote quote_points row q)
     | Some r \<Rightarrow> \<exists>p q price. entry_quote quote_points row p \<and> exit_quote quote_points row q \<and>
         (\<forall>p'. entry_quote quote_points row p' \<longrightarrow> qp_timestamp_ns p' \<le> qp_timestamp_ns p) \<and>
         (\<forall>q'. exit_quote quote_points row q' \<longrightarrow> qp_timestamp_ns q \<le> qp_timestamp_ns q') \<and>
         forward_entry_price (fr_direction row) p = Some price \<and>
         r = return_bps rnd (fr_direction row) price (forward_exit_price (fr_direction row) q))"
proof -
  obtain cand where cand: "cand \<in> set candidates" "row \<in> set (candidate_rows rnd horizons quote_points cand)"
    using assms by (auto simp: analyze_forward_def Let_def)
  let ?direction = "if cs_action cand = 1 then ''long'' else ''short''"
  let ?points = "symbol_points quote_points (cs_symbol_id cand)"
  have fields: "cs_action cand \<noteq> 0" "fr_candidate_timestamp_ns row = cs_timestamp_ns cand"
    "fr_symbol_id row = cs_symbol_id cand" "fr_direction row = ?direction"
    "(fr_horizon row, fr_horizon_ns row) \<in> set horizons"
    "fr_return_bps row = forward_return rnd (cs_timestamp_ns cand) ?points ?direction (fr_horizon_ns row)"
    using cand(2) by (auto simp: candidate_rows_def Let_def split: if_splits)
  note time_order = sorted_symbol_points [of quote_points "cs_symbol_id cand"]
  let ?entry = "\<lambda>p. qp_timestamp_ns p \<le> cs_timestamp_ns cand \<and> forward_entry_price ?direction p \<noteq> None"
  let ?exit = "\<lambda>p. cs_timestamp_ns cand + fr_horizon_ns row \<le> qp_timestamp_ns p \<and> forward_exit_price ?direction p > 0"
  have entry: "entry_quote quote_points row p \<longleftrightarrow> p \<in> set ?points \<and> ?entry p" for p
    by (auto simp: entry_quote_def set_symbol_points fields(2-4))
  have exit: "exit_quote quote_points row q \<longleftrightarrow> q \<in> set ?points \<and> ?exit q" for q
    by (auto simp: exit_quote_def set_symbol_points fields(2-4))
  have "case fr_return_bps row of
       None \<Rightarrow> (\<nexists>p. entry_quote quote_points row p) \<or> (\<nexists>q. exit_quote quote_points row q)
     | Some r \<Rightarrow> \<exists>p q price. entry_quote quote_points row p \<and> exit_quote quote_points row q \<and>
         (\<forall>p'. entry_quote quote_points row p' \<longrightarrow> qp_timestamp_ns p' \<le> qp_timestamp_ns p) \<and>
         (\<forall>q'. exit_quote quote_points row q' \<longrightarrow> qp_timestamp_ns q \<le> qp_timestamp_ns q') \<and>
         forward_entry_price (fr_direction row) p = Some price \<and>
         r = return_bps rnd (fr_direction row) price (forward_exit_price (fr_direction row) q)"
  proof (cases "List.find ?entry (rev ?points)")
    case None
    then have "\<nexists>p. entry_quote quote_points row p" unfolding entry by (auto simp: find_None_iff)
    then show ?thesis using None by (simp add: fields(6) forward_return_def current_point_def)
  next
    case p: (Some p)
    note p_spec = find_sorted_last [OF p time_order]
    then obtain price where price: "forward_entry_price ?direction p = Some price" by blast
    show ?thesis
    proof (cases "List.find ?exit ?points")
      case None
      then have "\<nexists>q. exit_quote quote_points row q" unfolding exit by (auto simp: find_None_iff)
      then show ?thesis using None p price by (simp add: fields(6) forward_return_def current_point_def)
    next
      case q: (Some q)
      note q_spec = find_sorted_first [OF q time_order]
      have "fr_return_bps row = Some (return_bps rnd ?direction price (forward_exit_price ?direction q))"
        using p q price by (simp add: fields(6) forward_return_def current_point_def)
      then have result: "fr_return_bps row =
          Some (return_bps rnd (fr_direction row) price (forward_exit_price (fr_direction row) q))"
        by (simp only: fields(4))
      have "entry_quote quote_points row p" "\<forall>p'. entry_quote quote_points row p' \<longrightarrow> qp_timestamp_ns p' \<le> qp_timestamp_ns p"
        unfolding entry using p_spec by blast+
      moreover have "exit_quote quote_points row q" "\<forall>q'. exit_quote quote_points row q' \<longrightarrow> qp_timestamp_ns q \<le> qp_timestamp_ns q'"
        unfolding exit using q_spec by blast+
      moreover have "forward_entry_price (fr_direction row) p = Some price" using price by (simp only: fields(4))
      ultimately show ?thesis unfolding result option.case by blast
    qed
  qed
  then show ?thesis using cand(1) fields(1-5) by blast
qed

definition demo_points :: "quote_point list" where
  "demo_points =
     [\<lparr>qp_timestamp_ns = 20, qp_symbol_id = 0, qp_bid_price = 105, qp_ask_price = 106\<rparr>,
      \<lparr>qp_timestamp_ns = 10, qp_symbol_id = 0, qp_bid_price = 100, qp_ask_price = 101\<rparr>]"

theorem forward_rows_look_ahead_free_witness:
  "\<exists>row p q. row \<in> set (fst (analyze_forward (\<lambda>x. x) (\<lambda>_. []) (Some [(''h'', 5)])
       [demo_candidate 12 0 (demo_quote 0 100 101)] demo_points)) \<and>
     entry_quote demo_points row p \<and> qp_timestamp_ns p \<le> 12 \<and>
     exit_quote demo_points row q \<and> 17 \<le> qp_timestamp_ns q"
proof -
  let ?rows = "fst (analyze_forward (\<lambda>x. x) (\<lambda>_. []) (Some [(''h'', 5)]) [demo_candidate 12 0 (demo_quote 0 100 101)] demo_points)"
  have "length ?rows = 1 \<and> fr_return_bps (hd ?rows) \<noteq> None \<and> fr_candidate_timestamp_ns (hd ?rows) = 12 \<and>
      fr_horizon_ns (hd ?rows) = 5"
    by code_simp
  then obtain row where row: "row \<in> set ?rows" "fr_return_bps row \<noteq> None" "fr_candidate_timestamp_ns row = 12" "fr_horizon_ns row = 5"
    by (cases ?rows) auto
  with forward_rows_look_ahead_free [OF row(1)] obtain p q where "entry_quote demo_points row p" "exit_quote demo_points row q"
    by auto
  moreover from this have "qp_timestamp_ns p \<le> 12" "17 \<le> qp_timestamp_ns q"
    using row(3,4) by (simp_all add: entry_quote_def exit_quote_def)
  ultimately show ?thesis using row(1) by blast
qed

end
