(* ===== verification/Desk_Views.thy ===== *)
theory Desk_Views
  imports Replay_Pipeline
begin

text \<open>
  What the operations of a desk do not read. A view of the portfolio that keeps the accounts and commutes
  with fills, marks and logs commutes with every operation of the desk. Two views are used: the one that
  forgets every record (\<open>quiet_portfolio\<close>), and the one that replaces the equity curve with its high
  water and drawdown, whose commutation says that no operation but the mark touches them.
\<close>

section \<open>Views\<close>

definition view_desk :: "(portfolio \<Rightarrow> portfolio) \<Rightarrow> desk \<Rightarrow> desk" where
  "view_desk view d = d\<lparr>dk_portfolio := view (dk_portfolio d)\<rparr>"

definition viewed :: "(portfolio \<Rightarrow> portfolio) \<Rightarrow> ('x \<times> desk) result \<Rightarrow> ('x \<times> desk) result" where
  "viewed view m = rbind m (\<lambda>(x, d). Inr (x, view_desk view d))"

lemma viewed_simps [simp]: "viewed view (Inl e) = Inl e" "viewed view (Inr (x, d)) = Inr (x, view_desk view d)"
  by (simp_all add: viewed_def)

lemma viewed_if [simp]: "viewed view (if b then m else n) = (if b then viewed view m else viewed view n)"
  by simp

lemma viewed_rbind: "viewed view (rbind m f) = rbind m (\<lambda>x. viewed view (f x))"
  by (cases m) simp_all

lemma view_desk_fields [simp]:
  "dk_portfolio (view_desk view d) = view (dk_portfolio d)" "dk_execution (view_desk view d) = dk_execution d"
  by (simp_all add: view_desk_def)

lemma view_desk_update [simp]:
  "(view_desk view d)\<lparr>dk_execution := ex\<rparr> = view_desk view (d\<lparr>dk_execution := ex\<rparr>)"
  "(view_desk view d)\<lparr>dk_portfolio := view pf\<rparr> = view_desk view (d\<lparr>dk_portfolio := pf\<rparr>)"
  "view_desk view \<lparr>dk_portfolio = pf, dk_execution = ex\<rparr> = \<lparr>dk_portfolio = view pf, dk_execution = ex\<rparr>"
  by (simp_all add: view_desk_def)

text \<open>Two results that agree under a view.\<close>

lemma viewed_cases:
  assumes "viewed view m1 = viewed view m2"
  obtains e where "m1 = Inl e" "m2 = Inl e"
  | x d1 d2 where "m1 = Inr (x, d1)" "m2 = Inr (x, d2)" "view_desk view d1 = view_desk view d2"
proof (cases m1)
  case (Inl e)
  with assms that(1) show ?thesis by (cases m2) auto
next
  case (Inr r)
  then obtain x d1 where m1: "m1 = Inr (x, d1)" by (cases r) simp
  with assms obtain d2 where "m2 = Inr (x, d2)" "view_desk view d1 = view_desk view d2" by (cases m2) auto
  with m1 that(2) show ?thesis by blast
qed

section \<open>Views commute with the operations\<close>

locale portfolio_view =
  fixes view :: "portfolio \<Rightarrow> portfolio"
  assumes view_fields [simp]:
      "pf_config (view pf) = pf_config pf" "pf_cash (view pf) = pf_cash pf"
      "pf_positions (view pf) = pf_positions pf" "pf_pending_symbols (view pf) = pf_pending_symbols pf"
      "pf_realized_pnl (view pf) = pf_realized_pnl pf"
    and view_fill [simp]: "apply_fill rnd (view pf) fi = view (apply_fill rnd pf fi)"
    and view_pending [simp]: "mark_pending s i (view pf) = view (mark_pending s i pf)"
    and view_log [simp]: "log_candidate cand status j (view pf) = view (log_candidate cand status j pf)"
begin

lemma view_fills [simp]: "apply_fills rnd (view pf) fills = view (apply_fills rnd pf fills)"
  unfolding apply_fills_def by (induction fills arbitrary: pf) simp_all

lemma view_log_desk [simp]:
  "log_on_desk cand status i (view_desk view d) = view_desk view (log_on_desk cand status i d)"
  by (simp add: log_on_desk_def view_desk_def)

lemma view_order_size [simp]: "order_size rnd (view pf) price = order_size rnd pf price"
  by (simp add: order_size_def Let_def)

lemma view_gross_exposure [simp]: "gross_exposure rnd (view pf) = gross_exposure rnd pf"
  by (simp add: gross_exposure_def)

lemma view_entry_order:
  "entry_order rnd cand direction (view_desk view d) = apsnd (view_desk view) (entry_order rnd cand direction d)"
  unfolding entry_order_def Let_def case_prod_unfold
  by (simp add: if_distrib [of "apsnd (view_desk view)"] cong: option.case_cong if_cong split del: if_split)

lemma view_submit_and_apply:
  "submit_and_apply rnd i order ts f q (view_desk view d) = viewed view (submit_and_apply rnd i order ts f q d)"
  by (simp add: submit_and_apply_def viewed_rbind case_prod_unfold)

lemma view_submit_entry:
  "submit_entry rnd cand direction q (view_desk view d) = viewed view (submit_entry rnd cand direction q d)"
  by (simp add: submit_entry_def view_entry_order view_submit_and_apply case_prod_unfold Let_def split: option.splits)

lemma view_submit_exit:
  "submit_exit rnd p ts f reason cand q (view_desk view d) =
   rbind (submit_exit rnd p ts f reason cand q d) (\<lambda>(fills, i, d). Inr (fills, i, view_desk view d))"
  by (cases cand)
    (simp_all add: submit_exit_def case_prod_unfold Let_def view_submit_and_apply viewed_def rbind_assoc)

lemma view_consider_flat:
  "consider_flat rnd cand q (view_desk view d) = viewed view (consider_flat rnd cand q d)"
  by (simp add: consider_flat_def view_entry_order viewed_rbind case_prod_unfold Let_def split: option.splits)

lemma view_consider_held:
  "consider_held rnd cand q p (view_desk view d) = viewed view (consider_held rnd cand q p d)"
  by (simp add: consider_held_def view_submit_exit view_submit_entry viewed_rbind viewed_def rbind_assoc rbind_if
      case_prod_unfold Let_def cong: if_cong split del: if_split)

lemma view_consider:
  "consider_candidate rnd cand q (view_desk view d) = viewed view (consider_candidate rnd cand q d)"
  by (simp add: consider_candidate_def view_consider_flat view_consider_held Let_def split: option.splits)

lemma view_on_quote: "desk_on_quote rnd ts f (view_desk view d) = viewed view (desk_on_quote rnd ts f d)"
  by (simp add: desk_on_quote_def viewed_rbind case_prod_unfold)

lemma view_risk_loop: "risk_loop rnd ts f q ps (view_desk view d) = viewed view (risk_loop rnd ts f q ps d)"
  by (induction ps arbitrary: d)
    (simp_all add: view_submit_exit viewed_rbind viewed_def rbind_assoc case_prod_unfold split: option.splits)

lemma view_evaluate_risk: "evaluate_risk rnd ts f q (view_desk view d) = viewed view (evaluate_risk rnd ts f q d)"
  by (simp add: evaluate_risk_def view_risk_loop)

lemma view_flatten_loop:
  "flatten_loop rnd ts arg b ps (view_desk view d) = viewed view (flatten_loop rnd ts arg b ps d)"
proof (induction ps arbitrary: d)
  case Nil
  then show ?case by simp
next
  case (Cons p ps)
  note step = Cons.IH [of "\<lparr>dk_portfolio = pf, dk_execution = ex\<rparr>" for pf ex, simplified]
  show ?case by (simp add: Cons.IH step viewed_rbind viewed_def rbind_assoc case_prod_unfold Let_def)
qed

lemma view_flatten: "flatten_positions rnd ts arg b (view_desk view d) = viewed view (flatten_positions rnd ts arg b d)"
  by (simp add: flatten_positions_def view_flatten_loop viewed_rbind viewed_def rbind_assoc case_prod_unfold)

lemma view_equity_point [simp]: "equity_point_of rnd ts f (view pf) = equity_point_of rnd ts f pf"
  by (simp add: equity_point_of_def)

lemmas view_operations = view_on_quote view_evaluate_risk view_consider view_flatten

end

section \<open>Without records\<close>

definition quiet_portfolio :: "portfolio \<Rightarrow> portfolio" where
  "quiet_portfolio pf = pf\<lparr>pf_candidate_logs := [], pf_equity_curve := [], pf_record_candidate_logs := False\<rparr>"

interpretation quiet: portfolio_view quiet_portfolio
proof
  fix rnd pf fi
  show "apply_fill rnd (quiet_portfolio pf) fi = quiet_portfolio (apply_fill rnd pf fi)"
    by (auto simp: apply_fill_def quiet_portfolio_def Let_def split: option.splits)
qed (simp_all add: quiet_portfolio_def mark_pending_def log_candidate_def)

abbreviation quiet_desk :: "desk \<Rightarrow> desk" where
  "quiet_desk \<equiv> view_desk quiet_portfolio"

lemma quiet_marks:
  "quiet_portfolio pf = quiet_portfolio pf' \<Longrightarrow>
   quiet_portfolio (snd (mark_to_market rnd ts f b pf)) = quiet_portfolio (snd (mark_to_market rnd ts f b' pf'))"
proof -
  assume same: "quiet_portfolio pf = quiet_portfolio pf'"
  have "equity_point_of rnd ts f pf = equity_point_of rnd ts f pf'"
    using quiet.view_equity_point [of rnd ts f pf] quiet.view_equity_point [of rnd ts f pf'] same by simp
  then show ?thesis
    using same by (cases pf; cases pf') (simp add: mark_to_market_def quiet_portfolio_def Let_def)
qed

lemma quiet_clear: "quiet_desk d = quiet_desk d' \<Longrightarrow> quiet_desk (desk_clear d) = quiet_desk (desk_clear d')"
  by (cases d; cases d'; cases "dk_portfolio d"; cases "dk_portfolio d'")
    (simp add: desk_clear_def quiet_portfolio_def)

section \<open>Untouched marks\<close>

type_synonym desk_marks = "equity_point list \<times> rat option \<times> rat"

definition with_marks :: "desk_marks \<Rightarrow> portfolio \<Rightarrow> portfolio" where
  "with_marks = (\<lambda>(curve, high, low) pf.
     pf\<lparr>pf_equity_curve := curve, pf_high_water_equity := high, pf_maximum_drawdown := low\<rparr>)"

definition marks_of :: "desk \<Rightarrow> desk_marks" where
  "marks_of d = (let pf = dk_portfolio d in (pf_equity_curve pf, pf_high_water_equity pf, pf_maximum_drawdown pf))"

interpretation marked: portfolio_view "with_marks m" for m
proof
  fix rnd pf fi
  show "apply_fill rnd (with_marks m pf) fi = with_marks m (apply_fill rnd pf fi)"
    by (cases m) (auto simp: apply_fill_def with_marks_def Let_def split: option.splits)
qed (cases m, simp_all add: with_marks_def mark_pending_def log_candidate_def)+

lemma marks_of_view [simp]: "marks_of (view_desk (with_marks m) d) = m"
  by (cases m) (simp add: marks_of_def with_marks_def)

lemma view_own_marks: "view_desk (with_marks (marks_of d)) d = d"
  by (cases d; cases "dk_portfolio d") (simp add: marks_of_def with_marks_def)

lemma marks_kept:
  assumes "\<And>d. f (view_desk (with_marks (marks_of d0)) d) = viewed (with_marks (marks_of d0)) (f d)"
    and "f d0 = Inr (x, d)"
  shows "marks_of d = marks_of d0"
proof -
  have "Inr (x, d) = viewed (with_marks (marks_of d0)) (Inr (x, d))"
    using assms(1) [of d0] by (simp add: view_own_marks assms(2))
  then have "d = view_desk (with_marks (marks_of d0)) d" by simp
  then show ?thesis using marks_of_view by metis
qed

lemma operations_keep_marks:
  "desk_on_quote rnd ts f d = Inr (x, d') \<Longrightarrow> marks_of d' = marks_of d"
  "evaluate_risk rnd ts f q d = Inr (x, d') \<Longrightarrow> marks_of d' = marks_of d"
  "consider_candidate rnd cand q d = Inr (x, d') \<Longrightarrow> marks_of d' = marks_of d"
  "flatten_positions rnd ts arg b d = Inr (x, d') \<Longrightarrow> marks_of d' = marks_of d"
  by (rule marks_kept, rule marked.view_operations, assumption)+

lemma clear_keeps_marks [simp]: "marks_of (desk_clear d) = marks_of d"
  by (simp add: marks_of_def desk_clear_def Let_def)

end
