(* ===== verification/Replay_Report.thy ===== *)
theory Replay_Report
  imports Replay_Correct Performance_Metrics Forward_Returns Desk_Views
begin

text \<open>
  What \<open>BacktestEngine.run\<close> returns after the loop: the summary of \<open>compute_metrics\<close> with the replay's
  counts, and the forward returns of the recorded candidates over the recorded quotes.
\<close>

section \<open>The report\<close>

record run_counts =
  ct_input_events :: int
  ct_session_events :: int
  ct_accepted_features :: int
  ct_rejected_events :: int
  ct_candidate_count :: int
  ct_unfilled_orders :: int

record 's run_report =
  rp_run :: "'s backtest_run"
  rp_summary :: run_summary
  rp_counts :: run_counts
  rp_forward_rows :: "forward_return_row list"
  rp_forward_summary :: "int \<times> group_summary list"

definition counts_of :: "normalized_event list \<Rightarrow> 's backtest_run \<Rightarrow> run_counts" where
  "counts_of events run =
     \<lparr>ct_input_events = int (length events), ct_session_events = int (length (br_replay_events run)),
      ct_accepted_features = int (length (rs_candidates (br_final run))),
      ct_rejected_events = rs_rejected (br_final run),
      ct_candidate_count = int (length (filter (\<lambda>cand. cs_action cand \<noteq> 0) (rs_candidates (br_final run)))),
      ct_unfilled_orders = int (length (br_unfilled_orders run))\<rparr>"

definition report_of_run ::
  "(rat \<Rightarrow> rat) \<Rightarrow> (rat list \<Rightarrow> rat) \<Rightarrow> float_math \<Rightarrow> (return_group \<times> rat list \<Rightarrow> string) \<Rightarrow> backtest_config \<Rightarrow>
     (int \<Rightarrow> local_time) \<Rightarrow> normalized_event list \<Rightarrow> 's backtest_run \<Rightarrow> 's run_report" where
  "report_of_run rnd summed fm item_text c clock events run =
     (let pf = dk_portfolio (rs_desk (br_final run));
          (rows, summary) = analyze_forward rnd item_text None (rs_candidates (br_final run))
            (rs_quote_points (br_final run))
      in \<lparr>rp_run = run,
          rp_summary = compute_metrics rnd summed fm clock (pc_starting_cash (bc_portfolio c))
            (pf_completed_trades pf) (pf_equity_curve pf),
          rp_counts = counts_of events run, rp_forward_rows = rows, rp_forward_summary = summary\<rparr>)"

definition run_with_report ::
  "(rat \<Rightarrow> rat) \<Rightarrow> (rat list \<Rightarrow> rat) \<Rightarrow> float_math \<Rightarrow> (return_group \<times> rat list \<Rightarrow> string) \<Rightarrow>
     's strategy_factory \<Rightarrow> backtest_config \<Rightarrow> (int \<times> string) list option \<Rightarrow> (int \<Rightarrow> local_time) \<Rightarrow>
     normalized_event list \<Rightarrow> 's run_report result" where
  "run_with_report rnd summed fm item_text fac c symbol_mapping clock events =
     rbind (run_backtest rnd fac c symbol_mapping clock events) (\<lambda>run.
     Inr (report_of_run rnd summed fm item_text c clock events run))"

section \<open>Every event is counted\<close>

definition events_seen :: "'s replay_state \<Rightarrow> int" where
  "events_seen s = int (length (rs_candidates s)) + rs_rejected s"

lemma change_session_counts:
  "change_session rnd fac c day s = Inr s' \<Longrightarrow> rs_candidates s' = rs_candidates s \<and> rs_rejected s' = rs_rejected s"
  by (auto simp: change_session_def rbind_eq_Inr Let_def split: option.splits if_splits)

lemma replay_feature_counts:
  assumes "replay_feature rnd fac e f s = Inr s'"
  shows "length (rs_candidates s') = Suc (length (rs_candidates s)) \<and> rs_rejected s' = rs_rejected s"
proof -
  obtain f1 d1 f2 d2 sig st f3 d3 where "s' = (if ne_event_type e = MSG_MARKET_QUOTE
      then (s\<lparr>rs_last_features := AList.update (ne_symbol_id e) f (rs_last_features s)\<rparr>)
        \<lparr>rs_quote_points := rs_quote_points s @
                   [\<lparr>qp_timestamp_ns = ne_timestamp_ns e, qp_symbol_id = ne_symbol_id e,
                     qp_bid_price = ft_bid_price f, qp_ask_price = ft_ask_price f\<rparr>]\<rparr>
      else s\<lparr>rs_last_features := AList.update (ne_symbol_id e) f (rs_last_features s)\<rparr>)
    \<lparr>rs_strategy := st, rs_candidates := rs_candidates s @ [candidate_of e sig f],
     rs_desk := d3\<lparr>dk_portfolio := snd (mark_to_market rnd (ne_timestamp_ns e) f True (dk_portfolio d3))\<rparr>\<rparr>"
    using assms by (auto simp: replay_feature_def Let_def rbind_eq_Inr split: if_splits)
  then show ?thesis by simp
qed

lemma replay_event_counts:
  assumes "replay_event rnd fac c clock s e = Inr s'"
  shows "events_seen s' = events_seen s + 1"
  using assms
  by (auto simp: replay_event_def Let_def rbind_eq_Inr events_seen_def dest!: change_session_counts replay_feature_counts
      split: option.splits if_splits)

lemma replay_loop_counts:
  "fold_result (replay_event rnd fac c clock) s es = Inr s' \<Longrightarrow> events_seen s' = events_seen s + int (length es)"
proof (induction es arbitrary: s)
  case Nil
  then show ?case by simp
next
  case (Cons e es)
  then obtain s1 where "replay_event rnd fac c clock s e = Inr s1" "fold_result (replay_event rnd fac c clock) s1 es = Inr s'"
    by (auto simp: rbind_eq_Inr)
  with Cons.IH replay_event_counts show ?case by fastforce
qed

section \<open>The drawdown of a replay that records every mark\<close>

definition high_after :: "rat option \<Rightarrow> equity_point list \<Rightarrow> rat option" where
  "high_after = foldl (\<lambda>high p. Some (case high of None \<Rightarrow> eq_equity p | Some h \<Rightarrow> max h (eq_equity p)))"

lemma drawdown_rows_snoc:
  "drawdown_rows rnd high (curve @ [p]) = drawdown_rows rnd high curve @ drawdown_rows rnd (high_after high curve) [p]"
  by (induction rnd high curve rule: drawdown_rows.induct) (simp_all add: high_after_def Let_def)

lemma lowest_snoc: "min 0 (lowest (vals @ [v])) = min (min 0 (lowest vals)) v"
  by (simp add: lowest_def extreme_of_append min.assoc split: option.split)

text \<open>A law of the equity curve with its high water and drawdown that the recorded mark keeps.\<close>

locale mark_law =
  fixes rnd :: "rat \<Rightarrow> rat" and law :: "desk_marks \<Rightarrow> bool"
  assumes law_start: "law ([], None, 0)"
    and law_mark: "law (marks_of d) \<Longrightarrow>
      law (marks_of (d\<lparr>dk_portfolio := snd (mark_to_market rnd ts f True (dk_portfolio d))\<rparr>))"
begin

lemma close_law:
  assumes "close_session rnd d fs ts = Inr d'" "law (marks_of d)"
  shows "law (marks_of d')"
proof (cases fs)
  case (Cons x rest)
  obtain symb first where x: "x = (symb, first)" by (cases x)
  with assms(1) Cons obtain y d1 where "(if pc_end_of_day_flatten (pf_config (dk_portfolio d))
      then flatten_positions rnd ts (LastQuotes fs) True d else Inr ([], d)) = Inr (y, d1)"
    and d': "d' = d1\<lparr>dk_portfolio := snd (mark_to_market rnd ts first True (dk_portfolio d1))\<rparr>"
    by (auto simp: close_session_def rbind_eq_Inr)
  then have "marks_of d1 = marks_of d" using operations_keep_marks(4) by (auto split: if_splits)
  then show ?thesis unfolding d' using assms(2) law_mark by metis
qed (use assms in \<open>simp add: close_session_def\<close>)

lemma change_law:
  "change_session rnd fac c day s = Inr s' \<Longrightarrow> law (marks_of (rs_desk s)) \<Longrightarrow> law (marks_of (rs_desk s'))"
  by (auto simp: change_session_def Let_def rbind_eq_Inr dest!: close_law split: option.splits if_splits)

lemma feature_law:
  assumes "replay_feature rnd fac e f s = Inr s'" "law (marks_of (rs_desk s))"
  shows "law (marks_of (rs_desk s'))"
proof -
  obtain x d1 y d2 cand z d3 where steps:
    "(if ne_event_type e = MSG_MARKET_QUOTE then desk_on_quote rnd (ne_timestamp_ns e) f (rs_desk s) else Inr ([], rs_desk s)) = Inr (x, d1)"
    "evaluate_risk rnd (ne_timestamp_ns e) f (ne_event_type e = MSG_MARKET_QUOTE) d1 = Inr (y, d2)"
    "consider_candidate rnd cand (ne_event_type e = MSG_MARKET_QUOTE) d2 = Inr (z, d3)"
    "rs_desk s' = d3\<lparr>dk_portfolio := snd (mark_to_market rnd (ne_timestamp_ns e) f True (dk_portfolio d3))\<rparr>"
    using assms(1) by (auto simp: replay_feature_def Let_def rbind_eq_Inr split: if_splits)
  then have "marks_of d3 = marks_of (rs_desk s)"
    using operations_keep_marks(1-3) by (auto split: if_splits)
  then show ?thesis unfolding steps(4) using assms(2) law_mark by metis
qed

lemma event_law:
  "replay_event rnd fac c clock s e = Inr s' \<Longrightarrow> law (marks_of (rs_desk s)) \<Longrightarrow> law (marks_of (rs_desk s'))"
  by (auto simp: replay_event_def Let_def rbind_eq_Inr dest!: change_law feature_law split: option.splits if_splits)

lemma loop_law:
  "fold_result (replay_event rnd fac c clock) s es = Inr s' \<Longrightarrow> law (marks_of (rs_desk s)) \<Longrightarrow> law (marks_of (rs_desk s'))"
  by (induction es arbitrary: s) (auto simp: rbind_eq_Inr dest: event_law)

lemma run_law:
  assumes "run_backtest rnd fac c mapping clock events = Inr run"
  shows "law (marks_of (rs_desk (br_final run)))"
proof -
  obtain es m st s d where run: "fold_result (replay_event rnd fac c clock) (replay_start c m st) es = Inr s"
    "close_session rnd (rs_desk s) (rs_last_features s) (rs_last_timestamp s) = Inr d" "rs_desk (br_final run) = desk_clear d"
    using assms by (auto simp: run_backtest_def Let_def rbind_eq_Inr split: if_splits)
  have "law (marks_of (rs_desk (replay_start c m st)))"
    using law_start by (simp add: marks_of_def replay_start_def portfolio_init_def)
  from close_law [OF run(2) loop_law [OF run(1) this]] show ?thesis by (simp add: run(3))
qed

end

text \<open>The high water and the drawdown kept by the portfolio are those of the recorded curve.\<close>

definition marks_recorded :: "(rat \<Rightarrow> rat) \<Rightarrow> desk_marks \<Rightarrow> bool" where
  "marks_recorded rnd = (\<lambda>(curve, high, low).
     high = high_after None curve \<and> low = min 0 (lowest (map dd_drawdown (equity_drawdown rnd curve))))"

interpretation recorded: mark_law rnd "marks_recorded rnd" for rnd
proof
  show "marks_recorded rnd ([], None, 0)"
    by (simp add: marks_recorded_def high_after_def equity_drawdown_def lowest_def extreme_of_def)
next
  fix d ts f
  assume "marks_recorded rnd (marks_of d)"
  then show "marks_recorded rnd (marks_of (d\<lparr>dk_portfolio := snd (mark_to_market rnd ts f True (dk_portfolio d))\<rparr>))"
    by (simp add: marks_recorded_def marks_of_def mark_to_market_def Let_def equity_drawdown_def drawdown_rows_snoc lowest_snoc)
      (simp add: high_after_def split: option.split)
qed

lemma reported_drawdown:
  assumes "run_backtest fl64 fac c mapping clock events = Inr run"
  shows "lowest (map dd_drawdown (equity_drawdown fl64 (pf_equity_curve (dk_portfolio (rs_desk (br_final run)))))) =
    pf_maximum_drawdown (dk_portfolio (rs_desk (br_final run)))"
  using recorded.run_law [OF assms] binary64.lowest_drawdown
  by (simp add: marks_recorded_def marks_of_def Let_def)

section \<open>The report and the replay\<close>

lemma candidate_rows_length:
  "length (candidate_rows rnd horizons points cand) = (if cs_action cand = 0 then 0 else length horizons)"
  by (simp add: candidate_rows_def Let_def)

lemma forward_rows_length:
  "length (concat (map (candidate_rows rnd horizons points) cands)) =
     length horizons * length (filter (\<lambda>cand. cs_action cand \<noteq> 0) cands)"
  by (induction cands) (simp_all add: candidate_rows_length)

lemma eight_horizons: "length HORIZONS_NS = 8"
  by (simp add: HORIZONS_NS_def)

lemma forward_row_keys:
  "map (\<lambda>row. (fr_candidate_timestamp_ns row, fr_symbol_id row, fr_horizon_ns row))
     (concat (map (candidate_rows rnd horizons points) cands)) =
   [(cs_timestamp_ns cand, cs_symbol_id cand, horizon). cand \<leftarrow> cands, cs_action cand \<noteq> 0, horizon \<leftarrow> map snd horizons]"
  by (induction cands) (simp_all add: candidate_rows_def Let_def case_prod_unfold o_def)

context signal_policy
begin

lemma run_counts_events:
  assumes "replay_config_ok fac c" "run_backtest rnd fac c mapping clock events = Inr run"
  shows "events_seen (br_final run) = int (length (br_replay_events run)) \<and>
    length (br_replay_events run) \<le> length events"
proof -
  obtain es m st where parts: "length es \<le> length events"
    and run: "run_backtest rnd fac c mapping clock events =
       rbind (fold_result (replay_event rnd fac c clock) (replay_start c m st) (replay_sequence c clock es))
         (finish_run rnd c mapping clock events es)"
    by (rule run_backtest_parts [OF assms(1)])
  from assms(2) obtain s where s:
    "fold_result (replay_event rnd fac c clock) (replay_start c m st) (replay_sequence c clock es) = Inr s"
    "finish_run rnd c mapping clock events es s = Inr run"
    by (auto simp: run rbind_eq_Inr)
  have "rs_candidates (br_final run) = rs_candidates s" "rs_rejected (br_final run) = rs_rejected s"
    "br_replay_events run = replay_sequence c clock es"
    using s(2) by (auto simp: finish_run_def rbind_eq_Inr)
  moreover have "length (replay_sequence c clock es) = length es"
    using arg_cong [OF replay_sequence_times [of c clock es], of length] by simp
  ultimately show ?thesis using replay_loop_counts [OF s(1)] parts by (simp add: events_seen_def replay_start_fields)
qed

lemma report_outcome:
  assumes "replay_config_ok fac c"
  shows "case run_with_report fl64 (sum_left fl64) fm item_text fac c mapping clock events of
      Inl e \<Rightarrow> e = AttributeError ''symbol_id''
    | Inr rp \<Rightarrow>
        ct_accepted_features (rp_counts rp) + ct_rejected_events (rp_counts rp) = ct_session_events (rp_counts rp) \<and>
        ct_session_events (rp_counts rp) \<le> ct_input_events (rp_counts rp) \<and>
        map (\<lambda>row. (fr_candidate_timestamp_ns row, fr_symbol_id row, fr_horizon_ns row)) (rp_forward_rows rp) =
          [(cs_timestamp_ns cand, cs_symbol_id cand, horizon).
            cand \<leftarrow> rs_candidates (br_final (rp_run rp)), cs_action cand \<noteq> 0, horizon \<leftarrow> map snd HORIZONS_NS] \<and>
        int (length (rp_forward_rows rp)) = 8 * ct_candidate_count (rp_counts rp) \<and>
        fst (rp_forward_summary rp) = 8 * ct_candidate_count (rp_counts rp) \<and>
        rn_total_net_pnl (rp_summary rp) = pf_realized_pnl (dk_portfolio (rs_desk (br_final (rp_run rp)))) \<and>
        rn_long_trades (rp_summary rp) + rn_short_trades (rp_summary rp) = rn_trade_count (rp_summary rp) \<and>
        rn_max_drawdown (rp_summary rp) = pf_maximum_drawdown (dk_portfolio (rs_desk (br_final (rp_run rp)))) \<and>
        rn_max_drawdown (rp_summary rp) \<le> 0"
proof (cases "run_backtest fl64 fac c mapping clock events")
  case (Inl e)
  with run_backtest_outcome [OF assms, where rnd = fl64 and mapping = mapping and clock = clock and events = events] show ?thesis by (simp add: run_with_report_def)
next
  case (Inr run)
  with run_backtest_outcome [OF assms, where rnd = fl64 and mapping = mapping and clock = clock and events = events]
  have "desk_reachable fl64 (bc_portfolio c) (bc_execution c) (rs_desk (br_final run))" by simp
  note money = summary_of_desk [OF this, of fm clock]
  note counts = run_counts_events [OF assms Inr]
  note low = reported_drawdown [OF Inr]
  show ?thesis
    using money counts low
    by (simp add: run_with_report_def Inr report_of_run_def counts_of_def events_seen_def analyze_forward_def
        summarize_rows_def forward_rows_length forward_row_keys eight_horizons Let_def compute_metrics_fields)
qed

end

text \<open>
  C3: The report of a replay accounts for everything it saw: for every accepted non-strict
  configuration, in binary64 arithmetic with \<open>sum\<close> adding from the left, \<open>run\<close> raises the flattening
  error or returns a report in which every session event is either an accepted feature or
  rejected, the forward-return rows are one for each candidate with an action and each of the eight
  horizons, in that order, the total net result is the final portfolio's realized result, long and
  short trades make up all trades, and the reported maximum drawdown, recomputed from the equity curve,
  is the one the portfolio kept.
\<close>

theorem report_accounts_for_replay:
  assumes "replay_config_ok model_factory c"
  shows "case run_with_report fl64 (sum_left fl64) fm item_text model_factory c mapping clock events of
      Inl e \<Rightarrow> e = AttributeError ''symbol_id''
    | Inr rp \<Rightarrow>
        ct_accepted_features (rp_counts rp) + ct_rejected_events (rp_counts rp) = ct_session_events (rp_counts rp) \<and>
        ct_session_events (rp_counts rp) \<le> ct_input_events (rp_counts rp) \<and>
        map (\<lambda>row. (fr_candidate_timestamp_ns row, fr_symbol_id row, fr_horizon_ns row)) (rp_forward_rows rp) =
          [(cs_timestamp_ns cand, cs_symbol_id cand, horizon).
            cand \<leftarrow> rs_candidates (br_final (rp_run rp)), cs_action cand \<noteq> 0, horizon \<leftarrow> map snd HORIZONS_NS] \<and>
        int (length (rp_forward_rows rp)) = 8 * ct_candidate_count (rp_counts rp) \<and>
        fst (rp_forward_summary rp) = 8 * ct_candidate_count (rp_counts rp) \<and>
        rn_total_net_pnl (rp_summary rp) = pf_realized_pnl (dk_portfolio (rs_desk (br_final (rp_run rp)))) \<and>
        rn_long_trades (rp_summary rp) + rn_short_trades (rp_summary rp) = rn_trade_count (rp_summary rp) \<and>
        rn_max_drawdown (rp_summary rp) = pf_maximum_drawdown (dk_portfolio (rs_desk (br_final (rp_run rp)))) \<and>
        rn_max_drawdown (rp_summary rp) \<le> 0"
  by (rule model.report_outcome [OF assms])

definition demo_text :: "return_group \<times> rat list \<Rightarrow> string" where
  "demo_text item = fst (fst item)"

theorem report_accounts_for_replay_witness:
  "\<exists>rp. run_with_report fl64 (sum_left fl64) demo_math demo_text model_factory overnight_config None test_clock trading_day = Inr rp \<and>
     ct_accepted_features (rp_counts rp) + ct_rejected_events (rp_counts rp) = ct_session_events (rp_counts rp) \<and>
     rn_max_drawdown (rp_summary rp) \<le> 0"
proof -
  have "\<forall>x\<in>set trading_day. session_date test_clock (ne_timestamp_ns x) = 738887"
    by (simp add: trading_day_def tick_def test_clock_def session_date_def)
  with model.run_backtest_outcome [OF overnight_config_ok, where rnd = fl64 and mapping = None and clock = test_clock and events = trading_day]
  obtain run where "run_backtest fl64 model_factory overnight_config None test_clock trading_day = Inr run"
    by (cases "run_backtest fl64 model_factory overnight_config None test_clock trading_day") auto
  then obtain rp where "run_with_report fl64 (sum_left fl64) demo_math demo_text model_factory overnight_config None test_clock trading_day = Inr rp"
    by (simp add: run_with_report_def)
  with report_accounts_for_replay [OF overnight_config_ok, of demo_math demo_text None test_clock trading_day]
  show ?thesis by simp
qed

end
