(* ===== verification/Research_Policy.thy ===== *)
theory Research_Policy
  imports Signal_Policy
begin

text \<open>
  The research engines of \<open>tools/backtest/experiments.py\<close>: \<open>ResearchSignalPolicy\<close>, the candidate rule
  with some factors switched off, and \<open>RandomPolicy\<close>, whose draws are an argument. Both meet the
  contract of the replay; the ablation policy does not repeat a direction without a reversal.
\<close>

section \<open>ResearchSignalPolicy\<close>

record research_policy =
  re_num_symbols :: int
  re_config :: strategy_config
  re_excluded :: "string list"
  re_previous :: "int list"
  re_last :: "int list"
  re_cooldown :: "int list"

definition research_create :: "string list \<Rightarrow> int \<Rightarrow> strategy_config \<Rightarrow> research_policy" where
  "research_create excluded num_symbols config =
     \<lparr>re_num_symbols = num_symbols, re_config = config, re_excluded = excluded,
      re_previous = replicate (nat num_symbols) 0, re_last = replicate (nat num_symbols) 0,
      re_cooldown = replicate (nat num_symbols) 0\<rparr>"

definition research_reset :: "research_policy \<Rightarrow> research_policy" where
  "research_reset p =
     p\<lparr>re_previous := replicate (nat (re_num_symbols p)) 0, re_last := replicate (nat (re_num_symbols p)) 0,
       re_cooldown := replicate (nat (re_num_symbols p)) 0\<rparr>"

definition factor_enabled :: "string list \<Rightarrow> string \<Rightarrow> bool" where
  "factor_enabled excluded name \<longleftrightarrow> name \<notin> set excluded"

definition research_long_pass :: "strategy_config \<Rightarrow> string list \<Rightarrow> feature_snapshot \<Rightarrow> bool list" where
  "research_long_pass cfg excluded f =
     [\<not> factor_enabled excluded ''momentum'' \<or> ft_momentum_bps_x100 f \<ge> sc_long_min_momentum_bps_x100 cfg,
      \<not> factor_enabled excluded ''vwap_delta'' \<or>
        ft_midpoint_minus_vwap_bps_x100 f \<ge> sc_long_min_vwap_delta_bps_x100 cfg,
      \<not> factor_enabled excluded ''imbalance'' \<or> ft_imbalance_normalized f \<ge> sc_long_min_imbalance_q15 cfg,
      \<not> factor_enabled excluded ''spread'' \<or> ft_spread_bps_x100 f \<le> sc_max_spread_bps_x100 cfg,
      \<not> factor_enabled excluded ''volume'' \<or> ft_rolling_volume f \<ge> sc_min_rolling_volume cfg]"

definition research_short_pass :: "strategy_config \<Rightarrow> string list \<Rightarrow> feature_snapshot \<Rightarrow> bool list" where
  "research_short_pass cfg excluded f =
     [\<not> factor_enabled excluded ''momentum'' \<or> ft_momentum_bps_x100 f \<le> sc_short_max_momentum_bps_x100 cfg,
      \<not> factor_enabled excluded ''vwap_delta'' \<or>
        ft_midpoint_minus_vwap_bps_x100 f \<le> sc_short_max_vwap_delta_bps_x100 cfg,
      \<not> factor_enabled excluded ''imbalance'' \<or> ft_imbalance_normalized f \<le> sc_short_max_imbalance_q15 cfg,
      \<not> factor_enabled excluded ''spread'' \<or> ft_spread_bps_x100 f \<le> sc_max_spread_bps_x100 cfg,
      \<not> factor_enabled excluded ''volume'' \<or> ft_rolling_volume f \<ge> sc_min_rolling_volume cfg]"

definition research_raw :: "strategy_config \<Rightarrow> string list \<Rightarrow> feature_snapshot \<Rightarrow> int" where
  "research_raw cfg excluded f =
     (if list_all id (research_long_pass cfg excluded f) then SIGNAL_LONG_CANDIDATE
      else if list_all id (research_short_pass cfg excluded f) then SIGNAL_SHORT_CANDIDATE else SIGNAL_NONE)"

definition research_reason :: "int \<Rightarrow> bool list \<Rightarrow> bool list \<Rightarrow> int" where
  "research_reason raw long short =
     (let bit = (\<lambda>i b. if long ! i \<or> short ! i then b else 0) in
      bit 0 0x0001 OR bit 1 0x0002 OR bit 2 0x0004 OR bit 3 0x0008 OR bit 4 0x0010 OR
      (if raw = SIGNAL_LONG_CANDIDATE then 0x0020 else if raw = SIGNAL_SHORT_CANDIDATE then 0x0040 else 0))"

text \<open>A list index, counted from the end when it is negative.\<close>

definition py_slot :: "nat \<Rightarrow> int \<Rightarrow> nat result" where
  "py_slot n i =
     (let j = (if i < 0 then i + int n else i) in if 0 \<le> j \<and> j < int n then Inr (nat j) else Inl IndexError)"

definition research_evaluate ::
  "research_policy \<Rightarrow> feature_snapshot \<Rightarrow> (signal_snapshot \<times> research_policy) result" where
  "research_evaluate p f =
     (let cfg = re_config p; sid = ft_symbol_id f;
          long = research_long_pass cfg (re_excluded p) f; short = research_short_pass cfg (re_excluded p) f;
          raw = research_raw cfg (re_excluded p) f in
      rbind (py_slot (length (re_previous p)) sid) (\<lambda>i.
      rbind (py_get (re_previous p) i) (\<lambda>previous.
      rbind (py_get (re_last p) i) (\<lambda>last_fired.
      rbind (py_get (re_cooldown p) i) (\<lambda>cool.
      let edge = (raw \<noteq> SIGNAL_NONE \<and> raw \<noteq> previous);
          fire = (raw \<noteq> SIGNAL_NONE \<and> raw \<noteq> last_fired \<and> cool = 0 \<and> edge);
          action = (if fire \<and> feature_set_valid f \<and> sc_strategy_enable cfg then raw else SIGNAL_NONE);
          cool = (if raw \<noteq> SIGNAL_NONE \<and> \<not> fire \<and> cool > 0 then cool - 1 else cool);
          (last_fired, cool) = (if fire then (raw, sc_signal_cooldown_events cfg) else (last_fired, cool))
      in Inr (\<lparr>sg_symbol_id = sid, sg_sequence = ft_sequence f, sg_action = action,
               sg_score = signal_score raw long short, sg_reason_bits = research_reason raw long short\<rparr>,
              p\<lparr>re_previous := (re_previous p)[i :=
                  if sc_strategy_enable cfg \<and> feature_set_valid f then raw else SIGNAL_NONE],
                re_last := (re_last p)[i := last_fired], re_cooldown := (re_cooldown p)[i := cool]\<rparr>))))))"

definition research_factory :: "string list \<Rightarrow> research_policy strategy_factory" where
  "research_factory excluded =
     \<lparr>sf_create = (\<lambda>num_symbols config. Inr (research_create excluded num_symbols config)),
      sf_evaluate = research_evaluate, sf_reset = research_reset\<rparr>"

section \<open>RandomPolicy\<close>

text \<open>The state counts the draws taken from \<open>rng.choice((0, 1, 2))\<close>.\<close>

definition random_factory :: "(nat \<Rightarrow> int) \<Rightarrow> (strategy_config \<times> nat) strategy_factory" where
  "random_factory draws =
     \<lparr>sf_create = (\<lambda>num_symbols config. Inr (config, 0)),
      sf_evaluate = (\<lambda>(config, k) f.
        Inr (\<lparr>sg_symbol_id = ft_symbol_id f, sg_sequence = ft_sequence f,
              sg_action = (if sc_strategy_enable config then draws k else 0), sg_score = 0, sg_reason_bits = 0\<rparr>,
             (config, if sc_strategy_enable config then Suc k else k))),
      sf_reset = (\<lambda>s. s)\<rparr>"

section \<open>The contract\<close>

definition research_ok :: "nat \<Rightarrow> research_policy \<Rightarrow> bool" where
  "research_ok n p \<longleftrightarrow> nat (re_num_symbols p) = n \<and> length (re_previous p) = n \<and> length (re_last p) = n \<and>
     length (re_cooldown p) = n"

lemma py_slot_ok [simp]: "0 \<le> i \<Longrightarrow> i < int n \<Longrightarrow> py_slot n i = Inr (nat i)"
  by (simp add: py_slot_def Let_def)

text \<open>One evaluation of a well-formed engine.\<close>

definition research_fires :: "research_policy \<Rightarrow> feature_snapshot \<Rightarrow> bool" where
  "research_fires p f \<longleftrightarrow>
     (let i = nat (ft_symbol_id f); raw = research_raw (re_config p) (re_excluded p) f in
      raw \<noteq> 0 \<and> raw \<noteq> re_last p ! i \<and> re_cooldown p ! i = 0 \<and> raw \<noteq> re_previous p ! i)"

lemma research_evaluate_ok:
  assumes "research_ok n p" "0 \<le> ft_symbol_id f" "ft_symbol_id f < int n"
  shows "\<exists>sig p'. research_evaluate p f = Inr (sig, p') \<and> research_ok n p' \<and>
    re_config p' = re_config p \<and> re_excluded p' = re_excluded p \<and> sg_symbol_id sig = ft_symbol_id f \<and>
    sg_action sig = (if research_fires p f \<and> feature_set_valid f \<and> sc_strategy_enable (re_config p)
      then research_raw (re_config p) (re_excluded p) f else 0) \<and>
    re_last p' = (if research_fires p f
      then (re_last p)[nat (ft_symbol_id f) := research_raw (re_config p) (re_excluded p) f] else re_last p)"
proof -
  have "nat (ft_symbol_id f) < n" using assms by linarith
  then show ?thesis
    using assms by (simp add: research_evaluate_def research_ok_def research_fires_def Let_def)
qed

interpretation research: signal_policy "research_factory excluded" research_ok for excluded
proof
  fix n and p :: research_policy and f :: feature_snapshot
  assume "research_ok n p" "0 \<le> ft_symbol_id f" "ft_symbol_id f < int n"
  from research_evaluate_ok [OF this]
  show "\<exists>sig s'. sf_evaluate (research_factory excluded) p f = Inr (sig, s') \<and> research_ok n s' \<and> sg_symbol_id sig = ft_symbol_id f"
    by (auto simp: research_factory_def)
qed (auto simp: research_factory_def research_create_def research_reset_def research_ok_def)

interpretation random: signal_policy "random_factory draws" "\<lambda>_ _. True" for draws
  by unfold_locales (auto simp: random_factory_def)

section \<open>Quiet engines\<close>

text \<open>An engine that never signals, whatever the features are.\<close>

locale quiet_policy = signal_policy fac ok for fac :: "'s strategy_factory" and ok +
  fixes quiet :: "'s \<Rightarrow> bool"
  assumes quiet_reset: "quiet s \<Longrightarrow> quiet (sf_reset fac s)"
    and quiet_evaluate: "quiet s \<Longrightarrow> sf_evaluate fac s f = Inr (sig, s') \<Longrightarrow> quiet s' \<and> sg_action sig = 0"

definition disabled :: "strategy_model \<Rightarrow> bool" where
  "disabled m \<longleftrightarrow> \<not> sc_strategy_enable (sm_config m)"

lemma disabled_evaluate:
  assumes "disabled m" "evaluate m f = Inr (sig, m')"
  shows "disabled m' \<and> sg_action sig = 0"
proof -
  have "eligible_direction (sm_config m) b f = 0" for b
    using assms(1) by (simp add: eligible_direction_def disabled_def)
  then show ?thesis
    using assms by (auto simp: evaluate_def Let_def rbind_eq_Inr disabled_def split: if_splits)
qed

interpretation model: quiet_policy model_factory strategy_ok disabled
proof
  fix m f sig m'
  assume "disabled m" "sf_evaluate model_factory m f = Inr (sig, m')"
  with disabled_evaluate show "disabled m' \<and> sg_action sig = 0" by (simp add: model_factory_def)
qed (simp add: model_factory_def disabled_def strategy_reset_state_def Let_def)

section \<open>The ablation policy does not repeat itself\<close>

lemma research_step_last:
  assumes "research_ok n p" "0 \<le> ft_symbol_id f" "ft_symbol_id f < int n" "research_evaluate p f = Inr (sig, p')"
  shows "research_ok n p' \<and> re_config p' = re_config p \<and> re_excluded p' = re_excluded p \<and>
    sg_symbol_id sig = ft_symbol_id f \<and>
    (sg_action sig \<noteq> 0 \<longrightarrow> re_last p ! nat (ft_symbol_id f) \<noteq> sg_action sig \<and>
       re_last p' ! nat (ft_symbol_id f) = sg_action sig) \<and>
    (\<forall>s a. 0 \<le> s \<longrightarrow> s < int n \<longrightarrow> re_last p ! nat s = a \<longrightarrow>
       \<not> (ft_symbol_id f = s \<and> research_raw (re_config p) (re_excluded p) f \<notin> {0, a}) \<longrightarrow> re_last p' ! nat s = a)"
proof -
  have i: "nat (ft_symbol_id f) < length (re_last p)" using assms(1-3) by (simp add: research_ok_def)
  obtain sig1 p1 where "research_evaluate p f = Inr (sig1, p1)" and step: "research_ok n p1" "re_config p1 = re_config p"
    "re_excluded p1 = re_excluded p" "sg_symbol_id sig1 = ft_symbol_id f"
    "sg_action sig1 = (if research_fires p f \<and> feature_set_valid f \<and> sc_strategy_enable (re_config p)
      then research_raw (re_config p) (re_excluded p) f else 0)"
    "re_last p1 = (if research_fires p f
      then (re_last p)[nat (ft_symbol_id f) := research_raw (re_config p) (re_excluded p) f] else re_last p)"
    using research_evaluate_ok [OF assms(1-3)] by blast
  with assms(4) have same: "sig1 = sig" "p1 = p'" by simp_all
  have last: "re_last p' ! nat s = re_last p ! nat s"
    if "0 \<le> s" "\<not> (ft_symbol_id f = s \<and> research_raw (re_config p) (re_excluded p) f \<notin> {0, re_last p ! nat s})" for s
    using that step(6) i assms(2)
    by (auto simp: same research_fires_def Let_def nth_list_update)
  show ?thesis
    using step last i unfolding same by (auto simp: research_fires_def Let_def)
qed

lemma research_steps_last:
  assumes "research_ok n p" "\<forall>f\<in>set fs. 0 \<le> ft_symbol_id f \<and> ft_symbol_id f < int n"
    and "run_steps research_evaluate p fs = Inr (sigs, p')" "0 \<le> s" "s < int n" "re_last p ! nat s = a"
    and "\<forall>f\<in>set fs. \<not> (ft_symbol_id f = s \<and> research_raw (re_config p) (re_excluded p) f \<notin> {0, a})"
  shows "re_last p' ! nat s = a \<and> research_ok n p' \<and> re_config p' = re_config p \<and> re_excluded p' = re_excluded p"
  using assms
proof (induction fs arbitrary: p sigs)
  case Nil
  then show ?case by simp
next
  case (Cons f fs)
  then obtain sig p1 rest where step: "research_evaluate p f = Inr (sig, p1)" "run_steps research_evaluate p1 fs = Inr (rest, p')"
    by (auto simp: rbind_eq_Inr)
  have f: "0 \<le> ft_symbol_id f" "ft_symbol_id f < int n" using Cons.prems(2) by simp_all
  note s1 = research_step_last [OF Cons.prems(1) f step(1)]
  have "re_last p1 ! nat s = a" using s1 Cons.prems(4-7) by simp
  with Cons.IH [of p1 rest] s1 step(2) Cons.prems show ?case by simp
qed

lemma research_steps_ok:
  assumes "research_ok n p" "\<forall>f\<in>set fs. 0 \<le> ft_symbol_id f \<and> ft_symbol_id f < int n"
    and "run_steps research_evaluate p fs = Inr (sigs, p')"
  shows "research_ok n p' \<and> re_config p' = re_config p \<and> re_excluded p' = re_excluded p \<and> length sigs = length fs"
  using assms
proof (induction fs arbitrary: p sigs)
  case Nil
  then show ?case by simp
next
  case (Cons f fs)
  then obtain sig p1 rest where step: "research_evaluate p f = Inr (sig, p1)"
    "run_steps research_evaluate p1 fs = Inr (rest, p')" "sigs = sig # rest"
    by (auto simp: rbind_eq_Inr)
  have f: "0 \<le> ft_symbol_id f" "ft_symbol_id f < int n" using Cons.prems(2) by simp_all
  from Cons.IH [of p1 rest] research_step_last [OF Cons.prems(1) f step(1)] step(2,3) Cons.prems(2) show ?case by simp
qed

lemma run_steps_append:
  "run_steps step m (xs @ ys) =
     rbind (run_steps step m xs) (\<lambda>(outs, m'). rbind (run_steps step m' ys) (\<lambda>(more, m''). Inr (outs @ more, m'')))"
proof (induction xs arbitrary: m)
  case Nil
  then show ?case by (cases "run_steps step m ys") auto
next
  case (Cons x xs)
  have "run_steps step m (x # xs @ ys) = rbind (step m x) (\<lambda>(out, m').
      rbind (rbind (run_steps step m' xs) (\<lambda>(outs, m').
        rbind (run_steps step m' ys) (\<lambda>(more, m''). Inr (outs @ more, m'')))) (\<lambda>(outs, m''). Inr (out # outs, m'')))"
    by (simp add: Cons.IH)
  then show ?case
    by (auto simp: rbind_def split: sum.splits)
qed

text \<open>
  The ablation policy never repeats a direction by itself: between two candidates of one symbol
  with the same action there is always a feature of that symbol whose raw condition is the opposite
  direction, however often the condition lapsed and came back in between and whatever the cooldown
  is.
\<close>

theorem research_repeat_needs_reversal:
  assumes "run_steps research_evaluate (research_create excluded n cfg) (xs @ f # ys @ [g]) = Inr (sigs, p)"
    and "\<forall>h\<in>set (xs @ f # ys @ [g]). 0 \<le> ft_symbol_id h \<and> ft_symbol_id h < n"
    and "sg_action (sigs ! length xs) = a" "sg_action (last sigs) = a" "a \<noteq> 0" "ft_symbol_id g = ft_symbol_id f"
  shows "\<exists>h\<in>set ys. ft_symbol_id h = ft_symbol_id f \<and> research_raw cfg excluded h \<notin> {0, a}"
proof (rule ccontr)
  assume none: "\<not> ?thesis"
  let ?n = "nat n" and ?s = "ft_symbol_id f"
  have symbols: "\<forall>h\<in>set (xs @ f # ys @ [g]). 0 \<le> ft_symbol_id h \<and> ft_symbol_id h < int ?n" using assms(2) by auto
  obtain s1 p1 s2 p2 s3 p3 s4 where run:
    "run_steps research_evaluate (research_create excluded n cfg) xs = Inr (s1, p1)"
    "research_evaluate p1 f = Inr (s2, p2)" "run_steps research_evaluate p2 ys = Inr (s3, p3)"
    "research_evaluate p3 g = Inr (s4, p)" "sigs = s1 @ s2 # s3 @ [s4]"
    using assms(1) by (auto simp: run_steps_append run_steps_Cons_Inr rbind_eq_Inr)
  have "research_ok ?n (research_create excluded n cfg)" by (simp add: research_ok_def research_create_def)
  from research_steps_ok [OF this _ run(1)] symbols
  have p1: "research_ok ?n p1" "re_config p1 = cfg" "re_excluded p1 = excluded" "length s1 = length xs"
    by (auto simp: research_create_def)
  have f: "0 \<le> ?s" "?s < int ?n" using symbols by simp_all
  have "sg_action s2 = a" using assms(3) p1(4) by (simp add: run(5) nth_append)
  with research_step_last [OF p1(1) f run(2)] p1 assms(5)
  have p2: "research_ok ?n p2" "re_config p2 = cfg" "re_excluded p2 = excluded" "re_last p2 ! nat ?s = a" by auto
  have "re_last p3 ! nat ?s = a \<and> research_ok ?n p3"
    using research_steps_last [OF p2(1) _ run(3) f p2(4)] symbols none p2(2,3) by auto
  moreover have "sg_action s4 = a" using assms(4) by (simp add: run(5))
  ultimately show False
    using research_step_last [of ?n p3 g s4 p] run(4) f assms(5,6) by auto
qed

definition ablation_config :: strategy_config where
  "ablation_config = default_strategy_config\<lparr>sc_strategy_enable := True, sc_signal_cooldown_events := 0\<rparr>"

lemma ablation_run:
  "case run_steps research_evaluate (research_create [''imbalance''] 1 ablation_config)
      [demo_feature 0 200, demo_feature 0 (- 200), demo_feature 0 200] of
     Inl _ \<Rightarrow> False | Inr (sigs, _) \<Rightarrow> map sg_action sigs = [1, 2, 1]"
  by code_simp

theorem research_repeat_needs_reversal_witness:
  "research_raw ablation_config [''imbalance''] (demo_feature 0 (- 200)) \<notin> {0, 1}"
proof -
  obtain sigs p where run: "run_steps research_evaluate (research_create [''imbalance''] 1 ablation_config)
      ([] @ demo_feature 0 200 # [demo_feature 0 (- 200)] @ [demo_feature 0 200]) = Inr (sigs, p)"
    and actions: "map sg_action sigs = [1, 2, 1]"
    using ablation_run by (auto split: sum.splits)
  then obtain s1 s2 s3 where "sigs = [s1, s2, s3]" "sg_action s1 = 1" "sg_action s3 = 1"
    by (auto simp: map_eq_Cons_conv)
  then show ?thesis
    using research_repeat_needs_reversal [OF run, of 1] by (simp add: demo_feature_def)
qed

end
