(* ===== verification/Dataset_Splits.thy ===== *)
theory Dataset_Splits
  imports Session_Calendar Float64 "HOL-Library.AList" "HOL-Library.Multiset"
begin

text \<open>
  \<open>tools/backtest/splits.py\<close>: chronological train, validation and test splits by session date, and
  walk-forward windows over the dates. The clock of \<open>Session_Calendar\<close> gives the session date of
  an event; the fractions are floats, rounded by \<open>rnd\<close>. The window loop does not end when the
  step is negative, so it is a partial function: \<open>None\<close> is a call that does not return.
\<close>

section \<open>Slices\<close>

text \<open>\<open>xs[lo:hi]\<close>: negative bounds count from the end, and both are clamped to the list.\<close>

definition slice_bound :: "nat \<Rightarrow> int \<Rightarrow> nat" where
  "slice_bound n i = nat (if i < 0 then max 0 (i + int n) else min i (int n))"

definition py_slice :: "'a list \<Rightarrow> int \<Rightarrow> int \<Rightarrow> 'a list" where
  "py_slice xs lo hi =
     (let a = slice_bound (length xs) lo; b = slice_bound (length xs) hi in take (b - a) (drop a xs))"

lemma py_slice_inside:
  "0 \<le> lo \<Longrightarrow> lo \<le> hi \<Longrightarrow> hi \<le> int (length xs) \<Longrightarrow>
     py_slice xs lo hi = take (nat (hi - lo)) (drop (nat lo) xs)"
  by (simp add: py_slice_def slice_bound_def nat_diff_distrib Let_def)

lemma py_slice_nat:
  "a \<le> b \<Longrightarrow> b \<le> length xs \<Longrightarrow> py_slice xs (int a) (int b) = take (b - a) (drop a xs)"
  by (simp add: py_slice_inside nat_diff_distrib)

lemma py_slice_append:
  assumes "0 \<le> a" "a \<le> b" "b \<le> c" "c \<le> int (length xs)"
  shows "py_slice xs a b @ py_slice xs b c = py_slice xs a c"
proof -
  obtain i j k where ijk: "a = int i" "b = int j" "c = int k"
    using assms by (metis nonneg_int_cases order_trans)
  then have "i \<le> j" "j \<le> k" "k \<le> length xs" using assms by simp_all
  then have "take (j - i) (drop i xs) @ take (k - j) (drop j xs) = take (k - i) (drop i xs)"
    using take_add [of "j - i" "k - j" "drop i xs"] by simp
  then show ?thesis using \<open>i \<le> j\<close> \<open>j \<le> k\<close> \<open>k \<le> length xs\<close> by (simp add: ijk py_slice_nat)
qed

lemma length_py_slice:
  assumes "0 \<le> a" "a \<le> b" "b \<le> int (length xs)"
  shows "length (py_slice xs a b) = nat (b - a)"
proof -
  obtain i j where "a = int i" "b = int j"
    using assms by (metis nonneg_int_cases order_trans)
  then show ?thesis using assms by (simp add: py_slice_nat)
qed

lemma sorted_py_slice: "sorted_wrt P xs \<Longrightarrow> sorted_wrt P (py_slice xs a b)"
  by (simp add: py_slice_def Let_def sorted_wrt_take sorted_wrt_drop)

section \<open>Events by date\<close>

type_synonym date_map = "(int \<times> normalized_event list) list"

definition dated :: "date_map \<Rightarrow> int \<Rightarrow> normalized_event list" where
  "dated m day = (case map_of m day of None \<Rightarrow> [] | Some es \<Rightarrow> es)"

definition date_map_of :: "(int \<Rightarrow> local_time) \<Rightarrow> normalized_event list \<Rightarrow> date_map" where
  "date_map_of clock events =
     foldl (\<lambda>m e. let day = session_date clock (ne_timestamp_ns e) in AList.update day (dated m day @ [e]) m)
       [] (sort_events events)"

definition split_dates :: "date_map \<Rightarrow> int list" where
  "split_dates m = sort (map fst m)"

definition events_for :: "date_map \<Rightarrow> int list \<Rightarrow> normalized_event list" where
  "events_for m days = concat (map (dated m) days)"

section \<open>Chronological splits\<close>

record dataset_split =
  ds_train :: "normalized_event list"
  ds_validation :: "normalized_event list"
  ds_test :: "normalized_event list"
  ds_train_dates :: "int list"
  ds_validation_dates :: "int list"
  ds_test_dates :: "int list"

definition split_at :: "date_map \<Rightarrow> int list \<Rightarrow> int list \<Rightarrow> int list \<Rightarrow> dataset_split" where
  "split_at m train validation test =
     \<lparr>ds_train = events_for m train, ds_validation = events_for m validation, ds_test = events_for m test,
      ds_train_dates = train, ds_validation_dates = validation, ds_test_dates = test\<rparr>"

definition chronological_split ::
  "(rat \<Rightarrow> rat) \<Rightarrow> (int \<Rightarrow> local_time) \<Rightarrow> rat \<Rightarrow> rat \<Rightarrow> normalized_event list \<Rightarrow> dataset_split result" where
  "chronological_split rnd clock train_fraction validation_fraction events =
     (if train_fraction \<le> 0 \<or> validation_fraction < 0 \<or> rnd (train_fraction + validation_fraction) \<ge> 1
      then Inl (ValueError ''fractions must leave a non-empty test split'')
      else
        let mapping = date_map_of clock events; dates = split_dates mapping; n = int (length dates);
            train_end = max 1 (py_trunc (rnd (of_int n * train_fraction)));
            validation_end = min (n - 1) (train_end + py_trunc (rnd (of_int n * validation_fraction)))
        in Inr (split_at mapping (py_slice dates 0 train_end) (py_slice dates train_end validation_end)
             (py_slice dates validation_end n)))"

section \<open>Walk-forward windows\<close>

record walk_forward_window = dataset_split +
  ww_index :: int

definition window_at :: "date_map \<Rightarrow> int list \<Rightarrow> int \<Rightarrow> int \<Rightarrow> int \<Rightarrow> int \<Rightarrow> int \<Rightarrow> walk_forward_window" where
  "window_at m dates train_days validation_days test_days start index =
     (let train = py_slice dates start (start + train_days);
          validation_start = start + train_days;
          validation = py_slice dates validation_start (validation_start + validation_days);
          test_start = validation_start + validation_days;
          test = py_slice dates test_start (test_start + test_days)
      in \<lparr>ds_train = events_for m train, ds_validation = events_for m validation,
          ds_test = events_for m test, ds_train_dates = train, ds_validation_dates = validation,
          ds_test_dates = test, ww_index = index\<rparr>)"

partial_function (option) walk_loop ::
  "(int \<Rightarrow> int \<Rightarrow> walk_forward_window) \<Rightarrow> int \<Rightarrow> int \<Rightarrow> int \<Rightarrow> int \<Rightarrow> int \<Rightarrow> walk_forward_window list option" where
  "walk_loop window n needed step start index =
     (if start + needed \<le> n
      then Option.bind (walk_loop window n needed step (start + step) (index + 1))
             (\<lambda>rest. Some (window start index # rest))
      else Some [])"

definition walk_forward_windows ::
  "(int \<Rightarrow> local_time) \<Rightarrow> int \<Rightarrow> int \<Rightarrow> int \<Rightarrow> int option \<Rightarrow> normalized_event list \<Rightarrow>
     walk_forward_window list result option" where
  "walk_forward_windows clock train_days validation_days test_days step_days events =
     (if min train_days test_days < 1 \<or> validation_days < 0
      then Some (Inl (ValueError ''train_days and test_days must be positive''))
      else
        let mapping = date_map_of clock events; dates = split_dates mapping;
            step = (case step_days of None \<Rightarrow> test_days | Some s \<Rightarrow> if s = 0 then test_days else s)
        in map_option Inr
             (walk_loop (window_at mapping dates train_days validation_days test_days)
                (int (length dates)) (train_days + validation_days + test_days) step 0 0))"

section \<open>The loop\<close>

text \<open>How many windows a positive step gives.\<close>

definition window_count :: "int \<Rightarrow> int \<Rightarrow> int \<Rightarrow> nat" where
  "window_count n needed step = (if n < needed then 0 else nat ((n - needed) div step + 1))"

lemma walk_loop_forward:
  assumes "0 < step"
  shows "walk_loop window n needed step start index =
    Some (map (\<lambda>k. window (start + int k * step) (index + int k)) [0..<window_count (n - start) needed step])"
proof (induction "nat (n - start - needed + step)" arbitrary: start index rule: less_induct)
  case less
  show ?case
  proof (cases "start + needed \<le> n")
    case False
    then show ?thesis by (subst walk_loop.simps) (simp add: window_count_def)
  next
    case True
    have "walk_loop window n needed step (start + step) (index + 1) =
      Some (map (\<lambda>k. window (start + step + int k * step) (index + 1 + int k))
        [0..<window_count (n - (start + step)) needed step])"
      by (rule less) (use True assms in linarith)
    moreover have "window_count (n - start) needed step = Suc (window_count (n - (start + step)) needed step)"
    proof (cases "n - (start + step) < needed")
      case True
      then have "(n - start - needed) div step = 0" using \<open>start + needed \<le> n\<close> by (intro div_pos_pos_trivial) simp_all
      then show ?thesis using True \<open>start + needed \<le> n\<close> by (simp add: window_count_def)
    next
      case False
      have "(n - start - needed) div step = (n - (start + step) - needed) div step + 1"
      proof -
        have "n - start - needed = n - (start + step) - needed + step" by simp
        then show ?thesis by (rule ssubst) (rule div_add_self2, use assms in simp)
      qed
      moreover have "0 \<le> (n - (start + step) - needed) div step"
        using False assms by (simp add: pos_imp_zdiv_nonneg_iff)
      ultimately show ?thesis using False True assms by (simp add: window_count_def nat_add_distrib)
    qed
    ultimately show ?thesis
      using True by (subst walk_loop.simps)
        (simp add: upt_conv_Cons map_Suc_upt [symmetric] algebra_simps o_def del: upt_Suc)
  qed
qed

lemma walk_loop_backward:
  assumes "walk_loop window n needed step start index = Some ws" "step < 0"
  shows "n < start + needed"
proof -
  let ?P = "\<lambda>window n needed step start index ws. step < 0 \<longrightarrow> n < start + needed"
  have "?P window n needed step start index ws"
  proof (rule walk_loop.raw_induct [OF _ assms(1), where P = ?P])
    fix rec window n needed step start index ws
    assume IH: "\<And>window n needed step start index ws.
        rec window n needed step start index = Some ws \<Longrightarrow> step < 0 \<longrightarrow> n < start + (needed :: int)"
      and body: "(if start + needed \<le> n
        then Option.bind (rec window n needed step (start + step) (index + 1))
          (\<lambda>rest. Some (window start index # rest))
        else Some []) = Some ws"
    show "step < 0 \<longrightarrow> n < start + needed"
      using body by (cases "start + needed \<le> n") (auto simp: Option.bind_eq_Some_conv dest!: IH)
  qed
  with assms(2) show ?thesis by simp
qed

section \<open>The date map\<close>

abbreviation event_date :: "(int \<Rightarrow> local_time) \<Rightarrow> normalized_event \<Rightarrow> int" where
  "event_date clock e \<equiv> session_date clock (ne_timestamp_ns e)"

definition event_dates :: "(int \<Rightarrow> local_time) \<Rightarrow> normalized_event list \<Rightarrow> int set" where
  "event_dates clock events = event_date clock ` set events"

lemma dated_update:
  "dated (AList.update day es m) day' = (if day' = day then es else dated m day')"
  by (simp add: dated_def update_conv')

lemma date_map_foldl:
  fixes clock :: "int \<Rightarrow> local_time"
  defines "add \<equiv> \<lambda>m e. let day = event_date clock e in AList.update day (dated m day @ [e]) m"
  shows "distinct (map fst m) \<Longrightarrow> distinct (map fst (foldl add m es))"
    and "fst ` set (foldl add m es) = fst ` set m \<union> event_date clock ` set es"
    and "dated (foldl add m es) day = dated m day @ filter (\<lambda>e. event_date clock e = day) es"
proof (induction es arbitrary: m)
  case Nil
  { case 1 then show ?case by simp next case 2 then show ?case by simp next case 3 then show ?case by simp }
next
  case (Cons e es)
  {
    case 1
    then show ?case using Cons(1) [of "add m e"] by (simp add: add_def Let_def distinct_update)
  next
    case 2
    then show ?case using Cons(2) [of "add m e"] by (auto simp: add_def Let_def dom_update)
  next
    case 3
    then show ?case using Cons(3) [of "add m e"] by (simp add: add_def Let_def dated_update)
  }
qed

lemma split_dates_date_map:
  "sorted_wrt (<) (split_dates (date_map_of clock events))"
  "set (split_dates (date_map_of clock events)) = event_dates clock events"
proof -
  show "sorted_wrt (<) (split_dates (date_map_of clock events))"
    using date_map_foldl(1) [of "[]" clock "sort_events events"]
    by (simp add: strict_sorted_iff split_dates_def date_map_of_def)
  show "set (split_dates (date_map_of clock events)) = event_dates clock events"
    using date_map_foldl(2) [of clock "[]" "sort_events events"]
    by (simp add: split_dates_def date_map_of_def event_dates_def sort_events_def)
qed

lemma length_split_dates: "length (split_dates (date_map_of clock events)) = card (event_dates clock events)"
  using split_dates_date_map [of clock events] distinct_card
  by (metis strict_sorted_iff)

lemma mset_concat_filter:
  "distinct days \<Longrightarrow> mset (concat (map (\<lambda>day. filter (\<lambda>e. f e = day) es) days)) = {# e \<in># mset es. f e \<in> set days #}"
proof (induction days)
  case Nil
  then show ?case by simp
next
  case (Cons day days)
  have "{# e \<in># mset es. f e = day \<or> f e \<in> set days #} =
      {# e \<in># mset es. f e = day #} + {# e \<in># mset es. f e \<in> set days #}"
    using Cons.prems by (induction es) auto
  with Cons show ?case by simp
qed

lemma dated_date_map:
  "dated (date_map_of clock events) = (\<lambda>day. filter (\<lambda>e. event_date clock e = day) (sort_events events))"
  using date_map_foldl(3) [of clock "[]" "sort_events events"]
  by (simp add: date_map_of_def dated_def [of "[]"] fun_eq_iff)

lemma mset_events_for:
  "distinct days \<Longrightarrow> mset (events_for (date_map_of clock events) days) =
     {# e \<in># mset events. event_date clock e \<in> set days #}"
  using mset_concat_filter [of days "event_date clock" "sort_events events"]
  by (simp add: events_for_def dated_date_map sort_events_def)

text \<open>What every split promises: three runs of dates in order, each part with the events of its dates.\<close>

definition chronological :: "(int \<Rightarrow> local_time) \<Rightarrow> normalized_event list \<Rightarrow> 'a dataset_split_scheme \<Rightarrow> bool" where
  "chronological clock events s \<longleftrightarrow>
     sorted_wrt (<) (ds_train_dates s @ ds_validation_dates s @ ds_test_dates s) \<and>
     mset (ds_train s) = {# e \<in># mset events. event_date clock e \<in> set (ds_train_dates s) #} \<and>
     mset (ds_validation s) = {# e \<in># mset events. event_date clock e \<in> set (ds_validation_dates s) #} \<and>
     mset (ds_test s) = {# e \<in># mset events. event_date clock e \<in> set (ds_test_dates s) #}"

lemma chronological_parts:
  assumes "sorted_wrt (<) (ds_train_dates s @ ds_validation_dates s @ ds_test_dates s)"
    and "ds_train s = events_for (date_map_of clock events) (ds_train_dates s)"
    and "ds_validation s = events_for (date_map_of clock events) (ds_validation_dates s)"
    and "ds_test s = events_for (date_map_of clock events) (ds_test_dates s)"
  shows "chronological clock events s"
  using assms by (simp add: chronological_def mset_events_for strict_sorted_iff)

section \<open>Walk-forward windows\<close>

text \<open>
  C26: \<open>walk_forward_windows\<close> fails to return exactly when its day counts are accepted, the step is
  negative and the dataset has enough dates for one window: its loop then never ends. For every
  other argument it terminates.
\<close>

theorem walk_forward_diverges_iff:
  "walk_forward_windows clock train_days validation_days test_days step_days events = None \<longleftrightarrow>
     1 \<le> train_days \<and> 1 \<le> test_days \<and> 0 \<le> validation_days \<and> (\<exists>s < 0. step_days = Some s) \<and>
     train_days + validation_days + test_days \<le> int (card (event_dates clock events))"
proof (cases "min train_days test_days < 1 \<or> validation_days < 0")
  case True
  then show ?thesis by (auto simp: walk_forward_windows_def)
next
  case False
  define step where "step = (case step_days of None \<Rightarrow> test_days | Some s \<Rightarrow> if s = 0 then test_days else s)"
  let ?needed = "train_days + validation_days + test_days"
  let ?n = "int (length (split_dates (date_map_of clock events)))"
  let ?window = "window_at (date_map_of clock events) (split_dates (date_map_of clock events))
    train_days validation_days test_days"
  have negative: "step < 0 \<longleftrightarrow> (\<exists>s < 0. step_days = Some s)"
    using False by (auto simp: step_def split: option.split if_splits)
  have "step \<noteq> 0" using False by (auto simp: step_def split: option.split)
  have "walk_loop ?window ?n ?needed step 0 0 = None \<longleftrightarrow> step < 0 \<and> ?needed \<le> ?n"
  proof (cases "step < 0")
    case True
    show ?thesis
    proof (cases "?needed \<le> ?n")
      case False
      then have "walk_loop ?window ?n ?needed step 0 0 = Some []" by (subst walk_loop.simps) simp
      with False show ?thesis by simp
    next
      case enough: True
      have "walk_loop ?window ?n ?needed step 0 0 = None"
      proof (rule ccontr)
        assume "walk_loop ?window ?n ?needed step 0 0 \<noteq> None"
        then obtain ws where "walk_loop ?window ?n ?needed step 0 0 = Some ws" by blast
        from walk_loop_backward [OF this True] enough show False by simp
      qed
      with True enough show ?thesis by simp
    qed
  next
    case forward: False
    with \<open>step \<noteq> 0\<close> have "0 < step" by simp
    from walk_loop_forward [OF this] forward show ?thesis by simp
  qed
  moreover have "walk_forward_windows clock train_days validation_days test_days step_days events =
      map_option Inr (walk_loop ?window ?n ?needed step 0 0)"
    using False by (simp add: walk_forward_windows_def step_def Let_def)
  ultimately show ?thesis using False negative by (auto simp: length_split_dates)
qed

text \<open>
  Every returned list of walk-forward windows has one window per multiple of the step that
  leaves room for a whole window, numbered in order; each is chronological, has exactly the
  requested numbers of dates, and its dates are consecutive in the sorted dates of the events.
\<close>

theorem walk_forward_windows_shape:
  assumes "walk_forward_windows clock train_days validation_days test_days step_days events = Some (Inr ws)"
  defines "step \<equiv> (case step_days of None \<Rightarrow> test_days | Some s \<Rightarrow> if s = 0 then test_days else s)"
    and "needed \<equiv> train_days + validation_days + test_days"
  shows "length ws = window_count (int (card (event_dates clock events))) needed step \<and>
    (\<forall>k < length ws. chronological clock events (ws ! k) \<and> ww_index (ws ! k) = int k \<and>
       length (ds_train_dates (ws ! k)) = nat train_days \<and>
       length (ds_validation_dates (ws ! k)) = nat validation_days \<and>
       length (ds_test_dates (ws ! k)) = nat test_days \<and>
       ds_train_dates (ws ! k) @ ds_validation_dates (ws ! k) @ ds_test_dates (ws ! k) =
         take (nat needed) (drop (k * nat step) (split_dates (date_map_of clock events))))"
proof -
  let ?m = "date_map_of clock events" let ?dates = "split_dates ?m" let ?n = "int (length ?dates)"
  let ?window = "window_at ?m ?dates train_days validation_days test_days"
  have args: "1 \<le> train_days" "1 \<le> test_days" "0 \<le> validation_days"
    using assms(1) by (auto simp: walk_forward_windows_def split: if_splits)
  have ws: "walk_loop ?window ?n needed step 0 0 = Some ws"
    using assms(1) by (auto simp: walk_forward_windows_def Let_def step_def needed_def split: if_splits)
  have "step \<noteq> 0" using args by (auto simp: step_def split: option.split)
  have ws_eq: "ws = map (\<lambda>k. ?window (int k * step) (int k)) [0..<window_count ?n needed step]"
  proof (cases "0 < step")
    case True
    from walk_loop_forward [OF this, of ?window ?n needed 0 0] ws show ?thesis by simp
  next
    case False
    with \<open>step \<noteq> 0\<close> walk_loop_backward [OF ws] have "?n < needed" by simp
    with ws show ?thesis by (subst (asm) walk_loop.simps) (simp add: window_count_def)
  qed
  have "chronological clock events (ws ! k) \<and> ww_index (ws ! k) = int k \<and>
       length (ds_train_dates (ws ! k)) = nat train_days \<and>
       length (ds_validation_dates (ws ! k)) = nat validation_days \<and>
       length (ds_test_dates (ws ! k)) = nat test_days \<and>
       ds_train_dates (ws ! k) @ ds_validation_dates (ws ! k) @ ds_test_dates (ws ! k) =
         take (nat needed) (drop (k * nat step) ?dates)" if k: "k < length ws" for k
  proof -
    let ?s = "int k * step"
    have w: "ws ! k = ?window ?s (int k)" using k by (simp add: ws_eq)
    have k': "k < window_count ?n needed step" using k by (simp add: ws_eq)
    then have enough: "needed \<le> ?n" by (auto simp: window_count_def split: if_splits)
    with walk_loop_backward [OF ws] \<open>step \<noteq> 0\<close> have "0 < step" by fastforce
    have "0 \<le> (?n - needed) div step" using enough \<open>0 < step\<close> by (simp add: pos_imp_zdiv_nonneg_iff)
    with k' enough have "int k \<le> (?n - needed) div step" by (simp add: window_count_def)
    then have "?s \<le> (?n - needed) div step * step" using \<open>0 < step\<close> by (simp add: mult_right_mono)
    also have "\<dots> \<le> ?n - needed"
      using div_mult_mod_eq [of "?n - needed" step] pos_mod_sign [OF \<open>0 < step\<close>, of "?n - needed"] by linarith
    finally have room: "?s + needed \<le> ?n" by simp
    have "0 \<le> ?s" using \<open>0 < step\<close> by simp
    note bounds = this room args
    have join: "ds_train_dates (ws ! k) @ ds_validation_dates (ws ! k) @ ds_test_dates (ws ! k) =
        py_slice ?dates ?s (?s + needed)"
      using bounds by (simp add: w window_at_def Let_def needed_def py_slice_append algebra_simps)
    then have "chronological clock events (ws ! k)"
      by (intro chronological_parts)
        (simp_all add: sorted_py_slice split_dates_date_map, simp_all add: w window_at_def Let_def)
    moreover have "py_slice ?dates ?s (?s + needed) = take (nat needed) (drop (k * nat step) ?dates)"
      using bounds \<open>0 < step\<close> by (simp add: py_slice_inside nat_mult_distrib needed_def)
    moreover have "length (ds_train_dates (ws ! k)) = nat train_days \<and>
        length (ds_validation_dates (ws ! k)) = nat validation_days \<and>
        length (ds_test_dates (ws ! k)) = nat test_days \<and> ww_index (ws ! k) = int k"
      using bounds by (simp add: w window_at_def Let_def needed_def length_py_slice)
    ultimately show ?thesis unfolding join by simp
  qed
  then show ?thesis by (simp add: ws_eq length_split_dates)
qed

section \<open>Chronological splits\<close>

text \<open>
  C10: A dataset of at least two session dates is split chronologically: the three runs of dates
  partition the sorted dates, training and test each get at least one, every event lands in the
  part of its date and in no other. The fractions are binary64 values, the products are rounded.
\<close>

theorem chronological_split_partitions:
  assumes "chronological_split fl64 clock train_fraction validation_fraction events = Inr s"
    and "fl64 train_fraction = train_fraction" "2 \<le> card (event_dates clock events)" "length events \<le> 2 ^ 53"
  shows "chronological clock events s \<and> ds_train_dates s \<noteq> [] \<and> ds_test_dates s \<noteq> [] \<and>
    set (ds_train_dates s @ ds_validation_dates s @ ds_test_dates s) = event_dates clock events \<and>
    mset (ds_train s @ ds_validation s @ ds_test s) = mset events"
proof -
  let ?m = "date_map_of clock events" let ?dates = "split_dates ?m" let ?n = "int (length ?dates)"
  define a where "a = max 1 (py_trunc (fl64 (of_int ?n * train_fraction)))"
  define b where "b = min (?n - 1) (a + py_trunc (fl64 (of_int ?n * validation_fraction)))"
  have fractions: "0 < train_fraction" "0 \<le> validation_fraction" "fl64 (train_fraction + validation_fraction) < 1"
    and s: "s = split_at ?m (py_slice ?dates 0 a) (py_slice ?dates a b) (py_slice ?dates b ?n)"
    using assms(1) by (auto simp: chronological_split_def a_def b_def Let_def split: if_splits)
  have "train_fraction < 1"
    using fl64_mono [of train_fraction "train_fraction + validation_fraction"] fractions assms(2) by simp
  moreover have "length ?dates \<le> length events"
    using card_image_le [of "set events" "event_date clock"] card_length [of events]
    by (simp add: length_split_dates event_dates_def)
  ultimately have a: "1 \<le> a" "a \<le> ?n - 1"
    using trunc_fraction_below [of ?n train_fraction] fractions(1) assms(2-4)
    by (auto simp: a_def length_split_dates)
  have "0 \<le> py_trunc (fl64 (of_int ?n * validation_fraction))"
    using fl64_nonneg [of "of_int ?n * validation_fraction"] fractions(2) by (simp add: py_trunc_def)
  with a have b: "a \<le> b" "b \<le> ?n - 1" by (auto simp: b_def)
  have join: "ds_train_dates s @ ds_validation_dates s @ ds_test_dates s = ?dates"
    using a b by (simp add: s split_at_def py_slice_append) (simp add: py_slice_inside)
  then have chron: "chronological clock events s"
    by (intro chronological_parts) (simp_all add: split_dates_date_map, simp_all add: s split_at_def)
  have "ds_train_dates s \<noteq> []" "ds_test_dates s \<noteq> []"
    using a b length_py_slice [of 0 a ?dates] length_py_slice [of b ?n ?dates]
    by (auto simp: s split_at_def)
  moreover have "ds_train s @ ds_validation s @ ds_test s = events_for ?m ?dates"
    unfolding join [symmetric] by (simp add: s split_at_def events_for_def)
  moreover have "{# e \<in># mset events. event_date clock e \<in> event_dates clock events #} = mset events"
    by (simp add: event_dates_def filter_mset_eq_conv)
  then have "mset (events_for ?m ?dates) = mset events"
    using split_dates_date_map [of clock events] by (simp add: mset_events_for strict_sorted_iff)
  ultimately show ?thesis using chron by (simp only: join split_dates_date_map) simp
qed

text \<open>
  With a single session date there is nothing to split: whatever the fractions, the test part is
  the training part, all of the events, and the validation part is empty.
\<close>

theorem single_date_split_leaks:
  assumes "chronological_split fl64 clock train_fraction validation_fraction events = Inr s"
    and "event_dates clock events = {day}"
  shows "ds_train_dates s = [day] \<and> ds_test_dates s = [day] \<and> ds_train s = sort_events events \<and>
    ds_test s = ds_train s \<and> ds_validation s = []"
proof -
  let ?m = "date_map_of clock events" let ?dates = "split_dates ?m" let ?n = "int (length ?dates)"
  have "length ?dates = 1" "set ?dates = {day}"
    using assms(2) by (simp_all add: length_split_dates split_dates_date_map)
  then have dates: "?dates = [day]" by (auto simp: length_Suc_conv)
  define a where "a = max 1 (py_trunc (fl64 train_fraction))"
  have "0 \<le> py_trunc (fl64 validation_fraction)" if "0 \<le> validation_fraction"
    using fl64_nonneg [OF that] by (simp add: py_trunc_def)
  then have s: "s = split_at ?m (py_slice [day] 0 a) (py_slice [day] a 0) (py_slice [day] 0 1)"
    using assms(1) by (auto simp: chronological_split_def a_def Let_def dates split: if_splits)
  have "py_slice [day] 0 a = [day]" "py_slice [day] a 0 = []" "py_slice [day] 0 1 = [day]"
    by (simp_all add: py_slice_def slice_bound_def a_def)
  moreover have "events_for ?m [day] = sort_events events"
    using assms(2) by (auto simp: events_for_def dated_date_map event_dates_def sort_events_def filter_id_conv)
  ultimately show ?thesis by (simp add: s split_at_def events_for_def)
qed

section \<open>A dataset of three days\<close>

definition day_event :: "int \<Rightarrow> normalized_event" where
  "day_event ts =
     \<lparr>ne_timestamp_ns = ts, ne_event_type = 1, ne_symbol_id = 0, ne_price = 1, ne_quantity = 1, ne_side = 0,
      ne_sequence = None, ne_flags = 0, ne_source_index = ts, ne_source = []\<rparr>"

definition day_clock :: "int \<Rightarrow> local_time" where
  "day_clock ts = \<lparr>lt_year = 2024, lt_day = ts, lt_time = 0\<rparr>"

lemma event_dates_days: "event_dates day_clock (map day_event ts) = set ts"
  by (simp add: event_dates_def day_event_def day_clock_def session_date_def image_image)

lemma split_ok:
  "\<exists>s. chronological_split fl64 day_clock (1 / 2) (1 / 4) events = Inr s"
proof -
  have "\<not> 1 \<le> fl64 (1 / 2 + 1 / 4)" by code_simp
  then show ?thesis by (simp add: chronological_split_def Let_def)
qed

theorem walk_forward_windows_shape_witness:
  "\<exists>ws. walk_forward_windows day_clock 1 0 1 None (map day_event [3, 1, 2]) = Some (Inr ws) \<and>
     length ws = 2 \<and> chronological day_clock (map day_event [3, 1, 2]) (ws ! 1)"
proof -
  obtain ws where ws: "walk_forward_windows day_clock 1 0 1 None (map day_event [3, 1, 2]) = Some (Inr ws)"
    by (simp add: walk_forward_windows_def walk_loop_forward Let_def)
  have "card (event_dates day_clock (map day_event [3, 1, 2])) = 3"
    unfolding event_dates_days by simp
  with walk_forward_windows_shape [OF ws] ws show ?thesis by (simp add: window_count_def)
qed

theorem chronological_split_partitions_witness:
  "\<exists>s. chronological_split fl64 day_clock (1 / 2) (1 / 4) (map day_event [3, 1, 2]) = Inr s \<and>
     ds_train_dates s \<noteq> [] \<and> ds_test_dates s \<noteq> [] \<and>
     set (ds_train_dates s @ ds_validation_dates s @ ds_test_dates s) = {1, 2, 3}"
proof -
  obtain s where s: "chronological_split fl64 day_clock (1 / 2) (1 / 4) (map day_event [3, 1, 2]) = Inr s"
    using split_ok by blast
  have "fl64 (1 / 2) = 1 / 2" by code_simp
  moreover have "event_dates day_clock (map day_event [3, 1, 2]) = {1, 2, 3}"
    unfolding event_dates_days by auto
  ultimately show ?thesis using chronological_split_partitions [OF s] s by simp
qed

theorem single_date_split_leaks_witness:
  "\<exists>s. chronological_split fl64 day_clock (1 / 2) (1 / 4) (map day_event [5, 5]) = Inr s \<and>
     ds_train_dates s = [5] \<and> ds_test_dates s = [5]"
proof -
  obtain s where s: "chronological_split fl64 day_clock (1 / 2) (1 / 4) (map day_event [5, 5]) = Inr s"
    using split_ok by blast
  have "event_dates day_clock (map day_event [5, 5]) = {5}" unfolding event_dates_days by simp
  with single_date_split_leaks [OF s] s show ?thesis by blast
qed

end
