(* ===== verification/Arrival_Capacity.thy ===== *)
theory Arrival_Capacity
  imports Arrival_Statistics Canonical_Events "HOL-Library.AList"
begin

text \<open>
  The capacity simulation of \<open>tools/backtest/arrival.py\<close>: a serial server with a bounded queue, fed
  with the event times. Times are scaled by the clock so that service times are integers. The file
  has it twice, over a sorted list (\<open>_simulate_depth\<close>) and one event at a time (\<open>_CapacityState\<close>).
\<close>

section \<open>Shared steps\<close>

definition outstanding_jobs :: "int \<Rightarrow> int \<Rightarrow> int \<Rightarrow> int result" where
  "outstanding_jobs service_num server_available arrival =
     (if server_available \<le> arrival then Inr 0
      else int_floordiv (server_available - arrival + service_num - 1) service_num)"

definition queue_full :: "int option \<Rightarrow> int \<Rightarrow> bool" where
  "queue_full depth outstanding = (case depth of None \<Rightarrow> False | Some d \<Rightarrow> outstanding \<ge> d)"

definition close_busy :: "int \<Rightarrow> int option \<Rightarrow> int option \<Rightarrow> int \<Rightarrow> int result" where
  "close_busy clock_hz busy_start busy_end longest =
     (case (busy_start, busy_end) of
        (Some a, Some b) \<Rightarrow>
          rbind (int_floordiv b clock_hz) (\<lambda>x. rbind (int_floordiv a clock_hz) (\<lambda>y. Inr (max longest (x - y))))
      | _ \<Rightarrow> Inr longest)"

record capacity_report =
  cr_max_occupancy :: rat
  cr_mean_occupancy :: rat
  cr_p95_occupancy :: rat
  cr_p99_occupancy :: rat
  cr_overflow_events :: int
  cr_longest_non_empty_interval_ns :: int
  cr_maximum_backlog_duration_ns :: int

section \<open>Over a sorted list\<close>

record depth_loop =
  dl_server_available :: int
  dl_occupancies :: "int list"
  dl_overflow :: int
  dl_busy_start :: "int option"
  dl_longest_busy :: int
  dl_current_busy_end :: "int option"

definition depth_start :: depth_loop where
  "depth_start = \<lparr>dl_server_available = 0, dl_occupancies = [], dl_overflow = 0, dl_busy_start = None,
     dl_longest_busy = 0, dl_current_busy_end = None\<rparr>"

definition depth_step :: "int option \<Rightarrow> int \<Rightarrow> int \<Rightarrow> depth_loop \<Rightarrow> int \<Rightarrow> depth_loop result" where
  "depth_step depth service_num clock_hz b timestamp_ns =
     (let arrival = timestamp_ns * clock_hz in
      rbind (if dl_server_available b \<le> arrival
             then rbind (close_busy clock_hz (dl_busy_start b) (dl_current_busy_end b) (dl_longest_busy b))
                    (\<lambda>longest. Inr (b\<lparr>dl_longest_busy := longest, dl_busy_start := Some arrival\<rparr>))
             else Inr b) (\<lambda>b.
      rbind (outstanding_jobs service_num (dl_server_available b) arrival) (\<lambda>outstanding.
      if queue_full depth outstanding
      then Inr (b\<lparr>dl_overflow := dl_overflow b + 1, dl_occupancies := dl_occupancies b @ [outstanding]\<rparr>)
      else
        let available = max (dl_server_available b) arrival + service_num in
        rbind (int_floordiv (available - arrival + service_num - 1) service_num) (\<lambda>occupancy_after.
        Inr (b\<lparr>dl_server_available := available, dl_current_busy_end := Some available,
               dl_occupancies := dl_occupancies b @ [occupancy_after]\<rparr>)))))"

definition depth_report :: "(rat \<Rightarrow> rat) \<Rightarrow> int \<Rightarrow> int \<Rightarrow> int \<Rightarrow> depth_loop \<Rightarrow> capacity_report" where
  "depth_report rnd last_timestamp longest available b =
     (let occs = map of_int (dl_occupancies b);
          pc = (\<lambda>k. case percentile rnd occs (rnd (k / 100)) of None \<Rightarrow> 0 | Some x \<Rightarrow> x)
      in \<lparr>cr_max_occupancy = (case extreme_of max occs of None \<Rightarrow> 0 | Some x \<Rightarrow> x),
          cr_mean_occupancy = (if occs = [] then 0 else int_mean_of rnd occs),
          cr_p95_occupancy = pc 95, cr_p99_occupancy = pc 99,
          cr_overflow_events = dl_overflow b, cr_longest_non_empty_interval_ns = longest,
          cr_maximum_backlog_duration_ns = max 0 (available - last_timestamp)\<rparr>)"

definition simulate_depth ::
  "(rat \<Rightarrow> rat) \<Rightarrow> int list \<Rightarrow> int option \<Rightarrow> int \<Rightarrow> int \<Rightarrow> capacity_report result" where
  "simulate_depth rnd timestamps depth service_num clock_hz =
     (if timestamps = []
      then Inr \<lparr>cr_max_occupancy = 0, cr_mean_occupancy = 0, cr_p95_occupancy = 0, cr_p99_occupancy = 0,
                cr_overflow_events = 0, cr_longest_non_empty_interval_ns = 0, cr_maximum_backlog_duration_ns = 0\<rparr>
      else
        rbind (fold_result (depth_step depth service_num clock_hz) depth_start timestamps) (\<lambda>b.
        rbind (close_busy clock_hz (dl_busy_start b) (dl_current_busy_end b) (dl_longest_busy b)) (\<lambda>longest.
        rbind (int_floordiv (dl_server_available b) clock_hz) (\<lambda>available.
        Inr (depth_report rnd (last timestamps) longest available b)))))"

record capacity_analysis =
  cy_service_cycles :: int
  cy_clock_hz :: int
  cy_service_interval_ns :: rat
  cy_finite_depths :: "(string \<times> capacity_report) list"
  cy_infinite_queue :: capacity_report

definition capacity_analysis_of ::
  "(rat \<Rightarrow> rat) \<Rightarrow> int \<Rightarrow> int \<Rightarrow> int list \<Rightarrow> (int option \<Rightarrow> capacity_report result) \<Rightarrow> capacity_analysis result" where
  "capacity_analysis_of rnd service_cycles clock_hz depths report =
     rbind (fold_result (\<lambda>d depth. rbind (report (Some depth)) (\<lambda>r. Inr (AList.update (py_str_int depth) r d)))
              [] depths) (\<lambda>finite.
     rbind (report None) (\<lambda>infinite.
     rbind (true_div rnd (of_int (service_cycles * 1000000000)) (of_int clock_hz)) (\<lambda>interval.
     Inr \<lparr>cy_service_cycles = service_cycles, cy_clock_hz = clock_hz, cy_service_interval_ns = interval,
          cy_finite_depths = finite, cy_infinite_queue = infinite\<rparr>)))"

definition arrival_times :: "normalized_event list \<Rightarrow> int list" where
  "arrival_times events = map ne_timestamp_ns (sort_key (\<lambda>e. (ne_timestamp_ns e, ne_source_index e)) events)"

definition simulate_serialized_capacity ::
  "(rat \<Rightarrow> rat) \<Rightarrow> int \<Rightarrow> int \<Rightarrow> int list \<Rightarrow> normalized_event list \<Rightarrow> capacity_analysis result" where
  "simulate_serialized_capacity rnd service_cycles clock_hz depths events =
     capacity_analysis_of rnd service_cycles clock_hz depths
       (\<lambda>depth. simulate_depth rnd (arrival_times events) depth (service_cycles * 1000000000) clock_hz)"

section \<open>One event at a time\<close>

record capacity_state =
  ca_depth :: "int option"
  ca_service_num :: int
  ca_clock_hz :: int
  ca_server_available :: int
  ca_occupancies :: online_stats
  ca_overflow :: int
  ca_busy_start :: "int option"
  ca_current_busy_end :: "int option"
  ca_longest_busy :: int
  ca_last_timestamp :: "int option"

definition capacity_init :: "int option \<Rightarrow> int \<Rightarrow> int \<Rightarrow> capacity_state" where
  "capacity_init depth service_num clock_hz =
     \<lparr>ca_depth = depth, ca_service_num = service_num, ca_clock_hz = clock_hz, ca_server_available = 0,
      ca_occupancies = online_init 100000, ca_overflow = 0, ca_busy_start = None,
      ca_current_busy_end = None, ca_longest_busy = 0, ca_last_timestamp = None\<rparr>"

definition capacity_observe :: "(rat \<Rightarrow> rat) \<Rightarrow> capacity_state \<Rightarrow> int \<Rightarrow> capacity_state result" where
  "capacity_observe rnd s timestamp_ns =
     (let arrival = timestamp_ns * ca_clock_hz s in
      rbind (if ca_server_available s \<le> arrival
             then rbind (close_busy (ca_clock_hz s) (ca_busy_start s) (ca_current_busy_end s) (ca_longest_busy s))
                    (\<lambda>longest. Inr (s\<lparr>ca_longest_busy := longest, ca_busy_start := Some arrival\<rparr>))
             else Inr s) (\<lambda>s.
      rbind (outstanding_jobs (ca_service_num s) (ca_server_available s) arrival) (\<lambda>outstanding.
      if queue_full (ca_depth s) outstanding
      then rbind (online_add rnd (of_int outstanding) (ca_occupancies s)) (\<lambda>occ.
        Inr (s\<lparr>ca_overflow := ca_overflow s + 1, ca_occupancies := occ, ca_last_timestamp := Some timestamp_ns\<rparr>))
      else
        let available = max (ca_server_available s) arrival + ca_service_num s in
        rbind (int_floordiv (available - arrival + ca_service_num s - 1) (ca_service_num s)) (\<lambda>occupancy_after.
        rbind (online_add rnd (of_int occupancy_after) (ca_occupancies s)) (\<lambda>occ.
        Inr (s\<lparr>ca_server_available := available, ca_current_busy_end := Some available,
               ca_occupancies := occ, ca_last_timestamp := Some timestamp_ns\<rparr>))))))"

definition state_report :: "(rat \<Rightarrow> rat) \<Rightarrow> int \<Rightarrow> int \<Rightarrow> capacity_state \<Rightarrow> capacity_report" where
  "state_report rnd longest available s =
     (let r = online_dict rnd (+) (ca_occupancies s); num = (\<lambda>x. case x of None \<Rightarrow> 0 | Some v \<Rightarrow> v)
      in \<lparr>cr_max_occupancy = num (di_max r), cr_mean_occupancy = num (di_mean r),
          cr_p95_occupancy = num (di_p95 r), cr_p99_occupancy = num (di_p99 r),
          cr_overflow_events = ca_overflow s, cr_longest_non_empty_interval_ns = longest,
          cr_maximum_backlog_duration_ns =
            max 0 (available - (case ca_last_timestamp s of None \<Rightarrow> 0 | Some t \<Rightarrow> t))\<rparr>)"

definition capacity_dict :: "(rat \<Rightarrow> rat) \<Rightarrow> capacity_state \<Rightarrow> (capacity_report \<times> capacity_state) result" where
  "capacity_dict rnd s =
     rbind (close_busy (ca_clock_hz s) (ca_busy_start s) (ca_current_busy_end s) (ca_longest_busy s)) (\<lambda>longest.
     rbind (int_floordiv (ca_server_available s) (ca_clock_hz s)) (\<lambda>available.
     Inr (state_report rnd longest available s, s\<lparr>ca_longest_busy := longest\<rparr>)))"


text \<open>The dict of states by depth (a repeated depth counts once), the unbounded queue last.\<close>

definition capacity_states :: "int \<Rightarrow> int \<Rightarrow> int list \<Rightarrow> (int option \<times> capacity_state) list" where
  "capacity_states service_num clock_hz depths =
     AList.update None (capacity_init None service_num clock_hz)
       (foldl (\<lambda>d depth. AList.update (Some depth) (capacity_init (Some depth) service_num clock_hz) d) [] depths)"

definition observe_all ::
  "(rat \<Rightarrow> rat) \<Rightarrow> (int option \<times> capacity_state) list \<Rightarrow> int \<Rightarrow> (int option \<times> capacity_state) list result" where
  "observe_all rnd states timestamp_ns =
     map_result (\<lambda>(depth, s). rbind (capacity_observe rnd s timestamp_ns) (\<lambda>s. Inr (depth, s))) states"

definition capacity_report_of ::
  "(rat \<Rightarrow> rat) \<Rightarrow> (int option \<times> capacity_state) list \<Rightarrow> int option \<Rightarrow> capacity_report result" where
  "capacity_report_of rnd states depth =
     (case map_of states depth of None \<Rightarrow> Inl KeyError
      | Some s \<Rightarrow> rbind (capacity_dict rnd s) (\<lambda>(r, _). Inr r))"

definition simulate_serialized_capacity_stream ::
  "(rat \<Rightarrow> rat) \<Rightarrow> int \<Rightarrow> int \<Rightarrow> int list \<Rightarrow> normalized_event list \<Rightarrow> capacity_analysis result" where
  "simulate_serialized_capacity_stream rnd service_cycles clock_hz depths events =
     rbind (fold_result (\<lambda>states e. observe_all rnd states (ne_timestamp_ns e))
              (capacity_states (service_cycles * 1000000000) clock_hz depths) events) (\<lambda>states.
     capacity_analysis_of rnd service_cycles clock_hz depths (capacity_report_of rnd states))"

end
