(* ===== verification/Research_Experiments.thy ===== *)
theory Research_Experiments
  imports Replay_Report Research_Policy Dataset_Splits Arrival_Capacity
begin

text \<open>
  \<open>tools/backtest/experiments.py\<close>: ablations, baselines, parameter grids, walk-forward runs and the
  other studies, each a sequence of replays. The arguments that every replay needs are the record
  \<open>replay_env\<close>; parameter values are integers, booleans and lists of booleans, and assigning a value of
  the wrong shape raises at once.
\<close>

section \<open>One replay\<close>

record replay_env =
  en_rnd :: "rat \<Rightarrow> rat"
  en_summed :: "rat list \<Rightarrow> rat"
  en_math :: float_math
  en_text :: "return_group \<times> rat list \<Rightarrow> string"
  en_clock :: "int \<Rightarrow> local_time"

text \<open>The parts of a run that the studies read: \<open>summary\<close> (with the counts merged in) and \<open>forward_summary\<close>.\<close>

record study_run =
  st_summary :: run_summary
  st_counts :: run_counts
  st_forward_summary :: "int \<times> group_summary list"

definition engine_run ::
  "replay_env \<Rightarrow> 's strategy_factory \<Rightarrow> backtest_config \<Rightarrow> normalized_event list \<Rightarrow> study_run result" where
  "engine_run env fac c events =
     rbind (run_with_report (en_rnd env) (en_summed env) (en_math env) (en_text env) fac c None (en_clock env) events)
       (\<lambda>rp. Inr \<lparr>st_summary = rp_summary rp, st_counts = rp_counts rp, st_forward_summary = rp_forward_summary rp\<rparr>)"

section \<open>Ablations and baselines\<close>

definition all_factors :: "string list" where
  "all_factors = [''momentum'', ''vwap_delta'', ''imbalance'', ''spread'', ''volume'']"

definition run_factor_ablation ::
  "replay_env \<Rightarrow> string list \<Rightarrow> backtest_config \<Rightarrow> normalized_event list \<Rightarrow> (string \<times> study_run) list result" where
  "run_factor_ablation env factors c events =
     rbind (engine_run env model_factory c events) (\<lambda>exact.
     rbind (map_result (\<lambda>factor. rbind (engine_run env (research_factory [factor]) c events) (\<lambda>run.
              Inr (if factor = '''' then ''none'' else factor, run))) factors) (\<lambda>rows.
     Inr ((''none'', exact) # rows)))"

definition disable_strategy :: "backtest_config \<Rightarrow> backtest_config" where
  "disable_strategy c = c\<lparr>bc_strategy := (bc_strategy c)\<lparr>sc_strategy_enable := False\<rparr>\<rparr>"

definition run_baselines ::
  "replay_env \<Rightarrow> (nat \<Rightarrow> int) \<Rightarrow> backtest_config \<Rightarrow> normalized_event list \<Rightarrow> (string \<times> study_run) list result" where
  "run_baselines env draws c events =
     rbind (engine_run env model_factory (disable_strategy c) events) (\<lambda>no_trade.
     rbind (engine_run env (research_factory [''vwap_delta'', ''imbalance'', ''spread'', ''volume'']) c events) (\<lambda>momentum.
     rbind (engine_run env (research_factory [''momentum'', ''imbalance'', ''spread'', ''volume'']) c events) (\<lambda>vwap.
     rbind (engine_run env (random_factory draws) c events) (\<lambda>random.
     Inr [(''no_trade'', no_trade), (''momentum_only'', momentum), (''vwap_only'', vwap), (''random_seeded'', random)]))))"

section \<open>Parameters\<close>

datatype param_value = PInt int | PBool bool | PBools "bool list"

definition int_param :: "param_value \<Rightarrow> int result" where
  "int_param v = (case v of PInt n \<Rightarrow> Inr n | PBool b \<Rightarrow> Inr (if b then 1 else 0) | PBools _ \<Rightarrow> Inl (TypeError ''int''))"

definition bool_param :: "param_value \<Rightarrow> bool result" where
  "bool_param v = (case v of PInt n \<Rightarrow> Inr (n \<noteq> 0) | PBool b \<Rightarrow> Inr b | PBools bs \<Rightarrow> Inr (bs \<noteq> []))"

definition list_param :: "param_value \<Rightarrow> bool list result" where
  "list_param v = (case v of PBools bs \<Rightarrow> Inr bs | _ \<Rightarrow> Inl (TypeError ''list''))"

text \<open>\<open>dataclasses.replace\<close> with one field; an unknown name is an unexpected keyword argument.\<close>

definition replace_param :: "strategy_config \<Rightarrow> string \<times> param_value \<Rightarrow> strategy_config result" where
  "replace_param cfg = (\<lambda>(name, v).
     let i = (\<lambda>upd. rbind (int_param v) (\<lambda>n. Inr (upd (\<lambda>_. n) cfg)));
         b = (\<lambda>upd. rbind (bool_param v) (\<lambda>x. Inr (upd (\<lambda>_. x) cfg))) in
     if name = ''strategy_enable'' then b sc_strategy_enable_update
     else if name = ''long_enable'' then b sc_long_enable_update
     else if name = ''short_enable'' then b sc_short_enable_update
     else if name = ''long_min_momentum_bps_x100'' then i sc_long_min_momentum_bps_x100_update
     else if name = ''short_max_momentum_bps_x100'' then i sc_short_max_momentum_bps_x100_update
     else if name = ''long_min_vwap_delta_bps_x100'' then i sc_long_min_vwap_delta_bps_x100_update
     else if name = ''short_max_vwap_delta_bps_x100'' then i sc_short_max_vwap_delta_bps_x100_update
     else if name = ''long_min_imbalance_q15'' then i sc_long_min_imbalance_q15_update
     else if name = ''short_max_imbalance_q15'' then i sc_short_max_imbalance_q15_update
     else if name = ''max_spread_bps_x100'' then i sc_max_spread_bps_x100_update
     else if name = ''min_rolling_volume'' then i sc_min_rolling_volume_update
     else if name = ''signal_cooldown_events'' then i sc_signal_cooldown_events_update
     else if name = ''symbol_enable'' then rbind (list_param v) (\<lambda>bs. Inr (cfg\<lparr>sc_symbol_enable := bs\<rparr>))
     else Inl (TypeError name))"

definition replace_strategy :: "backtest_config \<Rightarrow> (string \<times> param_value) list \<Rightarrow> backtest_config result" where
  "replace_strategy c overrides =
     rbind (fold_result replace_param (bc_strategy c) overrides) (\<lambda>strategy. Inr (c\<lparr>bc_strategy := strategy\<rparr>))"

definition run_sensitivity ::
  "replay_env \<Rightarrow> string \<Rightarrow> param_value list \<Rightarrow> backtest_config \<Rightarrow> normalized_event list \<Rightarrow>
     (string \<times> param_value \<times> study_run) list result" where
  "run_sensitivity env parameter vals c events =
     map_result (\<lambda>v.
       rbind (replace_strategy c [(parameter, v)]) (\<lambda>c.
       rbind (engine_run env model_factory c events) (\<lambda>run. Inr (parameter, v, run)))) vals"

section \<open>The parameter grid\<close>

record grid_row =
  gr_parameters :: "(string \<times> param_value) list"
  gr_train_net_pnl :: rat
  gr_validation_net_pnl :: rat
  gr_validation_sharpe :: "rat option"

definition grid_combinations :: "(string \<times> param_value list) list \<Rightarrow> (string \<times> param_value) list list" where
  "grid_combinations grid =
     (let ordered = sort_key fst grid in map (zip (map fst ordered)) (product_lists (map snd ordered)))"

definition grid_row_of ::
  "replay_env \<Rightarrow> backtest_config \<Rightarrow> dataset_split \<Rightarrow> (string \<times> param_value) list \<Rightarrow> grid_row result" where
  "grid_row_of env c parts overrides =
     rbind (replace_strategy c overrides) (\<lambda>c.
     rbind (engine_run env model_factory c (ds_train parts)) (\<lambda>train.
     rbind (engine_run env model_factory c (ds_validation parts)) (\<lambda>validation.
     Inr \<lparr>gr_parameters = overrides, gr_train_net_pnl = rn_total_net_pnl (st_summary train),
          gr_validation_net_pnl = rn_total_net_pnl (st_summary validation),
          gr_validation_sharpe = rk_sharpe (rn_risk_adjusted (st_summary validation))\<rparr>)))"

text \<open>\<open>sorted(..., reverse=True)\<close> keeps the order of equal rows.\<close>

definition sort_rows :: "grid_row list \<Rightarrow> grid_row list" where
  "sort_rows = sort_key (\<lambda>row. (- gr_validation_net_pnl row, - gr_train_net_pnl row))"

definition run_parameter_grid ::
  "replay_env \<Rightarrow> (string \<times> param_value list) list \<Rightarrow> int \<Rightarrow> backtest_config \<Rightarrow> normalized_event list \<Rightarrow>
     grid_row list result" where
  "run_parameter_grid env grid max_combinations c events =
     (let combinations = grid_combinations grid in
      if int (length combinations) > max_combinations
      then Inl (ValueError (''grid has '' @ py_str_int (int (length combinations)) @ '' combinations; max is ''
             @ py_str_int max_combinations))
      else
        rbind (chronological_split (en_rnd env) (en_clock env) (en_rnd env (6 / 10)) (en_rnd env (2 / 10)) events) (\<lambda>parts.
        rbind (map_result (grid_row_of env c parts) combinations) (\<lambda>rows. Inr (sort_rows rows))))"

section \<open>Walk-forward and symbol splits\<close>

record walk_forward_row =
  wk_window :: int
  wk_train_dates :: "int list"
  wk_validation_dates :: "int list"
  wk_test_dates :: "int list"
  wk_train :: study_run
  wk_validation :: "study_run option"
  wk_test :: study_run

definition walk_forward_row_of ::
  "replay_env \<Rightarrow> backtest_config \<Rightarrow> walk_forward_window \<Rightarrow> walk_forward_row result" where
  "walk_forward_row_of env c w =
     rbind (engine_run env model_factory c (ds_train w)) (\<lambda>train.
     rbind (if ds_validation w = [] then Inr None
            else rbind (engine_run env model_factory c (ds_validation w)) (\<lambda>run. Inr (Some run))) (\<lambda>validation.
     rbind (engine_run env model_factory c (ds_test w)) (\<lambda>test.
     Inr \<lparr>wk_window = ww_index w, wk_train_dates = ds_train_dates w, wk_validation_dates = ds_validation_dates w,
          wk_test_dates = ds_test_dates w, wk_train = train, wk_validation = validation, wk_test = test\<rparr>)))"

text \<open>\<open>None\<close> when the windows never end.\<close>

definition run_walk_forward ::
  "replay_env \<Rightarrow> int \<Rightarrow> int \<Rightarrow> int \<Rightarrow> int option \<Rightarrow> backtest_config \<Rightarrow> normalized_event list \<Rightarrow>
     walk_forward_row list result option" where
  "run_walk_forward env train_days validation_days test_days step_days c events =
     map_option (\<lambda>windows. rbind windows (map_result (walk_forward_row_of env c)))
       (walk_forward_windows (en_clock env) train_days validation_days test_days step_days events)"

record symbol_split =
  sp_train_symbols :: "int list"
  sp_holdout_symbols :: "int list"
  sp_train :: study_run
  sp_holdout :: study_run

definition run_symbol_split ::
  "replay_env \<Rightarrow> int list \<Rightarrow> backtest_config \<Rightarrow> normalized_event list \<Rightarrow> symbol_split result" where
  "run_symbol_split env holdout_symbol_ids c events =
     (let holdout = set holdout_symbol_ids;
          train_events = filter (\<lambda>e. ne_symbol_id e \<notin> holdout) events;
          holdout_events = filter (\<lambda>e. ne_symbol_id e \<in> holdout) events in
      rbind (engine_run env model_factory c train_events) (\<lambda>train.
      rbind (engine_run env model_factory c holdout_events) (\<lambda>held.
      Inr \<lparr>sp_train_symbols = sorted_list_of_set (ne_symbol_id ` set train_events),
           sp_holdout_symbols = sorted_list_of_set holdout, sp_train = train, sp_holdout = held\<rparr>)))"

section \<open>Calibration\<close>

type_synonym score_key = "string \<times> int \<times> string"

record calibration_row =
  ck_key :: score_key
  ck_count :: int
  ck_mean_bps :: rat
  ck_median_bps :: rat
  ck_win_fraction :: rat

definition score_key_of :: "group_summary \<Rightarrow> score_key" where
  "score_key_of g = (case gs_group g of (direction, symbol_id, score, reason, horizon) \<Rightarrow> (direction, score, horizon))"

definition calibration_row_of :: "group_summary \<Rightarrow> calibration_row" where
  "calibration_row_of g =
     \<lparr>ck_key = score_key_of g, ck_count = gs_count g, ck_mean_bps = gs_mean_bps g,
      ck_median_bps = gs_median_bps g, ck_win_fraction = gs_win_fraction g\<rparr>"

definition score_calibration :: "int \<times> group_summary list \<Rightarrow> calibration_row list" where
  "score_calibration forward_summary =
     map snd (foldl (\<lambda>groups g. AList.update (score_key_of g) (calibration_row_of g) groups) [] (snd forward_summary))"

end
