(* ===== verification/Research_Correct.thy ===== *)
theory Research_Correct
  imports Research_Experiments "HOL-Library.Multiset" "HOL-Library.Product_Lexorder"
begin

text \<open>
  Properties of the studies: a disabled strategy leaves the account alone, the ablations and grids are
  complete, and what the calibration table keeps.
\<close>

section \<open>An idle desk\<close>

definition desk_idle :: "(rat \<Rightarrow> rat) \<Rightarrow> rat \<Rightarrow> desk \<Rightarrow> bool" where
  "desk_idle rnd cash d \<longleftrightarrow>
     (let pf = dk_portfolio d in
      pf_positions pf = [] \<and> pf_pending_symbols pf = {} \<and> pf_completed_trades pf = [] \<and>
      pf_realized_pnl pf = 0 \<and> pf_cash pf = cash \<and> ex_pending (dk_execution d) = [] \<and>
      (\<forall>x\<in>set (pf_equity_curve pf). eq_equity x = rnd (rnd cash)) \<and>
      pf_high_water_equity pf \<in> {None, Some (rnd (rnd cash))} \<and> pf_maximum_drawdown pf = 0)"

lemma idle_quote: "desk_idle rnd cash d \<Longrightarrow> desk_on_quote rnd' ts f d = Inr (fills, d') \<Longrightarrow> desk_idle rnd cash d'"
  by (auto simp: desk_idle_def desk_on_quote_def execution_on_quote_def apply_fills_def Let_def)

lemma idle_risk: "desk_idle rnd cash d \<Longrightarrow> evaluate_risk rnd' ts f q d = Inr (fills, d') \<Longrightarrow> desk_idle rnd cash d'"
  by (auto simp: desk_idle_def evaluate_risk_def Let_def)

lemma idle_candidate:
  "desk_idle rnd cash d \<Longrightarrow> cs_action cand = 0 \<Longrightarrow> consider_candidate rnd' cand q d = Inr (fills, d') \<Longrightarrow> desk_idle rnd cash d'"
  by (auto simp: desk_idle_def consider_candidate_def log_on_desk_def log_candidate_def Let_def split: if_splits)

lemma idle_mark:
  assumes "rnd 0 = 0" "desk_idle rnd cash d"
  shows "desk_idle rnd cash (d\<lparr>dk_portfolio := snd (mark_to_market rnd ts f to_curve (dk_portfolio d))\<rparr>)"
proof -
  have "eq_equity (equity_point_of rnd ts f (dk_portfolio d)) = rnd (rnd cash)"
    using assms by (simp add: desk_idle_def equity_point_of_def py_sum_def Let_def)
  then show ?thesis
    using assms by (auto simp: desk_idle_def mark_to_market_def Let_def)
qed

lemma idle_clear: "desk_idle rnd cash d \<Longrightarrow> desk_idle rnd cash (desk_clear d)"
  by (auto simp: desk_idle_def desk_clear_def execution_flush_def Let_def)

lemma idle_close:
  assumes "rnd 0 = 0" "desk_idle rnd cash d" "close_session rnd d fs ts = Inr d'"
  shows "desk_idle rnd cash d'"
proof (cases fs)
  case Nil
  then show ?thesis using assms by (simp add: close_session_def)
next
  case (Cons x rest)
  obtain s first where x: "x = (s, first)" by (cases x)
  have flat: "flatten_positions rnd ts (LastQuotes fs) True d = Inr ([], d)"
    using assms(2) by (cases d) (simp add: flatten_positions_def desk_idle_def apply_fills_def Let_def)
  have "d' = d\<lparr>dk_portfolio := snd (mark_to_market rnd ts first True (dk_portfolio d))\<rparr>"
    using assms(3) flat by (auto simp: close_session_def Cons x split: if_splits)
  then show ?thesis using idle_mark [OF assms(1,2)] by simp
qed

lemma idle_symbols: "desk_idle rnd cash d \<Longrightarrow> desk_symbols d = {}"
  by (simp add: desk_idle_def desk_symbols_def Let_def)

section \<open>A replay with a quiet engine\<close>

definition replay_idle :: "(rat \<Rightarrow> rat) \<Rightarrow> ('s \<Rightarrow> bool) \<Rightarrow> backtest_config \<Rightarrow> 's replay_state \<Rightarrow> bool" where
  "replay_idle rnd quiet c s \<longleftrightarrow>
     quiet (rs_strategy s) \<and> desk_idle rnd (pc_starting_cash (bc_portfolio c)) (rs_desk s) \<and>
     (\<forall>cand\<in>set (rs_candidates s). cs_action cand = 0)"

lemma idle_known: "replay_idle rnd quiet c s \<Longrightarrow> desk_known s"
  using idle_symbols by (auto simp: replay_idle_def desk_known_def)

context quiet_policy
begin

lemma idle_change:
  assumes "rnd 0 = 0" "replay_idle rnd quiet c s" "change_session rnd fac c day s = Inr s'"
  shows "replay_idle rnd quiet c s'"
  using assms idle_close [where rnd = rnd] idle_clear quiet_reset
  by (auto simp: change_session_def replay_idle_def Let_def rbind_eq_Inr split: option.splits if_splits)

lemma idle_feature:
  assumes "rnd 0 = 0" "replay_idle rnd quiet c s" "replay_feature rnd fac e f s = Inr s'"
  shows "replay_idle rnd quiet c s'"
proof -
  let ?quote = "ne_event_type e = MSG_MARKET_QUOTE" and ?ts = "ne_timestamp_ns e"
  obtain f1 d1 f2 d2 sig st f3 d3 where run:
    "(if ?quote then desk_on_quote rnd ?ts f (rs_desk s) else Inr ([], rs_desk s)) = Inr (f1, d1)"
    "evaluate_risk rnd ?ts f ?quote d1 = Inr (f2, d2)" "sf_evaluate fac (rs_strategy s) f = Inr (sig, st)"
    "consider_candidate rnd (candidate_of e sig f) ?quote d2 = Inr (f3, d3)" and
    s': "rs_strategy s' = st" "rs_candidates s' = rs_candidates s @ [candidate_of e sig f]"
      "rs_desk s' = d3\<lparr>dk_portfolio := snd (mark_to_market rnd ?ts f True (dk_portfolio d3))\<rparr>"
    using assms(3) by (cases ?quote) (auto simp: replay_feature_def Let_def rbind_eq_Inr)
  have q: "quiet st" "sg_action sig = 0"
    using quiet_evaluate run(3) assms(2) by (auto simp: replay_idle_def)
  have "desk_idle rnd (pc_starting_cash (bc_portfolio c)) d1"
    using assms(2) run(1) idle_quote by (auto simp: replay_idle_def split: if_splits)
  from idle_risk [OF this run(2)] idle_candidate [OF _ _ run(4)] q(2)
  have "desk_idle rnd (pc_starting_cash (bc_portfolio c)) d3" by (simp add: candidate_of_def)
  from idle_mark [OF assms(1) this] q assms(2) show ?thesis
    by (auto simp: replay_idle_def s' candidate_of_def)
qed

lemma idle_event:
  assumes "rnd 0 = 0" "replay_idle rnd quiet c s" "replay_event rnd fac c clock s e = Inr s'"
  shows "replay_idle rnd quiet c s'"
proof -
  from replay_event_cases [OF assms(3)] obtain s1 market s2 where
    s1: "change_session rnd fac c (session_date clock (ne_timestamp_ns e)) s = Inr s1" and
    s2: "s2 = s1\<lparr>rs_previous_session := Some (session_date clock (ne_timestamp_ns e)),
      rs_last_timestamp := ne_timestamp_ns e, rs_market := market\<rparr>" and
    rest: "s' = s2\<lparr>rs_rejected := rs_rejected s2 + 1\<rparr> \<or> (\<exists>f. replay_feature rnd fac e f s2 = Inr s')"
    by blast
  have "replay_idle rnd quiet c s2" using idle_change [OF assms(1,2) s1] by (simp add: s2 replay_idle_def)
  with rest idle_feature [OF assms(1) this, of e] show ?thesis by (auto simp: replay_idle_def)
qed

lemma idle_loop:
  assumes "rnd 0 = 0" "replay_inv rnd ok c s" "replay_idle rnd quiet c s" "\<forall>e\<in>set es. ne_sequence e \<noteq> None"
  shows "\<exists>s'. fold_result (replay_event rnd fac c clock) s es = Inr s' \<and> replay_inv rnd ok c s' \<and> replay_idle rnd quiet c s'"
  using assms(2-)
proof (induction es arbitrary: s)
  case Nil
  then show ?case by simp
next
  case (Cons e es)
  from replay_event_outcome [OF Cons.prems(1), of e clock] Cons.prems(3) idle_known [OF Cons.prems(2)]
  obtain s1 where s1: "replay_event rnd fac c clock s e = Inr s1" "replay_inv rnd ok c s1" by auto
  from Cons.IH [OF s1(2) idle_event [OF assms(1) Cons.prems(2) s1(1)]] Cons.prems(3) s1(1) show ?case by simp
qed

text \<open>The whole run: it returns, and the account is untouched.\<close>

lemma idle_run:
  assumes "rnd 0 = 0" "replay_config_ok fac c"
    and "\<And>s. sf_create fac (bc_num_symbols c) (bc_strategy c) = Inr s \<Longrightarrow> quiet s"
  shows "\<exists>run. run_backtest rnd fac c mapping clock events = Inr run \<and> replay_idle rnd quiet c (br_final run)"
proof -
  obtain es m st where m: "market_default (bc_num_symbols c) (bc_trade_window c) (bc_momentum_window c) (bc_vwap_window c) = Inr m"
    and st: "sf_create fac (bc_num_symbols c) (bc_strategy c) = Inr st"
    and run: "run_backtest rnd fac c mapping clock events =
       rbind (fold_result (replay_event rnd fac c clock) (replay_start c m st) (replay_sequence c clock es))
         (finish_run rnd c mapping clock events es)"
    by (rule run_backtest_parts [OF assms(2)])
  have "replay_idle rnd quiet c (replay_start c m st)"
    using assms(3) [OF st] by (simp add: replay_idle_def replay_start_def desk_idle_def portfolio_init_def execution_init_def)
  note start = replay_start_inv [where rnd = rnd, OF m st] this
  obtain s where s: "fold_result (replay_event rnd fac c clock) (replay_start c m st) (replay_sequence c clock es) = Inr s"
    "replay_inv rnd ok c s" "replay_idle rnd quiet c s"
    using idle_loop [OF assms(1) start] replay_sequence_assigned by blast
  from finish_run_outcome [OF s(2), of mapping clock events es] idle_known [OF s(3)] obtain r where
    r: "finish_run rnd c mapping clock events es s = Inr r" by auto
  then obtain d where d: "close_session rnd (rs_desk s) (rs_last_features s) (rs_last_timestamp s) = Inr d"
    "br_final r = s\<lparr>rs_desk := desk_clear d\<rparr>"
    by (auto simp: finish_run_def rbind_eq_Inr)
  have "desk_idle rnd (pc_starting_cash (bc_portfolio c)) d"
    using idle_close [OF assms(1) _ d(1)] s(3) by (simp add: replay_idle_def)
  from idle_clear [OF this] s(3) have "replay_idle rnd quiet c (br_final r)" by (simp add: replay_idle_def d(2))
  then show ?thesis using s(1) r run by simp
qed

end

section \<open>The no-trade baseline\<close>

lemma disable_config_ok:
  "replay_config_ok model_factory c \<Longrightarrow> replay_config_ok model_factory (disable_strategy c)"
  by (auto simp: replay_config_ok_def disable_strategy_def model_factory_def strategy_init_def is_ok_iff Let_def
      split: if_splits)

lemma disable_create:
  "sf_create model_factory (bc_num_symbols c) (bc_strategy (disable_strategy c)) = Inr m \<Longrightarrow> disabled m"
  by (auto simp: disable_strategy_def model_factory_def strategy_init_def disabled_def Let_def split: if_splits)

lemma flat_drawdown:
  assumes "rnd 0 = 0" "\<forall>x\<in>set curve. eq_equity x = e"
  shows "lowest (map dd_drawdown (equity_drawdown rnd curve)) = 0"
proof -
  have "dd_drawdown row = 0" if "row \<in> set (equity_drawdown rnd curve)" for row
    using drawdown_row_origin [OF that [unfolded equity_drawdown_def]] assms by auto
  then show ?thesis using lowest_cases [of "map dd_drawdown (equity_drawdown rnd curve)"] by auto
qed

text \<open>
  C20: The no-trade baseline: for every accepted non-strict configuration, whatever the events and the
  clock, the replay with the strategy disabled returns, in binary64 arithmetic, and its report shows
  no candidate, no trade, a total result of zero, the starting cash (a float) as the ending equity and
  no drawdown.
\<close>

theorem no_trade_baseline_is_flat:
  assumes "replay_config_ok model_factory c" "en_rnd env = fl64" "en_summed env [] = 0"
    and "fl64 (pc_starting_cash (bc_portfolio c)) = pc_starting_cash (bc_portfolio c)"
  shows "\<exists>run. engine_run env model_factory (disable_strategy c) events = Inr run \<and>
    ct_candidate_count (st_counts run) = 0 \<and> rn_trade_count (st_summary run) = 0 \<and>
    rn_total_net_pnl (st_summary run) = 0 \<and>
    rn_ending_equity (st_summary run) = pc_starting_cash (bc_portfolio c) \<and>
    rn_max_drawdown (st_summary run) = 0"
proof -
  let ?c = "disable_strategy c"
  have pc: "bc_portfolio ?c = bc_portfolio c" "bc_num_symbols ?c = bc_num_symbols c" by (simp_all add: disable_strategy_def)
  obtain run where run: "run_backtest fl64 model_factory ?c None (en_clock env) events = Inr run"
    "replay_idle fl64 disabled ?c (br_final run)"
    using model.idle_run [where rnd = fl64 and mapping = None and clock = "en_clock env" and events = events,
        OF fl64_0 disable_config_ok [OF assms(1)]] disable_create pc(2)
    by auto
  then have idle: "desk_idle fl64 (pc_starting_cash (bc_portfolio c)) (rs_desk (br_final run))"
    "\<forall>cand\<in>set (rs_candidates (br_final run)). cs_action cand = 0"
    by (simp_all add: replay_idle_def pc)
  let ?pf = "dk_portfolio (rs_desk (br_final run))"
  have pf: "pf_completed_trades ?pf = []" "\<forall>x\<in>set (pf_equity_curve ?pf). eq_equity x = pc_starting_cash (bc_portfolio c)"
    using idle(1) assms(4) by (simp_all add: desk_idle_def Let_def)
  have none: "filter (\<lambda>cand. cs_action cand \<noteq> 0) (rs_candidates (br_final run)) = []"
    using idle(2) by (simp add: filter_empty_conv)
  have "last (pf_equity_curve ?pf) \<in> set (pf_equity_curve ?pf)" if "pf_equity_curve ?pf \<noteq> []" using that by simp
  then show ?thesis
    using run(1) pf flat_drawdown [where rnd = fl64, OF fl64_0 pf(2)] none
    by (simp add: engine_run_def run_with_report_def report_of_run_def assms(2,3) compute_metrics_fields counts_of_def
        Let_def split_beta pc)
qed

section \<open>The ablation table\<close>

lemma map_result_rows:
  assumes "\<And>x. x \<in> set xs \<Longrightarrow> case f x of Inl e \<Rightarrow> Q e | Inr y \<Rightarrow> P x y"
  shows "case map_result f xs of Inl e \<Rightarrow> Q e | Inr ys \<Rightarrow> list_all2 P xs ys"
  using assms
proof (induction xs)
  case Nil
  then show ?case by simp
next
  case (Cons x xs)
  have "case f x of Inl e \<Rightarrow> Q e | Inr y \<Rightarrow> P x y" using Cons.prems by simp
  moreover have "case map_result f xs of Inl e \<Rightarrow> Q e | Inr ys \<Rightarrow> list_all2 P xs ys" using Cons by simp
  ultimately show ?case by (cases "f x"; cases "map_result f xs") simp_all
qed

definition study_consistent :: "study_run \<Rightarrow> bool" where
  "study_consistent run \<longleftrightarrow>
     ct_accepted_features (st_counts run) + ct_rejected_events (st_counts run) = ct_session_events (st_counts run) \<and>
     fst (st_forward_summary run) = 8 * ct_candidate_count (st_counts run) \<and>
     rn_long_trades (st_summary run) + rn_short_trades (st_summary run) = rn_trade_count (st_summary run) \<and>
     rn_max_drawdown (st_summary run) \<le> 0"

context signal_policy
begin

lemma engine_run_outcome:
  assumes "replay_config_ok fac c" "en_rnd env = fl64" "en_summed env = sum_left fl64"
  shows "case engine_run env fac c events of Inl e \<Rightarrow> e = AttributeError ''symbol_id'' | Inr run \<Rightarrow> study_consistent run"
  using report_outcome [OF assms(1), of "en_math env" "en_text env" None "en_clock env" events]
  by (cases "run_with_report fl64 (sum_left fl64) (en_math env) (en_text env) fac c None (en_clock env) events")
    (simp_all add: engine_run_def assms(2,3) study_consistent_def)

end

lemma research_config_ok: "replay_config_ok model_factory c \<Longrightarrow> replay_config_ok (research_factory excluded) c"
  by (simp add: replay_config_ok_def research_factory_def is_ok_iff)

text \<open>The direction that the thresholds of all factors but one give.\<close>

definition ablated_direction :: "strategy_config \<Rightarrow> string \<Rightarrow> feature_snapshot \<Rightarrow> int" where
  "ablated_direction cfg factor f =
     (let others_hold = (\<lambda>conditions. list_all (\<lambda>(name, holds). name = factor \<or> holds) (zip all_factors conditions));
          spread = (ft_spread_bps_x100 f \<le> sc_max_spread_bps_x100 cfg);
          volume = (ft_rolling_volume f \<ge> sc_min_rolling_volume cfg) in
      if others_hold [ft_momentum_bps_x100 f \<ge> sc_long_min_momentum_bps_x100 cfg,
           ft_midpoint_minus_vwap_bps_x100 f \<ge> sc_long_min_vwap_delta_bps_x100 cfg,
           ft_imbalance_normalized f \<ge> sc_long_min_imbalance_q15 cfg, spread, volume]
      then SIGNAL_LONG_CANDIDATE
      else if others_hold [ft_momentum_bps_x100 f \<le> sc_short_max_momentum_bps_x100 cfg,
           ft_midpoint_minus_vwap_bps_x100 f \<le> sc_short_max_vwap_delta_bps_x100 cfg,
           ft_imbalance_normalized f \<le> sc_short_max_imbalance_q15 cfg, spread, volume]
      then SIGNAL_SHORT_CANDIDATE else SIGNAL_NONE)"

lemma research_raw_ablated: "research_raw cfg [factor] f = ablated_direction cfg factor f"
  by (auto simp: research_raw_def research_long_pass_def research_short_pass_def factor_enabled_def ablated_direction_def
      all_factors_def Let_def)

text \<open>
  C21: The factor ablation: in binary64 arithmetic with \<open>sum\<close> adding from the left and for every accepted
  non-strict configuration, the study either returns the run of the unmodified strategy, labelled \<open>none\<close>,
  followed by exactly one row for each requested factor in the requested order, the run of the engine
  whose direction is decided by the thresholds of all other factors, each with counts and summaries that
  add up; or it stops with the missing-attribute error of closing a session on its last quotes.
\<close>

theorem ablation_study_complete:
  assumes "replay_config_ok model_factory c" "en_rnd env = fl64" "en_summed env = sum_left fl64"
  shows "case run_factor_ablation env factors c events of
      Inl e \<Rightarrow> e = AttributeError ''symbol_id''
    | Inr rows \<Rightarrow> map fst rows = ''none'' # map (\<lambda>factor. if factor = '''' then ''none'' else factor) factors \<and>
        list_all study_consistent (map snd rows) \<and>
        engine_run env model_factory c events = Inr (snd (hd rows)) \<and>
        list_all2 (\<lambda>factor row. engine_run env (research_factory [factor]) c events = Inr (snd row) \<and>
            (\<forall>cfg f. research_raw cfg [factor] f = ablated_direction cfg factor f)) factors (tl rows)"
proof -
  let ?label = "\<lambda>factor. if factor = '''' then ''none'' else factor :: string"
  let ?run = "\<lambda>factor. engine_run env (research_factory [factor]) c events"
  let ?row = "\<lambda>factor. rbind (?run factor) (\<lambda>run. Inr (?label factor, run))"
  let ?good = "\<lambda>factor r. fst r = ?label factor \<and> study_consistent (snd r) \<and> ?run factor = Inr (snd r)"
  have row: "case ?row factor of Inl e \<Rightarrow> e = AttributeError ''symbol_id'' | Inr r \<Rightarrow> ?good factor r" for factor
    using research.engine_run_outcome [OF research_config_ok [OF assms(1), of "[factor]"] assms(2,3), of events]
    by (cases "?run factor") simp_all
  have "case map_result ?row factors of Inl e \<Rightarrow> e = AttributeError ''symbol_id'' | Inr rows \<Rightarrow> list_all2 ?good factors rows"
    by (rule map_result_rows) (rule row)
  moreover have "map fst rows = map ?label factors \<and> list_all study_consistent (map snd rows) \<and>
      list_all2 (\<lambda>factor row. ?run factor = Inr (snd row)) factors rows"
    if "list_all2 ?good factors rows" for rows
    using that by (induction rule: list_all2_induct) simp_all
  ultimately show ?thesis
    using model.engine_run_outcome [OF assms, of events]
    by (cases "engine_run env model_factory c events"; cases "map_result ?row factors")
      (simp_all add: run_factor_ablation_def research_raw_ablated)
qed

section \<open>The parameter grid\<close>

definition scalar_fields :: "string list" where
  "scalar_fields = [''strategy_enable'', ''long_enable'', ''short_enable'', ''long_min_momentum_bps_x100'',
     ''short_max_momentum_bps_x100'', ''long_min_vwap_delta_bps_x100'', ''short_max_vwap_delta_bps_x100'',
     ''long_min_imbalance_q15'', ''short_max_imbalance_q15'', ''max_spread_bps_x100'', ''min_rolling_volume'',
     ''signal_cooldown_events'']"

definition is_scalar :: "param_value \<Rightarrow> bool" where
  "is_scalar v \<longleftrightarrow> (case v of PBools _ \<Rightarrow> False | _ \<Rightarrow> True)"

definition scalar_grid :: "(string \<times> param_value list) list \<Rightarrow> bool" where
  "scalar_grid grid \<longleftrightarrow> list_all (\<lambda>(name, vals). name \<in> set scalar_fields \<and> list_all is_scalar vals) grid"

lemma replace_scalar:
  assumes "name \<in> set scalar_fields" "is_scalar v"
  shows "\<exists>cfg'. replace_param cfg (name, v) = Inr cfg' \<and> sc_symbol_enable cfg' = sc_symbol_enable cfg"
proof -
  have "is_ok (int_param v)" "is_ok (bool_param v)"
    using assms(2) by (simp_all add: is_scalar_def int_param_def bool_param_def is_ok_iff split: param_value.splits)
  then obtain n b where "int_param v = Inr n" "bool_param v = Inr b" by (auto simp: is_ok_iff)
  then show ?thesis using assms(1) by (auto simp: scalar_fields_def replace_param_def Let_def)
qed

lemma replace_scalars:
  assumes "\<forall>x\<in>set overrides. fst x \<in> set scalar_fields \<and> is_scalar (snd x)"
  shows "\<exists>cfg'. fold_result replace_param cfg overrides = Inr cfg' \<and> sc_symbol_enable cfg' = sc_symbol_enable cfg"
  using assms
proof (induction overrides arbitrary: cfg)
  case Nil
  then show ?case by simp
next
  case (Cons x overrides)
  obtain name v where x: "x = (name, v)" by (cases x)
  have "name \<in> set scalar_fields" "is_scalar v" using Cons.prems by (simp_all add: x)
  from replace_scalar [OF this, of cfg] obtain cfg1 where
    cfg1: "replace_param cfg (name, v) = Inr cfg1" "sc_symbol_enable cfg1 = sc_symbol_enable cfg" by blast
  from Cons.IH [of cfg1] Cons.prems cfg1 show ?case by (simp add: x)
qed

lemma grid_overrides:
  assumes "scalar_grid grid" "overrides \<in> set (grid_combinations grid)"
  shows "\<forall>x\<in>set overrides. fst x \<in> set scalar_fields \<and> is_scalar (snd x)"
proof -
  let ?ordered = "sort_key fst grid"
  obtain vs where vs: "overrides = zip (map fst ?ordered) vs" "list_all2 (\<lambda>x ys. x \<in> set ys) vs (map snd ?ordered)"
    using assms(2) by (auto simp: grid_combinations_def Let_def product_lists_set)
  have "set ?ordered = set grid" by simp
  then have ok: "fst (?ordered ! i) \<in> set scalar_fields \<and> (\<forall>v\<in>set (snd (?ordered ! i)). is_scalar v)"
    if "i < length ?ordered" for i
    using assms(1) nth_mem [OF that] by (auto simp: scalar_grid_def list_all_iff)
  have "fst x \<in> set scalar_fields \<and> is_scalar (snd x)" if "x \<in> set overrides" for x
    using that ok vs(2) by (auto simp: vs(1) set_zip list_all2_conv_all_nth)
  then show ?thesis by blast
qed

lemma replace_strategy_ok:
  assumes "replay_config_ok model_factory c" "\<forall>x\<in>set overrides. fst x \<in> set scalar_fields \<and> is_scalar (snd x)"
  shows "\<exists>c'. replace_strategy c overrides = Inr c' \<and> replay_config_ok model_factory c'"
proof -
  obtain cfg where cfg: "fold_result replace_param (bc_strategy c) overrides = Inr cfg"
    "sc_symbol_enable cfg = sc_symbol_enable (bc_strategy c)"
    using replace_scalars [OF assms(2)] by blast
  then show ?thesis
    using assms(1) by (auto simp: replace_strategy_def replay_config_ok_def model_factory_def strategy_init_def is_ok_iff Let_def
      split: if_splits)
qed

lemma length_product_lists: "length (product_lists xss) = prod_list (map length xss)"
proof (induction xss)
  case (Cons xs xss)
  have "length (concat (map (\<lambda>x. map (Cons x) (product_lists xss)) xs)) = length xs * length (product_lists xss)"
    by (induction xs) simp_all
  with Cons show ?case by simp
qed simp

lemma length_grid_combinations: "length (grid_combinations grid) = prod_list (map (length \<circ> snd) grid)"
proof -
  have "prod_list (map (length \<circ> snd) (sort_key fst grid)) = prod_mset (image_mset (length \<circ> snd) (mset (sort_key fst grid)))"
    by (simp only: mset_map [symmetric] prod_mset_prod_list)
  also have "\<dots> = prod_list (map (length \<circ> snd) grid)"
    by (simp only: mset_sort mset_map [symmetric] prod_mset_prod_list)
  finally show ?thesis by (simp add: grid_combinations_def Let_def length_product_lists comp_def)
qed

lemma default_split_ok: "\<exists>parts. chronological_split fl64 clock (fl64 (6 / 10)) (fl64 (2 / 10)) events = Inr parts"
proof -
  have "\<not> fl64 (6 / 10) \<le> 0" "\<not> fl64 (2 / 10) < 0" "\<not> fl64 (fl64 (6 / 10) + fl64 (2 / 10)) \<ge> 1" by code_simp+
  then show ?thesis by (simp add: chronological_split_def Let_def)
qed

lemma grid_row_outcome:
  assumes "replay_config_ok model_factory c" "en_rnd env = fl64" "en_summed env = sum_left fl64"
    and "\<forall>x\<in>set overrides. fst x \<in> set scalar_fields \<and> is_scalar (snd x)"
  shows "case grid_row_of env c parts overrides of Inl e \<Rightarrow> e = AttributeError ''symbol_id''
    | Inr row \<Rightarrow> gr_parameters row = overrides"
proof -
  obtain c' where c': "replace_strategy c overrides = Inr c'" "replay_config_ok model_factory c'"
    using replace_strategy_ok [OF assms(1,4)] by blast
  from model.engine_run_outcome [OF c'(2) assms(2,3), of "ds_train parts"]
    model.engine_run_outcome [OF c'(2) assms(2,3), of "ds_validation parts"]
  show ?thesis
    by (cases "engine_run env model_factory c' (ds_train parts)"; cases "engine_run env model_factory c' (ds_validation parts)")
      (simp_all add: grid_row_of_def c'(1))
qed

lemma sort_rows_ranked:
  "sorted_wrt (\<lambda>a b. (gr_validation_net_pnl b, gr_train_net_pnl b) \<le> (gr_validation_net_pnl a, gr_train_net_pnl a)) (sort_rows rows)"
proof -
  have "sorted_wrt (\<lambda>a b. (- gr_validation_net_pnl a, - gr_train_net_pnl a) \<le> (- gr_validation_net_pnl b, - gr_train_net_pnl b))
      (sort_rows rows)"
    using sorted_sort_key [of "\<lambda>row. (- gr_validation_net_pnl row, - gr_train_net_pnl row)" rows]
    by (simp only: sort_rows_def sorted_map)
  then show ?thesis by (rule sorted_wrt_mono_rel [rotated]) (auto simp: less_eq_prod_def)
qed

text \<open>
  The parameter grid: over numeric and boolean fields, in binary64 arithmetic and for every accepted
  non-strict configuration, a grid with more combinations (the product of the value counts) than
  allowed is refused; otherwise the study returns exactly one row per combination, ranked by falling
  validation result and then falling training result, or stops with the missing-attribute error of
  closing a session on its last quotes.
\<close>

theorem grid_rows_ranked:
  assumes "replay_config_ok model_factory c" "en_rnd env = fl64" "en_summed env = sum_left fl64" "scalar_grid grid"
  shows "if int (prod_list (map (length \<circ> snd) grid)) > max_combinations
    then \<not> is_ok (run_parameter_grid env grid max_combinations c events)
    else case run_parameter_grid env grid max_combinations c events of
      Inl e \<Rightarrow> e = AttributeError ''symbol_id''
    | Inr rows \<Rightarrow> mset (map gr_parameters rows) = mset (grid_combinations grid) \<and>
        length rows = prod_list (map (length \<circ> snd) grid) \<and>
        sorted_wrt (\<lambda>a b. (gr_validation_net_pnl b, gr_train_net_pnl b) \<le> (gr_validation_net_pnl a, gr_train_net_pnl a)) rows"
proof (cases "int (prod_list (map (length \<circ> snd) grid)) > max_combinations")
  case True
  then show ?thesis by (simp add: run_parameter_grid_def length_grid_combinations Let_def)
next
  case False
  obtain parts where parts: "chronological_split fl64 (en_clock env) (fl64 (6 / 10)) (fl64 (2 / 10)) events = Inr parts"
    using default_split_ok by blast
  have "case map_result (grid_row_of env c parts) (grid_combinations grid) of Inl e \<Rightarrow> e = AttributeError ''symbol_id''
      | Inr rows \<Rightarrow> list_all2 (\<lambda>overrides row. gr_parameters row = overrides) (grid_combinations grid) rows"
    by (rule map_result_rows) (rule grid_row_outcome [OF assms(1-3) grid_overrides [OF assms(4)]])
  moreover have run: "run_parameter_grid env grid max_combinations c events =
      rbind (map_result (grid_row_of env c parts) (grid_combinations grid)) (\<lambda>rows. Inr (sort_rows rows))"
    using parts False by (simp add: run_parameter_grid_def length_grid_combinations assms(2) Let_def)
  moreover have "mset (map gr_parameters (sort_rows rows)) = mset (grid_combinations grid) \<and>
      length (sort_rows rows) = prod_list (map (length \<circ> snd) grid) \<and>
      sorted_wrt (\<lambda>a b. (gr_validation_net_pnl b, gr_train_net_pnl b) \<le> (gr_validation_net_pnl a, gr_train_net_pnl a)) (sort_rows rows)"
    if "list_all2 (\<lambda>overrides row. gr_parameters row = overrides) (grid_combinations grid) rows" for rows
  proof -
    have rows: "map gr_parameters rows = grid_combinations grid"
      using that by (auto simp: list_all2_conv_all_nth intro!: nth_equalityI)
    have "mset (map gr_parameters (sort_rows rows)) = mset (map gr_parameters rows)" by (simp add: sort_rows_def)
    moreover have "length (sort_rows rows) = length (map gr_parameters rows)" by (simp add: sort_rows_def)
    ultimately show ?thesis
      using sort_rows_ranked [of rows] by (simp only: rows length_grid_combinations simp_thms)
  qed
  ultimately show ?thesis
    using False by (cases "map_result (grid_row_of env c parts) (grid_combinations grid)") simp_all
qed

section \<open>The calibration table\<close>

lemma update_keyed:
  assumes "distinct ks"
  shows "AList.update k v (map (\<lambda>x. (x, h x)) ks) =
    map (\<lambda>x. (x, (h(k := v)) x)) (if k \<in> set ks then ks else ks @ [k])"
  using assms by (induction ks) (auto simp: map_eq_conv)

lemma calibration_groups:
  "foldl (\<lambda>m g. AList.update (score_key_of g) (calibration_row_of g) m) [] groups =
   map (\<lambda>k. (k, calibration_row_of (last (filter (\<lambda>g. score_key_of g = k) groups)))) (rev (remdups (rev (map score_key_of groups))))"
proof (induction groups rule: rev_induct)
  case Nil
  then show ?case by simp
next
  case (snoc g groups)
  show ?case by (auto simp: snoc.IH update_keyed)
qed

text \<open>
  The calibration table has one row for each (direction, score, horizon) among the groups of the
  forward returns, in the order of their first group, and that row repeats the count, the mean, the
  median and the win fraction of the last such group: groups of other symbols or reason words with the
  same score are dropped, not aggregated.
\<close>

theorem calibration_keeps_last_group:
  "score_calibration (n, groups) =
     map (\<lambda>k. calibration_row_of (last (filter (\<lambda>g. score_key_of g = k) groups)))
       (rev (remdups (rev (map score_key_of groups))))"
  by (simp add: score_calibration_def calibration_groups)

section \<open>The studies at work\<close>

definition demo_env :: replay_env where
  "demo_env = \<lparr>en_rnd = fl64, en_summed = sum_left fl64, en_math = demo_math, en_text = demo_text, en_clock = test_clock\<rparr>"

theorem no_trade_baseline_is_flat_witness:
  "\<exists>run. engine_run demo_env model_factory (disable_strategy overnight_config) trading_day = Inr run \<and>
     rn_trade_count (st_summary run) = 0"
proof -
  have "fl64 (pc_starting_cash (bc_portfolio overnight_config)) = pc_starting_cash (bc_portfolio overnight_config)"
    by code_simp
  with no_trade_baseline_is_flat [of overnight_config demo_env trading_day] overnight_config_ok
  show ?thesis by (auto simp: demo_env_def sum_left_def)
qed

theorem ablation_study_complete_witness:
  "case run_factor_ablation demo_env all_factors overnight_config trading_day of
      Inl e \<Rightarrow> e = AttributeError ''symbol_id'' | Inr rows \<Rightarrow> map fst rows = ''none'' # all_factors"
  using ablation_study_complete [OF overnight_config_ok, of demo_env all_factors trading_day]
  by (cases "run_factor_ablation demo_env all_factors overnight_config trading_day") (simp_all add: demo_env_def all_factors_def)

theorem grid_rows_ranked_witness:
  "\<not> is_ok (run_parameter_grid demo_env [(''long_enable'', [PBool True, PBool False]), (''min_rolling_volume'', [PInt 1, PInt 5])]
      3 overnight_config trading_day)"
  using grid_rows_ranked [OF overnight_config_ok, of demo_env
      "[(''long_enable'', [PBool True, PBool False]), (''min_rolling_volume'', [PInt 1, PInt 5])]" 3 trading_day]
  by (simp add: demo_env_def scalar_grid_def scalar_fields_def is_scalar_def)

end
