(* ===== verification/Arrival_Rates.thy ===== *)
theory Arrival_Rates
  imports Arrival_Capacity
begin

text \<open>
  Event rates and inter-arrival times of \<open>tools/backtest/arrival.py\<close>, over a list and as a stream.
\<close>

section \<open>Windows\<close>

definition duration_label :: "int \<Rightarrow> string" where
  "duration_label window_ns =
     (if window_ns = 1000000000 then ''1s'' else if window_ns = 100000000 then ''100ms''
      else if window_ns = 10000000 then ''10ms'' else if window_ns = 1000000 then ''1ms''
      else py_str_int window_ns @ ''ns'')"

definition rate_of :: "(rat \<Rightarrow> rat) \<Rightarrow> int \<Rightarrow> int \<Rightarrow> rat result" where
  "rate_of rnd window_ns count = true_div rnd (of_int (count * 1000000000)) (of_int window_ns)"

record window_rates =
  wr_windows :: int
  wr_mean :: rat
  wr_median :: rat
  wr_p95 :: rat
  wr_p99 :: rat
  wr_maximum :: rat

definition bucket_add :: "int \<Rightarrow> int \<Rightarrow> (int \<times> int) list \<Rightarrow> int \<Rightarrow> (int \<times> int) list result" where
  "bucket_add window_ns start buckets timestamp_ns =
     rbind (int_floordiv (timestamp_ns - start) window_ns) (\<lambda>k.
       Inr (AList.update k ((case map_of buckets k of None \<Rightarrow> 0 | Some n \<Rightarrow> n) + 1) buckets))"

definition window_rate :: "(rat \<Rightarrow> rat) \<Rightarrow> int list \<Rightarrow> int \<Rightarrow> window_rates result" where
  "window_rate rnd timestamps window_ns =
     (case timestamps of
        [] \<Rightarrow> Inr \<lparr>wr_windows = 0, wr_mean = 0, wr_median = 0, wr_p95 = 0, wr_p99 = 0, wr_maximum = 0\<rparr>
      | start # _ \<Rightarrow>
          rbind (fold_result (bucket_add window_ns start) [] timestamps) (\<lambda>buckets.
          rbind (map_result (rate_of rnd window_ns) (map snd buckets)) (\<lambda>rates.
          Inr \<lparr>wr_windows = int (length rates), wr_mean = mean_of rnd rates,
               wr_median = median_by rnd (float_add rnd) rates,
               wr_p95 = the (percentile rnd rates (rnd (95 / 100))),
               wr_p99 = the (percentile rnd rates (rnd (99 / 100))),
               wr_maximum = the (extreme_of max rates)\<rparr>)))"

text \<open>The times of all events, and of each symbol, in the order of (timestamp, source index).\<close>

definition arrival_groups :: "normalized_event list \<Rightarrow> (string \<times> int list) list" where
  "arrival_groups events =
     (let ordered = sort_key (\<lambda>e. (ne_timestamp_ns e, ne_source_index e)) events in
      (''combined'', map ne_timestamp_ns ordered) #
      map (\<lambda>s. (''symbol_'' @ py_str_int s, map ne_timestamp_ns (filter (\<lambda>e. ne_symbol_id e = s) ordered)))
        (sort (remdups (map ne_symbol_id ordered))))"

definition event_rate_analysis ::
  "(rat \<Rightarrow> rat) \<Rightarrow> int list \<Rightarrow> normalized_event list \<Rightarrow> (string \<times> (string \<times> window_rates) list) list result" where
  "event_rate_analysis rnd windows_ns events =
     fold_result (\<lambda>d window_ns.
         rbind (map_result (\<lambda>(name, ts). rbind (window_rate rnd ts window_ns) (\<lambda>r. Inr (name, r)))
                  (arrival_groups events)) (\<lambda>groups.
         Inr (AList.update (duration_label window_ns) groups d)))
       [] windows_ns"

section \<open>Windows of a stream\<close>

record rate_state =
  rt_start :: int
  rt_bucket :: int
  rt_count :: int
  rt_stats :: online_stats

definition rate_update :: "(rat \<Rightarrow> rat) \<Rightarrow> int \<Rightarrow> int \<Rightarrow> rate_state \<Rightarrow> rate_state result" where
  "rate_update rnd window_ns timestamp_ns st =
     rbind (int_floordiv (timestamp_ns - rt_start st) window_ns) (\<lambda>bucket.
     if rt_count st \<noteq> 0 \<and> bucket \<noteq> rt_bucket st
     then rbind (rate_of rnd window_ns (rt_count st)) (\<lambda>rate.
          rbind (online_add rnd rate (rt_stats st)) (\<lambda>stats.
          Inr (st\<lparr>rt_stats := stats, rt_bucket := bucket, rt_count := 1\<rparr>)))
     else Inr (st\<lparr>rt_count := rt_count st + 1\<rparr>))"

definition stream_update ::
  "(rat \<Rightarrow> rat) \<Rightarrow> string \<Rightarrow> string \<Rightarrow> int \<Rightarrow> int \<Rightarrow>
     ((string \<times> string) \<times> rate_state) list \<Rightarrow> ((string \<times> string) \<times> rate_state) list result" where
  "stream_update rnd label grp timestamp_ns window_ns states =
     (let st = (case map_of states (label, grp) of
          None \<Rightarrow> \<lparr>rt_start = timestamp_ns, rt_bucket = 0, rt_count = 0, rt_stats = online_init 100000\<rparr>
        | Some st \<Rightarrow> st)
      in rbind (rate_update rnd window_ns timestamp_ns st) (\<lambda>st.
         Inr (AList.update (label, grp) st states)))"

definition rates_observe ::
  "(rat \<Rightarrow> rat) \<Rightarrow> int list \<Rightarrow> ((string \<times> string) \<times> rate_state) list \<Rightarrow> normalized_event \<Rightarrow>
     ((string \<times> string) \<times> rate_state) list result" where
  "rates_observe rnd windows_ns states e =
     fold_result (\<lambda>states window_ns.
         rbind (stream_update rnd (duration_label window_ns) ''combined'' (ne_timestamp_ns e) window_ns states) (\<lambda>states.
         stream_update rnd (duration_label window_ns) (''symbol_'' @ py_str_int (ne_symbol_id e))
           (ne_timestamp_ns e) window_ns states))
       states windows_ns"

text \<open>The last window of each state of a label is added before its statistics are read.\<close>

definition rate_flush :: "(rat \<Rightarrow> rat) \<Rightarrow> int \<Rightarrow> rate_state \<Rightarrow> rate_state result" where
  "rate_flush rnd window_ns st =
     (if rt_count st = 0 then Inr st
      else rbind (rate_of rnd window_ns (rt_count st)) (\<lambda>rate.
           rbind (online_add rnd rate (rt_stats st)) (\<lambda>stats. Inr (st\<lparr>rt_stats := stats\<rparr>))))"

definition flush_label ::
  "(rat \<Rightarrow> rat) \<Rightarrow> int \<Rightarrow> ((string \<times> string) \<times> rate_state) list \<Rightarrow> ((string \<times> string) \<times> rate_state) list result" where
  "flush_label rnd window_ns states =
     map_result (\<lambda>(key, st).
         if fst key = duration_label window_ns
         then rbind (rate_flush rnd window_ns st) (\<lambda>st. Inr (key, st)) else Inr (key, st)) states"

definition label_groups ::
  "(rat \<Rightarrow> rat) \<Rightarrow> string \<Rightarrow> ((string \<times> string) \<times> rate_state) list \<Rightarrow> (string \<times> distribution_stats \<times> int) list" where
  "label_groups rnd label states =
     map (\<lambda>(key, st). (snd key, online_dict rnd (float_add rnd) (rt_stats st), on_count (rt_stats st)))
       (filter (\<lambda>(key, _). fst key = label) states)"

definition event_rate_analysis_stream ::
  "(rat \<Rightarrow> rat) \<Rightarrow> int list \<Rightarrow> normalized_event list \<Rightarrow>
     (string \<times> (string \<times> distribution_stats \<times> int) list) list result" where
  "event_rate_analysis_stream rnd windows_ns events =
     rbind (fold_result (rates_observe rnd windows_ns) [] events) (\<lambda>states.
     rbind (fold_result (\<lambda>(states, d) window_ns.
              rbind (flush_label rnd window_ns states) (\<lambda>states.
              Inr (states, AList.update (duration_label window_ns)
                     (label_groups rnd (duration_label window_ns) states) d)))
            (states, []) windows_ns) (\<lambda>(_, d). Inr d))"

section \<open>Inter-arrival times\<close>

record interarrival_stats =
  ia_distribution :: distribution_stats
  ia_fraction_within :: "rat option"

record interarrival_analysis_result =
  ir_service_cycles :: int
  ir_clock_hz :: int
  ir_service_interval_ns :: rat
  ir_groups :: "(string \<times> interarrival_stats) list"

definition within_service :: "int \<Rightarrow> int \<Rightarrow> int \<Rightarrow> bool" where
  "within_service service_cycles clock_hz delta \<longleftrightarrow> delta * clock_hz \<le> service_cycles * 1000000000"

definition deltas_of :: "int list \<Rightarrow> int list" where
  "deltas_of ts = map (\<lambda>(left, right). right - left) (zip ts (tl ts))"

definition fraction_of :: "(rat \<Rightarrow> rat) \<Rightarrow> int \<Rightarrow> int \<Rightarrow> rat option" where
  "fraction_of rnd n count = (if count = 0 then None else Some (rnd (of_int n / of_int count)))"

definition interarrival_group :: "(rat \<Rightarrow> rat) \<Rightarrow> int \<Rightarrow> int \<Rightarrow> int list \<Rightarrow> interarrival_stats" where
  "interarrival_group rnd service_cycles clock_hz ts =
     (let deltas = deltas_of ts in
      \<lparr>ia_distribution = distribution rnd (+) (int_mean_of rnd) (map of_int deltas),
       ia_fraction_within = fraction_of rnd
         (int (length (filter (within_service service_cycles clock_hz) deltas))) (int (length deltas))\<rparr>)"

definition interarrival_result ::
  "(rat \<Rightarrow> rat) \<Rightarrow> int \<Rightarrow> int \<Rightarrow> (string \<times> interarrival_stats) list \<Rightarrow> interarrival_analysis_result result" where
  "interarrival_result rnd service_cycles clock_hz groups =
     rbind (true_div rnd (of_int (service_cycles * 1000000000)) (of_int clock_hz)) (\<lambda>interval.
     Inr \<lparr>ir_service_cycles = service_cycles, ir_clock_hz = clock_hz, ir_service_interval_ns = interval,
          ir_groups = groups\<rparr>)"

definition interarrival_analysis ::
  "(rat \<Rightarrow> rat) \<Rightarrow> int \<Rightarrow> int \<Rightarrow> normalized_event list \<Rightarrow> interarrival_analysis_result result" where
  "interarrival_analysis rnd service_cycles clock_hz events =
     interarrival_result rnd service_cycles clock_hz
       (map (\<lambda>(name, ts). (name, interarrival_group rnd service_cycles clock_hz ts)) (arrival_groups events))"

record interarrival_state =
  is_last :: "int option"
  is_stats :: online_stats
  is_within :: int

definition interarrival_init :: "int \<Rightarrow> interarrival_state" where
  "interarrival_init sample = \<lparr>is_last = None, is_stats = online_init sample, is_within = 0\<rparr>"

definition interarrival_observe ::
  "(rat \<Rightarrow> rat) \<Rightarrow> int \<Rightarrow> int \<Rightarrow> interarrival_state \<Rightarrow> int \<Rightarrow> interarrival_state result" where
  "interarrival_observe rnd service_cycles clock_hz st timestamp_ns =
     rbind (case is_last st of
              None \<Rightarrow> Inr st
            | Some earlier \<Rightarrow>
                let delta = timestamp_ns - earlier in
                rbind (online_add rnd (of_int delta) (is_stats st)) (\<lambda>stats.
                Inr (st\<lparr>is_stats := stats,
                        is_within := is_within st + (if within_service service_cycles clock_hz delta then 1 else 0)\<rparr>)))
       (\<lambda>st. Inr (st\<lparr>is_last := Some timestamp_ns\<rparr>))"

definition group_observe ::
  "(rat \<Rightarrow> rat) \<Rightarrow> int \<Rightarrow> int \<Rightarrow> int \<Rightarrow> string \<Rightarrow> int \<Rightarrow> (string \<times> interarrival_state) list \<Rightarrow>
     (string \<times> interarrival_state) list result" where
  "group_observe rnd sample service_cycles clock_hz grp timestamp_ns states =
     rbind (interarrival_observe rnd service_cycles clock_hz
              (case map_of states grp of None \<Rightarrow> interarrival_init sample | Some st \<Rightarrow> st) timestamp_ns) (\<lambda>st.
     Inr (AList.update grp st states))"

definition interarrival_dict :: "(rat \<Rightarrow> rat) \<Rightarrow> interarrival_state \<Rightarrow> interarrival_stats" where
  "interarrival_dict rnd st =
     \<lparr>ia_distribution = online_dict rnd (+) (is_stats st),
      ia_fraction_within = fraction_of rnd (is_within st) (on_count (is_stats st))\<rparr>"

definition interarrival_analysis_stream ::
  "(rat \<Rightarrow> rat) \<Rightarrow> int \<Rightarrow> int \<Rightarrow> normalized_event list \<Rightarrow> interarrival_analysis_result result" where
  "interarrival_analysis_stream rnd service_cycles clock_hz events =
     rbind (fold_result (\<lambda>states e.
              rbind (group_observe rnd 100000 service_cycles clock_hz ''combined'' (ne_timestamp_ns e) states) (\<lambda>states.
              group_observe rnd 100000 service_cycles clock_hz (''symbol_'' @ py_str_int (ne_symbol_id e))
                (ne_timestamp_ns e) states)) [] events) (\<lambda>states.
     interarrival_result rnd service_cycles clock_hz (map (\<lambda>(name, st). (name, interarrival_dict rnd st)) states))"

end
