(* ===== verification/Arrival_Diagnostics.thy ===== *)
theory Arrival_Diagnostics
  imports Arrival_Rates Python_Text
begin

text \<open>
  The combined timestamp analysis of \<open>tools/backtest/arrival.py\<close>: counts, rates, inter-arrival times
  and queues in one pass, with checkpoints from which an interrupted pass is resumed. Progress
  reports and the clock they read are left out; both checkpoint paths are given. The files are the
  store: the pickled state and the phase and input identity of the manifest.
\<close>

section \<open>Rate and inter-arrival states\<close>

record combined_rate =
  cb_start :: "int option"
  cb_bucket :: int
  cb_count :: int
  cb_stats :: online_stats

definition combined_rate_create :: combined_rate where
  "combined_rate_create = \<lparr>cb_start = None, cb_bucket = 0, cb_count = 0, cb_stats = online_init 10000\<rparr>"

definition combined_rate_add :: "(rat \<Rightarrow> rat) \<Rightarrow> int \<Rightarrow> combined_rate \<Rightarrow> combined_rate result" where
  "combined_rate_add rnd window_ns st =
     rbind (rate_of rnd window_ns (cb_count st)) (\<lambda>rate.
     rbind (online_add rnd rate (cb_stats st)) (\<lambda>stats. Inr (st\<lparr>cb_stats := stats\<rparr>)))"

definition combined_rate_observe :: "(rat \<Rightarrow> rat) \<Rightarrow> int \<Rightarrow> int \<Rightarrow> combined_rate \<Rightarrow> combined_rate result" where
  "combined_rate_observe rnd timestamp_ns window_ns st =
     (case cb_start st of
        None \<Rightarrow> Inr (st\<lparr>cb_start := Some timestamp_ns, cb_bucket := 0, cb_count := 1\<rparr>)
      | Some start \<Rightarrow>
          rbind (int_floordiv (timestamp_ns - start) window_ns) (\<lambda>bucket.
          if bucket \<noteq> cb_bucket st
          then rbind (if cb_count st \<noteq> 0 then combined_rate_add rnd window_ns st else Inr st) (\<lambda>st.
               Inr (st\<lparr>cb_bucket := bucket, cb_count := 1\<rparr>))
          else Inr (st\<lparr>cb_count := cb_count st + 1\<rparr>)))"

definition combined_rate_finish :: "(rat \<Rightarrow> rat) \<Rightarrow> int \<Rightarrow> combined_rate \<Rightarrow> combined_rate result" where
  "combined_rate_finish rnd window_ns st =
     (if cb_count st \<noteq> 0 then rbind (combined_rate_add rnd window_ns st) (\<lambda>st. Inr (st\<lparr>cb_count := 0\<rparr>))
      else Inr st)"

section \<open>The diagnostic state\<close>

record event_counts =
  ec_total :: int
  ec_quotes :: int
  ec_trades :: int
  ec_bids :: int
  ec_asks :: int

definition no_events :: event_counts where
  "no_events = \<lparr>ec_total = 0, ec_quotes = 0, ec_trades = 0, ec_bids = 0, ec_asks = 0\<rparr>"

definition count_event :: "normalized_event \<Rightarrow> event_counts \<Rightarrow> event_counts" where
  "count_event e c =
     (let c = c\<lparr>ec_total := ec_total c + 1\<rparr> in
      if ne_event_type e = 1
      then let c = c\<lparr>ec_quotes := ec_quotes c + 1\<rparr>
           in if ne_side e = 0 then c\<lparr>ec_bids := ec_bids c + 1\<rparr> else c\<lparr>ec_asks := ec_asks c + 1\<rparr>
      else if ne_event_type e = 2 then c\<lparr>ec_trades := ec_trades c + 1\<rparr> else c)"

record diagnostic_state =
  dg_windows_ns :: "int list"
  dg_service_cycles :: int
  dg_clock_hz :: int
  dg_depths :: "int list"
  dg_processed_events :: int
  dg_counts :: event_counts
  dg_by_symbol :: "(string \<times> event_counts) list"
  dg_rate_states :: "((string \<times> string) \<times> combined_rate) list"
  dg_interarrival_states :: "(string \<times> interarrival_state) list"
  dg_capacity_states :: "(int option \<times> capacity_state) list"
  dg_first_timestamp_ns :: "int option"
  dg_last_timestamp_ns :: "int option"
  dg_largest_gap_ns :: int

definition diagnostic_init :: "int list \<Rightarrow> int \<Rightarrow> int \<Rightarrow> int list \<Rightarrow> diagnostic_state" where
  "diagnostic_init windows_ns service_cycles clock_hz depths =
     \<lparr>dg_windows_ns = windows_ns, dg_service_cycles = service_cycles, dg_clock_hz = clock_hz,
      dg_depths = depths, dg_processed_events = 0, dg_counts = no_events, dg_by_symbol = [],
      dg_rate_states = [], dg_interarrival_states = [(''combined'', interarrival_init 10000)],
      dg_capacity_states = capacity_states (service_cycles * 1000000000) clock_hz depths,
      dg_first_timestamp_ns = None, dg_last_timestamp_ns = None, dg_largest_gap_ns = 0\<rparr>"

definition rate_observe ::
  "(rat \<Rightarrow> rat) \<Rightarrow> int \<Rightarrow> int \<Rightarrow> string \<Rightarrow>
     ((string \<times> string) \<times> combined_rate) list \<Rightarrow> ((string \<times> string) \<times> combined_rate) list result" where
  "rate_observe rnd timestamp_ns window_ns grp states =
     (let key = (duration_label window_ns, grp) in
      rbind (combined_rate_observe rnd timestamp_ns window_ns
               (case map_of states key of None \<Rightarrow> combined_rate_create | Some st \<Rightarrow> st)) (\<lambda>st.
      Inr (AList.update key st states)))"

definition observe_windows ::
  "(rat \<Rightarrow> rat) \<Rightarrow> int \<Rightarrow> string \<Rightarrow> ((string \<times> string) \<times> combined_rate) list \<Rightarrow> int \<Rightarrow>
     ((string \<times> string) \<times> combined_rate) list result" where
  "observe_windows rnd ts symb states window_ns =
     rbind (rate_observe rnd ts window_ns ''combined'' states) (\<lambda>states.
       rate_observe rnd ts window_ns (''symbol_'' @ symb) states)"

definition diagnostic_observe :: "(rat \<Rightarrow> rat) \<Rightarrow> diagnostic_state \<Rightarrow> normalized_event \<Rightarrow> diagnostic_state result" where
  "diagnostic_observe rnd s e =
     (let ts = ne_timestamp_ns e; symb = py_str_int (ne_symbol_id e);
          symbol_counts = (case map_of (dg_by_symbol s) symb of None \<Rightarrow> no_events | Some c \<Rightarrow> c);
          s = s\<lparr>dg_processed_events := dg_processed_events s + 1, dg_counts := count_event e (dg_counts s),
                dg_by_symbol := AList.update symb (count_event e symbol_counts) (dg_by_symbol s)\<rparr> in
      rbind (fold_result (observe_windows rnd ts symb) (dg_rate_states s) (dg_windows_ns s)) (\<lambda>rates.
      rbind (group_observe rnd 10000 (dg_service_cycles s) (dg_clock_hz s) ''combined'' ts
               (dg_interarrival_states s)) (\<lambda>inter.
      rbind (group_observe rnd 10000 (dg_service_cycles s) (dg_clock_hz s) (''symbol_'' @ symb) ts inter) (\<lambda>inter.
      rbind (observe_all rnd (dg_capacity_states s) ts) (\<lambda>capacity.
      Inr (s\<lparr>dg_rate_states := rates, dg_interarrival_states := inter, dg_capacity_states := capacity,
             dg_first_timestamp_ns := (case dg_first_timestamp_ns s of None \<Rightarrow> Some ts | Some t \<Rightarrow> Some t),
             dg_largest_gap_ns := (case dg_last_timestamp_ns s of None \<Rightarrow> dg_largest_gap_ns s
               | Some t \<Rightarrow> max (dg_largest_gap_ns s) (ts - t)),
             dg_last_timestamp_ns := Some ts\<rparr>))))))"

text \<open>The dict in \<open>finalize\<close>, which knows the four default windows only.\<close>

definition window_of_label :: "string \<Rightarrow> int result" where
  "window_of_label label =
     (if label = ''1s'' then Inr 1000000000 else if label = ''100ms'' then Inr 100000000
      else if label = ''10ms'' then Inr 10000000 else if label = ''1ms'' then Inr 1000000
      else Inl KeyError)"

definition diagnostic_finalize :: "(rat \<Rightarrow> rat) \<Rightarrow> diagnostic_state \<Rightarrow> diagnostic_state result" where
  "diagnostic_finalize rnd s =
     rbind (map_result (\<lambda>(key, st).
              rbind (window_of_label (fst key)) (\<lambda>window_ns.
              rbind (combined_rate_finish rnd window_ns st) (\<lambda>st. Inr (key, st)))) (dg_rate_states s)) (\<lambda>states.
     Inr (s\<lparr>dg_rate_states := states\<rparr>))"

section \<open>The report\<close>

record diagnostic_report =
  dr_aggregate :: event_counts
  dr_by_symbol :: "(string \<times> event_counts) list"
  dr_event_rates :: "(string \<times> (string \<times> distribution_stats \<times> int) list) list"
  dr_interarrival :: interarrival_analysis_result
  dr_pipeline_capacity :: capacity_analysis
  dr_first_event_timestamp_ns :: "int option"
  dr_last_event_timestamp_ns :: "int option"
  dr_largest_event_gap_ns :: int
  dr_processed_events :: int

definition symbol_key :: "string \<times> event_counts \<Rightarrow> int" where
  "symbol_key item = (case py_int_text (fst item) of None \<Rightarrow> 0 | Some n \<Rightarrow> n)"

definition combined_groups ::
  "(rat \<Rightarrow> rat) \<Rightarrow> string \<Rightarrow> ((string \<times> string) \<times> combined_rate) list \<Rightarrow> (string \<times> distribution_stats \<times> int) list" where
  "combined_groups rnd label states =
     map (\<lambda>(key, st). (snd key, online_dict rnd (float_add rnd) (cb_stats st), on_count (cb_stats st)))
       (filter (\<lambda>(key, _). fst key = label) states)"

definition diagnostic_dict :: "(rat \<Rightarrow> rat) \<Rightarrow> diagnostic_state \<Rightarrow> diagnostic_report result" where
  "diagnostic_dict rnd s =
     rbind (diagnostic_finalize rnd s) (\<lambda>s.
     rbind (interarrival_result rnd (dg_service_cycles s) (dg_clock_hz s)
              (map (\<lambda>(name, st). (name, interarrival_dict rnd st)) (dg_interarrival_states s))) (\<lambda>inter.
     rbind (capacity_analysis_of rnd (dg_service_cycles s) (dg_clock_hz s) (dg_depths s)
              (capacity_report_of rnd (dg_capacity_states s))) (\<lambda>capacity.
     Inr \<lparr>dr_aggregate = dg_counts s, dr_by_symbol = sort_key symbol_key (dg_by_symbol s),
          dr_event_rates = foldl (\<lambda>d window_ns. AList.update (duration_label window_ns)
              (combined_groups rnd (duration_label window_ns) (dg_rate_states s)) d) [] (dg_windows_ns s),
          dr_interarrival = inter, dr_pipeline_capacity = capacity,
          dr_first_event_timestamp_ns = dg_first_timestamp_ns s,
          dr_last_event_timestamp_ns = dg_last_timestamp_ns s,
          dr_largest_event_gap_ns = dg_largest_gap_ns s, dr_processed_events = dg_processed_events s\<rparr>)))"

section \<open>The resumable pass\<close>

datatype analysis_phase = InProgress | Complete

record 'i analysis_store =
  as_checkpoint :: "diagnostic_state option"
  as_manifest :: "(analysis_phase \<times> 'i) option"

definition load_checkpoint :: "'i \<Rightarrow> 'i analysis_store \<Rightarrow> diagnostic_state option" where
  "load_checkpoint identity store =
     (if as_manifest store = Some (InProgress, identity) then as_checkpoint store else None)"

definition write_checkpoint :: "'i \<Rightarrow> diagnostic_state \<Rightarrow> 'i analysis_store \<Rightarrow> 'i analysis_store" where
  "write_checkpoint identity s store =
     store\<lparr>as_checkpoint := Some s, as_manifest := Some (InProgress, identity)\<rparr>"

text \<open>
  The loop over the events that the source still yields. An exception inside \<open>observe\<close> leaves a state
  that is changed in part; \<open>torn\<close> stands for it. \<open>failure\<close> is the exception that ends the source.
\<close>

fun analysis_loop ::
  "(rat \<Rightarrow> rat) \<Rightarrow> (diagnostic_state \<Rightarrow> normalized_event \<Rightarrow> diagnostic_state) \<Rightarrow> int \<Rightarrow> 'i \<Rightarrow>
     normalized_event list \<Rightarrow> py_error option \<Rightarrow> int \<Rightarrow> diagnostic_state \<Rightarrow> 'i analysis_store \<Rightarrow>
     diagnostic_state result \<times> 'i analysis_store" where
  "analysis_loop rnd torn interval identity [] failure last_checkpoint s store =
     (case failure of
        None \<Rightarrow> (Inr s, store)
      | Some e \<Rightarrow> (Inl e, write_checkpoint identity s store))"
| "analysis_loop rnd torn interval identity (e # es) failure last_checkpoint s store =
     (case diagnostic_observe rnd s e of
        Inl x \<Rightarrow> (Inl x, write_checkpoint identity (torn s e) store)
      | Inr s \<Rightarrow>
          if dg_processed_events s - last_checkpoint \<ge> interval
          then analysis_loop rnd torn interval identity es failure (dg_processed_events s) s
                 (write_checkpoint identity s store)
          else analysis_loop rnd torn interval identity es failure last_checkpoint s store)"

text \<open>
  \<open>event_factory start_index\<close> gives the events from that index on and the exception that ends them.
\<close>

definition combined_timestamp_analysis ::
  "(rat \<Rightarrow> rat) \<Rightarrow> (diagnostic_state \<Rightarrow> normalized_event \<Rightarrow> diagnostic_state) \<Rightarrow> int \<Rightarrow> diagnostic_state \<Rightarrow> 'i \<Rightarrow>
     (int \<Rightarrow> normalized_event list \<times> py_error option) \<Rightarrow> 'i analysis_store \<Rightarrow>
     diagnostic_report result \<times> 'i analysis_store" where
  "combined_timestamp_analysis rnd torn interval fresh identity event_factory store =
     (let s = (case load_checkpoint identity store of None \<Rightarrow> fresh | Some s \<Rightarrow> s);
          (events, failure) = event_factory (dg_processed_events s)
      in case analysis_loop rnd torn interval identity events failure (dg_processed_events s) s store of
           (Inl e, store) \<Rightarrow> (Inl e, store)
         | (Inr s, store) \<Rightarrow>
             (case diagnostic_dict rnd s of
                Inl e \<Rightarrow> (Inl e, store)
              | Inr report \<Rightarrow> (Inr report, store\<lparr>as_manifest := Some (Complete, identity)\<rparr>)))"

end
