(* ===== verification/Arrival_Correct.thy ===== *)
theory Arrival_Correct
  imports Arrival_Capacity
begin

text \<open>
  What the capacity simulation computes: the occupancies and losses of a first-in first-out queue
  with one server, kept here as the explicit list of departure times; and the agreement of the
  streaming version with the one over a sorted list.
\<close>

section \<open>The queue\<close>

text \<open>
  Jobs arrive at the given times. A job that finds the queue full is lost; any other starts when the
  server is free and leaves \<open>service\<close> later. Each job yields what it finds in the system (counting
  itself when it is accepted) and whether it was accepted.
\<close>

fun fifo_run :: "int option \<Rightarrow> int \<Rightarrow> int list \<Rightarrow> int list \<Rightarrow> (int \<times> bool) list" where
  "fifo_run depth service departures [] = []"
| "fifo_run depth service departures (a # as) =
     (let present = int (length (filter (\<lambda>d. a < d) departures)) in
      if queue_full depth present then (present, False) # fifo_run depth service departures as
      else (present + 1, True) # fifo_run depth service
             (departures @ [(if departures = [] then a else max a (last departures)) + service]) as)"

definition jobs_lost :: "(int \<times> bool) list \<Rightarrow> int" where
  "jobs_lost run = int (length (filter (\<lambda>(_, accepted). \<not> accepted) run))"

lemma jobs_lost_simps [simp]:
  "jobs_lost [] = 0"
  "jobs_lost ((w, True) # run) = jobs_lost run"
  "jobs_lost ((w, False) # run) = jobs_lost run + 1"
  by (simp_all add: jobs_lost_def)

lemma fifo_run_bounds:
  "(w, ok) \<in> set (fifo_run depth service departures as) \<Longrightarrow>
     0 \<le> w \<and> w \<le> int (length departures + length as)"
proof (induction as arbitrary: departures)
  case Nil
  then show ?case by simp
next
  case (Cons a as)
  have len: "length (filter (\<lambda>d. a < d) departures) \<le> length departures" by simp
  from Cons.prems show ?case
    by (auto simp: Let_def split: if_splits dest!: Cons.IH) (use len in linarith)+
qed

lemma fifo_run_depth:
  "(w, ok) \<in> set (fifo_run (Some d) service departures as) \<Longrightarrow>
     \<forall>a\<in>set as. int (length (filter (\<lambda>x. a < x) departures)) \<le> d \<Longrightarrow> sorted as \<Longrightarrow> w \<le> d"
proof (induction as arbitrary: departures)
  case Nil
  then show ?case by simp
next
  case (Cons a as)
  let ?present = "int (length (filter (\<lambda>x. a < x) departures))"
  show ?case
  proof (cases "queue_full (Some d) ?present")
    case True
    then show ?thesis using Cons by (auto simp: Let_def)
  next
    case False
    then have room: "?present + 1 \<le> d" by (simp add: queue_full_def)
    let ?departures = "departures @ [(if departures = [] then a else max a (last departures)) + service]"
    have "int (length (filter (\<lambda>x. a' < x) ?departures)) \<le> d" if "a' \<in> set as" for a'
    proof -
      have "a \<le> a'" using Cons.prems(3) that by simp
      then have "length (filter (\<lambda>x. a' < x) departures) \<le> length (filter (\<lambda>x. a < x) departures)"
        by (induction departures) auto
      then show ?thesis using room by simp
    qed
    then show ?thesis using Cons.prems False room Cons.IH [of ?departures] by (auto simp: Let_def)
  qed
qed

section \<open>Departures of a busy server\<close>

text \<open>
  The departures end with a run of equally spaced ones, one service time apart, from the start \<open>b\<close>
  of the busy period to the time the server is free; all earlier ones lie before \<open>b\<close>.
\<close>

definition busy :: "int \<Rightarrow> int list \<Rightarrow> int \<Rightarrow> int \<Rightarrow> bool" where
  "busy service departures available now \<longleftrightarrow>
     (\<exists>b k old. departures = old @ map (\<lambda>j. b + (int j + 1) * service) [0..<k] \<and>
        available = b + int k * service \<and> (\<forall>d\<in>set old. d \<le> b) \<and> 0 \<le> b \<and> b \<le> now \<and>
        (k = 0 \<longrightarrow> old = [] \<and> b = 0))"

lemma busy_start: "0 \<le> now \<Longrightarrow> busy service [] 0 now"
  unfolding busy_def by (rule exI [of _ 0], rule exI [of _ 0], rule exI [of _ "[]"]) simp

lemma busy_later: "busy service departures available now \<Longrightarrow> now \<le> now' \<Longrightarrow> busy service departures available now'"
  unfolding busy_def by fastforce

lemma div_less_of_mult:
  assumes "0 < (s :: int)"
  shows "x div s < n \<longleftrightarrow> x < n * s"
proof -
  have "x div s < n \<longleftrightarrow> x div s \<le> n - 1" by linarith
  also have "\<dots> \<longleftrightarrow> x < n * s"
    using assms div_mult_mod_eq [of x s] pos_mod_bound [OF assms, of x] pos_mod_sign [OF assms, of x]
    by (smt (verit, ccfv_SIG) div_pos_geq mult_less_cancel_right zdiv_mono1 nonzero_mult_div_cancel_right)
  finally show ?thesis .
qed

lemma ceil_div:
  assumes "0 < (s :: int)"
  shows "(n * s - x + s - 1) div s = n - x div s"
proof -
  have shifted: "n * s - x + s - 1 = (s - 1 - x mod s) + (n - x div s) * s"
    using div_mult_mod_eq [of x s] by (simp add: algebra_simps)
  have "(s - 1 - x mod s) div s = 0"
    using pos_mod_bound [OF assms, of x] pos_mod_sign [OF assms, of x]
    by (intro div_pos_pos_trivial) linarith+
  with assms show ?thesis unfolding shifted by (subst div_mult_self1) simp_all
qed

lemma count_spaced:
  assumes "0 < service" "b \<le> a"
  shows "int (length (filter (\<lambda>d. a < d) (map (\<lambda>j. b + (int j + 1) * service) [0..<k]))) =
    max 0 (int k - (a - b) div service)"
proof (induction k)
  case 0
  show ?case using assms by (simp add: pos_imp_zdiv_nonneg_iff)
next
  case (Suc k)
  have "a < b + (int k + 1) * service \<longleftrightarrow> (a - b) div service < int k + 1"
    using div_less_of_mult [OF assms(1), of "a - b" "int k + 1"] by linarith
  with Suc show ?case by (auto simp: max_def)
qed

lemma outstanding_counts:
  assumes "0 < service" "busy service departures available now"
  shows "outstanding_jobs service available now = Inr (int (length (filter (\<lambda>d. now < d) departures)))"
proof -
  obtain b k old where busy: "departures = old @ map (\<lambda>j. b + (int j + 1) * service) [0..<k]"
    "available = b + int k * service" "\<forall>d\<in>set old. d \<le> b" "b \<le> now"
    using assms(2) unfolding busy_def by blast
  have "filter (\<lambda>d. now < d) old = []" using busy(3,4) by (auto simp: filter_empty_conv)
  then have count: "int (length (filter (\<lambda>d. now < d) departures)) = max 0 (int k - (now - b) div service)"
    using count_spaced [OF assms(1) busy(4), of k] by (simp add: busy(1))
  show ?thesis
  proof (cases "available \<le> now")
    case True
    then have "int k * service \<le> now - b" by (simp add: busy(2))
    then have "\<not> (now - b) div service < int k" using div_less_of_mult [OF assms(1)] by simp
    then show ?thesis using True count by (simp add: outstanding_jobs_def)
  next
    case False
    then have "(now - b) div service < int k" using div_less_of_mult [OF assms(1)] by (simp add: busy(2))
    moreover have "(available - now + service - 1) div service = int k - (now - b) div service"
      using ceil_div [OF assms(1), of "int k" "now - b"] by (simp add: busy(2) algebra_simps)
    ultimately show ?thesis using False count assms(1) by (simp add: outstanding_jobs_def)
  qed
qed

lemma busy_free:
  assumes "busy service departures available now" "0 < service"
  shows "(if departures = [] then now else max now (last departures)) = max available now"
proof -
  obtain b k old where busy: "departures = old @ map (\<lambda>j. b + (int j + 1) * service) [0..<k]"
    "available = b + int k * service" "0 \<le> b" "b \<le> now" "k = 0 \<longrightarrow> old = [] \<and> b = 0"
    using assms(1) unfolding busy_def by blast
  then show ?thesis by (cases k) (simp_all add: algebra_simps max.commute)
qed

lemma busy_accept:
  assumes "busy service departures available now" "0 < service"
  shows "busy service (departures @ [max available now + service]) (max available now + service) now"
proof -
  obtain b k old where busy: "departures = old @ map (\<lambda>j. b + (int j + 1) * service) [0..<k]"
    "available = b + int k * service" "\<forall>d\<in>set old. d \<le> b" "0 \<le> b" "b \<le> now"
    using assms(1) unfolding busy_def by blast
  show ?thesis
  proof (cases "available \<le> now")
    case True
    have "\<forall>d\<in>set departures. d \<le> now"
    proof
      fix d assume "d \<in> set departures"
      then consider "d \<in> set old" | j where "j < k" "d = b + (int j + 1) * service" by (auto simp: busy(1))
      then show "d \<le> now"
      proof cases
        case (2 j)
        then have "(int j + 1) * service \<le> int k * service" using assms(2) by (intro mult_right_mono) simp_all
        then show ?thesis using 2 True by (simp add: busy(2))
      qed (use busy(3,5) in auto)
    qed
    then show ?thesis
      unfolding busy_def using True busy(4,5)
      by (intro exI [of _ now] exI [of _ 1] exI [of _ departures]) (simp add: max_def)
  next
    case False
    then have "max available now + service = b + (int k + 1) * service" by (simp add: busy(2) algebra_simps)
    then show ?thesis
      unfolding busy_def using busy
      by (intro exI [of _ b] exI [of _ "Suc k"] exI [of _ old]) (simp add: algebra_simps)
  qed
qed

lemma occupancy_after:
  assumes "0 < service" "outstanding_jobs service available now = Inr n"
  shows "(max available now + service - now + service - 1) div service = n + 1"
proof (cases "available \<le> now")
  case True
  have "(2 * service - 1) div service = 1"
    using ceil_div [OF assms(1), of 1 0] by (simp add: algebra_simps)
  then show ?thesis using True assms by (simp add: outstanding_jobs_def max_def algebra_simps)
next
  case False
  have "(available - now + service - 1 + service) div service = (available - now + service - 1) div service + 1"
    using assms(1) by (intro div_add_self2) simp
  then show ?thesis using False assms by (simp add: outstanding_jobs_def max_def algebra_simps)
qed

section \<open>The loop is the queue\<close>

definition scaled :: "int \<Rightarrow> int list \<Rightarrow> int list" where
  "scaled clock_hz = map (\<lambda>t. t * clock_hz)"

lemma close_busy_ok: "0 < clock_hz \<Longrightarrow> \<exists>longest'. close_busy clock_hz s e longest = Inr longest'"
  by (auto simp: close_busy_def split: option.split)

lemma depth_step_ok:
  assumes "0 < service" "0 < clock_hz"
    and "busy service departures (dl_server_available b) (t * clock_hz)"
  defines "present \<equiv> int (length (filter (\<lambda>d. t * clock_hz < d) departures))"
  shows "\<exists>b'. depth_step depth service clock_hz b t = Inr b' \<and>
    (if queue_full depth present
     then dl_occupancies b' = dl_occupancies b @ [present] \<and> dl_overflow b' = dl_overflow b + 1 \<and>
       dl_server_available b' = dl_server_available b
     else dl_occupancies b' = dl_occupancies b @ [present + 1] \<and> dl_overflow b' = dl_overflow b \<and>
       dl_server_available b' = max (dl_server_available b) (t * clock_hz) + service)"
proof -
  have out: "outstanding_jobs service (dl_server_available b) (t * clock_hz) = Inr present"
    using outstanding_counts [OF assms(1,3)] by (simp add: present_def)
  note after = occupancy_after [OF assms(1) out]
  obtain longest where
    "close_busy clock_hz (dl_busy_start b) (dl_current_busy_end b) (dl_longest_busy b) = Inr longest"
    using close_busy_ok [OF assms(2)] by blast
  with out after assms(1) show ?thesis
    by (cases "dl_server_available b \<le> t * clock_hz") (simp_all add: depth_step_def Let_def max_def)
qed

lemma depth_loop_fifo:
  assumes "0 < service" "0 < clock_hz"
  shows "busy service departures (dl_server_available b) now \<Longrightarrow> sorted ts \<Longrightarrow> \<forall>t\<in>set ts. now \<le> t * clock_hz \<Longrightarrow>
    \<exists>b'. fold_result (depth_step depth service clock_hz) b ts = Inr b' \<and>
      dl_occupancies b' = dl_occupancies b @ map fst (fifo_run depth service departures (scaled clock_hz ts)) \<and>
      dl_overflow b' = dl_overflow b + jobs_lost (fifo_run depth service departures (scaled clock_hz ts))"
proof (induction ts arbitrary: b departures now)
  case Nil
  then show ?case by (simp add: scaled_def)
next
  case (Cons t ts)
  let ?a = "t * clock_hz" let ?present = "int (length (filter (\<lambda>d. ?a < d) departures))"
  have busy: "busy service departures (dl_server_available b) ?a"
    using busy_later [OF Cons.prems(1)] Cons.prems(3) by simp
  have later: "\<forall>u\<in>set ts. ?a \<le> u * clock_hz" "sorted ts"
    using Cons.prems(2) assms(2) by (auto intro: mult_right_mono)
  from depth_step_ok [OF assms busy, of depth] obtain b' where
    b': "depth_step depth service clock_hz b t = Inr b'"
    and step: "if queue_full depth ?present
     then dl_occupancies b' = dl_occupancies b @ [?present] \<and> dl_overflow b' = dl_overflow b + 1 \<and>
       dl_server_available b' = dl_server_available b
     else dl_occupancies b' = dl_occupancies b @ [?present + 1] \<and> dl_overflow b' = dl_overflow b \<and>
       dl_server_available b' = max (dl_server_available b) ?a + service" by blast
  show ?case
  proof (cases "queue_full depth ?present")
    case True
    with step have "busy service departures (dl_server_available b') ?a" using busy by simp
    from Cons.IH [OF this later(2,1)] True step show ?thesis by (auto simp: b' scaled_def Let_def)
  next
    case False
    let ?departures = "departures @ [(if departures = [] then ?a else max ?a (last departures)) + service]"
    have "busy service ?departures (dl_server_available b') ?a"
      using False step busy_accept [OF busy assms(1)] busy_free [OF busy assms(1)] by simp
    from Cons.IH [OF this later(2,1)] False step show ?thesis by (auto simp: b' scaled_def Let_def)
  qed
qed

lemma depth_report_fields:
  "cr_overflow_events (depth_report rnd t longest available b) = dl_overflow b"
  "cr_max_occupancy (depth_report rnd t longest available b) =
     (case extreme_of max (map of_int (dl_occupancies b)) of None \<Rightarrow> 0 | Some x \<Rightarrow> x)"
  by (simp_all only: depth_report_def Let_def capacity_report.simps)

lemma depth_run:
  assumes "0 < service" "0 < clock_hz" "sorted ts" "\<forall>t\<in>set ts. 0 \<le> t"
  shows "\<exists>b. fold_result (depth_step depth service clock_hz) depth_start ts = Inr b \<and>
    dl_occupancies b = map fst (fifo_run depth service [] (scaled clock_hz ts)) \<and>
    dl_overflow b = jobs_lost (fifo_run depth service [] (scaled clock_hz ts))"
  using depth_loop_fifo [OF assms(1,2), of "[]" depth_start 0 ts depth] busy_start [of 0 service] assms(2-4)
  by (simp add: depth_start_def)

lemma length_fifo_run [simp]: "length (fifo_run depth service departures as) = length as"
  by (induction as arbitrary: departures) (simp_all add: Let_def)

lemma extreme_max: "(xs :: 'a::linorder list) \<noteq> [] \<Longrightarrow> extreme_of max xs = Some (Max (set xs))"
proof (cases xs)
  case (Cons v vs)
  have "max s x = max x s" for s x :: 'a by (rule max.commute)
  then have "foldl max v vs = fold max vs v" by (simp add: foldl_conv_fold)
  then show ?thesis using Cons Max.set_eq_fold [of v vs] by (simp add: extreme_of_def)
qed simp

lemma extreme_max_int:
  "xs \<noteq> [] \<Longrightarrow> extreme_of max (map rat_of_int xs) = Some (rat_of_int (Max (set xs)))"
  by (simp add: extreme_max mono_Max_commute [of rat_of_int "set xs"] mono_def)

text \<open>
  C9: The capacity simulation is a queue: for arrival times that are not negative and in order, it
  returns, its overflow count is the number of jobs a first-in first-out server with that queue
  depth loses, and its maximum occupancy is the largest number of jobs in that system, which never
  exceeds the depth; without a depth nothing is lost.
\<close>

theorem capacity_is_fifo_queue:
  fixes depth :: "int option"
  assumes "0 < service" "0 < clock_hz" "sorted ts" "\<forall>t\<in>set ts. 0 \<le> t" "ts \<noteq> []"
  defines "run \<equiv> fifo_run depth service [] (map (\<lambda>t. t * clock_hz) ts)"
  shows "\<exists>r. simulate_depth rnd ts depth service clock_hz = Inr r \<and>
    cr_overflow_events r = int (length (filter (\<lambda>(_, accepted). \<not> accepted) run)) \<and>
    cr_max_occupancy r = of_int (Max (fst ` set run)) \<and>
    (case depth of None \<Rightarrow> cr_overflow_events r = 0
     | Some d \<Rightarrow> 0 \<le> d \<longrightarrow> cr_max_occupancy r \<le> of_int d)"
proof -
  have run: "run = fifo_run depth service [] (scaled clock_hz ts)" by (simp add: run_def scaled_def)
  obtain b where b: "fold_result (depth_step depth service clock_hz) depth_start ts = Inr b"
    "dl_occupancies b = map fst run" "dl_overflow b = jobs_lost run"
    using depth_run [OF assms(1-4), of depth] unfolding run by blast
  obtain longest where
    "close_busy clock_hz (dl_busy_start b) (dl_current_busy_end b) (dl_longest_busy b) = Inr longest"
    using close_busy_ok [OF assms(2)] by blast
  then have report: "simulate_depth rnd ts depth service clock_hz =
      Inr (depth_report rnd (last ts) longest (dl_server_available b div clock_hz) b)"
    using assms(2,5) b(1) by (simp add: simulate_depth_def)
  define r where "r = depth_report rnd (last ts) longest (dl_server_available b div clock_hz) b"
  have r: "cr_overflow_events r = jobs_lost run"
    "cr_max_occupancy r = (case extreme_of max (map of_int (map fst run)) of None \<Rightarrow> 0 | Some x \<Rightarrow> x)"
    unfolding r_def depth_report_fields b(2,3) by (rule refl)+
  have "length run = length ts" by (simp add: run scaled_def)
  then have "run \<noteq> []" using assms(5) by auto
  then have top: "cr_max_occupancy r = of_int (Max (fst ` set run))"
    using extreme_max_int [of "map fst run"] r(2) by simp
  have "(case depth of None \<Rightarrow> jobs_lost run = 0 | Some d \<Rightarrow> 0 \<le> d \<longrightarrow> Max (fst ` set run) \<le> d)"
  proof (cases depth)
    case None
    have "jobs_lost (fifo_run None service departures as) = 0" for departures as
      by (induction as arbitrary: departures) (simp_all add: Let_def queue_full_def)
    then show ?thesis using None by (simp add: run)
  next
    case (Some d)
    have "sorted (scaled clock_hz ts)"
      using assms(2,3) by (auto simp: scaled_def sorted_map intro: sorted_wrt_mono_rel mult_right_mono)
    then have "0 \<le> d \<longrightarrow> (\<forall>(w, ok)\<in>set run. w \<le> d)"
      using fifo_run_depth [of _ _ d service "[]" "scaled clock_hz ts"] by (auto simp: run Some)
    then show ?thesis using Some \<open>run \<noteq> []\<close> by (auto simp: Max_le_iff)
  qed
  then show ?thesis
    unfolding report r_def [symmetric]
    by (intro exI [of _ r] conjI) (simp_all add: r(1) top jobs_lost_def [symmetric] split: option.splits)
qed

end
