(* ===== verification/Arrival_Streams.thy ===== *)
theory Arrival_Streams
  imports Arrival_Correct
begin

text \<open>
  The streaming capacity analysis gives the report of the one over a sorted list, as long as its
  bounded sample holds every observation.
\<close>

section \<open>One queue\<close>

text \<open>The state of the stream and the variables of the loop, after the times \<open>ts\<close>.\<close>

definition capacity_rel ::
  "(rat \<Rightarrow> rat) \<Rightarrow> int option \<Rightarrow> int \<Rightarrow> int \<Rightarrow> int list \<Rightarrow> capacity_state \<Rightarrow> depth_loop \<Rightarrow> bool" where
  "capacity_rel rnd depth service clock_hz ts s b \<longleftrightarrow>
     ca_depth s = depth \<and> ca_service_num s = service \<and> ca_clock_hz s = clock_hz \<and>
     ca_server_available s = dl_server_available b \<and> ca_overflow s = dl_overflow b \<and>
     ca_busy_start s = dl_busy_start b \<and> ca_longest_busy s = dl_longest_busy b \<and>
     ca_current_busy_end s = dl_current_busy_end b \<and>
     ca_last_timestamp s = (if ts = [] then None else Some (last ts)) \<and>
     online_of rnd 100000 (map of_int (dl_occupancies b)) (ca_occupancies s)"

lemma capacity_rel_init: "capacity_rel rnd depth service clock_hz [] (capacity_init depth service clock_hz) depth_start"
  using online_of_init [of rnd 100000] by (simp add: capacity_rel_def capacity_init_def depth_start_def)

lemma capacity_rel_step:
  assumes "capacity_rel rnd depth service clock_hz ts s b" "depth_step depth service clock_hz b t = Inr b'"
  shows "\<exists>s'. capacity_observe rnd s t = Inr s' \<and> capacity_rel rnd depth service clock_hz (ts @ [t]) s' b'"
proof -
  note rel = assms(1) [unfolded capacity_rel_def]
  have add: "\<exists>occ. online_add rnd (of_int n) (ca_occupancies s) = Inr occ \<and>
      online_of rnd 100000 (map of_int (dl_occupancies b @ [n])) occ" for n
    using online_add_ok [of 100000 rnd "map of_int (dl_occupancies b)" "ca_occupancies s" "of_int n"] rel by simp
  let ?a = "t * clock_hz"
  show ?thesis
  proof (cases "dl_server_available b \<le> ?a")
    case True
    then obtain longest where longest:
      "close_busy clock_hz (dl_busy_start b) (dl_current_busy_end b) (dl_longest_busy b) = Inr longest"
      using assms(2) by (auto simp: depth_step_def Let_def rbind_eq_Inr)
    show ?thesis
    proof (cases "queue_full depth 0")
      case full: True
      from add [of 0] show ?thesis
        using assms(2) True longest full rel
        by (auto simp: depth_step_def capacity_observe_def capacity_rel_def Let_def outstanding_jobs_def)
    next
      case room: False
      then obtain n where n: "int_floordiv (2 * service - 1) service = Inr n"
        using assms(2) True longest
        by (auto simp: depth_step_def Let_def outstanding_jobs_def rbind_eq_Inr max_def algebra_simps)
      from add [of n] show ?thesis
        using assms(2) True longest room rel n
        by (auto simp: depth_step_def capacity_observe_def capacity_rel_def Let_def outstanding_jobs_def
            max_def algebra_simps)
    qed
  next
    case False
    then have avail: "max (dl_server_available b) ?a = dl_server_available b" by simp
    obtain out where out: "int_floordiv (dl_server_available b - ?a + service - 1) service = Inr out"
      using assms(2) False by (auto simp: depth_step_def Let_def outstanding_jobs_def rbind_eq_Inr)
    show ?thesis
    proof (cases "queue_full depth out")
      case full: True
      from add [of out] show ?thesis
        using assms(2) False out full rel
        by (auto simp: depth_step_def capacity_observe_def capacity_rel_def Let_def outstanding_jobs_def)
    next
      case room: False
      then obtain n where n: "int_floordiv (dl_server_available b + service - ?a + service - 1) service = Inr n"
        using assms(2) False out
        by (auto simp: depth_step_def Let_def outstanding_jobs_def rbind_eq_Inr avail)
      from add [of n] show ?thesis
        using assms(2) False room rel n out
        by (auto simp: depth_step_def capacity_observe_def capacity_rel_def Let_def outstanding_jobs_def avail)
    qed
  qed
qed

lemma capacity_rel_fold:
  assumes "capacity_rel rnd depth service clock_hz ts s b"
    and "fold_result (depth_step depth service clock_hz) b us = Inr b'"
  shows "\<exists>s'. fold_result (capacity_observe rnd) s us = Inr s' \<and>
    capacity_rel rnd depth service clock_hz (ts @ us) s' b'"
  using assms
proof (induction us arbitrary: ts s b)
  case Nil
  then show ?case by simp
next
  case (Cons u us)
  then obtain b1 where b1: "depth_step depth service clock_hz b u = Inr b1"
    "fold_result (depth_step depth service clock_hz) b1 us = Inr b'"
    by (auto simp: rbind_eq_Inr)
  from capacity_rel_step [OF Cons.prems(1) b1(1)] obtain s1 where
    s1: "capacity_observe rnd s u = Inr s1" "capacity_rel rnd depth service clock_hz (ts @ [u]) s1 b1" by blast
  from Cons.IH [OF s1(2) b1(2)] s1(1) show ?case by auto
qed

section \<open>The reports\<close>

text \<open>Sums of small non-negative integers are exact in floats.\<close>

context float_rounding
begin

lemma exact_total:
  assumes "0 \<le> acc" "acc + m * int (length ns) \<le> 2 ^ 53" "\<forall>n\<in>set ns. 0 \<le> n \<and> n \<le> m" "0 \<le> m" "m \<le> 2 ^ 53"
  shows "foldl (\<lambda>t v. rnd (t + rnd v)) (of_int acc) (map of_int ns) = of_int (acc + sum_list ns)"
  using assms
proof (induction ns arbitrary: acc)
  case Nil
  then show ?case by simp
next
  case (Cons n ns)
  have step: "acc + n + m * int (length ns) \<le> 2 ^ 53" and n: "0 \<le> n" "n \<le> m"
    using Cons.prems by (auto simp: distrib_left)
  have "0 \<le> m * int (length ns)" using Cons.prems(4) by simp
  with step have "\<bar>acc + n\<bar> \<le> 2 ^ 53" using Cons.prems(1) n by linarith
  moreover have "\<bar>n\<bar> \<le> 2 ^ 53" using n Cons.prems(5) by linarith
  ultimately have "rnd (of_int acc + rnd (of_int n)) = of_int (acc + n)"
    using rnd_int [of n] rnd_int [of "acc + n"] by simp
  then show ?case using Cons.IH [of "acc + n"] Cons.prems step n by simp
qed

text \<open>While the sample holds every value, the streaming report is the batch report.\<close>

lemma state_report_eq:
  assumes rel: "capacity_rel rnd depth service clock_hz ts s b"
    and occs: "length (dl_occupancies b) = length ts" "length ts \<le> 100000"
      "\<forall>n\<in>set (dl_occupancies b). 0 \<le> n \<and> n \<le> int (length ts)" and "ts \<noteq> []"
  shows "state_report rnd longest available s = depth_report rnd (last ts) longest available b"
proof -
  let ?occs = "map rat_of_int (dl_occupancies b)"
  have online: "online_of rnd 100000 ?occs (ca_occupancies s)" using rel by (simp add: capacity_rel_def)
  have n: "int (length ts) * int (length ts) \<le> 100000 * 100000" using occs(2) by (intro mult_mono) simp_all
  have "on_total (ca_occupancies s) = of_int (sum_list (dl_occupancies b))"
    using online exact_total [of 0 "int (length ts)" "dl_occupancies b"] occs n
    by (simp add: online_of_def)
  moreover have "rnd (of_int (int (length ts))) = of_int (int (length ts))"
    using occs(2) by (intro rnd_int) simp
  moreover have "rat_of_int (sum_list ns) = sum_list (map rat_of_int ns)" for ns by (induction ns) simp_all
  ultimately have "rnd (on_total (ca_occupancies s) / rnd (of_int (on_count (ca_occupancies s)))) = mean_of rnd ?occs"
    using online occs(1) by (simp add: online_of_def mean_of_def)
  also have "mean_of rnd ?occs = int_mean_of rnd ?occs" using occs(2,3) by (intro int_mean_small [symmetric]) fastforce
  finally have mean: "rnd (on_total (ca_occupancies s) / rnd (of_int (on_count (ca_occupancies s)))) = int_mean_of rnd ?occs" .
  have "?occs \<noteq> []" "on_count (ca_occupancies s) \<noteq> 0" "on_sample (ca_occupancies s) = ?occs"
    "on_maximum (ca_occupancies s) = extreme_of max ?occs"
    using online occs(1,2) \<open>ts \<noteq> []\<close> by (auto simp: online_of_def)
  then show ?thesis
    using rel \<open>ts \<noteq> []\<close> mean
    by (simp add: state_report_def depth_report_def Let_def online_dict_def distribution_def capacity_rel_def
        extreme_of_def)
qed

lemma one_queue_agrees:
  assumes "0 < service" "0 < clock_hz" "sorted ts" "\<forall>t\<in>set ts. 0 \<le> t" "length ts \<le> 100000"
  shows "\<exists>s. fold_result (capacity_observe rnd) (capacity_init depth service clock_hz) ts = Inr s \<and>
    rbind (capacity_dict rnd s) (\<lambda>(r, _). Inr r) = simulate_depth rnd ts depth service clock_hz"
proof -
  let ?run = "fifo_run depth service [] (scaled clock_hz ts)"
  obtain b where b: "fold_result (depth_step depth service clock_hz) depth_start ts = Inr b"
    "dl_occupancies b = map fst ?run"
    using depth_run [OF assms(1-4), of depth] by blast
  from capacity_rel_fold [OF capacity_rel_init b(1), of rnd] obtain s where
    s: "fold_result (capacity_observe rnd) (capacity_init depth service clock_hz) ts = Inr s"
      "capacity_rel rnd depth service clock_hz ts s b" by auto
  obtain longest where longest:
    "close_busy clock_hz (dl_busy_start b) (dl_current_busy_end b) (dl_longest_busy b) = Inr longest"
    using close_busy_ok [OF assms(2)] by blast
  have dict: "capacity_dict rnd s = Inr (state_report rnd longest (dl_server_available b div clock_hz) s,
      s\<lparr>ca_longest_busy := longest\<rparr>)"
    using s(2) longest assms(2) by (simp add: capacity_dict_def capacity_rel_def)
  have "rbind (capacity_dict rnd s) (\<lambda>(r, _). Inr r) = simulate_depth rnd ts depth service clock_hz"
  proof (cases "ts = []")
    case True
    have "s = capacity_init depth service clock_hz" using s(1) True by simp
    then show ?thesis
      using assms(2) True
      by (simp add: simulate_depth_def capacity_dict_def capacity_init_def close_busy_def state_report_def
          online_dict_def online_init_def distribution_def percentile_def Let_def)
  next
    case False
    have "length (dl_occupancies b) = length ts" by (simp add: b(2) scaled_def)
    moreover have "\<forall>n\<in>set (dl_occupancies b). 0 \<le> n \<and> n \<le> int (length ts)"
      using fifo_run_bounds [of _ _ depth service "[]" "scaled clock_hz ts"] by (auto simp: b(2) scaled_def)
    ultimately show ?thesis
      using state_report_eq [OF s(2) _ assms(5) _ False] dict longest b(1) assms(2) False
      by (simp add: simulate_depth_def)
  qed
  with s(1) show ?thesis by blast
qed

end

section \<open>All queues\<close>

lemma map_result_all: "\<forall>x\<in>set xs. f x = Inr (g x) \<Longrightarrow> map_result f xs = Inr (map g xs)"
  by (induction xs) simp_all

lemma observe_all_fold:
  assumes "\<forall>(k, s)\<in>set states. fold_result (capacity_observe rnd) s ts = Inr (final k)" "distinct (map fst states)"
  shows "fold_result (\<lambda>states t. observe_all rnd states t) states ts = Inr (map (\<lambda>(k, _). (k, final k)) states)"
  using assms
proof (induction ts arbitrary: states)
  case Nil
  then have "map (\<lambda>(k, _). (k, final k)) states = map (\<lambda>x. x) states"
    by (intro map_cong refl) (auto split: prod.splits)
  then show ?case by simp
next
  case (Cons t ts)
  define next_of where "next_of s = (case capacity_observe rnd s t of Inr s' \<Rightarrow> s' | Inl _ \<Rightarrow> s)" for s
  have step: "capacity_observe rnd s t = Inr (next_of s)"
    "fold_result (capacity_observe rnd) (next_of s) ts = Inr (final k)" if "(k, s) \<in> set states" for k s
  proof -
    have "rbind (capacity_observe rnd s t) (\<lambda>s'. fold_result (capacity_observe rnd) s' ts) = Inr (final k)"
      using Cons.prems(1) that by fastforce
    then show "capacity_observe rnd s t = Inr (next_of s)"
      "fold_result (capacity_observe rnd) (next_of s) ts = Inr (final k)"
      by (auto simp: rbind_eq_Inr next_of_def)
  qed
  have "observe_all rnd states t = Inr (map (\<lambda>(k, s). (k, next_of s)) states)"
    unfolding observe_all_def by (rule map_result_all) (use step(1) in \<open>auto split: prod.splits\<close>)
  moreover have "fold_result (\<lambda>states t. observe_all rnd states t) (map (\<lambda>(k, s). (k, next_of s)) states) ts =
      Inr (map (\<lambda>(k, _). (k, final k)) (map (\<lambda>(k, s). (k, next_of s)) states))"
    by (rule Cons.IH) (use step(2) Cons.prems(2) in \<open>auto simp: o_def case_prod_unfold\<close>)
  ultimately show ?case by (simp add: o_def case_prod_unfold)
qed

lemma fold_observe_events:
  "fold_result (\<lambda>states e. observe_all rnd states (ne_timestamp_ns e)) states events =
     fold_result (\<lambda>states t. observe_all rnd states t) states (map ne_timestamp_ns events)"
  by (induction events arbitrary: states) simp_all

lemma capacity_states_map:
  "distinct (map fst (capacity_states service clock_hz depths))"
  "map_of (capacity_states service clock_hz depths) k =
     (if k \<in> insert None (Some ` set depths) then Some (capacity_init k service clock_hz) else None)"
proof -
  let ?fold = "foldl (\<lambda>d depth. AList.update (Some depth) (capacity_init (Some depth) service clock_hz) d)"
  have d: "distinct (map fst acc) \<Longrightarrow> distinct (map fst (?fold acc depths))" for acc
    by (induction depths arbitrary: acc) (simp_all add: distinct_update)
  show "distinct (map fst (capacity_states service clock_hz depths))"
    unfolding capacity_states_def by (intro distinct_update d) simp
  have m: "map_of (?fold acc depths) k =
      (if k \<in> Some ` set depths then Some (capacity_init k service clock_hz) else map_of acc k)" for acc
    by (induction depths arbitrary: acc) (auto simp: update_conv')
  show "map_of (capacity_states service clock_hz depths) k =
     (if k \<in> insert None (Some ` set depths) then Some (capacity_init k service clock_hz) else None)"
    by (simp add: capacity_states_def update_conv' m)
qed

lemma capacity_analysis_cong:
  assumes "\<And>k. k \<in> insert None (Some ` set depths) \<Longrightarrow> f k = g k"
  shows "capacity_analysis_of rnd service_cycles clock_hz depths f = capacity_analysis_of rnd service_cycles clock_hz depths g"
proof -
  have "fold_result (\<lambda>d depth. rbind (f (Some depth)) (\<lambda>r. Inr (AList.update (py_str_int depth) r d))) acc ds =
      fold_result (\<lambda>d depth. rbind (g (Some depth)) (\<lambda>r. Inr (AList.update (py_str_int depth) r d))) acc ds"
    if "set ds \<subseteq> set depths" for acc ds
    using that
  proof (induction ds arbitrary: acc)
    case (Cons k ds)
    then show ?case using assms [of "Some k"] by (cases "g (Some k)") auto
  qed simp
  then show ?thesis using assms [of None] by (simp add: capacity_analysis_of_def)
qed

text \<open>
  C15: The streaming capacity analysis returns the same reports as the one over the whole list, in
  binary64 arithmetic, for events that come in order with times that are not negative, as long as
  there are at most 100000 of them (the size of the sample).
\<close>

theorem capacity_stream_agrees:
  assumes "0 < service_cycles" "0 < clock_hz" "length events \<le> 100000"
    and "sorted (map (\<lambda>e. (ne_timestamp_ns e, ne_source_index e)) events)" "\<forall>e\<in>set events. 0 \<le> ne_timestamp_ns e"
  shows "simulate_serialized_capacity_stream fl64 service_cycles clock_hz depths events =
    simulate_serialized_capacity fl64 service_cycles clock_hz depths events"
proof -
  let ?service = "service_cycles * 1000000000" and ?ts = "map ne_timestamp_ns events"
  have times: "arrival_times events = ?ts" using assms(4) by (simp add: arrival_times_def sort_key_id_if_sorted)
  have "sorted_wrt (\<lambda>x y. ne_timestamp_ns x \<le> ne_timestamp_ns y) events"
  proof (rule sorted_wrt_mono_rel)
    show "sorted_wrt (\<lambda>x y. (ne_timestamp_ns x, ne_source_index x) \<le> (ne_timestamp_ns y, ne_source_index y)) events"
      using assms(4) by (simp only: sorted_map)
  qed (auto simp: less_eq_prod_simp)
  then have "sorted ?ts" by (simp only: sorted_map)
  note agree = binary64.one_queue_agrees [of ?service clock_hz ?ts, OF _ assms(2) this]
  define final where "final k =
    (case fold_result (capacity_observe fl64) (capacity_init k ?service clock_hz) ?ts of Inr s \<Rightarrow> s | Inl _ \<Rightarrow>
       capacity_init k ?service clock_hz)" for k
  have final: "fold_result (capacity_observe fl64) (capacity_init k ?service clock_hz) ?ts = Inr (final k)"
    "rbind (capacity_dict fl64 (final k)) (\<lambda>(r, _). Inr r) = simulate_depth fl64 ?ts k ?service clock_hz" for k
  proof -
    have "0 < ?service" "\<forall>t\<in>set ?ts. 0 \<le> t" "length ?ts \<le> 100000" using assms(1,3,5) by simp_all
    from agree [OF this, of k] obtain s where
      s: "fold_result (capacity_observe fl64) (capacity_init k ?service clock_hz) ?ts = Inr s"
        "rbind (capacity_dict fl64 s) (\<lambda>(r, _). Inr r) = simulate_depth fl64 ?ts k ?service clock_hz"
      by blast
    have "final k = s" by (simp only: final_def s(1) sum.case)
    with s show "fold_result (capacity_observe fl64) (capacity_init k ?service clock_hz) ?ts = Inr (final k)"
      "rbind (capacity_dict fl64 (final k)) (\<lambda>(r, _). Inr r) = simulate_depth fl64 ?ts k ?service clock_hz"
      by (simp_all only:)
  qed
  let ?states = "capacity_states ?service clock_hz depths"
  let ?result = "map (\<lambda>(k, _). (k, final k)) ?states"
  have init: "s = capacity_init k ?service clock_hz" if "(k, s) \<in> set ?states" for k s
    using map_of_is_SomeI [OF capacity_states_map(1) that] by (simp add: capacity_states_map(2) split: if_splits)
  have "fold_result (\<lambda>states t. observe_all fl64 states t) ?states ?ts = Inr ?result"
    by (rule observe_all_fold) (use init final(1) capacity_states_map(1) in auto)
  then have "simulate_serialized_capacity_stream fl64 service_cycles clock_hz depths events =
      capacity_analysis_of fl64 service_cycles clock_hz depths (capacity_report_of fl64 ?result)"
    unfolding simulate_serialized_capacity_stream_def fold_observe_events by simp
  also have "\<dots> = simulate_serialized_capacity fl64 service_cycles clock_hz depths events"
    unfolding simulate_serialized_capacity_def times
  proof (rule capacity_analysis_cong)
    fix k assume k: "k \<in> insert None (Some ` set depths)"
    have "map_of (map (\<lambda>(k, _). (k, final k)) st) k = map_option (\<lambda>_. final k) (map_of st k)"
      for st :: "(int option \<times> capacity_state) list" by (induction st) auto
    then show "capacity_report_of fl64 ?result k = simulate_depth fl64 ?ts k ?service clock_hz"
      using k final(2) [of k] by (simp add: capacity_report_of_def capacity_states_map(2))
  qed
  finally show ?thesis .
qed

section \<open>A burst\<close>

definition arrival_event :: "int \<Rightarrow> normalized_event" where
  "arrival_event ts =
     \<lparr>ne_timestamp_ns = ts, ne_event_type = 1, ne_symbol_id = 0, ne_price = 1, ne_quantity = 1, ne_side = 0,
      ne_sequence = None, ne_flags = 0, ne_source_index = ts, ne_source = []\<rparr>"

theorem capacity_stream_agrees_witness:
  "simulate_serialized_capacity_stream fl64 536 27000000 [1, 2] (map arrival_event [5, 5, 9]) =
   simulate_serialized_capacity fl64 536 27000000 [1, 2] (map arrival_event [5, 5, 9])"
  by (rule capacity_stream_agrees) (simp_all add: arrival_event_def)

theorem capacity_is_fifo_queue_witness:
  "\<exists>r. simulate_depth fl64 [0, 1, 2, 30] (Some 2) 10 1 = Inr r \<and> cr_overflow_events r = 1 \<and> cr_max_occupancy r = 2"
proof -
  have "fifo_run (Some 2) 10 [] (map (\<lambda>t. t * 1) [0, 1, 2, 30]) = [(1, True), (2, True), (2, False), (1, True)]"
    by code_simp
  then show ?thesis
    using capacity_is_fifo_queue [of 10 1 "[0, 1, 2, 30]" fl64 "Some 2"] by auto
qed

end
