(* ===== verification/Arrival_Resume.thy ===== *)
theory Arrival_Resume
  imports Arrival_Diagnostics Arrival_Streams
begin

text \<open>
  The resumable timestamp analysis: interruptions do not change its result, and its report is
  available exactly for the windows that \<open>finalize\<close> knows.
\<close>

section \<open>Prefix checkpoints\<close>

text \<open>The state after the first \<open>k\<close> events of the stream, when every event up to the last is observed.\<close>

definition state_after ::
  "(rat \<Rightarrow> rat) \<Rightarrow> diagnostic_state \<Rightarrow> normalized_event list \<Rightarrow> nat \<Rightarrow> diagnostic_state \<Rightarrow> bool" where
  "state_after rnd fresh events k s \<longleftrightarrow>
     k \<le> length events \<and> fold_result (diagnostic_observe rnd) fresh (take k events) = Inr s"

text \<open>A store from which nothing is resumed, or the state after some of the events.\<close>

definition prefix_store ::
  "(rat \<Rightarrow> rat) \<Rightarrow> diagnostic_state \<Rightarrow> normalized_event list \<Rightarrow> 'i \<Rightarrow> 'i analysis_store \<Rightarrow> bool" where
  "prefix_store rnd fresh events identity store \<longleftrightarrow>
     (case load_checkpoint identity store of None \<Rightarrow> True | Some s \<Rightarrow> \<exists>k. state_after rnd fresh events k s)"

lemma load_written [simp]: "load_checkpoint identity (write_checkpoint identity s store) = Some s"
  by (simp add: load_checkpoint_def write_checkpoint_def)

lemma observe_counts: "diagnostic_observe rnd s e = Inr s' \<Longrightarrow> dg_processed_events s' = dg_processed_events s + 1"
  by (auto simp: diagnostic_observe_def Let_def rbind_eq_Inr)

lemma state_after_processed:
  "state_after rnd fresh events k s \<Longrightarrow> dg_processed_events s = dg_processed_events fresh + int k"
proof (induction k arbitrary: s)
  case 0
  then show ?case by (simp add: state_after_def)
next
  case (Suc k)
  then have "k < length events" by (simp add: state_after_def)
  with Suc.prems obtain s0 where "state_after rnd fresh events k s0" "diagnostic_observe rnd s0 (events ! k) = Inr s"
    by (auto simp: state_after_def take_Suc_conv_app_nth fold_result_append rbind_eq_Inr)
  with Suc.IH observe_counts show ?case by fastforce
qed

lemma state_after_step:
  "state_after rnd fresh events k s \<Longrightarrow> k < length events \<Longrightarrow> diagnostic_observe rnd s (events ! k) = Inr s' \<Longrightarrow>
     state_after rnd fresh events (Suc k) s'"
  by (simp add: state_after_def take_Suc_conv_app_nth fold_result_append)

text \<open>With every event observable, the loop reaches the state after its events, and stores prefixes.\<close>

lemma analysis_loop_result:
  assumes "fold_result (diagnostic_observe rnd) fresh events = Inr final"
  shows "state_after rnd fresh events k s \<Longrightarrow> k \<le> m \<Longrightarrow> m \<le> length events \<Longrightarrow>
    prefix_store rnd fresh events identity store \<Longrightarrow>
    \<exists>s' store'. state_after rnd fresh events m s' \<and> prefix_store rnd fresh events identity store' \<and>
      analysis_loop rnd torn interval identity (drop k (take m events)) failure since s store =
        (case failure of None \<Rightarrow> (Inr s', store') | Some e \<Rightarrow> (Inl e, write_checkpoint identity s' store'))"
proof (induction "m - k" arbitrary: k s since store)
  case 0
  then show ?case by (auto split: option.split)
next
  case (Suc d)
  then have k: "k < m" "k < length events" by simp_all
  have "fold_result (diagnostic_observe rnd) fresh (take k events @ events ! k # drop (Suc k) events) = Inr final"
    using assms id_take_nth_drop [OF k(2)] by simp
  then obtain s1 where s1: "diagnostic_observe rnd s (events ! k) = Inr s1"
    using Suc.prems(1) by (auto simp: state_after_def fold_result_append rbind_eq_Inr)
  have after: "state_after rnd fresh events (Suc k) s1" by (rule state_after_step [OF Suc.prems(1) k(2) s1])
  have rest: "drop k (take m events) = events ! k # drop (Suc k) (take m events)"
    using k by (metis Cons_nth_drop_Suc length_take min_less_iff_conj nth_take)
  have stored: "prefix_store rnd fresh events identity (write_checkpoint identity s1 store)"
    using after by (auto simp: prefix_store_def)
  have d: "d = m - Suc k" using Suc.hyps(2) by simp
  show ?case
    using Suc.hyps(1) [OF d after _ Suc.prems(3) stored, of "dg_processed_events s1"]
      Suc.hyps(1) [OF d after _ Suc.prems(3,4), of since] k
    by (simp add: rest s1)
qed

text \<open>
  C19: Interruptions are harmless: when every event can be observed, a pass whose source fails after
  any number of events raises that exception and leaves a checkpoint from which a later pass over
  the whole source, by the same input identity, gives the report of an uninterrupted pass; this
  holds again from every store that such interruptions have left.
\<close>

theorem interrupted_analysis_resumes:
  assumes "fold_result (diagnostic_observe rnd) fresh events = Inr final" "dg_processed_events fresh = 0"
    and "prefix_store rnd fresh events identity store"
    and "combined_timestamp_analysis rnd torn interval fresh identity
      (\<lambda>n. (drop (nat n) (take m events), Some failure)) store = (outcome, store')"
  shows "outcome = Inl failure \<and> prefix_store rnd fresh events identity store' \<and>
    fst (combined_timestamp_analysis rnd torn interval fresh identity (\<lambda>n. (drop (nat n) events, None)) store') =
      diagnostic_dict rnd final"
proof -
  define start where "start st = (case load_checkpoint identity st of None \<Rightarrow> fresh | Some s \<Rightarrow> s)" for st
  have fresh: "state_after rnd fresh events 0 fresh" by (simp add: state_after_def)
  have starts: "\<exists>k. state_after rnd fresh events k (start st) \<and> dg_processed_events (start st) = int k"
    if "prefix_store rnd fresh events identity st" for st
  proof -
    have "\<exists>k. state_after rnd fresh events k (start st)"
    proof (cases "load_checkpoint identity st")
      case None
      then show ?thesis using fresh by (auto simp: start_def)
    next
      case (Some s)
      then show ?thesis using that by (simp add: prefix_store_def start_def)
    qed
    with state_after_processed assms(2) show ?thesis by fastforce
  qed
  obtain k where k: "state_after rnd fresh events k (start store)" "dg_processed_events (start store) = int k"
    using starts [OF assms(3)] by blast
  define n where "n = max k (min m (length events))"
  have "k \<le> n" "n \<le> length events" using k(1) by (simp_all add: n_def state_after_def)
  from analysis_loop_result [OF assms(1) k(1) this assms(3), of torn interval "Some failure" "int k"] obtain s' st
    where "state_after rnd fresh events n s'"
      "analysis_loop rnd torn interval identity (drop k (take n events)) (Some failure) (int k) (start store) store =
        (Inl failure, write_checkpoint identity s' st)" by auto
  moreover have "drop k (take n events) = drop k (take m events)" by (simp add: n_def drop_take max_def min_def)
  ultimately have loop: "state_after rnd fresh events n s'"
      "analysis_loop rnd torn interval identity (drop k (take m events)) (Some failure) (int k) (start store) store =
        (Inl failure, write_checkpoint identity s' st)" by simp_all
  have first: "outcome = Inl failure" "store' = write_checkpoint identity s' st"
    using assms(4) loop(2) k(2) by (simp_all add: combined_timestamp_analysis_def start_def Let_def)
  have stored: "prefix_store rnd fresh events identity store'" using loop(1) by (auto simp: prefix_store_def first(2))
  obtain j where j: "state_after rnd fresh events j (start store')" "dg_processed_events (start store') = int j"
    using starts [OF stored] by blast
  have "j \<le> length events" using j(1) by (simp add: state_after_def)
  from analysis_loop_result [OF assms(1) j(1) this order_refl stored, of torn interval None "int j"] obtain s2 st2
    where again: "state_after rnd fresh events (length events) s2"
      "analysis_loop rnd torn interval identity (drop j events) None (int j) (start store') store' = (Inr s2, st2)"
    by auto
  have "s2 = final" using again(1) assms(1) by (simp add: state_after_def)
  then have "fst (combined_timestamp_analysis rnd torn interval fresh identity (\<lambda>n. (drop (nat n) events, None)) store') =
      diagnostic_dict rnd final"
    using again(2) j(2)
    by (simp add: combined_timestamp_analysis_def start_def [symmetric] Let_def split: sum.split)
  with first(1) stored show ?thesis by blast
qed

section \<open>When the report is available\<close>

lemma in_set_update: "x \<in> set (AList.update k v al) \<Longrightarrow> x = (k, v) \<or> x \<in> set al"
  by (induction al) (auto split: if_splits)

lemma update_keys: "fst ` set (AList.update k v al) = insert k (fst ` set al)"
  by (induction al) auto

definition rates_inv ::
  "(rat \<Rightarrow> rat) \<Rightarrow> int list \<Rightarrow> ((string \<times> string) \<times> combined_rate) list \<Rightarrow> bool" where
  "rates_inv rnd windows states \<longleftrightarrow>
     (\<forall>x\<in>set states. fst (fst x) \<in> duration_label ` set windows \<and> (\<exists>vals. online_of rnd 10000 vals (cb_stats (snd x))))"

lemma combined_rate_add_ok:
  assumes "window_ns \<noteq> 0" "online_of rnd 10000 vals (cb_stats st)"
  shows "\<exists>stats vals'. combined_rate_add rnd window_ns st = Inr (st\<lparr>cb_stats := stats\<rparr>) \<and> online_of rnd 10000 vals' stats"
proof -
  obtain rate where "rate_of rnd window_ns (cb_count st) = Inr rate"
    using assms(1) by (simp add: rate_of_def)
  moreover obtain stats where "online_add rnd rate (cb_stats st) = Inr stats" "online_of rnd 10000 (vals @ [rate]) stats"
    using online_add_ok [OF _ assms(2), of rate] by auto
  ultimately show ?thesis by (auto simp: combined_rate_add_def)
qed

lemma combined_rate_observe_stats:
  assumes "combined_rate_observe rnd ts window_ns st = Inr st'" "online_of rnd 10000 vals (cb_stats st)"
  shows "\<exists>vals'. online_of rnd 10000 vals' (cb_stats st')"
proof (cases "cb_start st")
  case None
  with assms show ?thesis by (auto simp: combined_rate_observe_def)
next
  case (Some start)
  then have "window_ns \<noteq> 0"
    using assms(1) by (auto simp: combined_rate_observe_def int_floordiv_def split: if_splits)
  from combined_rate_add_ok [OF this assms(2)] assms Some show ?thesis
    by (auto simp: combined_rate_observe_def rbind_eq_Inr split: if_splits)
qed

lemma rate_observe_inv:
  assumes "rates_inv rnd windows states" "rate_observe rnd ts window_ns grp states = Inr states'" "window_ns \<in> set windows"
  shows "rates_inv rnd windows states' \<and> fst ` set states' = insert (duration_label window_ns, grp) (fst ` set states)"
proof -
  let ?key = "(duration_label window_ns, grp)"
  define st where "st = (case map_of states ?key of None \<Rightarrow> combined_rate_create | Some st \<Rightarrow> st)"
  obtain st' where st': "combined_rate_observe rnd ts window_ns st = Inr st'" "states' = AList.update ?key st' states"
    using assms(2) by (auto simp: rate_observe_def st_def rbind_eq_Inr Let_def)
  have "\<exists>vals. online_of rnd 10000 vals (cb_stats st)"
  proof (cases "map_of states ?key")
    case None
    then show ?thesis using online_of_init [of rnd 10000] by (auto simp: st_def combined_rate_create_def)
  next
    case (Some s)
    from map_of_SomeD [OF this] assms(1) show ?thesis by (fastforce simp: st_def Some rates_inv_def)
  qed
  with combined_rate_observe_stats [OF st'(1)] have new: "\<exists>vals. online_of rnd 10000 vals (cb_stats st')" by blast
  have "fst (fst x) \<in> duration_label ` set windows \<and> (\<exists>vals. online_of rnd 10000 vals (cb_stats (snd x)))"
    if "x \<in> set states'" for x
    using in_set_update [OF that [unfolded st'(2)]]
  proof
    assume "x = (?key, st')"
    then show ?thesis using new assms(3) by simp
  next
    assume "x \<in> set states"
    then show ?thesis using assms(1) by (simp add: rates_inv_def)
  qed
  then show ?thesis by (simp add: rates_inv_def st'(2) update_keys)
qed

lemma observe_windows_inv:
  "rates_inv rnd windows states \<Longrightarrow> set ws \<subseteq> set windows \<Longrightarrow>
     fold_result (observe_windows rnd ts symb) states ws = Inr states' \<Longrightarrow>
     rates_inv rnd windows states' \<and> fst ` set states \<subseteq> fst ` set states' \<and>
     (\<forall>w\<in>set ws. (duration_label w, ''combined'') \<in> fst ` set states')"
proof (induction ws arbitrary: states)
  case Nil
  then show ?case by simp
next
  case (Cons w ws)
  then obtain s2 where s2: "observe_windows rnd ts symb states w = Inr s2"
    "fold_result (observe_windows rnd ts symb) s2 ws = Inr states'"
    by (auto simp: rbind_eq_Inr)
  then obtain s1 where s: "rate_observe rnd ts w ''combined'' states = Inr s1"
    "rate_observe rnd ts w (''symbol_'' @ symb) s1 = Inr s2"
    unfolding observe_windows_def rbind_eq_Inr by blast
  have w: "w \<in> set windows" "set ws \<subseteq> set windows" using Cons.prems(2) by auto
  note first = rate_observe_inv [OF Cons.prems(1) s(1) w(1)]
  note second = rate_observe_inv [OF conjunct1 [OF first] s(2) w(1)]
  from Cons.IH [OF conjunct1 [OF second] w(2) s2(2)] first second show ?case by auto
qed

lemma capacity_observe_clock: "capacity_observe rnd s ts = Inr s' \<Longrightarrow> ca_clock_hz s' = ca_clock_hz s"
  by (auto simp: capacity_observe_def Let_def rbind_eq_Inr split: if_splits)

lemma observe_all_keys:
  "observe_all rnd states ts = Inr states' \<Longrightarrow>
     map fst states' = map fst states \<and> map (ca_clock_hz \<circ> snd) states' = map (ca_clock_hz \<circ> snd) states"
  unfolding observe_all_def
proof (induction states arbitrary: states')
  case Nil
  then show ?case by simp
next
  case (Cons x states)
  then show ?case by (cases x) (auto simp: rbind_eq_Inr capacity_observe_clock)
qed

definition diagnostic_inv :: "(rat \<Rightarrow> rat) \<Rightarrow> diagnostic_state \<Rightarrow> diagnostic_state \<Rightarrow> bool" where
  "diagnostic_inv rnd fresh s \<longleftrightarrow>
     dg_windows_ns s = dg_windows_ns fresh \<and> dg_clock_hz s = dg_clock_hz fresh \<and> dg_depths s = dg_depths fresh \<and>
     rates_inv rnd (dg_windows_ns fresh) (dg_rate_states s) \<and>
     (0 < dg_processed_events s \<longrightarrow>
        (\<forall>w\<in>set (dg_windows_ns fresh). (duration_label w, ''combined'') \<in> fst ` set (dg_rate_states s))) \<and>
     map fst (dg_capacity_states s) = map fst (dg_capacity_states fresh) \<and>
     map (ca_clock_hz \<circ> snd) (dg_capacity_states s) = map (ca_clock_hz \<circ> snd) (dg_capacity_states fresh)"

lemma diagnostic_observe_inv:
  assumes "diagnostic_inv rnd fresh s" "diagnostic_observe rnd s e = Inr s'"
  shows "diagnostic_inv rnd fresh s'"
proof -
  let ?ts = "ne_timestamp_ns e" and ?symb = "py_str_int (ne_symbol_id e)"
  obtain rates capacity where
    rates: "fold_result (observe_windows rnd ?ts ?symb) (dg_rate_states s) (dg_windows_ns s) = Inr rates"
    and capacity: "observe_all rnd (dg_capacity_states s) ?ts = Inr capacity"
    and s': "dg_windows_ns s' = dg_windows_ns s" "dg_clock_hz s' = dg_clock_hz s" "dg_depths s' = dg_depths s"
      "dg_rate_states s' = rates" "dg_capacity_states s' = capacity"
    using assms(2) by (auto simp: diagnostic_observe_def Let_def rbind_eq_Inr)
  note inv = assms(1) [unfolded diagnostic_inv_def]
  from rates inv have "fold_result (observe_windows rnd ?ts ?symb) (dg_rate_states s) (dg_windows_ns fresh) = Inr rates"
    by simp
  from observe_windows_inv [OF _ order_refl this] observe_all_keys [OF capacity] inv show ?thesis
    by (simp add: diagnostic_inv_def s')
qed

lemma diagnostic_fold_inv:
  "fold_result (diagnostic_observe rnd) s es = Inr s' \<Longrightarrow> diagnostic_inv rnd fresh s \<Longrightarrow> diagnostic_inv rnd fresh s'"
  by (induction es arbitrary: s) (auto simp: rbind_eq_Inr dest: diagnostic_observe_inv)

lemma diagnostic_init_inv:
  "diagnostic_inv rnd (diagnostic_init windows cycles clock_hz depths) (diagnostic_init windows cycles clock_hz depths)"
  by (simp add: diagnostic_inv_def rates_inv_def) (simp add: diagnostic_init_def)

text \<open>The labels that \<open>finalize\<close> knows are those of the default windows.\<close>

definition default_windows :: "int list" where
  "default_windows = [1000000000, 100000000, 10000000, 1000000]"

lemma window_of_label_duration:
  "window_of_label (duration_label w) = (if w \<in> set default_windows then Inr w else Inl KeyError)"
proof -
  have "py_str_int w @ ''ns'' \<noteq> t @ [CHR ''1'', CHR ''s'']" "py_str_int w @ ''ns'' \<noteq> t @ [CHR ''m'', CHR ''s'']" for t
    by simp_all
  from this(1) [of "[]"] this(2) [of "''100''"] this(2) [of "''10''"] this(2) [of "''1''"]
  show ?thesis by (simp add: window_of_label_def duration_label_def default_windows_def)
qed

lemma map_result_Inl:
  "\<forall>x\<in>set xs. f x = Inl e \<or> (\<exists>y. f x = Inr y) \<Longrightarrow>
     map_result f xs = Inl e \<and> (\<exists>x\<in>set xs. f x = Inl e) \<or> (\<exists>ys. map_result f xs = Inr ys) \<and> (\<forall>x\<in>set xs. \<exists>y. f x = Inr y)"
  by (induction xs) force+

lemma capacity_analysis_ok:
  assumes "\<And>k. k \<in> insert None (Some ` set depths) \<Longrightarrow> \<exists>r. f k = Inr r" "clock_hz \<noteq> 0"
  shows "\<exists>r. capacity_analysis_of rnd service_cycles clock_hz depths f = Inr r"
proof -
  have "\<exists>d'. fold_result (\<lambda>d depth. rbind (f (Some depth)) (\<lambda>r. Inr (AList.update (py_str_int depth) r d))) d ds = Inr d'"
    if "set ds \<subseteq> set depths" for d ds
    using that
  proof (induction ds arbitrary: d)
    case (Cons k ds)
    then obtain r where "f (Some k) = Inr r" using assms(1) [of "Some k"] by auto
    with Cons show ?case by simp
  qed simp
  then obtain d where "fold_result (\<lambda>d depth. rbind (f (Some depth)) (\<lambda>r. Inr (AList.update (py_str_int depth) r d))) [] depths = Inr d"
    by blast
  moreover obtain r where "f None = Inr r" using assms(1) [of None] by auto
  ultimately show ?thesis using assms(2) by (simp add: capacity_analysis_of_def)
qed

lemma capacity_report_ok:
  assumes "map fst states = map fst (capacity_states service clock_hz depths)"
    "map (ca_clock_hz \<circ> snd) states = map (ca_clock_hz \<circ> snd) (capacity_states service clock_hz depths)"
    "0 < clock_hz" "k \<in> insert None (Some ` set depths)"
  shows "\<exists>r. capacity_report_of rnd states k = Inr r"
proof -
  have "k \<in> fst ` set (capacity_states service clock_hz depths)"
    using capacity_states_map(2) [of service clock_hz depths k] assms(4) by (metis map_of_eq_None_iff option.distinct(1))
  then have "k \<in> fst ` set states" using assms(1) by (metis list.set_map)
  then obtain s where s: "map_of states k = Some s" by (metis map_of_eq_None_iff not_None_eq)
  then have "ca_clock_hz s \<in> (ca_clock_hz \<circ> snd) ` set states" by (force dest: map_of_SomeD)
  then have "ca_clock_hz s \<in> (ca_clock_hz \<circ> snd) ` set (capacity_states service clock_hz depths)"
    using assms(2) by (metis list.set_map)
  then obtain k' s' where s': "(k', s') \<in> set (capacity_states service clock_hz depths)" "ca_clock_hz s = ca_clock_hz s'"
    by auto
  have "s' = capacity_init k' service clock_hz"
    using map_of_is_SomeI [OF capacity_states_map(1) s'(1)] by (simp add: capacity_states_map(2) split: if_splits)
  then have "ca_clock_hz s = clock_hz" using s'(2) by (simp add: capacity_init_def)
  then show ?thesis
    using close_busy_ok [OF assms(3), of "ca_busy_start s" "ca_current_busy_end s" "ca_longest_busy s"] assms(3) s
    by (auto simp: capacity_report_of_def capacity_dict_def)
qed

text \<open>
  After at least one event, the report of the combined analysis is available exactly when every
  window is one of the four that \<open>finalize\<close> looks up by label (1 s, 100 ms, 10 ms, 1 ms); with any
  other window \<open>to_dict\<close> raises \<open>KeyError\<close>.
\<close>

theorem diagnostic_report_iff:
  assumes "fold_result (diagnostic_observe rnd) (diagnostic_init windows service_cycles clock_hz depths) events = Inr s"
    and "events \<noteq> []" "0 < clock_hz" "0 \<notin> set windows"
  shows "case diagnostic_dict rnd s of
      Inl e \<Rightarrow> e = KeyError \<and> (\<exists>w\<in>set windows. w \<notin> {1000000000, 100000000, 10000000, 1000000})
    | Inr _ \<Rightarrow> set windows \<subseteq> {1000000000, 100000000, 10000000, 1000000}"
proof -
  let ?fresh = "diagnostic_init windows service_cycles clock_hz depths"
  have known: "{1000000000, 100000000, 10000000, 1000000} = set default_windows" by (simp add: default_windows_def)
  have fresh: "dg_windows_ns ?fresh = windows" "dg_clock_hz ?fresh = clock_hz" "dg_depths ?fresh = depths"
    "dg_capacity_states ?fresh = capacity_states (service_cycles * 1000000000) clock_hz depths"
    "dg_processed_events ?fresh = 0" by (simp_all add: diagnostic_init_def)
  have "dg_processed_events s = int (length events)"
    using state_after_processed [of rnd ?fresh events "length events" s] assms(1) by (simp add: state_after_def fresh(5))
  with diagnostic_fold_inv [OF assms(1) diagnostic_init_inv] assms(2) have
    inv: "dg_windows_ns s = windows" "dg_clock_hz s = clock_hz" "dg_depths s = depths"
      "rates_inv rnd windows (dg_rate_states s)"
      "\<forall>w\<in>set windows. (duration_label w, ''combined'') \<in> fst ` set (dg_rate_states s)"
      "map fst (dg_capacity_states s) = map fst (dg_capacity_states ?fresh)"
      "map (ca_clock_hz \<circ> snd) (dg_capacity_states s) = map (ca_clock_hz \<circ> snd) (dg_capacity_states ?fresh)"
    by (simp_all add: diagnostic_inv_def fresh)
  define f where "f = (\<lambda>(key, st). rbind (window_of_label (fst key)) (\<lambda>window_ns.
      rbind (combined_rate_finish rnd window_ns st) (\<lambda>st. Inr (key :: string \<times> string, st))))"
  have f: "\<exists>w\<in>set windows. fst (fst x) = duration_label w \<and>
      (if w \<in> set default_windows then \<exists>y. f x = Inr y else f x = Inl KeyError)" if "x \<in> set (dg_rate_states s)" for x
  proof -
    from inv(4) that obtain w vals where w: "w \<in> set windows" "fst (fst x) = duration_label w"
      "online_of rnd 10000 vals (cb_stats (snd x))" by (fastforce simp: rates_inv_def)
    then have "w \<noteq> 0" using assms(4) by auto
    with combined_rate_add_ok [OF this w(3)] have "\<exists>st. combined_rate_finish rnd w (snd x) = Inr st"
      by (auto simp: combined_rate_finish_def)
    with w show ?thesis
      by (intro bexI [of _ w]) (auto simp: f_def window_of_label_duration case_prod_unfold)
  qed
  then have "\<forall>x\<in>set (dg_rate_states s). f x = Inl KeyError \<or> (\<exists>y. f x = Inr y)" by (metis (full_types))
  from map_result_Inl [OF this] show ?thesis
  proof (elim disjE conjE exE bexE)
    fix x assume x: "map_result f (dg_rate_states s) = Inl KeyError" "x \<in> set (dg_rate_states s)" "f x = Inl KeyError"
    with f [OF x(2)] have "\<exists>w\<in>set windows. w \<notin> set default_windows" by (auto split: if_splits)
    moreover have "diagnostic_dict rnd s = Inl KeyError"
      using x(1) by (simp add: diagnostic_dict_def diagnostic_finalize_def f_def [symmetric])
    ultimately show ?thesis unfolding known by simp
  next
    fix ys assume ys: "map_result f (dg_rate_states s) = Inr ys" "\<forall>x\<in>set (dg_rate_states s). \<exists>y. f x = Inr y"
    have "w \<in> set default_windows" if w: "w \<in> set windows" for w
    proof -
      from inv(5) w obtain x where x: "x \<in> set (dg_rate_states s)" "fst x = (duration_label w, ''combined'')" by auto
      with ys(2) obtain y where "f x = Inr y" by blast
      then obtain v where "window_of_label (duration_label w) = Inr v"
        using x(2) by (auto simp: f_def case_prod_unfold rbind_eq_Inr)
      then show ?thesis by (simp add: window_of_label_duration split: if_splits)
    qed
    then have "set windows \<subseteq> set default_windows" by blast
    moreover have "\<exists>r. diagnostic_dict rnd s = Inr r"
    proof -
      have "\<exists>r. capacity_analysis_of rnd (dg_service_cycles s) clock_hz depths (capacity_report_of rnd (dg_capacity_states s)) = Inr r"
        by (rule capacity_analysis_ok [OF capacity_report_ok [OF inv(6,7) [unfolded fresh(4)] assms(3)]])
          (use assms(3) in simp_all)
      then show ?thesis
        using ys(1) assms(3) inv(2,3)
        by (auto simp: diagnostic_dict_def diagnostic_finalize_def f_def [symmetric] interarrival_result_def)
    qed
    ultimately show ?thesis unfolding known by auto
  qed
qed

section \<open>A source that fails\<close>

theorem interrupted_analysis_resumes_witness:
  "\<exists>final store.
     combined_timestamp_analysis (\<lambda>x. x) (\<lambda>s _. s) 1 (diagnostic_init [1000000] 536 27000000 [2]) ()
       (\<lambda>n. (drop (nat n) (take 1 (map arrival_event [5, 7])), Some IndexError))
       \<lparr>as_checkpoint = None, as_manifest = None\<rparr> = (Inl IndexError, store) \<and>
     fold_result (diagnostic_observe (\<lambda>x. x)) (diagnostic_init [1000000] 536 27000000 [2]) (map arrival_event [5, 7]) = Inr final \<and>
     fst (combined_timestamp_analysis (\<lambda>x. x) (\<lambda>s _. s) 1 (diagnostic_init [1000000] 536 27000000 [2]) ()
       (\<lambda>n. (drop (nat n) (map arrival_event [5, 7]), None)) store) = diagnostic_dict (\<lambda>x. x) final"
proof -
  let ?fresh = "diagnostic_init [1000000] 536 27000000 [2]" and ?events = "map arrival_event [5, 7]"
  let ?store = "\<lparr>as_checkpoint = None, as_manifest = None\<rparr> :: unit analysis_store"
  have "is_ok (fold_result (diagnostic_observe (\<lambda>x. x)) ?fresh ?events)" by code_simp
  then obtain final where final: "fold_result (diagnostic_observe (\<lambda>x. x)) ?fresh ?events = Inr final"
    by (auto simp: is_ok_iff)
  have "dg_processed_events ?fresh = 0" "prefix_store (\<lambda>x. x) ?fresh ?events () ?store"
    by (simp_all add: diagnostic_init_def prefix_store_def load_checkpoint_def)
  note resumed = interrupted_analysis_resumes [OF final this, where torn = "\<lambda>s _. s" and interval = 1
      and m = 1 and failure = IndexError]
  obtain outcome store where "combined_timestamp_analysis (\<lambda>x. x) (\<lambda>s _. s) 1 ?fresh ()
       (\<lambda>n. (drop (nat n) (take 1 ?events), Some IndexError)) ?store = (outcome, store)"
    by fastforce
  from this resumed [OF this] final show ?thesis by blast
qed

theorem diagnostic_report_iff_witness:
  "\<exists>s. fold_result (diagnostic_observe (\<lambda>x. x)) (diagnostic_init [20] 536 27000000 [2]) [arrival_event 5] = Inr s \<and>
     diagnostic_dict (\<lambda>x. x) s = Inl KeyError"
proof -
  have "is_ok (fold_result (diagnostic_observe (\<lambda>x. x)) (diagnostic_init [20] 536 27000000 [2]) [arrival_event 5])"
    by code_simp
  then obtain s where s: "fold_result (diagnostic_observe (\<lambda>x. x)) (diagnostic_init [20] 536 27000000 [2]) [arrival_event 5] = Inr s"
    by (auto simp: is_ok_iff)
  from diagnostic_report_iff [OF s] s show ?thesis by (cases "diagnostic_dict (\<lambda>x. x) s") auto
qed

end
