(* ===== verification/Arrival_Windows.thy ===== *)
theory Arrival_Windows
  imports Arrival_Rates
begin

text \<open>
  The two event-rate computations agree on times in order: the buckets that the list version counts
  in a dict are the windows that the stream version closes one after the other.
\<close>

text \<open>The dict of the list version against the state of the stream version.\<close>

definition window_rel :: "(rat \<Rightarrow> rat) \<Rightarrow> int \<Rightarrow> int \<Rightarrow> (int \<times> int) list \<Rightarrow> rate_state \<Rightarrow> bool" where
  "window_rel rnd window_ns start buckets st \<longleftrightarrow>
     rt_start st = start \<and>
     (\<exists>past vals. buckets = past @ [(rt_bucket st, rt_count st)] \<and> (\<forall>(k, _)\<in>set past. k < rt_bucket st) \<and>
        0 < rt_count st \<and> map_result (rate_of rnd window_ns) (map snd past) = Inr vals \<and>
        online_of rnd 100000 vals (rt_stats st))"

lemma rate_of_ok: "window_ns \<noteq> 0 \<Longrightarrow> \<exists>r. rate_of rnd window_ns n = Inr r"
  by (simp add: rate_of_def)

lemma map_result_append:
  "map_result f (xs @ ys) = rbind (map_result f xs) (\<lambda>us. rbind (map_result f ys) (\<lambda>vs. Inr (us @ vs)))"
  by (induction xs) (simp_all add: rbind_def split: sum.split)

lemma update_last: "\<forall>(k', _)\<in>set past. k' \<noteq> k \<Longrightarrow> AList.update k v (past @ [(k, u)]) = past @ [(k, v)]"
  by (induction past) auto

lemma update_new: "k \<notin> fst ` set al \<Longrightarrow> AList.update k v al = al @ [(k, v)]"
  by (induction al) auto

lemma window_rel_step:
  assumes "0 < window_ns" "window_rel rnd window_ns start buckets st" "start + rt_bucket st * window_ns \<le> t"
  shows "\<exists>buckets' st'. bucket_add window_ns start buckets t = Inr buckets' \<and>
    rate_update rnd window_ns t st = Inr st' \<and> window_rel rnd window_ns start buckets' st' \<and>
    rt_bucket st' = (t - start) div window_ns \<and>
    sum_list (map snd buckets') = sum_list (map snd buckets) + 1"
proof -
  let ?k = "(t - start) div window_ns"
  obtain past vals where rel: "rt_start st = start" "buckets = past @ [(rt_bucket st, rt_count st)]"
    "\<forall>(k, _)\<in>set past. k < rt_bucket st" "0 < rt_count st"
    "map_result (rate_of rnd window_ns) (map snd past) = Inr vals" "online_of rnd 100000 vals (rt_stats st)"
    using assms(2) unfolding window_rel_def by blast
  have "rt_bucket st * window_ns \<le> t - start" using assms(3) by simp
  then have ge: "rt_bucket st \<le> ?k" using assms(1) by (metis nonzero_mult_div_cancel_right less_irrefl zdiv_mono1)
  show ?thesis
  proof (cases "?k = rt_bucket st")
    case True
    have "map_of buckets ?k = Some (rt_count st)"
      using rel(2,3) True by (auto simp: map_add_def split: option.split dest: map_of_SomeD)
    then have "bucket_add window_ns start buckets t = Inr (past @ [(rt_bucket st, rt_count st + 1)])"
    proof -
      have "\<forall>(k', _)\<in>set past. k' \<noteq> rt_bucket st" using rel(3) by auto
      from update_last [OF this] show ?thesis
        using assms(1) True \<open>map_of buckets ?k = Some (rt_count st)\<close> by (simp add: bucket_add_def rel(2))
    qed
    moreover have "rate_update rnd window_ns t st = Inr (st\<lparr>rt_count := rt_count st + 1\<rparr>)"
      using assms(1) True rel(1) by (simp add: rate_update_def)
    ultimately show ?thesis using True rel by (auto simp: window_rel_def)
  next
    case False
    with ge have new: "?k \<notin> fst ` set buckets" using rel(2,3) by auto
    then have "map_of buckets ?k = None" by (simp add: map_of_eq_None_iff)
    then have b: "bucket_add window_ns start buckets t = Inr (buckets @ [(?k, 1)])"
      using assms(1) new by (simp add: bucket_add_def update_new)
    obtain rate where rate: "rate_of rnd window_ns (rt_count st) = Inr rate"
      using rate_of_ok [of window_ns rnd "rt_count st"] assms(1) by auto
    obtain stats where stats: "online_add rnd rate (rt_stats st) = Inr stats" "online_of rnd 100000 (vals @ [rate]) stats"
      using online_add_ok [OF _ rel(6), of rate] by auto
    have s: "rate_update rnd window_ns t st = Inr (st\<lparr>rt_stats := stats, rt_bucket := ?k, rt_count := 1\<rparr>)"
      using assms(1) False rel(1,4) rate stats(1) by (simp add: rate_update_def)
    have "map_result (rate_of rnd window_ns) (map snd buckets) = Inr (vals @ [rate])"
      using rel(2,5) rate by (simp add: map_result_append)
    moreover have "\<forall>(k, _)\<in>set buckets. k < ?k" using rel(2,3) ge False by auto
    ultimately have "window_rel rnd window_ns start (buckets @ [(?k, 1)])
        (st\<lparr>rt_stats := stats, rt_bucket := ?k, rt_count := 1\<rparr>)"
      using rel(1) stats(2) by (auto simp: window_rel_def)
    then show ?thesis using b s by auto
  qed
qed

lemma window_rel_fold:
  "0 < window_ns \<Longrightarrow> window_rel rnd window_ns start buckets st \<Longrightarrow> sorted ts \<Longrightarrow>
     \<forall>t\<in>set ts. start + rt_bucket st * window_ns \<le> t \<Longrightarrow>
     \<exists>buckets' st'. fold_result (bucket_add window_ns start) buckets ts = Inr buckets' \<and>
       fold_result (\<lambda>st t. rate_update rnd window_ns t st) st ts = Inr st' \<and>
       window_rel rnd window_ns start buckets' st' \<and>
       sum_list (map snd buckets') = sum_list (map snd buckets) + int (length ts)"
proof (induction ts arbitrary: buckets st)
  case Nil
  then show ?case by simp
next
  case (Cons t ts)
  obtain b1 s1 where one: "bucket_add window_ns start buckets t = Inr b1" "rate_update rnd window_ns t st = Inr s1"
    "window_rel rnd window_ns start b1 s1" "rt_bucket s1 = (t - start) div window_ns"
    "sum_list (map snd b1) = sum_list (map snd buckets) + 1"
    using window_rel_step [OF Cons.prems(1,2), of t] Cons.prems(4) by auto
  have "rt_bucket s1 * window_ns \<le> t - start"
    using div_mult_mod_eq [of "t - start" window_ns] pos_mod_sign [OF Cons.prems(1), of "t - start"]
    unfolding one(4) by linarith
  then have "\<forall>u\<in>set ts. start + rt_bucket s1 * window_ns \<le> u" using Cons.prems(3) by fastforce
  with Cons.IH [OF Cons.prems(1) one(3)] Cons.prems(3) one show ?case by auto
qed

text \<open>
  The streaming event rates agree with those over a list: for times in order, counting windows in
  a dict and closing them one by one give the same number of windows and the same maximum rate,
  and the same percentiles while the sample holds every window; the windows hold every event.
\<close>

theorem rate_stream_agrees:
  assumes "0 < window_ns" "sorted ts" "ts \<noteq> []"
  defines "first \<equiv> \<lparr>rt_start = hd ts, rt_bucket = 0, rt_count = 0, rt_stats = online_init 100000\<rparr>"
  shows "\<exists>r st buckets. window_rate rnd ts window_ns = Inr r \<and>
    rbind (fold_result (\<lambda>st t. rate_update rnd window_ns t st) first ts) (rate_flush rnd window_ns) = Inr st \<and>
    fold_result (bucket_add window_ns (hd ts)) [] ts = Inr buckets \<and> sum_list (map snd buckets) = int (length ts) \<and>
    on_count (rt_stats st) = wr_windows r \<and> on_maximum (rt_stats st) = Some (wr_maximum r) \<and>
    (wr_windows r \<le> 100000 \<longrightarrow>
       di_median (online_dict rnd (float_add rnd) (rt_stats st)) = Some (wr_median r) \<and>
       di_p95 (online_dict rnd (float_add rnd) (rt_stats st)) = Some (wr_p95 r) \<and>
       di_p99 (online_dict rnd (float_add rnd) (rt_stats st)) = Some (wr_p99 r))"
proof -
  obtain t us where ts: "ts = t # us" using assms(3) by (cases ts) auto
  have start: "bucket_add window_ns t [] t = Inr [(0, 1)]" "rate_update rnd window_ns t first = Inr (first\<lparr>rt_count := 1\<rparr>)"
    using assms(1) by (simp_all add: bucket_add_def rate_update_def first_def ts)
  have "window_rel rnd window_ns t [(0, 1)] (first\<lparr>rt_count := 1\<rparr>)"
    using online_of_init [of rnd 100000] by (simp add: window_rel_def first_def ts)
  moreover have "sorted us" "\<forall>u\<in>set us. t + rt_bucket (first\<lparr>rt_count := 1\<rparr>) * window_ns \<le> u"
    using assms(2) by (simp_all add: ts first_def)
  ultimately obtain buckets st where loop: "fold_result (bucket_add window_ns t) [(0, 1)] us = Inr buckets"
    "fold_result (\<lambda>st t. rate_update rnd window_ns t st) (first\<lparr>rt_count := 1\<rparr>) us = Inr st"
    "window_rel rnd window_ns t buckets st" "sum_list (map snd buckets) = 1 + int (length us)"
    using window_rel_fold [OF assms(1)] by force
  obtain past vals where rel: "buckets = past @ [(rt_bucket st, rt_count st)]" "0 < rt_count st"
    "map_result (rate_of rnd window_ns) (map snd past) = Inr vals" "online_of rnd 100000 vals (rt_stats st)"
    using loop(3) unfolding window_rel_def by blast
  obtain rate where rate: "rate_of rnd window_ns (rt_count st) = Inr rate"
    using rate_of_ok [of window_ns rnd "rt_count st"] assms(1) by auto
  obtain stats where stats: "online_add rnd rate (rt_stats st) = Inr stats" "online_of rnd 100000 (vals @ [rate]) stats"
    using online_add_ok [OF _ rel(4), of rate] by auto
  have flush: "rate_flush rnd window_ns st = Inr (st\<lparr>rt_stats := stats\<rparr>)"
    using rel(2) rate stats(1) by (simp add: rate_flush_def)
  have "map_result (rate_of rnd window_ns) (map snd buckets) = Inr (vals @ [rate])"
    using rel(1,3) rate by (simp add: map_result_append)
  then obtain r where r: "window_rate rnd ts window_ns = Inr r" "wr_windows r = int (length (vals @ [rate]))"
    "wr_median r = median_by rnd (float_add rnd) (vals @ [rate])"
    "wr_p95 r = the (percentile rnd (vals @ [rate]) (rnd (95 / 100)))"
    "wr_p99 r = the (percentile rnd (vals @ [rate]) (rnd (99 / 100)))"
    "wr_maximum r = the (extreme_of max (vals @ [rate]))"
    using loop(1) start(1) by (simp add: window_rate_def ts)
  have quantiles: "on_sample stats = vals @ [rate]" if "wr_windows r \<le> 100000"
    using stats(2) that r(2) by (simp add: online_of_def)
  have "on_count stats = wr_windows r" "on_maximum stats = Some (wr_maximum r)"
    using stats(2) r(2,6) by (simp_all add: online_of_def extreme_of_append)
  moreover have "percentile rnd (vals @ [rate]) q = Some (the (percentile rnd (vals @ [rate]) q))" for q
    by (simp add: percentile_def)
  ultimately show ?thesis
    using r loop start flush quantiles
    by (intro exI [of _ r] exI [of _ "st\<lparr>rt_stats := stats\<rparr>"] exI [of _ buckets])
      (simp add: ts first_def [symmetric] online_dict_def distribution_def Let_def)
qed

theorem rate_stream_agrees_witness:
  "\<exists>r st. window_rate fl64 [3, 4, 25] 10 = Inr r \<and>
     rbind (fold_result (\<lambda>st t. rate_update fl64 10 t st)
        \<lparr>rt_start = 3, rt_bucket = 0, rt_count = 0, rt_stats = online_init 100000\<rparr> [3, 4, 25]) (rate_flush fl64 10) = Inr st \<and>
     on_count (rt_stats st) = wr_windows r"
  using rate_stream_agrees [of 10 "[3, 4, 25]" fl64] by (simp del: fold_result.simps) blast

end
