(* ===== verification/Feature_Analysis.thy ===== *)
theory Feature_Analysis
  imports Paper_Execution Strategy_Model Arrival_Statistics Session_Calendar
    "HOL-Library.AList" "HOL-Library.List_Lexorder" "HOL-Library.Char_ord"
begin

text \<open>
  \<open>tools/backtest/feature_analysis.py\<close>: feature distributions and candidate counts, over a list and
  one candidate at a time, and the rank of a threshold in a distribution. Days are ordinals. The
  percentiles are integers or, for a median, floats; the differences of them that the rank
  estimate takes are rounded.
\<close>

section \<open>The features\<close>

definition FEATURES :: "(string \<times> (feature_snapshot \<Rightarrow> int) \<times> (feature_snapshot \<Rightarrow> bool) option) list" where
  "FEATURES =
     [(''spread_bps_x100'', ft_spread_bps_x100, Some ft_spread_bps_x100_valid),
      (''momentum_bps_x100'', ft_momentum_bps_x100, Some ft_momentum_bps_x100_valid),
      (''imbalance_q15'', ft_imbalance_normalized, Some ft_imbalance_normalized_valid),
      (''midpoint_minus_vwap_bps_x100'', ft_midpoint_minus_vwap_bps_x100, Some ft_midpoint_minus_vwap_bps_x100_valid),
      (''rolling_volume'', ft_rolling_volume, None),
      (''vwap'', ft_vwap, Some ft_vwap_quotient_valid)]"

definition feature_valid :: "(feature_snapshot \<Rightarrow> bool) option \<Rightarrow> feature_snapshot \<Rightarrow> bool" where
  "feature_valid valid_attribute f = (case valid_attribute of None \<Rightarrow> True | Some v \<Rightarrow> v f)"

definition feature_labels :: "string list" where
  "feature_labels = map fst FEATURES @ [''signal_score'']"

definition symbol_group :: "int \<Rightarrow> string" where
  "symbol_group symbol_id = ''symbol_'' @ py_str_int symbol_id"

record feature_stats =
  fe_distribution :: distribution_stats
  fe_valid_count :: int
  fe_invalid_count :: int

section \<open>One candidate at a time\<close>

record streaming_distribution =
  sd_count :: int
  sd_invalid_count :: int
  sd_minimum :: "int option"
  sd_maximum :: "int option"
  sd_total :: int
  sd_sample :: "int list"
  sd_sample_size :: int
  sd_sample_stride :: int

definition distribution_init :: "int \<Rightarrow> streaming_distribution" where
  "distribution_init sample_size =
     \<lparr>sd_count = 0, sd_invalid_count = 0, sd_minimum = None, sd_maximum = None, sd_total = 0,
      sd_sample = [], sd_sample_size = sample_size, sd_sample_stride = max 1 (sample_size div 1000)\<rparr>"

text \<open>The sample is an array of 64-bit integers: storing a larger one raises.\<close>

definition array_sample_add :: "int \<Rightarrow> int \<Rightarrow> int \<Rightarrow> int \<Rightarrow> int list \<Rightarrow> int list result" where
  "array_sample_add cap stride count v sample =
     rbind (sample_add cap stride count v sample) (\<lambda>stored.
       if (int (length sample) < cap \<or> count mod stride = 0) \<and> \<not> (- (2 ^ 63) \<le> v \<and> v < 2 ^ 63)
       then Inl OverflowError else Inr stored)"

definition distribution_observe :: "int \<Rightarrow> bool \<Rightarrow> streaming_distribution \<Rightarrow> streaming_distribution result" where
  "distribution_observe v valid s =
     (if \<not> valid then Inr (s\<lparr>sd_invalid_count := sd_invalid_count s + 1\<rparr>)
      else
        let count = sd_count s + 1 in
        rbind (array_sample_add (sd_sample_size s) (sd_sample_stride s) count v (sd_sample s)) (\<lambda>sample.
        Inr (s\<lparr>sd_count := count, sd_total := sd_total s + v,
               sd_minimum := Some (case sd_minimum s of None \<Rightarrow> v | Some m \<Rightarrow> min m v),
               sd_maximum := Some (case sd_maximum s of None \<Rightarrow> v | Some m \<Rightarrow> max m v),
               sd_sample := sample\<rparr>)))"

text \<open>The dict of a distribution, paired with \<open>quantile_sample_count\<close>.\<close>

definition distribution_dict :: "(rat \<Rightarrow> rat) \<Rightarrow> streaming_distribution \<Rightarrow> feature_stats \<times> int" where
  "distribution_dict rnd s =
     (\<lparr>fe_distribution = (distribution rnd (+) (int_mean_of rnd) (map of_int (sd_sample s)))
         \<lparr>di_count := sd_count s, di_min := map_option of_int (sd_minimum s),
          di_max := map_option of_int (sd_maximum s),
          di_mean := (if sd_count s = 0 then None else Some (rnd (of_int (sd_total s) / of_int (sd_count s))))\<rparr>,
       fe_valid_count = sd_count s, fe_invalid_count = sd_invalid_count s\<rparr>,
      int (length (sd_sample s)))"

type_synonym feature_group = "(string \<times> streaming_distribution) list"

record feature_accumulator =
  fa_total_feature_records :: int
  fa_groups :: "(string \<times> feature_group) list"
  fa_sample_size :: int

definition new_group :: "int \<Rightarrow> feature_group" where
  "new_group sample_size = map (\<lambda>label. (label, distribution_init sample_size)) feature_labels"

definition feature_accumulator_init :: "int \<Rightarrow> feature_accumulator" where
  "feature_accumulator_init sample_size =
     \<lparr>fa_total_feature_records = 0, fa_groups = [(''combined'', new_group sample_size)],
      fa_sample_size = sample_size\<rparr>"

definition ensure_group :: "string \<Rightarrow> feature_accumulator \<Rightarrow> feature_accumulator" where
  "ensure_group name s =
     (case map_of (fa_groups s) name of
        Some _ \<Rightarrow> s
      | None \<Rightarrow> s\<lparr>fa_groups := AList.update name (new_group (fa_sample_size s)) (fa_groups s)\<rparr>)"

definition label_observe :: "string \<Rightarrow> int \<Rightarrow> bool \<Rightarrow> feature_group \<Rightarrow> feature_group result" where
  "label_observe label v valid g =
     (case map_of g label of
        None \<Rightarrow> Inl KeyError
      | Some d \<Rightarrow> rbind (distribution_observe v valid d) (\<lambda>d. Inr (AList.update label d g)))"

definition observe_group :: "candidate_signal \<Rightarrow> feature_group \<Rightarrow> feature_group result" where
  "observe_group cand g =
     rbind (fold_result (\<lambda>g (label, attribute, valid_attribute).
              label_observe label (attribute (cs_feature cand)) (feature_valid valid_attribute (cs_feature cand)) g)
            g FEATURES) (\<lambda>g.
     label_observe ''signal_score'' (cs_score cand) True g)"

definition observe_named :: "candidate_signal \<Rightarrow> feature_accumulator \<Rightarrow> string \<Rightarrow> feature_accumulator result" where
  "observe_named cand s name =
     (case map_of (fa_groups s) name of
        None \<Rightarrow> Inl KeyError
      | Some g \<Rightarrow> rbind (observe_group cand g) (\<lambda>g. Inr (s\<lparr>fa_groups := AList.update name g (fa_groups s)\<rparr>)))"

definition feature_observe :: "feature_accumulator \<Rightarrow> candidate_signal \<Rightarrow> feature_accumulator result" where
  "feature_observe s cand =
     (let names = [''combined'', symbol_group (cs_symbol_id cand)];
          s = foldl (\<lambda>s name. ensure_group name s)
                (s\<lparr>fa_total_feature_records := fa_total_feature_records s + 1\<rparr>) names
      in fold_result (observe_named cand) s names)"

definition accumulator_dict ::
  "(rat \<Rightarrow> rat) \<Rightarrow> feature_accumulator \<Rightarrow> (string \<times> (string \<times> feature_stats \<times> int) list) list" where
  "accumulator_dict rnd s =
     map (\<lambda>label. (label, map (\<lambda>(name, g). (name, distribution_dict rnd (the (map_of g label))))
       (sort_key fst (fa_groups s)))) feature_labels"

section \<open>Over a list\<close>

definition candidate_groups :: "bool \<Rightarrow> candidate_signal list \<Rightarrow> (string \<times> candidate_signal list) list" where
  "candidate_groups per_symbol cands =
     (''combined'', cands) #
     (if per_symbol
      then map (\<lambda>s. (symbol_group s, filter (\<lambda>cand. cs_symbol_id cand = s) cands))
             (sorted_list_of_set (cs_symbol_id ` set cands))
      else [])"

definition list_stats ::
  "(rat \<Rightarrow> rat) \<Rightarrow> (feature_snapshot \<Rightarrow> int) \<Rightarrow> (feature_snapshot \<Rightarrow> bool) option \<Rightarrow> candidate_signal list \<Rightarrow> feature_stats" where
  "list_stats rnd attribute valid_attribute rows =
     (let vals = map (\<lambda>row. attribute (cs_feature row)) (filter (\<lambda>row. feature_valid valid_attribute (cs_feature row)) rows)
      in \<lparr>fe_distribution = distribution rnd (+) (int_mean_of rnd) (map of_int vals),
          fe_valid_count = int (length vals),
          fe_invalid_count = (if valid_attribute \<noteq> None then int (length rows) - int (length vals) else 0)\<rparr>)"

definition score_stats :: "(rat \<Rightarrow> rat) \<Rightarrow> candidate_signal list \<Rightarrow> feature_stats" where
  "score_stats rnd rows =
     \<lparr>fe_distribution = distribution rnd (+) (int_mean_of rnd) (map (\<lambda>row. of_int (cs_score row)) rows),
      fe_valid_count = int (length rows), fe_invalid_count = 0\<rparr>"

definition feature_distributions ::
  "(rat \<Rightarrow> rat) \<Rightarrow> bool \<Rightarrow> candidate_signal list \<Rightarrow> (string \<times> (string \<times> feature_stats) list) list" where
  "feature_distributions rnd per_symbol cands =
     map (\<lambda>(label, attribute, valid_attribute).
            (label, map (\<lambda>(name, rows). (name, list_stats rnd attribute valid_attribute rows))
              (candidate_groups per_symbol cands))) FEATURES
     @ [(''signal_score'', map (\<lambda>(name, rows). (name, score_stats rnd rows)) (candidate_groups per_symbol cands))]"

section \<open>Candidate counts\<close>

text \<open>A \<open>Counter\<close>, in insertion order.\<close>

definition counter_add :: "('k \<times> int) list \<Rightarrow> 'k \<Rightarrow> ('k \<times> int) list" where
  "counter_add d k = AList.update k ((case map_of d k of None \<Rightarrow> 0 | Some n \<Rightarrow> n) + 1) d"

definition action_name :: "int \<Rightarrow> string" where
  "action_name action =
     (if action = 0 then ''SIGNAL_NONE'' else if action = 1 then ''LONG_CANDIDATE''
      else if action = 2 then ''SHORT_CANDIDATE'' else ''ACTION_'' @ py_str_int action)"

definition has_bits :: "int \<Rightarrow> candidate_signal \<Rightarrow> bool" where
  "has_bits bits cand \<longleftrightarrow> (cs_reason_bits cand AND bits) \<noteq> 0"

definition DISABLED_BITS :: int where
  "DISABLED_BITS = 0x0200 OR 0x0400 OR 0x0800 OR 0x1000"

record candidate_report =
  cn_total_feature_records :: int
  cn_action_counts :: "(string \<times> int) list"
  cn_candidate_count :: int
  cn_rate_per_minute :: rat
  cn_rate_per_1000_events :: rat
  cn_by_symbol :: "(string \<times> int) list"
  cn_by_day :: "(int \<times> int) list"
  cn_by_score :: "(string \<times> int) list"
  cn_by_reason :: "(string \<times> int) list"
  cn_invalid :: int
  cn_disabled :: int
  cn_cooldown :: int

definition text_number :: "string \<times> int \<Rightarrow> int" where
  "text_number item = (case py_int_text (fst item) of None \<Rightarrow> 0 | Some n \<Rightarrow> n)"

definition minute_rate :: "(rat \<Rightarrow> rat) \<Rightarrow> int \<Rightarrow> int \<Rightarrow> rat" where
  "minute_rate rnd candidates span_ns =
     (if span_ns \<noteq> 0 then rnd (of_int candidates / rnd (of_int span_ns / 60000000000)) else 0)"

definition event_rate :: "(rat \<Rightarrow> rat) \<Rightarrow> int \<Rightarrow> int \<Rightarrow> rat" where
  "event_rate rnd candidates count =
     (if count \<noteq> 0 then rnd (rnd (of_int candidates / of_int count) * 1000) else 0)"

definition acted :: "candidate_signal list \<Rightarrow> candidate_signal list" where
  "acted cands = filter (\<lambda>row. cs_action row \<noteq> 0) cands"

definition candidate_summary ::
  "(rat \<Rightarrow> rat) \<Rightarrow> (int \<Rightarrow> local_time) \<Rightarrow> candidate_signal list \<Rightarrow> candidate_report" where
  "candidate_summary rnd clock cands =
     (let count_bits = (\<lambda>bits. int (length (filter (has_bits bits) cands)));
          times = map cs_timestamp_ns cands;
          span_ns = (case extreme_of max times of None \<Rightarrow> 0 | Some t \<Rightarrow> t)
                    - (case extreme_of min times of None \<Rightarrow> 0 | Some t \<Rightarrow> t);
          candidates = int (length (acted cands))
      in \<lparr>cn_total_feature_records = int (length cands),
          cn_action_counts = foldl counter_add [] (map (\<lambda>row. action_name (cs_action row)) cands),
          cn_candidate_count = candidates,
          cn_rate_per_minute = minute_rate rnd candidates span_ns,
          cn_rate_per_1000_events = event_rate rnd candidates (int (length cands)),
          cn_by_symbol = sort_key fst (foldl counter_add [] (map (\<lambda>row. py_str_int (cs_symbol_id row)) (acted cands))),
          cn_by_day = sort_key fst (foldl counter_add [] (map (\<lambda>row. session_date clock (cs_timestamp_ns row)) (acted cands))),
          cn_by_score = sort_key text_number (foldl counter_add [] (map (\<lambda>row. py_str_int (cs_score row)) (acted cands))),
          cn_by_reason = sort_key text_number (foldl counter_add [] (map (\<lambda>row. py_str_int (cs_reason_bits row)) (acted cands))),
          cn_invalid = count_bits 0x0100, cn_disabled = count_bits DISABLED_BITS,
          cn_cooldown = count_bits 0x0080\<rparr>)"

record candidate_accumulator =
  cu_total_feature_records :: int
  cu_action_counts :: "(string \<times> int) list"
  cu_by_symbol :: "(string \<times> int) list"
  cu_by_score :: "(string \<times> int) list"
  cu_by_reason :: "(string \<times> int) list"
  cu_by_day :: "(int \<times> int) list"
  cu_invalid :: int
  cu_disabled :: int
  cu_cooldown :: int
  cu_first_timestamp :: "int option"
  cu_last_timestamp :: "int option"

definition candidate_accumulator_init :: candidate_accumulator where
  "candidate_accumulator_init =
     \<lparr>cu_total_feature_records = 0, cu_action_counts = [], cu_by_symbol = [], cu_by_score = [],
      cu_by_reason = [], cu_by_day = [], cu_invalid = 0, cu_disabled = 0, cu_cooldown = 0,
      cu_first_timestamp = None, cu_last_timestamp = None\<rparr>"

definition candidate_observe ::
  "(int \<Rightarrow> local_time) \<Rightarrow> candidate_accumulator \<Rightarrow> candidate_signal \<Rightarrow> candidate_accumulator" where
  "candidate_observe clock s cand =
     (let flag = (\<lambda>bits. if has_bits bits cand then 1 else 0);
          s = s\<lparr>cu_total_feature_records := cu_total_feature_records s + 1,
                cu_action_counts := counter_add (cu_action_counts s) (action_name (cs_action cand)),
                cu_invalid := cu_invalid s + flag 0x0100, cu_disabled := cu_disabled s + flag DISABLED_BITS,
                cu_cooldown := cu_cooldown s + flag 0x0080,
                cu_first_timestamp := (case cu_first_timestamp s of None \<Rightarrow> Some (cs_timestamp_ns cand) | Some t \<Rightarrow> Some t),
                cu_last_timestamp := Some (cs_timestamp_ns cand)\<rparr>
      in if cs_action cand \<noteq> 0
         then s\<lparr>cu_by_symbol := counter_add (cu_by_symbol s) (py_str_int (cs_symbol_id cand)),
                cu_by_score := counter_add (cu_by_score s) (py_str_int (cs_score cand)),
                cu_by_reason := counter_add (cu_by_reason s) (py_str_int (cs_reason_bits cand)),
                cu_by_day := counter_add (cu_by_day s) (session_date clock (cs_timestamp_ns cand))\<rparr>
         else s)"

definition candidate_dict :: "(rat \<Rightarrow> rat) \<Rightarrow> candidate_accumulator \<Rightarrow> candidate_report" where
  "candidate_dict rnd s =
     (let span_ns = (case (cu_first_timestamp s, cu_last_timestamp s) of (Some a, Some b) \<Rightarrow> b - a | _ \<Rightarrow> 0);
          count = cu_total_feature_records s;
          candidates = sum_list (map snd (filter (\<lambda>item. fst item \<noteq> ''SIGNAL_NONE'') (cu_action_counts s)))
      in \<lparr>cn_total_feature_records = count, cn_action_counts = cu_action_counts s,
          cn_candidate_count = candidates, cn_rate_per_minute = minute_rate rnd candidates span_ns,
          cn_rate_per_1000_events = event_rate rnd candidates count,
          cn_by_symbol = sort_key fst (cu_by_symbol s), cn_by_day = sort_key fst (cu_by_day s),
          cn_by_score = sort_key text_number (cu_by_score s),
          cn_by_reason = sort_key text_number (cu_by_reason s),
          cn_invalid = cu_invalid s, cn_disabled = cu_disabled s, cn_cooldown = cu_cooldown s\<rparr>)"

section \<open>Thresholds\<close>

definition estimate_points :: "distribution_stats \<Rightarrow> (rat \<times> rat) list" where
  "estimate_points stats =
     List.map_filter (\<lambda>(rank, v). map_option (Pair rank) v)
       [(1, di_p1 stats), (5, di_p5 stats), (10, di_p10 stats), (25, di_p25 stats), (50, di_median stats),
        (75, di_p75 stats), (90, di_p90 stats), (95, di_p95 stats), (99, di_p99 stats)]"

fun interpolate :: "(rat \<Rightarrow> rat) \<Rightarrow> rat \<Rightarrow> (rat \<times> rat) list \<Rightarrow> rat" where
  "interpolate rnd threshold ((left_rank, left_value) # (right_rank, right_value) # rest) =
     (if threshold \<le> right_value
      then if right_value = left_value then right_rank
           else rnd (left_rank + rnd (rnd (rnd (threshold - left_value) / rnd (right_value - left_value))
                                      * (right_rank - left_rank)))
      else interpolate rnd threshold ((right_rank, right_value) # rest))"
| "interpolate rnd threshold [(rank, v)] = rank"
| "interpolate rnd threshold [] = 0"

definition estimated_percentile :: "(rat \<Rightarrow> rat) \<Rightarrow> distribution_stats \<Rightarrow> rat \<Rightarrow> rat option" where
  "estimated_percentile rnd stats threshold =
     (let points = estimate_points stats in
      if points = [] then None
      else if threshold \<le> snd (hd points) then Some (fst (hd points))
      else if snd (last points) \<le> threshold then Some (fst (last points))
      else Some (interpolate rnd threshold points))"

record threshold_row =
  th_feature :: string
  th_threshold :: int
  th_direction :: string
  th_sample_count :: int
  th_percentile_rank :: "rat option"
  th_category :: string
  th_p1 :: "rat option"
  th_median :: "rat option"
  th_p99 :: "rat option"

definition thresholds_of :: "strategy_config \<Rightarrow> (string \<times> string \<times> int \<times> string) list" where
  "thresholds_of cfg =
     [(''long_momentum'', ''momentum_bps_x100'', sc_long_min_momentum_bps_x100 cfg, ''lower''),
      (''short_momentum'', ''momentum_bps_x100'', sc_short_max_momentum_bps_x100 cfg, ''upper''),
      (''long_vwap_delta'', ''midpoint_minus_vwap_bps_x100'', sc_long_min_vwap_delta_bps_x100 cfg, ''lower''),
      (''short_vwap_delta'', ''midpoint_minus_vwap_bps_x100'', sc_short_max_vwap_delta_bps_x100 cfg, ''upper''),
      (''long_imbalance'', ''imbalance_q15'', sc_long_min_imbalance_q15 cfg, ''lower''),
      (''short_imbalance'', ''imbalance_q15'', sc_short_max_imbalance_q15 cfg, ''upper''),
      (''maximum_spread'', ''spread_bps_x100'', sc_max_spread_bps_x100 cfg, ''upper''),
      (''minimum_volume'', ''rolling_volume'', sc_min_rolling_volume cfg, ''lower'')]"

definition combined_stats :: "(string \<times> (string \<times> distribution_stats) list) list \<Rightarrow> string \<Rightarrow> distribution_stats option" where
  "combined_stats distributions feature =
     Option.bind (map_of distributions feature) (\<lambda>groups. map_of groups ''combined'')"

definition threshold_category :: "string \<Rightarrow> rat option \<Rightarrow> string" where
  "threshold_category direction percentile_rank =
     (case percentile_rank of
        None \<Rightarrow> ''unavailable''
      | Some r \<Rightarrow>
          if (if direction = ''lower'' then 90 \<le> r else r \<le> 10) then ''very restrictive''
          else if (if direction = ''lower'' then r \<le> 10 else 90 \<le> r) then ''very permissive''
          else ''moderate'')"

definition threshold_realism ::
  "(rat \<Rightarrow> rat) \<Rightarrow> (string \<times> (string \<times> distribution_stats) list) list \<Rightarrow> strategy_config \<Rightarrow>
     candidate_signal list option \<Rightarrow> (string \<times> threshold_row) list" where
  "threshold_realism rnd distributions cfg candidates =
     map (\<lambda>(name, feature, threshold, direction).
       let stats = combined_stats distributions feature;
           of_stats = (\<lambda>pick. Option.bind stats pick);
           (attribute, valid_attribute) = the (map_of FEATURES feature);
           vals = (case candidates of None \<Rightarrow> []
             | Some rows \<Rightarrow> map (\<lambda>row. attribute (cs_feature row))
                 (filter (\<lambda>row. feature_valid valid_attribute (cs_feature row)) rows));
           percentile_rank = (if vals \<noteq> []
             then Some (rnd (rnd (of_int (int (length (filter (\<lambda>v. v \<le> threshold) vals))) / of_int (int (length vals))) * 100))
             else Option.bind stats (\<lambda>stats. estimated_percentile rnd stats (of_int threshold)))
       in (name, \<lparr>th_feature = feature, th_threshold = threshold, th_direction = direction,
            th_sample_count = (case stats of None \<Rightarrow> 0 | Some s \<Rightarrow> di_count s),
            th_percentile_rank = percentile_rank, th_category = threshold_category direction percentile_rank,
            th_p1 = of_stats di_p1, th_median = of_stats di_median, th_p99 = of_stats di_p99\<rparr>)) (thresholds_of cfg)"

definition suggest_search_ranges ::
  "(string \<times> (string \<times> distribution_stats) list) list \<Rightarrow> (string \<times> (string \<times> rat option) list) list \<times> int list" where
  "suggest_search_ranges distributions =
     (map (\<lambda>feature.
        let pick = (\<lambda>f. Option.bind (combined_stats distributions feature) f)
        in (feature, [(''p10'', pick di_p10), (''p25'', pick di_p25), (''median'', pick di_median),
                      (''p75'', pick di_p75), (''p90'', pick di_p90)]))
        [''momentum_bps_x100'', ''midpoint_minus_vwap_bps_x100'', ''imbalance_q15'', ''spread_bps_x100'',
         ''rolling_volume''],
      [0, 1, 2, 4, 8, 16])"

end
