(* ===== verification/Feature_Agreement.thy ===== *)
theory Feature_Agreement
  imports Feature_Analysis Strategy_Correct
begin

text \<open>
  What the feature analysis reports: one candidate at a time or over the list, the same statistics and
  the same counts; and the rank estimated for a threshold grows with the threshold.
\<close>

section \<open>Counters\<close>

lemma counter_add_total:
  "sum_list (map snd (filter (\<lambda>item. P (fst item)) (counter_add d k))) =
     sum_list (map snd (filter (\<lambda>item. P (fst item)) d)) + (if P k then 1 else 0)"
  by (induction d) (auto simp: counter_add_def)

lemma counter_total:
  "sum_list (map snd (filter (\<lambda>item. P (fst item)) (foldl counter_add d ks))) =
     sum_list (map snd (filter (\<lambda>item. P (fst item)) d)) + int (length (filter P ks))"
  by (induction ks arbitrary: d) (simp_all add: counter_add_total)

lemma action_name_none: "action_name action = ''SIGNAL_NONE'' \<longleftrightarrow> action = 0"
  by (simp add: action_name_def)

text \<open>The accumulator after a list of candidates.\<close>

lemma candidate_observe_fold:
  "foldl (candidate_observe clock) candidate_accumulator_init cands =
     \<lparr>cu_total_feature_records = int (length cands),
      cu_action_counts = foldl counter_add [] (map (\<lambda>row. action_name (cs_action row)) cands),
      cu_by_symbol = foldl counter_add [] (map (\<lambda>row. py_str_int (cs_symbol_id row)) (acted cands)),
      cu_by_score = foldl counter_add [] (map (\<lambda>row. py_str_int (cs_score row)) (acted cands)),
      cu_by_reason = foldl counter_add [] (map (\<lambda>row. py_str_int (cs_reason_bits row)) (acted cands)),
      cu_by_day = foldl counter_add [] (map (\<lambda>row. session_date clock (cs_timestamp_ns row)) (acted cands)),
      cu_invalid = int (length (filter (has_bits 0x0100) cands)),
      cu_disabled = int (length (filter (has_bits DISABLED_BITS) cands)),
      cu_cooldown = int (length (filter (has_bits 0x0080) cands)),
      cu_first_timestamp = (if cands = [] then None else Some (cs_timestamp_ns (hd cands))),
      cu_last_timestamp = (if cands = [] then None else Some (cs_timestamp_ns (last cands)))\<rparr>"
proof (induction cands rule: rev_induct)
  case Nil
  then show ?case by (simp add: candidate_accumulator_init_def acted_def)
next
  case (snoc c cands)
  show ?case
    unfolding foldl_append snoc.IH
    by (cases cands) (simp_all add: candidate_observe_def Let_def acted_def)
qed

lemma extreme_of_sorted:
  assumes "sorted (xs :: int list)" "xs \<noteq> []"
  shows "extreme_of max xs = Some (last xs)" "extreme_of min xs = Some (hd xs)"
proof -
  have "foldl max v vs = last (v # vs) \<and> foldl min v vs = v" if "sorted (v # vs)" for v :: int and vs
    using that by (induction vs arbitrary: v) (auto simp: max_def min_def)
  with assms show "extreme_of max xs = Some (last xs)" "extreme_of min xs = Some (hd xs)"
    by (cases xs; simp add: extreme_of_def)+
qed

lemma candidate_dict_fold:
  assumes "sorted (map cs_timestamp_ns cands)"
  shows "candidate_dict rnd (foldl (candidate_observe clock) candidate_accumulator_init cands) =
    candidate_summary rnd clock cands"
proof -
  have count: "sum_list (map snd (filter (\<lambda>item. fst item \<noteq> ''SIGNAL_NONE'')
      (foldl counter_add [] (map (\<lambda>row. action_name (cs_action row)) cands)))) = int (length (acted cands))"
    using counter_total [of "\<lambda>name. name \<noteq> ''SIGNAL_NONE''" "[]" "map (\<lambda>row. action_name (cs_action row)) cands"]
    by (simp add: filter_map o_def action_name_none acted_def)
  have span: "(case (if cands = [] then None else Some (cs_timestamp_ns (hd cands)),
        if cands = [] then None else Some (cs_timestamp_ns (last cands))) of (Some a, Some b) \<Rightarrow> b - a | _ \<Rightarrow> 0) =
      (case extreme_of max (map cs_timestamp_ns cands) of None \<Rightarrow> 0 | Some t \<Rightarrow> t) -
      (case extreme_of min (map cs_timestamp_ns cands) of None \<Rightarrow> 0 | Some t \<Rightarrow> t)"
    using extreme_of_sorted [OF assms]
    by (cases "cands = []") (simp_all add: extreme_of_def last_map hd_map)
  show ?thesis
    unfolding candidate_dict_def candidate_summary_def candidate_observe_fold candidate_accumulator.simps
      Let_def count span
    by (rule refl)
qed

text \<open>
  For candidates in the order of their timestamps, the streaming accumulator reports exactly the
  summary of the whole list: every counter in the same order, the same rates and the same
  prevention counts.
\<close>

theorem candidate_stream_agrees:
  assumes "sorted (map cs_timestamp_ns cands)"
  shows "candidate_dict rnd (foldl (candidate_observe clock) candidate_accumulator_init cands) =
    candidate_summary rnd clock cands"
  by (rule candidate_dict_fold [OF assms])

definition demo_row :: "int \<Rightarrow> int \<Rightarrow> int \<Rightarrow> candidate_signal" where
  "demo_row ts symb action =
     \<lparr>cs_timestamp_ns = ts, cs_event_type = 1, cs_symbol_id = symb, cs_sequence = 1, cs_action = action,
      cs_score = 3, cs_reason_bits = 0x0107, cs_feature = demo_feature symb ts\<rparr>"

definition demo_day :: "int \<Rightarrow> local_time" where
  "demo_day ts = \<lparr>lt_year = 2024, lt_day = ts div 8, lt_time = 0\<rparr>"

theorem candidate_stream_agrees_witness:
  "let cands = map (\<lambda>(ts, action). demo_row ts (ts mod 2) action) [(5, 0), (7, 1), (7, 2), (9, 1)] in
     candidate_dict (\<lambda>x. x) (foldl (candidate_observe demo_day) candidate_accumulator_init cands) =
       candidate_summary (\<lambda>x. x) demo_day cands \<and>
     cn_candidate_count (candidate_summary (\<lambda>x. x) demo_day cands) = 3"
proof -
  let ?cands = "map (\<lambda>(ts, action). demo_row ts (ts mod 2) action) [(5, 0), (7, 1), (7, 2), (9, 1)]"
  have "sorted (map cs_timestamp_ns ?cands)" by (simp add: demo_row_def)
  from candidate_stream_agrees [OF this, of "\<lambda>x. x" demo_day]
  show ?thesis by (simp add: Let_def) (simp add: candidate_summary_def acted_def demo_row_def Let_def)
qed

section \<open>Feature distributions\<close>

text \<open>The distribution after a list of observations that the sample can hold.\<close>

definition observed_values :: "(int \<times> bool) list \<Rightarrow> int list" where
  "observed_values obs = map fst (filter snd obs)"

definition distribution_after :: "int \<Rightarrow> (int \<times> bool) list \<Rightarrow> streaming_distribution" where
  "distribution_after cap obs =
     \<lparr>sd_count = int (length (observed_values obs)),
      sd_invalid_count = int (length (filter (\<lambda>x. \<not> snd x) obs)),
      sd_minimum = extreme_of min (observed_values obs), sd_maximum = extreme_of max (observed_values obs),
      sd_total = sum_list (observed_values obs), sd_sample = observed_values obs,
      sd_sample_size = cap, sd_sample_stride = max 1 (cap div 1000)\<rparr>"

lemma distribution_after_init: "distribution_init cap = distribution_after cap []"
  by (simp add: distribution_init_def distribution_after_def observed_values_def extreme_of_def)

lemma distribution_observe_after:
  assumes "int (length obs) < cap" "- (2 ^ 63) \<le> v" "v < 2 ^ 63"
  shows "distribution_observe v valid (distribution_after cap obs) = Inr (distribution_after cap (obs @ [(v, valid)]))"
proof -
  have "length (observed_values obs) \<le> length obs" by (simp add: observed_values_def)
  then have "int (length (observed_values obs)) < cap" using assms(1) by linarith
  then have "array_sample_add cap stride count v (observed_values obs) = Inr (observed_values obs @ [v])" for stride count
    using assms(2,3) by (simp add: array_sample_add_def sample_add_def)
  moreover have "observed_values (obs @ [(v, True)]) = observed_values obs @ [v]"
    "observed_values (obs @ [(v, False)]) = observed_values obs"
    by (simp_all add: observed_values_def)
  ultimately show ?thesis
    by (cases valid) (simp_all add: distribution_observe_def distribution_after_def Let_def extreme_of_append)
qed

definition feature_obs :: "(feature_snapshot \<Rightarrow> int) \<Rightarrow> (feature_snapshot \<Rightarrow> bool) option \<Rightarrow> candidate_signal list \<Rightarrow> (int \<times> bool) list" where
  "feature_obs attribute valid_attribute =
     map (\<lambda>cand. (attribute (cs_feature cand), feature_valid valid_attribute (cs_feature cand)))"

definition score_obs :: "candidate_signal list \<Rightarrow> (int \<times> bool) list" where
  "score_obs = map (\<lambda>cand. (cs_score cand, True))"

definition group_after :: "int \<Rightarrow> candidate_signal list \<Rightarrow> feature_group" where
  "group_after cap cands =
     map (\<lambda>(label, attribute, valid_attribute).
       (label, distribution_after cap (feature_obs attribute valid_attribute cands))) FEATURES
     @ [(''signal_score'', distribution_after cap (score_obs cands))]"

text \<open>Values that every array slot and every float can hold.\<close>

definition small_features :: "candidate_signal \<Rightarrow> bool" where
  "small_features cand \<longleftrightarrow> \<bar>cs_score cand\<bar> \<le> 2 ^ 53 \<and>
     (\<forall>(label, attribute, valid_attribute)\<in>set FEATURES. \<bar>attribute (cs_feature cand)\<bar> \<le> 2 ^ 53)"

lemma new_group_after: "new_group cap = group_after cap []"
  by (simp add: new_group_def group_after_def feature_labels_def FEATURES_def feature_obs_def score_obs_def
      distribution_after_init)

lemma observe_group_after:
  assumes "int (length cands) < cap" "small_features cand"
  shows "observe_group cand (group_after cap cands) = Inr (group_after cap (cands @ [cand]))"
proof -
  have fits: "- (2 ^ 63) \<le> v \<and> v < 2 ^ 63" if "\<bar>v\<bar> \<le> 2 ^ 53" for v :: int using that by auto
  have one: "distribution_observe (attribute (cs_feature cand)) (feature_valid va (cs_feature cand))
      (distribution_after cap (feature_obs attribute va cands)) =
      Inr (distribution_after cap (feature_obs attribute va (cands @ [cand])))"
    if "\<bar>attribute (cs_feature cand)\<bar> \<le> 2 ^ 53" for attribute va
    using distribution_observe_after [of "feature_obs attribute va cands" cap "attribute (cs_feature cand)"] fits [OF that] assms(1)
    by (simp add: feature_obs_def)
  have score: "distribution_observe (cs_score cand) True (distribution_after cap (score_obs cands)) =
      Inr (distribution_after cap (score_obs (cands @ [cand])))"
    using distribution_observe_after [of "score_obs cands" cap "cs_score cand"] fits assms
    by (simp add: score_obs_def small_features_def)
  have small: "\<forall>(label, attribute, va)\<in>set FEATURES. \<bar>attribute (cs_feature cand)\<bar> \<le> 2 ^ 53"
    using assms(2) by (simp add: small_features_def)
  show ?thesis
    using small unfolding observe_group_def group_after_def FEATURES_def
    by (simp add: label_observe_def one score)
qed

text \<open>The dict of such a distribution is that of the list.\<close>

lemma observed_feature:
  "observed_values (feature_obs attribute va rows) =
     map (\<lambda>row. attribute (cs_feature row)) (filter (\<lambda>row. feature_valid va (cs_feature row)) rows)"
  by (induction rows) (simp_all add: observed_values_def feature_obs_def)

lemma extreme_of_int: "extreme_of min (map rat_of_int ns) = map_option of_int (extreme_of min ns)"
  "extreme_of max (map rat_of_int ns) = map_option of_int (extreme_of max ns)"
  by (induction ns rule: rev_induct) (simp_all add: extreme_of_append extreme_of_def [of _ "[]"] min_def max_def split: option.split)

context float_rounding
begin

lemma distribution_dict_after:
  assumes "\<forall>v\<in>set (observed_values obs). \<bar>v\<bar> \<le> 2 ^ 53"
  shows "fst (distribution_dict rnd (distribution_after cap obs)) =
    \<lparr>fe_distribution = distribution rnd (+) (int_mean_of rnd) (map of_int (observed_values obs)),
     fe_valid_count = int (length (observed_values obs)),
     fe_invalid_count = int (length obs) - int (length (observed_values obs))\<rparr>"
proof -
  let ?vals = "observed_values obs"
  have total: "rat_of_int (sum_list ns) = sum_list (map of_int ns)" for ns by (induction ns) simp_all
  have "length (filter snd obs) + length (filter (\<lambda>x. \<not> snd x) obs) = length obs"
    by (rule sum_length_filter_compl)
  then have invalid: "int (length (filter (\<lambda>x. \<not> snd x) obs)) = int (length obs) - int (length ?vals)"
    by (simp add: observed_values_def)
  have mean: "(if int (length ?vals) = 0 then None else Some (rnd (of_int (sum_list ?vals) / of_int (int (length ?vals))))) =
      (if map rat_of_int ?vals = [] then None else Some (int_mean_of rnd (map rat_of_int ?vals)))"
    unfolding int_mean_small [OF assms] by (simp add: mean_of_def total)
  show ?thesis
    unfolding distribution_dict_def distribution_after_def streaming_distribution.simps invalid mean
    by (simp add: distribution_def Let_def extreme_of_int)
qed

end

section \<open>The groups\<close>

definition group_rows_of :: "string \<Rightarrow> candidate_signal list \<Rightarrow> candidate_signal list option" where
  "group_rows_of name cands =
     (if name = ''combined'' then Some cands
      else if name \<in> (\<lambda>cand. symbol_group (cs_symbol_id cand)) ` set cands
      then Some (filter (\<lambda>cand. symbol_group (cs_symbol_id cand) = name) cands) else None)"

lemma symbol_group_inj: "symbol_group a = symbol_group b \<longleftrightarrow> a = b"
proof
  assume "symbol_group a = symbol_group b"
  then have "py_int_text (py_str_int a) = py_int_text (py_str_int b)" by (simp add: symbol_group_def)
  then show "a = b" by (simp add: py_int_text_str)
qed simp

lemma symbol_group_not_combined: "symbol_group a \<noteq> ''combined''"
  by (simp add: symbol_group_def)

lemma map_of_symbol_groups:
  "map_of (map (\<lambda>s. (symbol_group s, F s)) ss) name =
     (if \<exists>s\<in>set ss. name = symbol_group s then Some (F (THE s. name = symbol_group s)) else None)"
  by (induction ss) (auto simp: symbol_group_inj)

lemma candidate_groups_rows: "map_of (candidate_groups True cands) name = group_rows_of name cands"
proof (cases "name = ''combined''")
  case True
  then show ?thesis by (simp add: candidate_groups_def group_rows_of_def)
next
  case False
  show ?thesis
  proof (cases "\<exists>s\<in>cs_symbol_id ` set cands. name = symbol_group s")
    case True
    then obtain s where "s \<in> cs_symbol_id ` set cands" "name = symbol_group s" by blast
    then show ?thesis
      using False by (auto simp: candidate_groups_def group_rows_of_def map_of_symbol_groups symbol_group_inj)
  next
    case none: False
    then show ?thesis
      using False by (auto simp: candidate_groups_def group_rows_of_def map_of_symbol_groups)
  qed
qed

definition accumulator_after :: "int \<Rightarrow> candidate_signal list \<Rightarrow> feature_accumulator \<Rightarrow> bool" where
  "accumulator_after cap cands s \<longleftrightarrow>
     fa_sample_size s = cap \<and> fa_total_feature_records s = int (length cands) \<and>
     distinct (map fst (fa_groups s)) \<and>
     (\<forall>name. map_of (fa_groups s) name = map_option (group_after cap) (group_rows_of name cands))"

lemma accumulator_after_init: "accumulator_after cap [] (feature_accumulator_init cap)"
  by (simp add: accumulator_after_def feature_accumulator_init_def group_rows_of_def new_group_after)

lemma group_rows_snoc:
  "group_rows_of name (cands @ [c]) =
     (if name = ''combined'' then Some (cands @ [c])
      else if name = symbol_group (cs_symbol_id c)
      then Some ((case group_rows_of name cands of None \<Rightarrow> [] | Some rows \<Rightarrow> rows) @ [c])
      else group_rows_of name cands)"
  by (auto simp: group_rows_of_def filter_empty_conv image_iff)

lemma observe_named_after:
  assumes "map_of (fa_groups s) name = Some (group_after cap rows)" "int (length rows) < cap" "small_features c"
  shows "observe_named c s name =
    Inr (s\<lparr>fa_groups := AList.update name (group_after cap (rows @ [c])) (fa_groups s)\<rparr>)"
  using assms by (simp add: observe_named_def observe_group_after)

lemma feature_observe_after:
  assumes "accumulator_after cap cands s" "int (length cands) < cap" "small_features c"
  shows "\<exists>s'. feature_observe s c = Inr s' \<and> accumulator_after cap (cands @ [c]) s'"
proof -
  let ?name = "symbol_group (cs_symbol_id c)"
  define rows where "rows = (case group_rows_of ?name cands of None \<Rightarrow> [] | Some rows \<Rightarrow> rows)"
  define s1 where "s1 = s\<lparr>fa_total_feature_records := fa_total_feature_records s + 1\<rparr>"
  define s2 where "s2 = ensure_group ?name (ensure_group ''combined'' s1)"
  have groups: "map_of (fa_groups s1) name = map_option (group_after cap) (group_rows_of name cands)" for name
    using assms(1) by (simp add: accumulator_after_def s1_def)
  have combined: "ensure_group ''combined'' s1 = s1"
    by (simp add: ensure_group_def groups group_rows_of_def)
  have s2: "fa_sample_size s2 = cap \<and> fa_total_feature_records s2 = int (length cands) + 1 \<and>
    distinct (map fst (fa_groups s2)) \<and>
    (\<forall>name. map_of (fa_groups s2) name = (if name = ?name then Some (group_after cap rows)
       else map_option (group_after cap) (group_rows_of name cands)))"
  proof (cases "group_rows_of ?name cands")
    case None
    then have "s2 = s1\<lparr>fa_groups := AList.update ?name (new_group cap) (fa_groups s1)\<rparr>"
      using groups [of ?name] assms(1) unfolding s2_def combined
      by (simp add: ensure_group_def) (simp add: s1_def accumulator_after_def)
    then show ?thesis
      using None assms(1) groups
      by (simp add: rows_def new_group_after distinct_update update_conv') (simp add: s1_def accumulator_after_def distinct_update)
  next
    case (Some x)
    then have "s2 = s1" using groups [of ?name] unfolding s2_def combined by (simp add: ensure_group_def)
    then show ?thesis using Some assms(1) groups by (simp add: rows_def) (simp add: s1_def accumulator_after_def)
  qed
  have "length rows \<le> length cands" by (simp add: rows_def group_rows_of_def)
  then have rows: "int (length rows) < cap" using assms(2) by linarith
  have one: "observe_named c s2 ''combined'' =
      Inr (s2\<lparr>fa_groups := AList.update ''combined'' (group_after cap (cands @ [c])) (fa_groups s2)\<rparr>)" (is "_ = Inr ?s3")
    using symbol_group_not_combined [of "cs_symbol_id c"]
    by (intro observe_named_after assms) (simp add: s2 group_rows_of_def)
  have two: "observe_named c ?s3 ?name =
      Inr (?s3\<lparr>fa_groups := AList.update ?name (group_after cap (rows @ [c])) (fa_groups ?s3)\<rparr>)" (is "_ = Inr ?s4")
    using symbol_group_not_combined [of "cs_symbol_id c"]
    by (intro observe_named_after assms rows) (simp add: s2 update_conv')
  have "feature_observe s c = Inr ?s4"
    using one two by (simp add: feature_observe_def s1_def [symmetric] s2_def [symmetric] Let_def)
  moreover have "accumulator_after cap (cands @ [c]) ?s4"
    using s2 symbol_group_not_combined [of "cs_symbol_id c"]
    by (simp add: accumulator_after_def distinct_update update_conv' group_rows_snoc rows_def)
  ultimately show ?thesis by blast
qed

lemma feature_observe_fold:
  assumes "int (length cands) \<le> cap" "\<forall>c\<in>set cands. small_features c"
  shows "\<exists>s. fold_result feature_observe (feature_accumulator_init cap) cands = Inr s \<and> accumulator_after cap cands s"
  using assms
proof (induction cands rule: rev_induct)
  case Nil
  then show ?case by (simp add: accumulator_after_init)
next
  case (snoc c cands)
  then obtain s where "fold_result feature_observe (feature_accumulator_init cap) cands = Inr s" "accumulator_after cap cands s"
    by auto
  with feature_observe_after [OF this(2), of c] snoc.prems show ?case by (auto simp: fold_result_append)
qed

section \<open>Stream and list\<close>

definition report_entry :: "(string \<times> (string \<times> 'a) list) list \<Rightarrow> string \<Rightarrow> string \<Rightarrow> 'a option" where
  "report_entry report label name = Option.bind (map_of report label) (\<lambda>groups. map_of groups name)"

lemma map_of_sorted_groups:
  assumes "distinct (map fst groups)"
  shows "map_of (map (\<lambda>(name, g). (name, F g)) (sort_key fst groups)) name = map_option F (map_of groups name)"
proof -
  have "distinct (map fst (sort_key fst groups))"
    using assms by (simp add: distinct_map)
  then have "map_of (sort_key fst groups) = map_of groups"
    using assms by (simp add: map_of_inject_set)
  then show ?thesis by (simp add: map_of_map)
qed

lemma length_feature_obs: "length (feature_obs attribute va rows) = length rows"
  by (simp add: feature_obs_def)

lemma feature_stats_after:
  assumes "\<forall>c\<in>set rows. small_features c" "(label, attribute, va) \<in> set FEATURES"
  shows "fst (distribution_dict fl64 (distribution_after cap (feature_obs attribute va rows))) = list_stats fl64 attribute va rows"
proof -
  have "\<forall>v\<in>set (observed_values (feature_obs attribute va rows)). \<bar>v\<bar> \<le> 2 ^ 53"
    using assms unfolding observed_feature by (fastforce simp: small_features_def)
  from binary64.distribution_dict_after [OF this, of cap] show ?thesis
    by (auto simp: list_stats_def Let_def observed_feature length_feature_obs feature_valid_def)
qed

lemma score_stats_after:
  assumes "\<forall>c\<in>set rows. small_features c"
  shows "fst (distribution_dict fl64 (distribution_after cap (score_obs rows))) = score_stats fl64 rows"
proof -
  have vals: "observed_values (score_obs rows) = map cs_score rows"
    by (induction rows) (simp_all add: observed_values_def score_obs_def)
  then have "\<forall>v\<in>set (observed_values (score_obs rows)). \<bar>v\<bar> \<le> 2 ^ 53"
    using assms by (auto simp: small_features_def)
  from binary64.distribution_dict_after [OF this, of cap] show ?thesis
    by (simp add: score_stats_def vals o_def) (simp add: score_obs_def)
qed

lemma map_of_triples: "map_of (map (\<lambda>(l, a, v). (l, F a v)) xs) l = map_option (\<lambda>(a, v). F a v) (map_of xs l)"
  by (induction xs) auto

lemma map_of_labelled: "l \<in> set ls \<Longrightarrow> map_of (map (\<lambda>l. (l, F l)) ls) l = Some (F l)"
  by (induction ls) auto

lemma feature_labels_cases:
  "label \<in> set feature_labels \<longleftrightarrow> label = ''signal_score'' \<or> map_of FEATURES label \<noteq> None"
  by (auto simp: feature_labels_def map_of_eq_None_iff)

lemma no_score_feature: "map_of FEATURES ''signal_score'' = None"
  by (simp add: FEATURES_def)

lemma map_of_group_after:
  "map_of (group_after cap rows) label =
     (case map_of FEATURES label of
        Some (attribute, va) \<Rightarrow> Some (distribution_after cap (feature_obs attribute va rows))
      | None \<Rightarrow> if label = ''signal_score'' then Some (distribution_after cap (score_obs rows)) else None)"
  by (simp add: group_after_def map_add_def map_of_triples split: option.split)

lemma map_of_feature_distributions:
  "map_of (feature_distributions rnd True cands) label =
     (case map_of FEATURES label of
        Some (attribute, va) \<Rightarrow> Some (map (\<lambda>(name, rows). (name, list_stats rnd attribute va rows)) (candidate_groups True cands))
      | None \<Rightarrow> if label = ''signal_score''
          then Some (map (\<lambda>(name, rows). (name, score_stats rnd rows)) (candidate_groups True cands)) else None)"
  by (simp add: feature_distributions_def map_add_def map_of_triples split: option.split)

lemma report_entries_agree:
  assumes "accumulator_after cap cands s" "\<forall>c\<in>set cands. small_features c"
  shows "map_option fst (report_entry (accumulator_dict fl64 s) label name) =
    report_entry (feature_distributions fl64 True cands) label name"
proof (cases "label \<in> set feature_labels")
  case False
  then have "map_of FEATURES label = None" "label \<noteq> ''signal_score''" unfolding feature_labels_cases by blast+
  then have "map_of (feature_distributions fl64 True cands) label = None" by (simp add: map_of_feature_distributions)
  moreover have "map_of (accumulator_dict fl64 s) label = None"
    using False by (auto simp: accumulator_dict_def map_of_eq_None_iff)
  ultimately show ?thesis by (simp add: report_entry_def)
next
  case True
  have "report_entry (accumulator_dict fl64 s) label name =
      map_of (map (\<lambda>(name, g). (name, distribution_dict fl64 (the (map_of g label)))) (sort_key fst (fa_groups s))) name"
    using True by (simp add: report_entry_def accumulator_dict_def map_of_labelled)
  also have "\<dots> = map_option (\<lambda>rows. distribution_dict fl64 (the (map_of (group_after cap rows) label))) (group_rows_of name cands)"
    using assms(1) map_of_sorted_groups [of "fa_groups s"]
    by (simp add: accumulator_after_def option.map_comp o_def)
  finally have stream: "map_option fst (report_entry (accumulator_dict fl64 s) label name) =
      map_option (\<lambda>rows. fst (distribution_dict fl64 (the (map_of (group_after cap rows) label)))) (group_rows_of name cands)"
    by (simp add: option.map_comp o_def)
  have lists: "map_of (map (\<lambda>(name, rows). (name, F rows)) (candidate_groups True cands)) name =
      map_option F (group_rows_of name cands)" for F :: "candidate_signal list \<Rightarrow> feature_stats"
    using map_of_map [of F "candidate_groups True cands"] by (simp add: candidate_groups_rows)
  have small: "\<forall>c\<in>set rows. small_features c" if "group_rows_of name cands = Some rows" for rows
    using that assms(2) by (auto simp: group_rows_of_def split: if_splits)
  show ?thesis
  proof (cases "map_of FEATURES label")
    case None
    with True have label: "label = ''signal_score''" by (simp add: feature_labels_cases)
    show ?thesis
      unfolding stream unfolding report_entry_def map_of_feature_distributions map_of_group_after None
      using small by (cases "group_rows_of name cands") (simp_all add: label lists score_stats_after)
  next
    case (Some av)
    obtain attribute va where av: "av = (attribute, va)" by (cases av)
    have "(label, attribute, va) \<in> set FEATURES" using Some av by (auto dest: map_of_SomeD)
    then show ?thesis
      unfolding stream unfolding report_entry_def map_of_feature_distributions map_of_group_after Some av
      using small by (cases "group_rows_of name cands") (simp_all add: lists feature_stats_after)
  qed
qed

text \<open>
  C16: While the sample can hold every candidate, and the features and scores are of at most 53 bits,
  the streaming accumulator never raises, counts every candidate, and reports for every feature and
  every group, combined or of one symbol, the statistics and the counts of valid and invalid values
  of the analysis over the whole list, in binary64 arithmetic.
\<close>

theorem feature_stream_agrees:
  assumes "int (length cands) \<le> sample_size" "\<forall>cand\<in>set cands. small_features cand"
  shows "\<exists>s. fold_result feature_observe (feature_accumulator_init sample_size) cands = Inr s \<and>
    fa_total_feature_records s = int (length cands) \<and>
    (\<forall>label name. map_option fst (report_entry (accumulator_dict fl64 s) label name) =
       report_entry (feature_distributions fl64 True cands) label name)"
proof -
  obtain s where s: "fold_result feature_observe (feature_accumulator_init sample_size) cands = Inr s"
    "accumulator_after sample_size cands s"
    using feature_observe_fold [OF assms] by blast
  with report_entries_agree [OF s(2) assms(2)] show ?thesis by (auto simp: accumulator_after_def)
qed

theorem feature_stream_agrees_witness:
  "\<exists>s. fold_result feature_observe (feature_accumulator_init 2) [demo_row 5 1 0, demo_row 7 0 1] = Inr s \<and>
     map_option fst (report_entry (accumulator_dict fl64 s) ''vwap'' ''symbol_1'') =
       report_entry (feature_distributions fl64 True [demo_row 5 1 0, demo_row 7 0 1]) ''vwap'' ''symbol_1''"
proof -
  have "int (length [demo_row 5 1 0, demo_row 7 0 1]) \<le> 2"
    "\<forall>cand\<in>set [demo_row 5 1 0, demo_row 7 0 1]. small_features cand"
    by (simp_all add: small_features_def FEATURES_def demo_row_def demo_feature_def)
  from feature_stream_agrees [OF this] show ?thesis by blast
qed

section \<open>The rank of a threshold\<close>

definition rank_ok :: "rat \<Rightarrow> bool" where
  "rank_ok r \<longleftrightarrow> (\<exists>n. r = of_int n \<and> 0 \<le> n \<and> n \<le> 100)"

definition fraction_of_segment :: "(rat \<Rightarrow> rat) \<Rightarrow> rat \<Rightarrow> rat \<Rightarrow> rat \<Rightarrow> rat" where
  "fraction_of_segment rnd t v1 v2 = rnd (rnd (t - v1) / rnd (v2 - v1))"

context float_rounding
begin

lemma rank_diff: "rank_ok r1 \<Longrightarrow> rank_ok r2 \<Longrightarrow> rnd (r2 - r1) = r2 - r1"
proof -
  assume "rank_ok r1" "rank_ok r2"
  then obtain m n where mn: "r1 = of_int m" "0 \<le> m" "m \<le> 100" "r2 = of_int n" "0 \<le> n" "n \<le> 100"
    by (auto simp: rank_ok_def)
  then have "\<bar>n - m\<bar> \<le> 2 ^ 53" by simp
  from rnd_int [OF this] mn show ?thesis by simp
qed

lemma rnd_rank: "rank_ok r \<Longrightarrow> rnd r = r"
  using rank_diff [of 0 r] by (simp add: rank_ok_def)

lemma segment_fraction:
  assumes "v1 \<le> t" "t \<le> t'" "t' \<le> v2"
  shows "0 \<le> fraction_of_segment rnd t v1 v2 \<and> fraction_of_segment rnd t v1 v2 \<le> fraction_of_segment rnd t' v1 v2 \<and>
    fraction_of_segment rnd t' v1 v2 \<le> 1"
proof -
  have *: "0 \<le> rnd (t - v1)" "rnd (t - v1) \<le> rnd (t' - v1)" "rnd (t' - v1) \<le> rnd (v2 - v1)"
    using assms by (auto intro: rnd_nonneg rnd_mono)
  have "rnd (t - v1) / rnd (v2 - v1) \<le> rnd (t' - v1) / rnd (v2 - v1)" "rnd (t' - v1) / rnd (v2 - v1) \<le> 1"
    "0 \<le> rnd (t - v1) / rnd (v2 - v1)"
    using * by (auto intro!: divide_right_mono simp: divide_le_eq_1)
  from this(1) rnd_mono [OF this(1)] rnd_mono [OF this(2)] rnd_nonneg [OF this(3)] rnd_int [of 1] show ?thesis
    by (simp add: fraction_of_segment_def)
qed

lemma segment_rank:
  assumes "v1 \<le> t" "t \<le> t'" "t' \<le> v2" "r1 \<le> r2" "rank_ok r1" "rank_ok r2"
  defines "rank_at x \<equiv> rnd (r1 + rnd (fraction_of_segment rnd x v1 v2 * (r2 - r1)))"
  shows "r1 \<le> rank_at t \<and> rank_at t \<le> rank_at t' \<and> rank_at t' \<le> r2"
proof -
  note f = segment_fraction [OF assms(1-3)]
  have "0 \<le> fraction_of_segment rnd t v1 v2 * (r2 - r1)"
    "fraction_of_segment rnd t v1 v2 * (r2 - r1) \<le> fraction_of_segment rnd t' v1 v2 * (r2 - r1)"
    "fraction_of_segment rnd t' v1 v2 * (r2 - r1) \<le> 1 * (r2 - r1)"
    using f assms(4) by (auto intro!: mult_right_mono simp del: mult_1)
  then have "0 \<le> rnd (fraction_of_segment rnd t v1 v2 * (r2 - r1))"
    "rnd (fraction_of_segment rnd t v1 v2 * (r2 - r1)) \<le> rnd (fraction_of_segment rnd t' v1 v2 * (r2 - r1))"
    "rnd (fraction_of_segment rnd t' v1 v2 * (r2 - r1)) \<le> r2 - r1"
    using rank_diff [OF assms(5,6)] by (auto intro: rnd_nonneg rnd_mono) (metis mult_1 rnd_mono)
  then have "rnd r1 \<le> rank_at t" "rank_at t \<le> rank_at t'" "rank_at t' \<le> rnd r2"
    unfolding rank_at_def by (auto intro!: rnd_mono)
  then show ?thesis by (simp add: rnd_rank assms(5,6))
qed

lemma interpolate_step:
  "v1 < t \<Longrightarrow> interpolate rnd t ((r1, v1) # (r2, v2) # rest) =
     (if t \<le> v2 then rnd (r1 + rnd (fraction_of_segment rnd t v1 v2 * (r2 - r1)))
      else interpolate rnd t ((r2, v2) # rest))"
  by (auto simp: fraction_of_segment_def)

lemma interpolate_between:
  assumes "sorted (map fst ((r1, v1) # rest))" "\<forall>x\<in>set ((r1, v1) # rest). rank_ok (fst x)"
    and "v1 < t" "t \<le> snd (last ((r1, v1) # rest))"
  shows "r1 \<le> interpolate rnd t ((r1, v1) # rest) \<and>
    interpolate rnd t ((r1, v1) # rest) \<le> fst (last ((r1, v1) # rest))"
  using assms
proof (induction rest arbitrary: r1 v1)
  case Nil
  then show ?case by simp
next
  case (Cons x rest)
  obtain r2 v2 where x: "x = (r2, v2)" by (cases x)
  have last: "r2 \<le> fst (last (x # rest))" using Cons.prems(1) by (cases rest) (auto simp: x)
  show ?case
  proof (cases "t \<le> v2")
    case True
    have "r1 \<le> r2" "rank_ok r1" "rank_ok r2" "v1 \<le> t" using Cons.prems by (simp_all add: x)
    with segment_rank [of v1 t t v2 r1 r2] True last show ?thesis
      unfolding x interpolate_step [OF Cons.prems(3)] by (simp add: x)
  next
    case False
    have "r1 \<le> r2" using Cons.prems(1) by (simp add: x)
    with Cons.IH [of r2 v2] Cons.prems False show ?thesis
      unfolding x interpolate_step [OF Cons.prems(3)] by simp
  qed
qed

lemma interpolate_mono:
  assumes "sorted (map fst ((r1, v1) # rest))" "\<forall>x\<in>set ((r1, v1) # rest). rank_ok (fst x)"
    and "v1 < t" "t \<le> t'" "t' \<le> snd (last ((r1, v1) # rest))"
  shows "interpolate rnd t ((r1, v1) # rest) \<le> interpolate rnd t' ((r1, v1) # rest)"
  using assms
proof (induction rest arbitrary: r1 v1)
  case Nil
  then show ?case by simp
next
  case (Cons x rest)
  obtain r2 v2 where x: "x = (r2, v2)" by (cases x)
  have r: "r1 \<le> r2" "rank_ok r1" "rank_ok r2" "v1 \<le> t" "v1 < t'" using Cons.prems by (simp_all add: x)
  show ?case
  proof (cases "t' \<le> v2")
    case True
    with segment_rank [of v1 t t' v2 r1 r2] r Cons.prems(3,4) show ?thesis
      unfolding x interpolate_step [OF Cons.prems(3)] interpolate_step [OF r(5)] by simp
  next
    case later: False
    show ?thesis
    proof (cases "t \<le> v2")
      case True
      have "r2 \<le> interpolate rnd t' ((r2, v2) # rest)"
        using interpolate_between [of r2 v2 rest t'] Cons.prems later by (simp add: x)
      with segment_rank [of v1 t t v2 r1 r2] r True later show ?thesis
        unfolding x interpolate_step [OF Cons.prems(3)] interpolate_step [OF r(5)] by simp
    next
      case False
      with Cons.IH [of r2 v2] Cons.prems later show ?thesis
        unfolding x interpolate_step [OF Cons.prems(3)] interpolate_step [OF r(5)] by (simp add: x)
    qed
  qed
qed

end

definition estimate_ranks :: "rat list" where
  "estimate_ranks = [1, 5, 10, 25, 50, 75, 90, 95, 99]"

lemma estimate_ranks_ok: "sorted estimate_ranks" "\<forall>r\<in>set estimate_ranks. rank_ok r \<and> 1 \<le> r \<and> r \<le> 99"
proof -
  have "\<forall>n\<in>{1, 5, 10, 25, 50, 75, 90, 95, 99}. rank_ok (of_int n)" by (auto simp: rank_ok_def)
  then show "\<forall>r\<in>set estimate_ranks. rank_ok r \<and> 1 \<le> r \<and> r \<le> 99" by (simp add: estimate_ranks_def)
qed (simp add: estimate_ranks_def)

lemma estimate_points_ranks:
  "sorted (map fst (estimate_points stats)) \<and>
   (\<forall>x\<in>set (estimate_points stats). rank_ok (fst x) \<and> 1 \<le> fst x \<and> fst x \<le> 99)"
proof -
  define all :: "(rat \<times> rat option) list" where "all = [(1, di_p1 stats), (5, di_p5 stats), (10, di_p10 stats), (25, di_p25 stats), (50, di_median stats),
        (75, di_p75 stats), (90, di_p90 stats), (95, di_p95 stats), (99, di_p99 stats)]"
  have ranks: "map fst all = estimate_ranks" by (simp add: all_def estimate_ranks_def)
  have "map fst (List.map_filter (\<lambda>(rank, v). map_option (Pair rank) v) xs) =
      map fst (filter (\<lambda>x. snd x \<noteq> None) xs)" for xs :: "(rat \<times> rat option) list"
    by (induction xs) (auto simp: List.map_filter_simps split: option.split)
  then have "map fst (estimate_points stats) = map fst (filter (\<lambda>x. snd x \<noteq> None) all)"
    unfolding estimate_points_def all_def [symmetric] by simp
  moreover have "sorted (map fst (filter (\<lambda>x. snd x \<noteq> None) all))"
    by (rule sorted_filter) (simp add: ranks estimate_ranks_ok)
  moreover have "set (map fst (filter (\<lambda>x. snd x \<noteq> None) all)) \<subseteq> set estimate_ranks"
    unfolding ranks [symmetric] by auto
  ultimately show ?thesis using estimate_ranks_ok(2) by (metis imageI list.set_map subsetD)
qed

text \<open>
  The rank estimated for a threshold: whenever any percentile is known the estimate exists, lies
  between 1 and 99, and never falls when the threshold rises, in binary64 arithmetic and whatever
  the percentiles are, sorted or not.
\<close>

theorem percentile_estimate_monotone:
  assumes "estimate_points stats \<noteq> []" "t \<le> t'"
  shows "\<exists>p q. estimated_percentile fl64 stats t = Some p \<and> estimated_percentile fl64 stats t' = Some q \<and>
    1 \<le> p \<and> p \<le> q \<and> q \<le> 99"
proof -
  obtain r v rest where points: "estimate_points stats = (r, v) # rest"
    using assms(1) by (cases "estimate_points stats") auto
  note ranks = estimate_points_ranks [of stats, unfolded points]
  let ?last = "last ((r, v) # rest)"
  have ends: "1 \<le> r" "r \<le> fst ?last" "fst ?last \<le> 99"
    using ranks last_in_set [of "(r, v) # rest"] by (auto simp: points)
  have ok: "sorted (map fst ((r, v) # rest))" "\<forall>x\<in>set ((r, v) # rest). rank_ok (fst x)" using ranks by blast+
  have value_of: "estimated_percentile fl64 stats x = Some (if x \<le> v then r else if snd ?last \<le> x then fst ?last
      else interpolate fl64 x ((r, v) # rest))" for x
    by (simp add: estimated_percentile_def points Let_def)
  have between: "r \<le> interpolate fl64 x ((r, v) # rest) \<and> interpolate fl64 x ((r, v) # rest) \<le> fst ?last"
    if "\<not> x \<le> v" "\<not> snd ?last \<le> x" for x
    using binary64.interpolate_between [OF ok, of x] that by simp
  have "interpolate fl64 t ((r, v) # rest) \<le> interpolate fl64 t' ((r, v) # rest)"
    if "\<not> t \<le> v" "\<not> snd ?last \<le> t'"
    using binary64.interpolate_mono [OF ok, of t t'] that assms(2) by simp
  then show ?thesis
    unfolding value_of using between [of t] between [of t'] ends assms(2) by (auto simp del: last.simps)
qed

theorem percentile_estimate_monotone_witness:
  "\<exists>p q. estimated_percentile fl64 (distribution fl64 (+) (int_mean_of fl64) [10, 20, 40]) 12 = Some p \<and>
     estimated_percentile fl64 (distribution fl64 (+) (int_mean_of fl64) [10, 20, 40]) 30 = Some q \<and> 1 \<le> p \<and> p \<le> q \<and> q \<le> 99"
proof -
  have "estimate_points (distribution fl64 (+) (int_mean_of fl64) [10, 20, 40]) \<noteq> []"
    by (simp add: estimate_points_def distribution_def percentile_def List.map_filter_simps Let_def)
  from percentile_estimate_monotone [OF this, of 12 30] show ?thesis by simp
qed

end
