(* ===== verification/Streaming_Replay.thy ===== *)
theory Streaming_Replay
  imports Replay_Report Feature_Analysis
begin

text \<open>
  \<open>tools/backtest/streaming.py\<close>: the replay that keeps counters, bounded samples and actionable
  candidates instead of the history. The forward returns wait in one heap per symbol, modelled by the
  list of its entries in the order in which \<open>heappop\<close> returns them.
\<close>

section \<open>Sequence numbers\<close>

fun iter_replay_sequences ::
  "(int \<Rightarrow> local_time) \<Rightarrow> (int \<times> int \<Rightarrow> int option) \<Rightarrow> normalized_event list \<Rightarrow> normalized_event list" where
  "iter_replay_sequences clock counters [] = []"
| "iter_replay_sequences clock counters (e # es) =
     (let key = (session_date clock (ne_timestamp_ns e), ne_symbol_id e);
          n = (case counters key of None \<Rightarrow> 0 | Some n \<Rightarrow> n) + 1
      in with_sequence e n # iter_replay_sequences clock (counters(key \<mapsto> n)) es)"

section \<open>Forward returns on the fly\<close>

record forward_item =
  it_timestamp_ns :: int
  it_symbol_id :: int
  it_direction :: string
  it_score :: int
  it_reason_bits :: int
  it_horizon :: string
  it_horizon_ns :: int
  it_target_ns :: int
  it_entry_price :: "int option"

type_synonym forward_heap = "(int \<times> int \<times> forward_item) list"

record forward_accumulator =
  fw_last_quotes :: "(int \<times> int \<times> int \<times> int) list"
  fw_pending :: "(int \<times> forward_heap) list"
  fw_pending_id :: int
  fw_rows :: "forward_return_row list"

definition forward_init :: forward_accumulator where
  "forward_init = \<lparr>fw_last_quotes = [], fw_pending = [], fw_pending_id = 0, fw_rows = []\<rparr>"

definition heap_push :: "int \<times> int \<times> forward_item \<Rightarrow> forward_heap \<Rightarrow> forward_heap" where
  "heap_push = insort_key (\<lambda>(target, k, _). (target, k))"

definition item_row :: "forward_item \<Rightarrow> rat option \<Rightarrow> forward_return_row" where
  "item_row item r =
     \<lparr>fr_candidate_timestamp_ns = it_timestamp_ns item, fr_symbol_id = it_symbol_id item,
      fr_direction = it_direction item, fr_score = it_score item, fr_reason_bits = it_reason_bits item,
      fr_horizon = it_horizon item, fr_horizon_ns = it_horizon_ns item, fr_return_bps = r\<rparr>"

text \<open>The row of a due item at a quote, or \<open>None\<close> when the quote has no exit price and it waits on.\<close>

definition settle :: "(rat \<Rightarrow> rat) \<Rightarrow> feature_snapshot \<Rightarrow> forward_item \<Rightarrow> forward_return_row option" where
  "settle rnd f item =
     (case it_entry_price item of
        None \<Rightarrow> Some (item_row item None)
      | Some entry \<Rightarrow>
          let exit_price = (if it_direction item = ''long'' then ft_bid_price f else ft_ask_price f) in
          if exit_price \<le> 0 then None
          else Some (item_row item (Some (return_bps rnd (it_direction item) entry exit_price))))"

text \<open>Pop the due entries: the rows, the items to retry and what is left.\<close>

fun pop_due ::
  "(rat \<Rightarrow> rat) \<Rightarrow> int \<Rightarrow> feature_snapshot \<Rightarrow> forward_heap \<Rightarrow>
     forward_return_row list \<times> forward_item list \<times> forward_heap" where
  "pop_due rnd ts f [] = ([], [], [])"
| "pop_due rnd ts f ((target, k, item) # heap) =
     (if target \<le> ts
      then let (rows, retry, rest) = pop_due rnd ts f heap in
        (case settle rnd f item of
           None \<Rightarrow> (rows, item # retry, rest)
         | Some row \<Rightarrow> (row # rows, retry, rest))
      else ([], [], (target, k, item) # heap))"

text \<open>Reading \<open>self.pending[symbol]\<close> creates the entry of a new symbol.\<close>

definition pending_of :: "int \<Rightarrow> forward_accumulator \<Rightarrow> forward_heap" where
  "pending_of symb s = (case map_of (fw_pending s) symb of None \<Rightarrow> [] | Some heap \<Rightarrow> heap)"

definition push_item :: "int \<Rightarrow> forward_accumulator \<Rightarrow> forward_item \<Rightarrow> forward_accumulator" where
  "push_item symb s item =
     (let k = fw_pending_id s + 1 in
      s\<lparr>fw_pending_id := k,
        fw_pending := AList.update symb (heap_push (it_target_ns item, k, item) (pending_of symb s)) (fw_pending s)\<rparr>)"

definition observe_quote ::
  "(rat \<Rightarrow> rat) \<Rightarrow> int \<Rightarrow> feature_snapshot \<Rightarrow> forward_accumulator \<Rightarrow> forward_accumulator" where
  "observe_quote rnd ts f s =
     (let symb = ft_symbol_id f;
          (rows, retry, rest) = pop_due rnd ts f (pending_of symb s);
          s = s\<lparr>fw_last_quotes := AList.update symb (ts, ft_bid_price f, ft_ask_price f) (fw_last_quotes s),
                fw_pending := AList.update symb rest (fw_pending s), fw_rows := fw_rows s @ rows\<rparr>
      in foldl (push_item symb) s retry)"

definition stream_entry_price :: "candidate_signal \<Rightarrow> forward_accumulator \<Rightarrow> int option" where
  "stream_entry_price cand s =
     (case map_of (fw_last_quotes s) (cs_symbol_id cand) of
        None \<Rightarrow> None
      | Some (ts, bid, ask) \<Rightarrow>
          if ts \<le> cs_timestamp_ns cand
          then let price = (if cs_action cand = 1 then ask else bid) in if price \<le> 0 then None else Some price
          else None)"

definition observe_candidate :: "candidate_signal \<Rightarrow> forward_accumulator \<Rightarrow> forward_accumulator" where
  "observe_candidate cand s =
     foldl (push_item (cs_symbol_id cand)) s
       (map (\<lambda>(horizon, horizon_ns).
          \<lparr>it_timestamp_ns = cs_timestamp_ns cand, it_symbol_id = cs_symbol_id cand,
           it_direction = (if cs_action cand = 1 then ''long'' else ''short''), it_score = cs_score cand,
           it_reason_bits = cs_reason_bits cand, it_horizon = horizon, it_horizon_ns = horizon_ns,
           it_target_ns = cs_timestamp_ns cand + horizon_ns, it_entry_price = stream_entry_price cand s\<rparr>) HORIZONS_NS)"

definition forward_finish ::
  "(rat \<Rightarrow> rat) \<Rightarrow> (return_group \<times> rat list \<Rightarrow> string) \<Rightarrow> forward_accumulator \<Rightarrow>
     forward_return_row list \<times> int \<times> group_summary list" where
  "forward_finish rnd item_text s =
     (let rows = fw_rows s @ map (\<lambda>(_, _, item). item_row item None) (concat (map snd (fw_pending s)))
      in (rows, summarize_rows rnd item_text rows))"

section \<open>The streaming replay\<close>

text \<open>A session is a date, or a counter when the events bring their own sequence numbers.\<close>

datatype session_id = Dated int | Indexed int

record 's streaming_state =
  sv_market :: market_model
  sv_strategy :: 's
  sv_desk :: desk
  sv_features :: feature_accumulator
  sv_candidates :: candidate_accumulator
  sv_forward :: forward_accumulator
  sv_last_features :: "(int \<times> feature_snapshot) list"
  sv_previous_session :: "session_id option"
  sv_last_timestamp :: int
  sv_input_events :: int
  sv_accepted :: int
  sv_rejected :: int
  sv_unfilled :: int
  sv_counters :: "session_id \<times> int \<Rightarrow> int option"
  sv_seen :: "int list"
  sv_session_index :: int

definition streaming_start :: "backtest_config \<Rightarrow> market_model \<Rightarrow> 's \<Rightarrow> 's streaming_state" where
  "streaming_start c market strategy =
     \<lparr>sv_market = market, sv_strategy = strategy,
      sv_desk = \<lparr>dk_portfolio = portfolio_init (bc_portfolio c) False,
                 dk_execution = execution_init (Some (bc_execution c))\<rparr>,
      sv_features = feature_accumulator_init 100000, sv_candidates = candidate_accumulator_init, sv_forward = forward_init,
      sv_last_features = [], sv_previous_session = None, sv_last_timestamp = 0, sv_input_events = 0,
      sv_accepted = 0, sv_rejected = 0, sv_unfilled = 0, sv_counters = (\<lambda>_. None), sv_seen = [],
      sv_session_index = 0\<rparr>"

definition streaming_close :: "(rat \<Rightarrow> rat) \<Rightarrow> int \<Rightarrow> 's streaming_state \<Rightarrow> 's streaming_state result" where
  "streaming_close rnd ts s =
     rbind (close_session rnd (sv_desk s) (sv_last_features s) ts) (\<lambda>d.
       Inr (s\<lparr>sv_desk := desk_clear d,
              sv_unfilled := sv_unfilled s + int (length (fst (execution_flush (dk_execution d))))\<rparr>))"

text \<open>The session of an event; a repeated start of numbering opens the next one.\<close>

definition streaming_session ::
  "(int \<Rightarrow> local_time) \<Rightarrow> bool \<Rightarrow> normalized_event \<Rightarrow> 's streaming_state \<Rightarrow> session_id \<times> 's streaming_state" where
  "streaming_session clock presequenced e s =
     (if presequenced \<and> ne_sequence e \<noteq> None
      then
        let s = (if sv_previous_session s \<noteq> None \<and> ne_sequence e = Some 1 \<and> ne_symbol_id e \<in> set (sv_seen s)
                 then s\<lparr>sv_session_index := sv_session_index s + 1, sv_seen := []\<rparr> else s)
        in (Indexed (sv_session_index s), s\<lparr>sv_seen := List.insert (ne_symbol_id e) (sv_seen s)\<rparr>)
      else (Dated (session_date clock (ne_timestamp_ns e)), s))"

definition streaming_change ::
  "(rat \<Rightarrow> rat) \<Rightarrow> 's strategy_factory \<Rightarrow> session_id \<Rightarrow> 's streaming_state \<Rightarrow> 's streaming_state result" where
  "streaming_change rnd fac session s =
     (case sv_previous_session s of None \<Rightarrow> Inr s
      | Some previous \<Rightarrow>
          if session = previous then Inr s
          else rbind (streaming_close rnd (sv_last_timestamp s) s) (\<lambda>s.
            Inr (s\<lparr>sv_market := market_reset_state (sv_market s), sv_strategy := sf_reset fac (sv_strategy s),
                   sv_last_features := []\<rparr>)))"

text \<open>The sequence number of an event.\<close>

definition streaming_number ::
  "bool \<Rightarrow> session_id \<Rightarrow> normalized_event \<Rightarrow> 's streaming_state \<Rightarrow> normalized_event \<times> 's streaming_state" where
  "streaming_number presequenced session e s =
     (if presequenced \<and> ne_sequence e \<noteq> None then (e, s)
      else
        let key = (session, ne_symbol_id e);
            n = (case sv_counters s key of None \<Rightarrow> 0 | Some n \<Rightarrow> n) + 1
        in (with_sequence e n, s\<lparr>sv_counters := (sv_counters s)(key \<mapsto> n)\<rparr>))"

definition streaming_feature ::
  "(rat \<Rightarrow> rat) \<Rightarrow> 's strategy_factory \<Rightarrow> (int \<Rightarrow> local_time) \<Rightarrow> normalized_event \<Rightarrow> feature_snapshot \<Rightarrow>
     's streaming_state \<Rightarrow> 's streaming_state result" where
  "streaming_feature rnd fac clock e feature s =
     (let is_quote = (ne_event_type e = MSG_MARKET_QUOTE); ts = ne_timestamp_ns e;
          forward = (if is_quote then observe_quote rnd ts feature (sv_forward s) else sv_forward s) in
      rbind (if is_quote then desk_on_quote rnd ts feature (sv_desk s) else Inr ([], sv_desk s)) (\<lambda>(_, d).
      rbind (evaluate_risk rnd ts feature is_quote d) (\<lambda>(_, d).
      rbind (sf_evaluate fac (sv_strategy s) feature) (\<lambda>(signal, strategy).
      let candidate = candidate_of e signal feature in
      rbind (feature_observe (sv_features s) candidate) (\<lambda>features.
      let forward = (if cs_action candidate \<noteq> 0 then observe_candidate candidate forward else forward) in
      rbind (consider_candidate rnd candidate is_quote d) (\<lambda>(_, d).
      Inr (s\<lparr>sv_strategy := strategy, sv_features := features,
             sv_candidates := candidate_observe clock (sv_candidates s) candidate, sv_forward := forward,
             sv_accepted := sv_accepted s + 1,
             sv_last_features := AList.update (ne_symbol_id e) feature (sv_last_features s),
             sv_desk := d\<lparr>dk_portfolio :=
               snd (mark_to_market rnd ts feature False (dk_portfolio d))\<rparr>\<rparr>)))))))"

definition streaming_event ::
  "(rat \<Rightarrow> rat) \<Rightarrow> 's strategy_factory \<Rightarrow> (int \<Rightarrow> local_time) \<Rightarrow> bool \<Rightarrow>
     's streaming_state \<Rightarrow> normalized_event \<Rightarrow> 's streaming_state result" where
  "streaming_event rnd fac clock presequenced s e =
     (let (session, s) = streaming_session clock presequenced e (s\<lparr>sv_input_events := sv_input_events s + 1\<rparr>) in
      rbind (streaming_change rnd fac session s) (\<lambda>s.
      let (e, s) = streaming_number presequenced session e
            (s\<lparr>sv_previous_session := Some session, sv_last_timestamp := ne_timestamp_ns e\<rparr>) in
      rbind (to_market_event e None) (\<lambda>event.
      rbind (process_event (sv_market s) event) (\<lambda>(outcome, market).
      let s = s\<lparr>sv_market := market\<rparr> in
      case oc_feature outcome of
        None \<Rightarrow> Inr (s\<lparr>sv_rejected := sv_rejected s + 1\<rparr>)
      | Some feature \<Rightarrow>
          if oc_kind outcome \<noteq> ''feature'' then Inr (s\<lparr>sv_rejected := sv_rejected s + 1\<rparr>)
          else streaming_feature rnd fac clock e feature s))))"

definition streaming_end :: "(rat \<Rightarrow> rat) \<Rightarrow> 's streaming_state \<Rightarrow> 's streaming_state result" where
  "streaming_end rnd s =
     (if sv_last_features s \<noteq> [] then streaming_close rnd (sv_last_timestamp s) s
      else
        let (dropped, ex) = execution_flush (dk_execution (sv_desk s)) in
        Inr (s\<lparr>sv_desk := (sv_desk s)\<lparr>dk_execution := ex\<rparr>, sv_unfilled := sv_unfilled s + int (length dropped)\<rparr>))"

definition streaming_final ::
  "(rat \<Rightarrow> rat) \<Rightarrow> 's strategy_factory \<Rightarrow> backtest_config \<Rightarrow> (int \<Rightarrow> local_time) \<Rightarrow> bool \<Rightarrow>
     normalized_event list \<Rightarrow> 's streaming_state result" where
  "streaming_final rnd fac c clock presequenced events =
     rbind (market_default (bc_num_symbols c) (bc_trade_window c) (bc_momentum_window c) (bc_vwap_window c)) (\<lambda>market.
     rbind (sf_create fac (bc_num_symbols c) (bc_strategy c)) (\<lambda>strategy.
     rbind (fold_result (streaming_event rnd fac clock presequenced) (streaming_start c market strategy) events)
       (streaming_end rnd)))"

record streaming_result =
  sr_candidate_logs :: "candidate_log list"
  sr_trades :: "completed_trade list"
  sr_equity_curve :: "equity_point list"
  sr_forward_rows :: "forward_return_row list"
  sr_forward_summary :: "int \<times> group_summary list"
  sr_summary :: run_summary
  sr_counts :: run_counts
  sr_unfilled_orders :: "order_request list"
  sr_quality :: quality_report
  sr_feature_distributions :: "(string \<times> (string \<times> feature_stats \<times> int) list) list"
  sr_candidate_summary :: candidate_report

definition streaming_result_of ::
  "(rat \<Rightarrow> rat) \<Rightarrow> (rat list \<Rightarrow> rat) \<Rightarrow> float_math \<Rightarrow> (return_group \<times> rat list \<Rightarrow> string) \<Rightarrow> backtest_config \<Rightarrow>
     (int \<Rightarrow> local_time) \<Rightarrow> 's streaming_state \<Rightarrow> streaming_result" where
  "streaming_result_of rnd summed fm item_text c clock s =
     (let pf = dk_portfolio (sv_desk s);
          (rows, forward_summary) = forward_finish rnd item_text (sv_forward s);
          summary = compute_metrics rnd summed fm clock (pc_starting_cash (bc_portfolio c))
            (pf_completed_trades pf) (pf_equity_curve pf);
          candidate_summary = candidate_dict rnd (sv_candidates s)
      in \<lparr>sr_candidate_logs = pf_candidate_logs pf, sr_trades = pf_completed_trades pf,
          sr_equity_curve = pf_equity_curve pf, sr_forward_rows = rows, sr_forward_summary = forward_summary,
          sr_summary = summary\<lparr>rn_max_drawdown := min (rn_max_drawdown summary) (pf_maximum_drawdown pf)\<rparr>,
          sr_counts = \<lparr>ct_input_events = sv_input_events s, ct_session_events = sv_input_events s,
            ct_accepted_features = sv_accepted s, ct_rejected_events = sv_rejected s,
            ct_candidate_count = cn_candidate_count candidate_summary, ct_unfilled_orders = sv_unfilled s\<rparr>,
          sr_unfilled_orders = ex_unfilled_orders (dk_execution (sv_desk s)),
          sr_quality = \<lparr>qr_records = sv_input_events s, qr_issues = []\<rparr>,
          sr_feature_distributions = accumulator_dict rnd (sv_features s),
          sr_candidate_summary = candidate_summary\<rparr>)"

definition run_streaming_replay ::
  "(rat \<Rightarrow> rat) \<Rightarrow> (rat list \<Rightarrow> rat) \<Rightarrow> float_math \<Rightarrow> (return_group \<times> rat list \<Rightarrow> string) \<Rightarrow>
     's strategy_factory \<Rightarrow> backtest_config \<Rightarrow> (int \<Rightarrow> local_time) \<Rightarrow> bool \<Rightarrow> normalized_event list \<Rightarrow>
     streaming_result result" where
  "run_streaming_replay rnd summed fm item_text fac c clock presequenced events =
     rbind (streaming_final rnd fac c clock presequenced events) (\<lambda>s.
     Inr (streaming_result_of rnd summed fm item_text c clock s))"

end
