(* ===== verification/Streaming_Correct.thy ===== *)
theory Streaming_Correct
  imports Streaming_Replay Desk_Views Feature_Agreement "HOL-Library.Sublist"
begin

text \<open>
  The streaming replay against the batch replay. Both loops drive the same desk and differ only in what
  they record: the streaming one keeps the equity of each session's close and accumulates the statistics
  of the candidates that the batch one lists.
\<close>

section \<open>Equity curves\<close>

abbreviation curve_of :: "desk \<Rightarrow> equity_point list" where
  "curve_of d \<equiv> pf_equity_curve (dk_portfolio d)"

lemma curve_of_marks: "marks_of d = marks_of d' \<Longrightarrow> curve_of d = curve_of d'"
  by (simp add: marks_of_def Let_def)

text \<open>
  The batch curve is that of the closed sessions, which the streaming curve summarises, followed by the
  points of the running session.
\<close>

definition curves_agree ::
  "(int \<Rightarrow> local_time) \<Rightarrow> int option \<Rightarrow> bool \<Rightarrow> equity_point list \<Rightarrow> equity_point list \<Rightarrow> bool" where
  "curves_agree clock day running batch stream \<longleftrightarrow>
     (\<exists>past current. batch = past @ current \<and> points_by_date clock past = points_by_date clock stream \<and>
        (past = [] \<longleftrightarrow> stream = []) \<and> (past \<noteq> [] \<longrightarrow> last past = last stream) \<and>
        (\<forall>p\<in>set current. Some (session_date clock (eq_timestamp_ns p)) = day) \<and> (current \<noteq> [] \<longrightarrow> running))"

lemma points_by_date_snoc:
  "points_by_date clock (curve @ [p]) =
     AList.update (session_date clock (eq_timestamp_ns p)) p (points_by_date clock curve)"
  by (simp add: points_by_date_def)

lemma update_twice: "AList.update k v (AList.update k w al) = AList.update k v al"
  by (induction al) auto

lemma points_by_date_close:
  assumes "\<forall>q\<in>set current. session_date clock (eq_timestamp_ns q) = session_date clock (eq_timestamp_ns p)"
  shows "points_by_date clock (past @ current @ [p]) = points_by_date clock (past @ [p])"
  using assms
proof (induction current rule: rev_induct)
  case Nil
  then show ?case by simp
next
  case (snoc q current)
  have "points_by_date clock (past @ (current @ [q]) @ [p]) = points_by_date clock (past @ current @ [p])"
    using snoc.prems points_by_date_snoc [of clock "past @ current @ [q]" p]
      points_by_date_snoc [of clock "past @ current" p] points_by_date_snoc [of clock "past @ current" q]
    by (simp add: update_twice)
  with snoc show ?case by simp
qed

lemma curves_agree_close:
  assumes "curves_agree clock (Some day) True batch stream" "session_date clock (eq_timestamp_ns p) = day"
  shows "curves_agree clock day' False (batch @ [p]) (stream @ [p])"
proof -
  from assms(1) obtain past current where c: "batch = past @ current"
    "points_by_date clock past = points_by_date clock stream" "\<forall>q\<in>set current. session_date clock (eq_timestamp_ns q) = day"
    by (auto simp: curves_agree_def)
  have "points_by_date clock (batch @ [p]) = points_by_date clock (stream @ [p])"
    using points_by_date_close [of current clock p past] c assms(2)
    by (simp add: points_by_date_snoc)
  then show ?thesis unfolding curves_agree_def by (intro exI [of _ "batch @ [p]"] exI [of _ "[]"]) simp
qed

lemma curves_agree_idle:
  assumes "curves_agree clock day False batch stream"
  shows "curves_agree clock day' running batch stream"
proof -
  from assms obtain past where "batch = past" "points_by_date clock past = points_by_date clock stream"
    "past = [] \<longleftrightarrow> stream = []" "past \<noteq> [] \<longrightarrow> last past = last stream" by (auto simp: curves_agree_def)
  then show ?thesis unfolding curves_agree_def by (intro exI [of _ past] exI [of _ "[]"]) simp
qed

lemma curves_agree_mark:
  assumes "curves_agree clock (Some day) running batch stream" "session_date clock (eq_timestamp_ns p) = day"
  shows "curves_agree clock (Some day) True (batch @ [p]) stream"
proof -
  from assms(1) obtain past current where "batch = past @ current"
    "points_by_date clock past = points_by_date clock stream" "past = [] \<longleftrightarrow> stream = []"
    "past \<noteq> [] \<longrightarrow> last past = last stream" "\<forall>q\<in>set current. session_date clock (eq_timestamp_ns q) = day"
    by (auto simp: curves_agree_def)
  then show ?thesis
    unfolding curves_agree_def using assms(2) by (intro exI [of _ past] exI [of _ "current @ [p]"]) auto
qed

text \<open>Curves that agree between sessions give the same daily results and ending equity.\<close>

lemma curves_agree_daily:
  assumes "curves_agree clock day False batch stream"
  shows "daily_pnl_series rnd clock start batch = daily_pnl_series rnd clock start stream \<and>
    (batch = [] \<longleftrightarrow> stream = []) \<and> (batch \<noteq> [] \<longrightarrow> last batch = last stream)"
  using assms by (auto simp: curves_agree_def daily_pnl_series_def)

section \<open>Desks in step\<close>

lemma quiet_fields:
  assumes "quiet_desk d = quiet_desk d'"
  shows "dk_execution d = dk_execution d'" "pf_config (dk_portfolio d) = pf_config (dk_portfolio d')"
    "pf_completed_trades (dk_portfolio d) = pf_completed_trades (dk_portfolio d')"
    "pf_maximum_drawdown (dk_portfolio d) = pf_maximum_drawdown (dk_portfolio d')"
proof -
  have pf: "quiet_portfolio (dk_portfolio d) = quiet_portfolio (dk_portfolio d')"
    using assms by (metis view_desk_fields(1))
  show "dk_execution d = dk_execution d'" using assms by (metis view_desk_fields(2))
  from pf show "pf_config (dk_portfolio d) = pf_config (dk_portfolio d')"
    "pf_completed_trades (dk_portfolio d) = pf_completed_trades (dk_portfolio d')"
    "pf_maximum_drawdown (dk_portfolio d) = pf_maximum_drawdown (dk_portfolio d')"
    by (cases "dk_portfolio d"; cases "dk_portfolio d'"; simp add: quiet_portfolio_def)+
qed

text \<open>An operation that a view commutes with and that keeps the marks.\<close>

lemma both_operations:
  assumes "\<And>d. f (quiet_desk d) = viewed quiet_portfolio (f d)" "quiet_desk d = quiet_desk d'"
    and "\<And>d x d1. f d = Inr (x, d1) \<Longrightarrow> marks_of d1 = marks_of d"
  obtains e where "f d = Inl e" "f d' = Inl e"
  | x d1 d1' where "f d = Inr (x, d1)" "f d' = Inr (x, d1')" "quiet_desk d1 = quiet_desk d1'"
      "curve_of d1 = curve_of d" "curve_of d1' = curve_of d'"
proof -
  have "viewed quiet_portfolio (f d) = viewed quiet_portfolio (f d')" using assms(1,2) by metis
  then show ?thesis
  proof (cases rule: viewed_cases)
    case (2 x d1 d1')
    then show ?thesis using that(2) assms(3) curve_of_marks by blast
  qed (rule that(1))
qed

lemma both_marks:
  assumes "quiet_desk d = quiet_desk d'"
  shows "quiet_desk (d\<lparr>dk_portfolio := snd (mark_to_market rnd ts f True (dk_portfolio d))\<rparr>) =
      quiet_desk (d'\<lparr>dk_portfolio := snd (mark_to_market rnd ts f b (dk_portfolio d'))\<rparr>) \<and>
    curve_of (d\<lparr>dk_portfolio := snd (mark_to_market rnd ts f True (dk_portfolio d))\<rparr>) =
      curve_of d @ [equity_point_of rnd ts f (dk_portfolio d)] \<and>
    curve_of (d'\<lparr>dk_portfolio := snd (mark_to_market rnd ts f b (dk_portfolio d'))\<rparr>) =
      (if b then curve_of d' @ [equity_point_of rnd ts f (dk_portfolio d)] else curve_of d')"
proof -
  have pf: "quiet_portfolio (dk_portfolio d) = quiet_portfolio (dk_portfolio d')" "dk_execution d = dk_execution d'"
    using assms quiet_fields(1) by (metis view_desk_fields(1)) (rule quiet_fields(1) [OF assms])
  have point: "equity_point_of rnd ts f (dk_portfolio d') = equity_point_of rnd ts f (dk_portfolio d)"
    using pf(1) quiet.view_equity_point by metis
  show ?thesis
    using quiet_marks [OF pf(1), of rnd ts f True b] pf(2)
    by (simp add: view_desk_def mark_to_market_def Let_def point)
qed

lemma point_timestamp [simp]: "eq_timestamp_ns (equity_point_of rnd ts f pf) = ts"
  by (simp add: equity_point_of_def case_prod_unfold Let_def)

lemma both_close:
  assumes "quiet_desk d = quiet_desk d'"
  obtains e where "close_session rnd d fs ts = Inl e" "close_session rnd d' fs ts = Inl e"
  | d1 d1' where "close_session rnd d fs ts = Inr d1" "close_session rnd d' fs ts = Inr d1'" "quiet_desk d1 = quiet_desk d1'"
      "if fs = [] then curve_of d1 = curve_of d \<and> curve_of d1' = curve_of d'
       else \<exists>p. eq_timestamp_ns p = ts \<and> curve_of d1 = curve_of d @ [p] \<and> curve_of d1' = curve_of d' @ [p]"
proof (cases fs)
  case Nil
  then show ?thesis using assms that(2) by (simp add: close_session_def)
next
  case (Cons x rest)
  obtain k first where x: "x = (k, first)" by (cases x)
  let ?flat = "\<lambda>d. if pc_end_of_day_flatten (pf_config (dk_portfolio d))
    then flatten_positions rnd ts (LastQuotes fs) True d else Inr ([], d)"
  have close: "close_session rnd d fs ts = rbind (?flat d) (\<lambda>(_, d).
      Inr (d\<lparr>dk_portfolio := snd (mark_to_market rnd ts first True (dk_portfolio d))\<rparr>))" for d
    by (simp add: close_session_def Cons x)
  show ?thesis
  proof (rule both_operations [of ?flat d d'])
    show "?flat (quiet_desk d) = viewed quiet_portfolio (?flat d)" for d
      by (simp add: quiet.view_flatten)
    show "?flat d = Inr (x, d1) \<Longrightarrow> marks_of d1 = marks_of d" for d x d1
      using operations_keep_marks(4) by (auto split: if_splits)
  next
    fix y d1 d1'
    assume ops: "?flat d = Inr (y, d1)" "?flat d' = Inr (y, d1')" and q: "quiet_desk d1 = quiet_desk d1'"
      and curves: "curve_of d1 = curve_of d" "curve_of d1' = curve_of d'"
    let ?marked = "\<lambda>d. d\<lparr>dk_portfolio := snd (mark_to_market rnd ts first True (dk_portfolio d))\<rparr>"
    note both = both_marks [OF q, of rnd ts first True, simplified if_True curves]
    have "close_session rnd d fs ts = Inr (?marked d1)" by (simp only: close ops rbind_Inr prod.case)
    moreover have "close_session rnd d' fs ts = Inr (?marked d1')" by (simp only: close ops rbind_Inr prod.case)
    moreover have "quiet_desk (?marked d1) = quiet_desk (?marked d1')" using both by blast
    moreover have "\<exists>p. eq_timestamp_ns p = ts \<and> curve_of (?marked d1) = curve_of d @ [p] \<and> curve_of (?marked d1') = curve_of d' @ [p]"
      using both by (intro exI [of _ "equity_point_of rnd ts first (dk_portfolio d1)"]) simp
    ultimately show thesis using that(2) by (simp add: Cons)
  qed (use assms that(1) in \<open>simp_all add: close\<close>)
qed

section \<open>Replays in step\<close>

definition in_step :: "(int \<Rightarrow> local_time) \<Rightarrow> 's replay_state \<Rightarrow> 's streaming_state \<Rightarrow> bool" where
  "in_step clock s t \<longleftrightarrow>
     sv_market t = rs_market s \<and> sv_strategy t = rs_strategy s \<and> quiet_desk (rs_desk s) = quiet_desk (sv_desk t) \<and>
     sv_last_features t = rs_last_features s \<and> sv_previous_session t = map_option Dated (rs_previous_session s) \<and>
     sv_last_timestamp t = rs_last_timestamp s \<and> sv_rejected t = rs_rejected s \<and>
     sv_accepted t = int (length (rs_candidates s)) \<and>
     fold_result feature_observe (feature_accumulator_init 100000) (rs_candidates s) = Inr (sv_features t) \<and>
     sv_candidates t = foldl (candidate_observe clock) candidate_accumulator_init (rs_candidates s) \<and>
     curves_agree clock (rs_previous_session s) (rs_last_features s \<noteq> []) (curve_of (rs_desk s)) (curve_of (sv_desk t)) \<and>
     (case rs_previous_session s of None \<Rightarrow> rs_last_features s = []
      | Some day \<Rightarrow> session_date clock (rs_last_timestamp s) = day)"

lemma in_step_change:
  assumes "in_step clock s t" "se_reset_each_session (bc_session c)" "session_date clock ts = day"
  shows "case change_session rnd fac c day s of
      Inl e \<Rightarrow> streaming_change rnd fac (Dated day) t = Inl e
    | Inr s' \<Rightarrow> \<exists>t'. streaming_change rnd fac (Dated day) t = Inr t' \<and> sv_counters t' = sv_counters t \<and>
        sv_input_events t' = sv_input_events t \<and> rs_candidates s' = rs_candidates s \<and>
        in_step clock (s'\<lparr>rs_previous_session := Some day, rs_last_timestamp := ts\<rparr>)
          (t'\<lparr>sv_previous_session := Some (Dated day), sv_last_timestamp := ts\<rparr>)"
proof (cases "rs_previous_session s = None \<or> rs_previous_session s = Some day")
  case True
  have "curves_agree clock (Some day) (rs_last_features s \<noteq> []) (curve_of (rs_desk s)) (curve_of (sv_desk t))"
    using True assms(1) curves_agree_idle [of clock None _ _ "Some day"] by (auto simp: in_step_def)
  then show ?thesis
    using True assms(1,3) by (auto simp: in_step_def change_session_def streaming_change_def)
next
  case False
  then obtain previous where previous: "rs_previous_session s = Some previous" "previous \<noteq> day" by auto
  note s = assms(1) [unfolded in_step_def]
  from s have "quiet_desk (rs_desk s) = quiet_desk (sv_desk t)" by blast
  then show ?thesis
  proof (rule both_close [where rnd = rnd and fs = "rs_last_features s" and ts = "rs_last_timestamp s"])
    fix e
    assume "close_session rnd (rs_desk s) (rs_last_features s) (rs_last_timestamp s) = Inl e"
      "close_session rnd (sv_desk t) (rs_last_features s) (rs_last_timestamp s) = Inl e"
    then show ?thesis
      using s previous by (simp add: change_session_def streaming_change_def streaming_close_def)
  next
    fix d1 d1'
    assume d1: "close_session rnd (rs_desk s) (rs_last_features s) (rs_last_timestamp s) = Inr d1"
      "close_session rnd (sv_desk t) (rs_last_features s) (rs_last_timestamp s) = Inr d1'" "quiet_desk d1 = quiet_desk d1'"
      and curves: "if rs_last_features s = [] then curve_of d1 = curve_of (rs_desk s) \<and> curve_of d1' = curve_of (sv_desk t)
       else \<exists>p. eq_timestamp_ns p = rs_last_timestamp s \<and> curve_of d1 = curve_of (rs_desk s) @ [p] \<and>
         curve_of d1' = curve_of (sv_desk t) @ [p]"
    have "curves_agree clock (Some day) False (curve_of d1) (curve_of d1')"
      using curves s previous curves_agree_close [of clock previous "curve_of (rs_desk s)" "curve_of (sv_desk t)"]
        curves_agree_idle [of clock "Some previous"]
      by (cases "rs_last_features s = []") auto
    moreover have "curve_of (desk_clear d1) = curve_of d1" "curve_of (desk_clear d1') = curve_of d1'"
      by (simp_all add: desk_clear_def)
    ultimately show ?thesis
      using s previous d1 quiet_clear [OF d1(3)] assms(2,3)
      by (simp add: change_session_def streaming_change_def streaming_close_def in_step_def)
  qed
qed

text \<open>Statistics of the candidates: \<open>Inl\<close> when a value does not fit the arrays.\<close>

abbreviation candidate_statistics :: "candidate_signal list \<Rightarrow> feature_accumulator result" where
  "candidate_statistics \<equiv> fold_result feature_observe (feature_accumulator_init 100000)"

lemma statistics_snoc:
  "candidate_statistics cands = Inr features \<Longrightarrow> candidate_statistics (cands @ [cand]) = feature_observe features cand"
  by (simp add: fold_result_append) (cases "feature_observe features cand"; simp)

lemmas both_risk = both_operations
  [where f = "evaluate_risk rnd ts f q" for rnd ts f q, OF quiet.view_evaluate_risk _ operations_keep_marks(2)]

lemmas both_consider = both_operations
  [where f = "consider_candidate rnd cand q" for rnd cand q, OF quiet.view_consider _ operations_keep_marks(3)]

text \<open>One result of the two loops: alike, unless the statistics of the candidates fail.\<close>

definition same_outcome ::
  "(int \<Rightarrow> local_time) \<Rightarrow> 's replay_state result \<Rightarrow> 's streaming_state result \<Rightarrow> ('s streaming_state \<Rightarrow> bool) \<Rightarrow> bool" where
  "same_outcome clock batch stream P \<longleftrightarrow>
     (case batch of Inl e \<Rightarrow> \<not> is_ok stream
      | Inr s \<Rightarrow> (case candidate_statistics (rs_candidates s) of
          Inl e \<Rightarrow> stream = Inl e | Inr _ \<Rightarrow> \<exists>t. stream = Inr t \<and> in_step clock s t \<and> P t))"

lemma in_step_feature:
  assumes "in_step clock s t" "rs_previous_session s = Some day" "session_date clock (ne_timestamp_ns e) = day"
    "rs_last_timestamp s = ne_timestamp_ns e"
  shows "same_outcome clock (replay_feature rnd fac e f s) (streaming_feature rnd fac clock e f t)
    (\<lambda>t'. sv_counters t' = sv_counters t \<and> sv_input_events t' = sv_input_events t)"
proof -
  let ?q = "ne_event_type e = MSG_MARKET_QUOTE" and ?ts = "ne_timestamp_ns e"
  let ?quote = "\<lambda>d. if ?q then desk_on_quote rnd ?ts f d else Inr ([], d)"
  note s = assms(1) [unfolded in_step_def]
  then have strategy: "sv_strategy t = rs_strategy s" by blast
  have "quiet_desk (rs_desk s) = quiet_desk (sv_desk t)" using s by blast
  then show ?thesis
  proof (rule both_operations [of ?quote, rotated])
    show "?quote d = Inr (x, d1) \<Longrightarrow> marks_of d1 = marks_of d" for d x d1
      using operations_keep_marks(1) by (auto split: if_splits)
    show "?quote (quiet_desk d) = viewed quiet_portfolio (?quote d)" for d by (simp add: quiet.view_on_quote)
    fix err assume "?quote (rs_desk s) = Inl err" "?quote (sv_desk t) = Inl err"
    then show ?thesis by (cases ?q) (simp_all add: replay_feature_def streaming_feature_def same_outcome_def Let_def)
  next
    fix x1 d1 d1'
    assume 1: "?quote (rs_desk s) = Inr (x1, d1)" "?quote (sv_desk t) = Inr (x1, d1')" "quiet_desk d1 = quiet_desk d1'"
      "curve_of d1 = curve_of (rs_desk s)" "curve_of d1' = curve_of (sv_desk t)"
    show ?thesis
    proof (rule both_risk [OF 1(3), of rnd ?ts f ?q])
      fix err assume "evaluate_risk rnd ?ts f ?q d1 = Inl err" "evaluate_risk rnd ?ts f ?q d1' = Inl err"
      with 1(1,2) show ?thesis by (cases ?q) (simp_all add: replay_feature_def streaming_feature_def same_outcome_def Let_def)
    next
      fix x2 d2 d2'
      assume 2: "evaluate_risk rnd ?ts f ?q d1 = Inr (x2, d2)" "evaluate_risk rnd ?ts f ?q d1' = Inr (x2, d2')"
        "quiet_desk d2 = quiet_desk d2'" "curve_of d2 = curve_of d1" "curve_of d2' = curve_of d1'"
      note parts = replay_feature_def streaming_feature_def same_outcome_def Let_def
      show ?thesis
      proof (cases "sf_evaluate fac (rs_strategy s) f")
        case (Inl err)
        then show ?thesis using 1(1,2) 2(1,2) strategy by (cases ?q) (simp_all add: parts)
      next
        case (Inr r)
        obtain sig st where st: "sf_evaluate fac (rs_strategy s) f = Inr (sig, st)" using Inr by (cases r) simp
        let ?cand = "candidate_of e sig f"
        have stats: "candidate_statistics (rs_candidates s @ [?cand]) = feature_observe (sv_features t) ?cand"
          using s statistics_snoc by blast
        show ?thesis
        proof (rule both_consider [OF 2(3), of rnd ?cand ?q])
          fix err assume "consider_candidate rnd ?cand ?q d2 = Inl err" "consider_candidate rnd ?cand ?q d2' = Inl err"
          then show ?thesis using 1(1,2) 2(1,2) strategy st
            by (cases ?q; cases "feature_observe (sv_features t) ?cand") (simp_all add: parts)
        next
          fix x3 d3 d3'
          assume 3: "consider_candidate rnd ?cand ?q d2 = Inr (x3, d3)" "consider_candidate rnd ?cand ?q d2' = Inr (x3, d3')"
            "quiet_desk d3 = quiet_desk d3'" "curve_of d3 = curve_of d2" "curve_of d3' = curve_of d2'"
          note marks = both_marks [OF 3(3), of rnd ?ts f False, simplified if_False]
          have "curves_agree clock (Some day) True (curve_of (rs_desk s) @ [equity_point_of rnd ?ts f (dk_portfolio d3)])
              (curve_of (sv_desk t))"
            using s assms(2,3) by (intro curves_agree_mark [of clock day "rs_last_features s \<noteq> []"]) simp_all
          note agree = this
          let ?last = "AList.update (ne_symbol_id e) f (rs_last_features s)"
          have "\<exists>s'. replay_feature rnd fac e f s = Inr s' \<and> rs_market s' = rs_market s \<and> rs_strategy s' = st \<and>
              rs_desk s' = d3\<lparr>dk_portfolio := snd (mark_to_market rnd ?ts f True (dk_portfolio d3))\<rparr> \<and>
              rs_candidates s' = rs_candidates s @ [?cand] \<and> rs_last_features s' = ?last \<and>
              rs_previous_session s' = rs_previous_session s \<and> rs_last_timestamp s' = rs_last_timestamp s \<and>
              rs_rejected s' = rs_rejected s"
            using 1(1) 2(1) 3(1) st by (cases ?q) (simp_all add: replay_feature_def Let_def)
          then obtain s' where s': "replay_feature rnd fac e f s = Inr s'" "rs_market s' = rs_market s" "rs_strategy s' = st"
              "rs_desk s' = d3\<lparr>dk_portfolio := snd (mark_to_market rnd ?ts f True (dk_portfolio d3))\<rparr>"
              "rs_candidates s' = rs_candidates s @ [?cand]" "rs_last_features s' = ?last"
              "rs_previous_session s' = rs_previous_session s" "rs_last_timestamp s' = rs_last_timestamp s"
              "rs_rejected s' = rs_rejected s" by blast
          show ?thesis
          proof (cases "feature_observe (sv_features t) ?cand")
            case (Inl err)
            then have "streaming_feature rnd fac clock e f t = Inl err"
              using 1(2) 2(2) st strategy by (cases ?q) (simp_all add: streaming_feature_def Let_def)
            then show ?thesis using stats Inl by (simp add: same_outcome_def s'(1,5))
          next
            case (Inr features)
            have "\<exists>t'. streaming_feature rnd fac clock e f t = Inr t' \<and> sv_market t' = sv_market t \<and> sv_strategy t' = st \<and>
                sv_desk t' = d3'\<lparr>dk_portfolio := snd (mark_to_market rnd ?ts f False (dk_portfolio d3'))\<rparr> \<and>
                sv_features t' = features \<and> sv_candidates t' = candidate_observe clock (sv_candidates t) ?cand \<and>
                sv_last_features t' = AList.update (ne_symbol_id e) f (sv_last_features t) \<and>
                sv_previous_session t' = sv_previous_session t \<and> sv_last_timestamp t' = sv_last_timestamp t \<and>
                sv_rejected t' = sv_rejected t \<and> sv_accepted t' = sv_accepted t + 1 \<and>
                sv_counters t' = sv_counters t \<and> sv_input_events t' = sv_input_events t"
              using 1(2) 2(2) 3(2) st strategy Inr by (cases ?q) (simp_all add: streaming_feature_def Let_def)
            then obtain t' where t': "streaming_feature rnd fac clock e f t = Inr t'" "sv_market t' = sv_market t" "sv_strategy t' = st"
                "sv_desk t' = d3'\<lparr>dk_portfolio := snd (mark_to_market rnd ?ts f False (dk_portfolio d3'))\<rparr>"
                "sv_features t' = features" "sv_candidates t' = candidate_observe clock (sv_candidates t) ?cand"
                "sv_last_features t' = AList.update (ne_symbol_id e) f (sv_last_features t)"
                "sv_previous_session t' = sv_previous_session t" "sv_last_timestamp t' = sv_last_timestamp t"
                "sv_rejected t' = sv_rejected t" "sv_accepted t' = sv_accepted t + 1"
                "sv_counters t' = sv_counters t" "sv_input_events t' = sv_input_events t" by blast
            have "quiet_desk (rs_desk s') = quiet_desk (sv_desk t')" using marks by (simp only: s'(4) t'(4))
            moreover have "curves_agree clock (rs_previous_session s') True (curve_of (rs_desk s')) (curve_of (sv_desk t'))"
              using agree marks 1(4,5) 2(4,5) 3(4,5) by (simp only: s'(4,7) t'(4) assms(2))
            moreover have "?last \<noteq> []" by (cases "rs_last_features s") auto
            ultimately have "in_step clock s' t'"
              unfolding in_step_def using s stats Inr assms(2-4) by (simp add: s'(2,3,5-9) t'(2,3,5-11))
            then show ?thesis using stats Inr by (simp add: same_outcome_def s'(1,5) t'(1,12,13))
          qed
        qed
      qed
    qed
  qed
qed

section \<open>One event\<close>

text \<open>What both loops do once the session is right: the market model, then the rest.\<close>

definition replay_accept ::
  "(rat \<Rightarrow> rat) \<Rightarrow> 's strategy_factory \<Rightarrow> normalized_event \<Rightarrow> 's replay_state \<Rightarrow> 's replay_state result" where
  "replay_accept rnd fac e s =
     rbind (to_market_event e None) (\<lambda>event.
     rbind (process_event (rs_market s) event) (\<lambda>(outcome, market).
     let s = s\<lparr>rs_market := market\<rparr> in
     case oc_feature outcome of
       None \<Rightarrow> Inr (s\<lparr>rs_rejected := rs_rejected s + 1\<rparr>)
     | Some feature \<Rightarrow>
         if oc_kind outcome \<noteq> ''feature'' then Inr (s\<lparr>rs_rejected := rs_rejected s + 1\<rparr>)
         else replay_feature rnd fac e feature s))"

definition streaming_accept ::
  "(rat \<Rightarrow> rat) \<Rightarrow> 's strategy_factory \<Rightarrow> (int \<Rightarrow> local_time) \<Rightarrow> normalized_event \<Rightarrow>
     's streaming_state \<Rightarrow> 's streaming_state result" where
  "streaming_accept rnd fac clock e s =
     rbind (to_market_event e None) (\<lambda>event.
     rbind (process_event (sv_market s) event) (\<lambda>(outcome, market).
     let s = s\<lparr>sv_market := market\<rparr> in
     case oc_feature outcome of
       None \<Rightarrow> Inr (s\<lparr>sv_rejected := sv_rejected s + 1\<rparr>)
     | Some feature \<Rightarrow>
         if oc_kind outcome \<noteq> ''feature'' then Inr (s\<lparr>sv_rejected := sv_rejected s + 1\<rparr>)
         else streaming_feature rnd fac clock e feature s))"

lemma replay_event_accept:
  "replay_event rnd fac c clock s e =
     rbind (change_session rnd fac c (session_date clock (ne_timestamp_ns e)) s) (\<lambda>s.
       replay_accept rnd fac e (s\<lparr>rs_previous_session := Some (session_date clock (ne_timestamp_ns e)),
         rs_last_timestamp := ne_timestamp_ns e\<rparr>))"
  by (simp add: replay_event_def replay_accept_def Let_def)

lemma streaming_event_accept:
  "streaming_event rnd fac clock presequenced s e =
     (let (session, s) = streaming_session clock presequenced e (s\<lparr>sv_input_events := sv_input_events s + 1\<rparr>) in
      rbind (streaming_change rnd fac session s) (\<lambda>s.
      let (e, s) = streaming_number presequenced session e
            (s\<lparr>sv_previous_session := Some session, sv_last_timestamp := ne_timestamp_ns e\<rparr>)
      in streaming_accept rnd fac clock e s))"
  by (simp add: streaming_event_def streaming_accept_def Let_def)

lemma in_step_accept:
  assumes "in_step clock s t" "rs_previous_session s = Some day" "session_date clock (ne_timestamp_ns e) = day"
    "rs_last_timestamp s = ne_timestamp_ns e"
  shows "same_outcome clock (replay_accept rnd fac e s) (streaming_accept rnd fac clock e t)
    (\<lambda>t'. sv_counters t' = sv_counters t \<and> sv_input_events t' = sv_input_events t)"
proof (cases "to_market_event e None")
  case (Inl err)
  then show ?thesis by (simp add: replay_accept_def streaming_accept_def same_outcome_def)
next
  case (Inr event)
  note s = assms(1) [unfolded in_step_def]
  then have market: "sv_market t = rs_market s"
    and stats: "candidate_statistics (rs_candidates s) = Inr (sv_features t)" by blast+
  show ?thesis
  proof (cases "process_event (rs_market s) event")
    case (Inl err)
    then show ?thesis using Inr market by (simp add: replay_accept_def streaming_accept_def same_outcome_def)
  next
    case (Inr r)
    then obtain outcome m where r: "process_event (rs_market s) event = Inr (outcome, m)" by (cases r) simp
    let ?s = "s\<lparr>rs_market := m\<rparr>" and ?t = "t\<lparr>sv_market := m\<rparr>"
    have step: "in_step clock ?s ?t" using assms(1) by (simp add: in_step_def cong: option.case_cong)
    have rejected: "same_outcome clock (Inr (?s\<lparr>rs_rejected := rs_rejected ?s + 1\<rparr>)) (Inr (?t\<lparr>sv_rejected := sv_rejected ?t + 1\<rparr>))
        (\<lambda>t'. sv_counters t' = sv_counters t \<and> sv_input_events t' = sv_input_events t)"
      using assms(1) stats by (simp add: same_outcome_def in_step_def cong: option.case_cong)
    note runs = replay_accept_def streaming_accept_def \<open>to_market_event e None = Inr event\<close> market r rbind_Inr prod.case Let_def
    show ?thesis
    proof (cases "oc_feature outcome")
      case None
      then show ?thesis unfolding runs by (simp only: option.case rejected)
    next
      case (Some f)
      show ?thesis
      proof (cases "oc_kind outcome = ''feature''")
        case True
        have "same_outcome clock (replay_feature rnd fac e f ?s) (streaming_feature rnd fac clock e f ?t)
            (\<lambda>t'. sv_counters t' = sv_counters t \<and> sv_input_events t' = sv_input_events t)"
          using in_step_feature [OF step, of day e rnd fac f] assms(2-4) by simp
        then show ?thesis unfolding runs by (simp only: Some option.case True simp_thms if_False)
      next
        case False
        then show ?thesis unfolding runs by (simp only: Some option.case not_False_eq_True if_True rejected)
      qed
    qed
  qed
qed

lemma in_step_event:
  assumes "in_step clock s t" "se_reset_each_session (bc_session c)" "ne_sequence e = None"
    and "n = (case sv_counters t (Dated (session_date clock (ne_timestamp_ns e)), ne_symbol_id e) of None \<Rightarrow> 0 | Some k \<Rightarrow> k) + 1"
  shows "same_outcome clock (replay_event rnd fac c clock s (with_sequence e n)) (streaming_event rnd fac clock False t e)
    (\<lambda>t'. sv_counters t' = (sv_counters t)((Dated (session_date clock (ne_timestamp_ns e)), ne_symbol_id e) \<mapsto> n) \<and>
      sv_input_events t' = sv_input_events t + 1)"
proof -
  let ?day = "session_date clock (ne_timestamp_ns e)" and ?ts = "ne_timestamp_ns e" and ?e = "with_sequence e n"
  let ?t = "t\<lparr>sv_input_events := sv_input_events t + 1\<rparr>"
  have time: "ne_timestamp_ns ?e = ?ts" by (simp add: with_sequence_def)
  have "in_step clock s ?t" using assms(1) by (simp add: in_step_def)
  note change = in_step_change [OF this assms(2) refl, of rnd fac ?ts]
  show ?thesis
  proof (cases "change_session rnd fac c ?day s")
    case (Inl err)
    then show ?thesis
      using change by (simp add: replay_event_accept streaming_event_accept time streaming_session_def same_outcome_def)
  next
    case (Inr s1)
    let ?s2 = "s1\<lparr>rs_previous_session := Some ?day, rs_last_timestamp := ?ts\<rparr>"
    from change Inr obtain t1 where t1: "streaming_change rnd fac (Dated ?day) ?t = Inr t1" "sv_counters t1 = sv_counters t"
      "sv_input_events t1 = sv_input_events t + 1"
      "in_step clock ?s2 (t1\<lparr>sv_previous_session := Some (Dated ?day), sv_last_timestamp := ?ts\<rparr>)"
      by auto
    let ?t2 = "t1\<lparr>sv_previous_session := Some (Dated ?day), sv_last_timestamp := ?ts,
      sv_counters := (sv_counters t1)((Dated ?day, ne_symbol_id e) \<mapsto> n)\<rparr>"
    have "in_step clock ?s2 ?t2" using t1(4) by (simp add: in_step_def)
    from in_step_accept [OF this, of ?day ?e rnd fac]
    have "same_outcome clock (replay_accept rnd fac ?e ?s2) (streaming_accept rnd fac clock ?e ?t2)
        (\<lambda>t'. sv_counters t' = (sv_counters t)((Dated ?day, ne_symbol_id e) \<mapsto> n) \<and>
          sv_input_events t' = sv_input_events t + 1)"
      by (simp add: time t1(2,3))
    moreover have "streaming_event rnd fac clock False t e = streaming_accept rnd fac clock ?e ?t2"
      by (simp add: streaming_event_accept streaming_session_def streaming_number_def t1(1,2) assms(4) Let_def)
    moreover have "replay_event rnd fac c clock s ?e = replay_accept rnd fac ?e ?s2"
      by (simp add: replay_event_accept time Inr del: rbind_assoc)
    ultimately show ?thesis by simp
  qed
qed

section \<open>The loop\<close>

lemma change_session_candidates:
  "change_session rnd fac c day s = Inr s' \<Longrightarrow> rs_candidates s' = rs_candidates s"
  using change_session_counts by blast

lemma replay_event_candidates:
  assumes "replay_event rnd fac c clock s e = Inr s'"
  shows "\<exists>new. rs_candidates s' = rs_candidates s @ new \<and> subseq (map cs_timestamp_ns new) [ne_timestamp_ns e]"
proof -
  from replay_event_cases [OF assms] obtain s1 market s2 where
    s1: "change_session rnd fac c (session_date clock (ne_timestamp_ns e)) s = Inr s1" and
    s2: "s2 = s1\<lparr>rs_previous_session := Some (session_date clock (ne_timestamp_ns e)),
      rs_last_timestamp := ne_timestamp_ns e, rs_market := market\<rparr>" and
    rest: "s' = s2\<lparr>rs_rejected := rs_rejected s2 + 1\<rparr> \<or> (\<exists>f. replay_feature rnd fac e f s2 = Inr s')"
    by blast
  have same: "rs_candidates s2 = rs_candidates s" using change_session_candidates [OF s1] by (simp add: s2)
  show ?thesis
  proof (cases "s' = s2\<lparr>rs_rejected := rs_rejected s2 + 1\<rparr>")
    case True
    then show ?thesis by (intro exI [of _ "[]"]) (simp add: same list_emb_Nil)
  next
    case False
    with rest obtain f where "replay_feature rnd fac e f s2 = Inr s'" by blast
    then obtain sig where "rs_candidates s' = rs_candidates s2 @ [candidate_of e sig f]"
      by (auto simp: replay_feature_def Let_def rbind_eq_Inr split: if_splits)
    then show ?thesis by (intro exI [of _ "[candidate_of e sig f]"]) (simp add: same candidate_of_def)
  qed
qed

lemma replay_loop_candidates:
  "fold_result (replay_event rnd fac c clock) s es = Inr s' \<Longrightarrow>
   \<exists>new. rs_candidates s' = rs_candidates s @ new \<and> subseq (map cs_timestamp_ns new) (map ne_timestamp_ns es)"
proof (induction es arbitrary: s)
  case Nil
  then show ?case by (simp add: list_emb_Nil)
next
  case (Cons e es)
  then obtain s1 where s1: "replay_event rnd fac c clock s e = Inr s1" "fold_result (replay_event rnd fac c clock) s1 es = Inr s'"
    by (auto simp: rbind_eq_Inr)
  from replay_event_candidates [OF s1(1)] obtain new1 where
    1: "rs_candidates s1 = rs_candidates s @ new1" "subseq (map cs_timestamp_ns new1) [ne_timestamp_ns e]" by blast
  from Cons.IH [OF s1(2)] obtain new2 where
    2: "rs_candidates s' = rs_candidates s1 @ new2" "subseq (map cs_timestamp_ns new2) (map ne_timestamp_ns es)" by blast
  from list_emb_append_mono [OF 1(2) 2(2)]
  show ?case by (intro exI [of _ "new1 @ new2"]) (simp add: 1(1) 2(1))
qed

lemma in_step_loop:
  assumes "in_step clock s t" "se_reset_each_session (bc_session c)" "\<forall>e\<in>set es. ne_sequence e = None"
    and "\<And>d k. sv_counters t (Dated d, k) = counters (Some d, k)"
  shows "same_outcome clock
    (fold_result (replay_event rnd fac c clock) s (assign_loop (replay_key True (Some (session_date clock))) counters es))
    (fold_result (streaming_event rnd fac clock False) t es)
    (\<lambda>t'. sv_input_events t' = sv_input_events t + int (length es))"
  using assms(1,3,4)
proof (induction es arbitrary: s t counters)
  case Nil
  then have "candidate_statistics (rs_candidates s) = Inr (sv_features t)" by (simp add: in_step_def)
  with Nil show ?case by (simp add: same_outcome_def)
next
  case (Cons e es)
  let ?day = "session_date clock (ne_timestamp_ns e)" and ?key = "replay_key True (Some (session_date clock))"
  let ?n = "(case counters (Some ?day, ne_symbol_id e) of None \<Rightarrow> 0 | Some k \<Rightarrow> k) + 1"
  let ?counters = "counters((Some ?day, ne_symbol_id e) \<mapsto> ?n)"
  let ?rest = "assign_loop ?key ?counters es"
  have e: "ne_sequence e = None" using Cons.prems(2) by simp
  have assigned: "assign_loop ?key counters (e # es) = with_sequence e ?n # ?rest"
    by (simp add: e replay_key_def Let_def)
  have step: "same_outcome clock (replay_event rnd fac c clock s (with_sequence e ?n)) (streaming_event rnd fac clock False t e)
      (\<lambda>t'. sv_counters t' = (sv_counters t)((Dated ?day, ne_symbol_id e) \<mapsto> ?n) \<and> sv_input_events t' = sv_input_events t + 1)"
    by (rule in_step_event [OF Cons.prems(1) assms(2) e]) (simp add: Cons.prems(3))
  show ?case
  proof (cases "replay_event rnd fac c clock s (with_sequence e ?n)")
    case (Inl err)
    then show ?thesis
      using step unfolding assigned
      by (cases "streaming_event rnd fac clock False t e") (simp_all add: same_outcome_def)
  next
    case (Inr s1)
    show ?thesis
    proof (cases "candidate_statistics (rs_candidates s1)")
      case (Inl err)
      then have "streaming_event rnd fac clock False t e = Inl err" using step Inr by (simp add: same_outcome_def)
      moreover have "candidate_statistics (rs_candidates s') = Inl err"
        if "fold_result (replay_event rnd fac c clock) s1 ?rest = Inr s'" for s'
        using replay_loop_candidates [OF that] Inl by (auto simp: fold_result_append)
      ultimately show ?thesis
        unfolding assigned by (cases "fold_result (replay_event rnd fac c clock) s1 ?rest") (simp_all add: same_outcome_def Inr)
    next
      case (Inr features)
      then obtain t1 where t1: "streaming_event rnd fac clock False t e = Inr t1" "in_step clock s1 t1"
        "sv_counters t1 = (sv_counters t)((Dated ?day, ne_symbol_id e) \<mapsto> ?n)" "sv_input_events t1 = sv_input_events t + 1"
        using step \<open>replay_event rnd fac c clock s (with_sequence e ?n) = Inr s1\<close> by (auto simp: same_outcome_def)
      have "sv_counters t1 (Dated d, k) = ?counters (Some d, k)" for d k by (simp add: t1(3) Cons.prems(3))
      note counters = this
      have "same_outcome clock (fold_result (replay_event rnd fac c clock) s1 ?rest)
          (fold_result (streaming_event rnd fac clock False) t1 es) (\<lambda>t'. sv_input_events t' = sv_input_events t1 + int (length es))"
        by (rule Cons.IH [OF t1(2)]) (use Cons.prems(2) counters in simp_all)
      moreover have "sv_input_events t1 + int (length es) = sv_input_events t + int (length (e # es))" by (simp add: t1(4))
      ultimately show ?thesis
        unfolding assigned using \<open>replay_event rnd fac c clock s (with_sequence e ?n) = Inr s1\<close> t1(1) by simp
    qed
  qed
qed

text \<open>The end of the run.\<close>

lemma in_step_end:
  assumes "in_step clock s t"
  shows "case close_session rnd (rs_desk s) (rs_last_features s) (rs_last_timestamp s) of
      Inl e \<Rightarrow> streaming_end rnd t = Inl e
    | Inr d \<Rightarrow> \<exists>t'. streaming_end rnd t = Inr t' \<and>
        pf_completed_trades (dk_portfolio (sv_desk t')) = pf_completed_trades (dk_portfolio d) \<and>
        pf_maximum_drawdown (dk_portfolio (sv_desk t')) = pf_maximum_drawdown (dk_portfolio d) \<and>
        dk_execution (sv_desk t') = snd (execution_flush (dk_execution d)) \<and>
        curves_agree clock None False (curve_of d) (curve_of (sv_desk t')) \<and>
        sv_features t' = sv_features t \<and> sv_candidates t' = sv_candidates t \<and> sv_accepted t' = sv_accepted t \<and>
        sv_rejected t' = sv_rejected t \<and> sv_input_events t' = sv_input_events t"
proof -
  note s = assms [unfolded in_step_def]
  then have q: "quiet_desk (rs_desk s) = quiet_desk (sv_desk t)" by blast
  show ?thesis
  proof (cases "rs_last_features s = []")
    case True
    have "curves_agree clock None False (curve_of (rs_desk s)) (curve_of (sv_desk t))"
      using s True curves_agree_idle by fastforce
    then show ?thesis
      using True s quiet_fields [OF q]
      by (simp add: streaming_end_def close_session_def execution_flush_def case_prod_unfold)
  next
    case False
    then obtain day where day: "rs_previous_session s = Some day" "session_date clock (rs_last_timestamp s) = day"
      using s by (auto split: option.splits)
    from q show ?thesis
    proof (rule both_close [where rnd = rnd and fs = "rs_last_features s" and ts = "rs_last_timestamp s"])
      fix err
      assume "close_session rnd (rs_desk s) (rs_last_features s) (rs_last_timestamp s) = Inl err"
        "close_session rnd (sv_desk t) (rs_last_features s) (rs_last_timestamp s) = Inl err"
      then show ?thesis using s False by (simp add: streaming_end_def streaming_close_def)
    next
      fix d1 d1'
      assume d1: "close_session rnd (rs_desk s) (rs_last_features s) (rs_last_timestamp s) = Inr d1"
        "close_session rnd (sv_desk t) (rs_last_features s) (rs_last_timestamp s) = Inr d1'" "quiet_desk d1 = quiet_desk d1'"
        and curves: "if rs_last_features s = [] then curve_of d1 = curve_of (rs_desk s) \<and> curve_of d1' = curve_of (sv_desk t)
         else \<exists>p. eq_timestamp_ns p = rs_last_timestamp s \<and> curve_of d1 = curve_of (rs_desk s) @ [p] \<and>
           curve_of d1' = curve_of (sv_desk t) @ [p]"
      have "curves_agree clock None False (curve_of d1) (curve_of d1')"
        using curves s False day curves_agree_close [of clock day "curve_of (rs_desk s)" "curve_of (sv_desk t)"] by auto
      then show ?thesis
        using d1(1,2) False s quiet_fields [OF d1(3)]
        by (simp add: streaming_end_def streaming_close_def desk_clear_def)
    qed
  qed
qed

section \<open>The whole run\<close>

lemma in_step_start: "in_step clock (replay_start c m st) (streaming_start c m st)"
  by (simp add: in_step_def replay_start_def streaming_start_def portfolio_init_def quiet_portfolio_def view_desk_def
      curves_agree_def points_by_date_def)

lemma subseq_sorted: "subseq ys xs \<Longrightarrow> sorted (map f xs) \<Longrightarrow> sorted (map f ys)"
proof (induction rule: list_emb.induct)
  case (list_emb_Cons2 x y xs ys)
  have "set xs \<subseteq> set ys" using list_emb_Cons2.hyps(2) by (induction rule: list_emb.induct) auto
  with list_emb_Cons2 show ?case by auto
qed simp_all

lemma filtered_sorted:
  assumes "filter_events c clock events = Inr es"
  shows "sorted (map ne_timestamp_ns es)"
proof -
  have sub: "filter_result p xs = Inr ys \<Longrightarrow> subseq ys xs" for p :: "normalized_event \<Rightarrow> bool result" and xs ys
    by (induction xs arbitrary: ys) (auto simp: rbind_eq_Inr split: if_splits)
  have "sorted_wrt (\<lambda>a b. event_key a \<le> event_key b) (sort_events events)"
    using sorted_sort_key [of event_key events] by (simp only: sort_events_def sorted_map)
  then have "sorted_wrt (\<lambda>a b. ne_timestamp_ns a \<le> ne_timestamp_ns b) (sort_events events)"
    by (rule sorted_wrt_mono_rel [rotated]) (auto simp: event_key_def less_eq_prod_def)
  then have "sorted (map ne_timestamp_ns (sort_events events))" by (simp only: sorted_map)
  moreover have "subseq es (sort_events events)" using assms sub by (simp add: filter_events_def)
  ultimately show ?thesis using subseq_sorted by blast
qed

lemma streaming_finish:
  assumes "same_outcome clock (Inr s) stream (\<lambda>t. sv_input_events t = n)"
  shows "case close_session rnd (rs_desk s) (rs_last_features s) (rs_last_timestamp s) of
      Inl e \<Rightarrow> \<not> is_ok (rbind stream (streaming_end rnd))
    | Inr d \<Rightarrow> (case candidate_statistics (rs_candidates s) of
        Inl e \<Rightarrow> rbind stream (streaming_end rnd) = Inl e
      | Inr features \<Rightarrow> \<exists>t. rbind stream (streaming_end rnd) = Inr t \<and>
          pf_completed_trades (dk_portfolio (sv_desk t)) = pf_completed_trades (dk_portfolio d) \<and>
          ex_unfilled_orders (dk_execution (sv_desk t)) = ex_unfilled_orders (snd (execution_flush (dk_execution d))) \<and>
          pf_maximum_drawdown (dk_portfolio (sv_desk t)) = pf_maximum_drawdown (dk_portfolio d) \<and>
          curves_agree clock None False (curve_of d) (curve_of (sv_desk t)) \<and> sv_features t = features \<and>
          sv_candidates t = foldl (candidate_observe clock) candidate_accumulator_init (rs_candidates s) \<and>
          sv_accepted t = int (length (rs_candidates s)) \<and> sv_rejected t = rs_rejected s \<and> sv_input_events t = n)"
proof (cases "candidate_statistics (rs_candidates s)")
  case (Inl e)
  then have "stream = Inl e" using assms by (simp add: same_outcome_def)
  then show ?thesis using Inl by (simp split: sum.split)
next
  case (Inr features)
  then obtain t where t: "stream = Inr t" "in_step clock s t" "sv_input_events t = n"
    using assms by (auto simp: same_outcome_def)
  have fields: "sv_features t = features" "sv_candidates t = foldl (candidate_observe clock) candidate_accumulator_init (rs_candidates s)"
    "sv_accepted t = int (length (rs_candidates s))" "sv_rejected t = rs_rejected s"
    using t(2) Inr by (simp_all add: in_step_def)
  show ?thesis
    using in_step_end [OF t(2), of rnd] Inr
    by (cases "close_session rnd (rs_desk s) (rs_last_features s) (rs_last_timestamp s)") (auto simp: t(1,3) fields)
qed

lemma replay_candidates_sorted:
  assumes "fold_result (replay_event rnd fac c clock) (replay_start c m st) (replay_sequence c clock es) = Inr s"
    and "sorted (map ne_timestamp_ns es)"
  shows "sorted (map cs_timestamp_ns (rs_candidates s))"
proof -
  from replay_loop_candidates [OF assms(1)]
  have "subseq (map cs_timestamp_ns (rs_candidates s)) (map ne_timestamp_ns es)"
    by (simp add: replay_start_def replay_sequence_times)
  from subseq_sorted [OF this, of "\<lambda>x. x"] assms(2) show ?thesis by simp
qed

lemma metrics_agree:
  assumes "curves_agree clock None False batch stream"
  shows "trade_summary.truncate (compute_metrics rnd summed fm clock cash trades batch) =
      trade_summary.truncate (compute_metrics rnd summed fm clock cash trades stream) \<and>
    rn_ending_equity (compute_metrics rnd summed fm clock cash trades batch) =
      rn_ending_equity (compute_metrics rnd summed fm clock cash trades stream) \<and>
    rn_daily_pnl (compute_metrics rnd summed fm clock cash trades batch) =
      rn_daily_pnl (compute_metrics rnd summed fm clock cash trades stream)"
proof -
  have "trade_summary.truncate (compute_metrics rnd summed fm clock cash trades curve) = trade_summary_of rnd summed trades" for curve
    by (simp add: compute_metrics_def Let_def case_prod_unfold trade_summary.defs)
  with curves_agree_daily [OF assms] show ?thesis by (simp add: compute_metrics_fields)
qed

lemma report_fields:
  "rp_run (report_of_run rnd summed fm item_text c clock events run) = run"
  "rp_counts (report_of_run rnd summed fm item_text c clock events run) = counts_of events run"
  "rp_summary (report_of_run rnd summed fm item_text c clock events run) =
     compute_metrics rnd summed fm clock (pc_starting_cash (bc_portfolio c))
       (pf_completed_trades (dk_portfolio (rs_desk (br_final run)))) (curve_of (rs_desk (br_final run)))"
  by (simp_all add: report_of_run_def Let_def case_prod_unfold)

lemma streaming_fields:
  assumes "m = compute_metrics rnd summed fm clock (pc_starting_cash (bc_portfolio c))
       (pf_completed_trades (dk_portfolio (sv_desk t))) (curve_of (sv_desk t))"
    and "r = streaming_result_of rnd summed fm item_text c clock t"
  shows "sr_trades r = pf_completed_trades (dk_portfolio (sv_desk t))"
    "trade_summary.truncate (sr_summary r) = trade_summary.truncate m" "rn_ending_equity (sr_summary r) = rn_ending_equity m"
    "rn_daily_pnl (sr_summary r) = rn_daily_pnl m"
    "sr_counts r = \<lparr>ct_input_events = sv_input_events t, ct_session_events = sv_input_events t,
       ct_accepted_features = sv_accepted t, ct_rejected_events = sv_rejected t,
       ct_candidate_count = cn_candidate_count (candidate_dict rnd (sv_candidates t)), ct_unfilled_orders = sv_unfilled t\<rparr>"
    "sr_unfilled_orders r = ex_unfilled_orders (dk_execution (sv_desk t))"
    "sr_candidate_summary r = candidate_dict rnd (sv_candidates t)"
    "sr_feature_distributions r = accumulator_dict rnd (sv_features t)"
  by (simp_all add: assms streaming_result_of_def Let_def case_prod_unfold trade_summary.defs)

lemma candidate_summary_count:
  "cn_candidate_count (candidate_summary rnd clock cands) = int (length (filter (\<lambda>cand. cs_action cand \<noteq> 0) cands))"
  by (simp add: candidate_summary_def acted_def Let_def)

section \<open>The drawdown\<close>

text \<open>A law of the marks that also the mark outside the curve keeps.\<close>

locale streaming_mark_law = mark_law +
  assumes law_quiet_mark: "law (marks_of d) \<Longrightarrow>
    law (marks_of (d\<lparr>dk_portfolio := snd (mark_to_market rnd ts f False (dk_portfolio d))\<rparr>))"
begin

lemma streaming_close_law:
  "streaming_close rnd ts t = Inr t' \<Longrightarrow> law (marks_of (sv_desk t)) \<Longrightarrow> law (marks_of (sv_desk t'))"
  by (auto simp: streaming_close_def rbind_eq_Inr dest!: close_law)

lemma streaming_change_law:
  "streaming_change rnd fac session t = Inr t' \<Longrightarrow> law (marks_of (sv_desk t)) \<Longrightarrow> law (marks_of (sv_desk t'))"
  by (auto simp: streaming_change_def rbind_eq_Inr dest!: streaming_close_law split: option.splits if_splits)

lemma streaming_feature_law:
  assumes "streaming_feature rnd fac clock e f t = Inr t'" "law (marks_of (sv_desk t))"
  shows "law (marks_of (sv_desk t'))"
proof -
  obtain x d1 y d2 cand z d3 where steps:
    "(if ne_event_type e = MSG_MARKET_QUOTE then desk_on_quote rnd (ne_timestamp_ns e) f (sv_desk t) else Inr ([], sv_desk t)) = Inr (x, d1)"
    "evaluate_risk rnd (ne_timestamp_ns e) f (ne_event_type e = MSG_MARKET_QUOTE) d1 = Inr (y, d2)"
    "consider_candidate rnd cand (ne_event_type e = MSG_MARKET_QUOTE) d2 = Inr (z, d3)"
    "sv_desk t' = d3\<lparr>dk_portfolio := snd (mark_to_market rnd (ne_timestamp_ns e) f False (dk_portfolio d3))\<rparr>"
    using assms(1) by (auto simp: streaming_feature_def Let_def rbind_eq_Inr split: if_splits)
  then have "marks_of d3 = marks_of (sv_desk t)"
    using operations_keep_marks(1-3) by (auto split: if_splits)
  then show ?thesis unfolding steps(4) using assms(2) law_quiet_mark by metis
qed

lemma streaming_event_law:
  assumes "streaming_event rnd fac clock presequenced t e = Inr t'" "law (marks_of (sv_desk t))"
  shows "law (marks_of (sv_desk t'))"
proof -
  let ?t = "t\<lparr>sv_input_events := sv_input_events t + 1\<rparr>"
  obtain session s1 where 1: "streaming_session clock presequenced e ?t = (session, s1)" by fastforce
  then have s1: "sv_desk s1 = sv_desk t" by (auto simp: streaming_session_def Let_def split: if_splits)
  obtain s2 where 2: "streaming_change rnd fac session s1 = Inr s2"
    using assms(1) 1 by (cases "streaming_change rnd fac session s1") (simp_all add: streaming_event_accept)
  let ?s2 = "s2\<lparr>sv_previous_session := Some session, sv_last_timestamp := ne_timestamp_ns e\<rparr>"
  obtain e' s3 where 3: "streaming_number presequenced session e ?s2 = (e', s3)" by fastforce
  then have s3: "sv_desk s3 = sv_desk s2" by (auto simp: streaming_number_def Let_def split: if_splits)
  have s3_law: "law (marks_of (sv_desk s3))" using streaming_change_law [OF 2] s1 s3 assms(2) by simp
  have "streaming_accept rnd fac clock e' s3 = Inr t'" using assms(1) by (simp add: streaming_event_accept 1 2 3)
  then obtain m where "t' = s3\<lparr>sv_market := m, sv_rejected := sv_rejected s3 + 1\<rparr> \<or>
      (\<exists>f. streaming_feature rnd fac clock e' f (s3\<lparr>sv_market := m\<rparr>) = Inr t')"
    by (auto simp: streaming_accept_def Let_def rbind_eq_Inr split: option.splits if_splits)
  then show ?thesis using s3_law streaming_feature_law [where t = "s3\<lparr>sv_market := m\<rparr>"] by auto
qed

lemma streaming_loop_law:
  "fold_result (streaming_event rnd fac clock presequenced) t es = Inr t' \<Longrightarrow> law (marks_of (sv_desk t)) \<Longrightarrow>
   law (marks_of (sv_desk t'))"
  by (induction es arbitrary: t) (auto simp: rbind_eq_Inr dest: streaming_event_law)

lemma streaming_run_law:
  assumes "streaming_final rnd fac c clock presequenced events = Inr t"
  shows "law (marks_of (sv_desk t))"
proof -
  obtain m st s where run: "fold_result (streaming_event rnd fac clock presequenced) (streaming_start c m st) events = Inr s"
    "streaming_end rnd s = Inr t"
    using assms by (auto simp: streaming_final_def rbind_eq_Inr)
  have "law (marks_of (sv_desk (streaming_start c m st)))"
    using law_start by (simp add: marks_of_def streaming_start_def portfolio_init_def)
  from streaming_loop_law [OF run(1) this] run(2) show ?thesis
    by (auto simp: streaming_end_def case_prod_unfold Let_def marks_of_def dest: streaming_close_law split: if_splits)
qed

end

definition marks_fall :: "(rat \<Rightarrow> rat) \<Rightarrow> desk_marks \<Rightarrow> bool" where
  "marks_fall rnd m \<longleftrightarrow> (\<exists>d. marks_of d = m \<and> drawdown_law rnd (dk_portfolio d))"

lemma marks_fall_of: "marks_fall rnd (marks_of d) \<longleftrightarrow> drawdown_law rnd (dk_portfolio d)"
  by (auto simp: marks_fall_def marks_of_def drawdown_law_def Let_def)

interpretation falling: streaming_mark_law fl64 "marks_fall fl64"
proof
  have "drawdown_law fl64 (dk_portfolio (sv_desk (streaming_start c m st)))" for c :: backtest_config and m and st :: unit
    by (simp add: drawdown_law_def streaming_start_def portfolio_init_def)
  then show "marks_fall fl64 ([], None, 0)"
    unfolding marks_fall_def
    by (intro exI [of _ "sv_desk (streaming_start c m ())" for c m]) (simp add: marks_of_def streaming_start_def portfolio_init_def)
qed (simp_all add: marks_fall_of binary64.drawdown_mark)

text \<open>The maximum drawdown of the streaming summary is the portfolio's.\<close>

lemma streaming_drawdown:
  assumes "streaming_final fl64 fac c clock presequenced events = Inr t"
  shows "rn_max_drawdown (sr_summary (streaming_result_of fl64 summed fm item_text c clock t)) =
    pf_maximum_drawdown (dk_portfolio (sv_desk t))"
  using falling.streaming_run_law [OF assms] binary64.drawdown_reported
  by (simp add: marks_fall_of streaming_result_of_def Let_def case_prod_unfold compute_metrics_fields)

text \<open>
  C4: The streaming replay and the batch replay of the same events: for any signal engine, any rounding
  and any non-strict configuration with both resets between sessions on, on input that holds the
  events of the session only, already in replay order and without sequence numbers, the streaming
  replay fails where the batch replay fails, raises where the statistics of the batch replay's
  candidates cannot be collected, and otherwise returns the same trades, trade statistics, ending
  equity, daily results, numbers of input events, session events, accepted features, rejected events and acting
  candidates, and the same list of unfilled orders (the number of unfilled orders it reports is another
  one); in binary64 the maximum drawdown is the same too. Its candidate summary and feature
  distributions are those of the batch replay's candidates.
\<close>

theorem streaming_replay_agrees:
  assumes "\<not> bc_strict_quality c" "se_reset_each_session (bc_session c)" "se_reset_replay_sequences (bc_session c)"
    and "filter_events (bc_session c) clock events = Inr events" "\<forall>e\<in>set events. ne_sequence e = None"
  shows "case run_with_report rnd summed fm item_text fac c mapping clock events of
      Inl e \<Rightarrow> \<not> is_ok (run_streaming_replay rnd summed fm item_text fac c clock False events)
    | Inr rp \<Rightarrow>
        let s = br_final (rp_run rp) in
        case fold_result feature_observe (feature_accumulator_init 100000) (rs_candidates s) of
          Inl e \<Rightarrow> run_streaming_replay rnd summed fm item_text fac c clock False events = Inl e
        | Inr features \<Rightarrow>
            \<exists>r. run_streaming_replay rnd summed fm item_text fac c clock False events = Inr r \<and>
              sr_trades r = pf_completed_trades (dk_portfolio (rs_desk s)) \<and>
              trade_summary.truncate (sr_summary r) = trade_summary.truncate (rp_summary rp) \<and>
              rn_ending_equity (sr_summary r) = rn_ending_equity (rp_summary rp) \<and>
              rn_daily_pnl (sr_summary r) = rn_daily_pnl (rp_summary rp) \<and>
              (rnd = fl64 \<longrightarrow> rn_max_drawdown (sr_summary r) = rn_max_drawdown (rp_summary rp)) \<and>
              ct_accepted_features (sr_counts r) = ct_accepted_features (rp_counts rp) \<and>
              ct_rejected_events (sr_counts r) = ct_rejected_events (rp_counts rp) \<and>
              ct_input_events (sr_counts r) = ct_input_events (rp_counts rp) \<and>
              ct_session_events (sr_counts r) = ct_session_events (rp_counts rp) \<and>
              ct_candidate_count (sr_counts r) = ct_candidate_count (rp_counts rp) \<and>
              sr_unfilled_orders r = ex_unfilled_orders (dk_execution (rs_desk s)) \<and>
              sr_candidate_summary r = candidate_summary rnd clock (rs_candidates s) \<and>
              sr_feature_distributions r = accumulator_dict rnd features"
proof (cases "market_default (bc_num_symbols c) (bc_trade_window c) (bc_momentum_window c) (bc_vwap_window c)")
  case (Inl e)
  then show ?thesis
    using assms(1,4) by (simp add: run_with_report_def run_backtest_def run_streaming_replay_def streaming_final_def Let_def)
next
  case (Inr m)
  note m = Inr
  show ?thesis
  proof (cases "sf_create fac (bc_num_symbols c) (bc_strategy c)")
    case (Inl e)
    then show ?thesis using assms(1,4) m
      by (simp add: run_with_report_def run_backtest_def run_streaming_replay_def streaming_final_def Let_def)
  next
    case (Inr st)
    let ?es = "replay_sequence c clock events"
    have es: "?es = assign_loop (replay_key True (Some (session_date clock))) (\<lambda>_. None) events"
      by (simp add: replay_sequence_def assign_replay_sequences_def assms(2,3))
    have batch: "run_backtest rnd fac c mapping clock events =
        rbind (fold_result (replay_event rnd fac c clock) (replay_start c m st) ?es) (finish_run rnd c mapping clock events events)"
      using assms(1,4) m Inr by (simp add: run_backtest_def finish_run_def [abs_def] Let_def)
    have stream: "streaming_final rnd fac c clock False events =
        rbind (fold_result (streaming_event rnd fac clock False) (streaming_start c m st) events) (streaming_end rnd)"
      using m Inr by (simp add: streaming_final_def)
    have loop: "same_outcome clock (fold_result (replay_event rnd fac c clock) (replay_start c m st) ?es)
        (fold_result (streaming_event rnd fac clock False) (streaming_start c m st) events)
        (\<lambda>t'. sv_input_events t' = int (length events))"
      using in_step_loop [OF in_step_start [of clock c m st] assms(2,5), where counters = "\<lambda>_. None" and rnd = rnd and fac = fac]
      by (simp add: es streaming_start_def)
    show ?thesis
    proof (cases "fold_result (replay_event rnd fac c clock) (replay_start c m st) ?es")
      case (Inl e)
      then have "\<not> is_ok (streaming_final rnd fac c clock False events)"
        using loop by (cases "fold_result (streaming_event rnd fac clock False) (streaming_start c m st) events")
          (simp_all add: same_outcome_def stream)
      then show ?thesis using Inl batch
        by (cases "streaming_final rnd fac c clock False events") (simp_all add: run_with_report_def run_streaming_replay_def)
    next
      case (Inr s)
      have sorted: "sorted (map cs_timestamp_ns (rs_candidates s))"
        by (rule replay_candidates_sorted [OF Inr filtered_sorted [OF assms(4)]])
      have finish: "run_backtest rnd fac c mapping clock events = finish_run rnd c mapping clock events events s"
        by (simp add: batch Inr)
      note ended = streaming_finish [OF loop [unfolded Inr], of rnd, folded stream]
      show ?thesis
      proof (cases "close_session rnd (rs_desk s) (rs_last_features s) (rs_last_timestamp s)")
        case (Inl e)
        then show ?thesis using ended
          by (cases "streaming_final rnd fac c clock False events")
            (simp_all add: run_with_report_def finish finish_run_def run_streaming_replay_def)
      next
        case (Inr d)
        obtain run where run: "run_backtest rnd fac c mapping clock events = Inr run"
          "br_final run = s\<lparr>rs_desk := desk_clear d\<rparr>" "br_replay_events run = ?es"
          by (simp add: finish finish_run_def Inr)
        have len: "length ?es = length events"
          using arg_cong [OF replay_sequence_times [of c clock events], of length] by simp
        show ?thesis
        proof (cases "candidate_statistics (rs_candidates s)")
          case (Inl e)
          with ended Inr run show ?thesis by (simp add: run_with_report_def run_streaming_replay_def report_fields)
        next
          case (Inr features)
          with ended \<open>close_session rnd (rs_desk s) (rs_last_features s) (rs_last_timestamp s) = Inr d\<close>
          obtain t where t: "streaming_final rnd fac c clock False events = Inr t"
            "pf_completed_trades (dk_portfolio (sv_desk t)) = pf_completed_trades (dk_portfolio d)"
            "ex_unfilled_orders (dk_execution (sv_desk t)) = ex_unfilled_orders (snd (execution_flush (dk_execution d)))"
            "pf_maximum_drawdown (dk_portfolio (sv_desk t)) = pf_maximum_drawdown (dk_portfolio d)"
            "curves_agree clock None False (curve_of d) (curve_of (sv_desk t))" "sv_features t = features"
            "sv_candidates t = foldl (candidate_observe clock) candidate_accumulator_init (rs_candidates s)"
            "sv_accepted t = int (length (rs_candidates s))" "sv_rejected t = rs_rejected s"
            "sv_input_events t = int (length events)"
            by auto
          have desk: "pf_completed_trades (dk_portfolio (desk_clear d)) = pf_completed_trades (dk_portfolio d)"
            "curve_of (desk_clear d) = curve_of d"
            "dk_execution (desk_clear d) = snd (execution_flush (dk_execution d))" by (simp_all add: desk_clear_def)
          have summary: "sv_candidates t = foldl (candidate_observe clock) candidate_accumulator_init (rs_candidates s) \<Longrightarrow>
              candidate_dict rnd (sv_candidates t) = candidate_summary rnd clock (rs_candidates s)"
            by (simp add: candidate_dict_fold [OF sorted])
          have low: "rn_max_drawdown (sr_summary (streaming_result_of fl64 summed fm item_text c clock t)) =
              rn_max_drawdown (compute_metrics fl64 summed fm clock (pc_starting_cash (bc_portfolio c))
                (pf_completed_trades (dk_portfolio d)) (curve_of d))" if "rnd = fl64"
            using streaming_drawdown [OF t(1) [unfolded that]] reported_drawdown [OF run(1) [unfolded that]] run(2) t(4)
            by (simp add: compute_metrics_fields desk desk_clear_def)
          note agree = metrics_agree [OF t(5), of rnd summed fm "pc_starting_cash (bc_portfolio c)" "pf_completed_trades (dk_portfolio d)"]
          show ?thesis
            using agree Inr run t summary [OF t(7)] len low
            by (simp add: run_with_report_def run_streaming_replay_def report_fields streaming_fields [OF refl refl] desk counts_of_def
                candidate_summary_count)
        qed
      qed
    qed
  qed
qed

lemma trading_day_in_session: "filter_events default_session_config test_clock trading_day = Inr trading_day"
  by code_simp

theorem streaming_replay_agrees_witness:
  "case run_with_report fl64 (sum_left fl64) demo_math demo_text model_factory overnight_config None test_clock trading_day of
      Inl e \<Rightarrow> False
    | Inr rp \<Rightarrow>
        let s = br_final (rp_run rp) in
        case fold_result feature_observe (feature_accumulator_init 100000) (rs_candidates s) of
          Inl e \<Rightarrow> run_streaming_replay fl64 (sum_left fl64) demo_math demo_text model_factory overnight_config test_clock
              False trading_day = Inl e
        | Inr features \<Rightarrow>
            \<exists>r. run_streaming_replay fl64 (sum_left fl64) demo_math demo_text model_factory overnight_config test_clock
                False trading_day = Inr r \<and>
              sr_trades r = pf_completed_trades (dk_portfolio (rs_desk s)) \<and>
              rn_ending_equity (sr_summary r) = rn_ending_equity (rp_summary rp)"
proof -
  have "\<forall>x\<in>set trading_day. session_date test_clock (ne_timestamp_ns x) = 738887"
    by (simp add: trading_day_def tick_def test_clock_def session_date_def)
  with model.run_backtest_outcome [OF overnight_config_ok, where rnd = fl64 and mapping = None and clock = test_clock and events = trading_day]
  obtain run where "run_backtest fl64 model_factory overnight_config None test_clock trading_day = Inr run"
    by (cases "run_backtest fl64 model_factory overnight_config None test_clock trading_day") auto
  then obtain rp where rp: "run_with_report fl64 (sum_left fl64) demo_math demo_text model_factory overnight_config None test_clock
      trading_day = Inr rp"
    by (simp add: run_with_report_def)
  have flags: "\<not> bc_strict_quality overnight_config" "se_reset_each_session (bc_session overnight_config)"
    "se_reset_replay_sequences (bc_session overnight_config)"
    "filter_events (bc_session overnight_config) test_clock trading_day = Inr trading_day"
    "\<forall>e\<in>set trading_day. ne_sequence e = None"
    using trading_day_in_session
    by (simp_all add: overnight_config_def default_session_config_def trading_day_def tick_def)
  from streaming_replay_agrees [OF flags, of fl64 "sum_left fl64" demo_math demo_text model_factory None]
  show ?thesis
    unfolding rp by (auto simp: Let_def split: sum.splits)
qed

end
