(* ===== verification/Streaming_Sessions.thy ===== *)
theory Streaming_Sessions
  imports Streaming_Correct
begin

text \<open>
  The path of the streaming replay on events that already carry their session's sequence numbers: it
  takes a repeated start of numbering for a session boundary instead of computing dates.
\<close>

section \<open>Numbers assigned in advance\<close>

lemma iter_assign:
  assumes "\<forall>e\<in>set es. ne_sequence e = None" "\<And>d k. counters (d, k) = counters' (Some d, k)"
  shows "iter_replay_sequences clock counters es = assign_loop (replay_key True (Some (session_date clock))) counters' es"
  using assms
proof (induction es arbitrary: counters counters')
  case Nil
  then show ?case by simp
next
  case (Cons e es)
  let ?day = "session_date clock (ne_timestamp_ns e)"
  let ?n = "(case counters (?day, ne_symbol_id e) of None \<Rightarrow> 0 | Some n \<Rightarrow> n) + 1"
  have "iter_replay_sequences clock (counters((?day, ne_symbol_id e) \<mapsto> ?n)) es =
      assign_loop (replay_key True (Some (session_date clock))) (counters'((Some ?day, ne_symbol_id e) \<mapsto> ?n)) es"
    by (rule Cons.IH) (use Cons.prems in auto)
  moreover have "replay_key True (Some (session_date clock)) e = (Some ?day, ne_symbol_id e)" by (simp add: replay_key_def)
  ultimately show ?case using Cons.prems by (simp add: Let_def)
qed

section \<open>Relabelled sessions\<close>

definition relabel ::
  "session_id option \<Rightarrow> (session_id \<times> int \<Rightarrow> int option) \<Rightarrow> int list \<Rightarrow> int \<Rightarrow> 's streaming_state \<Rightarrow> 's streaming_state" where
  "relabel previous counters seen index t =
     t\<lparr>sv_previous_session := previous, sv_counters := counters, sv_seen := seen, sv_session_index := index\<rparr>"

definition unlabelled :: "'s streaming_state result \<Rightarrow> 's streaming_state result" where
  "unlabelled m = rbind m (\<lambda>t. Inr (relabel None (\<lambda>_. None) [] 0 t))"

lemma unlabelled_simps [simp]: "unlabelled (Inl e) = Inl e" "unlabelled (Inr t) = Inr (relabel None (\<lambda>_. None) [] 0 t)"
  by (simp_all add: unlabelled_def)

lemma relabel_fields [simp]:
  "sv_market (relabel p k s i t) = sv_market t" "sv_strategy (relabel p k s i t) = sv_strategy t"
  "sv_desk (relabel p k s i t) = sv_desk t" "sv_features (relabel p k s i t) = sv_features t"
  "sv_candidates (relabel p k s i t) = sv_candidates t" "sv_forward (relabel p k s i t) = sv_forward t"
  "sv_last_features (relabel p k s i t) = sv_last_features t" "sv_last_timestamp (relabel p k s i t) = sv_last_timestamp t"
  "sv_input_events (relabel p k s i t) = sv_input_events t" "sv_accepted (relabel p k s i t) = sv_accepted t"
  "sv_rejected (relabel p k s i t) = sv_rejected t" "sv_unfilled (relabel p k s i t) = sv_unfilled t"
  "sv_previous_session (relabel p k s i t) = p" "sv_counters (relabel p k s i t) = k" "sv_seen (relabel p k s i t) = s"
  "sv_session_index (relabel p k s i t) = i" "relabel p' k' s' i' (relabel p k s i t) = relabel p' k' s' i' t"
  by (simp_all add: relabel_def)

lemma relabel_update [simp]:
  "(relabel p k s i t)\<lparr>sv_market := m\<rparr> = relabel p k s i (t\<lparr>sv_market := m\<rparr>)"
  "(relabel p k s i t)\<lparr>sv_strategy := st\<rparr> = relabel p k s i (t\<lparr>sv_strategy := st\<rparr>)"
  "(relabel p k s i t)\<lparr>sv_desk := d\<rparr> = relabel p k s i (t\<lparr>sv_desk := d\<rparr>)"
  "(relabel p k s i t)\<lparr>sv_features := fs\<rparr> = relabel p k s i (t\<lparr>sv_features := fs\<rparr>)"
  "(relabel p k s i t)\<lparr>sv_candidates := ca\<rparr> = relabel p k s i (t\<lparr>sv_candidates := ca\<rparr>)"
  "(relabel p k s i t)\<lparr>sv_forward := fw\<rparr> = relabel p k s i (t\<lparr>sv_forward := fw\<rparr>)"
  "(relabel p k s i t)\<lparr>sv_last_features := lf\<rparr> = relabel p k s i (t\<lparr>sv_last_features := lf\<rparr>)"
  "(relabel p k s i t)\<lparr>sv_last_timestamp := ts\<rparr> = relabel p k s i (t\<lparr>sv_last_timestamp := ts\<rparr>)"
  "(relabel p k s i t)\<lparr>sv_input_events := n\<rparr> = relabel p k s i (t\<lparr>sv_input_events := n\<rparr>)"
  "(relabel p k s i t)\<lparr>sv_accepted := n\<rparr> = relabel p k s i (t\<lparr>sv_accepted := n\<rparr>)"
  "(relabel p k s i t)\<lparr>sv_rejected := n\<rparr> = relabel p k s i (t\<lparr>sv_rejected := n\<rparr>)"
  "(relabel p k s i t)\<lparr>sv_unfilled := n\<rparr> = relabel p k s i (t\<lparr>sv_unfilled := n\<rparr>)"
  "(relabel p k s i t)\<lparr>sv_previous_session := p'\<rparr> = relabel p' k s i t"
  "(relabel p k s i t)\<lparr>sv_counters := k'\<rparr> = relabel p k' s i t"
  "(relabel p k s i t)\<lparr>sv_seen := s'\<rparr> = relabel p k s' i t"
  "(relabel p k s i t)\<lparr>sv_session_index := i'\<rparr> = relabel p k s i' t"
  by (cases t; simp add: relabel_def)+

lemma relabel_own: "relabel (sv_previous_session t) (sv_counters t) (sv_seen t) (sv_session_index t) t = t"
  by (cases t) (simp add: relabel_def)

text \<open>The labels are read and written only where sessions are told apart.\<close>

definition relabelled ::
  "session_id option \<Rightarrow> (session_id \<times> int \<Rightarrow> int option) \<Rightarrow> int list \<Rightarrow> int \<Rightarrow> 's streaming_state result \<Rightarrow>
     's streaming_state result" where
  "relabelled p k s i m = rbind m (\<lambda>t. Inr (relabel p k s i t))"

lemma relabelled_simps [simp]: "relabelled p k s i (Inl e) = Inl e" "relabelled p k s i (Inr t) = Inr (relabel p k s i t)"
  by (simp_all add: relabelled_def)

lemma relabelled_rbind: "relabelled p k s i (rbind m f) = rbind m (\<lambda>x. relabelled p k s i (f x))"
  by (cases m) simp_all

lemma rbind_relabelled: "rbind (relabelled p k s i m) f = rbind m (\<lambda>t. f (relabel p k s i t))"
  by (cases m) simp_all

lemma relabelled_if: "relabelled p k s i (if b then m else n) = (if b then relabelled p k s i m else relabelled p k s i n)"
  by simp

lemma relabel_close: "streaming_close rnd ts (relabel p k s i t) = relabelled p k s i (streaming_close rnd ts t)"
  by (simp add: streaming_close_def relabelled_rbind)

lemma relabel_feature:
  "streaming_feature rnd fac clock e f (relabel p k s i t) = relabelled p k s i (streaming_feature rnd fac clock e f t)"
  by (simp add: streaming_feature_def relabelled_rbind case_prod_unfold Let_def cong: if_cong)

lemma relabel_end: "streaming_end rnd (relabel p k s i t) = relabelled p k s i (streaming_end rnd t)"
  by (simp add: streaming_end_def relabel_close case_prod_unfold Let_def)

lemma relabel_result: "streaming_result_of rnd summed fm item_text c clock (relabel p k s i t) =
    streaming_result_of rnd summed fm item_text c clock t"
  by (simp add: streaming_result_of_def)

section \<open>Linked sessions\<close>

text \<open>
  Events in the order of their dates, where every later date begins with a symbol of the date before.
\<close>

fun sessions_linked :: "(int \<Rightarrow> local_time) \<Rightarrow> (int \<times> int list) option \<Rightarrow> normalized_event list \<Rightarrow> bool" where
  "sessions_linked clock current [] = True"
| "sessions_linked clock current (e # es) =
     (let day = session_date clock (ne_timestamp_ns e); symb = ne_symbol_id e in
      case current of
        None \<Rightarrow> sessions_linked clock (Some (day, [symb])) es
      | Some (today, symbols) \<Rightarrow>
          if day = today then sessions_linked clock (Some (today, List.insert symb symbols)) es
          else today < day \<and> symb \<in> set symbols \<and> sessions_linked clock (Some (day, [symb])) es)"

text \<open>The numbering knows the earlier dates, and of the current one the symbols seen.\<close>

definition counters_linked :: "(int \<times> int list) option \<Rightarrow> (int \<times> int \<Rightarrow> int option) \<Rightarrow> bool" where
  "counters_linked current counters \<longleftrightarrow>
     (\<forall>d k. case counters (d, k) of
        None \<Rightarrow> (case current of None \<Rightarrow> True | Some (today, symbols) \<Rightarrow> \<not> (d = today \<and> k \<in> set symbols))
      | Some n \<Rightarrow> 1 \<le> n \<and> (case current of None \<Rightarrow> False
          | Some (today, symbols) \<Rightarrow> d < today \<or> d = today \<and> k \<in> set symbols))"

lemma relabel_change:
  assumes "(previous = None \<longleftrightarrow> sv_previous_session t = None)"
    and "previous \<noteq> None \<Longrightarrow> (previous = Some session' \<longleftrightarrow> sv_previous_session t = Some session)"
  shows "streaming_change rnd fac session' (relabel previous k s i t) =
    relabelled previous k s i (streaming_change rnd fac session t)"
  using assms
  by (cases "sv_previous_session t"; cases previous)
    (auto simp: streaming_change_def relabel_close relabelled_rbind relabelled_def rbind_assoc)

lemma relabel_accept:
  "streaming_accept rnd fac clock e (relabel p k s i t) = relabelled p k s i (streaming_accept rnd fac clock e t)"
  by (simp add: streaming_accept_def relabelled_rbind relabel_feature case_prod_unfold Let_def
      relabelled_if option.case_distrib [of "relabelled p k s i"] cong: option.case_cong if_cong)

text \<open>The labels of the streaming replay that numbers by itself, and of the one that is given numbers.\<close>

definition seen_symbols :: "(int \<times> int list) option \<Rightarrow> int list" where
  "seen_symbols current = (case current of None \<Rightarrow> [] | Some (_, symbols) \<Rightarrow> symbols)"

lemma dated_event:
  assumes "ne_sequence e = None"
    and "n = (case sv_counters t (Dated (session_date clock (ne_timestamp_ns e)), ne_symbol_id e) of None \<Rightarrow> 0 | Some k \<Rightarrow> k) + 1"
    and "\<And>t1. streaming_change rnd fac (Dated (session_date clock (ne_timestamp_ns e))) (t\<lparr>sv_input_events := sv_input_events t + 1\<rparr>) = Inr t1
      \<Longrightarrow> sv_counters t1 = sv_counters t"
  shows "\<exists>seen index. streaming_event rnd fac clock False t e =
    rbind (streaming_change rnd fac (Dated (session_date clock (ne_timestamp_ns e))) (t\<lparr>sv_input_events := sv_input_events t + 1\<rparr>)) (\<lambda>t1.
      relabelled (Some (Dated (session_date clock (ne_timestamp_ns e))))
        ((sv_counters t)((Dated (session_date clock (ne_timestamp_ns e)), ne_symbol_id e) \<mapsto> n)) seen index
        (streaming_accept rnd fac clock (with_sequence e n) (t1\<lparr>sv_last_timestamp := ne_timestamp_ns e\<rparr>)))"
proof -
  let ?session = "Dated (session_date clock (ne_timestamp_ns e))" and ?ts = "ne_timestamp_ns e"
  let ?counters = "(sv_counters t)((?session, ne_symbol_id e) \<mapsto> n)"
  show ?thesis
  proof (cases "streaming_change rnd fac ?session (t\<lparr>sv_input_events := sv_input_events t + 1\<rparr>)")
    case (Inl err)
    then show ?thesis by (simp add: streaming_event_accept streaming_session_def)
  next
    case (Inr t1)
    let ?t2 = "t1\<lparr>sv_last_timestamp := ?ts\<rparr>"
    have "t1\<lparr>sv_previous_session := Some ?session, sv_last_timestamp := ?ts, sv_counters := ?counters\<rparr> =
        relabel (Some ?session) ?counters (sv_seen t1) (sv_session_index t1) ?t2"
      by (cases t1) (simp add: relabel_def)
    then have accept: "streaming_accept rnd fac clock (with_sequence e n)
        (t1\<lparr>sv_previous_session := Some ?session, sv_last_timestamp := ?ts, sv_counters := ?counters\<rparr>) =
      relabelled (Some ?session) ?counters (sv_seen t1) (sv_session_index t1)
        (streaming_accept rnd fac clock (with_sequence e n) ?t2)"
      by (simp only: relabel_accept)
    have "streaming_number False ?session e (t1\<lparr>sv_previous_session := Some ?session, sv_last_timestamp := ?ts\<rparr>) =
        (with_sequence e n, t1\<lparr>sv_previous_session := Some ?session, sv_last_timestamp := ?ts, sv_counters := ?counters\<rparr>)"
      using assms Inr by (simp add: streaming_number_def Let_def)
    then show ?thesis
      using Inr by (intro exI [of _ "sv_seen t1"] exI [of _ "sv_session_index t1"])
        (simp add: streaming_event_accept streaming_session_def accept)
  qed
qed

lemma indexed_event:
  assumes "streaming_session clock True (with_sequence e n)
      (relabel p k seen ix (t\<lparr>sv_input_events := sv_input_events t + 1\<rparr>)) =
      (Indexed ix', relabel p k seen' ix' (t\<lparr>sv_input_events := sv_input_events t + 1\<rparr>))"
    and "(p = None \<longleftrightarrow> sv_previous_session t = None)"
    and "p \<noteq> None \<Longrightarrow> (p = Some (Indexed ix') \<longleftrightarrow> sv_previous_session t = Some session)"
  shows "streaming_event rnd fac clock True (relabel p k seen ix t) (with_sequence e n) =
    rbind (streaming_change rnd fac session (t\<lparr>sv_input_events := sv_input_events t + 1\<rparr>)) (\<lambda>t1.
      relabelled (Some (Indexed ix')) k seen' ix'
        (streaming_accept rnd fac clock (with_sequence e n) (t1\<lparr>sv_last_timestamp := ne_timestamp_ns e\<rparr>)))"
proof -
  let ?t = "t\<lparr>sv_input_events := sv_input_events t + 1\<rparr>"
  have "streaming_change rnd fac (Indexed ix') (relabel p k seen' ix' ?t) = relabelled p k seen' ix' (streaming_change rnd fac session ?t)"
    using relabel_change [of p ?t "Indexed ix'" session rnd fac k seen' ix'] assms(2,3) by simp
  moreover have "ne_timestamp_ns (with_sequence e n) = ne_timestamp_ns e" "ne_sequence (with_sequence e n) = Some n"
    by (simp_all add: with_sequence_def)
  ultimately show ?thesis
    by (simp add: streaming_event_accept assms(1) streaming_number_def rbind_relabelled relabel_accept)
qed

lemma linked_number:
  assumes "counters_linked current counters"
    and "case current of None \<Rightarrow> True | Some (today, symbols) \<Rightarrow> day = today \<or> today < day \<and> symb \<in> set symbols"
    and "n = (case counters (day, symb) of None \<Rightarrow> 0 | Some k \<Rightarrow> k) + 1"
  shows "(case current of None \<Rightarrow> True
      | Some (today, symbols) \<Rightarrow> if day = today then n = 1 \<longrightarrow> symb \<notin> set symbols else n = 1 \<and> symb \<in> set symbols) \<and>
    counters_linked (case current of None \<Rightarrow> Some (day, [symb])
        | Some (today, symbols) \<Rightarrow> if day = today then Some (today, List.insert symb symbols) else Some (day, [symb]))
      (counters((day, symb) \<mapsto> n))"
proof -
  have at: "case counters (d, k) of
        None \<Rightarrow> (case current of None \<Rightarrow> True | Some (today, symbols) \<Rightarrow> \<not> (d = today \<and> k \<in> set symbols))
      | Some n \<Rightarrow> 1 \<le> n \<and> (case current of None \<Rightarrow> False
          | Some (today, symbols) \<Rightarrow> d < today \<or> d = today \<and> k \<in> set symbols)" for d k
    using assms(1) by (simp add: counters_linked_def)
  show ?thesis
  proof (cases current)
    case None
    have "counters (d, k) = None" for d k using at [of d k] None by (cases "counters (d, k)") auto
    then show ?thesis using None by (simp add: counters_linked_def assms(3))
  next
    case (Some cur)
    obtain today symbols where cur: "cur = (today, symbols)" by (cases cur)
    have first: "(n = 1) = (counters (day, symb) = None)" "1 \<le> n"
      using at [of day symb] by (auto simp: assms(3) Some cur split: option.splits)
    have now: "day = today \<Longrightarrow> (counters (day, symb) = None) = (symb \<notin> set symbols)"
      using at [of day symb] by (auto simp: Some cur split: option.splits)
    have new: "day \<noteq> today \<Longrightarrow> counters (day, symb) = None \<and> symb \<in> set symbols"
      using at [of day symb] assms(2) by (auto simp: Some cur split: option.splits)
    have "case (counters((day, symb) \<mapsto> n)) (d, k) of
        None \<Rightarrow> \<not> (d = day \<and> k \<in> set (if day = today then List.insert symb symbols else [symb]))
      | Some n \<Rightarrow> 1 \<le> n \<and> (d < day \<or> d = day \<and> k \<in> set (if day = today then List.insert symb symbols else [symb]))" for d k
      using at [of d k] first(2) assms(2) by (auto simp: Some cur split: option.splits if_splits)
    then have "counters_linked (Some (day, if day = today then List.insert symb symbols else [symb])) (counters((day, symb) \<mapsto> n))"
      unfolding counters_linked_def option.case prod.case by blast
    moreover have "(if day = today then Some (today, List.insert symb symbols) else Some (day, [symb])) =
        Some (day, if day = today then List.insert symb symbols else [symb])" by simp
    moreover have "if day = today then n = 1 \<longrightarrow> symb \<notin> set symbols else n = 1 \<and> symb \<in> set symbols"
      using first(1) now new by auto
    ultimately show ?thesis by (simp only: Some cur option.case prod.case)
  qed
qed

lemma change_counters: "streaming_change rnd fac session t = Inr t1 \<Longrightarrow> sv_counters t1 = sv_counters t"
  by (auto simp: streaming_change_def streaming_close_def rbind_eq_Inr split: option.splits if_splits)

lemma unlabelled_rbind: "unlabelled (rbind m f) = rbind m (\<lambda>x. unlabelled (f x))"
  by (cases m) simp_all

lemma presequenced_loop:
  assumes "sessions_linked clock current es" "\<forall>e\<in>set es. ne_sequence e = None" "counters_linked current counters"
    and "sv_previous_session t = map_option (Dated \<circ> fst) current" "\<And>d k. sv_counters t (Dated d, k) = counters (d, k)"
  shows "unlabelled (fold_result (streaming_event rnd fac clock True)
      (relabel (map_option (\<lambda>_. Indexed ix) current) k (seen_symbols current) ix t) (iter_replay_sequences clock counters es)) =
    unlabelled (fold_result (streaming_event rnd fac clock False) t es)"
  using assms
proof (induction es arbitrary: current counters t ix)
  case Nil
  then show ?case by simp
next
  case (Cons e es)
  let ?day = "session_date clock (ne_timestamp_ns e)" and ?symb = "ne_symbol_id e"
  let ?t = "t\<lparr>sv_input_events := sv_input_events t + 1\<rparr>"
  define n where "n = (case counters (?day, ?symb) of None \<Rightarrow> 0 | Some k \<Rightarrow> k) + 1"
  define current' where "current' = (case current of None \<Rightarrow> Some (?day, [?symb])
        | Some (today, symbols) \<Rightarrow> if ?day = today then Some (today, List.insert ?symb symbols) else Some (?day, [?symb]))"
  define ix' where "ix' = (case current of None \<Rightarrow> ix | Some (today, symbols) \<Rightarrow> if ?day = today then ix else ix + 1)"
  have fine: "case current of None \<Rightarrow> True | Some (today, symbols) \<Rightarrow> ?day = today \<or> today < ?day \<and> ?symb \<in> set symbols"
    and rest: "sessions_linked clock current' es"
    using Cons.prems(1) by (auto simp: current'_def Let_def split: option.splits if_splits)
  note number = linked_number [OF Cons.prems(3) fine n_def, folded current'_def]
  have session: "streaming_session clock True (with_sequence e n)
      (relabel (map_option (\<lambda>_. Indexed ix) current) k (seen_symbols current) ix ?t) =
      (Indexed ix', relabel (map_option (\<lambda>_. Indexed ix) current) k (seen_symbols current') ix' ?t)"
    using number
    by (auto simp: streaming_session_def with_sequence_def seen_symbols_def current'_def ix'_def Let_def split: option.splits if_splits)
  have "\<exists>symbols. current' = Some (?day, symbols)" by (auto simp: current'_def split: option.split)
  then obtain symbols where current': "current' = Some (?day, symbols)" by blast
  let ?change = "streaming_change rnd fac (Dated ?day) ?t"
  let ?accept = "\<lambda>t1. streaming_accept rnd fac clock (with_sequence e n) (t1\<lparr>sv_last_timestamp := ne_timestamp_ns e\<rparr>)"
  let ?counters = "(sv_counters t)((Dated ?day, ?symb) \<mapsto> n)" and ?counters' = "counters((?day, ?symb) \<mapsto> n)"
  have indexed: "streaming_event rnd fac clock True (relabel (map_option (\<lambda>_. Indexed ix) current) k (seen_symbols current) ix t)
      (with_sequence e n) = rbind ?change (\<lambda>t1. relabelled (Some (Indexed ix')) k (seen_symbols current') ix' (?accept t1))"
    by (rule indexed_event [OF session]) (auto simp: Cons.prems(4) ix'_def split: option.splits)
  have "ne_sequence e = None" using Cons.prems(2) by simp
  from dated_event [OF this, of n t clock rnd fac] obtain seen index where
    dated: "streaming_event rnd fac clock False t e = rbind ?change (\<lambda>t1. relabelled (Some (Dated ?day)) ?counters seen index (?accept t1))"
    using change_counters [of rnd fac "Dated ?day" ?t] by (auto simp: n_def Cons.prems(5))
  have IH: "unlabelled (fold_result (streaming_event rnd fac clock True) (relabel (Some (Indexed ix')) k (seen_symbols current') ix' t2)
      (iter_replay_sequences clock ?counters' es)) =
    unlabelled (fold_result (streaming_event rnd fac clock False) (relabel (Some (Dated ?day)) ?counters seen index t2) es)" for t2
  proof -
    let ?s = "relabel (Some (Dated ?day)) ?counters seen index t2"
    have "unlabelled (fold_result (streaming_event rnd fac clock True)
        (relabel (map_option (\<lambda>_. Indexed ix') current') k (seen_symbols current') ix' ?s) (iter_replay_sequences clock ?counters' es)) =
      unlabelled (fold_result (streaming_event rnd fac clock False) ?s es)"
      by (rule Cons.IH [OF rest _ conjunct2 [OF number]]) (use Cons.prems(2,5) in \<open>simp_all add: current'\<close>)
    moreover have "map_option (\<lambda>_. Indexed ix') current' = Some (Indexed ix')" by (simp add: current')
    ultimately show ?thesis by (simp only: relabel_fields)
  qed
  have "iter_replay_sequences clock counters (e # es) = with_sequence e n # iter_replay_sequences clock ?counters' es"
    by (simp add: n_def Let_def)
  then show ?case
    by (simp add: indexed dated unlabelled_rbind rbind_assoc rbind_relabelled IH)
qed

section \<open>The whole run\<close>

text \<open>
  C18: Detecting sessions by the numbering: when every date of the dataset begins with a symbol that the
  date before has traded, in whatever order of symbols the numbering goes on, the replay of numbered
  events that tells sessions apart by a repeated first number returns exactly the result of the replay
  that computes the dates and numbers the events itself.
\<close>

theorem presequenced_replay_agrees:
  assumes "sessions_linked clock None events" "\<forall>e\<in>set events. ne_sequence e = None"
  shows "run_streaming_replay rnd summed fm item_text fac c clock True (iter_replay_sequences clock (\<lambda>_. None) events) =
    run_streaming_replay rnd summed fm item_text fac c clock False events"
proof (cases "market_default (bc_num_symbols c) (bc_trade_window c) (bc_momentum_window c) (bc_vwap_window c)")
  case (Inl e)
  then show ?thesis by (simp add: run_streaming_replay_def streaming_final_def)
next
  case (Inr m)
  note m = Inr
  show ?thesis
  proof (cases "sf_create fac (bc_num_symbols c) (bc_strategy c)")
    case (Inl e)
    then show ?thesis using m by (simp add: run_streaming_replay_def streaming_final_def)
  next
    case (Inr st)
    let ?start = "streaming_start c m st"
    let ?result = "\<lambda>t. rbind (streaming_end rnd t) (\<lambda>t. Inr (streaming_result_of rnd summed fm item_text c clock t))"
    have result: "?result (relabel p k s i t) = ?result t" for p k s i t
      by (simp add: relabel_end rbind_relabelled relabel_result)
    have "relabel None (\<lambda>_. None) [] 0 ?start = ?start"
      using relabel_own [of ?start] by (simp add: streaming_start_def)
    then have "unlabelled (fold_result (streaming_event rnd fac clock True) ?start (iter_replay_sequences clock (\<lambda>_. None) events)) =
        unlabelled (fold_result (streaming_event rnd fac clock False) ?start events)"
      using presequenced_loop [OF assms, of "\<lambda>_. None" ?start rnd fac 0 "\<lambda>_. None"]
      by (simp add: counters_linked_def seen_symbols_def) (simp add: streaming_start_def)
    then have "rbind (unlabelled (fold_result (streaming_event rnd fac clock True) ?start (iter_replay_sequences clock (\<lambda>_. None) events))) ?result =
        rbind (unlabelled (fold_result (streaming_event rnd fac clock False) ?start events)) ?result"
      by simp
    then show ?thesis
      using m Inr by (simp add: run_streaming_replay_def streaming_final_def rbind_assoc unlabelled_def result)
  qed
qed

theorem presequenced_replay_agrees_witness:
  "run_streaming_replay fl64 (sum_left fl64) demo_math demo_text model_factory overnight_config test_clock True
      (iter_replay_sequences test_clock (\<lambda>_. None) (trading_day @ [tick 1000 0 1 0 100000000])) =
    run_streaming_replay fl64 (sum_left fl64) demo_math demo_text model_factory overnight_config test_clock False
      (trading_day @ [tick 1000 0 1 0 100000000])"
proof (rule presequenced_replay_agrees)
  show "sessions_linked test_clock None (trading_day @ [tick 1000 0 1 0 100000000])" by code_simp
qed (simp add: trading_day_def tick_def)

end
