(* ===== verification/Streaming_Forward.thy ===== *)
theory Streaming_Forward
  imports Streaming_Correct
begin

text \<open>
  The forward returns and the counters of the streaming replay: no candidate and no event is lost. The
  candidates themselves are not kept by the replay; \<open>streaming_candidates\<close> says what they are.
\<close>

section \<open>Rows in flight\<close>

text \<open>A row without its return: the candidate and the horizon that it stands for.\<close>

definition open_row :: "forward_return_row \<Rightarrow> forward_return_row" where
  "open_row row = row\<lparr>fr_return_bps := None\<rparr>"

text \<open>The eight rows that a candidate is owed.\<close>

definition open_rows :: "candidate_signal \<Rightarrow> forward_return_row list" where
  "open_rows cand =
     map (\<lambda>(horizon, horizon_ns).
       \<lparr>fr_candidate_timestamp_ns = cs_timestamp_ns cand, fr_symbol_id = cs_symbol_id cand,
        fr_direction = (if cs_action cand = 1 then ''long'' else ''short''), fr_score = cs_score cand,
        fr_reason_bits = cs_reason_bits cand, fr_horizon = horizon, fr_horizon_ns = horizon_ns, fr_return_bps = None\<rparr>) HORIZONS_NS"

definition waiting :: "forward_heap \<Rightarrow> forward_return_row multiset" where
  "waiting heap = mset (map (\<lambda>(_, _, item). item_row item None) heap)"

definition in_flight :: "forward_accumulator \<Rightarrow> forward_return_row multiset" where
  "in_flight s = mset (map open_row (fw_rows s)) + waiting (concat (map snd (fw_pending s)))"

lemma waiting_simps [simp]:
  "waiting [] = {#}" "waiting ((target, k, item) # heap) = add_mset (item_row item None) (waiting heap)"
  "waiting (heap @ heap') = waiting heap + waiting heap'"
  by (simp_all add: waiting_def)

lemma waiting_push [simp]: "waiting (heap_push (target, k, item) heap) = add_mset (item_row item None) (waiting heap)"
  by (simp add: waiting_def heap_push_def)

lemma waiting_update:
  assumes "distinct (map fst al)"
  shows "waiting (concat (map snd (AList.update k heap al))) + waiting (case map_of al k of None \<Rightarrow> [] | Some h \<Rightarrow> h) =
    waiting (concat (map snd al)) + waiting heap"
  using assms
proof (induction al)
  case (Cons x al)
  obtain k' h where x: "x = (k', h)" by (cases x)
  show ?case
  proof (cases "k' = k")
    case True
    with Cons.prems x have "map_of al k = None" by (simp add: map_of_eq_None_iff)
    then show ?thesis by (simp add: x True ac_simps)
  next
    case False
    then show ?thesis using Cons by (simp add: x ac_simps)
  qed
qed simp

definition heaps_ok :: "forward_accumulator \<Rightarrow> bool" where
  "heaps_ok s \<longleftrightarrow> distinct (map fst (fw_pending s))"

lemma push_item_flight:
  assumes "heaps_ok s"
  shows "heaps_ok (push_item symb s item) \<and> in_flight (push_item symb s item) = add_mset (item_row item None) (in_flight s)"
  using waiting_update [OF assms [unfolded heaps_ok_def], of symb "heap_push (it_target_ns item, fw_pending_id s + 1, item) (pending_of symb s)"]
    assms
  by (simp add: push_item_def heaps_ok_def in_flight_def pending_of_def distinct_update Let_def)

lemma push_items_flight:
  "heaps_ok s \<Longrightarrow> heaps_ok (foldl (push_item symb) s items) \<and>
    in_flight (foldl (push_item symb) s items) = in_flight s + mset (map (\<lambda>item. item_row item None) items)"
  by (induction items arbitrary: s) (simp_all add: push_item_flight)

lemma settle_open: "settle rnd f item = Some row \<Longrightarrow> open_row row = item_row item None"
  by (auto simp: settle_def open_row_def item_row_def Let_def split: option.splits if_splits)

lemma pop_due_flight:
  "pop_due rnd ts f heap = (rows, retry, rest) \<Longrightarrow>
    mset (map open_row rows) + mset (map (\<lambda>item. item_row item None) retry) + waiting rest = waiting heap"
  by (induction heap arbitrary: rows retry rest rule: pop_due.induct)
    (auto simp: settle_open split: prod.splits option.splits if_splits)

lemma observe_quote_flight:
  assumes "heaps_ok s"
  shows "heaps_ok (observe_quote rnd ts f s) \<and> in_flight (observe_quote rnd ts f s) = in_flight s"
proof -
  obtain rows retry rest where pop_due: "pop_due rnd ts f (pending_of (ft_symbol_id f) s) = (rows, retry, rest)"
    by (cases "pop_due rnd ts f (pending_of (ft_symbol_id f) s)") auto
  let ?s = "s\<lparr>fw_last_quotes := AList.update (ft_symbol_id f) (ts, ft_bid_price f, ft_ask_price f) (fw_last_quotes s),
    fw_pending := AList.update (ft_symbol_id f) rest (fw_pending s), fw_rows := fw_rows s @ rows\<rparr>"
  have ok: "heaps_ok ?s" using assms by (simp add: heaps_ok_def distinct_update)
  let ?retried = "mset (map (\<lambda>item. item_row item None) retry)" and ?new = "waiting (concat (map snd (fw_pending ?s)))"
  have "?new + waiting (pending_of (ft_symbol_id f) s) = waiting (concat (map snd (fw_pending s))) + waiting rest"
    using waiting_update [OF assms [unfolded heaps_ok_def], of "ft_symbol_id f" rest] by (simp add: pending_of_def)
  then have "(?new + mset (map open_row rows) + ?retried) + waiting rest = waiting (concat (map snd (fw_pending s))) + waiting rest"
    unfolding pop_due_flight [OF pop_due, symmetric] by (simp only: add.assoc)
  then have "?new + mset (map open_row rows) + ?retried = waiting (concat (map snd (fw_pending s)))"
    by (rule add_right_imp_eq)
  then have "in_flight ?s + ?retried = in_flight s" by (simp add: in_flight_def ac_simps)
  then show ?thesis
    using push_items_flight [OF ok, of "ft_symbol_id f" retry] by (simp add: observe_quote_def pop_due Let_def)
qed

lemma observe_candidate_flight:
  assumes "heaps_ok s"
  shows "heaps_ok (observe_candidate cand s) \<and> in_flight (observe_candidate cand s) = in_flight s + mset (open_rows cand)"
  using push_items_flight [OF assms]
  by (simp add: observe_candidate_def open_rows_def multiset.map_comp comp_def case_prod_unfold item_row_def)

lemma finish_rows: "mset (map open_row (fst (forward_finish rnd item_text s))) = in_flight s"
proof -
  have "open_row (item_row item None) = item_row item None" for item by (simp add: open_row_def item_row_def)
  then show ?thesis
    by (simp add: forward_finish_def in_flight_def waiting_def Let_def comp_def case_prod_unfold)
qed

section \<open>The candidates of a run\<close>

text \<open>The candidate that an event gives in a state, if it gives one: what its feature evaluates to.\<close>

definition event_candidate ::
  "(rat \<Rightarrow> rat) \<Rightarrow> 's strategy_factory \<Rightarrow> (int \<Rightarrow> local_time) \<Rightarrow> bool \<Rightarrow>
     's streaming_state \<Rightarrow> normalized_event \<Rightarrow> candidate_signal list" where
  "event_candidate rnd fac clock presequenced s e =
     (let (session, s) = streaming_session clock presequenced e (s\<lparr>sv_input_events := sv_input_events s + 1\<rparr>) in
      case streaming_change rnd fac session s of Inl _ \<Rightarrow> []
      | Inr s \<Rightarrow>
          let (e, s) = streaming_number presequenced session e
                (s\<lparr>sv_previous_session := Some session, sv_last_timestamp := ne_timestamp_ns e\<rparr>) in
          case rbind (to_market_event e None) (process_event (sv_market s)) of Inl _ \<Rightarrow> []
          | Inr (outcome, _) \<Rightarrow>
              (case oc_feature outcome of None \<Rightarrow> []
               | Some feature \<Rightarrow>
                   if oc_kind outcome \<noteq> ''feature'' then []
                   else (case sf_evaluate fac (sv_strategy s) feature of Inl _ \<Rightarrow> []
                         | Inr (signal, _) \<Rightarrow> [candidate_of e signal feature])))"

fun candidates_from ::
  "(rat \<Rightarrow> rat) \<Rightarrow> 's strategy_factory \<Rightarrow> (int \<Rightarrow> local_time) \<Rightarrow> bool \<Rightarrow>
     's streaming_state \<Rightarrow> normalized_event list \<Rightarrow> candidate_signal list" where
  "candidates_from rnd fac clock presequenced s [] = []"
| "candidates_from rnd fac clock presequenced s (e # es) =
     event_candidate rnd fac clock presequenced s e @
     (case streaming_event rnd fac clock presequenced s e of
        Inl _ \<Rightarrow> [] | Inr s \<Rightarrow> candidates_from rnd fac clock presequenced s es)"

definition streaming_candidates ::
  "(rat \<Rightarrow> rat) \<Rightarrow> 's strategy_factory \<Rightarrow> backtest_config \<Rightarrow> (int \<Rightarrow> local_time) \<Rightarrow> bool \<Rightarrow>
     normalized_event list \<Rightarrow> candidate_signal list" where
  "streaming_candidates rnd fac c clock presequenced events =
     (case market_default (bc_num_symbols c) (bc_trade_window c) (bc_momentum_window c) (bc_vwap_window c) of
        Inl _ \<Rightarrow> []
      | Inr market \<Rightarrow>
          (case sf_create fac (bc_num_symbols c) (bc_strategy c) of
             Inl _ \<Rightarrow> []
           | Inr strategy \<Rightarrow> candidates_from rnd fac clock presequenced (streaming_start c market strategy) events))"

section \<open>The run\<close>

text \<open>What a run has accounted for when its events have given the candidates \<open>cands\<close>.\<close>

definition streaming_accounts ::
  "(int \<Rightarrow> local_time) \<Rightarrow> candidate_signal list \<Rightarrow> 's streaming_state \<Rightarrow> bool" where
  "streaming_accounts clock cands t \<longleftrightarrow>
     heaps_ok (sv_forward t) \<and> sv_accepted t + sv_rejected t = sv_input_events t \<and>
     sv_candidates t = foldl (candidate_observe clock) candidate_accumulator_init cands \<and>
     int (length cands) = sv_accepted t \<and> in_flight (sv_forward t) = mset (concat (map open_rows (acted cands)))"

lemma close_accounts: "streaming_close rnd ts t = Inr t' \<Longrightarrow>
    sv_forward t' = sv_forward t \<and> sv_candidates t' = sv_candidates t \<and> sv_accepted t' = sv_accepted t \<and>
    sv_rejected t' = sv_rejected t \<and> sv_input_events t' = sv_input_events t"
  by (auto simp: streaming_close_def rbind_eq_Inr)

lemma change_accounts: "streaming_change rnd fac session t = Inr t' \<Longrightarrow>
    sv_forward t' = sv_forward t \<and> sv_candidates t' = sv_candidates t \<and> sv_accepted t' = sv_accepted t \<and>
    sv_rejected t' = sv_rejected t \<and> sv_input_events t' = sv_input_events t"
  by (auto simp: streaming_change_def rbind_eq_Inr dest!: close_accounts split: option.splits if_splits)

lemma accounts_cong:
  assumes "streaming_accounts clock cands t"
    and "sv_forward t' = sv_forward t \<and> sv_candidates t' = sv_candidates t \<and> sv_accepted t' = sv_accepted t \<and>
      sv_rejected t' = sv_rejected t \<and> sv_input_events t' = sv_input_events t"
  shows "streaming_accounts clock cands t'"
  using assms by (simp add: streaming_accounts_def)

lemma feature_accounts:
  assumes "streaming_feature rnd fac clock e f t = Inr t'" "heaps_ok (sv_forward t)"
  obtains sig strategy where "sf_evaluate fac (sv_strategy t) f = Inr (sig, strategy)"
    "sv_candidates t' = candidate_observe clock (sv_candidates t) (candidate_of e sig f)" "sv_accepted t' = sv_accepted t + 1"
    "sv_rejected t' = sv_rejected t" "sv_input_events t' = sv_input_events t" "heaps_ok (sv_forward t')"
    "in_flight (sv_forward t') = in_flight (sv_forward t) + mset (concat (map open_rows (acted [candidate_of e sig f])))"
proof -
  let ?q = "ne_event_type e = MSG_MARKET_QUOTE"
  let ?forward = "if ?q then observe_quote rnd (ne_timestamp_ns e) f (sv_forward t) else sv_forward t"
  have fwd: "heaps_ok ?forward" "in_flight ?forward = in_flight (sv_forward t)"
    using observe_quote_flight [OF assms(2)] assms(2) by simp_all
  obtain sig strategy where "sf_evaluate fac (sv_strategy t) f = Inr (sig, strategy)"
    "sv_candidates t' = candidate_observe clock (sv_candidates t) (candidate_of e sig f)"
    "sv_accepted t' = sv_accepted t + 1" "sv_rejected t' = sv_rejected t" "sv_input_events t' = sv_input_events t"
    "sv_forward t' = (if cs_action (candidate_of e sig f) \<noteq> 0 then observe_candidate (candidate_of e sig f) ?forward else ?forward)"
    using assms(1) by (cases ?q) (auto simp: streaming_feature_def Let_def rbind_eq_Inr)
  with that fwd observe_candidate_flight [OF fwd(1)] show thesis by (simp add: acted_def)
qed

lemma event_accounts:
  assumes "streaming_accounts clock cands t" "streaming_event rnd fac clock presequenced t e = Inr t'"
  shows "streaming_accounts clock (cands @ event_candidate rnd fac clock presequenced t e) t' \<and>
    sv_input_events t' = sv_input_events t + 1"
proof -
  let ?t = "t\<lparr>sv_input_events := sv_input_events t + 1\<rparr>"
  obtain session s1 where 1: "streaming_session clock presequenced e ?t = (session, s1)"
    by (cases "streaming_session clock presequenced e ?t") auto
  then have s1: "sv_forward s1 = sv_forward t" "sv_candidates s1 = sv_candidates t" "sv_accepted s1 = sv_accepted t"
    "sv_rejected s1 = sv_rejected t" "sv_input_events s1 = sv_input_events t + 1"
    by (auto simp: streaming_session_def Let_def split: if_splits)
  obtain s2 where 2: "streaming_change rnd fac session s1 = Inr s2"
    using assms(2) 1 by (cases "streaming_change rnd fac session s1") (simp_all add: streaming_event_accept)
  note s2 = change_accounts [OF 2]
  let ?s2 = "s2\<lparr>sv_previous_session := Some session, sv_last_timestamp := ne_timestamp_ns e\<rparr>"
  obtain e' s3 where 3: "streaming_number presequenced session e ?s2 = (e', s3)"
    by (cases "streaming_number presequenced session e ?s2") auto
  then have s3: "sv_forward s3 = sv_forward t" "sv_candidates s3 = sv_candidates t" "sv_accepted s3 = sv_accepted t"
    "sv_rejected s3 = sv_rejected t" "sv_input_events s3 = sv_input_events t + 1"
    using s1 s2 by (auto simp: streaming_number_def Let_def split: if_splits)
  have "streaming_accept rnd fac clock e' s3 = Inr t'" using assms(2) by (simp add: streaming_event_accept 1 2 3)
  then obtain event outcome m where market: "to_market_event e' None = Inr event" "process_event (sv_market s3) event = Inr (outcome, m)"
    and rest: "case oc_feature outcome of None \<Rightarrow> t' = s3\<lparr>sv_market := m, sv_rejected := sv_rejected s3 + 1\<rparr>
      | Some f \<Rightarrow> if oc_kind outcome \<noteq> ''feature'' then t' = s3\<lparr>sv_market := m, sv_rejected := sv_rejected s3 + 1\<rparr>
          else streaming_feature rnd fac clock e' f (s3\<lparr>sv_market := m\<rparr>) = Inr t'"
    by (auto simp: streaming_accept_def Let_def rbind_eq_Inr split: option.splits if_splits)
  have cand: "event_candidate rnd fac clock presequenced t e =
      (case oc_feature outcome of None \<Rightarrow> []
       | Some f \<Rightarrow> if oc_kind outcome \<noteq> ''feature'' then []
           else (case sf_evaluate fac (sv_strategy s3) f of Inl _ \<Rightarrow> [] | Inr (sig, _) \<Rightarrow> [candidate_of e' sig f]))"
    by (simp add: event_candidate_def 1 2 3 market)
  show ?thesis
  proof (cases "\<exists>f. oc_feature outcome = Some f \<and> oc_kind outcome = ''feature''")
    case False
    then have "t' = s3\<lparr>sv_market := m, sv_rejected := sv_rejected s3 + 1\<rparr>" "event_candidate rnd fac clock presequenced t e = []"
      using rest cand by (auto split: option.splits if_splits)
    then show ?thesis using assms(1) s3 by (simp add: streaming_accounts_def)
  next
    case True
    then obtain f where f: "oc_feature outcome = Some f" "oc_kind outcome = ''feature''" by blast
    then have "streaming_feature rnd fac clock e' f (s3\<lparr>sv_market := m\<rparr>) = Inr t'" using rest by simp
    moreover have "heaps_ok (sv_forward (s3\<lparr>sv_market := m\<rparr>))" using assms(1) s3 by (simp add: streaming_accounts_def)
    ultimately show ?thesis
    proof (rule feature_accounts)
      fix sig strategy
      assume "sf_evaluate fac (sv_strategy (s3\<lparr>sv_market := m\<rparr>)) f = Inr (sig, strategy)"
      then have "event_candidate rnd fac clock presequenced t e = [candidate_of e' sig f]" by (simp add: cand f)
      moreover assume "sv_candidates t' = candidate_observe clock (sv_candidates (s3\<lparr>sv_market := m\<rparr>)) (candidate_of e' sig f)"
        "sv_accepted t' = sv_accepted (s3\<lparr>sv_market := m\<rparr>) + 1" "sv_rejected t' = sv_rejected (s3\<lparr>sv_market := m\<rparr>)"
        "sv_input_events t' = sv_input_events (s3\<lparr>sv_market := m\<rparr>)" "heaps_ok (sv_forward t')"
        "in_flight (sv_forward t') = in_flight (sv_forward (s3\<lparr>sv_market := m\<rparr>)) +
           mset (concat (map open_rows (acted [candidate_of e' sig f])))"
      ultimately show ?thesis using assms(1) s3 by (simp add: streaming_accounts_def acted_def)
    qed
  qed
qed

lemma loop_accounts:
  "streaming_accounts clock cands t \<Longrightarrow> fold_result (streaming_event rnd fac clock presequenced) t es = Inr t' \<Longrightarrow>
   streaming_accounts clock (cands @ candidates_from rnd fac clock presequenced t es) t' \<and>
   sv_input_events t' = sv_input_events t + int (length es)"
proof (induction es arbitrary: cands t)
  case (Cons e es)
  then obtain t1 where t1: "streaming_event rnd fac clock presequenced t e = Inr t1"
    "fold_result (streaming_event rnd fac clock presequenced) t1 es = Inr t'"
    by (auto simp: rbind_eq_Inr)
  note step = event_accounts [OF Cons.prems(1) t1(1)]
  from Cons.IH [OF step [THEN conjunct1] t1(2)] step show ?case by (simp add: t1(1))
qed simp

lemma candidate_dict_count:
  "cn_candidate_count (candidate_dict rnd (foldl (candidate_observe clock) candidate_accumulator_init cands)) =
    int (length (acted cands))"
proof -
  have "sum_list (map snd (filter (\<lambda>item. fst item \<noteq> ''SIGNAL_NONE'')
      (foldl counter_add [] (map (\<lambda>row. action_name (cs_action row)) cands)))) = int (length (acted cands))"
    using counter_total [of "\<lambda>name. name \<noteq> ''SIGNAL_NONE''" "[]" "map (\<lambda>row. action_name (cs_action row)) cands"]
    by (simp add: filter_map o_def action_name_none acted_def)
  then show ?thesis by (simp add: candidate_dict_def candidate_observe_fold Let_def)
qed

text \<open>
  C17: No candidate and no event is lost by a streaming replay, numbered in advance or not: a replay that
  returns has counted every event as accepted or rejected and every candidate that its events gave, and
  its forward return rows are, up to the returns, exactly the eight rows, one for each horizon, of each
  of these candidates that acts, settled or left open at the end.
\<close>

theorem streaming_accounts_for_all:
  "case run_streaming_replay rnd summed fm item_text fac c clock presequenced events of
      Inl e \<Rightarrow> True
    | Inr r \<Rightarrow>
        let cands = streaming_candidates rnd fac c clock presequenced events in
        ct_accepted_features (sr_counts r) = int (length cands) \<and>
        ct_accepted_features (sr_counts r) + ct_rejected_events (sr_counts r) = int (length events) \<and>
        ct_session_events (sr_counts r) = int (length events) \<and>
        ct_candidate_count (sr_counts r) = int (length (acted cands)) \<and>
        mset (map open_row (sr_forward_rows r)) = mset (concat (map open_rows (acted cands))) \<and>
        fst (sr_forward_summary r) = 8 * ct_candidate_count (sr_counts r)"
proof (cases "run_streaming_replay rnd summed fm item_text fac c clock presequenced events")
  case (Inr r)
  then obtain m st t u where parts: "market_default (bc_num_symbols c) (bc_trade_window c) (bc_momentum_window c) (bc_vwap_window c) = Inr m"
    "sf_create fac (bc_num_symbols c) (bc_strategy c) = Inr st"
    and run: "fold_result (streaming_event rnd fac clock presequenced) (streaming_start c m st) events = Inr t"
    "streaming_end rnd t = Inr u" "r = streaming_result_of rnd summed fm item_text c clock u"
    by (auto simp: run_streaming_replay_def streaming_final_def rbind_eq_Inr)
  let ?cands = "streaming_candidates rnd fac c clock presequenced events"
  have "streaming_accounts clock [] (streaming_start c m st)"
    by (simp add: streaming_accounts_def streaming_start_def forward_init_def heaps_ok_def in_flight_def acted_def)
  from loop_accounts [OF this run(1)] have t: "streaming_accounts clock ?cands t" "sv_input_events t = int (length events)"
    by (simp_all add: streaming_candidates_def parts) (simp add: streaming_start_def)
  have "sv_forward u = sv_forward t \<and> sv_candidates u = sv_candidates t \<and> sv_accepted u = sv_accepted t \<and>
      sv_rejected u = sv_rejected t \<and> sv_input_events u = sv_input_events t"
    using run(2) by (auto simp: streaming_end_def case_prod_unfold Let_def dest!: close_accounts split: if_splits)
  with t have u: "streaming_accounts clock ?cands u" "sv_input_events u = int (length events)"
    using accounts_cong by (blast, simp)
  have rows: "mset (map open_row (sr_forward_rows r)) = in_flight (sv_forward u)"
    "fst (sr_forward_summary r) = int (length (sr_forward_rows r))"
    using finish_rows [of rnd item_text "sv_forward u"]
    by (simp_all add: run(3) streaming_result_of_def forward_finish_def summarize_rows_def case_prod_unfold Let_def)
  have "length (concat (map open_rows cs)) = 8 * length cs" for cs
    by (induction cs) (simp_all add: open_rows_def HORIZONS_NS_def)
  then have "length (sr_forward_rows r) = 8 * length (acted ?cands)"
    using arg_cong [OF rows(1), of size] u(1) by (simp add: streaming_accounts_def)
  with u rows show ?thesis
    unfolding Inr by (simp add: streaming_fields(5) [OF refl run(3)] candidate_dict_count streaming_accounts_def Let_def)
qed simp

end
