(* ===== verification/Provider_Values.thy ===== *)
theory Provider_Values
  imports Python_Text Float64
begin

text \<open>
  The values of provider documents, and the two conversions of \<open>tools/backtest/providers.py\<close> that
  turn them into integers: \<open>price_to_micro\<close> through \<open>decimal.Decimal\<close> and \<open>timestamp_to_ns\<close>.

  A document is what \<open>json.loads\<close> gives: an object is its list of entries, a float is its value with
  its \<open>repr\<close>. Infinite floats and not-a-number are outside the model. A \<open>Decimal\<close> is the rational it
  denotes, and an operation on it rounds to the 28 digits of the default context; the exponent limits
  of that context (six digits) are outside the model. \<open>datetime.fromisoformat\<close> is the argument \<open>from_iso\<close>:
  the microseconds since the epoch of a text with a zone, or what it raises.
\<close>

section \<open>Documents\<close>

datatype json =
    JNull
  | JBool bool
  | JInt int
  | JFloat rat string
  | JStr string
  | JList "json list"
  | JObj "(string \<times> json) list"

type_synonym json_object = "(string \<times> json) list"

text \<open>\<open>str\<close> of a scalar; \<open>None\<close> for arrays and objects, whose text is never a number or a word.\<close>

fun scalar_text :: "json \<Rightarrow> string option" where
  "scalar_text JNull = Some ''None''"
| "scalar_text (JBool b) = Some (if b then ''True'' else ''False'')"
| "scalar_text (JInt n) = Some (py_str_int n)"
| "scalar_text (JFloat x t) = Some t"
| "scalar_text (JStr s) = Some s"
| "scalar_text (JList vs) = None"
| "scalar_text (JObj m) = None"

text \<open>\<open>int\<close> of a value.\<close>

fun json_int :: "json \<Rightarrow> int result" where
  "json_int (JBool b) = Inr (of_bool b)"
| "json_int (JInt n) = Inr n"
| "json_int (JFloat x t) = Inr (py_trunc x)"
| "json_int (JStr s) = (case py_int10 s of None \<Rightarrow> Inl (ValueError ''invalid literal for int()'') | Some n \<Rightarrow> Inr n)"
| "json_int v = Inl (TypeError ''int() argument must be a string or a number'')"

text \<open>\<open>row.get(k, row.get(l, ...))\<close>: the value of the first key that is present, null or not.\<close>

fun row_get :: "json_object \<Rightarrow> string list \<Rightarrow> json" where
  "row_get row [] = JNull"
| "row_get row (k # ks) = (case map_of row k of Some v \<Rightarrow> v | None \<Rightarrow> row_get row ks)"

declare row_get.simps [simp del]

section \<open>Decimal numbers\<close>

datatype decimal = Finite rat | Infinite bool | QuietNaN | SignalNaN

definition ascii_digit :: "char \<Rightarrow> bool" where
  "ascii_digit c \<longleftrightarrow> 48 \<le> char_code c \<and> char_code c \<le> 57"

definition digits_value :: "string \<Rightarrow> int" where
  "digits_value s = foldl (\<lambda>n c. n * 10 + (int (char_code c) - 48)) 0 s"

definition scale10 :: "int \<Rightarrow> rat" where
  "scale10 e = (if 0 \<le> e then 10 ^ nat e else 1 / 10 ^ nat (- e))"

definition read_sign :: "string \<Rightarrow> int \<times> string" where
  "read_sign s =
     (case s of [] \<Rightarrow> (1, [])
      | c # cs \<Rightarrow> if c = CHR ''-'' then (- 1, cs) else if c = CHR ''+'' then (1, cs) else (1, c # cs))"

definition read_exponent :: "string \<Rightarrow> int option" where
  "read_exponent s =
     (case s of [] \<Rightarrow> Some 0
      | c # cs \<Rightarrow>
          let (sg, ds) = read_sign cs in
          if c \<in> {CHR ''e'', CHR ''E''} \<and> ds \<noteq> [] \<and> list_all ascii_digit ds then Some (sg * digits_value ds) else None)"

definition read_finite :: "int \<Rightarrow> string \<Rightarrow> decimal option" where
  "read_finite sg s =
     (let whole = takeWhile ascii_digit s; r = dropWhile ascii_digit s;
          dotted = (r \<noteq> [] \<and> hd r = CHR ''.'');
          frac = (if dotted then takeWhile ascii_digit (tl r) else []);
          r = (if dotted then dropWhile ascii_digit (tl r) else r) in
      if whole @ frac = [] then None
      else map_option (\<lambda>e. Finite (of_int (sg * digits_value (whole @ frac)) * scale10 (e - int (length frac))))
             (read_exponent r))"

text \<open>\<open>Decimal(text)\<close>; \<open>None\<close> where it raises \<open>InvalidOperation\<close>.\<close>

definition read_decimal_text :: "string \<Rightarrow> decimal option" where
  "read_decimal_text text =
     (let (sg, s) = read_sign (filter (\<lambda>c. c \<noteq> CHR ''_'') (py_strip text)); w = py_lower s in
      if w \<in> {''inf'', ''infinity''} then Some (Infinite (sg = - 1))
      else if take 3 w = ''nan'' \<and> list_all ascii_digit (drop 3 w) then Some QuietNaN
      else if take 4 w = ''snan'' \<and> list_all ascii_digit (drop 4 w) then Some SignalNaN
      else read_finite sg s)"

text \<open>The exponent of the leading digit, and rounding to 28 digits, ties to even.\<close>

function count_digits :: "int \<Rightarrow> int" where
  "count_digits n = (if n < 10 then 1 else count_digits (n div 10) + 1)"
  by pat_completeness auto
termination by (relation "measure nat") auto

declare count_digits.simps [simp del]

definition dec_magnitude :: "rat \<Rightarrow> int" where
  "dec_magnitude x =
     (let (p, q) = quotient_of \<bar>x\<bar>; k = count_digits p - count_digits q in
      if scale10 k \<le> \<bar>x\<bar> then k else k - 1)"

definition dec_round :: "rat \<Rightarrow> rat" where
  "dec_round x =
     (if x = 0 then 0
      else let u = scale10 (dec_magnitude x - 27) in of_int (round_half_even (x / u)) * u)"

section \<open>Prices\<close>

definition price_to_micro :: "json \<Rightarrow> int result" where
  "price_to_micro v =
     (case Option.bind (scalar_text v) read_decimal_text of
        None \<Rightarrow> Inl InvalidOperation
      | Some SignalNaN \<Rightarrow> Inl InvalidOperation
      | Some QuietNaN \<Rightarrow> Inl (ValueError ''price has more than six decimal places'')
      | Some (Infinite _) \<Rightarrow> Inl OverflowError
      | Some (Finite x) \<Rightarrow>
          let micro = dec_round (x * 1000000) in
          if micro = of_int \<lfloor>micro\<rfloor> then Inr \<lfloor>micro\<rfloor>
          else Inl (ValueError ''price has more than six decimal places''))"

section \<open>Timestamps\<close>

text \<open>A number of unknown unit: seconds, milliseconds, microseconds or nanoseconds by its size.\<close>

definition numeric_to_ns :: "int \<Rightarrow> int" where
  "numeric_to_ns n =
     (if n < 10000000000 then n * 1000000000
      else if n < 10000000000000 then n * 1000000
      else if n < 10000000000000000 then n * 1000
      else n)"

definition is_digit_text :: "string \<Rightarrow> bool" where
  "is_digit_text s \<longleftrightarrow> s \<noteq> [] \<and> list_all (\<lambda>c. ascii_digit c \<or> char_code c \<in> {178, 179, 185}) s"

text \<open>The zone at the end of a text, as what \<open>fromisoformat\<close> is given, with what stands before it.\<close>

definition split_zone :: "string \<Rightarrow> (string \<times> string) option" where
  "split_zone text =
     (let n = length text; z = drop (n - 6) text in
      if text \<noteq> [] \<and> last text = CHR ''Z'' then Some (butlast text, ''+00:00'')
      else if 6 \<le> n \<and> z ! 0 \<in> {CHR ''+'', CHR ''-''} \<and> ascii_digit (z ! 1) \<and> ascii_digit (z ! 2) \<and>
        z ! 3 = CHR '':'' \<and> ascii_digit (z ! 4) \<and> ascii_digit (z ! 5)
      then Some (take (n - 6) text, z) else None)"

text \<open>The fraction at the end of a text, if a point and at least one digit end it.\<close>

definition split_fraction :: "string \<Rightarrow> string \<times> string" where
  "split_fraction s =
     (let ds = rev (takeWhile ascii_digit (rev s)); base = rev (dropWhile ascii_digit (rev s)) in
      if ds \<noteq> [] \<and> base \<noteq> [] \<and> last base = CHR ''.'' then (butlast base, ds) else (s, []))"

definition fraction_ns :: "string \<Rightarrow> int" where
  "fraction_ns ds = digits_value (take 9 (ds @ ''000000000''))"

definition text_to_ns :: "(string \<Rightarrow> int result) \<Rightarrow> string \<Rightarrow> int result" where
  "text_to_ns from_iso text =
     (case split_zone text of
        None \<Rightarrow> Inl (ValueError ''invalid RFC-3339 timestamp'')
      | Some (head, zone) \<Rightarrow>
          let (base, ds) = split_fraction head in
          if CHR 0x0A \<in> set base then Inl (ValueError ''invalid RFC-3339 timestamp'')
          else rbind (from_iso (base @ zone)) (\<lambda>micros. Inr (micros * 1000 + fraction_ns ds)))"

definition timestamp_to_ns :: "(string \<Rightarrow> int result) \<Rightarrow> json \<Rightarrow> int result" where
  "timestamp_to_ns from_iso v =
     (case v of
        JFloat x t \<Rightarrow>
          if x = of_int \<lfloor>x\<rfloor> then Inr (numeric_to_ns \<lfloor>x\<rfloor>)
          else (case read_decimal_text t of
                  Some (Finite y) \<Rightarrow> Inr (py_trunc (dec_round (y * 1000000000)))
                | _ \<Rightarrow> Inl InvalidOperation)
      | JInt n \<Rightarrow> Inr (numeric_to_ns n)
      | JBool b \<Rightarrow> Inr (numeric_to_ns (of_bool b))
      | _ \<Rightarrow>
        (case scalar_text v of
           None \<Rightarrow> Inl (ValueError ''invalid RFC-3339 timestamp'')
         | Some s \<Rightarrow>
             let text = py_strip s in
             if is_digit_text text
             then if list_all ascii_digit text then Inr (numeric_to_ns (digits_value text))
                  else Inl (ValueError ''invalid literal for int()'')
             else text_to_ns from_iso text))"

section \<open>Rounding keeps numbers of 28 digits\<close>

lemma scale10_powi: "scale10 e = 10 powi e"
  by (simp add: scale10_def power_int_def field_simps)

lemma scale10_pos [simp]: "0 < scale10 e"
  by (simp add: scale10_powi)

lemma scale10_add: "scale10 (a + b) = scale10 a * scale10 b"
  by (simp add: scale10_powi power_int_add)

lemma scale10_nat: "scale10 (int n) = 10 ^ n"
  by (simp add: scale10_def)

lemma scale10_increasing:
  assumes "a < b"
  shows "scale10 a < scale10 b"
proof -
  have "1 < scale10 (b - a)" using assms by (simp add: scale10_def)
  then have "scale10 a * 1 < scale10 a * scale10 (b - a)" by (intro mult_strict_left_mono) simp_all
  then show ?thesis by (simp flip: scale10_add)
qed

lemma scale10_less: "scale10 a < scale10 b \<longleftrightarrow> a < b"
  using scale10_increasing [of a b] scale10_increasing [of b a] by (metis linorder_neqE order_less_asym)

lemma count_digits_pos: "1 \<le> count_digits n"
  by (induction n rule: count_digits.induct) (subst count_digits.simps, fastforce)

lemma count_digits_bounds:
  "1 \<le> n \<Longrightarrow> scale10 (count_digits n - 1) \<le> of_int n \<and> of_int n < scale10 (count_digits n)"
proof (induction n rule: count_digits.induct)
  case (1 n)
  show ?case
  proof (cases "n < 10")
    case True
    with 1 show ?thesis by (subst (1 2) count_digits.simps) (simp add: scale10_def)
  next
    case False
    let ?m = "n div 10"
    have step: "count_digits n = count_digits ?m + 1" using False by (subst count_digits.simps) simp
    have m: "scale10 (count_digits ?m - 1) \<le> of_int ?m" "of_int ?m < scale10 (count_digits ?m)"
      using 1 False by auto
    have pow: "scale10 (count_digits ?m) = of_int (10 ^ nat (count_digits ?m))"
      using count_digits_pos [of ?m] by (simp add: scale10_def)
    then have "?m + 1 \<le> 10 ^ nat (count_digits ?m)" using m(2) unfolding pow of_int_less_iff by simp
    then have "n < 10 * 10 ^ nat (count_digits ?m)" by simp
    then have "of_int n < (of_int (10 * 10 ^ nat (count_digits ?m)) :: rat)" by (simp only: of_int_less_iff)
    then have upper: "of_int n < scale10 (count_digits ?m) * scale10 1"
      unfolding pow by (simp add: scale10_def [of 1])
    have "10 * ?m \<le> n" by simp
    then have "(10 :: rat) * of_int ?m \<le> of_int n" by (simp only: of_int_le_iff [where 'a = rat, symmetric] of_int_mult of_int_numeral)
    with m(1) have "scale10 (count_digits ?m - 1) * scale10 1 \<le> of_int n" by (simp add: scale10_def [of 1])
    with upper show ?thesis
      by (simp add: step flip: scale10_add)
  qed
qed

lemma dec_magnitude_le:
  assumes "x \<noteq> 0"
  shows "scale10 (dec_magnitude x) \<le> \<bar>x\<bar>"
proof -
  obtain p q where pq: "quotient_of \<bar>x\<bar> = (p, q)" by fastforce
  then have q: "0 < q" and x: "\<bar>x\<bar> = of_int p / of_int q"
    by (auto intro: quotient_of_denom_pos quotient_of_div)
  have p: "1 \<le> p" using assms q x by (metis abs_le_zero_iff div_0 int_one_le_iff_zero_less linorder_not_le
      of_int_le_0_iff of_int_pos divide_le_0_iff order_less_imp_not_less)
  let ?k = "count_digits p - count_digits q"
  have "scale10 (?k - 1) * of_int q \<le> scale10 (?k - 1) * scale10 (count_digits q)"
    using count_digits_bounds [of q] q by (intro mult_left_mono) (auto simp: less_imp_le)
  also have "\<dots> \<le> of_int p"
    using count_digits_bounds [OF p] by (simp flip: scale10_add)
  finally have "scale10 (?k - 1) \<le> \<bar>x\<bar>" using q by (simp add: x pos_le_divide_eq)
  then show ?thesis by (simp add: dec_magnitude_def pq Let_def)
qed

lemma dec_round_exact:
  assumes "\<bar>c\<bar> < 10 ^ 28"
  shows "dec_round (of_int c * scale10 e) = of_int c * scale10 e"
proof (cases "c = 0")
  case False
  let ?x = "of_int c * scale10 e" and ?u = "dec_magnitude (of_int c * scale10 e) - 27"
  have nonzero: "?x \<noteq> 0" using False by (simp add: less_imp_neq [OF scale10_pos, symmetric])
  have "(of_int \<bar>c\<bar> :: rat) < of_int (10 ^ 28)" using assms by (simp only: of_int_less_iff)
  then have "of_int \<bar>c\<bar> * scale10 e < scale10 28 * scale10 e"
    by (intro mult_strict_right_mono) (simp_all add: scale10_def [of 28])
  moreover have "\<bar>?x\<bar> = of_int \<bar>c\<bar> * scale10 e"
    using scale10_pos [of e] by (simp only: abs_mult of_int_abs abs_of_pos)
  ultimately have "\<bar>?x\<bar> < scale10 28 * scale10 e" by simp
  with dec_magnitude_le [OF nonzero] have "scale10 (dec_magnitude ?x) < scale10 (28 + e)"
    unfolding scale10_add by simp
  then have le: "?u \<le> e" by (simp only: scale10_less)
  then have "scale10 e = of_int (10 ^ nat (e - ?u)) * scale10 ?u"
    using scale10_add [of "e - ?u" ?u] by (simp add: scale10_def [of "e - ?u"])
  then have split: "?x = of_int (c * 10 ^ nat (e - ?u)) * scale10 ?u" by simp
  then have "?x / scale10 ?u = of_int (c * 10 ^ nat (e - ?u))"
    by (simp add: less_imp_neq [OF scale10_pos, symmetric] divide_eq_eq)
  then show ?thesis
    using nonzero by (simp only: dec_round_def Let_def if_False round_half_even_int split [symmetric])
qed (simp add: dec_round_def)

text \<open>
  C34: A price text with at most 28 significant digits, in any spelling \<open>Decimal\<close> reads (sign, point,
  exponent, underscores), converts without an error of rounding: to its value in micro-dollars if that
  is a whole number, and to the \<open>ValueError\<close> about six decimal places otherwise.
\<close>

theorem price_is_exact:
  assumes "read_decimal_text t = Some (Finite (of_int c * scale10 e))" "\<bar>c\<bar> < 10 ^ 28"
  shows "price_to_micro (JStr t) =
    (if of_int c * scale10 (e + 6) \<in> \<int> then Inr \<lfloor>of_int c * scale10 (e + 6)\<rfloor>
     else Inl (ValueError ''price has more than six decimal places''))"
proof -
  have "of_int c * scale10 e * 1000000 = of_int c * scale10 (e + 6)"
    by (simp add: scale10_add scale10_def [of 6])
  with dec_round_exact [OF assms(2), of "e + 6"]
  have micro: "dec_round (of_int c * scale10 e * 1000000) = of_int c * scale10 (e + 6)"
    by (simp only:)
  have "x = of_int \<lfloor>x\<rfloor> \<longleftrightarrow> x \<in> \<int>" for x :: rat
    by (metis Ints_of_int floor_of_int Ints_cases)
  then show ?thesis
    by (simp add: price_to_micro_def assms(1) micro Let_def)
qed

theorem price_is_exact_witness:
  "price_to_micro (JStr ''-1_00.0200'') = Inr (- 100020000) \<and>
   price_to_micro (JStr ''25e-8'') = Inl (ValueError ''price has more than six decimal places'')"
proof
  have "read_decimal_text ''-1_00.0200'' = Some (Finite (of_int (- 1000200) * scale10 (- 4)))" by code_simp
  from price_is_exact [OF this] show "price_to_micro (JStr ''-1_00.0200'') = Inr (- 100020000)"
    by (simp add: scale10_def)
  have "read_decimal_text ''25e-8'' = Some (Finite (of_int 25 * scale10 (- 8)))" by code_simp
  from price_is_exact [OF this] show "price_to_micro (JStr ''25e-8'') = Inl (ValueError ''price has more than six decimal places'')"
    by (simp add: scale10_def)
qed

section \<open>Timestamps without a unit\<close>

lemma digits_value_snoc: "digits_value (cs @ [c]) = digits_value cs * 10 + (int (char_code c) - 48)"
  by (simp add: digits_value_def)

lemma digits_value_print: "digits_value (print_digits 10 n) = int n \<and> list_all ascii_digit (print_digits 10 n)"
proof (induction n rule: less_induct)
  case (less n)
  have digit: "d < 10 \<Longrightarrow> char_code (digit_char d) = 48 + d" for d :: nat
    using digit_char_code [of d] by simp
  show ?case
  proof (cases "n < 10")
    case True
    then show ?thesis
      by (subst (1 2) print_digits.simps) (simp add: digits_value_def ascii_digit_def digit)
  next
    case False
    then have "n div 10 < n" by simp
    have "int (n div 10) * 10 + int (n mod 10) = int n" by presburger
    with less [OF \<open>n div 10 < n\<close>] False show ?thesis
      by (subst (1 2) print_digits.simps) (simp add: digits_value_snoc ascii_digit_def [of "digit_char (n mod 10)"] digit)
  qed
qed

lemma strip_digits: "list_all ascii_digit s \<Longrightarrow> py_strip s = s"
  by (rule strip_plain) (auto simp: list_all_iff ascii_digit_def py_space_def Let_def)

lemma digit_text: "s \<noteq> [] \<Longrightarrow> list_all ascii_digit s \<Longrightarrow> is_digit_text s"
  by (simp add: is_digit_text_def list_all_iff)

text \<open>
  The unit of a numeric timestamp: a time between ten million and ten thousand million seconds after
  the epoch (April 1970 to November 2286) gives the same nanoseconds whether the provider writes it in
  seconds, milliseconds, microseconds or nanoseconds, and as a number or as its decimal text.
\<close>

theorem timestamp_units_agree:
  assumes "10 ^ 7 \<le> s" "s < 10 ^ 10" "unit \<in> {1, 10 ^ 3, 10 ^ 6, 10 ^ 9}"
  shows "timestamp_to_ns from_iso (JInt (s * unit)) = Inr (s * 10 ^ 9) \<and>
    timestamp_to_ns from_iso (JStr (py_str_int (s * unit))) = Inr (s * 10 ^ 9)"
proof -
  have number: "numeric_to_ns (s * unit) = s * 10 ^ 9"
    using assms by (auto simp: numeric_to_ns_def)
  have pos: "0 \<le> s * unit" using assms by auto
  let ?t = "print_digits 10 (nat (s * unit))"
  have printed: "list_all ascii_digit ?t" "digits_value ?t = s * unit" "?t \<noteq> []"
    using digits_value_print [of "nat (s * unit)"] print_digits_plain [of 10 "nat (s * unit)"] pos by auto
  show ?thesis
    using number pos printed digit_text [OF printed(3,1)]
    by (simp add: timestamp_to_ns_def py_str_int_def strip_digits)
qed

theorem timestamp_units_agree_witness:
  "timestamp_to_ns (\<lambda>_. Inl IndexError) (JInt 1704205800000) = Inr 1704205800000000000 \<and>
   timestamp_to_ns (\<lambda>_. Inl IndexError) (JStr (py_str_int 1704205800000)) = Inr 1704205800000000000"
  using timestamp_units_agree [of 1704205800 1000 "\<lambda>_. Inl IndexError"] by simp

end
