(* ===== verification/Provider_Adapter.thy ===== *)
theory Provider_Adapter
  imports Provider_Values Canonical_Events
begin

text \<open>
  \<open>AlpacaHistoricalAdapter\<close> of \<open>tools/backtest/providers.py\<close>: the parser that turns a document of
  quote and trade rows into normalized events, two for a quote and one for a trade, with consecutive
  sequence numbers.
\<close>

section \<open>The adapter\<close>

record adapter =
  ad_symbol :: "string option"
  ad_sequence_start :: int
  ad_quote_size_multiplier :: int
  ad_trade_size_multiplier :: int

definition adapter_init :: "string option \<Rightarrow> int \<Rightarrow> int \<Rightarrow> int \<Rightarrow> adapter result" where
  "adapter_init symbol start quote_size trade_size =
     (if quote_size < 1 \<or> trade_size < 1 then Inl (ValueError ''size multipliers must be positive'')
      else Inr \<lparr>ad_symbol = symbol, ad_sequence_start = start, ad_quote_size_multiplier = quote_size,
                ad_trade_size_multiplier = trade_size\<rparr>)"

section \<open>The rows of a document\<close>

fun json_list :: "json \<Rightarrow> json list option" where
  "json_list (JList vs) = Some vs"
| "json_list v = None"

definition payload_rows :: "adapter \<Rightarrow> json \<Rightarrow> json" where
  "payload_rows ad payload =
     (case payload of
        JObj m \<Rightarrow>
          let named = (case ad_symbol ad of Some symbol \<Rightarrow> if symbol = [] then None else map_of m symbol | None \<Rightarrow> None) in
          (case named of Some v \<Rightarrow> v | None \<Rightarrow>
          (case map_of m ''quotes'' of Some v \<Rightarrow> v | None \<Rightarrow>
          (case map_of m ''trades'' of Some v \<Rightarrow> v | None \<Rightarrow>
          (case Option.bind (map_of m ''data'') json_list of Some vs \<Rightarrow> JList vs | None \<Rightarrow>
          (case List.map_filter (\<lambda>(_, v). json_list v) m of vs # _ \<Rightarrow> JList vs | [] \<Rightarrow> JList [])))))
      | v \<Rightarrow> v)"

definition has_key :: "json_object \<Rightarrow> string list \<Rightarrow> bool" where
  "has_key row ks \<longleftrightarrow> list_ex (\<lambda>k. map_of row k \<noteq> None) ks"

definition is_trade :: "json_object \<Rightarrow> bool" where
  "is_trade row \<longleftrightarrow> has_key row [''p'', ''price''] \<and> has_key row [''s'', ''size'', ''quantity''] \<and>
     \<not> has_key row [''bp'', ''bid_price'', ''bid'']"

text \<open>The side of a trade; \<open>True\<close>, \<open>False\<close> and the floats equal to a side count as that side.\<close>

definition side_text :: "string \<Rightarrow> int result" where
  "side_text s =
     (let w = py_lower (py_strip s) in
      if w \<in> {''buy'', ''b'', ''ask'', ''1''} then Inr 1
      else if w \<in> {''sell'', ''s'', ''bid'', ''0'', []} then Inr 0
      else Inl (ValueError ''unsupported trade side''))"

definition trade_side :: "json \<Rightarrow> int result" where
  "trade_side v =
     (case v of
        JBool b \<Rightarrow> Inr (of_bool b)
      | JInt n \<Rightarrow> if n \<in> {0, 1} then Inr n else side_text (py_str_int n)
      | JFloat x t \<Rightarrow> if x \<in> {0, 1} then Inr (py_trunc x) else side_text t
      | _ \<Rightarrow> (case scalar_text v of None \<Rightarrow> Inl (ValueError ''unsupported trade side'') | Some s \<Rightarrow> side_text s))"

text \<open>The side of a row, 0 where neither key is present.\<close>

definition row_side :: "json_object \<Rightarrow> json" where
  "row_side row = (if has_key row [''side'', ''taker_side''] then row_get row [''side'', ''taker_side''] else JInt 0)"

definition row_timestamp :: "json_object \<Rightarrow> json" where
  "row_timestamp row = row_get row [''t'', ''timestamp'', ''time'']"

definition alpaca_event ::
  "int \<Rightarrow> int \<Rightarrow> int \<Rightarrow> int \<Rightarrow> int \<Rightarrow> int \<Rightarrow> int option \<Rightarrow> int \<Rightarrow> string \<Rightarrow> normalized_event" where
  "alpaca_event ts kind symbol_id price quantity side sequence index source =
     \<lparr>ne_timestamp_ns = ts, ne_event_type = kind, ne_symbol_id = symbol_id, ne_price = price, ne_quantity = quantity,
      ne_side = side, ne_sequence = sequence, ne_flags = 0, ne_source_index = index, ne_source = source\<rparr>"

definition adapter_trade ::
  "(string \<Rightarrow> int result) \<Rightarrow> adapter \<Rightarrow> int \<Rightarrow> int \<Rightarrow> int \<Rightarrow> json_object \<Rightarrow> normalized_event list result" where
  "adapter_trade from_iso ad symbol_id index sequence row =
     rbind (price_to_micro (row_get row [''p'', ''price''])) (\<lambda>price.
     rbind (json_int (row_get row [''s'', ''size'', ''quantity''])) (\<lambda>size.
     rbind (trade_side (row_side row)) (\<lambda>side.
     rbind (timestamp_to_ns from_iso (row_timestamp row)) (\<lambda>ts.
     Inr [alpaca_event ts MSG_MARKET_TRADE symbol_id price (size * ad_trade_size_multiplier ad) side (Some sequence)
            index ''alpaca'']))))"

definition adapter_quote ::
  "(string \<Rightarrow> int result) \<Rightarrow> adapter \<Rightarrow> int \<Rightarrow> int \<Rightarrow> int \<Rightarrow> json_object \<Rightarrow> normalized_event list result" where
  "adapter_quote from_iso ad symbol_id index sequence row =
     (let bid_price = row_get row [''bp'', ''bid_price'', ''bid'']; bid_size = row_get row [''bs'', ''bid_size'', ''bid_quantity''];
          ask_price = row_get row [''ap'', ''ask_price'', ''ask'']; ask_size = row_get row [''as'', ''ask_size'', ''ask_quantity''] in
      if JNull \<in> {bid_price, bid_size, ask_price, ask_size}
      then Inl (ValueError ''Alpaca quote row is missing bid/ask fields'')
      else
        rbind (timestamp_to_ns from_iso (row_timestamp row)) (\<lambda>ts.
        rbind (price_to_micro bid_price) (\<lambda>bid.
        rbind (json_int bid_size) (\<lambda>bid_quantity.
        rbind (price_to_micro ask_price) (\<lambda>ask.
        rbind (json_int ask_size) (\<lambda>ask_quantity.
        Inr [alpaca_event ts MSG_MARKET_QUOTE symbol_id bid (bid_quantity * ad_quote_size_multiplier ad) 0 (Some sequence)
               (index * 2) ''alpaca'',
             alpaca_event ts MSG_MARKET_QUOTE symbol_id ask (ask_quantity * ad_quote_size_multiplier ad) 1
               (Some (sequence + 1)) (index * 2 + 1) ''alpaca'']))))))"

definition adapter_row ::
  "(string \<Rightarrow> int result) \<Rightarrow> adapter \<Rightarrow> int \<Rightarrow> int \<Rightarrow> int \<Rightarrow> json \<Rightarrow> normalized_event list result" where
  "adapter_row from_iso ad symbol_id index sequence v =
     (case v of
        JObj row \<Rightarrow>
          if row_timestamp row = JNull then Inl (ValueError ''Alpaca row has no timestamp'')
          else if is_trade row then adapter_trade from_iso ad symbol_id index sequence row
          else adapter_quote from_iso ad symbol_id index sequence row
      | _ \<Rightarrow> Inl (ValueError ''Alpaca row is not an object''))"

text \<open>The loop over the rows; the sequence advances by one for a trade and by two for a quote.\<close>

fun adapter_rows ::
  "(string \<Rightarrow> int result) \<Rightarrow> adapter \<Rightarrow> int \<Rightarrow> int \<Rightarrow> int \<Rightarrow> json list \<Rightarrow> normalized_event list result" where
  "adapter_rows from_iso ad symbol_id index sequence [] = Inr []"
| "adapter_rows from_iso ad symbol_id index sequence (v # vs) =
     rbind (adapter_row from_iso ad symbol_id index sequence v) (\<lambda>events.
     rbind (adapter_rows from_iso ad symbol_id (index + 1) (sequence + int (length events)) vs) (\<lambda>more.
     Inr (events @ more)))"

definition adapter_parse ::
  "(string \<Rightarrow> int result) \<Rightarrow> adapter \<Rightarrow> json \<Rightarrow> int \<Rightarrow> normalized_event list result" where
  "adapter_parse from_iso ad payload symbol_id =
     (case json_list (payload_rows ad payload) of
        None \<Rightarrow> Inl (ValueError ''Alpaca payload must contain a list of quote/trade rows'')
      | Some rows \<Rightarrow> adapter_rows from_iso ad symbol_id 0 (ad_sequence_start ad) rows)"

section \<open>What the rows give\<close>

fun row_is_trade :: "json \<Rightarrow> bool" where
  "row_is_trade (JObj row) = is_trade row"
| "row_is_trade v = False"

definition row_width :: "json \<Rightarrow> nat" where
  "row_width v = (if row_is_trade v then 1 else 2)"

definition numbers_from :: "int \<Rightarrow> nat \<Rightarrow> int list" where
  "numbers_from start n = map (\<lambda>i. start + int i) [0..<n]"

lemma numbers_from_append: "numbers_from start m @ numbers_from (start + int m) n = numbers_from start (m + n)"
proof -
  have "[0..<m + n] = [0..<m] @ map (\<lambda>i. i + m) [0..<n]"
    by (subst upt_add_eq_append) (simp_all add: map_add_upt add.commute)
  then show ?thesis by (simp add: numbers_from_def comp_def ac_simps)
qed

lemma numbers_from_small: "numbers_from start (Suc 0) = [start]" "numbers_from start 2 = [start, start + 1]"
  by (simp_all add: numbers_from_def numeral_2_eq_2)

lemma adapter_trade_events:
  assumes "adapter_trade from_iso ad symbol_id index sequence row = Inr events"
  shows "length events = 1 \<and> map ne_sequence events = [Some sequence] \<and> map ne_source_index events = [index] \<and>
    (\<forall>e\<in>set events. ne_symbol_id e = symbol_id)"
proof -
  obtain ts price quantity side where
    "events = [alpaca_event ts MSG_MARKET_TRADE symbol_id price quantity side (Some sequence) index ''alpaca'']"
    using assms unfolding adapter_trade_def by (elim rbind_InrE, simp) blast
  then show ?thesis by (simp add: alpaca_event_def)
qed

lemma adapter_quote_events:
  assumes "adapter_quote from_iso ad symbol_id index sequence row = Inr events"
  shows "length events = 2 \<and> map ne_sequence events = [Some sequence, Some (sequence + 1)] \<and>
    map ne_source_index events = [index * 2, index * 2 + 1] \<and> (\<forall>e\<in>set events. ne_symbol_id e = symbol_id)"
proof -
  obtain ts bid bid_quantity ask ask_quantity where
    "events = [alpaca_event ts MSG_MARKET_QUOTE symbol_id bid bid_quantity 0 (Some sequence) (index * 2) ''alpaca'',
       alpaca_event ts MSG_MARKET_QUOTE symbol_id ask ask_quantity 1 (Some (sequence + 1)) (index * 2 + 1) ''alpaca'']"
    using assms unfolding adapter_quote_def Let_def
    by (split if_split_asm) (simp, elim rbind_InrE, simp, blast)
  then show ?thesis by (simp add: alpaca_event_def)
qed

lemma adapter_row_events:
  assumes "adapter_row from_iso ad symbol_id index sequence v = Inr events"
  shows "length events = row_width v \<and> map ne_sequence events = map Some (numbers_from sequence (row_width v)) \<and>
    map ne_source_index events = (if row_is_trade v then [index] else numbers_from (index * 2) 2) \<and>
    (\<forall>e\<in>set events. ne_symbol_id e = symbol_id)"
proof -
  obtain row where v: "v = JObj row"
    using assms by (cases v) (simp_all add: adapter_row_def)
  show ?thesis
  proof (cases "is_trade row")
    case True
    then have "adapter_trade from_iso ad symbol_id index sequence row = Inr events"
      using assms by (simp add: v adapter_row_def split: if_splits)
    from adapter_trade_events [OF this] True show ?thesis by (simp add: v row_width_def numbers_from_small)
  next
    case False
    then have "adapter_quote from_iso ad symbol_id index sequence row = Inr events"
      using assms by (simp add: v adapter_row_def split: if_splits)
    from adapter_quote_events [OF this] False show ?thesis by (simp add: v row_width_def numbers_from_small)
  qed
qed

lemma adapter_rows_events:
  "adapter_rows from_iso ad symbol_id index sequence vs = Inr events \<Longrightarrow>
   length events = sum_list (map row_width vs) \<and>
   map ne_sequence events = map Some (numbers_from sequence (length events)) \<and>
   (\<forall>e\<in>set events. ne_symbol_id e = symbol_id)"
proof (induction vs arbitrary: index sequence events)
  case Nil
  then show ?case by (simp add: numbers_from_def)
next
  case (Cons v vs)
  then obtain es more where row: "adapter_row from_iso ad symbol_id index sequence v = Inr es"
    "adapter_rows from_iso ad symbol_id (index + 1) (sequence + int (length es)) vs = Inr more" "events = es @ more"
    by (auto simp: rbind_eq_Inr)
  from Cons.IH [OF row(2)] adapter_row_events [OF row(1)] show ?case
    by (auto simp: row(3) simp flip: numbers_from_append)
qed

lemma adapter_rows_indices:
  assumes "adapter_rows from_iso ad symbol_id index sequence vs = Inr events"
  shows "list_all row_is_trade vs \<Longrightarrow> map ne_source_index events = numbers_from index (length events)"
    and "list_all (\<lambda>v. \<not> row_is_trade v) vs \<Longrightarrow> map ne_source_index events = numbers_from (index * 2) (length events)"
  using assms
proof (induction vs arbitrary: index sequence events)
  case (Cons v vs)
  {
    case 1
    then obtain es more where row: "adapter_row from_iso ad symbol_id index sequence v = Inr es"
      "adapter_rows from_iso ad symbol_id (index + 1) (sequence + int (length es)) vs = Inr more" "events = es @ more"
      by (auto simp: rbind_eq_Inr)
    have "length es = 1" "map ne_source_index es = numbers_from index 1"
      using adapter_row_events [OF row(1)] 1 by (simp_all add: row_width_def numbers_from_small)
    with Cons.IH(1) [OF _ row(2)] 1 show ?case
      using numbers_from_append [of index 1 "length more"] by (simp add: row(3))
  next
    case 2
    then obtain es more where row: "adapter_row from_iso ad symbol_id index sequence v = Inr es"
      "adapter_rows from_iso ad symbol_id (index + 1) (sequence + int (length es)) vs = Inr more" "events = es @ more"
      by (auto simp: rbind_eq_Inr)
    have "length es = 2" "map ne_source_index es = numbers_from (index * 2) 2"
      using adapter_row_events [OF row(1)] 2 by (simp_all add: row_width_def)
    with Cons.IH(2) [OF _ row(2)] 2 show ?case
      using numbers_from_append [of "index * 2" 2 "length more"] by (simp add: row(3) algebra_simps)
  }
qed (simp_all add: numbers_from_def)

lemma ordered_by_index:
  assumes "sorted (map ne_timestamp_ns events)" "\<forall>e\<in>set events. ne_symbol_id e = symbol_id"
    and "map ne_source_index events = numbers_from start (length events)"
  shows "sort_events events = events"
proof -
  have "ne_source_index (events ! i) = start + int i" if "i < length events" for i
    using arg_cong [OF assms(3), of "\<lambda>xs. xs ! i"] that by (simp add: numbers_from_def)
  then have "sorted (map event_key events)"
    using assms(1,2) by (auto simp: sorted_iff_nth_mono_less event_key_def less_eq_prod_def less_le)
  then show ?thesis by (simp add: sort_events_def sort_key_id_if_sorted)
qed

text \<open>
  C35: The adapter's events: a document it accepts gives one event per trade row and two per quote row, all
  of the requested symbol, numbered without gaps from the start number; and when the document holds only
  trades or only quotes, in time order, the events are already in the replay order.
\<close>

theorem adapter_events_ordered:
  assumes "adapter_parse from_iso ad payload symbol_id = Inr events" "json_list (payload_rows ad payload) = Some vs"
  shows "length events = sum_list (map row_width vs) \<and>
    map ne_sequence events = map Some (numbers_from (ad_sequence_start ad) (length events)) \<and>
    (\<forall>e\<in>set events. ne_symbol_id e = symbol_id) \<and>
    ((list_all row_is_trade vs \<or> list_all (\<lambda>v. \<not> row_is_trade v) vs) \<and> sorted (map ne_timestamp_ns events) \<longrightarrow>
      sort_events events = events)"
proof -
  have rows: "adapter_rows from_iso ad symbol_id 0 (ad_sequence_start ad) vs = Inr events"
    using assms by (simp add: adapter_parse_def)
  note adapter_rows_events [OF rows]
  moreover have "sort_events events = events" if "list_all row_is_trade vs \<or> list_all (\<lambda>v. \<not> row_is_trade v) vs"
    "sorted (map ne_timestamp_ns events)"
    using that calculation ordered_by_index [OF that(2), of symbol_id] adapter_rows_indices [OF rows] by fastforce
  ultimately show ?thesis by blast
qed

section \<open>A document of two quotes\<close>

definition demo_adapter :: adapter where
  "demo_adapter = \<lparr>ad_symbol = None, ad_sequence_start = 1, ad_quote_size_multiplier = 100, ad_trade_size_multiplier = 1\<rparr>"

definition demo_row :: "int \<Rightarrow> json" where
  "demo_row ts = JObj [(''t'', JInt ts), (''bp'', JStr ''100.00''), (''bs'', JInt 10), (''ap'', JStr ''100.02''), (''as'', JInt 12)]"

definition demo_document :: json where
  "demo_document = JObj [(''quotes'', JList [demo_row 1704205800, demo_row 1704205801]), (''trades'', JList [])]"

definition demo_quote :: "int \<Rightarrow> int \<Rightarrow> int \<Rightarrow> int \<Rightarrow> int \<Rightarrow> normalized_event" where
  "demo_quote ts price quantity side n =
     alpaca_event ts 1 0 price quantity side (Some n) (n - 1) ''alpaca''"

definition demo_events :: "normalized_event list" where
  "demo_events =
     [demo_quote 1704205800000000000 100000000 1000 0 1, demo_quote 1704205800000000000 100020000 1200 1 2,
      demo_quote 1704205801000000000 100000000 1000 0 3, demo_quote 1704205801000000000 100020000 1200 1 4]"

lemma demo_parse: "adapter_parse (\<lambda>_. Inl IndexError) demo_adapter demo_document 0 = Inr demo_events"
  by code_simp

theorem adapter_events_ordered_witness:
  "map ne_sequence demo_events = map Some (numbers_from 1 4) \<and> sort_events demo_events = demo_events"
proof -
  have rows: "json_list (payload_rows demo_adapter demo_document) = Some [demo_row 1704205800, demo_row 1704205801]"
    by code_simp
  have "list_all (\<lambda>v. \<not> row_is_trade v) [demo_row 1704205800, demo_row 1704205801]" "sorted (map ne_timestamp_ns demo_events)"
    "length demo_events = 4" by code_simp+
  with adapter_events_ordered [OF demo_parse rows] show ?thesis by (simp add: demo_adapter_def)
qed

end
