(* ===== verification/Streaming_Partitions.thy ===== *)
theory Streaming_Partitions
  imports Provider_Adapter Canonical_Correct
begin

text \<open>
  The normalisation of \<open>tools/backtest/streaming.py\<close>: the events of the quote and trade files of each day
  and symbol, merged in replay order by \<open>heapq.merge\<close> as they are read. A generator is what it
  yields and the exception that ends it.
\<close>

section \<open>The events of one file\<close>

definition then_stream :: "'a stream \<Rightarrow> 'a stream \<Rightarrow> 'a stream" where
  "then_stream s t = (case snd s of None \<Rightarrow> (fst s @ fst t, snd t) | Some e \<Rightarrow> s)"

definition partition_source :: "string \<Rightarrow> string \<Rightarrow> string \<Rightarrow> string" where
  "partition_source day_text symbol kind = ''alpaca://iex/'' @ day_text @ ''/'' @ symbol @ ''/'' @ kind"

definition trade_record ::
  "(string \<Rightarrow> int result) \<Rightarrow> int \<Rightarrow> int \<Rightarrow> string \<Rightarrow> json_object \<Rightarrow> normalized_event stream" where
  "trade_record from_iso symbol_id index source row =
     (case rbind (timestamp_to_ns from_iso (row_timestamp row)) (\<lambda>ts.
           rbind (price_to_micro (row_get row [''p'', ''price''])) (\<lambda>price.
           rbind (json_int (row_get row [''s'', ''size'', ''quantity''])) (\<lambda>size.
           rbind (trade_side (row_side row)) (\<lambda>side.
           Inr (alpaca_event ts 2 symbol_id price size side None index source))))) of
        Inl e \<Rightarrow> ([], Some e)
      | Inr event \<Rightarrow> ([event], None))"

text \<open>One side of a quote; a quote yields its bid before it looks at its ask.\<close>

definition quote_side ::
  "int \<Rightarrow> int \<Rightarrow> int \<Rightarrow> string \<Rightarrow> int \<Rightarrow> json \<Rightarrow> json \<Rightarrow> normalized_event stream" where
  "quote_side ts symbol_id index source side price amount =
     (case rbind (price_to_micro price) (\<lambda>price.
           rbind (json_int amount) (\<lambda>quantity.
           Inr (alpaca_event ts 1 symbol_id price (quantity * 100) side None index source))) of
        Inl e \<Rightarrow> ([], Some e)
      | Inr event \<Rightarrow> ([event], None))"

definition quote_record ::
  "(string \<Rightarrow> int result) \<Rightarrow> int \<Rightarrow> int \<Rightarrow> string \<Rightarrow> json_object \<Rightarrow> normalized_event stream" where
  "quote_record from_iso symbol_id index source row =
     (case timestamp_to_ns from_iso (row_timestamp row) of
        Inl e \<Rightarrow> ([], Some e)
      | Inr ts \<Rightarrow>
          then_stream
            (quote_side ts symbol_id index source 0 (row_get row [''bp'', ''bid_price'', ''bid''])
               (row_get row [''bs'', ''bid_size'', ''bid_quantity'']))
            (quote_side ts symbol_id index source 1 (row_get row [''ap'', ''ask_price'', ''ask''])
               (row_get row [''as'', ''ask_size'', ''ask_quantity''])))"

fun record_events ::
  "(int \<Rightarrow> json_object \<Rightarrow> normalized_event stream) \<Rightarrow> int \<Rightarrow> json_object list \<Rightarrow> py_error option \<Rightarrow> normalized_event stream" where
  "record_events f index [] e = ([], e)"
| "record_events f index (row # rows) e = then_stream (f index row) (record_events f (index + 1) rows e)"

text \<open>
  \<open>read path kind\<close> is what \<open>iter_json_array\<close> yields for a file. The file is opened, and its path looked
  up, when the first event is asked for.
\<close>

definition source_events ::
  "(string \<Rightarrow> int result) \<Rightarrow> (string \<Rightarrow> string \<Rightarrow> json_object stream) \<Rightarrow> ((string \<times> string \<times> string) \<times> string) list \<Rightarrow>
     string \<Rightarrow> string \<Rightarrow> int \<Rightarrow> string \<Rightarrow> normalized_event stream" where
  "source_events from_iso read path_map day_text symbol symbol_id kind =
     (case map_of path_map (day_text, symbol, kind) of
        None \<Rightarrow> ([], Some KeyError)
      | Some path \<Rightarrow>
          let (rows, e) = read path kind; source = partition_source day_text symbol kind in
          record_events
            (\<lambda>index. if kind = ''trades'' then trade_record from_iso symbol_id index source
                     else quote_record from_iso symbol_id index source) 0 rows e)"

section \<open>\<open>heapq.merge\<close>\<close>

text \<open>The position of the first smallest key.\<close>

fun first_least :: "'k::linorder list \<Rightarrow> nat" where
  "first_least [] = 0"
| "first_least [k] = 0"
| "first_least (k # ks) = (let i = first_least ks in if k \<le> ks ! i then 0 else Suc i)"

definition remove_at :: "nat \<Rightarrow> 'a list \<Rightarrow> 'a list" where
  "remove_at i xs = take i xs @ drop (Suc i) xs"

lemma sum_list_at:
  assumes "i < length ss"
  shows "sum_list (map f ss) = (f (ss ! i) + sum_list (map f (remove_at i ss)) :: nat)"
    and "sum_list (map f (ss[i := s])) = (f s + sum_list (map f (remove_at i ss)) :: nat)"
proof -
  show "sum_list (map f ss) = f (ss ! i) + sum_list (map f (remove_at i ss))"
    by (subst id_take_nth_drop [OF assms]) (simp add: remove_at_def)
  show "sum_list (map f (ss[i := s])) = f s + sum_list (map f (remove_at i ss))"
    using assms by (simp add: upd_conv_take_nth_drop remove_at_def)
qed

text \<open>
  The loop over generators that each hold their next element: yield the smallest head, the first
  generator winning a tie, then advance that generator, which may end or raise.
\<close>

function merge_loop :: "('a \<Rightarrow> 'k::linorder) \<Rightarrow> 'a stream list \<Rightarrow> 'a stream" where
  "merge_loop key ss =
     (let i = first_least (map (key \<circ> hd \<circ> fst) ss) in
      if i < length ss \<and> fst (ss ! i) \<noteq> []
      then
        let (xs, e) = ss ! i in
        yields (hd xs)
          (if tl xs \<noteq> [] then merge_loop key (ss[i := (tl xs, e)])
           else case e of Some err \<Rightarrow> ([], Some err) | None \<Rightarrow> merge_loop key (remove_at i ss))
      else ([], None))"
  by pat_completeness auto
termination
proof (relation "measure (\<lambda>(key, ss). sum_list (map (length \<circ> fst) ss))", goal_cases)
  case (2 key ss i s xs e)
  then have i: "i < length ss" and cell: "ss ! i = (xs, e)" "xs \<noteq> []" by (metis, metis, metis fst_conv)
  then have "sum_list (map (length \<circ> fst) ss) = length xs + sum_list (map (length \<circ> fst) (remove_at i ss))"
    "sum_list (map (length \<circ> fst) (ss[i := (tl xs, e)])) = length xs - 1 + sum_list (map (length \<circ> fst) (remove_at i ss))"
    by (simp_all add: sum_list_at [OF i])
  with cell(2) show ?case by simp
next
  case (3 key ss i s xs e)
  then have i: "i < length ss" and cell: "ss ! i = (xs, e)" "xs \<noteq> []" by (metis, metis, metis fst_conv)
  then have "sum_list (map (length \<circ> fst) ss) = length xs + sum_list (map (length \<circ> fst) (remove_at i ss))"
    by (simp_all add: sum_list_at [OF i])
  with cell(2) show ?case by simp
qed simp

declare merge_loop.simps [simp del]

text \<open>The generators are advanced once in order before anything is yielded.\<close>

definition merge_streams :: "('a \<Rightarrow> 'k::linorder) \<Rightarrow> 'a stream list \<Rightarrow> 'a stream" where
  "merge_streams key ss =
     (case filter (\<lambda>s. fst s = [] \<and> snd s \<noteq> None) ss of
        s # _ \<Rightarrow> s
      | [] \<Rightarrow> merge_loop key (filter (\<lambda>s. fst s \<noteq> []) ss))"

definition iter_normalized_partition ::
  "(string \<Rightarrow> int result) \<Rightarrow> (string \<Rightarrow> string \<Rightarrow> json_object stream) \<Rightarrow> ((string \<times> string \<times> string) \<times> string) list \<Rightarrow>
     string \<Rightarrow> string \<Rightarrow> int \<Rightarrow> normalized_event stream" where
  "iter_normalized_partition from_iso read path_map day_text symbol symbol_id =
     merge_streams event_key
       [source_events from_iso read path_map day_text symbol symbol_id ''quotes'',
        source_events from_iso read path_map day_text symbol symbol_id ''trades'']"

definition iter_all_normalized ::
  "(string \<Rightarrow> int result) \<Rightarrow> (string \<Rightarrow> string \<Rightarrow> json_object stream) \<Rightarrow> ((string \<times> string \<times> string) \<times> string) list \<Rightarrow>
     string list \<Rightarrow> (string \<times> int) list \<Rightarrow> normalized_event stream" where
  "iter_all_normalized from_iso read path_map dates symbol_ids =
     merge_streams event_key
       (concat (map (\<lambda>day_text. map (\<lambda>(symbol, symbol_id).
          iter_normalized_partition from_iso read path_map day_text symbol symbol_id) symbol_ids) dates))"

section \<open>Merging sorted generators\<close>

lemma first_least_spec:
  "ks \<noteq> [] \<Longrightarrow> first_least ks < length ks \<and> (\<forall>j<first_least ks. ks ! first_least ks < ks ! j) \<and>
     (\<forall>j<length ks. ks ! first_least ks \<le> ks ! j)"
proof (induction ks rule: first_least.induct)
  case (3 k l ks)
  let ?i = "first_least (l # ks)"
  from 3 have IH: "?i < length (l # ks)" "\<forall>j<?i. (l # ks) ! ?i < (l # ks) ! j"
    "\<forall>j<length (l # ks). (l # ks) ! ?i \<le> (l # ks) ! j" by blast+
  show ?case
  proof (cases "k \<le> (l # ks) ! ?i")
    case True
    with IH show ?thesis by (auto simp: Let_def All_less_Suc2 intro: order_trans)
  next
    case False
    with IH show ?thesis by (auto simp: Let_def All_less_Suc2)
  qed
qed simp_all

lemma sort_key_pick:
  assumes "\<forall>a\<in>set as. key x < key a" "\<forall>b\<in>set bs. key x \<le> key b"
  shows "sort_key key (as @ x # bs) = x # sort_key key (as @ bs)"
  using assms(1)
proof (induction as)
  case Nil
  show ?case using assms(2) by (simp add: insort_is_Cons)
qed auto

lemma merge_loop_sorts:
  assumes "\<forall>s\<in>set ss. fst s \<noteq> [] \<and> snd s = None \<and> sorted (map key (fst s))"
  shows "merge_loop key ss = (sort_key key (concat (map fst ss)), None)"
  using assms
proof (induction key ss rule: merge_loop.induct)
  case (1 key ss)
  show ?case
  proof (cases "ss = []")
    case True
    then show ?thesis by (subst merge_loop.simps) simp
  next
    case False
    let ?i = "first_least (map (key \<circ> hd \<circ> fst) ss)"
    obtain i where i: "i = ?i" "i < length ss" "\<forall>j<i. key (hd (fst (ss ! i))) < key (hd (fst (ss ! j)))"
      "\<forall>j<length ss. key (hd (fst (ss ! i))) \<le> key (hd (fst (ss ! j)))"
      using first_least_spec [of "map (key \<circ> hd \<circ> fst) ss"] False by (auto simp: all_set_conv_all_nth)
    obtain x ys where cell: "ss ! i = (x # ys, None)"
      using 1(3) i(2) by (metis list.exhaust nth_mem prod.collapse)
    have least: "key x \<le> key (hd (fst s)) \<and> key x \<le> key a" if "s \<in> set ss" "a \<in> set (fst s)" for s a
    proof -
      have "key x \<le> key (hd (fst s))" using i(4) that(1) by (auto simp: in_set_conv_nth cell)
      moreover have "key (hd (fst s)) \<le> key a"
        using 1(3) that by (cases "fst s") force+
      ultimately show ?thesis by (auto intro: order_trans)
    qed
    have before: "key x < key a" if "s \<in> set (take i ss)" "a \<in> set (fst s)" for s a
    proof -
      have s: "s \<in> set ss" using that(1) by (auto dest: in_set_takeD)
      have "key x < key (hd (fst s))" using i(2,3) that(1) by (auto simp: in_set_conv_nth cell)
      moreover have "key (hd (fst s)) \<le> key a" using 1(3) s that(2) by (cases "fst s") force+
      ultimately show ?thesis by (rule less_le_trans)
    qed
    have split: "ss = take i ss @ (x # ys, None) # drop (Suc i) ss"
      using id_take_nth_drop [OF i(2)] by (simp add: cell)
    let ?as = "concat (map fst (take i ss))" and ?bs = "ys @ concat (map fst (drop (Suc i) ss))"
    have "concat (map fst ss) = ?as @ x # ?bs"
      by (subst split) simp
    moreover have "\<forall>a\<in>set ?as. key x < key a" using before by auto
    moreover have "\<forall>b\<in>set ?bs. key x \<le> key b"
      using least [of "(x # ys, None)"] least nth_mem [OF i(2)] by (auto simp: cell dest: in_set_dropD)
    ultimately have sort: "sort_key key (concat (map fst ss)) = x # sort_key key (?as @ ?bs)"
      by (simp only: sort_key_pick)
    have step: "merge_loop key ss =
        yields x (if ys \<noteq> [] then merge_loop key (ss[i := (ys, None)]) else merge_loop key (remove_at i ss))"
      using i(2) by (subst merge_loop.simps) (simp add: cell Let_def flip: i(1))
    show ?thesis
    proof (cases "ys = []")
      case True
      have "\<forall>s\<in>set (remove_at i ss). fst s \<noteq> [] \<and> snd s = None \<and> sorted (map key (fst s))"
        using 1(3) by (auto simp: remove_at_def dest: in_set_takeD in_set_dropD)
      with 1(2) [OF i(1) _ refl cell [symmetric]] i(2) True cell
      have "merge_loop key (remove_at i ss) = (sort_key key (concat (map fst (remove_at i ss))), None)"
        by (simp add: cell)
      then show ?thesis
        using True by (simp add: step sort yields_def remove_at_def)
    next
      case False
      have "\<forall>s\<in>set (ss[i := (ys, None)]). fst s \<noteq> [] \<and> snd s = None \<and> sorted (map key (fst s))"
        using 1(3) nth_mem [OF i(2)] False by (fastforce simp: cell dest!: set_update_subset_insert [THEN subsetD])
      with 1(1) [OF i(1) _ refl cell [symmetric]] i(2) False cell
      have "merge_loop key (ss[i := (ys, None)]) = (sort_key key (concat (map fst (ss[i := (ys, None)]))), None)"
        by (simp add: cell)
      then show ?thesis
        using i(2) False by (simp add: step sort yields_def upd_conv_take_nth_drop)
    qed
  qed
qed

lemma merge_streams_sorts:
  assumes "\<forall>s\<in>set ss. snd s = None \<and> sorted (map key (fst s))"
  shows "merge_streams key ss = (sort_key key (concat (map fst ss)), None)"
proof -
  have "filter (\<lambda>s. fst s = [] \<and> snd s \<noteq> None) ss = []" using assms by (auto simp: filter_empty_conv)
  moreover have "merge_loop key (filter (\<lambda>s. fst s \<noteq> []) ss) =
      (sort_key key (concat (map fst (filter (\<lambda>s. fst s \<noteq> []) ss))), None)"
    by (rule merge_loop_sorts) (use assms in auto)
  moreover have "concat (map fst (filter (\<lambda>s. fst s \<noteq> []) ss)) = concat (map fst ss)"
    by (induction ss) auto
  ultimately show ?thesis by (simp add: merge_streams_def)
qed

lemma sort_key_concat_sorted: "sort_key key (concat (map (sort_key key) xss)) = sort_key key (concat xss)"
proof (rule properties_for_sort_key [symmetric])
  show "mset (sort_key key (concat (map (sort_key key) xss))) = mset (concat xss)"
    by (induction xss) auto
  show "filter (\<lambda>y. key x = key y) (sort_key key (concat (map (sort_key key) xss))) = filter (\<lambda>y. key x = key y) (concat xss)"
    for x
  proof -
    have stable: "filter (\<lambda>y. key x = key y) (sort_key key ys) = filter (\<lambda>y. key x = key y) ys" for ys
      using sort_key_stable [of key "key x" ys] by (simp add: eq_commute)
    have "filter (\<lambda>y. key x = key y) (concat (map (sort_key key) xss)) = filter (\<lambda>y. key x = key y) (concat xss)"
      by (induction xss) (simp_all add: stable)
    then show ?thesis by (simp add: stable)
  qed
qed simp

section \<open>The sources are in replay order\<close>

definition later_record :: "normalized_event \<Rightarrow> normalized_event \<Rightarrow> bool" where
  "later_record e e' \<longleftrightarrow> (ne_source_index e, ne_side e) < (ne_source_index e', ne_side e')"

definition one_source :: "int \<Rightarrow> int \<Rightarrow> normalized_event list \<Rightarrow> bool" where
  "one_source symbol_id kind es \<longleftrightarrow>
     sorted_wrt later_record es \<and> (\<forall>e\<in>set es. ne_symbol_id e = symbol_id \<and> ne_event_type e = kind)"

lemma trade_record_events:
  assumes "trade_record from_iso symbol_id index source row = (es, None)"
  shows "one_source symbol_id 2 es \<and> (\<forall>e\<in>set es. ne_source_index e = index)"
proof -
  obtain ts price quantity side where "es = [alpaca_event ts 2 symbol_id price quantity side None index source]"
    using assms unfolding trade_record_def
    by (split sum.split_asm) (simp, elim rbind_InrE conjE, simp, blast)
  then show ?thesis by (simp add: one_source_def alpaca_event_def)
qed

lemma quote_side_events:
  assumes "snd (quote_side ts symbol_id index source side price amount) = None"
  shows "\<exists>p q. quote_side ts symbol_id index source side price amount =
    ([alpaca_event ts 1 symbol_id p q side None index source], None)"
  using assms by (auto simp: quote_side_def rbind_eq_Inr split: sum.splits)

lemma then_stream_None: "then_stream s t = (es, None) \<longleftrightarrow> snd s = None \<and> snd t = None \<and> es = fst s @ fst t"
  by (auto simp: then_stream_def split: option.splits)

lemma quote_record_events:
  assumes "quote_record from_iso symbol_id index source row = (es, None)"
  shows "one_source symbol_id 1 es \<and> (\<forall>e\<in>set es. ne_source_index e = index)"
proof -
  obtain ts where ts: "timestamp_to_ns from_iso (row_timestamp row) = Inr ts"
    using assms by (cases "timestamp_to_ns from_iso (row_timestamp row)") (simp_all add: quote_record_def)
  then obtain p q p' q' where "es = [alpaca_event ts 1 symbol_id p q 0 None index source,
      alpaca_event ts 1 symbol_id p' q' 1 None index source]"
    using assms by (auto simp: quote_record_def then_stream_None dest!: quote_side_events)
  then show ?thesis by (simp add: one_source_def alpaca_event_def later_record_def less_prod_def)
qed

lemma record_events_source:
  assumes "\<And>index row es. f index row = (es, None) \<Longrightarrow> one_source symbol_id kind es \<and> (\<forall>e\<in>set es. ne_source_index e = index)"
  shows "record_events f index rows err = (es, None) \<Longrightarrow>
    one_source symbol_id kind es \<and> (\<forall>e\<in>set es. index \<le> ne_source_index e)"
proof (induction rows arbitrary: index es)
  case (Cons row rows)
  then obtain es1 es2 where parts: "f index row = (es1, None)" "record_events f (index + 1) rows err = (es2, None)" "es = es1 @ es2"
    by (metis prod.collapse record_events.simps(2) then_stream_None)
  have own: "one_source symbol_id kind es1" "\<forall>e\<in>set es1. ne_source_index e = index"
    using assms [OF parts(1)] by blast+
  have later: "one_source symbol_id kind es2" "\<forall>e\<in>set es2. index + 1 \<le> ne_source_index e"
    using Cons.IH [OF parts(2)] by blast+
  have "later_record e e'" if "e \<in> set es1" "e' \<in> set es2" for e e'
    using own(2) later(2) that by (fastforce simp: later_record_def less_prod_def)
  with own later show ?case by (auto simp: parts(3) one_source_def sorted_wrt_append)
qed (simp add: one_source_def)

lemma one_source_sorted:
  assumes "one_source symbol_id kind es" "sorted (map ne_timestamp_ns es)"
  shows "sorted (map event_key es)"
proof -
  have "sorted_wrt (\<lambda>e e'. ne_timestamp_ns e \<le> ne_timestamp_ns e') es" using assms(2) by (simp add: sorted_map)
  with assms(1) have "sorted_wrt (\<lambda>e e'. event_key e \<le> event_key e') es"
    unfolding one_source_def sorted_wrt_iff_nth_less
    by (fastforce simp: later_record_def event_key_def less_prod_def less_eq_prod_def)
  then show ?thesis by (simp add: sorted_map)
qed

definition source_ok :: "normalized_event stream \<Rightarrow> bool" where
  "source_ok s \<longleftrightarrow> snd s = None \<and> sorted (map ne_timestamp_ns (fst s))"

lemma source_events_sorted:
  assumes "source_ok (source_events from_iso read path_map day_text symbol symbol_id kind)"
  shows "sorted (map event_key (fst (source_events from_iso read path_map day_text symbol symbol_id kind)))"
proof -
  let ?s = "source_events from_iso read path_map day_text symbol symbol_id kind"
  have s: "?s = (fst ?s, None)" using assms by (simp add: source_ok_def prod_eq_iff)
  have "one_source symbol_id (if kind = ''trades'' then 2 else 1) (fst ?s)"
  proof (cases "map_of path_map (day_text, symbol, kind)")
    case None
    with s show ?thesis by (simp add: source_events_def)
  next
    case (Some path)
    obtain rows err where read: "read path kind = (rows, err)" by fastforce
    let ?f = "\<lambda>index. if kind = ''trades'' then trade_record from_iso symbol_id index (partition_source day_text symbol kind)
      else quote_record from_iso symbol_id index (partition_source day_text symbol kind)"
    have "record_events ?f 0 rows err = (fst ?s, None)"
      using s by (simp add: source_events_def Some read Let_def)
    then show ?thesis
      using record_events_source [of ?f symbol_id "if kind = ''trades'' then 2 else 1" 0 rows err "fst ?s"]
        trade_record_events quote_record_events by (simp split: if_splits)
  qed
  with assms show ?thesis by (auto simp: source_ok_def intro: one_source_sorted)
qed

section \<open>The whole dataset\<close>

definition dataset_events ::
  "(string \<Rightarrow> int result) \<Rightarrow> (string \<Rightarrow> string \<Rightarrow> json_object stream) \<Rightarrow> ((string \<times> string \<times> string) \<times> string) list \<Rightarrow>
     string list \<Rightarrow> (string \<times> int) list \<Rightarrow> normalized_event list" where
  "dataset_events from_iso read path_map dates symbol_ids =
     concat (map (\<lambda>day_text. concat (map (\<lambda>(symbol, symbol_id). concat (map (\<lambda>kind.
       fst (source_events from_iso read path_map day_text symbol symbol_id kind)) [''quotes'', ''trades''])) symbol_ids)) dates)"

text \<open>
  C27: Normalising a dataset of any number of days and symbols as a stream: when every file can be read to
  its end and its records are in time order, the merged stream ends without an exception and is exactly
  the canonical sort of all events of all files, ties included, so the replay of the stream is the
  replay of the sorted dataset.
\<close>

theorem normalized_stream_is_sorted:
  assumes "\<forall>day_text\<in>set dates. \<forall>(symbol, symbol_id)\<in>set symbol_ids. \<forall>kind\<in>{''quotes'', ''trades''}.
    source_ok (source_events from_iso read path_map day_text symbol symbol_id kind)"
  shows "iter_all_normalized from_iso read path_map dates symbol_ids =
    (sort_events (dataset_events from_iso read path_map dates symbol_ids), None)"
proof -
  let ?source = "\<lambda>day_text (symbol, symbol_id) kind. source_events from_iso read path_map day_text symbol symbol_id kind"
  let ?partition = "\<lambda>day_text p. concat (map (\<lambda>kind. fst (?source day_text p kind)) [''quotes'', ''trades''])"
  let ?partitions = "concat (map (\<lambda>day_text. map (?partition day_text) symbol_ids) dates)"
  have part: "iter_normalized_partition from_iso read path_map day_text symbol symbol_id =
      (sort_events (?partition day_text (symbol, symbol_id)), None)"
    if "day_text \<in> set dates" "(symbol, symbol_id) \<in> set symbol_ids" for day_text symbol symbol_id
  proof -
    have "source_ok (?source day_text (symbol, symbol_id) ''quotes'')" "source_ok (?source day_text (symbol, symbol_id) ''trades'')"
      using assms that by fastforce+
    then have "snd (?source day_text (symbol, symbol_id) kind) = None \<and>
        sorted (map event_key (fst (?source day_text (symbol, symbol_id) kind)))" if "kind \<in> {''quotes'', ''trades''}" for kind
      using that by (auto intro: source_events_sorted) (auto simp: source_ok_def)
    then show ?thesis
      unfolding iter_normalized_partition_def sort_events_def by (subst merge_streams_sorts) auto
  qed
  have streams: "concat (map (\<lambda>day_text. map (\<lambda>(symbol, symbol_id).
        iter_normalized_partition from_iso read path_map day_text symbol symbol_id) symbol_ids) dates) =
      map (\<lambda>es. (sort_events es, None)) ?partitions"
    by (simp add: map_concat comp_def) (intro arg_cong [where f = concat] map_cong refl, auto simp: part)
  have "iter_all_normalized from_iso read path_map dates symbol_ids =
      (sort_key event_key (concat (map (sort_key event_key) ?partitions)), None)"
    unfolding iter_all_normalized_def streams by (subst merge_streams_sorts) (auto simp: sort_events_def comp_def)
  also have "sort_key event_key (concat (map (sort_key event_key) ?partitions)) = sort_events (concat ?partitions)"
    by (simp only: sort_key_concat_sorted sort_events_def)
  also have "concat ?partitions = dataset_events from_iso read path_map dates symbol_ids"
    unfolding dataset_events_def by (induction dates) (simp_all add: case_prod_unfold comp_def)
  finally show ?thesis .
qed

section \<open>The stream and the adapter\<close>

text \<open>What an event says, without its numbering and its source.\<close>

definition unnumbered :: "normalized_event \<Rightarrow> normalized_event" where
  "unnumbered e = e\<lparr>ne_sequence := None, ne_source_index := 0, ne_source := []\<rparr>"

lemma unnumbered_event [simp]:
  "unnumbered (alpaca_event ts kind symbol_id price quantity side sequence index source) =
   alpaca_event ts kind symbol_id price quantity side None 0 []"
  by (simp add: unnumbered_def alpaca_event_def)

lemma trade_agrees:
  assumes "adapter_trade from_iso ad symbol_id index sequence row = Inr es" "ad_trade_size_multiplier ad = 1"
  shows "\<exists>es'. trade_record from_iso symbol_id index' source row = (es', None) \<and> map unnumbered es' = map unnumbered es"
proof -
  from assms(1) obtain price quantity side ts where
    "price_to_micro (row_get row [''p'', ''price'']) = Inr price" "json_int (row_get row [''s'', ''size'', ''quantity'']) = Inr quantity"
    "trade_side (row_side row) = Inr side" "timestamp_to_ns from_iso (row_timestamp row) = Inr ts"
    "es = [alpaca_event ts 2 symbol_id price quantity side (Some sequence) index ''alpaca'']"
    unfolding adapter_trade_def assms(2) by (elim rbind_InrE) simp
  then show ?thesis by (simp add: trade_record_def)
qed

lemma quote_agrees:
  assumes "adapter_quote from_iso ad symbol_id index sequence row = Inr es" "ad_quote_size_multiplier ad = 100"
  shows "\<exists>es'. quote_record from_iso symbol_id index' source row = (es', None) \<and> map unnumbered es' = map unnumbered es"
proof -
  from assms(1) obtain ts bid bid_quantity ask ask_quantity where
    "timestamp_to_ns from_iso (row_timestamp row) = Inr ts"
    "price_to_micro (row_get row [''bp'', ''bid_price'', ''bid'']) = Inr bid"
    "json_int (row_get row [''bs'', ''bid_size'', ''bid_quantity'']) = Inr bid_quantity"
    "price_to_micro (row_get row [''ap'', ''ask_price'', ''ask'']) = Inr ask"
    "json_int (row_get row [''as'', ''ask_size'', ''ask_quantity'']) = Inr ask_quantity"
    "es = [alpaca_event ts 1 symbol_id bid (bid_quantity * 100) 0 (Some sequence) (index * 2) ''alpaca'',
       alpaca_event ts 1 symbol_id ask (ask_quantity * 100) 1 (Some (sequence + 1)) (index * 2 + 1) ''alpaca'']"
    unfolding adapter_quote_def assms(2) Let_def by (split if_split_asm) (simp, elim rbind_InrE, simp)
  then show ?thesis by (simp add: quote_record_def quote_side_def then_stream_def)
qed

lemma rows_agree:
  assumes "\<And>index index' sequence row es. row \<in> set rows \<Longrightarrow> adapter_row from_iso ad symbol_id index sequence (JObj row) = Inr es \<Longrightarrow>
      \<exists>es'. f index' row = (es', None) \<and> map unnumbered es' = map unnumbered es"
  shows "adapter_rows from_iso ad symbol_id index sequence (map JObj rows) = Inr events \<Longrightarrow>
    \<exists>es. record_events f index' rows None = (es, None) \<and> map unnumbered es = map unnumbered events"
  using assms
proof (induction rows arbitrary: index index' sequence events)
  case (Cons row rows)
  then obtain es more where row: "adapter_row from_iso ad symbol_id index sequence (JObj row) = Inr es"
    "adapter_rows from_iso ad symbol_id (index + 1) (sequence + int (length es)) (map JObj rows) = Inr more" "events = es @ more"
    by (auto simp: rbind_eq_Inr)
  obtain es1 where "f index' row = (es1, None)" "map unnumbered es1 = map unnumbered es"
    using Cons.prems(2) [OF _ row(1), where index' = index'] by auto
  moreover obtain es2 where "record_events f (index' + 1) rows None = (es2, None)" "map unnumbered es2 = map unnumbered more"
    using Cons.IH [OF row(2), where index' = "index' + 1"] Cons.prems(2) by (metis list.set_intros(2))
  ultimately show ?case by (simp add: row(3) then_stream_def)
qed simp

text \<open>
  C28: The two ways to normalise a provider file: on a file of quotes or of trades that the adapter accepts
  with its default multipliers, the streamed partition source yields, without an exception, the same
  events in the same order; only their sequence numbers, source indices and source names differ.
\<close>

theorem stream_agrees_with_adapter:
  assumes "adapter_init None start 100 1 = Inr ad"
    and "adapter_parse from_iso ad (JObj [(kind, JList (map JObj rows))]) symbol_id = Inr events"
    and "map_of path_map (day_text, symbol, kind) = Some path" "read path kind = (rows, None)"
    and "kind = ''trades'' \<and> list_all is_trade rows \<or> kind = ''quotes'' \<and> list_all (\<lambda>row. \<not> is_trade row) rows"
  shows "\<exists>es. source_events from_iso read path_map day_text symbol symbol_id kind = (es, None) \<and>
    map unnumbered es = map unnumbered events"
proof -
  have ad: "ad_symbol ad = None" "ad_quote_size_multiplier ad = 100" "ad_trade_size_multiplier ad = 1"
    using assms(1) by (auto simp: adapter_init_def)
  have parse: "adapter_rows from_iso ad symbol_id 0 (ad_sequence_start ad) (map JObj rows) = Inr events"
    using assms(2,5) by (auto simp: adapter_parse_def payload_rows_def ad Let_def)
  let ?f = "\<lambda>index. if kind = ''trades'' then trade_record from_iso symbol_id index (partition_source day_text symbol kind)
    else quote_record from_iso symbol_id index (partition_source day_text symbol kind)"
  have "\<exists>es'. ?f index' row = (es', None) \<and> map unnumbered es' = map unnumbered es"
    if "row \<in> set rows" "adapter_row from_iso ad symbol_id index sequence (JObj row) = Inr es" for index index' sequence row es
    using that assms(5) trade_agrees [OF _ ad(3)] quote_agrees [OF _ ad(2)]
    by (auto simp: adapter_row_def list_all_iff split: if_splits)
  from rows_agree [OF this parse, where index' = 0] show ?thesis
    by (simp add: source_events_def assms(3,4) Let_def)
qed

section \<open>One day of two files\<close>

definition demo_trade :: json_object where
  "demo_trade = [(''t'', JInt 1704205800), (''p'', JStr ''100.01''), (''s'', JInt 5), (''side'', JStr ''buy'')]"

definition demo_quotes :: "json_object list" where
  "demo_quotes = [[(''t'', JInt 1704205800), (''bp'', JStr ''100.00''), (''bs'', JInt 10), (''ap'', JStr ''100.02''), (''as'', JInt 12)]]"

definition demo_read :: "string \<Rightarrow> string \<Rightarrow> json_object stream" where
  "demo_read path kind = (if kind = ''trades'' then ([demo_trade], None) else (demo_quotes, None))"

definition demo_paths :: "((string \<times> string \<times> string) \<times> string) list" where
  "demo_paths = [((''2024-01-02'', ''SPY'', ''quotes''), ''q.json''), ((''2024-01-02'', ''SPY'', ''trades''), ''t.json'')]"

theorem normalized_stream_is_sorted_witness:
  "iter_all_normalized (\<lambda>_. Inl IndexError) demo_read demo_paths [''2024-01-02''] [(''SPY'', 0)] =
    (sort_events (dataset_events (\<lambda>_. Inl IndexError) demo_read demo_paths [''2024-01-02''] [(''SPY'', 0)]), None)"
proof (rule normalized_stream_is_sorted)
  have "source_ok (source_events (\<lambda>_. Inl IndexError) demo_read demo_paths ''2024-01-02'' ''SPY'' 0 ''quotes'')"
    "source_ok (source_events (\<lambda>_. Inl IndexError) demo_read demo_paths ''2024-01-02'' ''SPY'' 0 ''trades'')" by code_simp+
  then show "\<forall>day_text\<in>set [''2024-01-02'']. \<forall>(symbol, symbol_id)\<in>set [(''SPY'', 0)]. \<forall>kind\<in>{''quotes'', ''trades''}.
      source_ok (source_events (\<lambda>_. Inl IndexError) demo_read demo_paths day_text symbol symbol_id kind)"
    by simp
qed

theorem stream_agrees_with_adapter_witness:
  "\<exists>es. source_events (\<lambda>_. Inl IndexError) demo_read demo_paths ''2024-01-02'' ''SPY'' 0 ''trades'' = (es, None) \<and>
    map unnumbered es = [alpaca_event 1704205800000000000 2 0 100010000 5 1 None 0 []]"
proof -
  have "adapter_parse (\<lambda>_. Inl IndexError) demo_adapter (JObj [(''trades'', JList (map JObj [demo_trade]))]) 0 =
      Inr [alpaca_event 1704205800000000000 2 0 100010000 5 1 (Some 1) 0 ''alpaca'']" by code_simp
  moreover have "adapter_init None 1 100 1 = Inr demo_adapter" "list_all is_trade [demo_trade]" by code_simp+
  ultimately show ?thesis
    using stream_agrees_with_adapter [of 1 demo_adapter "\<lambda>_. Inl IndexError" "''trades''" "[demo_trade]" 0 _ demo_paths
        "''2024-01-02''" "''SPY''" "''t.json''" demo_read]
    by (simp add: demo_paths_def demo_read_def)
qed

end
