(* ===== verification/Provider_Download.thy ===== *)
theory Provider_Download
  imports Provider_Adapter "HOL-Library.While_Combinator" "HOL-Library.List_Lexorder" "HOL-Library.Char_ord" "HOL-Library.AList"
begin

text \<open>
  \<open>AlpacaHistoricalDownloader\<close> of \<open>tools/backtest/providers.py\<close>: requests with bounded retries, pages
  followed by their tokens, and the raw download that replaces its output file only when it is complete.

  The outside world is a state \<open>'w\<close>: a request may change it and gives an \<open>attempt\<close>, a pause may change
  it. The record \<open>http\<close> holds these two operations with the JSON decoder and the text of arrays and
  objects. Files are a map from paths to contents. What an exception leaves in local variables is lost.
\<close>

section \<open>Query texts\<close>

definition url_safe :: "char \<Rightarrow> bool" where
  "url_safe c \<longleftrightarrow>
     (let n = char_code c in 48 \<le> n \<and> n \<le> 57 \<or> 65 \<le> n \<and> n \<le> 90 \<or> 97 \<le> n \<and> n \<le> 122 \<or> n \<in> {95, 46, 45, 126})"

definition percent_byte :: "nat \<Rightarrow> string" where
  "percent_byte n = ''%'' @ map (\<lambda>d. char_of (if d < 10 then 48 + d else 55 + d)) [n div 16, n mod 16]"

definition quote_plus :: "string \<Rightarrow> string" where
  "quote_plus s = concat (map (\<lambda>c.
     let n = char_code c in
     if url_safe c then [c] else if n = 32 then ''+''
     else if n < 128 then percent_byte n else percent_byte (192 + n div 64) @ percent_byte (128 + n mod 64)) s)"

definition urlencode :: "(string \<times> string) list \<Rightarrow> string" where
  "urlencode params = join_with ''&'' (map (\<lambda>(k, v). quote_plus k @ ''='' @ quote_plus v) params)"

definition strip_slashes :: "string \<Rightarrow> string" where
  "strip_slashes s = rev (dropWhile (\<lambda>c. c = CHR ''/'') (rev s))"

section \<open>Writing JSON\<close>

definition hex_digits :: "nat \<Rightarrow> string" where
  "hex_digits n = map (\<lambda>d. digit_char d) [n div 16, n mod 16]"

definition escape_char :: "char \<Rightarrow> string" where
  "escape_char c =
     (let n = char_code c in
      if n = 34 then [char_of (92 :: nat), char_of (34 :: nat)] else if n = 92 then [char_of (92 :: nat), char_of (92 :: nat)]
      else if n = 10 then [char_of (92 :: nat), CHR ''n''] else if n = 13 then [char_of (92 :: nat), CHR ''r'']
      else if n = 9 then [char_of (92 :: nat), CHR ''t''] else if n = 12 then [char_of (92 :: nat), CHR ''f'']
      else if n = 8 then [char_of (92 :: nat), CHR ''b'']
      else if 32 \<le> n \<and> n \<le> 126 then [c]
      else char_of (92 :: nat) # ''u00'' @ hex_digits n)"

definition json_string :: "string \<Rightarrow> string" where
  "json_string s = char_of (34 :: nat) # concat (map escape_char s) @ [char_of (34 :: nat)]"

text \<open>\<open>json.dumps(value, separators=(",", ":"), sort_keys=True)\<close>.\<close>

fun json_dumps :: "json \<Rightarrow> string" where
  "json_dumps JNull = ''null''"
| "json_dumps (JBool b) = (if b then ''true'' else ''false'')"
| "json_dumps (JInt n) = py_str_int n"
| "json_dumps (JFloat x t) = t"
| "json_dumps (JStr s) = json_string s"
| "json_dumps (JList vs) = ''['' @ join_with '','' (map json_dumps vs) @ '']''"
| "json_dumps (JObj m) =
     ''{'' @ join_with '','' (map (\<lambda>(k, t). json_string k @ '':'' @ t) (sort_key fst (map (\<lambda>(k, v). (k, json_dumps v)) m))) @ ''}''"

section \<open>Requests\<close>

text \<open>What one call of the opener gives: a response with status and body, or what it raises.\<close>

datatype attempt = Response int string | HttpError int | TransportError | OtherError py_error

record 'w http =
  ht_open :: "string \<Rightarrow> 'w \<Rightarrow> attempt \<times> 'w"
  ht_sleep :: "rat \<Rightarrow> 'w \<Rightarrow> 'w"
  ht_decode :: "string \<Rightarrow> json option"
  ht_repr :: "json \<Rightarrow> string"

record downloader =
  dl_feed :: string
  dl_api_key :: "string option"
  dl_api_secret :: "string option"
  dl_endpoint :: string
  dl_page_limit :: int
  dl_max_retries :: int
  dl_backoff_seconds :: rat

definition TRANSIENT_STATUSES :: "int list" where
  "TRANSIENT_STATUSES = [408, 425, 429, 500, 502, 503, 504]"

definition PERMANENT_STATUSES :: "int list" where
  "PERMANENT_STATUSES = [400, 401, 403, 404]"

definition downloader_init ::
  "(string \<Rightarrow> string option) \<Rightarrow> string \<Rightarrow> string option \<Rightarrow> string option \<Rightarrow> string \<Rightarrow> int \<Rightarrow> int \<Rightarrow> rat \<Rightarrow> downloader result" where
  "downloader_init env feed api_key api_secret endpoint page_limit max_retries backoff_seconds =
     (if feed \<notin> {''iex'', ''sip'', ''boats'', ''otc''} then Inl (ValueError ''unsupported Alpaca feed'')
      else if \<not> (1 \<le> page_limit \<and> page_limit \<le> 10000) \<or> max_retries < 0
      then Inl (ValueError ''invalid pagination/retry settings'')
      else Inr
        \<lparr>dl_feed = feed,
         dl_api_key = (case api_key of Some k \<Rightarrow> Some k | None \<Rightarrow> env ''ALPACA_API_KEY''),
         dl_api_secret = (case api_secret of Some k \<Rightarrow> Some k | None \<Rightarrow> env ''ALPACA_API_SECRET''),
         dl_endpoint = strip_slashes endpoint, dl_page_limit = page_limit, dl_max_retries = max_retries,
         dl_backoff_seconds = backoff_seconds\<rparr>)"

text \<open>
  How one attempt ends: with a document, with an exception, or to be tried again. After a retry the name
  \<open>error\<close> holds the error with its status, or is unbound: \<open>except ... as error\<close> deletes it.
\<close>

datatype attempt_verdict = Finished json int | Fatal py_error | Again "int option" | AgainUnbound

definition status_error :: "int \<Rightarrow> py_error" where
  "status_error status = AlpacaDownloadError (''Alpaca HTTP status '' @ py_str_int status) (Some status) False"

definition judge :: "(string \<Rightarrow> json option) \<Rightarrow> attempt \<Rightarrow> attempt_verdict" where
  "judge decode a =
     (case a of
        Response status body \<Rightarrow>
          if status \<noteq> 200
          then if status \<in> set TRANSIENT_STATUSES then AgainUnbound else Fatal (status_error status)
          else (case decode body of
                  Some v \<Rightarrow> Finished v status
                | None \<Rightarrow> Fatal (AlpacaDownloadError ''Alpaca returned malformed JSON'' None False))
      | HttpError status \<Rightarrow>
          if status \<in> set PERMANENT_STATUSES then Fatal (status_error status)
          else if status \<notin> set TRANSIENT_STATUSES then Fatal (status_error status)
          else Again (Some status)
      | TransportError \<Rightarrow> Again None
      | OtherError e \<Rightarrow> Fatal e)"

definition exhausted_error :: "int \<Rightarrow> int option \<Rightarrow> py_error" where
  "exhausted_error retries status =
     AlpacaDownloadError (''Alpaca request failed after '' @ py_str_int (retries + 1) @ '' attempts'' @
       (case status of Some s \<Rightarrow> if s \<noteq> 0 then ''; status '' @ py_str_int s else [] | None \<Rightarrow> [])) status False"

function get_json :: "downloader \<Rightarrow> 'w http \<Rightarrow> string \<Rightarrow> int \<Rightarrow> 'w \<Rightarrow> (json \<times> int \<times> int) result \<times> 'w" where
  "get_json dl h url retries w =
     (let (a, w) = ht_open h url w; pause = ht_sleep h (dl_backoff_seconds dl * 2 ^ nat retries) w in
      case judge (ht_decode h) a of
        Finished v status \<Rightarrow> (Inr (v, status, retries), w)
      | Fatal e \<Rightarrow> (Inl e, w)
      | Again status \<Rightarrow>
          if dl_max_retries dl \<le> retries then (Inl (exhausted_error retries status), w)
          else get_json dl h url (retries + 1) pause
      | AgainUnbound \<Rightarrow>
          if dl_max_retries dl \<le> retries then (Inl UnboundLocalError, w)
          else get_json dl h url (retries + 1) pause)"
  by pat_completeness auto
termination
  by (relation "measure (\<lambda>(dl, h, url, retries, w). nat (dl_max_retries dl - retries))") auto

declare get_json.simps [simp del]

section \<open>Pages\<close>

text \<open>The summary, without the fields that repeat the request.\<close>

record download_summary =
  ds_pages_requested :: int
  ds_pages_completed :: int
  ds_records_downloaded :: int
  ds_first_timestamp :: "string option"
  ds_last_timestamp :: "string option"
  ds_retry_count :: int
  ds_status_summary :: "(string \<times> int) list"
  ds_warnings :: "string list"
  ds_raw_sha256 :: "string option"
  ds_raw_file_size :: "int option"
  ds_raw_path :: "string option"

definition summary_init :: download_summary where
  "summary_init =
     \<lparr>ds_pages_requested = 0, ds_pages_completed = 0, ds_records_downloaded = 0, ds_first_timestamp = None,
      ds_last_timestamp = None, ds_retry_count = 0, ds_status_summary = [], ds_warnings = [],
      ds_raw_sha256 = None, ds_raw_file_size = None, ds_raw_path = None\<rparr>"

record request =
  rq_symbol :: string
  rq_kind :: string
  rq_start :: string
  rq_end :: string

definition request_error :: "downloader \<Rightarrow> request \<Rightarrow> py_error option" where
  "request_error dl rq =
     (if dl_api_key dl \<in> {None, Some []} \<or> dl_api_secret dl \<in> {None, Some []}
      then Some (AlpacaDownloadError ''Alpaca credentials are unavailable'' None False)
      else if rq_kind rq \<notin> {''quotes'', ''trades''} then Some (ValueError ''kind must be quotes or trades'')
      else None)"

definition page_url :: "downloader \<Rightarrow> request \<Rightarrow> string option \<Rightarrow> string" where
  "page_url dl rq token =
     dl_endpoint dl @ ''/'' @ rq_symbol rq @ ''/'' @ rq_kind rq @ ''?'' @
     urlencode ([(''start'', rq_start rq), (''end'', rq_end rq), (''feed'', dl_feed dl),
        (''limit'', py_str_int (dl_page_limit dl)), (''sort'', ''asc'')] @
       (case token of None \<Rightarrow> [] | Some t \<Rightarrow> [(''page_token'', t)]))"

fun py_truth :: "json \<Rightarrow> bool" where
  "py_truth JNull = False"
| "py_truth (JBool b) = b"
| "py_truth (JInt n) = (n \<noteq> 0)"
| "py_truth (JFloat x t) = (x \<noteq> 0)"
| "py_truth (JStr s) = (s \<noteq> [])"
| "py_truth (JList vs) = (vs \<noteq> [])"
| "py_truth (JObj m) = (m \<noteq> [])"

definition py_text :: "(json \<Rightarrow> string) \<Rightarrow> json \<Rightarrow> string" where
  "py_text repr v = (case scalar_text v of Some t \<Rightarrow> t | None \<Rightarrow> repr v)"

text \<open>\<open>str(record.get("t", record.get("timestamp", "")))\<close>.\<close>

definition record_time :: "(json \<Rightarrow> string) \<Rightarrow> json_object \<Rightarrow> string" where
  "record_time repr row = (if has_key row [''t'', ''timestamp''] then py_text repr (row_get row [''t'', ''timestamp'']) else [])"

fun json_object_of :: "json \<Rightarrow> json_object option" where
  "json_object_of (JObj m) = Some m"
| "json_object_of v = None"

definition repeated_token :: py_error where
  "repeated_token = AlpacaDownloadError ''repeated Alpaca page token'' None False"

text \<open>The records array of a page; the status counts of the summary.\<close>

definition page_records :: "request \<Rightarrow> string option \<Rightarrow> json \<Rightarrow> (json_object \<times> json list) result" where
  "page_records rq token payload =
     (case json_object_of payload of
        None \<Rightarrow> Inl (AlpacaDownloadError ''Alpaca response lacks the expected records array'' None False)
      | Some m \<Rightarrow>
        (case Option.bind (map_of m (rq_kind rq)) json_list of
           None \<Rightarrow> Inl (AlpacaDownloadError ''Alpaca response lacks the expected records array'' None False)
         | Some page \<Rightarrow>
             if page = [] \<and> token \<noteq> None
             then Inl (AlpacaDownloadError ''empty Alpaca page followed a page token'' None False)
             else Inr (m, page)))"

definition count_status :: "int \<Rightarrow> int \<Rightarrow> download_summary \<Rightarrow> download_summary" where
  "count_status status retries sm =
     (let key = py_str_int status; n = (case map_of (ds_status_summary sm) key of None \<Rightarrow> 0 | Some n \<Rightarrow> n) in
      sm\<lparr>ds_retry_count := ds_retry_count sm + retries,
         ds_status_summary := AList.update key (n + 1) (ds_status_summary sm)\<rparr>)"

text \<open>The start of a round: the token is checked and remembered, the page requested and looked at.\<close>

definition open_page ::
  "downloader \<Rightarrow> 'w http \<Rightarrow> request \<Rightarrow> string option \<Rightarrow> string list \<Rightarrow> download_summary \<Rightarrow> 'w \<Rightarrow>
     (json_object \<times> json list \<times> string list \<times> download_summary) result \<times> 'w" where
  "open_page dl h rq token seen sm w =
     (if (case token of Some t \<Rightarrow> t \<in> set seen | None \<Rightarrow> False) then (Inl repeated_token, w)
      else
        let seen = (case token of Some t \<Rightarrow> t # seen | None \<Rightarrow> seen);
            sm = sm\<lparr>ds_pages_requested := ds_pages_requested sm + 1\<rparr>;
            (r, w) = get_json dl h (page_url dl rq token) 0 w in
        (rbind r (\<lambda>(payload, status, retries).
         rbind (page_records rq token payload) (\<lambda>(m, page).
         Inr (m, page, seen, count_status status retries sm))), w))"

text \<open>The end of a round: the next token, or none when the page was the last.\<close>

definition next_token :: "(json \<Rightarrow> string) \<Rightarrow> json_object \<Rightarrow> string list \<Rightarrow> string option result" where
  "next_token repr m seen =
     (let v = row_get m [''next_page_token''] in
      if \<not> py_truth v then Inr None
      else if py_text repr v \<in> set seen then Inl repeated_token
      else Inr (Some (py_text repr v)))"

definition warn_missing :: "downloader \<Rightarrow> json_object \<Rightarrow> json list \<Rightarrow> download_summary \<Rightarrow> download_summary" where
  "warn_missing dl m page sm =
     (if dl_page_limit dl \<le> int (length page) \<and> \<not> py_truth (row_get m [''next_page_token''])
      then sm\<lparr>ds_warnings := ds_warnings sm @ [''missing_expected_page_token'']\<rparr> else sm)"

section \<open>\<open>fetch_pages\<close>\<close>

text \<open>The loop: \<open>None\<close> while it runs, then how it ended.\<close>

record 'w fetch_state =
  fs_token :: "string option"
  fs_seen :: "string list"
  fs_records :: "json_object list"
  fs_summary :: download_summary
  fs_world :: 'w
  fs_end :: "unit result option"

definition fetch_round :: "downloader \<Rightarrow> 'w http \<Rightarrow> request \<Rightarrow> 'w fetch_state \<Rightarrow> 'w fetch_state" where
  "fetch_round dl h rq s =
     (let (r, w) = open_page dl h rq (fs_token s) (fs_seen s) (fs_summary s) (fs_world s) in
      case r of
        Inl e \<Rightarrow> s\<lparr>fs_world := w, fs_end := Some (Inl e)\<rparr>
      | Inr (m, page, seen, sm) \<Rightarrow>
          if list_ex (\<lambda>v. json_object_of v = None) page
          then s\<lparr>fs_world := w, fs_end := Some (Inl (AlpacaDownloadError ''Alpaca response contains a non-object record'' None False))\<rparr>
          else
            let records = fs_records s @ List.map_filter json_object_of page;
                sm = warn_missing dl m page (sm\<lparr>ds_pages_completed := ds_pages_completed sm + 1\<rparr>) in
            case next_token (ht_repr h) m seen of
              Inl e \<Rightarrow> s\<lparr>fs_world := w, fs_end := Some (Inl e)\<rparr>
            | Inr token \<Rightarrow>
                s\<lparr>fs_token := token, fs_seen := seen, fs_records := records, fs_summary := sm, fs_world := w,
                  fs_end := (if token = None then Some (Inr ()) else None)\<rparr>)"

definition fetch_init :: "'w \<Rightarrow> 'w fetch_state" where
  "fetch_init w =
     \<lparr>fs_token = None, fs_seen = [], fs_records = [], fs_summary = summary_init, fs_world = w, fs_end = None\<rparr>"

definition fetch_summary :: "(json \<Rightarrow> string) \<Rightarrow> json_object list \<Rightarrow> download_summary \<Rightarrow> download_summary" where
  "fetch_summary repr records sm =
     (let sm = sm\<lparr>ds_records_downloaded := int (length records)\<rparr> in
      if records = [] then sm
      else sm\<lparr>ds_first_timestamp := Some (record_time repr (hd records)),
              ds_last_timestamp := Some (record_time repr (last records))\<rparr>)"

text \<open>\<open>None\<close> when the loop does not end.\<close>

definition fetch_pages ::
  "downloader \<Rightarrow> 'w http \<Rightarrow> request \<Rightarrow> 'w \<Rightarrow> ((json_object list \<times> download_summary) result \<times> 'w) option" where
  "fetch_pages dl h rq w =
     (case request_error dl rq of
        Some e \<Rightarrow> Some (Inl e, w)
      | None \<Rightarrow>
          map_option (\<lambda>s. (case fs_end s of
              Some (Inl e) \<Rightarrow> Inl e
            | _ \<Rightarrow> Inr (fs_records s, fetch_summary (ht_repr h) (fs_records s) (fs_summary s)), fs_world s))
            (while_option (\<lambda>s. fs_end s = None) (fetch_round dl h rq) (fetch_init w)))"

section \<open>\<open>download_to\<close>\<close>

record 'w download_state =
  ld_token :: "string option"
  ld_seen :: "string list"
  ld_text :: string
  ld_first_record :: bool
  ld_first_timestamp :: bool
  ld_summary :: download_summary
  ld_world :: 'w
  ld_end :: "unit result option"

text \<open>The records of a page are written one by one, up to the first that is not an object.\<close>

fun write_records :: "json list \<Rightarrow> string \<Rightarrow> bool \<Rightarrow> int \<Rightarrow> (string \<times> bool \<times> int) result" where
  "write_records [] out first n = Inr (out, first, n)"
| "write_records (v # vs) out first n =
     (case json_object_of v of
        None \<Rightarrow> Inl (AlpacaDownloadError ''Alpaca response contains a non-object record'' None False)
      | Some row \<Rightarrow>
          write_records vs (out @ (if first then [] else '','' @ [CHR 0x0A]) @ json_dumps (JObj row)) False (n + 1))"

text \<open>The timestamps of the first and last record of a page.\<close>

definition note_times :: "(json \<Rightarrow> string) \<Rightarrow> json list \<Rightarrow> bool \<Rightarrow> download_summary \<Rightarrow> download_summary" where
  "note_times repr page first sm =
     (let time = (\<lambda>v. Some (record_time repr (the (json_object_of v)))) in
      if page = [] then sm
      else (if first then sm\<lparr>ds_first_timestamp := time (hd page)\<rparr> else sm)
             \<lparr>ds_last_timestamp := time (last page)\<rparr>)"

definition download_round :: "downloader \<Rightarrow> 'w http \<Rightarrow> request \<Rightarrow> 'w download_state \<Rightarrow> 'w download_state" where
  "download_round dl h rq s =
     (let (r, w) = open_page dl h rq (ld_token s) (ld_seen s) (ld_summary s) (ld_world s) in
      case rbind r (\<lambda>(m, page, seen, sm).
        rbind (write_records page (ld_text s) (ld_first_record s) (ds_records_downloaded sm)) (\<lambda>(out, first, n).
        let sm = sm\<lparr>ds_records_downloaded := n, ds_pages_completed := ds_pages_completed sm + 1\<rparr>;
            sm = warn_missing dl m page (note_times (ht_repr h) page (ld_first_timestamp s) sm) in
        rbind (next_token (ht_repr h) m seen) (\<lambda>token.
        Inr (s\<lparr>ld_token := token, ld_seen := seen, ld_text := out, ld_first_record := first,
               ld_first_timestamp := (ld_first_timestamp s \<and> page = []), ld_summary := sm, ld_world := w,
               ld_end := (if token = None then Some (Inr ()) else None)\<rparr>)))) of
        Inl e \<Rightarrow> s\<lparr>ld_world := w, ld_end := Some (Inl e)\<rparr>
      | Inr s' \<Rightarrow> s')"

definition file_header :: "string \<Rightarrow> string" where
  "file_header kind = ''{'' @ [char_of (34 :: nat)] @ kind @ [char_of (34 :: nat)] @ '':['' @ [CHR 0x0A]"

definition file_footer :: string where
  "file_footer = [CHR 0x0A] @ '']}'' @ [CHR 0x0A]"

definition download_init :: "request \<Rightarrow> 'w \<Rightarrow> 'w download_state" where
  "download_init rq w =
     \<lparr>ld_token = None, ld_seen = [], ld_text = file_header (rq_kind rq), ld_first_record = True,
      ld_first_timestamp = True, ld_summary = summary_init, ld_world = w, ld_end = None\<rparr>"

definition partial_path :: "string \<Rightarrow> string" where
  "partial_path path = path @ ''.part''"

text \<open>
  The partial file is renamed over the output when it is complete, and removed on every exception.
  \<open>sha256\<close> is the digest of a file's content.
\<close>

definition download_to ::
  "downloader \<Rightarrow> 'w http \<Rightarrow> (string \<Rightarrow> string) \<Rightarrow> request \<Rightarrow> string \<Rightarrow> 'w \<Rightarrow> (string \<Rightarrow> string option) \<Rightarrow>
     (download_summary result \<times> 'w \<times> (string \<Rightarrow> string option)) option" where
  "download_to dl h sha256 rq path w files =
     (case request_error dl rq of
        Some e \<Rightarrow> Some (Inl e, w, files)
      | None \<Rightarrow>
          map_option (\<lambda>s.
            case ld_end s of
              Some (Inl e) \<Rightarrow> (Inl e, ld_world s, files(partial_path path := None))
            | _ \<Rightarrow>
                let content = ld_text s @ file_footer in
                (Inr ((ld_summary s)\<lparr>ds_raw_sha256 := Some (sha256 content),
                        ds_raw_file_size := Some (int (length content)), ds_raw_path := Some path\<rparr>),
                 ld_world s, (files(partial_path path := None))(path := Some content)))
            (while_option (\<lambda>s. ld_end s = None) (download_round dl h rq) (download_init rq w)))"

section \<open>The adapter's single request\<close>

text \<open>\<open>fetch\<close> opens a URL and reads the response, or raises.\<close>

definition adapter_download ::
  "(string \<Rightarrow> string option) \<Rightarrow> (string \<Rightarrow> 'w \<Rightarrow> string result \<times> 'w) \<Rightarrow> string \<Rightarrow> request \<Rightarrow> string \<Rightarrow> string \<Rightarrow>
     string option \<Rightarrow> string option \<Rightarrow> 'w \<Rightarrow> (string \<Rightarrow> string option) \<Rightarrow> string result \<times> 'w \<times> (string \<Rightarrow> string option)" where
  "adapter_download env fetch path rq feed endpoint api_key api_secret w files =
     (let key = (if api_key \<in> {None, Some []} then env ''ALPACA_API_KEY'' else api_key);
          secret = (if api_secret \<in> {None, Some []} then env ''ALPACA_API_SECRET'' else api_secret) in
      if key \<in> {None, Some []} \<or> secret \<in> {None, Some []}
      then (Inl (RuntimeError ''set ALPACA_API_KEY and ALPACA_API_SECRET to download data''), w, files)
      else if rq_kind rq \<notin> {''quotes'', ''trades''} then (Inl (ValueError ''kind must be quotes or trades''), w, files)
      else
        let query = urlencode [(''symbols'', rq_symbol rq), (''start'', rq_start rq), (''end'', rq_end rq), (''feed'', feed)];
            (r, w) = fetch (strip_slashes endpoint @ ''/'' @ rq_kind rq @ ''?'' @ query) w in
        case r of
          Inl e \<Rightarrow> (Inl e, w, files)
        | Inr raw \<Rightarrow> (Inr path, w, files(path := Some raw)))"

end
