(* ===== verification/Download_Correct.thy ===== *)
theory Download_Correct
  imports Provider_Download
begin

text \<open>
  The downloader: how a request with retries ends, that the atomic raw download is the page fetcher with
  its records written to a file, and that the token check makes the page loop end.
\<close>

section \<open>Retries\<close>

text \<open>The world before the attempt number \<open>i\<close> of a request, counted from 0.\<close>

fun attempt_world :: "downloader \<Rightarrow> 'w http \<Rightarrow> string \<Rightarrow> 'w \<Rightarrow> nat \<Rightarrow> 'w" where
  "attempt_world dl h url w 0 = w"
| "attempt_world dl h url w (Suc i) =
     ht_sleep h (dl_backoff_seconds dl * 2 ^ i) (snd (ht_open h url (attempt_world dl h url w i)))"

definition verdict_at :: "downloader \<Rightarrow> 'w http \<Rightarrow> string \<Rightarrow> 'w \<Rightarrow> nat \<Rightarrow> attempt_verdict" where
  "verdict_at dl h url w i = judge (ht_decode h) (fst (ht_open h url (attempt_world dl h url w i)))"

definition retried :: "attempt_verdict \<Rightarrow> bool" where
  "retried v = (case v of Again _ \<Rightarrow> True | AgainUnbound \<Rightarrow> True | _ \<Rightarrow> False)"

lemma get_json_step:
  assumes "retried (verdict_at dl h url w i)" "int i < dl_max_retries dl"
  shows "get_json dl h url (int i) (attempt_world dl h url w i) = get_json dl h url (int (Suc i)) (attempt_world dl h url w (Suc i))"
  using assms
  by (subst get_json.simps) (auto simp: case_prod_unfold Let_def verdict_at_def retried_def add.commute split: attempt_verdict.splits)

lemma get_json_steps:
  assumes "\<forall>i<k. retried (verdict_at dl h url w i)" "int k \<le> dl_max_retries dl"
  shows "get_json dl h url 0 w = get_json dl h url (int k) (attempt_world dl h url w k)"
  using assms
proof (induction k)
  case (Suc k)
  then have "get_json dl h url 0 w = get_json dl h url (int k) (attempt_world dl h url w k)" by simp
  also have "\<dots> = get_json dl h url (int (Suc k)) (attempt_world dl h url w (Suc k))"
    by (rule get_json_step) (use Suc.prems in auto)
  finally show ?case .
qed simp

text \<open>
  C31: A request makes one attempt, and one more after each transient failure while retries are left, with
  pauses that double. It returns the first document with the number of retries, raises at once on a
  permanent failure, and when the last attempt has failed too, raises the error that counts the attempts
  if that failure was an exception of the opener, but an \<open>UnboundLocalError\<close> if it was a response with a
  transient status.
\<close>

theorem get_json_retries:
  assumes "\<forall>i<k. retried (verdict_at dl h url w i)" "int k \<le> dl_max_retries dl"
    and "int k = dl_max_retries dl \<or> \<not> retried (verdict_at dl h url w k)"
  shows "get_json dl h url 0 w =
    ((case verdict_at dl h url w k of
        Finished v status \<Rightarrow> Inr (v, status, int k)
      | Fatal e \<Rightarrow> Inl e
      | Again status \<Rightarrow> Inl (exhausted_error (dl_max_retries dl) status)
      | AgainUnbound \<Rightarrow> Inl UnboundLocalError),
     snd (ht_open h url (attempt_world dl h url w k)))"
  unfolding get_json_steps [OF assms(1,2)] using assms(3)
  by (subst get_json.simps) (auto simp: case_prod_unfold Let_def verdict_at_def retried_def split: attempt_verdict.splits)

section \<open>The raw download\<close>

definition records_text :: "json_object list \<Rightarrow> string" where
  "records_text records = join_with ('','' @ [CHR 0x0A]) (map (\<lambda>row. json_dumps (JObj row)) records)"

definition content_of :: "string \<Rightarrow> json_object list \<Rightarrow> string" where
  "content_of kind records = file_header kind @ records_text records @ file_footer"

lemma join_with_snoc: "join_with sep (ws @ [w]) = (if ws = [] then w else join_with sep ws @ sep @ w)"
  by (induction sep ws rule: join_with.induct) auto

lemma write_records_text:
  "write_records page (out @ records_text records) (records = []) n =
     (if list_ex (\<lambda>v. json_object_of v = None) page
      then Inl (AlpacaDownloadError ''Alpaca response contains a non-object record'' None False)
      else let more = List.map_filter json_object_of page in
        Inr (out @ records_text (records @ more), records @ more = [], n + int (length page)))"
proof (induction page arbitrary: records n)
  case (Cons v page)
  show ?case
  proof (cases "json_object_of v")
    case (Some row)
    have "out @ records_text records @ (if records = [] then [] else '','' @ [CHR 0x0A]) @ json_dumps (JObj row) =
        out @ records_text (records @ [row])"
      by (simp add: records_text_def join_with_snoc)
    with Cons.IH [of "records @ [row]" "n + 1"] Some show ?thesis
      by (simp add: Let_def)
  qed simp
qed (simp add: Let_def)

lemma objects_of_page:
  "\<not> list_ex (\<lambda>v. json_object_of v = None) page \<Longrightarrow> map (\<lambda>v. the (json_object_of v)) page = List.map_filter json_object_of page"
  by (induction page) auto

lemma open_page_summary:
  "open_page dl h rq token seen (fetch_summary repr records sm) w =
   (let (r, w) = open_page dl h rq token seen sm w in
    (rbind r (\<lambda>(m, page, seen, sm). Inr (m, page, seen, fetch_summary repr records sm)), w))"
proof -
  have "count_status status retries ((fetch_summary repr records sm)\<lparr>ds_pages_requested := n\<rparr>) =
      fetch_summary repr records (count_status status retries (sm\<lparr>ds_pages_requested := n\<rparr>))" for status retries n
    by (simp add: fetch_summary_def count_status_def Let_def)
  moreover have "ds_pages_requested (fetch_summary repr records sm) = ds_pages_requested sm"
    by (simp add: fetch_summary_def Let_def)
  ultimately show ?thesis
    by (simp add: open_page_def case_prod_unfold Let_def rbind_assoc)
qed

text \<open>The state of the download that goes with a state of the fetch.\<close>

definition written_state :: "downloader \<Rightarrow> 'w http \<Rightarrow> request \<Rightarrow> 'w fetch_state \<Rightarrow> 'w download_state" where
  "written_state dl h rq s =
     \<lparr>ld_token = fs_token s, ld_seen = fs_seen s, ld_text = file_header (rq_kind rq) @ records_text (fs_records s),
      ld_first_record = (fs_records s = []), ld_first_timestamp = (fs_records s = []),
      ld_summary = fetch_summary (ht_repr h) (fs_records s) (fs_summary s), ld_world = fs_world s, ld_end = fs_end s\<rparr>"

lemma summary_after_page:
  assumes "map (\<lambda>v. the (json_object_of v)) page = added"
  shows "warn_missing dl m page (note_times repr page (records = [])
      ((fetch_summary repr records sm)\<lparr>ds_records_downloaded := int (length (records @ added)),
         ds_pages_completed := ds_pages_completed (fetch_summary repr records sm) + 1\<rparr>)) =
    fetch_summary repr (records @ added) (warn_missing dl m page (sm\<lparr>ds_pages_completed := ds_pages_completed sm + 1\<rparr>))"
proof (cases "page = []")
  case True
  with assms show ?thesis by (simp add: warn_missing_def note_times_def fetch_summary_def Let_def)
next
  case False
  then have "added \<noteq> []" "hd added = the (json_object_of (hd page))" "last added = the (json_object_of (last page))"
    using assms by (auto simp: hd_map last_map)
  with False show ?thesis
    by (simp add: warn_missing_def note_times_def fetch_summary_def Let_def hd_append)
qed

lemma round_written: "written_state dl h rq (fetch_round dl h rq s) = download_round dl h rq (written_state dl h rq s)"
proof -
  let ?rs = "fs_records s" and ?sm = "fs_summary s"
  obtain r w where opened: "open_page dl h rq (fs_token s) (fs_seen s) ?sm (fs_world s) = (r, w)" by fastforce
  have opened': "open_page dl h rq (fs_token s) (fs_seen s) (fetch_summary (ht_repr h) ?rs ?sm) (fs_world s) =
      (rbind r (\<lambda>(m, page, seen, sm). Inr (m, page, seen, fetch_summary (ht_repr h) ?rs sm)), w)"
    by (simp add: open_page_summary opened)
  show ?thesis
  proof (cases r)
    case (Inl e)
    then show ?thesis
      by (simp add: fetch_round_def download_round_def opened opened' written_state_def)
  next
    case (Inr p)
    obtain m page seen sm where p: "p = (m, page, seen, sm)" by (metis prod_cases4)
    have downloaded: "ds_records_downloaded (fetch_summary (ht_repr h) ?rs sm) = int (length ?rs)"
      by (simp add: fetch_summary_def Let_def)
    show ?thesis
    proof (cases "list_ex (\<lambda>v. json_object_of v = None) page")
      case True
      then show ?thesis
        by (simp add: fetch_round_def download_round_def opened opened' written_state_def Inr p write_records_text)
    next
      case False
      note objects = objects_of_page [OF False]
      have "length page = length (List.map_filter json_object_of page)"
        using arg_cong [OF objects, of length] by simp
      moreover from this have "(List.map_filter json_object_of page = []) = (page = [])" by (metis length_0_conv)
      ultimately show ?thesis using summary_after_page [OF objects, of dl m "ht_repr h" ?rs sm] False
        by (cases "next_token (ht_repr h) m seen")
          (simp_all add: fetch_round_def download_round_def opened opened' written_state_def Inr p write_records_text
            downloaded Let_def)
    qed
  qed
qed

text \<open>
  C29: The atomic download is the page fetcher written to a file: for any server behaviour, including one
  that keeps the loop from ending, \<open>download_to\<close> makes the same requests and ends as \<open>fetch_pages\<close> does.
  Where that raises, it raises the same exception and leaves no partial file and the old output file;
  where that returns records, the output file holds exactly those records and the summary is the same
  with the digest, the size and the path of the file.
\<close>

theorem download_agrees_with_fetch:
  "download_to dl h sha256 rq path w files =
     map_option (\<lambda>(r, w'). case r of
         Inl e \<Rightarrow> (Inl e, w', if request_error dl rq = None then files(partial_path path := None) else files)
       | Inr (records, sm) \<Rightarrow>
           (Inr (sm\<lparr>ds_raw_sha256 := Some (sha256 (content_of (rq_kind rq) records)),
                   ds_raw_file_size := Some (int (length (content_of (rq_kind rq) records))), ds_raw_path := Some path\<rparr>), w',
            files(partial_path path := None, path := Some (content_of (rq_kind rq) records))))
       (fetch_pages dl h rq w)"
proof (cases "request_error dl rq")
  case None
  have start: "written_state dl h rq (fetch_init w) = download_init rq w"
    by (simp add: written_state_def fetch_init_def download_init_def records_text_def fetch_summary_def Let_def)
      (simp add: summary_init_def)
  have "while_option (\<lambda>s. ld_end s = None) (download_round dl h rq) (download_init rq w) =
      map_option (written_state dl h rq) (while_option (\<lambda>s. fs_end s = None) (fetch_round dl h rq) (fetch_init w))"
    unfolding start [symmetric]
    by (rule while_option_commute [symmetric]) (simp_all add: round_written, simp add: written_state_def)
  then show ?thesis
    unfolding download_to_def fetch_pages_def None
    by (auto simp: option.map_comp comp_def content_of_def written_state_def Let_def fun_eq_iff
        intro!: option.map_cong split: option.splits sum.splits)
qed (simp add: download_to_def fetch_pages_def)

section \<open>The loop over pages ends\<close>

text \<open>The worlds that requests and pauses can lead to, and the bodies that the server sends in them.\<close>

inductive later_world :: "'w http \<Rightarrow> 'w \<Rightarrow> 'w \<Rightarrow> bool" for h w where
  now: "later_world h w w"
| opened: "later_world h w v \<Longrightarrow> ht_open h url v = (a, v') \<Longrightarrow> later_world h w v'"
| slept: "later_world h w v \<Longrightarrow> later_world h w (ht_sleep h pause v)"

definition served :: "'w http \<Rightarrow> 'w \<Rightarrow> string set" where
  "served h w = {body. \<exists>v url status v'. later_world h w v \<and> ht_open h url v = (Response status body, v')}"

lemma get_json_served:
  assumes "get_json dl h url retries v = (r, v')" "later_world h w v"
  shows "later_world h w v' \<and>
    (case r of Inl e \<Rightarrow> True | Inr (payload, status, n) \<Rightarrow> \<exists>body\<in>served h w. ht_decode h body = Some payload)"
  using assms
proof (induction dl h url retries v rule: get_json.induct)
  case (1 dl h url retries v)
  obtain a v1 where opened: "ht_open h url v = (a, v1)" by fastforce
  have v1: "later_world h w v1" using 1(4) opened by (rule later_world.opened)
  then have paused: "later_world h w (ht_sleep h (dl_backoff_seconds dl * 2 ^ nat retries) v1)" by (rule later_world.slept)
  show ?case
  proof (cases "judge (ht_decode h) a")
    case (Finished payload status)
    then obtain st body where "a = Response st body" "ht_decode h body = Some payload"
      by (auto simp: judge_def split: attempt.splits if_splits option.splits)
    moreover from this(1) 1(4) opened have "body \<in> served h w" unfolding served_def by blast
    ultimately have "\<exists>body\<in>served h w. ht_decode h body = Some payload" by blast
    with Finished 1(3) v1 show ?thesis by (subst (asm) get_json.simps) (auto simp: opened)
  next
    case (Fatal e)
    with 1(3) v1 show ?thesis by (subst (asm) get_json.simps) (auto simp: opened)
  next
    case (Again st)
    show ?thesis
    proof (cases "dl_max_retries dl \<le> retries")
      case True
      with 1(3) Again v1 show ?thesis by (subst (asm) get_json.simps) (auto simp: opened)
    next
      case False
      with 1(3) Again have "get_json dl h url (retries + 1) (ht_sleep h (dl_backoff_seconds dl * 2 ^ nat retries) v1) = (r, v')"
        by (subst (asm) get_json.simps) (simp add: opened)
      from 1(1) [OF opened [symmetric] refl refl Again False this paused] show ?thesis .
    qed
  next
    case AgainUnbound
    show ?thesis
    proof (cases "dl_max_retries dl \<le> retries")
      case True
      with 1(3) AgainUnbound v1 show ?thesis by (subst (asm) get_json.simps) (auto simp: opened)
    next
      case False
      with 1(3) AgainUnbound have "get_json dl h url (retries + 1) (ht_sleep h (dl_backoff_seconds dl * 2 ^ nat retries) v1) = (r, v')"
        by (subst (asm) get_json.simps) (simp add: opened)
      from 1(2) [OF opened [symmetric] refl refl AgainUnbound False this paused] show ?thesis .
    qed
  qed
qed

lemma open_page_InrD:
  assumes "open_page dl h rq token seen sm v = (Inr (m, page, seen', sm'), v')" "later_world h w v"
  shows "(case token of None \<Rightarrow> seen' = seen | Some t \<Rightarrow> t \<notin> set seen \<and> seen' = t # seen) \<and>
    ds_pages_requested sm' = ds_pages_requested sm + 1 \<and> (\<exists>body\<in>served h w. ht_decode h body = Some (JObj m))"
proof -
  obtain r v1 where sent: "get_json dl h (page_url dl rq token) 0 v = (r, v1)" by fastforce
  from assms(1) obtain payload status retries where r: "r = Inr (payload, status, retries)" "page_records rq token payload = Inr (m, page)"
    "sm' = count_status status retries (sm\<lparr>ds_pages_requested := ds_pages_requested sm + 1\<rparr>)"
    "seen' = (case token of Some t \<Rightarrow> t # seen | None \<Rightarrow> seen)" "\<not> (case token of Some t \<Rightarrow> t \<in> set seen | None \<Rightarrow> False)"
    by (auto simp: open_page_def sent Let_def rbind_eq_Inr split: if_split_asm)
  have "payload = JObj m"
    using r(2) by (cases payload) (auto simp: page_records_def split: option.splits if_splits)
  with get_json_served [OF sent [unfolded r(1)] assms(2)] r(3-) show ?thesis
    by (auto simp: count_status_def Let_def split: option.splits)
qed

lemma open_page_later: "open_page dl h rq token seen sm v = (r, v') \<Longrightarrow> later_world h w v \<Longrightarrow> later_world h w v'"
  by (auto simp: open_page_def Let_def dest: get_json_served split: prod.splits if_splits)

definition token_of :: "'w http \<Rightarrow> json_object \<Rightarrow> string option" where
  "token_of h m =
     (if py_truth (row_get m [''next_page_token'']) then Some (py_text (ht_repr h) (row_get m [''next_page_token''])) else None)"

definition pages_inv :: "'w http \<Rightarrow> 'w \<Rightarrow> string set \<Rightarrow> 'w fetch_state \<Rightarrow> bool" where
  "pages_inv h w T s \<longleftrightarrow>
     later_world h w (fs_world s) \<and> set (fs_seen s) \<subseteq> T \<and> distinct (fs_seen s) \<and>
     (case fs_end s of
        None \<Rightarrow>
          (case fs_token s of
             None \<Rightarrow> fs_seen s = [] \<and> ds_pages_requested (fs_summary s) = 0
           | Some t \<Rightarrow> t \<in> T - set (fs_seen s) \<and> ds_pages_requested (fs_summary s) = int (length (fs_seen s)) + 1)
      | Some _ \<Rightarrow> ds_pages_requested (fs_summary s) \<le> int (length (fs_seen s)) + 1)"

definition pages_left :: "string set \<Rightarrow> 'w fetch_state \<Rightarrow> nat" where
  "pages_left T s =
     (if fs_end s \<noteq> None then 0 else card T - length (fs_seen s) + (if fs_token s = None then 1 else 0))"

lemma distinct_card_le: "finite T \<Longrightarrow> set xs \<subseteq> T \<Longrightarrow> distinct xs \<Longrightarrow> length xs \<le> card T"
  by (metis card_mono distinct_card)

lemma fetch_round_progress:
  assumes T: "finite T" "\<And>body m t. body \<in> served h w \<Longrightarrow> ht_decode h body = Some (JObj m) \<Longrightarrow> token_of h m = Some t \<Longrightarrow> t \<in> T"
    and inv: "pages_inv h w T s" "fs_end s = None"
  shows "pages_inv h w T (fetch_round dl h rq s) \<and> pages_left T (fetch_round dl h rq s) < pages_left T s"
proof -
  obtain r v where opened: "open_page dl h rq (fs_token s) (fs_seen s) (fs_summary s) (fs_world s) = (r, v)" by fastforce
  have world: "later_world h w (fs_world s)" "later_world h w v"
    using inv(1) open_page_later [OF opened] by (auto simp: pages_inv_def)
  have room: "0 < pages_left T s"
    using inv distinct_card_le [OF T(1), of "the (fs_token s) # fs_seen s"]
    by (cases "fs_token s") (auto simp: pages_inv_def pages_left_def)
  have stop: "pages_inv h w T (s\<lparr>fs_world := v, fs_end := Some e\<rparr>) \<and> pages_left T (s\<lparr>fs_world := v, fs_end := Some e\<rparr>) < pages_left T s" for e
    using inv room world(2) by (auto simp: pages_inv_def split: option.splits) (simp_all add: pages_left_def)
  show ?thesis
  proof (cases r)
    case (Inl e)
    then show ?thesis using stop by (simp add: fetch_round_def opened)
  next
    case (Inr p)
    obtain m page seen sm where p: "p = (m, page, seen, sm)" by (metis prod_cases4)
    note got = open_page_InrD [OF opened [unfolded Inr p] world(1)]
    have seen: "set seen \<subseteq> T" "distinct seen" "ds_pages_requested sm = int (length seen) + 1"
      "length (fs_seen s) \<le> length seen" "fs_token s \<noteq> None \<Longrightarrow> length seen = Suc (length (fs_seen s))"
      using got inv by (auto simp: pages_inv_def split: option.splits)
    have requested: "ds_pages_requested (warn_missing dl m page (sm\<lparr>ds_pages_completed := c\<rparr>)) = ds_pages_requested sm" for c
      by (simp add: warn_missing_def)
    show ?thesis
    proof (cases "list_ex (\<lambda>v. json_object_of v = None) page")
      case True
      then show ?thesis using stop by (simp add: fetch_round_def opened Inr p)
    next
      case False
      show ?thesis
      proof (cases "next_token (ht_repr h) m seen")
        case (Inl e)
        then show ?thesis using stop False by (simp add: fetch_round_def opened Inr p Let_def)
      next
        case next_ok: (Inr token)
        have token: "t \<in> T - set seen" if "token = Some t" for t
        proof -
          have "token_of h m = Some t" "t \<notin> set seen"
            using next_ok that by (auto simp: next_token_def token_of_def Let_def split: if_split_asm)
          with T(2) got show ?thesis by blast
        qed
        have less: "card T - length seen < pages_left T s" if "token \<noteq> None"
        proof -
          obtain t where "t \<in> T - set seen" using \<open>token \<noteq> None\<close> token by blast
          then have "length (t # seen) \<le> card T" using seen by (intro distinct_card_le T(1)) auto
          with seen(4,5) inv(2) show ?thesis by (cases "fs_token s") (auto simp: pages_left_def)
        qed
        let ?s = "fetch_round dl h rq s"
        have s: "fs_token ?s = token" "fs_seen ?s = seen" "fs_end ?s = (if token = None then Some (Inr ()) else None)"
          "ds_pages_requested (fs_summary ?s) = int (length seen) + 1" "fs_world ?s = v"
          using False next_ok seen(3) by (simp_all add: fetch_round_def opened Inr p Let_def requested)
        show ?thesis
        proof (cases token)
          case None
          with s seen(1,2) room world(2) show ?thesis by (simp add: pages_inv_def) (simp add: pages_left_def)
        next
          case (Some t)
          with s seen(1,2) token less world(2) show ?thesis by (simp add: pages_inv_def) (simp add: pages_left_def)
        qed
      qed
    qed
  qed
qed

lemma ends_within:
  assumes "\<And>s. P s \<Longrightarrow> \<not> ended s \<Longrightarrow> P (step s) \<and> f (step s) < (f s :: nat)" "P s"
  shows "\<exists>n \<le> f s. ended ((step ^^ n) s)"
  using assms(2)
proof (induction "f s" arbitrary: s rule: less_induct)
  case less
  show ?case
  proof (cases "ended s")
    case True
    then show ?thesis by (intro exI [of _ 0]) simp
  next
    case False
    from assms(1) [OF less.prems False] less.hyps obtain n where "n \<le> f (step s)" "f (step s) < f s" "ended ((step ^^ n) (step s))"
      by blast
    then show ?thesis by (intro exI [of _ "Suc n"]) (simp add: funpow_swap1)
  qed
qed

text \<open>
  C30: The page loop ends: when the bodies that the server sends in the course of the download name finitely
  many next tokens, however it orders or repeats them, \<open>fetch_pages\<close> returns or raises; either way its
  loop runs at most once more than there are tokens, and when it returns it has requested at most so
  many pages.
\<close>

theorem fetch_pages_ends:
  assumes "finite T"
    and "\<forall>body\<in>served h w. \<forall>m t. ht_decode h body = Some (JObj m) \<and> token_of h m = Some t \<longrightarrow> t \<in> T"
  shows "\<exists>r w'. fetch_pages dl h rq w = Some (r, w') \<and>
    (\<exists>n \<le> card T + 1. fs_end ((fetch_round dl h rq ^^ n) (fetch_init w)) \<noteq> None) \<and>
    (case r of Inl e \<Rightarrow> True | Inr (records, sm) \<Rightarrow> ds_pages_requested sm \<le> int (card T) + 1)"
proof -
  let ?b = "\<lambda>s :: 'a fetch_state. fs_end s = None" and ?c = "fetch_round dl h rq"
  have progress: "pages_inv h w T (?c s) \<and> pages_left T (?c s) < pages_left T s"
    if "pages_inv h w T s" "fs_end s = None" for s :: "'a fetch_state"
    using fetch_round_progress [OF assms(1) _ that] assms(2) by blast
  have start: "pages_inv h w T (fetch_init w)" by (simp add: pages_inv_def fetch_init_def summary_init_def later_world.now)
  have rounds: "\<exists>n \<le> card T + 1. fs_end ((?c ^^ n) (fetch_init w)) \<noteq> None"
    using ends_within [where P = "pages_inv h w T" and step = ?c and f = "pages_left T" and ended = "\<lambda>s. fs_end s \<noteq> None", OF _ start] progress
    by (simp add: pages_left_def fetch_init_def)
  have "\<exists>s. while_option ?b ?c (fetch_init w) = Some s"
    by (rule measure_while_option_Some [where P = "pages_inv h w T" and f = "pages_left T"])
      (use progress start in auto)
  then obtain s where s: "while_option ?b ?c (fetch_init w) = Some s" by blast
  have "pages_inv h w T s"
    by (rule while_option_rule [OF _ s, where P = "pages_inv h w T"]) (use progress start in auto)
  then have "ds_pages_requested (fs_summary s) \<le> int (card T) + 1"
    using while_option_stop [OF s] distinct_card_le [OF assms(1), of "fs_seen s"] by (auto simp: pages_inv_def)
  then show ?thesis
    using rounds by (auto simp: fetch_pages_def s fetch_summary_def Let_def split: option.splits sum.splits)
qed

section \<open>Two pages\<close>

definition demo_page :: "string \<Rightarrow> json" where
  "demo_page body =
     (if body = ''1'' then JObj [(''trades'', JList [JObj [(''t'', JInt 7)]]), (''next_page_token'', JStr ''b'')]
      else JObj [(''trades'', JList [JObj [(''t'', JInt 9), (''s'', JInt 5)]])])"

text \<open>A server that answers once with a transient error, then with two pages.\<close>

definition demo_http :: "nat http" where
  "demo_http =
     \<lparr>ht_open = (\<lambda>url n. (if n = 0 then HttpError 429 else if n = 1 then Response 200 ''1'' else Response 200 ''2'', Suc n)),
      ht_sleep = (\<lambda>_ n. n), ht_decode = (\<lambda>body. Some (demo_page body)), ht_repr = (\<lambda>_. [])\<rparr>"

definition demo_downloader :: downloader where
  "demo_downloader =
     \<lparr>dl_feed = ''iex'', dl_api_key = Some ''k'', dl_api_secret = Some ''s'', dl_endpoint = ''u'', dl_page_limit = 10,
      dl_max_retries = 1, dl_backoff_seconds = 1 / 2\<rparr>"

definition demo_request :: request where
  "demo_request = \<lparr>rq_symbol = ''SPY'', rq_kind = ''trades'', rq_start = ''a'', rq_end = ''b''\<rparr>"

theorem get_json_retries_witness:
  "get_json demo_downloader demo_http ''u'' 0 0 = (Inr (demo_page ''1'', 200, 1), 2) \<and>
   get_json demo_downloader (demo_http\<lparr>ht_open := \<lambda>url n. (Response 429 [], Suc n)\<rparr>) ''u'' 0 0 = (Inl UnboundLocalError, 2)"
proof
  have "verdict_at demo_downloader demo_http ''u'' 0 0 = Again (Some 429)"
    "verdict_at demo_downloader demo_http ''u'' 0 1 = Finished (demo_page ''1'') 200"
    "dl_max_retries demo_downloader = 1" "snd (ht_open demo_http ''u'' (attempt_world demo_downloader demo_http ''u'' 0 1)) = 2"
    by (simp_all add: verdict_at_def demo_http_def demo_downloader_def judge_def PERMANENT_STATUSES_def TRANSIENT_STATUSES_def)
  then show "get_json demo_downloader demo_http ''u'' 0 0 = (Inr (demo_page ''1'', 200, 1), 2)"
    using get_json_retries [of 1 demo_downloader demo_http "''u''" 0] by (simp add: retried_def)
  let ?h = "demo_http\<lparr>ht_open := \<lambda>url n. (Response 429 [], Suc n)\<rparr>"
  have "verdict_at demo_downloader ?h ''u'' 0 0 = AgainUnbound" "verdict_at demo_downloader ?h ''u'' 0 1 = AgainUnbound"
    "dl_max_retries demo_downloader = 1" "snd (ht_open ?h ''u'' (attempt_world demo_downloader ?h ''u'' 0 1)) = 2"
    by (simp_all add: verdict_at_def demo_http_def demo_downloader_def judge_def TRANSIENT_STATUSES_def)
  then show "get_json demo_downloader ?h ''u'' 0 0 = (Inl UnboundLocalError, 2)"
    using get_json_retries [of 1 demo_downloader ?h "''u''" 0] by (simp add: retried_def)
qed

theorem fetch_pages_ends_witness:
  "\<exists>r w'. fetch_pages demo_downloader demo_http demo_request 0 = Some (r, w') \<and>
    (case r of Inl e \<Rightarrow> True | Inr (records, sm) \<Rightarrow> ds_pages_requested sm \<le> 2)"
proof -
  have "\<forall>body\<in>served demo_http 0. \<forall>m t. ht_decode demo_http body = Some (JObj m) \<and> token_of demo_http m = Some t \<longrightarrow> t \<in> {''b''}"
    by (auto simp: demo_http_def demo_page_def token_of_def row_get.simps py_text_def split: if_splits)
  then have ends: "\<exists>r w'. fetch_pages demo_downloader demo_http demo_request 0 = Some (r, w') \<and>
      (\<exists>n \<le> card {''b''} + 1. fs_end ((fetch_round demo_downloader demo_http demo_request ^^ n) (fetch_init 0)) \<noteq> None) \<and>
      (case r of Inl e \<Rightarrow> True | Inr (records, sm) \<Rightarrow> ds_pages_requested sm \<le> int (card {''b''}) + 1)"
    by (intro fetch_pages_ends) simp_all
  have "int (card {''b''}) + 1 = 2" by simp
  with ends show ?thesis by metis
qed

end
