(* ===== verification/Json_Array.thy ===== *)
theory Json_Array
  imports Download_Correct
begin

text \<open>
  \<open>iter_json_array\<close> of \<open>tools/backtest/streaming.py\<close>: the records of one array of a JSON file, read in
  chunks. The file is its text; \<open>scan\<close> is \<open>JSONDecoder.raw_decode\<close> at the start of a text, with the
  value and the number of characters it takes, or \<open>None\<close> for a \<open>JSONDecodeError\<close>. The buffer is kept
  from the reading position on. \<open>None\<close> as a result means that the loop does not end.
\<close>

section \<open>The iterator\<close>

text \<open>\<open>str.find\<close>: the position of the first occurrence.\<close>

fun find_sub :: "string \<Rightarrow> string \<Rightarrow> nat option" where
  "find_sub p [] = (if p = [] then Some 0 else None)"
| "find_sub p (c # cs) = (if take (length p) (c # cs) = p then Some 0 else map_option Suc (find_sub p cs))"

text \<open>The position behind the bracket that opens the array of \<open>key\<close>.\<close>

definition array_start :: "string \<Rightarrow> string \<Rightarrow> nat option" where
  "array_start key buffer =
     (case find_sub ([char_of (34 :: nat)] @ key @ [char_of (34 :: nat)]) buffer of
        None \<Rightarrow> None
      | Some marker \<Rightarrow> map_option (\<lambda>k. marker + k + 1) (find_sub ''['' (drop marker buffer)))"

definition lacks_array :: "string \<Rightarrow> py_error" where
  "lacks_array key = ValueError (''provider file lacks '' @ key @ '' array'')"

text \<open>Reading up to the array: the buffer behind the bracket, the unread text and \<open>eof\<close>.\<close>

partial_function (option) seek_array ::
  "string \<Rightarrow> nat \<Rightarrow> string \<Rightarrow> string \<Rightarrow> bool \<Rightarrow> (string \<times> string \<times> bool) result option" where
  "seek_array key chunk buffer rest eof =
     (if eof then Some (Inl (lacks_array key))
      else
        let buffer = buffer @ take chunk rest; rest = drop chunk rest; eof = (length buffer < chunk) in
        case array_start key buffer of
          Some position \<Rightarrow> Some (Inr (drop position buffer, rest, eof))
        | None \<Rightarrow> if eof then Some (Inl (lacks_array key)) else seek_array key chunk buffer rest eof)"

definition separator :: "char \<Rightarrow> bool" where
  "separator c \<longleftrightarrow> char_code c \<in> {32, 9, 13, 10, 44}"

text \<open>The records: skip separators, stop at the bracket, decode, and read on when the buffer is too short.\<close>

partial_function (option) array_items ::
  "(string \<Rightarrow> (json \<times> nat) option) \<Rightarrow> string \<Rightarrow> nat \<Rightarrow> string \<Rightarrow> string \<Rightarrow> bool \<Rightarrow> json_object stream option" where
  "array_items scan key chunk buffer rest eof =
     (let buffer = dropWhile separator buffer in
      if buffer = []
      then
        if eof then Some ([], Some (ValueError (''unterminated '' @ key @ '' array'')))
        else array_items scan key chunk (take chunk rest) (drop chunk rest) (length (take chunk rest) < chunk)
      else if hd buffer = CHR '']'' then Some ([], None)
      else case scan buffer of
        None \<Rightarrow>
          if eof then Some ([], Some (ValueError (''malformed '' @ key @ '' record'')))
          else array_items scan key chunk (buffer @ take chunk rest) (drop chunk rest) (length (buffer @ take chunk rest) < chunk)
      | Some (v, n) \<Rightarrow>
          (case json_object_of v of
             None \<Rightarrow> Some ([], Some (ValueError (''malformed '' @ key @ '' record'')))
           | Some row \<Rightarrow> Option.bind (array_items scan key chunk (drop n buffer) rest eof) (\<lambda>s. Some (yields row s))))"

definition iter_json_array ::
  "(string \<Rightarrow> (json \<times> nat) option) \<Rightarrow> string \<Rightarrow> nat \<Rightarrow> string \<Rightarrow> json_object stream option" where
  "iter_json_array scan key chunk file =
     Option.bind (seek_array key chunk [] file False) (\<lambda>r.
       case r of
         Inl e \<Rightarrow> Some ([], Some e)
       | Inr (buffer, rest, eof) \<Rightarrow> array_items scan key chunk buffer rest eof)"

section \<open>Searching in a prefix\<close>

lemma find_sub_bound: "find_sub p s = Some n \<Longrightarrow> n + length p \<le> length s"
proof (induction s arbitrary: n)
  case (Cons c cs)
  show ?case
  proof (cases "take (length p) (c # cs) = p")
    case True
    then have "length p \<le> length (c # cs)" by (metis length_take min.cobounded1)
    with True Cons.prems show ?thesis by simp
  qed (use Cons in auto)
qed (simp split: if_splits)

lemma find_sub_append: "find_sub p s = Some n \<Longrightarrow> find_sub p (s @ t) = Some n"
proof (induction s arbitrary: n)
  case Nil
  then show ?case by (cases t) (simp_all split: if_splits)
next
  case (Cons c cs)
  have fits: "length p \<le> length (c # cs)" using find_sub_bound [OF Cons.prems] by simp
  then have same: "take (length p) (c # (cs @ t)) = take (length p) (c # cs)"
    by (metis append_Cons diff_is_0_eq take_0 take_append append_Nil2)
  show ?case using Cons by (auto simp: same simp del: take_Suc_Cons split: if_splits)
qed

lemma array_start_append:
  assumes "array_start key s = Some n"
  shows "array_start key (s @ t) = Some n" "n \<le> length s"
proof -
  obtain m k where m: "find_sub ([char_of (34 :: nat)] @ key @ [char_of (34 :: nat)]) s = Some m"
    and k: "find_sub ''['' (drop m s) = Some k" "n = m + k + 1"
    using assms by (auto simp: array_start_def split: option.splits)
  have "m \<le> length s" "k + 1 \<le> length (drop m s)" using find_sub_bound [OF m] find_sub_bound [OF k(1)] by simp_all
  then show "array_start key (s @ t) = Some n" "n \<le> length s"
    using find_sub_append [OF m, of t] find_sub_append [OF k(1), of t] k(2) by (simp_all add: array_start_def)
qed

section \<open>Finding the array\<close>

lemma array_start_prefix: "array_start key (b @ r) = None \<Longrightarrow> array_start key (b @ take n r) = None"
  using array_start_append(1) [of key "b @ take n r" _ "drop n r"] by (cases "array_start key (b @ take n r)") simp_all

lemma seek_array_hangs:
  assumes "array_start key (buffer @ rest) = None" "chunk \<le> length buffer"
  shows "seek_array key chunk buffer rest False = None"
proof (cases "seek_array key chunk buffer rest False")
  case (Some y)
  let ?P = "\<lambda>key chunk b r e (y :: (string \<times> string \<times> bool) result).
    array_start key (b @ r) = None \<longrightarrow> chunk \<le> length b \<longrightarrow> e"
  have "?P key chunk buffer rest False y"
  proof (rule seek_array.raw_induct [OF _ Some, where P = ?P])
    fix rec key chunk b r e y
    assume IH: "\<And>key chunk b r e y. rec key chunk b r e = Some y \<Longrightarrow> ?P key chunk b r e y"
      and body: "(if e then Some (Inl (lacks_array key))
        else
          let b = b @ take chunk r; r = drop chunk r; e = (length b < chunk) in
          case array_start key b of
            Some position \<Rightarrow> Some (Inr (drop position b, r, e))
          | None \<Rightarrow> if e then Some (Inl (lacks_array key)) else rec key chunk b r e) = Some y"
    show "?P key chunk b r e y"
    proof (intro impI, rule ccontr)
      assume *: "array_start key (b @ r) = None" "chunk \<le> length b" "\<not> e"
      have "rec key chunk (b @ take chunk r) (drop chunk r) False = Some y"
        using body array_start_prefix [OF *(1)] *(2,3) by (simp add: Let_def)
      from IH [OF this] *(1,2) show False by simp
    qed
  qed
  with assms show ?thesis by simp
qed

text \<open>What the loops keep of the reading state: \<open>eof\<close> only after a short read at the end of the file.\<close>

definition read_inv :: "nat \<Rightarrow> string \<Rightarrow> string \<Rightarrow> bool \<Rightarrow> bool" where
  "read_inv chunk buffer rest eof \<longleftrightarrow> (eof \<longrightarrow> rest = [] \<and> length buffer < chunk)"

lemma read_inv_read: "read_inv chunk (b @ take chunk r) (drop chunk r) (length (b @ take chunk r) < chunk)"
  by (auto simp: read_inv_def)

lemma read_inv_drop: "read_inv chunk b r e \<Longrightarrow> length b' \<le> length b \<Longrightarrow> read_inv chunk b' r e"
  by (auto simp: read_inv_def)

lemma seek_array_finds:
  assumes "array_start key (b @ r) = Some n" "array_start key b = None" "0 < chunk"
  shows "\<exists>b' r' e. seek_array key chunk b r False = Some (Inr (b', r', e)) \<and> b' @ r' = drop n (b @ r) \<and> read_inv chunk b' r' e"
  using assms
proof (induction "length r" arbitrary: b r rule: less_induct)
  case less
  let ?b = "b @ take chunk r" and ?r = "drop chunk r"
  have whole: "b @ r = ?b @ ?r" by simp
  show ?case
  proof (cases "array_start key ?b")
    case (Some k)
    then have "array_start key (b @ r) = Some k" "k \<le> length ?b"
      unfolding whole by (rule array_start_append)+
    then have k: "k = n" "n \<le> length ?b" using less.prems(1) by simp_all
    have "seek_array key chunk b r False = Some (Inr (drop n ?b, ?r, length ?b < chunk))"
      by (subst seek_array.simps) (simp add: Let_def Some [unfolded k(1)] del: append_assoc drop_append)
    moreover have "drop n ?b @ ?r = drop n (b @ r)" using k(2) unfolding whole by (simp del: append_take_drop_id)
    moreover have "read_inv chunk (drop n ?b) ?r (length ?b < chunk)"
      by (rule read_inv_drop [OF read_inv_read]) simp
    ultimately show ?thesis by blast
  next
    case None
    then have "r \<noteq> []" using less.prems(1) by auto
    then have smaller: "length ?r < length r" using less.prems(3) by simp
    have long: "chunk \<le> length ?b" using None less.prems(1) by (cases "length ?b < chunk") (auto simp: not_less)
    have "seek_array key chunk b r False = seek_array key chunk ?b ?r False"
      by (subst seek_array.simps) (use None long in \<open>simp add: Let_def\<close>)
    then show ?thesis using less.hyps [OF smaller, of ?b] less.prems None by simp
  qed
qed

section \<open>Reading records\<close>

lemma separated_prefix:
  assumes "dropWhile separator (b @ r) = c # t" "dropWhile separator b \<noteq> []"
  shows "dropWhile separator b @ r = c # t"
  using assms by (induction b) (auto split: if_splits)

lemma separated_rest: "dropWhile separator b = [] \<Longrightarrow> dropWhile separator (b @ r) = dropWhile separator r"
  by (induction b) (auto split: if_splits)

text \<open>Before a text that is no separator the loop reads until the first character is in the buffer.\<close>

lemma array_items_skip:
  assumes "dropWhile separator (b @ r) = c # t" "read_inv chunk b r e" "0 < chunk"
  shows "\<exists>b' r' e'. array_items scan key chunk b r e = array_items scan key chunk b' r' e' \<and>
    b' \<noteq> [] \<and> b' @ r' = c # t \<and> read_inv chunk b' r' e' \<and> length r' \<le> length r"
  using assms
proof (induction "length r" arbitrary: b r e rule: less_induct)
  case less
  show ?case
  proof (cases "dropWhile separator b = []")
    case False
    have "array_items scan key chunk b r e = array_items scan key chunk (dropWhile separator b) r e"
      by (subst array_items.simps, subst (2) array_items.simps) (simp add: Let_def dropWhile_idem)
    moreover have "read_inv chunk (dropWhile separator b) r e"
      using less.prems(2) by (rule read_inv_drop) (rule length_dropWhile_le)
    ultimately show ?thesis using False separated_prefix [OF less.prems(1)] by blast
  next
    case True
    then have r: "dropWhile separator r = c # t" using separated_rest [OF True] less.prems(1) by simp
    then have "r \<noteq> []" by auto
    with less.prems(2,3) have e: "\<not> e" "length (drop chunk r) < length r" by (auto simp: read_inv_def)
    have "array_items scan key chunk b r e = array_items scan key chunk (take chunk r) (drop chunk r) (length (take chunk r) < chunk)"
      by (subst array_items.simps) (simp add: Let_def True e(1))
    moreover have "read_inv chunk (take chunk r) (drop chunk r) (length (take chunk r) < chunk)"
      using read_inv_read [of chunk "[]"] by simp
    ultimately show ?thesis
      using less.hyps [OF e(2), of "take chunk r" "length (take chunk r) < chunk"] less.prems(3) r by fastforce
  qed
qed

text \<open>
  What the decoder owes a record: its value wherever the record is written out in full, and an error for
  every text that breaks off inside it.
\<close>

definition decodes :: "(string \<Rightarrow> (json \<times> nat) option) \<Rightarrow> string \<Rightarrow> json_object \<Rightarrow> bool" where
  "decodes scan d row \<longleftrightarrow> (\<forall>post. scan (d @ post) = Some (JObj row, length d)) \<and> (\<forall>k < length d. scan (take k d) = None)"

lemma array_items_decode:
  assumes "decodes scan d row" "d = c # d'" "\<not> separator c" "c \<noteq> CHR '']''" "0 < chunk"
    "b \<noteq> []" "b @ r = d @ post" "read_inv chunk b r e"
  shows "\<exists>b' r' e'. array_items scan key chunk b r e =
      Option.bind (array_items scan key chunk b' r' e') (\<lambda>s. Some (yields row s)) \<and> b' @ r' = post \<and> read_inv chunk b' r' e'"
  using assms(6-8)
proof (induction "length r" arbitrary: b r e rule: less_induct)
  case less
  obtain b1 where b: "b = c # b1" using less.prems(1,2) assms(2) by (cases b) simp_all
  have first: "dropWhile separator b = b" "hd b \<noteq> CHR '']''" using assms(3,4) by (simp_all add: b)
  show ?case
  proof (cases "length d \<le> length b")
    case True
    then have split: "b = d @ drop (length d) b"
      using less.prems(2) by (metis append_eq_append_conv_if append_take_drop_id)
    then have "scan b = Some (JObj row, length d)" using assms(1) unfolding decodes_def by metis
    then have "array_items scan key chunk b r e =
        Option.bind (array_items scan key chunk (drop (length d) b) r e) (\<lambda>s. Some (yields row s))"
      using less.prems(1) by (subst array_items.simps) (simp add: Let_def first)
    moreover have "drop (length d) b @ r = post"
      using less.prems(2) split by (metis append_assoc same_append_eq)
    moreover have "read_inv chunk (drop (length d) b) r e" using less.prems(3) by (rule read_inv_drop) simp
    ultimately show ?thesis by blast
  next
    case False
    then have "b = take (length b) d" using less.prems(2)
      by (metis append_eq_append_conv_if nat_le_linear take_all_iff)
    then have none: "scan b = None" using assms(1) False unfolding decodes_def by (metis not_le_imp_less)
    have "r \<noteq> []" using False less.prems(2) by auto
    with less.prems(3) assms(5) have e: "\<not> e" "length (drop chunk r) < length r" by (auto simp: read_inv_def)
    have "array_items scan key chunk b r e =
        array_items scan key chunk (b @ take chunk r) (drop chunk r) (length (b @ take chunk r) < chunk)"
      using less.prems(1) by (subst array_items.simps) (simp add: Let_def first none e(1))
    then show ?thesis
      using less.hyps [OF e(2), of "b @ take chunk r", OF _ _ read_inv_read] less.prems(1,2) by simp
  qed
qed

definition record_text :: "json_object \<Rightarrow> string" where
  "record_text row = json_dumps (JObj row)"

lemma record_text_brace: "\<exists>t. record_text row = CHR ''{'' # t"
  by (simp add: record_text_def)

lemma array_items_record:
  assumes "decodes scan (record_text row) row'" "0 < chunk" "list_all separator sep"
    "b @ r = sep @ record_text row @ post" "read_inv chunk b r e"
  shows "\<exists>b' r' e'. array_items scan key chunk b r e =
      Option.bind (array_items scan key chunk b' r' e') (\<lambda>s. Some (yields row' s)) \<and> b' @ r' = post \<and> read_inv chunk b' r' e'"
proof -
  obtain t where t: "record_text row = CHR ''{'' # t" using record_text_brace by blast
  have brace: "\<not> separator CHR ''{''" by (simp add: separator_def char_code_def)
  have "dropWhile separator (b @ r) = CHR ''{'' # (t @ post)"
    using assms(3) brace unfolding assms(4) t by (simp add: dropWhile_append2 list_all_iff)
  from array_items_skip [OF this assms(5,2), of scan key] obtain b1 r1 e1 where
    skip: "array_items scan key chunk b r e = array_items scan key chunk b1 r1 e1"
    and b1: "b1 \<noteq> []" "b1 @ r1 = record_text row @ post" "read_inv chunk b1 r1 e1"
    unfolding t append_Cons by blast
  show ?thesis unfolding skip
    by (rule array_items_decode [OF assms(1) t brace _ assms(2) b1]) simp
qed

lemma array_items_records:
  assumes "\<forall>row \<in> set rows. decodes scan (record_text row) (back row)" "0 < chunk"
    "read_inv chunk b r e" "b @ r = concat (map (\<lambda>row. sep @ record_text row) rows) @ post" "list_all separator sep"
  shows "\<exists>b' r' e'. array_items scan key chunk b r e =
      Option.bind (array_items scan key chunk b' r' e') (\<lambda>s. Some (map back rows @ fst s, snd s)) \<and>
    b' @ r' = post \<and> read_inv chunk b' r' e'"
  using assms(1,3,4)
proof (induction rows arbitrary: b r e)
  case Nil
  then have "array_items scan key chunk b r e =
      Option.bind (array_items scan key chunk b r e) (\<lambda>s. Some (map back [] @ fst s, snd s)) \<and>
    b @ r = post \<and> read_inv chunk b r e" by simp
  then show ?case by blast
next
  case (Cons row rows)
  have "\<exists>b1 r1 e1. array_items scan key chunk b r e =
      Option.bind (array_items scan key chunk b1 r1 e1) (\<lambda>s. Some (yields (back row) s)) \<and>
    b1 @ r1 = concat (map (\<lambda>row. sep @ record_text row) rows) @ post \<and> read_inv chunk b1 r1 e1"
    by (rule array_items_record [OF _ assms(2,5)]) (use Cons.prems in simp_all)
  then obtain b1 r1 e1 where first: "array_items scan key chunk b r e =
      Option.bind (array_items scan key chunk b1 r1 e1) (\<lambda>s. Some (yields (back row) s))"
    and rest: "b1 @ r1 = concat (map (\<lambda>row. sep @ record_text row) rows) @ post" "read_inv chunk b1 r1 e1" by blast
  from Cons.IH [OF _ rest(2,1)] Cons.prems(1) obtain b2 r2 e2 where
    "array_items scan key chunk b1 r1 e1 =
       Option.bind (array_items scan key chunk b2 r2 e2) (\<lambda>s. Some (map back rows @ fst s, snd s))"
    "b2 @ r2 = post" "read_inv chunk b2 r2 e2" by auto
  then show ?case unfolding first by (fastforce simp: yields_def bind_assoc)
qed

section \<open>The end of the array\<close>

lemma array_items_close:
  assumes "dropWhile separator (b @ r) = CHR '']'' # t" "read_inv chunk b r e" "0 < chunk"
  shows "array_items scan key chunk b r e = Some ([], None)"
proof -
  obtain b' r' e' where skip: "array_items scan key chunk b r e = array_items scan key chunk b' r' e'"
    and "b' \<noteq> []" "b' @ r' = CHR '']'' # t"
    using array_items_skip [OF assms, of scan key] by blast
  then obtain b1 where b: "b' = CHR '']'' # b1" by (cases b') simp_all
  have "\<not> separator CHR '']''" by (simp add: separator_def char_code_def)
  then show ?thesis unfolding skip b by (subst array_items.simps) (simp add: Let_def)
qed

definition malformed_record :: "string \<Rightarrow> py_error" where
  "malformed_record key = ValueError (''malformed '' @ key @ '' record'')"

lemma array_items_malformed_short:
  assumes "dropWhile separator (b @ r) = c # t" "c \<noteq> CHR '']''" "\<forall>k. scan (take k (c # t)) = None"
    "read_inv chunk b r e" "length (c # t) < chunk"
  shows "array_items scan key chunk b r e = Some ([], Some (malformed_record key))"
proof -
  have sep: "\<not> separator c" using assms(1) by (metis dropWhile_eq_Cons_conv)
  have chunk: "0 < chunk" using assms(5) by simp
  have "array_items scan key chunk b r e = Some ([], Some (malformed_record key))"
    if "b \<noteq> []" "b @ r = c # t" "read_inv chunk b r e" for b r e
    using that
  proof (induction "length r + (if e then 0 else 1)" arbitrary: b r e rule: less_induct)
    case less
    obtain b1 where b: "b = c # b1" using less.prems(1,2) by (cases b) simp_all
    have none: "dropWhile separator b = b" "hd b \<noteq> CHR '']''" using sep assms(2) by (simp_all add: b)
    have "scan b = None" using assms(3) less.prems(2) by (metis append_eq_conv_conj)
    then have step: "array_items scan key chunk b r e =
        (if e then Some ([], Some (malformed_record key))
         else array_items scan key chunk (b @ take chunk r) (drop chunk r) (length (b @ take chunk r) < chunk))"
      using less.prems(1) by (subst array_items.simps) (simp add: Let_def none malformed_record_def)
    show ?case
    proof (cases e)
      case False
      have "length (b @ r) < chunk" using less.prems(2) assms(5) by simp
      then have "length (drop chunk r) + (if length (b @ take chunk r) < chunk then 0 else 1) < length r + (if e then 0 else 1)"
        using False by simp
      from less.hyps [OF this _ _ read_inv_read] less.prems show ?thesis unfolding step using False by simp
    next
      case True
      then show ?thesis unfolding step by simp
    qed
  qed
  with array_items_skip [OF assms(1,4) chunk, of scan key] show ?thesis by metis
qed

lemma array_items_malformed_long:
  assumes "dropWhile separator (b @ r) = c # t" "c \<noteq> CHR '']''" "\<forall>k. scan (take k (c # t)) = None"
    "read_inv chunk b r e" "chunk \<le> length (c # t)"
  shows "array_items scan key chunk b r e = None"
proof (cases "array_items scan key chunk b r e")
  case (Some y)
  let ?P = "\<lambda>scan key chunk b r e (y :: json_object stream).
    \<not> (dropWhile separator (b @ r) = c # t \<and> (\<forall>k. scan (take k (c # t)) = None) \<and> read_inv chunk b r e \<and> chunk \<le> length (c # t))"
  have "?P scan key chunk b r e y"
  proof (rule array_items.raw_induct [OF _ Some, where P = ?P], rule notI, elim conjE)
    fix rec scan key chunk b r e y
    assume IH: "\<And>scan key chunk b r e y. rec scan key chunk b r e = Some y \<Longrightarrow> ?P scan key chunk b r e y"
      and body: "(let b = dropWhile separator b in
        if b = []
        then
          if e then Some ([], Some (ValueError (''unterminated '' @ key @ '' array'')))
          else rec scan key chunk (take chunk r) (drop chunk r) (length (take chunk r) < chunk)
        else if hd b = CHR '']'' then Some ([], None)
        else case scan b of
          None \<Rightarrow>
            if e then Some ([], Some (ValueError (''malformed '' @ key @ '' record'')))
            else rec scan key chunk (b @ take chunk r) (drop chunk r) (length (b @ take chunk r) < chunk)
        | Some (v, n) \<Rightarrow>
            (case json_object_of v of
               None \<Rightarrow> Some ([], Some (ValueError (''malformed '' @ key @ '' record'')))
             | Some row \<Rightarrow> Option.bind (rec scan key chunk (drop n b) r e) (\<lambda>s. Some (yields row s)))) = Some y"
      and here: "dropWhile separator (b @ r) = c # t" "\<forall>k. scan (take k (c # t)) = None"
        "read_inv chunk b r e" "chunk \<le> length (c # t)"
    have e: "\<not> e"
      using here(1,3,4) length_dropWhile_le [of separator b] by (auto simp: read_inv_def)
    show False
    proof (cases "dropWhile separator b = []")
      case True
      then have "dropWhile separator r = c # t" using separated_rest [OF True] here(1) by simp
      moreover have "read_inv chunk (take chunk r) (drop chunk r) (length (take chunk r) < chunk)"
        using read_inv_read [of chunk "[]"] by simp
      moreover have "rec scan key chunk (take chunk r) (drop chunk r) (length (take chunk r) < chunk) = Some y"
        using body True e by (simp only: Let_def simp_thms if_True if_False)
      ultimately show False using IH here(2,4) by (metis append_take_drop_id)
    next
      case False
      have split: "dropWhile separator b @ r = c # t" by (rule separated_prefix [OF here(1) False])
      have "hd (dropWhile separator b) = c" using split False by (metis hd_append2 list.sel(1))
      moreover have "scan (dropWhile separator b) = None" using here(2) split by (metis append_eq_conv_conj)
      ultimately have "rec scan key chunk (dropWhile separator b @ take chunk r) (drop chunk r)
          (length (dropWhile separator b @ take chunk r) < chunk) = Some y"
        using body False e assms(2) by (simp del: dropWhile_eq_Nil_conv length_append add: Let_def)
      moreover have "dropWhile separator ((dropWhile separator b @ take chunk r) @ drop chunk r) = c # t"
        using split here(1) by (metis append.assoc append_take_drop_id dropWhile_idem)
      ultimately show False using IH here(2,4) read_inv_read by blast
    qed
  qed
  with assms show ?thesis by blast
qed

definition unterminated_array :: "string \<Rightarrow> py_error" where
  "unterminated_array key = ValueError (''unterminated '' @ key @ '' array'')"

lemma array_items_unterminated:
  assumes "dropWhile separator (b @ r) = []" "read_inv chunk b r e" "0 < chunk"
  shows "array_items scan key chunk b r e = Some ([], Some (unterminated_array key))"
  using assms(1,2)
proof (induction "length r + (if e then 0 else 1)" arbitrary: b r e rule: less_induct)
  case less
  have none: "dropWhile separator b = []" "dropWhile separator r = []" using less.prems(1) by auto
  have step: "array_items scan key chunk b r e =
      (if e then Some ([], Some (unterminated_array key))
       else array_items scan key chunk (take chunk r) (drop chunk r) (length (take chunk r) < chunk))"
    by (subst array_items.simps) (simp only: none Let_def unterminated_array_def simp_thms if_True)
  show ?case
  proof (cases e)
    case False
    have "length (drop chunk r) + (if length (take chunk r) < chunk then 0 else 1) < length r + (if e then 0 else 1)"
      using False assms(3) by (cases "length r < chunk") simp_all
    from less.hyps [OF this _ read_inv_read [of chunk "[]", simplified append_Nil]] none(2) show ?thesis
      unfolding step using False by simp
  next
    case True
    then show ?thesis unfolding step by simp
  qed
qed

section \<open>Files of the downloader\<close>

lemma join_with_Cons: "join_with sep (w # ws) = w @ concat (map (\<lambda>x. sep @ x) ws)"
  by (induction ws arbitrary: w) simp_all

lemma quote_char: "char_of (34 :: nat) = CHR 0x22"
  by code_simp

lemma file_header_start:
  assumes "kind \<in> {''quotes'', ''trades''}"
  shows "array_start kind (file_header kind @ post) = Some (length (file_header kind) - 1)"
    "drop (length (file_header kind) - 1) (file_header kind @ post) = CHR 0x0A # post"
  using assms by (auto simp: array_start_def file_header_def quote_char)

lemma content_items:
  assumes "\<forall>row \<in> set rows. decodes scan (record_text row) (back row)" "0 < chunk"
    "read_inv chunk b r e" "b @ r = CHR 0x0A # records_text rows @ post"
  shows "\<exists>b' r' e'. array_items scan key chunk b r e =
      Option.bind (array_items scan key chunk b' r' e') (\<lambda>s. Some (map back rows @ fst s, snd s)) \<and>
    dropWhile separator (b' @ r') = dropWhile separator post \<and> read_inv chunk b' r' e'"
proof (cases rows)
  case Nil
  have "separator CHR 0x0A" by (simp add: separator_def char_code_def)
  with assms(4) have "dropWhile separator (b @ r) = dropWhile separator post" by (simp add: Nil records_text_def)
  moreover have "array_items scan key chunk b r e =
      Option.bind (array_items scan key chunk b r e) (\<lambda>s. Some (map back rows @ fst s, snd s))" by (simp add: Nil)
  ultimately show ?thesis using assms(3) by blast
next
  case (Cons row rest)
  let ?sep = "'','' @ [CHR 0x0A]"
  have seps: "list_all separator ?sep" "list_all separator [CHR 0x0A]" by (simp_all add: separator_def char_code_def)
  have whole: "b @ r = [CHR 0x0A] @ record_text row @ (concat (map (\<lambda>row. ?sep @ record_text row) rest) @ post)"
    by (simp add: assms(4) Cons records_text_def join_with_Cons record_text_def comp_def)
  have "decodes scan (record_text row) (back row)" using assms(1) by (simp add: Cons)
  from array_items_record [OF this assms(2) seps(2) whole assms(3)] obtain b1 r1 e1 where
    first: "array_items scan key chunk b r e = Option.bind (array_items scan key chunk b1 r1 e1) (\<lambda>s. Some (yields (back row) s))"
    and b1: "read_inv chunk b1 r1 e1" "b1 @ r1 = concat (map (\<lambda>row. ?sep @ record_text row) rest) @ post" by blast
  have "\<forall>row \<in> set rest. decodes scan (record_text row) (back row)" using assms(1) by (simp add: Cons)
  from array_items_records [OF this assms(2) b1 seps(1)] obtain b2 r2 e2 where
    "array_items scan key chunk b1 r1 e1 =
       Option.bind (array_items scan key chunk b2 r2 e2) (\<lambda>s. Some (map back rest @ fst s, snd s))"
    "b2 @ r2 = post" "read_inv chunk b2 r2 e2" by blast
  then show ?thesis unfolding first by (fastforce simp: yields_def bind_assoc Cons)
qed

lemma downloaded_items:
  assumes "kind \<in> {''quotes'', ''trades''}" "0 < chunk" "\<forall>row \<in> set rows. decodes scan (record_text row) (back row)"
  shows "\<exists>b r e. iter_json_array scan kind chunk (file_header kind @ records_text rows @ post) =
      Option.bind (array_items scan kind chunk b r e) (\<lambda>s. Some (map back rows @ fst s, snd s)) \<and>
    dropWhile separator (b @ r) = dropWhile separator post \<and> read_inv chunk b r e"
proof -
  let ?file = "file_header kind @ records_text rows @ post"
  have "array_start kind ([] @ ?file) = Some (length (file_header kind) - 1)" "array_start kind [] = None"
    using file_header_start(1) [OF assms(1)] by (simp_all add: array_start_def)
  from seek_array_finds [OF this assms(2)] obtain b r e where
    found: "seek_array kind chunk [] ?file False = Some (Inr (b, r, e))" "read_inv chunk b r e"
    and "b @ r = drop (length (file_header kind) - 1) ?file" by auto
  then have "b @ r = CHR 0x0A # records_text rows @ post" using file_header_start(2) [OF assms(1)] by simp
  from content_items [OF assms(3,2) found(2) this, of kind] show ?thesis
    by (simp add: iter_json_array_def found(1))
qed

section \<open>What the reader returns\<close>

text \<open>
  A downloaded file is read back: whatever the chunk size, and wherever a chunk ends, the reader yields
  the records the downloader wrote, in their order and once each, and stops without an error, given
  only that the JSON decoder reads each written record back and refuses a text that breaks off inside one.
\<close>

theorem downloaded_file_reads_back:
  assumes "kind \<in> {''quotes'', ''trades''}" "0 < chunk" "\<forall>row \<in> set rows. decodes scan (record_text row) (back row)"
  shows "iter_json_array scan kind chunk (content_of kind rows) = Some (map back rows, None)"
proof -
  obtain b r e where read: "iter_json_array scan kind chunk (content_of kind rows) =
      Option.bind (array_items scan kind chunk b r e) (\<lambda>s. Some (map back rows @ fst s, snd s))"
    and rest: "dropWhile separator (b @ r) = dropWhile separator file_footer" "read_inv chunk b r e"
    using downloaded_items [OF assms, of file_footer] unfolding content_of_def by blast
  have "dropWhile separator (b @ r) = CHR '']'' # ''}'' @ [CHR 0x0A]"
    unfolding rest(1) by (simp add: file_footer_def separator_def char_code_def)
  from array_items_close [OF this rest(2) assms(2)] show ?thesis by (simp add: read)
qed

text \<open>
  A file that breaks off: after the records that are whole, the reader raises when less than a chunk
  is left, an unterminated array between two records and a malformed record inside one, but when a
  chunk or more is left undecoded its end-of-file test never becomes true and the loop does not end.
\<close>

theorem broken_file_outcome:
  assumes "kind \<in> {''quotes'', ''trades''}" "0 < chunk" "\<forall>row \<in> set rows. decodes scan (record_text row) (back row)"
    "hd (dropWhile separator tail) \<noteq> CHR '']''" "\<forall>k. scan (take k (dropWhile separator tail)) = None"
  shows "iter_json_array scan kind chunk (file_header kind @ records_text rows @ tail) =
    (if dropWhile separator tail = [] then Some (map back rows, Some (unterminated_array kind))
     else if length (dropWhile separator tail) < chunk then Some (map back rows, Some (malformed_record kind))
     else None)"
proof -
  obtain b r e where read: "iter_json_array scan kind chunk (file_header kind @ records_text rows @ tail) =
      Option.bind (array_items scan kind chunk b r e) (\<lambda>s. Some (map back rows @ fst s, snd s))"
    and rest: "dropWhile separator (b @ r) = dropWhile separator tail" "read_inv chunk b r e"
    using downloaded_items [OF assms(1-3)] by blast
  show ?thesis
  proof (cases "dropWhile separator tail")
    case Nil
    with array_items_unterminated [OF _ rest(2) assms(2)] rest(1) show ?thesis by (simp add: read)
  next
    case (Cons c t)
    then have "dropWhile separator (b @ r) = c # t" "c \<noteq> CHR '']''" "\<forall>k. scan (take k (c # t)) = None"
      using rest(1) assms(4,5) by simp_all
    from array_items_malformed_short [OF this rest(2)] array_items_malformed_long [OF this rest(2)] Cons
    show ?thesis by (simp add: read not_less)
  qed
qed

text \<open>
  A file without the array is refused only when it is shorter than a chunk: otherwise the test for the
  end of the file looks at the whole buffer, never becomes true, and the reader loops for ever.
\<close>

theorem file_without_array:
  assumes "array_start key file = None"
  shows "iter_json_array scan key chunk file =
    (if length file < chunk then Some ([], Some (lacks_array key)) else None)"
proof -
  have "array_start key (take chunk file) = None" using array_start_prefix [where b = "[]" and r = "file" and key = key and n = chunk] assms by simp
  then have "seek_array key chunk [] file False =
      (if length file < chunk then Some (Inl (lacks_array key)) else seek_array key chunk (take chunk file) (drop chunk file) False)"
    by (subst seek_array.simps) (simp add: Let_def)
  then show ?thesis
    using seek_array_hangs [of key "take chunk file" "drop chunk file" chunk] assms by (auto simp: iter_json_array_def)
qed

section \<open>Two records\<close>

definition demo_record :: "int \<Rightarrow> json_object" where
  "demo_record n = [(''t'', JInt n)]"

text \<open>A decoder of the two records.\<close>

definition demo_scan :: "string \<Rightarrow> (json \<times> nat) option" where
  "demo_scan s =
     (if take 7 s = record_text (demo_record 7) then Some (JObj (demo_record 7), 7)
      else if take 7 s = record_text (demo_record 9) then Some (JObj (demo_record 9), 7) else None)"

lemma demo_text:
  "record_text (demo_record 7) = [CHR ''{'', CHR 0x22, CHR ''t'', CHR 0x22, CHR '':'', CHR ''7'', CHR ''}'']"
  "record_text (demo_record 9) = [CHR ''{'', CHR 0x22, CHR ''t'', CHR 0x22, CHR '':'', CHR ''9'', CHR ''}'']"
  by code_simp+

lemma demo_decodes: "decodes demo_scan (record_text (demo_record 7)) (demo_record 7)" "decodes demo_scan (record_text (demo_record 9)) (demo_record 9)"
  by (auto simp: decodes_def demo_scan_def demo_text dest!: arg_cong [where f = length])

theorem downloaded_file_reads_back_witness:
  "iter_json_array demo_scan ''trades'' 4 (content_of ''trades'' [demo_record 7, demo_record 9]) =
     Some ([demo_record 7, demo_record 9], None)"
  using downloaded_file_reads_back [of "''trades''" 4 "[demo_record 7, demo_record 9]" demo_scan id] demo_decodes by simp

text \<open>The second record cut after one character and after four.\<close>

theorem broken_file_outcome_witness:
  "iter_json_array demo_scan ''trades'' 4 (file_header ''trades'' @ records_text [demo_record 7] @ CHR '','' # take 1 (record_text (demo_record 9))) =
     Some ([demo_record 7], Some (malformed_record ''trades'')) \<and>
   iter_json_array demo_scan ''trades'' 4 (file_header ''trades'' @ records_text [demo_record 7] @ CHR '','' # take 4 (record_text (demo_record 9))) =
     None"
proof -
  let ?cut = "\<lambda>n. take n (record_text (demo_record 9))"
  have cut: "dropWhile separator (CHR '','' # ?cut 1) = ?cut 1" "dropWhile separator (CHR '','' # ?cut 4) = ?cut 4" by code_simp+
  have none: "\<forall>k. demo_scan (take k (?cut n)) = None" if "n < 7" for n
    using that by (auto simp: demo_scan_def demo_text dest!: arg_cong [where f = length])
  have whole: "hd (?cut 1) \<noteq> CHR '']''" "hd (?cut 4) \<noteq> CHR '']''" "?cut 1 \<noteq> []" "?cut 4 \<noteq> []" "length (?cut 1) = 1" "length (?cut 4) = 4"
    by code_simp+
  show ?thesis
    using broken_file_outcome [of "''trades''" 4 "[demo_record 7]" demo_scan id "CHR '','' # ?cut 1", unfolded cut]
      broken_file_outcome [of "''trades''" 4 "[demo_record 7]" demo_scan id "CHR '','' # ?cut 4", unfolded cut]
      demo_decodes(1) none [of 1] none [of 4] whole by simp
qed

theorem file_without_array_witness:
  "iter_json_array demo_scan ''trades'' 4 ''{}'' = Some ([], Some (lacks_array ''trades'')) \<and>
   iter_json_array demo_scan ''trades'' 2 ''{}'' = None"
proof -
  have "array_start ''trades'' ''{}'' = None" by code_simp
  from file_without_array [OF this, of demo_scan 4] file_without_array [OF this, of demo_scan 2] show ?thesis by simp
qed

end
