(* ===== verification/Event_Generator.thy ===== *)
theory Event_Generator
  imports Market_Bounds
begin

text \<open>
  \<open>tools/market_data_generator/generate_events.py\<close>: the reproducible stream of market events, a directed
  part with its corner cases and then random traffic. The random generator is the argument \<open>draw\<close>: the
  \<open>k\<close>-th call of \<open>randrange(n)\<close> gives \<open>draw k n\<close>.
\<close>

section \<open>The generator\<close>

definition BASE_PRICES :: "int list" where
  "BASE_PRICES = [450000000, 380000000, 120000000, 160000000]"

record generator =
  gn_events :: "market_event list"
  gn_next_sequence :: "int list"
  gn_timestamp :: int

definition generator_init :: generator where
  "generator_init = \<lparr>gn_events = [], gn_next_sequence = [0, 0, 0, 0], gn_timestamp = 1000000000\<rparr>"

definition append_event :: "int \<Rightarrow> int \<Rightarrow> int \<Rightarrow> int \<Rightarrow> int \<Rightarrow> int \<Rightarrow> generator \<Rightarrow> generator" where
  "append_event message_type symbol_id price quantity side sequence g =
     g\<lparr>gn_events := gn_events g @
         [\<lparr>ev_message_type = message_type, ev_symbol_id = symbol_id, ev_timestamp_ns = gn_timestamp g, ev_price = price,
           ev_quantity = quantity, ev_side = side, ev_sequence = sequence, ev_flags = 0\<rparr>],
       gn_timestamp := gn_timestamp g + 1000\<rparr>"

text \<open>The symbols of the generator are 0 to 3, so the lists are read and written inside their bounds.\<close>

definition sequence_at :: "generator \<Rightarrow> nat \<Rightarrow> int" where
  "sequence_at g symb = gn_next_sequence g ! symb"

definition count_symbol :: "nat \<Rightarrow> generator \<Rightarrow> generator" where
  "count_symbol symb g = g\<lparr>gn_next_sequence := (gn_next_sequence g)[symb := sequence_at g symb + 1]\<rparr>"

definition valid_event :: "int \<Rightarrow> nat \<Rightarrow> int \<Rightarrow> int \<Rightarrow> int \<Rightarrow> generator \<Rightarrow> generator" where
  "valid_event message_type symb price quantity side g =
     (let g = count_symbol symb g in
      append_event message_type (int symb) price quantity side (sequence_at g symb) g)"

text \<open>Both quote sides of each symbol, a trade of quantity zero, a crossed quote and its repair.\<close>

definition quote_both :: "generator \<Rightarrow> nat \<Rightarrow> generator" where
  "quote_both g symb =
     valid_event MSG_MARKET_QUOTE symb (BASE_PRICES ! symb + 1000000) (2000 + int symb) 1
       (valid_event MSG_MARKET_QUOTE symb (BASE_PRICES ! symb - 1000000) (1000 + int symb) 0 g)"

definition opening_events :: "generator \<Rightarrow> generator" where
  "opening_events g =
     valid_event MSG_MARKET_QUOTE 2 (BASE_PRICES ! 2 + 4000000) 888 1
       (valid_event MSG_MARKET_QUOTE 2 (BASE_PRICES ! 2 + 3000000) 777 0
          (valid_event MSG_MARKET_TRADE 0 (BASE_PRICES ! 0) 0 0 (foldl quote_both g [0, 1, 2, 3])))"

text \<open>The trades that fill and wrap the windows, the midpoints, and the largest fields.\<close>

definition window_trade :: "generator \<Rightarrow> int \<Rightarrow> generator" where
  "window_trade g index =
     valid_event MSG_MARKET_TRADE 0 (BASE_PRICES ! 0 + index * 10000) (10 + index) (index AND 1) g"

definition midpoint_quote :: "generator \<Rightarrow> int \<Rightarrow> generator" where
  "midpoint_quote g index =
     valid_event MSG_MARKET_QUOTE 1 (BASE_PRICES ! 1 - 1000000 + index mod 5 * 100000) (3000 + index) 0 g"

definition largest_events :: "generator \<Rightarrow> generator" where
  "largest_events g =
     valid_event MSG_MARKET_TRADE 3 (2 ^ 64 - 1) (2 ^ 32 - 1) 1
       (valid_event MSG_MARKET_QUOTE 3 (2 ^ 64 - 1) (2 ^ 32 - 1) 1
          (valid_event MSG_MARKET_QUOTE 3 (2 ^ 64 - 101) (2 ^ 32 - 1) 0 g))"

text \<open>A bad symbol, a bad side, a duplicate and a stale sequence number.\<close>

definition faulty_events :: "generator \<Rightarrow> generator" where
  "faulty_events g =
     (let spy = BASE_PRICES ! 0; n = sequence_at g 0 in
      append_event MSG_MARKET_QUOTE 0 spy 55 0 (max (n - 1) 0)
        (append_event MSG_MARKET_QUOTE 0 spy 55 0 n
           (append_event MSG_MARKET_QUOTE 0 spy 55 2 (n + 1)
              (append_event MSG_MARKET_QUOTE 0xFFFF 123000000 5 0 1 g))))"

definition directed_events :: "generator \<Rightarrow> generator" where
  "directed_events g =
     faulty_events (largest_events
       (foldl midpoint_quote (foldl window_trade (opening_events g) [0..47]) [0..19]))"

text \<open>One round of random traffic: six draws, from the draw number \<open>k\<close> on.\<close>

definition random_event :: "(nat \<Rightarrow> int \<Rightarrow> int) \<Rightarrow> nat \<Rightarrow> generator \<Rightarrow> generator" where
  "random_event draw k g =
     (let symb = nat (draw k 4);
          message_type = (if draw (k + 1) 4 \<noteq> 0 then MSG_MARKET_TRADE else MSG_MARKET_QUOTE);
          side = draw (k + 2) 2;
          quantity = draw (k + 3) 100000;
          price = max 1 (BASE_PRICES ! symb + (draw (k + 4) 6000001 - 3000000));
          selector = draw (k + 5) 32;
          n = sequence_at g symb in
      if selector = 0 then append_event message_type (int symb) price quantity 2 (n + 1) g
      else if selector = 1 \<and> 0 < n then append_event message_type (int symb) price quantity side n g
      else if selector = 2 \<and> 1 < n then append_event message_type (int symb) price quantity side (n - 1) g
      else append_event message_type (int symb) price quantity side (n + 1) (count_symbol symb g))"

text \<open>Every round appends one event, so \<open>while len(events) < count\<close> runs as often as events are missing.\<close>

primrec random_events :: "(nat \<Rightarrow> int \<Rightarrow> int) \<Rightarrow> nat \<Rightarrow> nat \<Rightarrow> generator \<Rightarrow> generator" where
  "random_events draw k 0 g = g"
| "random_events draw k (Suc n) g = random_events draw (k + 6) n (random_event draw k g)"

definition generate_events :: "(nat \<Rightarrow> int \<Rightarrow> int) \<Rightarrow> int \<Rightarrow> market_event list result" where
  "generate_events draw count =
     (if count < 1 then Inl (ValueError ''count must be positive'')
      else
        let g = directed_events generator_init in
        Inr (take (nat count) (gn_events (random_events draw 0 (nat count - length (gn_events g)) g))))"

text \<open>The output of the command: one packet per line in hexadecimal.\<close>

definition hex_line :: "byte list \<Rightarrow> string" where
  "hex_line packet = concat (map (\<lambda>b. map (\<lambda>d. char_of (if d < 10 then 48 + d else 87 + d)) [unat b div 16, unat b mod 16]) packet)"

definition generator_lines :: "market_event list \<Rightarrow> string list result" where
  "generator_lines events =
     map_result (\<lambda>e. rbind (event_packet SYNC_VERSION e) (\<lambda>p. Inr (hex_line p))) events"

section \<open>What the stream holds\<close>

text \<open>The event at position \<open>i\<close>: its time, and fields that fit the packet.\<close>

definition sane_event :: "nat \<Rightarrow> market_event \<Rightarrow> bool" where
  "sane_event i e \<longleftrightarrow>
     ev_timestamp_ns e = 1000000000 + 1000 * int i \<and> ev_message_type e \<in> {1, 2} \<and>
     0 \<le> ev_symbol_id e \<and> ev_symbol_id e < 2 ^ 16 \<and> 0 \<le> ev_price e \<and> ev_price e < 2 ^ 64 \<and>
     0 \<le> ev_quantity e \<and> ev_quantity e < 2 ^ 32 \<and> ev_side e \<in> {0, 1, 2} \<and>
     0 \<le> ev_sequence e \<and> ev_sequence e \<le> int i + 1 \<and> ev_flags e = 0"

lemma sane_wire:
  assumes "sane_event i e" "int i < 2 ^ 31"
  shows "wire_event e"
proof -
  have "0 \<le> ev_message_type e \<and> ev_message_type e < 2 ^ 8" "0 \<le> ev_side e \<and> ev_side e < 2 ^ 8"
    using assms(1) unfolding sane_event_def by fastforce+
  moreover have "0 \<le> ev_timestamp_ns e \<and> ev_timestamp_ns e < 2 ^ 64" "ev_sequence e < 2 ^ 32"
    using assms unfolding sane_event_def by simp_all
  ultimately show ?thesis using assms(1) by (simp add: sane_event_def wire_event_def)
qed

definition counters_ok :: "int \<Rightarrow> generator \<Rightarrow> bool" where
  "counters_ok n g \<longleftrightarrow>
     length (gn_next_sequence g) = 4 \<and> (\<forall>s<4. 0 \<le> sequence_at g s \<and> sequence_at g s \<le> n)"

definition generator_inv :: "generator \<Rightarrow> bool" where
  "generator_inv g \<longleftrightarrow>
     (\<forall>i<length (gn_events g). sane_event i (gn_events g ! i)) \<and>
     gn_timestamp g = 1000000000 + 1000 * int (length (gn_events g)) \<and> counters_ok (int (length (gn_events g))) g"

lemma append_inv:
  assumes "\<forall>i<length (gn_events g). sane_event i (gn_events g ! i)"
    and "gn_timestamp g = 1000000000 + 1000 * int (length (gn_events g))" "counters_ok (int (length (gn_events g)) + 1) g"
    and "kind \<in> {1, 2}" "0 \<le> symb" "symb < 2 ^ 16" "0 \<le> price" "price < 2 ^ 64" "0 \<le> quantity" "quantity < 2 ^ 32"
      "side \<in> {0, 1, 2}" "0 \<le> sequence" "sequence \<le> int (length (gn_events g)) + 1"
  shows "generator_inv (append_event kind symb price quantity side sequence g)"
  using assms by (auto simp: generator_inv_def append_event_def nth_append less_Suc_eq sane_event_def counters_ok_def sequence_at_def)

lemma inv_parts:
  assumes "generator_inv g"
  shows "\<forall>i<length (gn_events g). sane_event i (gn_events g ! i)"
    "gn_timestamp g = 1000000000 + 1000 * int (length (gn_events g))" "counters_ok (int (length (gn_events g)) + 1) g"
    "s < 4 \<Longrightarrow> 0 \<le> sequence_at g s" "s < 4 \<Longrightarrow> sequence_at g s \<le> int (length (gn_events g))"
  using assms by (auto simp: generator_inv_def counters_ok_def intro: order_trans)

lemma counted_inv:
  assumes "generator_inv g" "s < 4"
  shows "\<forall>i<length (gn_events (count_symbol s g)). sane_event i (gn_events (count_symbol s g) ! i)"
    "gn_timestamp (count_symbol s g) = 1000000000 + 1000 * int (length (gn_events (count_symbol s g)))"
    "counters_ok (int (length (gn_events (count_symbol s g))) + 1) (count_symbol s g)"
    "sequence_at (count_symbol s g) s = sequence_at g s + 1" "gn_events (count_symbol s g) = gn_events g"
  using assms by (auto simp: generator_inv_def counters_ok_def count_symbol_def sequence_at_def nth_list_update intro: order_trans)

lemma valid_inv:
  assumes "generator_inv g" "symb < 4" "kind \<in> {1, 2}" "0 \<le> price" "price < 2 ^ 64" "0 \<le> quantity" "quantity < 2 ^ 32"
    "side \<in> {0, 1}"
  shows "generator_inv (valid_event kind symb price quantity side g)"
  unfolding valid_event_def Let_def counted_inv(4) [OF assms(1,2)]
  by (rule append_inv) (use assms counted_inv [OF assms(1,2)] inv_parts [OF assms(1)] in auto)

lemma foldl_inv:
  "generator_inv g \<Longrightarrow> (\<And>g x. x \<in> set xs \<Longrightarrow> generator_inv g \<Longrightarrow> generator_inv (f g x)) \<Longrightarrow> generator_inv (foldl f g xs)"
  by (induction xs arbitrary: g) auto

lemma base_prices: "BASE_PRICES ! 0 = 450000000" "BASE_PRICES ! 1 = 380000000" "BASE_PRICES ! 2 = 120000000" "BASE_PRICES ! 3 = 160000000"
  "BASE_PRICES ! Suc 0 = 380000000" by (simp_all add: BASE_PRICES_def)

lemma base_price_range: "s < 4 \<Longrightarrow> 120000000 \<le> BASE_PRICES ! s \<and> BASE_PRICES ! s \<le> 450000000"
  by (auto simp: BASE_PRICES_def less_Suc_eq numeral_eq_Suc)

lemma quote_both_inv: "generator_inv g \<Longrightarrow> s < 4 \<Longrightarrow> generator_inv (quote_both g s)"
  unfolding quote_both_def using base_price_range [of s] by (intro valid_inv) auto

lemma opening_inv: "generator_inv g \<Longrightarrow> generator_inv (opening_events g)"
  unfolding opening_events_def by (intro valid_inv foldl_inv quote_both_inv) (auto simp: base_prices)

lemma window_inv: "generator_inv g \<Longrightarrow> i \<in> set [0..47] \<Longrightarrow> generator_inv (window_trade g i)"
  unfolding window_trade_def by (intro valid_inv) (auto simp: base_prices and_one_eq)

lemma midpoint_inv:
  assumes "generator_inv g" "i \<in> set [0..19]"
  shows "generator_inv (midpoint_quote g i)"
proof -
  have "0 \<le> i mod 5" "i mod 5 < 5" by simp_all
  with assms show ?thesis unfolding midpoint_quote_def by (intro valid_inv) (auto simp: base_prices)
qed

lemma largest_inv: "generator_inv g \<Longrightarrow> generator_inv (largest_events g)"
  unfolding largest_events_def by (intro valid_inv) auto

lemma length_append [simp]: "length (gn_events (append_event k s p q d n g)) = Suc (length (gn_events g))"
  by (simp add: append_event_def)

lemma faulty_append:
  assumes "generator_inv g" "symb \<in> {0, 0xFFFF}" "side \<in> {0, 2}" "price \<in> {BASE_PRICES ! 0, 123000000}" "quantity \<in> {5, 55}"
    "0 \<le> sequence" "sequence \<le> int (length (gn_events g)) + 1"
  shows "generator_inv (append_event 1 symb price quantity side sequence g)"
  by (rule append_inv) (use assms inv_parts [OF assms(1)] in \<open>auto simp: base_prices\<close>)

lemma faulty_inv: "generator_inv g \<Longrightarrow> generator_inv (faulty_events g)"
  unfolding faulty_events_def Let_def using inv_parts(4,5) [of g 0] by (intro faulty_append) auto

lemma directed_inv: "generator_inv (directed_events generator_init)"
proof -
  have "generator_inv generator_init"
    by (auto simp: generator_inv_def generator_init_def counters_ok_def sequence_at_def less_Suc_eq numeral_eq_Suc)
  then show ?thesis
    unfolding directed_events_def by (intro faulty_inv largest_inv foldl_inv midpoint_inv window_inv opening_inv)
qed

lemma random_inv:
  assumes draws: "\<And>k n. 0 < n \<Longrightarrow> 0 \<le> draw k n \<and> draw k n < n" and inv: "generator_inv g"
  shows "generator_inv (random_event draw k g) \<and> length (gn_events (random_event draw k g)) = Suc (length (gn_events g))"
proof -
  let ?s = "nat (draw k 4)"
  let ?price = "max 1 (BASE_PRICES ! ?s + (draw (k + 4) 6000001 - 3000000))"
  have s: "?s < 4" using draws [of 4 k] by linarith
  have price: "0 \<le> ?price" "?price < 2 ^ 64" using base_price_range [OF s] draws [of 6000001 "k + 4"] by auto
  have rest: "0 \<le> draw (k + 3) 100000" "draw (k + 3) 100000 < 2 ^ 32" "draw (k + 2) 2 \<in> {0, 1, 2}"
    using draws [of 100000 "k + 3"] draws [of 2 "k + 2"] by auto
  let ?kind = "if draw (k + 1) 4 \<noteq> 0 then 2 else 1 :: int"
  have "generator_inv (append_event ?kind (int ?s) ?price (draw (k + 3) 100000) side n g)"
    if "side \<in> {0, 1, 2}" "0 \<le> n" "n \<le> sequence_at g ?s + 1" for side n
    by (rule append_inv) (use that s price rest inv_parts [OF inv] in \<open>auto intro: order_trans\<close>)
  moreover have "generator_inv (append_event ?kind (int ?s) ?price (draw (k + 3) 100000) (draw (k + 2) 2)
      (sequence_at g ?s + 1) (count_symbol ?s g))"
    by (rule append_inv) (use s price rest inv_parts [OF inv] counted_inv [OF inv s] in auto)
  moreover have "0 \<le> sequence_at g ?s" by (rule inv_parts(4) [OF inv s])
  ultimately show ?thesis
    using rest(3) counted_inv(5) [OF inv s] by (simp add: random_event_def Let_def)
qed

lemma random_events_inv:
  assumes draws: "\<And>k n. 0 < n \<Longrightarrow> 0 \<le> draw k n \<and> draw k n < n"
  shows "generator_inv g \<Longrightarrow> generator_inv (random_events draw k n g) \<and>
    length (gn_events (random_events draw k n g)) = length (gn_events g) + n"
proof (induction n arbitrary: k g)
  case (Suc n)
  with random_inv [OF draws Suc.prems, where k = k] show ?case by simp
qed simp

lemma generator_lines_ok: "list_all wire_event es \<Longrightarrow> \<exists>ls. generator_lines es = Inr ls \<and> length ls = length es"
proof (induction es)
  case (Cons e es)
  then have "is_ok (event_packet SYNC_VERSION e)" by (simp add: event_packet_cases Let_def)
  with Cons show ?case by (auto simp: generator_lines_def is_ok_iff)
qed (simp add: generator_lines_def)

text \<open>
  C32: The generated stream: for any random draws in range and any positive count up to 2^31, the
  generator returns exactly that many events, one microsecond apart from second one on, and every one of
  them, the corner cases included, fits the wire format, so the file of packets is written without an
  exception, one line per event.
\<close>

theorem generated_stream_fits:
  assumes draws: "\<forall>k n. 0 < n \<longrightarrow> 0 \<le> draw k n \<and> draw k n < n" and "1 \<le> count" "count \<le> 2 ^ 31"
  shows "\<exists>events. generate_events draw count = Inr events \<and> length events = nat count \<and>
    map ev_timestamp_ns events = map (\<lambda>i. 1000000000 + 1000 * int i) [0..<nat count] \<and> list_all wire_event events \<and>
    (\<exists>ls. generator_lines events = Inr ls \<and> length ls = nat count)"
proof -
  let ?g = "directed_events generator_init"
  let ?h = "random_events draw 0 (nat count - length (gn_events ?g)) ?g"
  have inv: "generator_inv ?h" "nat count \<le> length (gn_events ?h)"
    using random_events_inv [OF _ directed_inv, of draw 0] draws by auto
  let ?es = "take (nat count) (gn_events ?h)"
  have len: "length ?es = nat count" using inv(2) by simp
  have sane: "sane_event i (?es ! i)" if "i < nat count" for i
    using inv that by (auto simp: generator_inv_def)
  have "wire_event (?es ! i)" if "i < nat count" for i
    by (rule sane_wire [OF sane [OF that]]) (use that assms(3) in linarith)
  then have wire: "list_all wire_event ?es" using len by (auto simp: list_all_iff in_set_conv_nth)
  have times: "map ev_timestamp_ns ?es = map (\<lambda>i. 1000000000 + 1000 * int i) [0..<nat count]"
    using sane len by (auto intro!: nth_equalityI simp: sane_event_def)
  obtain ls where "generator_lines ?es = Inr ls" "length ls = nat count"
    using generator_lines_ok [OF wire] len by metis
  moreover have "generate_events draw count = Inr ?es" using assms(2) by (simp add: generate_events_def Let_def)
  ultimately show ?thesis using wire times len by blast
qed

theorem generated_stream_fits_witness:
  "\<exists>events. generate_events (\<lambda>k n. int k mod n) 1000 = Inr events \<and> length events = 1000 \<and> list_all wire_event events"
proof -
  have "\<forall>k n. 0 < n \<longrightarrow> 0 \<le> int k mod n \<and> int k mod n < n" by simp
  from generated_stream_fits [OF this, of 1000] show ?thesis by (simp del: upt_conv_Cons) blast
qed

end
