(* ===== verification/Replay_Tool.thy ===== *)
theory Replay_Tool
  imports Research_Policy Canonical_Events
begin

text \<open>
  \<open>tools/replay/replay_strategy.py\<close>: the offline replay of a CSV file of events through the market model
  and the strategy model. Files are the lists of their lines, as in \<open>Canonical_Events\<close>.
\<close>

section \<open>Rows\<close>

text \<open>\<open>_integer\<close> and \<open>_event_type\<close>; a cell that a short row lacks is \<open>None\<close>, which has no \<open>strip\<close>.\<close>

definition tool_integer :: "string option \<Rightarrow> int result" where
  "tool_integer value =
     (case value of
        None \<Rightarrow> Inl (AttributeError ''strip'')
      | Some s \<Rightarrow> (case py_int_text s of None \<Rightarrow> Inl (ValueError ''invalid literal for int()'') | Some n \<Rightarrow> Inr n))"

definition tool_event_type :: "string option \<Rightarrow> int result" where
  "tool_event_type value =
     (case value of
        None \<Rightarrow> Inl (AttributeError ''strip'')
      | Some s \<Rightarrow>
          (case map_of EVENT_TYPES (py_lower (py_strip s)) of Some t \<Rightarrow> Inr t | None \<Rightarrow> tool_integer value))"

definition tool_required :: "string list" where
  "tool_required = [''event_type'', ''price'', ''quantity'', ''sequence'', ''side'', ''symbol_id'', ''timestamp'']"

definition row_cell :: "csv_row \<Rightarrow> string \<Rightarrow> string option" where
  "row_cell row field = (case map_of row field of None \<Rightarrow> None | Some v \<Rightarrow> v)"

definition tool_row_event :: "csv_row \<Rightarrow> market_event result" where
  "tool_row_event row =
     rbind (tool_event_type (row_cell row ''event_type'')) (\<lambda>message_type.
     rbind (tool_integer (row_cell row ''symbol_id'')) (\<lambda>symbol_id.
     rbind (tool_integer (row_cell row ''timestamp'')) (\<lambda>timestamp_ns.
     rbind (tool_integer (row_cell row ''price'')) (\<lambda>price.
     rbind (tool_integer (row_cell row ''quantity'')) (\<lambda>quantity.
     rbind (tool_integer (row_cell row ''side'')) (\<lambda>side.
     rbind (tool_integer (row_cell row ''sequence'')) (\<lambda>sequence.
     rbind (tool_integer (case map_of row ''flags'' of None \<Rightarrow> Some ''0'' | Some v \<Rightarrow> v)) (\<lambda>flags.
     Inr \<lparr>ev_message_type = message_type, ev_symbol_id = symbol_id, ev_timestamp_ns = timestamp_ns, ev_price = price,
          ev_quantity = quantity, ev_side = side, ev_sequence = sequence, ev_flags = flags\<rparr>))))))))"

text \<open>\<open>except (TypeError, ValueError)\<close>: the error of a row names the row, without its text.\<close>

definition invalid_row :: "int \<Rightarrow> py_error \<Rightarrow> py_error" where
  "invalid_row n e =
     (case e of
        ValueError _ \<Rightarrow> ValueError (''invalid row '' @ py_str_int n)
      | TypeError _ \<Rightarrow> ValueError (''invalid row '' @ py_str_int n)
      | _ \<Rightarrow> e)"

section \<open>The replay\<close>

record tool_state =
  tl_market :: market_model
  tl_strategy :: strategy_model
  tl_outputs :: "signal_snapshot list"
  tl_packets :: "byte list list"
  tl_accepted :: int
  tl_rejected :: int

definition tool_event :: "bool \<Rightarrow> tool_state \<Rightarrow> market_event \<Rightarrow> tool_state result" where
  "tool_event want_packets s event =
     rbind (if want_packets then rbind (event_packet SYNC_VERSION event) (\<lambda>p. Inr [p]) else Inr []) (\<lambda>packet.
     rbind (process_event (tl_market s) event) (\<lambda>(outcome, market).
     let s = s\<lparr>tl_packets := tl_packets s @ packet, tl_market := market\<rparr> in
     case oc_feature outcome of
       None \<Rightarrow> Inr (s\<lparr>tl_rejected := tl_rejected s + 1\<rparr>)
     | Some feature \<Rightarrow>
         if oc_kind outcome \<noteq> ''feature'' then Inr (s\<lparr>tl_rejected := tl_rejected s + 1\<rparr>)
         else rbind (evaluate (tl_strategy s) feature) (\<lambda>(signal, strategy).
           Inr (s\<lparr>tl_accepted := tl_accepted s + 1, tl_strategy := strategy, tl_outputs := tl_outputs s @ [signal]\<rparr>))))"

definition tool_line :: "string list \<Rightarrow> bool \<Rightarrow> tool_state \<Rightarrow> int \<times> string \<Rightarrow> tool_state result" where
  "tool_line header want_packets s p =
     (case tool_row_event (row_of header (split_on (CHR '','') (snd p))) of
        Inl e \<Rightarrow> Inl (invalid_row (fst p) e)
      | Inr event \<Rightarrow> tool_event want_packets s event)"

record tool_summary =
  ts_input_events :: int
  ts_accepted_features :: int
  ts_rejected_events :: int
  ts_signals :: int
  ts_long_candidates :: int
  ts_short_candidates :: int
  ts_no_action :: int
  ts_invalid_features :: int
  ts_suppressed :: int

definition tool_summary_of :: "tool_state \<Rightarrow> tool_summary" where
  "tool_summary_of s =
     (let mt = sm_metrics (tl_strategy s) in
      \<lparr>ts_input_events = tl_accepted s + tl_rejected s, ts_accepted_features = tl_accepted s,
       ts_rejected_events = tl_rejected s, ts_signals = mt_evaluated mt, ts_long_candidates = mt_long_candidates mt,
       ts_short_candidates = mt_short_candidates mt, ts_no_action = mt_no_action mt,
       ts_invalid_features = mt_invalid mt, ts_suppressed = mt_suppressed mt\<rparr>)"

text \<open>The lines of the two output files.\<close>

definition signal_cells :: "signal_snapshot \<Rightarrow> string list" where
  "signal_cells sg =
     map py_str_int [sg_symbol_id sg, sg_sequence sg, sg_action sg, sg_score sg, sg_reason_bits sg]"

definition signal_lines :: "signal_snapshot list \<Rightarrow> string list" where
  "signal_lines outputs =
     map (join_with '','') ([''symbol_id'', ''sequence'', ''action'', ''score'', ''reason_bits''] # map signal_cells outputs)"

definition packet_line :: "byte list \<Rightarrow> string" where
  "packet_line packet = concat (map (\<lambda>b. pad_2 (print_digits 16 (unat b))) packet)"

definition tool_replay :: "string list \<Rightarrow> bool \<Rightarrow> int \<Rightarrow> (tool_summary \<times> tool_state) result" where
  "tool_replay file want_packets num_symbols =
     rbind (market_default num_symbols 32 16 32) (\<lambda>market.
     rbind (strategy_init num_symbols (Some (default_strategy_config\<lparr>sc_symbol_enable := replicate (nat num_symbols) True\<rparr>)))
       (\<lambda>strategy.
     let ls = filter data_line file;
         header = (case ls of [] \<Rightarrow> [] | first # _ \<Rightarrow> split_on (CHR '','') first);
         missing = filter (\<lambda>f. f \<notin> set header) tool_required in
     if missing \<noteq> [] then Inl (ValueError (''CSV is missing required columns: '' @ join_with '', '' missing))
     else
       rbind (fold_result (tool_line header want_packets)
           \<lparr>tl_market = market, tl_strategy = strategy, tl_outputs = [], tl_packets = [], tl_accepted = 0, tl_rejected = 0\<rparr>
           (zip [2..int (length ls)] (tl ls))) (\<lambda>s.
       Inr (tool_summary_of s, s))))"

text \<open>The contents of the files \<open>output_path\<close> and \<open>packet_path\<close>.\<close>

definition tool_files :: "string list \<Rightarrow> bool \<Rightarrow> int \<Rightarrow> (string list \<times> string list) result" where
  "tool_files file want_packets num_symbols =
     rbind (tool_replay file want_packets num_symbols) (\<lambda>(_, s).
     Inr (signal_lines (tl_outputs s), map packet_line (tl_packets s)))"

section \<open>What the tool reports\<close>

text \<open>The counters of an engine that is switched off, after \<open>n\<close> evaluations.\<close>

definition idle_after :: "int \<Rightarrow> strategy_model \<Rightarrow> bool" where
  "idle_after n m \<longleftrightarrow>
     disabled m \<and> mt_evaluated (sm_metrics m) = n \<and> mt_no_action (sm_metrics m) = n \<and>
     mt_long_candidates (sm_metrics m) = 0 \<and> mt_short_candidates (sm_metrics m) = 0"

lemma count_idle:
  "mt_evaluated (count_metrics 0 v b mt) = mt_evaluated mt + 1 \<and> mt_no_action (count_metrics 0 v b mt) = mt_no_action mt + 1 \<and>
   mt_long_candidates (count_metrics 0 v b mt) = mt_long_candidates mt \<and>
   mt_short_candidates (count_metrics 0 v b mt) = mt_short_candidates mt"
  by (simp add: count_metrics_def Let_def)

lemma idle_evaluate:
  assumes "idle_after n m" "evaluate m f = Inr (sig, m')"
  shows "idle_after (n + 1) m' \<and> sg_action sig = 0"
proof -
  have off: "disabled m" using assms(1) by (simp add: idle_after_def)
  have dir: "eligible_direction (sm_config m) b f = 0" for b
    using off by (simp add: eligible_direction_def disabled_def)
  obtain v b where "sm_metrics m' = count_metrics 0 v b (sm_metrics m)"
    using assms(2) by (auto simp: evaluate_def Let_def rbind_eq_Inr dir split: if_splits)
  with disabled_evaluate [OF off assms(2)] assms(1) count_idle [of v b "sm_metrics m"]
  show ?thesis by (simp add: idle_after_def)
qed

definition tool_inv :: "tool_state \<Rightarrow> bool" where
  "tool_inv s \<longleftrightarrow>
     idle_after (tl_accepted s) (tl_strategy s) \<and> int (length (tl_outputs s)) = tl_accepted s \<and>
     (\<forall>sig\<in>set (tl_outputs s). sg_action sig = 0)"

lemma tool_event_step:
  assumes "tool_inv s" "tool_event want s event = Inr s'"
  shows "tool_inv s' \<and> tl_accepted s' + tl_rejected s' = tl_accepted s + tl_rejected s + 1"
proof -
  obtain packet outcome market where run: "process_event (tl_market s) event = Inr (outcome, market)"
    "(let s = s\<lparr>tl_packets := tl_packets s @ packet, tl_market := market\<rparr> in
     case oc_feature outcome of
       None \<Rightarrow> Inr (s\<lparr>tl_rejected := tl_rejected s + 1\<rparr>)
     | Some feature \<Rightarrow>
         if oc_kind outcome \<noteq> ''feature'' then Inr (s\<lparr>tl_rejected := tl_rejected s + 1\<rparr>)
         else rbind (evaluate (tl_strategy s) feature) (\<lambda>(signal, strategy).
           Inr (s\<lparr>tl_accepted := tl_accepted s + 1, tl_strategy := strategy, tl_outputs := tl_outputs s @ [signal]\<rparr>))) = Inr s'"
    using assms(2) unfolding tool_event_def by (elim rbind_InrE) (simp only: split_paired_all case_prod_conv)
  show ?thesis
  proof (cases "oc_feature outcome")
    case None
    with run(2) assms(1) show ?thesis by (auto simp: Let_def tool_inv_def)
  next
    case (Some feature)
    show ?thesis
    proof (cases "oc_kind outcome = ''feature''")
      case False
      with run(2) Some assms(1) show ?thesis by (auto simp: Let_def tool_inv_def)
    next
      case True
      with run(2) Some obtain sig strategy where
        "evaluate (tl_strategy s) feature = Inr (sig, strategy)"
        "s' = s\<lparr>tl_packets := tl_packets s @ packet, tl_market := market, tl_accepted := tl_accepted s + 1,
           tl_strategy := strategy, tl_outputs := tl_outputs s @ [sig]\<rparr>"
        by (auto simp: Let_def rbind_eq_Inr)
      with idle_evaluate [of "tl_accepted s" "tl_strategy s" feature sig strategy] assms(1) show ?thesis
        by (simp add: tool_inv_def)
    qed
  qed
qed

lemma tool_loop_inv:
  assumes "tool_inv s" "fold_result (tool_line header want) s ls = Inr s'"
  shows "tool_inv s' \<and> tl_accepted s' + tl_rejected s' = tl_accepted s + tl_rejected s + int (length ls)"
  using assms
proof (induction ls arbitrary: s)
  case (Cons p ls)
  then obtain s1 where s1: "tool_line header want s p = Inr s1" "fold_result (tool_line header want) s1 ls = Inr s'"
    by (auto simp: rbind_eq_Inr)
  then obtain event where "tool_event want s event = Inr s1"
    by (auto simp: tool_line_def split: sum.splits)
  with tool_event_step [OF Cons.prems(1)] Cons.IH [OF _ s1(2)] show ?case by fastforce
qed simp

text \<open>
  C33: The offline replay never signals: it builds its engine from the default configuration, which is
  switched off, so whatever the file, a replay that returns has counted every data row as accepted or
  rejected and evaluated every accepted feature, but has no long and no short candidate, and every row
  it writes has action 0.
\<close>

theorem offline_replay_never_signals:
  "case tool_replay file want_packets num_symbols of
     Inl e \<Rightarrow> True
   | Inr (sm, s) \<Rightarrow>
       ts_input_events sm = int (length (tl (filter data_line file))) \<and>
       ts_signals sm = ts_accepted_features sm \<and> int (length (tl_outputs s)) = ts_accepted_features sm \<and>
       ts_no_action sm = ts_signals sm \<and> ts_long_candidates sm = 0 \<and> ts_short_candidates sm = 0 \<and>
       list_all (\<lambda>sig. sg_action sig = 0) (tl_outputs s)"
proof (cases "tool_replay file want_packets num_symbols")
  case (Inr r)
  let ?ls = "filter data_line file"
  let ?config = "default_strategy_config\<lparr>sc_symbol_enable := replicate (nat num_symbols) True\<rparr>"
  obtain market strategy s header where run: "strategy_init num_symbols (Some ?config) = Inr strategy"
    "fold_result (tool_line header want_packets)
        \<lparr>tl_market = market, tl_strategy = strategy, tl_outputs = [], tl_packets = [], tl_accepted = 0, tl_rejected = 0\<rparr>
        (zip [2..int (length ?ls)] (tl ?ls)) = Inr s" "r = (tool_summary_of s, s)"
    using Inr by (auto simp: tool_replay_def Let_def rbind_eq_Inr split: if_splits)
  have "idle_after 0 strategy"
    using run(1) by (auto simp: strategy_init_def Let_def idle_after_def disabled_def default_strategy_config_def zero_metrics_def
        split: if_splits)
  then have "tool_inv \<lparr>tl_market = market, tl_strategy = strategy, tl_outputs = [], tl_packets = [], tl_accepted = 0, tl_rejected = 0\<rparr>"
    by (simp add: tool_inv_def)
  moreover have "int (length (zip [2..int (length ?ls)] (tl ?ls))) = int (length (tl ?ls))"
    by (cases ?ls) simp_all
  ultimately show ?thesis using tool_loop_inv [OF _ run(2)]
    by (auto simp: Inr run(3) tool_inv_def idle_after_def tool_summary_of_def Let_def list_all_iff)
qed simp

text \<open>A trade, then the same trade again: a feature, and a row that the sequence check refuses.\<close>

definition demo_lines :: "string list" where
  "demo_lines =
     [''timestamp,event_type,symbol_id,price,quantity,side,sequence'', ''5,trade,0,101,7,1,1'', ''6,trade,0,101,7,1,1'']"

lemma demo_replay:
  "case tool_replay demo_lines False 1 of Inl e \<Rightarrow> False
   | Inr (sm, s) \<Rightarrow> ts_accepted_features sm = 1 \<and> ts_rejected_events sm = 1"
  by code_simp

theorem offline_replay_never_signals_witness:
  "case tool_replay demo_lines False 1 of Inl e \<Rightarrow> False
   | Inr (sm, s) \<Rightarrow> ts_input_events sm = 2 \<and> ts_signals sm = 1 \<and> ts_no_action sm = 1 \<and> length (tl_outputs s) = 1 \<and>
       ts_long_candidates sm = 0 \<and> ts_short_candidates sm = 0"
proof -
  have "int (length (tl (filter data_line demo_lines))) = 2" by code_simp
  then show ?thesis using offline_replay_never_signals [of demo_lines False 1] demo_replay
    by (auto split: sum.splits)
qed

end
