(* ===== verification/Spec2Isabelle.thy ===== *)
theory Spec2Isabelle
  imports Market_Bounds Strategy_Timing Canonical_Streams Research_Correct Arrival_Resume Arrival_Windows Feature_Agreement
    Streaming_Sessions Streaming_Forward Streaming_Partitions Download_Correct Json_Array
    Event_Generator Replay_Tool
begin

text \<open>
  A verification library for the Python side of an FPGA trading system: the reference models the
  hardware is compared with, and the backtester that replays market data through them.

  \<^bold>\<open>The program.\<close> A 32-byte packet (\<open>tools/reference_model/protocol_reference.py\<close>) carries a quote or a
  trade. \<open>MarketModel\<close> (\<open>market_model.py\<close>) turns each accepted event into a \<open>FeatureSnapshot\<close>;
  \<open>StrategyModel\<close> (\<open>strategy_model.py\<close>) turns features into candidate signals. The backtester
  (\<open>tools/backtest\<close>) reads events (\<open>canonical.py\<close>), reports on their quality (\<open>data_quality.py\<close>), keeps
  those of trading sessions (\<open>session.py\<close>), and \<open>pipeline.py\<close> drives the two models and a paper desk
  (\<open>execution_simulator.py\<close>, \<open>portfolio_simulator.py\<close>) with them in one loop, whose
  record \<open>metrics.py\<close> summarises and \<open>forward_returns.py\<close> evaluates. \<open>splits.py\<close> cuts a dataset into
  training, validation and test parts by date, \<open>experiments.py\<close> runs studies of many replays, and
  \<open>arrival.py\<close> and \<open>feature_analysis.py\<close> analyse the rate of a dataset's events, the queue they need
  in front of the hardware, and the distribution of the features. \<open>providers.py\<close> turns documents of a
  data provider into events, and \<open>streaming.py\<close> replays large datasets in one pass, without keeping
  their history. \<open>generate_events.py\<close> makes test events, \<open>replay_strategy.py\<close> replays a CSV file.

  \<^bold>\<open>Theories.\<close>
  \<^item> \<open>Trading_Prelude\<close>: exceptions as values (\<open>result\<close>, \<open>rbind\<close>, \<open>fold_result\<close>), checked list access,
    suffix windows. \<open>Python_Text\<close>: \<open>strip\<close>, \<open>int(text)\<close>, \<open>str(int)\<close>. \<open>Float64\<close>: binary64 rounding
    \<open>fl64\<close> and the locale \<open>float_rounding\<close> of the laws the money proofs need, interpreted by \<open>fl64\<close>
    and by exact arithmetic.
  \<^item> \<open>Packet_Codec\<close>, \<open>Packet_Integrity\<close>: \<open>struct\<close> packing, \<open>crc8\<close>, \<open>pack\<close>, \<open>status_for\<close>,
    \<open>MarketEvent.packet\<close>, \<open>decode_event\<close>; round trips and the bit errors the checksum always sees.
  \<^item> \<open>Sliding_Window\<close> (locale of a bounded window and its circular buffer), \<open>Symbol_Indexed\<close> (locale
    of a state with one cell per symbol, with its isolation and invariant lemmas).
  \<^item> \<open>Market_State\<close>: all of \<open>MarketModel\<close>. \<open>Market_Windows\<close>, \<open>Market_Correct\<close>, \<open>Market_History\<close>,
    \<open>Market_Properties\<close>, \<open>Market_Bounds\<close>: the circular histories against the recomputed windows of a
    specification that keeps the whole history, the decision table, widths, packet streams.
  \<^item> \<open>Strategy_Model\<close>, \<open>Strategy_Correct\<close>, \<open>Strategy_Timing\<close>: all of \<open>StrategyModel\<close>; when it fires,
    its reason word, reachable states, and the timing of candidates.
  \<^item> \<open>Paper_Execution\<close>, \<open>Paper_Portfolio\<close>, \<open>Paper_Desk\<close>: orders, fills, positions, cash and the
    operations of the two simulators (the desk is the pair of their states). \<open>Paper_Fills\<close>: fills.
    \<open>Paper_Book\<close>, \<open>Paper_Run\<close>, \<open>Paper_Safety\<close>, \<open>Paper_Reach\<close>: the locale \<open>account_law\<close> of a law every
    fill and mark keeps, the book invariant and reachable desks. \<open>Paper_Accounts\<close>: its
    interpretations (books, realised result, cash ledger, drawdown) and the properties.
    \<open>Paper_Symbols\<close>: which symbols a desk can hold.
  \<^item> \<open>Canonical_Events\<close>, \<open>Canonical_Correct\<close>, \<open>Canonical_Streams\<close>: event records, CSV and binary files,
    sorting, replay sequence numbers, the two binary readers.
  \<^item> \<open>Data_Quality\<close>, \<open>Session_Calendar\<close>: the validator; session windows, holidays, Easter, the filter, on a
    total clock and on a time zone whose conversion may fail (\<open>filter_events_at\<close>).
  \<^item> \<open>Signal_Policy\<close>: what the engine needs of a strategy, as the locale \<open>signal_policy\<close>, and
    \<open>StrategyModel\<close> as its default instance.
  \<^item> \<open>Replay_Pipeline\<close>, \<open>Replay_Correct\<close>: \<open>BacktestEngine.run\<close> as a fold of \<open>replay_event\<close>, and what the
    components prove of it together; \<open>run_backtest_at\<close> is the run whose timestamps may fail to convert.
    \<open>Performance_Metrics\<close>: the summary of a run against the account. \<open>Forward_Returns\<close>: the return of
    each candidate, without look-ahead. \<open>Replay_Report\<close>: the result of \<open>run\<close>, with the summary, the
    counts and the forward returns; its locale \<open>mark_law\<close> of what every recorded mark keeps gives the
    drawdown of the report.
  \<^item> \<open>Arrival_Statistics\<close>, \<open>Arrival_Rates\<close>, \<open>Arrival_Capacity\<close>, \<open>Arrival_Diagnostics\<close>: percentiles and
    the bounded accumulator; event rates and gaps; the queue simulation; the combined analysis with
    its checkpoints (\<open>analysis_loop\<close> over a source that may fail). \<open>Arrival_Correct\<close>: the simulation
    against a first-in first-out queue. \<open>Arrival_Streams\<close>, \<open>Arrival_Windows\<close>: streaming against list
    analysis. \<open>Arrival_Resume\<close>: an interrupted pass that resumes, and when the report exists.
  \<^item> \<open>Research_Policy\<close>, \<open>Research_Experiments\<close>, \<open>Research_Correct\<close>: the ablation and random policies
    as instances of \<open>signal_policy\<close>, the studies of \<open>experiments.py\<close>, a locale of engines that never
    signal with the no-trade baseline, the ablation against the thresholds it leaves
    (\<open>ablated_direction\<close>), and the completeness of the grid.
  \<^item> \<open>Dataset_Splits\<close>: \<open>chronological_split\<close> and \<open>walk_forward_windows\<close>.
  \<^item> \<open>Feature_Analysis\<close>, \<open>Feature_Agreement\<close>: feature distributions and candidate counts, streaming
    against list, and the rank estimated for a threshold.
  \<^item> \<open>Provider_Values\<close>, \<open>Provider_Adapter\<close>: JSON values, \<open>Decimal\<close> prices and timestamps; the row
    adapter, its numbering and its order. \<open>Provider_Download\<close>, \<open>Download_Correct\<close>: requests with
    retries, the page loop, the download to a file; how they end, and that they agree.
  \<^item> \<open>Streaming_Replay\<close>: \<open>run_streaming_replay\<close>, with its counters and its heaps of pending returns.
    \<open>Desk_Views\<close>: the locale \<open>portfolio_view\<close> of what a desk may forget without acting differently,
    interpreted for the view that keeps no record and for the one that replaces the equity curve.
    \<open>Streaming_Correct\<close>: agreement with the batch replay, its drawdown by the locale
    \<open>streaming_mark_law\<close>. \<open>Streaming_Sessions\<close>: sessions recognised by repeated numbers.
    \<open>Streaming_Forward\<close>: every event is counted, and the rows of the heaps are the rows of the
    candidates (\<open>streaming_candidates\<close>).
    \<open>Streaming_Partitions\<close>: \<open>heapq.merge\<close> of provider files against the canonical sort. \<open>Json_Array\<close>:
    the records of a provider file read in chunks, for files as the downloader writes them, files that
    break off and files without the array.
  \<^item> \<open>Event_Generator\<close>: \<open>generate_events.py\<close>, and that every event it makes fits the wire format.
    \<open>Replay_Tool\<close>: \<open>replay_strategy.py\<close>, and what its counters say.

  \<^bold>\<open>How state and operations correspond.\<close> A class is a record of its attributes, a method a function
  from that record to a \<open>result\<close> of what it returns and the new record; a method that calls another
  object takes both states. A raise is an \<open>Inl\<close> with the exception; messages are kept where they
  are fixed text and left out where they print a value with \<open>repr\<close>. Dicts are association lists in
  insertion order. Generators are the list they yield and the exception that ended them. Integers
  are unbounded, as in Python; the widths of the wire and of saturation are written out.

  \<^bold>\<open>Parameters.\<close> Floats are the rationals they denote, and every float operation of the source is the
  exact operation followed by \<open>rnd\<close>: \<open>fl64\<close> gives binary64 without infinities, not-a-number,
  subnormals and overflow; theorems that hold for every rounding leave \<open>rnd\<close> free. \<open>sum\<close> over
  floats depends on the interpreter and is an argument of \<open>compute_metrics\<close>, with its two definitions
  as instances; the sums of the desk, in \<open>gross_exposure\<close> and \<open>equity_point_of\<close>, add from the left, as
  CPython does up to version 3.11; float square root, power and standard deviation are the record
  \<open>float_math\<close>. The
  printed text that orders the groups of forward returns is the argument \<open>item_text\<close>. The time-zone
  database is the argument \<open>clock\<close>, from a timestamp to the local year, date ordinal and time of day; it is
  total, that is for timestamps in the years of \<open>datetime\<close>, except in \<open>run_backtest_at\<close>, where
  \<open>zone\<close> may raise.
  The studies take these arguments as the record \<open>replay_env\<close>; the draws of the random baseline are a
  sequence. A raise inside \<open>observe\<close> of the combined analysis leaves a state that is a parameter.

  \<^bold>\<open>Recursion.\<close> Loops over inputs are folds or structural recursions; the binary readers consume their
  bytes, with the number of bytes left as the measure. The window loop of \<open>walk_forward_windows\<close>
  need not end (a negative step), so it is a partial function into \<open>option\<close>, and its divergence is
  characterised. The page loops are \<open>while_option\<close>, and end when the bodies that are
  served name finitely many tokens. The loops of \<open>iter_json_array\<close> are partial functions too, and the
  files on which they do not end are characterised.
  No fuel is used.

  \<^bold>\<open>Not modelled.\<close>
  \<^item> \<open>DataQualityReport.to_dict\<close>, \<open>BacktestConfig.from_mapping\<close>.
  \<^item> CSV cells with quotes (the writer never produces them) and text outside Latin-1.
  \<^item> In \<open>arrival.py\<close>, the progress reports and the file operations of the two checkpoint files.
  \<^item> In \<open>streaming.py\<close>, the progress reports; the merge takes the records of its files as the argument \<open>read\<close>,
    and \<open>iter_json_array\<close> the decoder as \<open>scan\<close>. In \<open>providers.py\<close>, directories, the exponent
    limits of decimals, and the operations the
    code is given: the opener, the pauses, the JSON decoder and the digest, in the record \<open>http\<close> and as
    arguments, and \<open>datetime.fromisoformat\<close> as \<open>from_iso\<close>.
  \<^item> \<open>reports.py\<close>, \<open>run_backtest.py\<close>, \<open>differential_test.py\<close> and the command lines of the tools: plots,
    files, argument parsing and comparison with the simulated hardware.
  \<^item> The C++ host runtime, the SystemVerilog design, configurations and documents.
\<close>

end
